(* ===== verification/Longrun_Prelude.thy ===== *)
theory Longrun_Prelude
  imports Complex_Main
begin

text \<open>
  Shared vocabulary of the development: the exceptions the Python code raises, the
  result of a fallible stateful operation and its sequencing, the fact collections the
  component proofs use, and small generic lemmas on maps and lists.
\<close>

named_theorems db_simps \<open>characteristic equations of the lease store\<close>
named_theorems handler_defs \<open>definitions of the bridge handlers\<close>
named_theorems frame_simps \<open>what an operation leaves unchanged\<close>

section \<open>Exceptions and results\<close>

text \<open>
  One constructor per exception class that the sources raise or catch, with the message
  as it is built by the source.
\<close>

datatype pyexc =
    ValueError string
  | RuntimeError string
  | PermissionError string
  | KeyError string
  | AssertionError string
  | OSError string
  | FileNotFoundError string
  | TimeoutError string
  | IntegrityError string
  | AppServerError string
  | BridgeError string
  | SystemExit string
  | TypeError string
  | AttributeError string
  | CancelledError

text \<open>\<open>str(exc)\<close>: Python renders a \<open>KeyError\<close> by the repr of its key.\<close>

fun exc_str :: "pyexc \<Rightarrow> string" where
  "exc_str (ValueError m) = m"
| "exc_str (RuntimeError m) = m"
| "exc_str (PermissionError m) = m"
| "exc_str (KeyError m) = [CHR 0x27] @ m @ [CHR 0x27]"
| "exc_str (AssertionError m) = m"
| "exc_str (OSError m) = m"
| "exc_str (FileNotFoundError m) = m"
| "exc_str (TimeoutError m) = m"
| "exc_str (IntegrityError m) = m"
| "exc_str (AppServerError m) = m"
| "exc_str (BridgeError m) = m"
| "exc_str (SystemExit m) = m"
| "exc_str (TypeError m) = m"
| "exc_str (AttributeError m) = m"
| "exc_str CancelledError = []"

text \<open>\<open>type(exc).__name__\<close>.\<close>

fun exc_name :: "pyexc \<Rightarrow> string" where
  "exc_name (ValueError _) = ''ValueError''"
| "exc_name (RuntimeError _) = ''RuntimeError''"
| "exc_name (PermissionError _) = ''PermissionError''"
| "exc_name (KeyError _) = ''KeyError''"
| "exc_name (AssertionError _) = ''AssertionError''"
| "exc_name (OSError _) = ''OSError''"
| "exc_name (FileNotFoundError _) = ''FileNotFoundError''"
| "exc_name (TimeoutError _) = ''TimeoutError''"
| "exc_name (IntegrityError _) = ''IntegrityError''"
| "exc_name (AppServerError _) = ''AppServerError''"
| "exc_name (BridgeError _) = ''BridgeError''"
| "exc_name (SystemExit _) = ''SystemExit''"
| "exc_name (TypeError _) = ''TypeError''"
| "exc_name (AttributeError _) = ''AttributeError''"
| "exc_name CancelledError = ''CancelledError''"

text \<open>
  A stateful operation maps a state to the state it leaves behind and to the exception it
  raised or the value it returned. Python keeps the mutations made before a raise, so the
  state is returned in both cases. \<open>and_then\<close> is sequential composition.
\<close>

type_synonym ('s, 'a) outcome = "'s \<times> (pyexc + 'a)"

definition and_then ::
  "('s, 'a) outcome \<Rightarrow> ('a \<Rightarrow> 's \<Rightarrow> ('s, 'b) outcome) \<Rightarrow> ('s, 'b) outcome" where
  "and_then m f = (case m of (s, Inl e) \<Rightarrow> (s, Inl e) | (s, Inr a) \<Rightarrow> f a s)"

lemma and_then_simps [simp]:
  "and_then (s, Inl e) f = (s, Inl e)"
  "and_then (s, Inr a) f = f a s"
  by (simp_all add: and_then_def)

lemma and_then_split:
  "P (and_then m f) \<longleftrightarrow>
     (\<forall>s e. m = (s, Inl e) \<longrightarrow> P (s, Inl e)) \<and> (\<forall>s a. m = (s, Inr a) \<longrightarrow> P (f a s))"
  by (cases m) (auto simp: and_then_def split: sum.splits)

lemma and_then_assoc:
  "and_then (and_then m f) g = and_then m (\<lambda>a s. and_then (f a s) g)"
  by (cases m) (auto simp: and_then_def split: sum.splits)

text \<open>The same for code that has no state of its own: a raise ends it.\<close>

definition bindr :: "pyexc + 'a \<Rightarrow> ('a \<Rightarrow> pyexc + 'b) \<Rightarrow> pyexc + 'b" where
  "bindr m f = (case m of Inl e \<Rightarrow> Inl e | Inr a \<Rightarrow> f a)"

lemma bindr_simps [simp]:
  "bindr (Inl e) f = Inl e"
  "bindr (Inr a) f = f a"
  by (simp_all add: bindr_def)

lemma bindr_Inr: "bindr m f = Inr b \<longleftrightarrow> (\<exists>a. m = Inr a \<and> f a = Inr b)"
  by (cases m) auto

text \<open>Clock readings (\<open>time.time()\<close>, \<open>time.monotonic()\<close>) are rational seconds.\<close>

type_synonym clock = rat

section \<open>Strings\<close>

definition lower_char :: "char \<Rightarrow> char" where
  "lower_char c =
     (let n = of_char c :: nat in if 65 \<le> n \<and> n \<le> 90 then char_of (n + 32) else c)"

text \<open>\<open>str.lower()\<close> on ASCII text.\<close>

definition lower :: "string \<Rightarrow> string" where
  "lower s = map lower_char s"

lemma length_lower [simp]: "length (lower s) = length s"
  by (simp add: lower_def)

lemma lower_char_idem [simp]: "lower_char (lower_char c) = lower_char c"
proof (cases "65 \<le> (of_char c :: nat) \<and> (of_char c :: nat) \<le> 90")
  case True
  then have "(of_char (lower_char c) :: nat) = of_char c + 32"
    by (simp add: lower_char_def Let_def)
  with True show ?thesis
    by (simp add: lower_char_def [of "lower_char c"] Let_def)
next
  case False
  then have "lower_char c = c" by (auto simp: lower_char_def Let_def)
  then show ?thesis by simp
qed

lemma lower_idem [simp]: "lower (lower s) = lower s"
  by (simp add: lower_def)

section \<open>Lists keyed by a field\<close>

text \<open>
  A table is a list of rows with distinct keys. These lemmas carry the store proofs: what
  a keyed lookup returns, and what an update of the row with one key does to it.
\<close>

lemma find_SomeD: "find P xs = Some x \<Longrightarrow> x \<in> set xs \<and> P x"
  by (auto simp: find_Some_iff)

lemma find_Some_unique:
  assumes "distinct (map f xs)" and "x \<in> set xs"
  shows "find (\<lambda>y. f y = f x) xs = Some x"
  using assms
proof (induction xs)
  case Nil
  then show ?case by simp
next
  case (Cons a xs)
  then show ?case by (auto simp: rev_image_eqI)
qed

lemma find_None_key: "find (\<lambda>y. f y = k) xs = None \<longleftrightarrow> k \<notin> f ` set xs"
  by (auto simp: find_None_iff)

lemma find_map_other:
  assumes "\<And>x. f (g x) = f x" and "k \<noteq> j"
  shows "find (\<lambda>y. f y = k) (map (\<lambda>x. if f x = j then g x else x) xs)
       = find (\<lambda>y. f y = k) xs"
  using assms by (induction xs) auto

lemma find_map_same:
  assumes "\<And>x. f (g x) = f x"
  shows "find (\<lambda>y. f y = j) (map (\<lambda>x. if f x = j then g x else x) xs)
       = map_option g (find (\<lambda>y. f y = j) xs)"
  using assms by (induction xs) auto

lemma map_key_update:
  assumes "\<And>x. f (g x) = f x"
  shows "map f (map (\<lambda>x. if f x = j then g x else x) xs) = map f xs"
  using assms by (induction xs) auto

lemma distinct_key_eq:
  "distinct (map f xs) \<Longrightarrow> x \<in> set xs \<Longrightarrow> y \<in> set xs \<Longrightarrow> f x = f y \<Longrightarrow> x = y"
  by (induction xs) (auto simp: rev_image_eqI)

text \<open>
  Replacing one element \<open>a\<close> of a set by \<open>u a\<close>, with the same image under
  \<open>f\<close>: \<open>f\<close> stays injective on the elements satisfying \<open>P\<close> unless the new
  element satisfies \<open>P\<close> and another one with that image does.
\<close>

lemma inj_on_update_one:
  assumes inj: "inj_on f {x \<in> A. P x}" and a: "a \<in> A"
    and u: "\<And>x. x \<in> A \<Longrightarrow> x \<noteq> a \<Longrightarrow> u x = x \<and> u a \<noteq> x" and f: "f (u a) = f a"
  shows "inj_on f {x \<in> u ` A. P x} \<longleftrightarrow> \<not> (P (u a) \<and> (\<exists>x \<in> A. x \<noteq> a \<and> f x = f a \<and> P x))"
    (is "?L \<longleftrightarrow> ?R")
proof
  assume L: ?L
  show ?R
  proof (intro notI, elim conjE bexE)
    fix x
    assume x: "P (u a)" "x \<in> A" "x \<noteq> a" "f x = f a" "P x"
    then have "u a \<in> {x \<in> u ` A. P x}" "x \<in> {x \<in> u ` A. P x}"
      using a u [OF x(2,3)] by force+
    then have "u a = x" using inj_onD [OF L] x(4) f by metis
    then show False using u [OF x(2,3)] by blast
  qed
next
  assume R: ?R
  have uA: "x = u a \<or> x \<in> A \<and> x \<noteq> a" if "x \<in> u ` A" for x
    using that u by (metis imageE)
  show ?L
  proof (rule inj_onI)
    fix x y
    assume "x \<in> {x \<in> u ` A. P x}" "y \<in> {x \<in> u ` A. P x}" and eq: "f x = f y"
    then have x: "x \<in> u ` A" "P x" and y: "y \<in> u ` A" "P y" by auto
    show "x = y"
    proof (cases "x = u a \<or> y = u a")
      case True
      then show ?thesis using R f eq uA [OF x(1)] uA [OF y(1)] x(2) y(2) by metis
    next
      case False
      then have "x \<in> {x \<in> A. P x}" "y \<in> {x \<in> A. P x}"
        using uA x y by auto
      then show ?thesis using inj_onD [OF inj eq] by blast
    qed
  qed
qed

end
