(* ===== verification/Py_Json.thy ===== *)
theory Py_Json
  imports Longrun_Prelude
begin

text \<open>
  JSON values as the Python \<open>json\<close> module decodes them, with the operations the
  sources apply to them: \<open>dict.get\<close>, the \<open>isinstance\<close> and \<open>type(...) is\<close> tests,
  \<open>==\<close> and truth testing. Python's \<open>bool\<close> is a subclass of \<open>int\<close>, so
  \<open>isinstance(True, int)\<close> holds and \<open>True == 1\<close>; the sources' checks are kept with
  that reading. A float is a decimal \<open>m / 10^k\<close>.
\<close>

datatype json =
    JNull
  | JBool bool
  | JInt int
  | JFloat int nat
  | JStr string
  | JArr "json list"
  | JObj "(string \<times> json) list"

type_synonym jfields = "(string \<times> json) list"

section \<open>Lookup and type tests\<close>

definition jfield :: "string \<Rightarrow> jfields \<Rightarrow> json" where
  "jfield k kvs = (case map_of kvs k of None \<Rightarrow> JNull | Some v \<Rightarrow> v)"

text \<open>\<open>d.get(k)\<close>; the sources call it on values already known to be a \<open>dict\<close>.\<close>

fun jget :: "string \<Rightarrow> json \<Rightarrow> json" where
  "jget k (JObj kvs) = jfield k kvs"
| "jget k _ = JNull"

text \<open>\<open>k in d\<close> and \<open>d.get(k, default)\<close>.\<close>

fun jhas :: "string \<Rightarrow> json \<Rightarrow> bool" where
  "jhas k (JObj kvs) = (map_of kvs k \<noteq> None)"
| "jhas k _ = False"

definition jget_default :: "string \<Rightarrow> json \<Rightarrow> json \<Rightarrow> json" where
  "jget_default k d v = (if jhas k v then jget k v else d)"

fun is_dict :: "json \<Rightarrow> bool" where
  "is_dict (JObj _) = True"
| "is_dict _ = False"

fun is_str :: "json \<Rightarrow> bool" where
  "is_str (JStr _) = True"
| "is_str _ = False"

text \<open>\<open>isinstance(v, int)\<close> and \<open>type(v) is int\<close>.\<close>

fun isinstance_int :: "json \<Rightarrow> bool" where
  "isinstance_int (JInt _) = True"
| "isinstance_int (JBool _) = True"
| "isinstance_int _ = False"

fun type_is_int :: "json \<Rightarrow> bool" where
  "type_is_int (JInt _) = True"
| "type_is_int _ = False"

text \<open>The integer value of a value that passed \<open>isinstance(v, int)\<close>.\<close>

fun int_of_json :: "json \<Rightarrow> int" where
  "int_of_json (JInt i) = i"
| "int_of_json (JBool b) = of_bool b"
| "int_of_json _ = 0"

fun str_of_json :: "json \<Rightarrow> string" where
  "str_of_json (JStr s) = s"
| "str_of_json _ = []"

section \<open>Equality\<close>

text \<open>
  Numbers of all three kinds compare by value: a number is a pair of a mantissa and a
  power of ten.
\<close>

fun number_of :: "json \<Rightarrow> (int \<times> nat) option" where
  "number_of (JBool b) = Some (of_bool b, 0)"
| "number_of (JInt i) = Some (i, 0)"
| "number_of (JFloat m k) = Some (m, k)"
| "number_of _ = None"

definition num_eq :: "int \<times> nat \<Rightarrow> int \<times> nat \<Rightarrow> bool" where
  "num_eq x y \<longleftrightarrow> fst x * 10 ^ snd y = fst y * 10 ^ snd x"

text \<open>
  \<open>a == b\<close>: lists compare element by element, dicts compare as maps, whatever the
  order of their keys.
\<close>

function (sequential) py_eq :: "json \<Rightarrow> json \<Rightarrow> bool" where
  "py_eq JNull JNull = True"
| "py_eq (JStr s) (JStr t) = (s = t)"
| "py_eq (JArr xs) (JArr ys) =
     (length xs = length ys \<and> list_all (\<lambda>(x, y). py_eq x y) (zip xs ys))"
| "py_eq (JObj xs) (JObj ys) =
     (length xs = length ys \<and>
      list_all (\<lambda>(k, v). case map_of ys k of None \<Rightarrow> False | Some w \<Rightarrow> py_eq v w) xs)"
| "py_eq x y = (case (number_of x, number_of y) of
      (Some a, Some b) \<Rightarrow> num_eq a b
    | _ \<Rightarrow> False)"
  by pat_completeness auto

lemma size_arr_elem: "(x, y) \<in> set (zip xs ys) \<Longrightarrow> size x < Suc (size_list size xs)"
  by (drule set_zip_leftD) (simp add: size_list_estimation less_Suc_eq_le size_list_estimation')

lemma size_obj_elem:
  "(k, v) \<in> set xs \<Longrightarrow> size v < Suc (size_list (size_prod (\<lambda>_. 0) size) xs)"
  by (induction xs) auto

termination py_eq
  by (relation "measure (\<lambda>(x, _). size x)") (auto dest: size_arr_elem size_obj_elem)

text \<open>\<open>bool(v)\<close>.\<close>

fun truthy :: "json \<Rightarrow> bool" where
  "truthy JNull = False"
| "truthy (JBool b) = b"
| "truthy (JInt i) = (i \<noteq> 0)"
| "truthy (JFloat m _) = (m \<noteq> 0)"
| "truthy (JStr s) = (s \<noteq> [])"
| "truthy (JArr xs) = (xs \<noteq> [])"
| "truthy (JObj xs) = (xs \<noteq> [])"

definition json_opt_str :: "string option \<Rightarrow> json" where
  "json_opt_str x = (case x of None \<Rightarrow> JNull | Some s \<Rightarrow> JStr s)"

section \<open>Dictionaries\<close>

text \<open>\<open>d[k] = v\<close> and \<open>d.update(...)\<close>: a known key keeps its place, a new one is appended.\<close>

fun dict_set :: "string \<Rightarrow> json \<Rightarrow> jfields \<Rightarrow> jfields" where
  "dict_set k v [] = [(k, v)]"
| "dict_set k v ((k', v') # kvs) = (if k' = k then (k, v) # kvs else (k', v') # dict_set k v kvs)"

definition dict_update :: "jfields \<Rightarrow> jfields \<Rightarrow> jfields" where
  "dict_update new kvs = fold (\<lambda>(k, v). dict_set k v) new kvs"

lemma map_of_dict_set [simp]: "map_of (dict_set k v kvs) = (map_of kvs)(k \<mapsto> v)"
  by (induction kvs) auto

lemma map_of_dict_update: "map_of (dict_update new kvs) k =
    (case map_of (List.rev new) k of None \<Rightarrow> map_of kvs k | Some v \<Rightarrow> Some v)"
  unfolding dict_update_def
  by (induction new arbitrary: kvs) (auto simp: map_add_def split: option.splits)

lemma jfield_dict_set: "jfield j (dict_set k v kvs) = (if j = k then v else jfield j kvs)"
  by (simp add: jfield_def)

lemma jfield_dict_update: "jfield j (dict_update new kvs) =
    (case map_of (List.rev new) j of None \<Rightarrow> jfield j kvs | Some v \<Rightarrow> v)"
  by (simp add: jfield_def map_of_dict_update split: option.splits)

lemma num_eq_int [simp]: "num_eq (a, 0) (b, 0) \<longleftrightarrow> a = b"
  by (simp add: num_eq_def)

lemma py_eq_str [simp]: "py_eq v (JStr s) \<longleftrightarrow> v = JStr s"
  by (cases v) auto

lemma py_eq_JInt: "py_eq v (JInt i) \<longleftrightarrow> (\<exists>n. number_of v = Some n \<and> num_eq n (i, 0))"
  by (cases v) auto

lemma py_eq_int_int [simp]: "py_eq (JInt a) (JInt b) \<longleftrightarrow> a = b"
  by (simp add: num_eq_def)

lemma type_is_int_iff: "type_is_int v \<longleftrightarrow> (\<exists>i. v = JInt i)"
  by (cases v) auto

lemma is_dict_iff: "is_dict v \<longleftrightarrow> (\<exists>kvs. v = JObj kvs)"
  by (cases v) auto

end
