(* ===== verification/Bridge_State.thy ===== *)
theory Bridge_State
  imports Py_Json
begin

text \<open>
  The crash-aware SQLite state of the bridge (\<open>bridge_state.py\<close>): the table
  \<open>wake_leases\<close> with its primary key and its partial unique index, the append-only
  table \<open>bridge_events\<close>, and the operations of the class \<open>BridgeState\<close>, each one
  transaction. The theory ends with the interface the bridges rely on, the locale
  \<open>lease_store\<close>, and its interpretation on these operations.
\<close>

section \<open>Leases\<close>

text \<open>
  The text columns \<open>state\<close>, \<open>delivery_state\<close>, \<open>handoff_state\<close> and
  \<open>wake_mode\<close> only ever hold the literals the sources write.
\<close>

datatype lease_state =
  L_preparing | L_armed | L_terminal | L_delivered | L_abandoned | L_failed

datatype delivery_state =
  D_pending | D_waiting_for_idle | D_waiting_for_handoff | D_activating
| D_resumed | D_abandoned | D_needs_manual_recovery

datatype handoff_state =
  H_not_applicable | H_pending | H_interrupting | H_recording_receipt | H_ready

datatype wake_mode = M_goal | M_session

fun delivery_str :: "delivery_state \<Rightarrow> string" where
  "delivery_str D_pending = ''pending''"
| "delivery_str D_waiting_for_idle = ''waiting_for_idle''"
| "delivery_str D_waiting_for_handoff = ''waiting_for_handoff''"
| "delivery_str D_activating = ''activating''"
| "delivery_str D_resumed = ''resumed''"
| "delivery_str D_abandoned = ''abandoned''"
| "delivery_str D_needs_manual_recovery = ''needs_manual_recovery''"

fun lease_state_str :: "lease_state \<Rightarrow> string" where
  "lease_state_str L_preparing = ''preparing''"
| "lease_state_str L_armed = ''armed''"
| "lease_state_str L_terminal = ''terminal''"
| "lease_state_str L_delivered = ''delivered''"
| "lease_state_str L_abandoned = ''abandoned''"
| "lease_state_str L_failed = ''failed''"

fun handoff_str :: "handoff_state \<Rightarrow> string" where
  "handoff_str H_not_applicable = ''not_applicable''"
| "handoff_str H_pending = ''pending''"
| "handoff_str H_interrupting = ''interrupting''"
| "handoff_str H_recording_receipt = ''recording_receipt''"
| "handoff_str H_ready = ''ready''"

record wake_lease =
  job_id :: string
  thread_id :: string
  objective :: string
  goal_created_at :: int
  goal_updated_at :: int
  lease_state :: lease_state
  deadline_at :: clock
  terminal_state :: "string option"
  delivery_state :: delivery_state
  lease_error :: "string option"
  wake_mode :: wake_mode
  turn_id :: "string option"
  call_id :: "string option"
  handoff_state :: handoff_state
  receipt_state :: "string option"
  wake_turn_id :: "string option"

text \<open>A row of \<open>wake_leases\<close> carries two more columns than the dataclass shows.\<close>

record lease_row = wake_lease +
  created_at :: clock
  updated_at :: clock

record bridge_event =
  event_job :: string
  event_name :: string
  event_details :: jfields
  event_at :: clock

text \<open>
  The database: lease rows in rowid order, events in the order of their
  \<open>AUTOINCREMENT\<close> id.
\<close>

record bridge_db =
  rows :: "lease_row list"
  events :: "bridge_event list"

definition empty_db :: bridge_db where
  "empty_db = \<lparr>rows = [], events = []\<rparr>"

text \<open>\<open>_lease(row)\<close>: the dataclass view of a row.\<close>

definition lease_of_row :: "lease_row \<Rightarrow> wake_lease" where
  "lease_of_row r = wake_lease.truncate r"

text \<open>\<open>state IN ('preparing', 'armed', 'terminal')\<close>, in the index and in the queries.\<close>

definition live_state :: "lease_state \<Rightarrow> bool" where
  "live_state st \<longleftrightarrow> st \<in> {L_preparing, L_armed, L_terminal}"

definition is_live :: "'a wake_lease_scheme \<Rightarrow> bool" where
  "is_live l \<longleftrightarrow> live_state (lease_state l)"

text \<open>
  The constraints SQLite enforces on the table: the primary key and the partial unique
  index \<open>one_live_lease_per_thread\<close>. A statement that would break one of them raises
  \<open>IntegrityError\<close> and its transaction is rolled back.
\<close>

definition one_live_lease_per_thread :: "lease_row list \<Rightarrow> bool" where
  "one_live_lease_per_thread rs \<longleftrightarrow> distinct (map thread_id (filter is_live rs))"

definition constraints_ok :: "lease_row list \<Rightarrow> bool" where
  "constraints_ok rs \<longleftrightarrow> distinct (map job_id rs) \<and> one_live_lease_per_thread rs"

section \<open>Queries\<close>

definition db_get :: "bridge_db \<Rightarrow> string \<Rightarrow> wake_lease option" where
  "db_get d j = map_option lease_of_row (find (\<lambda>r. job_id r = j) (rows d))"

definition db_pending :: "bridge_db \<Rightarrow> wake_lease list" where
  "db_pending d = map lease_of_row (sort_key created_at (filter is_live (rows d)))"

text \<open>\<open>ORDER BY created_at DESC LIMIT 1\<close>.\<close>

definition db_live_for_thread :: "bridge_db \<Rightarrow> string \<Rightarrow> wake_lease option" where
  "db_live_for_thread d t =
     (case sort_key (\<lambda>r. - created_at r) (filter (\<lambda>r. thread_id r = t \<and> is_live r) (rows d)) of
        [] \<Rightarrow> None
      | r # _ \<Rightarrow> Some (lease_of_row r))"

section \<open>Updates\<close>

definition event_locked ::
  "clock \<Rightarrow> string \<Rightarrow> string \<Rightarrow> jfields \<Rightarrow> bridge_db \<Rightarrow> bridge_db" where
  "event_locked now j name details d =
     d\<lparr>events := events d @ [\<lparr>event_job = j, event_name = name,
                             event_details = details, event_at = now\<rparr>]\<rparr>"

definition db_event ::
  "clock \<Rightarrow> string \<Rightarrow> string \<Rightarrow> jfields \<Rightarrow> bridge_db \<Rightarrow> bridge_db" where
  "db_event now j name details d = event_locked now j name details d"

text \<open>The keyword arguments of \<open>create_lease\<close>.\<close>

record new_lease =
  nl_job_id :: string
  nl_thread_id :: string
  nl_objective :: string
  nl_goal_created_at :: int
  nl_goal_updated_at :: int
  nl_deadline_at :: clock
  nl_wake_mode :: wake_mode
  nl_turn_id :: "string option"
  nl_call_id :: "string option"

definition row_of_new :: "clock \<Rightarrow> new_lease \<Rightarrow> lease_row" where
  "row_of_new now n =
     \<lparr>job_id = nl_job_id n, thread_id = nl_thread_id n, objective = nl_objective n,
      goal_created_at = nl_goal_created_at n, goal_updated_at = nl_goal_updated_at n,
      lease_state = L_preparing, deadline_at = nl_deadline_at n, terminal_state = None,
      delivery_state = D_pending, lease_error = None, wake_mode = nl_wake_mode n,
      turn_id = nl_turn_id n, call_id = nl_call_id n,
      handoff_state = (if nl_wake_mode n = M_session then H_pending else H_not_applicable),
      receipt_state = None, wake_turn_id = None, created_at = now, updated_at = now\<rparr>"

definition db_insert :: "clock \<Rightarrow> new_lease \<Rightarrow> bridge_db \<Rightarrow> bridge_db" where
  "db_insert now n d =
     event_locked now (nl_job_id n) ''prepare'' [(''thread_id'', JStr (nl_thread_id n))]
       (d\<lparr>rows := rows d @ [row_of_new now n]\<rparr>)"

definition create_lease ::
  "clock \<Rightarrow> new_lease \<Rightarrow> bridge_db \<Rightarrow> (bridge_db, wake_lease) outcome" where
  "create_lease now n d =
     (if constraints_ok (rows (db_insert now n d))
      then (case db_get (db_insert now n d) (nl_job_id n) of
              None \<Rightarrow> (db_insert now n d, Inl (AssertionError []))
            | Some l \<Rightarrow> (db_insert now n d, Inr l))
      else (case db_get d (nl_job_id n) of
              Some existing \<Rightarrow>
                if thread_id existing \<noteq> nl_thread_id n
                then (d, Inl (RuntimeError ''job ID is already registered for a different thread''))
                else (d, Inr existing)
            | None \<Rightarrow>
                (d, Inl (RuntimeError ''this thread already has a live longrun wake lease''))))"

text \<open>
  The keyword arguments of \<open>update\<close>. The method accepts any name and refuses those
  outside its list; \<open>F_other\<close> stands for a name it refuses.
\<close>

datatype lease_field =
    F_state lease_state
  | F_terminal_state string
  | F_delivery_state delivery_state
  | F_error string
  | F_goal_updated_at int
  | F_handoff_state handoff_state
  | F_receipt_state string
  | F_wake_turn_id string
  | F_other string

fun field_allowed :: "lease_field \<Rightarrow> bool" where
  "field_allowed (F_other _) = False"
| "field_allowed _ = True"

fun set_field :: "lease_field \<Rightarrow> 'a wake_lease_scheme \<Rightarrow> 'a wake_lease_scheme" where
  "set_field (F_state v) r = r\<lparr>lease_state := v\<rparr>"
| "set_field (F_terminal_state v) r = r\<lparr>terminal_state := Some v\<rparr>"
| "set_field (F_delivery_state v) r = r\<lparr>delivery_state := v\<rparr>"
| "set_field (F_error v) r = r\<lparr>lease_error := Some v\<rparr>"
| "set_field (F_goal_updated_at v) r = r\<lparr>goal_updated_at := v\<rparr>"
| "set_field (F_handoff_state v) r = r\<lparr>handoff_state := v\<rparr>"
| "set_field (F_receipt_state v) r = r\<lparr>receipt_state := Some v\<rparr>"
| "set_field (F_wake_turn_id v) r = r\<lparr>wake_turn_id := Some v\<rparr>"
| "set_field (F_other _) r = r"

fun field_json :: "lease_field \<Rightarrow> string \<times> json" where
  "field_json (F_state v) = (''state'', JStr (lease_state_str v))"
| "field_json (F_terminal_state v) = (''terminal_state'', JStr v)"
| "field_json (F_delivery_state v) = (''delivery_state'', JStr (delivery_str v))"
| "field_json (F_error v) = (''error'', JStr v)"
| "field_json (F_goal_updated_at v) = (''goal_updated_at'', JInt v)"
| "field_json (F_handoff_state v) = (''handoff_state'', JStr (handoff_str v))"
| "field_json (F_receipt_state v) = (''receipt_state'', JStr v)"
| "field_json (F_wake_turn_id v) = (''wake_turn_id'', JStr v)"
| "field_json (F_other n) = (n, JNull)"

definition set_fields :: "lease_field list \<Rightarrow> 'a wake_lease_scheme \<Rightarrow> 'a wake_lease_scheme" where
  "set_fields fs r = fold set_field fs r"

text \<open>
  \<open>UPDATE wake_leases SET ... WHERE job_id = ?\<close> in one transaction with its event: an
  unknown job is a \<open>KeyError\<close>, a broken index an \<open>IntegrityError\<close>, and both roll
  the transaction back. \<open>db_put\<close> is the database after the commit; the event's time is
  the \<open>updated_at\<close> that the call stores and logs.
\<close>

definition updated_rows ::
  "clock \<Rightarrow> string \<Rightarrow> lease_field list \<Rightarrow> lease_row list \<Rightarrow> lease_row list" where
  "updated_rows now j fs rs =
     map (\<lambda>r. if job_id r = j then (set_fields fs r)\<lparr>updated_at := now\<rparr> else r) rs"

definition db_put :: "clock \<Rightarrow> string \<Rightarrow> lease_field list \<Rightarrow> bridge_db \<Rightarrow> bridge_db" where
  "db_put now j fs d =
     event_locked now j ''update'' (map field_json fs) (d\<lparr>rows := updated_rows now j fs (rows d)\<rparr>)"

definition db_update ::
  "clock \<Rightarrow> string \<Rightarrow> lease_field list \<Rightarrow> bridge_db \<Rightarrow> (bridge_db, wake_lease) outcome" where
  "db_update now j fs d =
     (if fs = [] \<or> \<not> list_all field_allowed fs
      then (d, Inl (ValueError ''invalid wake lease update''))
      else if \<not> constraints_ok (updated_rows now j fs (rows d))
      then (d, Inl (IntegrityError ''UNIQUE constraint failed: wake_leases.thread_id''))
      else if length (filter (\<lambda>r. job_id r = j) (rows d)) \<noteq> 1
      then (d, Inl (KeyError (''unknown wake lease: '' @ j)))
      else (case db_get (db_put now j fs d) j of
              None \<Rightarrow> (db_put now j fs d, Inl (AssertionError []))
            | Some l \<Rightarrow> (db_put now j fs d, Inr l)))"

section \<open>Lemmas on rows\<close>

lemma set_field_key [simp]:
  "job_id (set_field f r) = job_id r" "thread_id (set_field f r) = thread_id r"
  "objective (set_field f r) = objective r" "goal_created_at (set_field f r) = goal_created_at r"
  "deadline_at (set_field f r) = deadline_at r" "wake_mode (set_field f r) = wake_mode r"
  "turn_id (set_field f r) = turn_id r" "call_id (set_field f r) = call_id r"
  by (cases f; simp)+

lemma set_fields_simps [simp]:
  "set_fields [] r = r"
  "set_fields (f # fs) r = set_fields fs (set_field f r)"
  by (simp_all add: set_fields_def)

lemma set_fields_key [simp]:
  "job_id (set_fields fs r) = job_id r" "thread_id (set_fields fs r) = thread_id r"
  "objective (set_fields fs r) = objective r"
  "goal_created_at (set_fields fs r) = goal_created_at r"
  "deadline_at (set_fields fs r) = deadline_at r" "wake_mode (set_fields fs r) = wake_mode r"
  "turn_id (set_fields fs r) = turn_id r" "call_id (set_fields fs r) = call_id r"
  by (induction fs arbitrary: r; simp)+

lemma lease_of_row_simps [simp]:
  "job_id (lease_of_row r) = job_id r" "thread_id (lease_of_row r) = thread_id r"
  "lease_state (lease_of_row r) = lease_state r"
  by (simp_all add: lease_of_row_def wake_lease.truncate_def)

lemma is_live_lease_of_row [simp]: "is_live (lease_of_row r) = is_live r"
  by (simp add: is_live_def)

lemma lease_of_row_set_field [simp]:
  fixes r :: lease_row
  shows "lease_of_row (set_field f r) = set_field f (lease_of_row r)"
  by (cases f) (simp_all add: lease_of_row_def wake_lease.truncate_def)

lemma lease_of_row_set_fields [simp]:
  fixes r :: lease_row
  shows "lease_of_row (set_fields fs r) = set_fields fs (lease_of_row r)"
  by (induction fs arbitrary: r) simp_all

lemma lease_of_row_updated_at [simp]: "lease_of_row (r\<lparr>updated_at := x\<rparr>) = lease_of_row r"
  by (simp add: lease_of_row_def wake_lease.truncate_def)

lemma map_job_id_updated_rows [simp]: "map job_id (updated_rows now j fs rs) = map job_id rs"
  by (induction rs) (auto simp: updated_rows_def)

lemma updated_rows_absent:
  "j \<notin> job_id ` set rs \<Longrightarrow> updated_rows now j fs rs = rs"
  by (induction rs) (auto simp: updated_rows_def)

lemma filter_length_one:
  "distinct (map f xs) \<Longrightarrow> length (filter (\<lambda>x. f x = k) xs) = (if k \<in> f ` set xs then 1 else 0)"
  by (induction xs) (auto simp: filter_empty_conv)

section \<open>The store's laws\<close>

definition store_ok :: "bridge_db \<Rightarrow> bool" where
  "store_ok d \<longleftrightarrow> constraints_ok (rows d)"

lemma rows_event_locked [simp]: "rows (event_locked now j n ds d) = rows d"
  by (simp add: event_locked_def)

lemma db_get_event_locked [simp]: "db_get (event_locked now j n ds d) = db_get d"
  by (simp add: db_get_def fun_eq_iff)

lemma db_get_key: "db_get d j = Some l \<Longrightarrow> job_id l = j"
  by (auto simp: db_get_def dest!: find_SomeD)

lemma db_get_SomeD:
  assumes "db_get d j = Some l"
  obtains r where "r \<in> set (rows d)" "job_id r = j" "l = lease_of_row r"
  using assms by (auto simp: db_get_def dest!: find_SomeD)

lemma db_get_row:
  assumes "store_ok d" and "r \<in> set (rows d)"
  shows "db_get d (job_id r) = Some (lease_of_row r)"
  using assms by (simp add: db_get_def store_ok_def constraints_ok_def find_Some_unique)

lemma db_get_None: "db_get d j = None \<longleftrightarrow> j \<notin> job_id ` set (rows d)"
  by (simp add: db_get_def find_None_key)

lemma db_get_put:
  "db_get (db_put now j fs d) k =
     (if k = j then map_option (set_fields fs) (db_get d k) else db_get d k)"
  by (simp add: db_get_def db_put_def updated_rows_def option.map_comp o_def
        find_map_same [where f = job_id and g = "\<lambda>r. (set_fields fs r)\<lparr>updated_at := now\<rparr>"]
        find_map_other [where f = job_id and g = "\<lambda>r. (set_fields fs r)\<lparr>updated_at := now\<rparr>"])

text \<open>
  The index survives an update unless it revives a dead lease: the live rows after the
  update are among the live rows before it, with the same threads.
\<close>

lemma live_threads_updated_rows:
  assumes "\<And>r. r \<in> set rs \<Longrightarrow> job_id r = j \<Longrightarrow> is_live (set_fields fs r) \<Longrightarrow> is_live r"
    and "distinct (map thread_id (filter is_live rs))"
  shows "distinct (map thread_id (filter is_live (updated_rows now j fs rs)))
       \<and> set (map thread_id (filter is_live (updated_rows now j fs rs)))
           \<subseteq> set (map thread_id (filter is_live rs))"
  using assms
proof (induction rs)
  case Nil
  then show ?case by (simp add: updated_rows_def)
next
  case (Cons r rs)
  let ?u = "\<lambda>rs. updated_rows now j fs rs"
  have eq: "?u (r # rs) = (if job_id r = j then (set_fields fs r)\<lparr>updated_at := now\<rparr> else r) # ?u rs"
    by (simp add: updated_rows_def)
  have live_upd: "is_live ((set_fields fs r)\<lparr>updated_at := now\<rparr>) = is_live (set_fields fs r)"
    by (simp add: is_live_def)
  have "distinct (map thread_id (filter is_live rs))"
    using Cons.prems(2) by (simp split: if_splits)
  then have IH: "distinct (map thread_id (filter is_live (?u rs)))"
      "set (map thread_id (filter is_live (?u rs))) \<subseteq> set (map thread_id (filter is_live rs))"
    using Cons.IH Cons.prems(1) by auto
  have "job_id r = j \<Longrightarrow> is_live (set_fields fs r) \<Longrightarrow> is_live r"
    using Cons.prems(1) [of r] by simp
  with IH Cons.prems(2) show ?case
    by (auto simp: eq live_upd)
qed

lemma live_set_fields_row:
  fixes r :: lease_row
  shows "is_live (set_fields fs (lease_of_row r)) = is_live (set_fields fs r)"
  by (metis is_live_lease_of_row lease_of_row_set_fields)

lemma store_ok_put:
  assumes ok: "store_ok d"
    and keep: "\<And>l. db_get d j = Some l \<Longrightarrow> is_live (set_fields fs l) \<Longrightarrow> is_live l"
  shows "store_ok (db_put now j fs d)"
proof -
  have "is_live r" if r: "r \<in> set (rows d)" "job_id r = j" "is_live (set_fields fs r)" for r
    using keep [of "lease_of_row r"] db_get_row [OF ok r(1)] r(2,3)
    by (simp add: live_set_fields_row)
  then have "distinct (map thread_id (filter is_live (updated_rows now j fs (rows d))))"
    using live_threads_updated_rows [of "rows d" j fs now] ok
    by (auto simp: store_ok_def constraints_ok_def one_live_lease_per_thread_def)
  with ok show ?thesis
    by (simp add: store_ok_def db_put_def constraints_ok_def one_live_lease_per_thread_def)
qed

lemma db_update_ok:
  assumes ok: "store_ok d" and get: "db_get d j = Some l"
    and fs: "fs \<noteq> []" "list_all field_allowed fs"
    and keep: "is_live (set_fields fs l) \<Longrightarrow> is_live l"
  shows "db_update now j fs d = (db_put now j fs d, Inr (set_fields fs l))"
proof -
  have "store_ok (db_put now j fs d)"
    by (rule store_ok_put [OF ok]) (use get keep in simp)
  then have c: "constraints_ok (updated_rows now j fs (rows d))"
    by (simp add: store_ok_def db_put_def)
  have "length (filter (\<lambda>r. job_id r = j) (rows d)) = 1"
    using ok get db_get_None [of d j]
    by (simp add: store_ok_def constraints_ok_def filter_length_one)
  with c fs get show ?thesis
    by (simp add: db_update_def db_get_put)
qed

lemma db_update_unknown:
  assumes "store_ok d" and "db_get d j = None"
  shows "\<exists>e. db_update now j fs d = (d, Inl e)"
  using assms updated_rows_absent [of j "rows d" now fs]
  by (simp add: db_update_def db_get_None store_ok_def constraints_ok_def filter_length_one)

lemma db_update_raise_keeps: "db_update now j fs d = (d', Inl e) \<Longrightarrow> store_ok d \<Longrightarrow> d' = d"
  by (auto simp: db_update_def db_get_put db_get_None store_ok_def constraints_ok_def
        filter_length_one split: if_splits option.splits)

lemma db_update_store_ok:
  "db_update now j fs d = (d', res) \<Longrightarrow> store_ok d \<Longrightarrow> store_ok d'"
  by (auto simp: db_update_def db_put_def store_ok_def split: if_splits option.splits)

text \<open>\<open>live_for_thread\<close> finds exactly the live lease of the thread.\<close>

lemma live_rows_of_thread:
  assumes "one_live_lease_per_thread rs"
  shows "length (filter (\<lambda>r. thread_id r = t \<and> is_live r) rs) \<le> 1"
proof -
  have "filter (\<lambda>r. thread_id r = t \<and> is_live r) rs
      = filter (\<lambda>r. thread_id r = t) (filter is_live rs)"
    by (simp add: conj_commute)
  then show ?thesis
    using assms filter_length_one [of thread_id "filter is_live rs" t]
    by (simp add: one_live_lease_per_thread_def)
qed

lemma db_live_for_thread_iff:
  assumes ok: "store_ok d"
  shows "db_live_for_thread d t = Some l \<longleftrightarrow>
           db_get d (job_id l) = Some l \<and> thread_id l = t \<and> is_live l"
proof -
  let ?F = "filter (\<lambda>r. thread_id r = t \<and> is_live r) (rows d)"
  have len: "length ?F \<le> 1"
    using ok live_rows_of_thread by (simp add: store_ok_def constraints_ok_def)
  show ?thesis
  proof (cases ?F)
    case Nil
    have "\<not> (db_get d (job_id l) = Some l \<and> thread_id l = t \<and> is_live l)"
      using Nil by (auto simp: filter_empty_conv elim!: db_get_SomeD)
    with Nil show ?thesis by (simp add: db_live_for_thread_def)
  next
    case (Cons r rs)
    with len have F: "?F = [r]" by simp
    then have r: "r \<in> set (rows d)" "thread_id r = t" "is_live r"
      by (auto simp: filter_eq_Cons_iff)
    have "r' = r" if "r' \<in> set (rows d)" "thread_id r' = t" "is_live r'" for r'
    proof -
      have "r' \<in> set ?F" using that by simp
      then show ?thesis by (simp add: F)
    qed
    then have "l = lease_of_row r" if "db_get d (job_id l) = Some l" "thread_id l = t" "is_live l"
      using that by (metis db_get_SomeD is_live_lease_of_row lease_of_row_simps(2))
    moreover have "db_live_for_thread d t = Some (lease_of_row r)"
      using F by (simp add: db_live_for_thread_def)
    moreover have "db_get d (job_id (lease_of_row r)) = Some (lease_of_row r)"
      using db_get_row [OF ok r(1)] by simp
    ultimately show ?thesis using r(2,3) by auto
  qed
qed

lemma set_db_pending:
  assumes "store_ok d"
  shows "set (db_pending d) = {l. db_get d (job_id l) = Some l \<and> is_live l}"
  using db_get_row [OF assms]
  by (auto simp: db_pending_def elim!: db_get_SomeD)

lemma distinct_db_pending:
  assumes "store_ok d"
  shows "distinct (map job_id (db_pending d))"
proof -
  have "distinct (map job_id (filter is_live (rows d)))"
    using assms by (simp add: store_ok_def constraints_ok_def distinct_map_filter)
  then show ?thesis
    by (simp add: db_pending_def o_def distinct_map)
qed

section \<open>Creation\<close>

definition lease_of_new :: "new_lease \<Rightarrow> wake_lease" where
  "lease_of_new n = lease_of_row (row_of_new 0 n)"

lemma lease_of_row_of_new [simp]: "lease_of_row (row_of_new now n) = lease_of_new n"
  by (simp add: lease_of_new_def lease_of_row_def row_of_new_def wake_lease.truncate_def)

lemma lease_of_new_simps [simp]:
  "job_id (lease_of_new n) = nl_job_id n" "thread_id (lease_of_new n) = nl_thread_id n"
  "objective (lease_of_new n) = nl_objective n"
  "goal_created_at (lease_of_new n) = nl_goal_created_at n"
  "goal_updated_at (lease_of_new n) = nl_goal_updated_at n"
  "lease_state (lease_of_new n) = L_preparing" "deadline_at (lease_of_new n) = nl_deadline_at n"
  "terminal_state (lease_of_new n) = None" "delivery_state (lease_of_new n) = D_pending"
  "wake_mode (lease_of_new n) = nl_wake_mode n" "turn_id (lease_of_new n) = nl_turn_id n"
  "call_id (lease_of_new n) = nl_call_id n"
  by (simp_all add: lease_of_new_def lease_of_row_def row_of_new_def wake_lease.truncate_def)

lemma db_get_insert:
  assumes "db_get d (nl_job_id n) = None"
  shows "db_get (db_insert now n d) = (db_get d)(nl_job_id n \<mapsto> lease_of_new n)"
proof
  fix k
  have "job_id (row_of_new now n) = nl_job_id n" by (simp add: row_of_new_def)
  moreover have "find P (xs @ [x]) = (case find P xs of None \<Rightarrow> if P x then Some x else None | y \<Rightarrow> y)"
    for P and xs :: "lease_row list" and x
    by (induction xs) auto
  ultimately show "db_get (db_insert now n d) k = ((db_get d)(nl_job_id n \<mapsto> lease_of_new n)) k"
    using assms by (auto simp: db_get_def db_insert_def split: option.splits)
qed

lemma db_live_None_iff:
  assumes "store_ok d"
  shows "db_live_for_thread d t = None \<longleftrightarrow> (\<forall>r \<in> set (rows d). thread_id r = t \<longrightarrow> \<not> is_live r)"
proof -
  have "db_live_for_thread d t = None \<longleftrightarrow> filter (\<lambda>r. thread_id r = t \<and> is_live r) (rows d) = []"
    by (auto simp: db_live_for_thread_def split: list.splits
          dest: arg_cong [where f = set])
  then show ?thesis by (auto simp: filter_empty_conv)
qed

lemma row_of_new_simps [simp]:
  "job_id (row_of_new now n) = nl_job_id n" "thread_id (row_of_new now n) = nl_thread_id n"
  "is_live (row_of_new now n)"
  by (simp_all add: row_of_new_def is_live_def live_state_def)

lemma constraints_ok_insert:
  assumes ok: "store_ok d"
  shows "constraints_ok (rows (db_insert now n d)) \<longleftrightarrow>
           db_get d (nl_job_id n) = None \<and> db_live_for_thread d (nl_thread_id n) = None"
proof -
  have "constraints_ok (rows (db_insert now n d)) \<longleftrightarrow>
      nl_job_id n \<notin> job_id ` set (rows d)
    \<and> nl_thread_id n \<notin> thread_id ` set (filter is_live (rows d))"
    using ok by (auto simp: store_ok_def constraints_ok_def one_live_lease_per_thread_def db_insert_def)
  also have "\<dots> \<longleftrightarrow> db_get d (nl_job_id n) = None \<and> db_live_for_thread d (nl_thread_id n) = None"
    unfolding db_live_None_iff [OF ok] db_get_None by force
  finally show ?thesis .
qed

lemma create_lease_fresh:
  assumes "store_ok d" "db_get d (nl_job_id n) = None"
    and "db_live_for_thread d (nl_thread_id n) = None"
  shows "create_lease now n d = (db_insert now n d, Inr (lease_of_new n))"
    and "store_ok (db_insert now n d)"
  using assms constraints_ok_insert [OF assms(1), of now n] db_get_insert [OF assms(2), of now]
  by (simp_all add: create_lease_def store_ok_def)

lemma create_lease_known:
  assumes "store_ok d" "db_get d (nl_job_id n) = Some l"
  shows "create_lease now n d =
     (d, if thread_id l \<noteq> nl_thread_id n
         then Inl (RuntimeError ''job ID is already registered for a different thread'')
         else Inr l)"
  using assms constraints_ok_insert [OF assms(1), of now n]
  by (auto simp: create_lease_def)

lemma create_lease_busy:
  assumes "store_ok d" "db_get d (nl_job_id n) = None"
    and "db_live_for_thread d (nl_thread_id n) \<noteq> None"
  shows "create_lease now n d =
     (d, Inl (RuntimeError ''this thread already has a live longrun wake lease''))"
  using assms constraints_ok_insert [OF assms(1), of now n]
  by (auto simp: create_lease_def)

section \<open>The interface the bridges rely on\<close>

text \<open>
  What a bridge needs of its store: a keyed view of the leases (\<open>get\<close>), the live lease
  of a thread (\<open>live\<close>), the live leases in order (\<open>pending\<close>), an update that
  commits unless it would revive a dead lease (\<open>upd\<close>, with \<open>put\<close> the committed
  store), and a creation that refuses a second live lease for a thread (\<open>crt\<close>, with
  \<open>ins\<close> the committed store).
\<close>

locale lease_store =
  fixes get :: "'d \<Rightarrow> string \<Rightarrow> wake_lease option"
    and live :: "'d \<Rightarrow> string \<Rightarrow> wake_lease option"
    and pending :: "'d \<Rightarrow> wake_lease list"
    and upd :: "clock \<Rightarrow> string \<Rightarrow> lease_field list \<Rightarrow> 'd \<Rightarrow> ('d, wake_lease) outcome"
    and put :: "clock \<Rightarrow> string \<Rightarrow> lease_field list \<Rightarrow> 'd \<Rightarrow> 'd"
    and crt :: "clock \<Rightarrow> new_lease \<Rightarrow> 'd \<Rightarrow> ('d, wake_lease) outcome"
    and ins :: "clock \<Rightarrow> new_lease \<Rightarrow> 'd \<Rightarrow> 'd"
    and inv :: "'d \<Rightarrow> bool"
  assumes get_key: "get d j = Some l \<Longrightarrow> job_id l = j"
    and live_iff: "inv d \<Longrightarrow> live d t = Some l \<longleftrightarrow> get d (job_id l) = Some l \<and> thread_id l = t \<and> is_live l"
    and pending_set: "inv d \<Longrightarrow> set (pending d) = {l. get d (job_id l) = Some l \<and> is_live l}"
    and upd_commits: "inv d \<Longrightarrow> get d j = Some l \<Longrightarrow> fs \<noteq> [] \<Longrightarrow> list_all field_allowed fs \<Longrightarrow>
          (is_live (set_fields fs l) \<Longrightarrow> is_live l) \<Longrightarrow>
          upd now j fs d = (put now j fs d, Inr (set_fields fs l))"
    and upd_raises: "inv d \<Longrightarrow> upd now j fs d = (d', Inl e) \<Longrightarrow> d' = d"
    and inv_upd: "inv d \<Longrightarrow> upd now j fs d = (d', r) \<Longrightarrow> inv d'"
    and get_put: "get (put now j fs d) k =
          (if k = j then map_option (set_fields fs) (get d k) else get d k)"
    and crt_fresh: "inv d \<Longrightarrow> get d (nl_job_id n) = None \<Longrightarrow> live d (nl_thread_id n) = None \<Longrightarrow>
          crt now n d = (ins now n d, Inr (lease_of_new n)) \<and> inv (ins now n d)"
    and crt_known: "inv d \<Longrightarrow> get d (nl_job_id n) = Some l \<Longrightarrow> fst (crt now n d) = d"
    and crt_busy: "inv d \<Longrightarrow> get d (nl_job_id n) = None \<Longrightarrow> live d (nl_thread_id n) \<noteq> None \<Longrightarrow>
          \<exists>e. crt now n d = (d, Inl e)"
    and get_ins: "get d (nl_job_id n) = None \<Longrightarrow> get (ins now n d) = (get d)(nl_job_id n \<mapsto> lease_of_new n)"
begin

lemma live_unique:
  assumes "inv d" "get d j = Some l" "get d k = Some m"
    and "is_live l" "is_live m" "thread_id l = thread_id m"
  shows "j = k"
proof -
  have "live d (thread_id l) = Some l" "live d (thread_id l) = Some m"
    using assms get_key live_iff by metis+
  then have "l = m" by simp
  then show ?thesis using assms(2,3) get_key by blast
qed

lemma live_None_iff: "inv d \<Longrightarrow> live d t = None \<longleftrightarrow> (\<forall>j l. get d j = Some l \<longrightarrow> is_live l \<longrightarrow> thread_id l \<noteq> t)"
proof -
  assume ok: "inv d"
  have "live d t = None \<longleftrightarrow> (\<forall>l. \<not> (get d (job_id l) = Some l \<and> thread_id l = t \<and> is_live l))"
    using live_iff [OF ok, of t] by (cases "live d t") auto
  then show ?thesis using get_key by blast
qed

text \<open>Retiring the live lease of a thread leaves the thread without a live lease.\<close>

lemma live_after_retire:
  assumes ok: "inv d" and l: "live d t = Some l" and fs: "fs \<noteq> []" "list_all field_allowed fs"
    and dead: "\<not> is_live (set_fields fs l)"
  shows "upd now (job_id l) fs d = (put now (job_id l) fs d, Inr (set_fields fs l))"
    and "inv (put now (job_id l) fs d)"
    and "live (put now (job_id l) fs d) t = None"
proof -
  have g: "get d (job_id l) = Some l" "is_live l" "thread_id l = t"
    using l live_iff [OF ok] by auto
  show u: "upd now (job_id l) fs d = (put now (job_id l) fs d, Inr (set_fields fs l))"
    using upd_commits [OF ok g(1) fs] dead by blast
  then show i: "inv (put now (job_id l) fs d)"
    using inv_upd [OF ok] by blast
  show "live (put now (job_id l) fs d) t = None"
    unfolding live_None_iff [OF i]
  proof (intro allI impI)
    fix j m
    assume m: "get (put now (job_id l) fs d) j = Some m" "is_live m"
    show "thread_id m \<noteq> t"
    proof
      assume t: "thread_id m = t"
      have "j \<noteq> job_id l" using m dead g(1) by (auto simp: get_put)
      with m have "get d j = Some m" by (simp add: get_put)
      then show False using live_unique [OF ok _ g(1)] m(2) g t \<open>j \<noteq> job_id l\<close> by blast
    qed
  qed
qed

text \<open>No operation removes a lease or changes its thread.\<close>

lemma get_put_Some: "get d k = Some l \<Longrightarrow> \<exists>m. get (put now j fs d) k = Some m \<and> thread_id m = thread_id l"
  by (auto simp: get_put)

end

interpretation ls: lease_store db_get db_live_for_thread db_pending db_update db_put create_lease
  db_insert store_ok
proof
  show "store_ok d \<Longrightarrow> db_get d (nl_job_id n) = Some l \<Longrightarrow> fst (create_lease now n d) = d" for d n l now
    by (simp add: create_lease_known)
  show "store_ok d \<Longrightarrow> db_get d (nl_job_id n) = None \<Longrightarrow> db_live_for_thread d (nl_thread_id n) \<noteq> None \<Longrightarrow>
      \<exists>e. create_lease now n d = (d, Inl e)" for d n now
    by (simp add: create_lease_busy)
qed (auto intro: db_get_key db_update_ok db_update_store_ok create_lease_fresh create_lease_busy
      simp: db_live_for_thread_iff set_db_pending db_get_put db_get_insert
      dest: db_update_raise_keeps)

section \<open>Abstract specification\<close>

text \<open>
  A committed sequence of store operations, and the abstract store it implements: a finite
  map from jobs to leases with at most one live lease per thread. \<open>db_get\<close> is the
  abstraction function.
\<close>

datatype store_op = Create clock new_lease | Update clock string "lease_field list"

fun run_op :: "store_op \<Rightarrow> bridge_db \<Rightarrow> bridge_db" where
  "run_op (Create now n) d = fst (create_lease now n d)"
| "run_op (Update now j fs) d = fst (db_update now j fs d)"

definition spec_live :: "(string \<rightharpoonup> wake_lease) \<Rightarrow> string \<Rightarrow> bool" where
  "spec_live m t \<longleftrightarrow> (\<exists>l \<in> ran m. thread_id l = t \<and> is_live l)"

definition spec_busy_elsewhere :: "(string \<rightharpoonup> wake_lease) \<Rightarrow> string \<Rightarrow> wake_lease \<Rightarrow> bool" where
  "spec_busy_elsewhere m j l \<longleftrightarrow> (\<exists>k l'. k \<noteq> j \<and> m k = Some l' \<and> thread_id l' = thread_id l \<and> is_live l')"

definition spec_op :: "store_op \<Rightarrow> (string \<rightharpoonup> wake_lease) \<Rightarrow> (string \<rightharpoonup> wake_lease)" where
  "spec_op oper m =
     (case oper of
        Create now n \<Rightarrow>
          if m (nl_job_id n) = None \<and> \<not> spec_live m (nl_thread_id n)
          then m(nl_job_id n \<mapsto> lease_of_new n) else m
      | Update now j fs \<Rightarrow>
          (case m j of
             None \<Rightarrow> m
           | Some l \<Rightarrow>
               if fs \<noteq> [] \<and> list_all field_allowed fs
                  \<and> \<not> (is_live (set_fields fs l) \<and> spec_busy_elsewhere m j l)
               then m(j \<mapsto> set_fields fs l) else m))"

lemma spec_live_db: "store_ok d \<Longrightarrow> spec_live (db_get d) t \<longleftrightarrow> db_live_for_thread d t \<noteq> None"
  using ls.live_None_iff [of d t] by (auto simp: spec_live_def ran_def)

lemma spec_busy_rows:
  assumes ok: "store_ok d" and r0: "r0 \<in> set (rows d)"
  shows "spec_busy_elsewhere (db_get d) (job_id r0) (lease_of_row r0) \<longleftrightarrow>
           (\<exists>r \<in> set (rows d). r \<noteq> r0 \<and> thread_id r = thread_id r0 \<and> is_live r)"
proof
  assume "spec_busy_elsewhere (db_get d) (job_id r0) (lease_of_row r0)"
  then show "\<exists>r \<in> set (rows d). r \<noteq> r0 \<and> thread_id r = thread_id r0 \<and> is_live r"
    by (auto simp: spec_busy_elsewhere_def elim!: db_get_SomeD)
next
  assume "\<exists>r \<in> set (rows d). r \<noteq> r0 \<and> thread_id r = thread_id r0 \<and> is_live r"
  then obtain r where r: "r \<in> set (rows d)" "r \<noteq> r0" "thread_id r = thread_id r0" "is_live r"
    by blast
  then have "job_id r \<noteq> job_id r0"
    using ok r0 distinct_key_eq [of job_id "rows d" r r0] by (auto simp: store_ok_def constraints_ok_def)
  with r db_get_row [OF ok r(1)] show "spec_busy_elsewhere (db_get d) (job_id r0) (lease_of_row r0)"
    unfolding spec_busy_elsewhere_def
    by (intro exI [of _ "job_id r"] exI [of _ "lease_of_row r"]) simp
qed

text \<open>An update that revives a lease whose thread is free also commits.\<close>

lemma updated_rows_constraints:
  assumes ok: "store_ok d" and get: "db_get d j = Some l"
  shows "constraints_ok (updated_rows now j fs (rows d)) \<longleftrightarrow>
           \<not> (is_live (set_fields fs l) \<and> spec_busy_elsewhere (db_get d) j l)"
proof -
  obtain r0 where r0: "r0 \<in> set (rows d)" "job_id r0 = j" "l = lease_of_row r0"
    using get by (rule db_get_SomeD)
  define u where "u r = (if job_id r = j then (set_fields fs r)\<lparr>updated_at := now\<rparr> else r)" for r :: lease_row
  have set_u: "set (updated_rows now j fs (rows d)) = u ` set (rows d)"
    by (simp add: updated_rows_def u_def)
  have u: "job_id (u r) = job_id r" "thread_id (u r) = thread_id r" for r
    by (simp_all add: u_def)
  have j_row: "job_id r \<noteq> j" if "r \<in> set (rows d)" "r \<noteq> r0" for r
    using that r0 ok distinct_key_eq [of job_id "rows d" r r0]
    by (auto simp: store_ok_def constraints_ok_def)
  have live_u: "is_live (u r0) \<longleftrightarrow> is_live (set_fields fs l)"
    using r0(2) live_set_fields_row [of fs r0] unfolding u_def r0(3) by (simp add: is_live_def)
  have inj: "inj_on thread_id {r \<in> set (rows d). is_live r}"
    using ok by (auto simp: store_ok_def constraints_ok_def one_live_lease_per_thread_def distinct_map)
  have busy: "spec_busy_elsewhere (db_get d) j l \<longleftrightarrow>
      (\<exists>r \<in> set (rows d). r \<noteq> r0 \<and> thread_id r = thread_id r0 \<and> is_live r)"
    using spec_busy_rows [OF ok r0(1)] r0(2,3) by simp
  have "distinct (updated_rows now j fs (rows d))"
    using ok map_job_id_updated_rows [of now j fs "rows d"]
    by (metis constraints_ok_def distinct_map store_ok_def)
  then have "constraints_ok (updated_rows now j fs (rows d)) \<longleftrightarrow>
      inj_on thread_id {r \<in> u ` set (rows d). is_live r}"
    using ok set_u by (simp add: constraints_ok_def one_live_lease_per_thread_def store_ok_def distinct_map)
  also have "\<dots> \<longleftrightarrow> \<not> (is_live (u r0) \<and>
      (\<exists>r \<in> set (rows d). r \<noteq> r0 \<and> thread_id r = thread_id r0 \<and> is_live r))"
  proof (rule inj_on_update_one [OF inj r0(1)])
    show "u r = r \<and> u r0 \<noteq> r" if "r \<in> set (rows d)" "r \<noteq> r0" for r
      using j_row [OF that] u(1) [of r0] r0(2) by (auto simp: u_def)
  qed (rule u(2))
  finally show ?thesis by (simp add: live_u busy)
qed

lemma db_update_refines:
  assumes ok: "store_ok d"
  shows "db_get (fst (db_update now j fs d)) = spec_op (Update now j fs) (db_get d)"
proof (cases "db_get d j")
  case None
  then show ?thesis using db_update_unknown [OF ok None, of now fs] by (auto simp: spec_op_def)
next
  case (Some l)
  have "length (filter (\<lambda>r. job_id r = j) (rows d)) = 1"
    using ok Some db_get_None [of d j]
    by (simp add: store_ok_def constraints_ok_def filter_length_one)
  then show ?thesis
    using Some updated_rows_constraints [OF ok Some, of now fs]
    by (auto simp: spec_op_def db_update_def db_get_put fun_eq_iff)
qed

lemma create_lease_refines:
  assumes ok: "store_ok d"
  shows "db_get (fst (create_lease now n d)) = spec_op (Create now n) (db_get d)"
proof (cases "db_get d (nl_job_id n)")
  case (Some l)
  then show ?thesis by (simp add: spec_op_def create_lease_known [OF ok Some])
next
  case None
  show ?thesis
  proof (cases "db_live_for_thread d (nl_thread_id n)")
    case None
    note live = this
    show ?thesis
      using create_lease_fresh(1) [OF ok \<open>db_get d (nl_job_id n) = None\<close> live, of now]
        db_get_insert [OF \<open>db_get d (nl_job_id n) = None\<close>, of now] live
        \<open>db_get d (nl_job_id n) = None\<close>
      by (simp add: spec_op_def spec_live_db [OF ok])
  next
    case (Some m)
    then show ?thesis
      using create_lease_busy [OF ok None, of now] None
      by (simp add: spec_op_def spec_live_db [OF ok])
  qed
qed

lemma run_op_store_ok: "store_ok d \<Longrightarrow> store_ok (run_op oper d)"
proof (cases oper)
  case (Create now n)
  assume ok: "store_ok d"
  show ?thesis
  proof (cases "db_get d (nl_job_id n) = None \<and> db_live_for_thread d (nl_thread_id n) = None")
    case True
    then show ?thesis using Create create_lease_fresh [OF ok, of n now] by simp
  next
    case False
    then show ?thesis
      using Create ok create_lease_known [OF ok, of n _ now] create_lease_busy [OF ok, of n now]
      by (cases "db_get d (nl_job_id n)") auto
  qed
next
  case (Update now j fs)
  assume ok: "store_ok d"
  show ?thesis
    using Update db_update_store_ok [OF _ ok, of now j fs] by (cases "db_update now j fs d") simp
qed

lemma run_op_refines: "store_ok d \<Longrightarrow> db_get (run_op oper d) = spec_op oper (db_get d)"
  by (cases oper) (simp_all add: db_update_refines create_lease_refines)

lemma store_ok_empty [simp]: "store_ok empty_db"
  by (simp add: store_ok_def empty_db_def constraints_ok_def one_live_lease_per_thread_def)

lemma db_get_empty: "db_get empty_db = Map.empty"
  by (simp add: db_get_def empty_db_def fun_eq_iff)

lemma fold_run_op:
  "store_ok d \<Longrightarrow> store_ok (fold run_op ops d) \<and> db_get (fold run_op ops d) = fold spec_op ops (db_get d)"
  by (induction ops arbitrary: d) (simp_all add: run_op_store_ok run_op_refines)

text \<open>
  C30. The store implements its abstract specification: after any sequence of
  \<open>create_lease\<close> and \<open>update\<close> calls on a fresh database, looking a job up gives what
  the same sequence leaves in a map from jobs to leases that refuses a second live lease
  for a thread.
\<close>

theorem store_refines_spec:
  "db_get (fold run_op ops empty_db) = fold spec_op ops Map.empty"
  using fold_run_op [OF store_ok_empty, of ops] by (simp add: db_get_empty)

text \<open>
  The database constraint holds after every call: two live leases of one thread are the
  same lease, \<open>live_for_thread\<close> finds it, and \<open>pending\<close> lists each live lease once.
\<close>

theorem store_one_live_lease:
  assumes "db_get (fold run_op ops empty_db) j = Some l" and "is_live l"
  shows "db_live_for_thread (fold run_op ops empty_db) (thread_id l) = Some l
    \<and> length (filter (\<lambda>m. thread_id m = thread_id l) (db_pending (fold run_op ops empty_db))) = 1"
proof -
  let ?d = "fold run_op ops empty_db"
  have ok: "store_ok ?d" using fold_run_op [OF store_ok_empty] by blast
  have live: "db_live_for_thread ?d (thread_id l) = Some l"
    using assms ls.live_iff [OF ok] db_get_key [OF assms(1)] by simp
  have "distinct (map thread_id (db_pending ?d))"
    using ok unfolding store_ok_def constraints_ok_def one_live_lease_per_thread_def db_pending_def
    by (simp add: o_def distinct_map)
  moreover have "thread_id l \<in> thread_id ` set (db_pending ?d)"
    using assms set_db_pending [OF ok] db_get_key [OF assms(1)] by auto
  ultimately show ?thesis using live by (simp add: filter_length_one)
qed

definition sample_new :: "string \<Rightarrow> string \<Rightarrow> new_lease" where
  "sample_new j t = \<lparr>nl_job_id = j, nl_thread_id = t, nl_objective = ''ship'',
     nl_goal_created_at = 5, nl_goal_updated_at = 7, nl_deadline_at = 100,
     nl_wake_mode = M_goal, nl_turn_id = None, nl_call_id = None\<rparr>"

theorem store_one_live_lease_witness:
  "\<exists>l. db_get (fold run_op [Create 1 (sample_new ''j1'' ''t''), Create 2 (sample_new ''j2'' ''t'')]
          empty_db) ''j1'' = Some l \<and> is_live l
    \<and> db_live_for_thread (fold run_op [Create 1 (sample_new ''j1'' ''t''),
          Create 2 (sample_new ''j2'' ''t'')] empty_db) (thread_id l) = Some l"
proof -
  have "db_get (fold run_op [Create 1 (sample_new ''j1'' ''t''), Create 2 (sample_new ''j2'' ''t'')]
          empty_db) ''j1'' = Some (lease_of_new (sample_new ''j1'' ''t''))"
    by (simp only: fold_run_op [OF store_ok_empty, THEN conjunct2] db_get_empty)
      (simp add: spec_op_def spec_live_def sample_new_def is_live_def live_state_def)
  moreover have "is_live (lease_of_new (sample_new ''j1'' ''t''))"
    by (simp add: is_live_def live_state_def)
  ultimately show ?thesis using store_one_live_lease by blast
qed

end
