(* ===== verification/Py_Text.thy ===== *)
theory Py_Text
  imports Py_Json
begin

text \<open>
  Text operations of the Python standard library that the sources use: substring tests,
  stripping, splitting, the hexadecimal reading of \<open>int(text, 16)\<close>, and
  \<open>uuid.UUID(text)\<close> with its canonical rendering. A string is a list of characters.
\<close>

section \<open>Substrings, stripping\<close>

definition starts_with :: "string \<Rightarrow> string \<Rightarrow> bool" where
  "starts_with s p \<longleftrightarrow> take (length p) s = p"

text \<open>\<open>p in s\<close>.\<close>

fun contains :: "string \<Rightarrow> string \<Rightarrow> bool" where
  "contains p [] = (p = [])"
| "contains p (c # s) = (starts_with (c # s) p \<or> contains p s)"

text \<open>\<open>s.replace(p, "")\<close> for a non-empty \<open>p\<close>.\<close>

function remove_sub :: "string \<Rightarrow> string \<Rightarrow> string" where
  "remove_sub p [] = []"
| "remove_sub p (c # s) =
     (if p \<noteq> [] \<and> starts_with (c # s) p then remove_sub p (drop (length p) (c # s))
      else c # remove_sub p s)"
  by pat_completeness auto
termination
  by (relation "measure (\<lambda>(p, s). length s)") (auto simp: neq_Nil_conv)

definition strip_of :: "char list \<Rightarrow> string \<Rightarrow> string" where
  "strip_of cs s =
     rev (dropWhile (\<lambda>c. c \<in> set cs) (rev (dropWhile (\<lambda>c. c \<in> set cs) s)))"

definition whitespace :: "char list" where
  "whitespace = [CHR '' '', CHR 0x09, CHR 0x0A, CHR 0x0B, CHR 0x0C, CHR 0x0D]"

definition strip :: "string \<Rightarrow> string" where
  "strip s = strip_of whitespace s"

text \<open>\<open>s.split(c)\<close> for a one-character separator.\<close>

fun split_on :: "char \<Rightarrow> string \<Rightarrow> string list" where
  "split_on d [] = [[]]"
| "split_on d (c # s) =
     (if c = d then [] # split_on d s
      else (case split_on d s of [] \<Rightarrow> [[c]] | w # ws \<Rightarrow> (c # w) # ws))"

lemma contains_iff: "contains p s \<longleftrightarrow> (\<exists>a b. s = a @ p @ b)"
proof (induction s)
  case Nil
  then show ?case by auto
next
  case (Cons c s)
  have "starts_with (c # s) p \<longleftrightarrow> (\<exists>b. c # s = p @ b)"
    by (metis append_eq_conv_conj append_take_drop_id starts_with_def)
  with Cons.IH show ?case
    by (metis (no_types, lifting) append_Cons append_Nil contains.simps(2) list.inject neq_Nil_conv)
qed

section \<open>Hexadecimal\<close>

definition hex_value :: "char \<Rightarrow> int option" where
  "hex_value c =
     (let n = of_char c :: int in
      if 48 \<le> n \<and> n \<le> 57 then Some (n - 48)
      else if 97 \<le> n \<and> n \<le> 102 then Some (n - 87)
      else if 65 \<le> n \<and> n \<le> 70 then Some (n - 55)
      else None)"

definition hex_char :: "int \<Rightarrow> char" where
  "hex_char d = (if d < 10 then char_of (48 + d) else char_of (87 + d))"

text \<open>Digits with single underscores between them; \<open>after_digit\<close> says what came before.\<close>

fun hex_digits :: "int \<Rightarrow> bool \<Rightarrow> string \<Rightarrow> int option" where
  "hex_digits acc after_digit [] = (if after_digit then Some acc else None)"
| "hex_digits acc after_digit (c # cs) =
     (if c = CHR ''_'' then (if after_digit then hex_digits acc False cs else None)
      else (case hex_value c of
              None \<Rightarrow> None
            | Some d \<Rightarrow> hex_digits (16 * acc + d) True cs))"

text \<open>
  \<open>int(s, 16)\<close> for text without a minus sign: surrounding whitespace, a plus sign and a
  \<open>0x\<close> prefix are accepted.
\<close>

definition drop_one :: "char \<Rightarrow> string \<Rightarrow> string" where
  "drop_one c s = (case s of [] \<Rightarrow> [] | x # xs \<Rightarrow> if x = c then xs else s)"

definition int16 :: "string \<Rightarrow> int option" where
  "int16 s =
     (let t = drop_one (CHR ''+'') (strip s) in
      if starts_with (lower t) ''0x'' then hex_digits 0 False (drop_one (CHR ''_'') (drop 2 t))
      else hex_digits 0 False t)"

section \<open>UUIDs\<close>

definition uuid_UUID :: "string \<Rightarrow> int option" where
  "uuid_UUID s =
     (let h = remove_sub ''-'' (strip_of ''{}'' (remove_sub ''uuid:'' (remove_sub ''urn:'' s)))
      in if length h \<noteq> 32 then None else int16 h)"

fun hex_pad :: "nat \<Rightarrow> int \<Rightarrow> string" where
  "hex_pad 0 n = []"
| "hex_pad (Suc w) n = hex_pad w (n div 16) @ [hex_char (n mod 16)]"

definition dashed :: "string \<Rightarrow> string" where
  "dashed h = take 8 h @ ''-'' @ take 4 (drop 8 h) @ ''-'' @ take 4 (drop 12 h) @ ''-''
                @ take 4 (drop 16 h) @ ''-'' @ drop 20 h"

text \<open>\<open>str(uuid.UUID(...))\<close>.\<close>

definition uuid_str :: "int \<Rightarrow> string" where
  "uuid_str n = dashed (hex_pad 32 n)"

section \<open>Decimal\<close>

text \<open>\<open>str(n)\<close> of an integer, and \<open>int(s)\<close> of text.\<close>

function digits10 :: "int \<Rightarrow> string" where
  "digits10 n = (if n < 10 then [hex_char n] else digits10 (n div 10) @ [hex_char (n mod 10)])"
  by pat_completeness auto

termination digits10
  by (relation "measure nat") (auto simp: int_div_less_self)

declare digits10.simps [simp del]

definition int_str :: "int \<Rightarrow> string" where
  "int_str i = (if i < 0 then ''-'' @ digits10 (- i) else digits10 i)"

definition dec_value :: "char \<Rightarrow> int option" where
  "dec_value c = (let n = of_char c :: int in if 48 \<le> n \<and> n \<le> 57 then Some (n - 48) else None)"

text \<open>Decimal digits with single underscores between them.\<close>

fun dec_digits :: "int \<Rightarrow> bool \<Rightarrow> string \<Rightarrow> int option" where
  "dec_digits acc after_digit [] = (if after_digit then Some acc else None)"
| "dec_digits acc after_digit (c # cs) =
     (if c = CHR ''_'' then (if after_digit then dec_digits acc False cs else None)
      else (case dec_value c of
              None \<Rightarrow> None
            | Some d \<Rightarrow> dec_digits (10 * acc + d) True cs))"

definition int10 :: "string \<Rightarrow> int option" where
  "int10 s =
     (case strip s of
        [] \<Rightarrow> None
      | c # cs \<Rightarrow>
          if c = CHR ''-'' then map_option uminus (dec_digits 0 False cs)
          else if c = CHR ''+'' then dec_digits 0 False cs
          else dec_digits 0 False (c # cs))"

section \<open>Renderings\<close>

text \<open>\<open>repr(s)\<close> of printable text.\<close>

definition py_repr :: "string \<Rightarrow> string" where
  "py_repr s =
     (let q = (if CHR 0x27 \<in> set s \<and> CHR 0x22 \<notin> set s then CHR 0x22 else CHR 0x27) in
      [q] @ concat (map (\<lambda>c. if c = CHR 0x5C \<or> c = q then [CHR 0x5C, c]
                            else if c = CHR 0x0A then [CHR 0x5C, CHR ''n''] else [c]) s) @ [q])"

section \<open>Handles\<close>

text \<open>\<open>[a-f0-9]{n}\<close> matched against the whole text.\<close>

definition lower_hex :: "char \<Rightarrow> bool" where
  "lower_hex c \<longleftrightarrow> c \<in> set ''0123456789abcdef''"

definition hex_handle :: "nat \<Rightarrow> string \<Rightarrow> bool" where
  "hex_handle n s \<longleftrightarrow> length s = n \<and> list_all lower_hex s"

end
