(* ===== verification/Py_Dumps.thy ===== *)
theory Py_Dumps
  imports Py_Json Py_Text "HOL-Library.Char_ord" "HOL-Library.List_Lexorder"
begin

text \<open>
  Renderings of JSON values: \<open>repr\<close>, and \<open>json.dumps\<close> with sorted keys, by which the
  session bridge stores and compares a Goal.
\<close>

section \<open>Floats\<close>

text \<open>
  \<open>repr\<close> of the float \<open>m / 10^k\<close>, where \<open>m\<close> are its shortest digits: without
  trailing zeros, positional between \<open>1e-4\<close> and \<open>1e16\<close>, with an exponent of at least
  two digits outside.
\<close>

fun trim_zeros :: "nat \<Rightarrow> int \<Rightarrow> nat \<Rightarrow> int \<times> nat" where
  "trim_zeros 0 m k = (m, k)"
| "trim_zeros (Suc n) m k = (if k > 0 \<and> m mod 10 = 0 then trim_zeros n (m div 10) (k - 1) else (m, k))"

definition exponent_str :: "int \<Rightarrow> string" where
  "exponent_str e =
     (let ds = digits10 \<bar>e\<bar> in
      ''e'' @ (if e < 0 then ''-'' else ''+'') @ (if length ds < 2 then ''0'' else []) @ ds)"

definition float_digits :: "string \<Rightarrow> nat \<Rightarrow> string" where
  "float_digits ds k =
     (let n = length ds; point = int n - int k in
      if - 4 < point \<and> point \<le> 16 then
        (if point \<le> 0 then ''0.'' @ replicate (nat (- point)) (CHR ''0'') @ ds
         else if k = 0 then ds @ ''.0''
         else take (nat point) ds @ ''.'' @ drop (nat point) ds)
      else
        (let zeros = length (takeWhile (\<lambda>c. c = CHR ''0'') (List.rev ds));
             core = take (n - zeros) ds in
         (case core of [] \<Rightarrow> ''0'' | c # cs \<Rightarrow> c # (if cs = [] then [] else CHR ''.'' # cs))
         @ exponent_str (point - 1)))"

definition float_repr :: "int \<Rightarrow> nat \<Rightarrow> string" where
  "float_repr m k =
     (case trim_zeros k m k of
        (m, k) \<Rightarrow> if m = 0 then ''0.0'' else (if m < 0 then ''-'' else []) @ float_digits (digits10 \<bar>m\<bar>) k)"

section \<open>repr\<close>

fun join :: "string \<Rightarrow> string list \<Rightarrow> string" where
  "join sep [] = []"
| "join sep [x] = x"
| "join sep (x # y # ys) = x @ sep @ join sep (y # ys)"

lemma size_elem: "x \<in> set xs \<Longrightarrow> size x < Suc (size_list size xs)"
  by (simp add: size_list_estimation' less_Suc_eq_le)

function json_repr :: "json \<Rightarrow> string" where
  "json_repr JNull = ''None''"
| "json_repr (JBool b) = (if b then ''True'' else ''False'')"
| "json_repr (JInt i) = int_str i"
| "json_repr (JFloat m k) = float_repr m k"
| "json_repr (JStr s) = py_repr s"
| "json_repr (JArr xs) = ''['' @ join '', '' (map json_repr xs) @ '']''"
| "json_repr (JObj kvs) = ''{'' @ join '', '' (map (\<lambda>(k, v). py_repr k @ '': '' @ json_repr v) kvs) @ ''}''"
  by pat_completeness auto

termination json_repr
  by (relation "measure size") (auto dest: size_elem size_obj_elem)

section \<open>json.dumps\<close>

definition u_escape :: "char \<Rightarrow> string" where
  "u_escape c = [CHR 0x5C, CHR ''u''] @ hex_pad 4 (of_char c)"

text \<open>A text between double quotes, everything but printable ASCII escaped.\<close>

definition dumps_char :: "char \<Rightarrow> string" where
  "dumps_char c =
     (if c = CHR 0x22 \<or> c = CHR 0x5C then [CHR 0x5C, c]
      else if c = CHR 0x0A then [CHR 0x5C, CHR ''n'']
      else if c = CHR 0x0D then [CHR 0x5C, CHR ''r'']
      else if c = CHR 0x09 then [CHR 0x5C, CHR ''t'']
      else if c = CHR 0x0C then [CHR 0x5C, CHR ''f'']
      else if c = CHR 0x08 then [CHR 0x5C, CHR ''b'']
      else if (of_char c :: nat) < 32 \<or> (of_char c :: nat) > 126 then u_escape c
      else [c])"

definition dumps_str :: "string \<Rightarrow> string" where
  "dumps_str s = [CHR 0x22] @ concat (map dumps_char s) @ [CHR 0x22]"

text \<open>\<open>json.dumps(v, sort_keys=True)\<close>.\<close>

function dumps_sorted :: "json \<Rightarrow> string" where
  "dumps_sorted JNull = ''null''"
| "dumps_sorted (JBool b) = (if b then ''true'' else ''false'')"
| "dumps_sorted (JInt i) = int_str i"
| "dumps_sorted (JFloat m k) = float_repr m k"
| "dumps_sorted (JStr s) = dumps_str s"
| "dumps_sorted (JArr xs) = ''['' @ join '', '' (map dumps_sorted xs) @ '']''"
| "dumps_sorted (JObj kvs) =
     ''{'' @ join '', '' (map (\<lambda>(k, d). dumps_str k @ '': '' @ d)
                     (sort_key fst (map (\<lambda>(k, v). (k, dumps_sorted v)) kvs))) @ ''}''"
  by pat_completeness auto

termination dumps_sorted
  by (relation "measure size") (auto dest: size_elem size_obj_elem)

end
