(* ===== verification/Goal_Bridge.thy ===== *)
theory Goal_Bridge
  imports Bridge_State Py_Dumps
begin

text \<open>
  The event-driven Goal bridge (\<open>bridge.py\<close>, class \<open>GoalBridge\<close>). Its handlers are
  coroutines on one event loop: code between two awaits runs without interruption, and at
  an await any other handler may run. Each coroutine is cut at its awaits; a suspended one
  is a task with a program counter that holds its locals. The theory defines one function
  per segment, in the order of the source, and closes with \<open>bstep\<close>, the step of the
  whole bridge on one event: a request, the reply to an RPC, a task that may run again, a
  cancellation, a notification, a user's Goal control, a restart.
\<close>

section \<open>State\<close>

text \<open>RPCs to the App Server, and the forwarding of a user's Goal control.\<close>

datatype rpc =
    Goal_get string
  | Goal_set string string
  | Thread_read string
  | User_op string

text \<open>
  Where a suspended coroutine continues: in \<open>_prepare\<close> (\<open>P_\<close>), \<open>_deliver\<close> and
  \<open>_wait_until_idle\<close> (\<open>W_\<close>), \<open>_activate_goal\<close> (\<open>A_\<close>),
  \<open>_expire_at_deadline\<close> (\<open>X_\<close>) and \<open>user_goal_control\<close> (\<open>U_\<close>).
\<close>

datatype goal_pc =
    P_get string string int int
  | P_pause string string int wake_lease
  | P_confirm string string int int wake_lease
  | W_start wake_lease
  | W_idle1 wake_lease
  | W_idle2 wake_lease
  | W_event wake_lease
  | W_lock wake_lease
  | A_read wake_lease
  | A_get wake_lease
  | A_set wake_lease
  | X_start wake_lease
  | X_sleep wake_lease
  | U_lock string
  | U_op string

record goal_task =
  task_pc :: goal_pc
  cancelled :: bool

text \<open>
  The fields of \<open>GoalBridge\<close>. A lock of \<open>_goal_controls\<close> is its holder, if any;
  \<open>tasks\<close> are the unfinished tasks of the event loop. \<open>sent\<close> and \<open>responses\<close>
  record what left the process: each RPC with the job it serves, each reply written to a
  connection.
\<close>

record goal_bridge =
  store :: bridge_db
  thread_events :: "string \<rightharpoonup> bool"
  expected_goal_status :: "string \<rightharpoonup> string \<times> int option"
  pause_notifications :: "string \<rightharpoonup> json list"
  goal_controls :: "string \<rightharpoonup> nat option"
  delivery_tasks :: "string \<rightharpoonup> nat"
  deadline_tasks :: "string \<rightharpoonup> nat"
  tasks :: "nat \<rightharpoonup> goal_task"
  next_task :: nat
  sent :: "(string \<times> rpc) list"
  responses :: "(nat \<times> json) list"

text \<open>How a segment of a coroutine ends, when it does not raise.\<close>

datatype coro = Suspend goal_pc | Done json

definition send :: "string \<Rightarrow> rpc \<Rightarrow> 'a goal_bridge_scheme \<Rightarrow> 'a goal_bridge_scheme" where
  "send j r s = s\<lparr>sent := sent s @ [(j, r)]\<rparr>"

definition task_done :: "nat \<Rightarrow> 'a goal_bridge_scheme \<Rightarrow> bool" where
  "task_done tid s \<longleftrightarrow> tasks s tid = None"

definition spawn :: "goal_pc \<Rightarrow> 'a goal_bridge_scheme \<Rightarrow> 'a goal_bridge_scheme" where
  "spawn pc s =
     s\<lparr>tasks := (tasks s)(next_task s \<mapsto> \<lparr>task_pc = pc, cancelled = False\<rparr>),
       next_task := Suc (next_task s)\<rparr>"

definition cancel_task :: "nat \<Rightarrow> 'a goal_bridge_scheme \<Rightarrow> 'a goal_bridge_scheme" where
  "cancel_task tid s =
     (case tasks s tid of
        None \<Rightarrow> s
      | Some t \<Rightarrow> s\<lparr>tasks := (tasks s)(tid \<mapsto> t\<lparr>cancelled := True\<rparr>)\<rparr>)"

definition st_update ::
  "clock \<Rightarrow> string \<Rightarrow> lease_field list \<Rightarrow> 'a goal_bridge_scheme \<Rightarrow>
   ('a goal_bridge_scheme, wake_lease) outcome" where
  "st_update now j fs s = (case db_update now j fs (store s) of (d, r) \<Rightarrow> (s\<lparr>store := d\<rparr>, r))"

definition st_create ::
  "clock \<Rightarrow> new_lease \<Rightarrow> 'a goal_bridge_scheme \<Rightarrow> ('a goal_bridge_scheme, wake_lease) outcome" where
  "st_create now n s = (case create_lease now n (store s) of (d, r) \<Rightarrow> (s\<lparr>store := d\<rparr>, r))"

section \<open>Checks on foreign values\<close>

definition check_job_id :: "json \<Rightarrow> pyexc + string" where
  "check_job_id v =
     (case v of
        JStr s \<Rightarrow> if hex_handle 32 s then Inr s else Inl (ValueError ''invalid job_id'')
      | _ \<Rightarrow> Inl (ValueError ''invalid job_id''))"

definition check_thread_id :: "json \<Rightarrow> pyexc + string" where
  "check_thread_id v =
     (case v of
        JStr s \<Rightarrow>
          (case uuid_UUID s of
             None \<Rightarrow> Inl (ValueError ''invalid thread_id'')
           | Some n \<Rightarrow>
               if uuid_str n \<noteq> lower s
               then Inl (ValueError ''thread_id must use canonical UUID syntax'')
               else Inr (lower s))
      | _ \<Rightarrow> Inl (ValueError ''invalid thread_id''))"

definition goal_from_result :: "json \<Rightarrow> pyexc + json" where
  "goal_from_result res =
     (if \<not> is_dict res \<or> \<not> is_dict (jget ''goal'' res)
      then Inl (RuntimeError ''thread has no durable Goal'')
      else Inr (jget ''goal'' res))"

definition same_goal :: "wake_lease \<Rightarrow> json \<Rightarrow> bool" where
  "same_goal lease goal \<longleftrightarrow>
     py_eq (jget ''threadId'' goal) (JStr (thread_id lease)) \<and>
     py_eq (jget ''createdAt'' goal) (JInt (goal_created_at lease)) \<and>
     py_eq (jget ''objective'' goal) (JStr (objective lease))"

definition thread_status :: "json \<Rightarrow> pyexc + string" where
  "thread_status res =
     (if \<not> is_dict res then Inl (RuntimeError ''invalid thread/read response'')
      else
        let thread = jget ''thread'' res;
            status = (if is_dict thread then jget ''status'' thread else JNull);
            status_type = (if is_dict status then jget ''type'' status else JNull)
        in (case status_type of
              JStr t \<Rightarrow> Inr t
            | _ \<Rightarrow> Inl (RuntimeError ''thread/read response has no runtime status'')))"

section \<open>Scheduling, abandoning\<close>

definition schedule_delivery :: "wake_lease \<Rightarrow> 'a goal_bridge_scheme \<Rightarrow> 'a goal_bridge_scheme" where
  "schedule_delivery lease s =
     (if (case delivery_tasks s (job_id lease) of None \<Rightarrow> True | Some tid \<Rightarrow> task_done tid s)
      then (spawn (W_start lease) s)
             \<lparr>delivery_tasks := (delivery_tasks s)(job_id lease \<mapsto> next_task s)\<rparr>
      else s)"

definition schedule_deadline :: "wake_lease \<Rightarrow> 'a goal_bridge_scheme \<Rightarrow> 'a goal_bridge_scheme" where
  "schedule_deadline lease s =
     (if (case deadline_tasks s (job_id lease) of None \<Rightarrow> True | Some tid \<Rightarrow> task_done tid s)
      then (spawn (X_start lease) s)
             \<lparr>deadline_tasks := (deadline_tasks s)(job_id lease \<mapsto> next_task s)\<rparr>
      else s)"

definition drop_delivery :: "string \<Rightarrow> 'a goal_bridge_scheme \<Rightarrow> 'a goal_bridge_scheme" where
  "drop_delivery j s =
     (case delivery_tasks s j of
        None \<Rightarrow> s
      | Some tid \<Rightarrow> cancel_task tid (s\<lparr>delivery_tasks := (delivery_tasks s)(j := None)\<rparr>))"

definition drop_deadline :: "string \<Rightarrow> 'a goal_bridge_scheme \<Rightarrow> 'a goal_bridge_scheme" where
  "drop_deadline j s =
     (case deadline_tasks s j of
        None \<Rightarrow> s
      | Some tid \<Rightarrow> cancel_task tid (s\<lparr>deadline_tasks := (deadline_tasks s)(j := None)\<rparr>))"

definition abandon_fields :: "string \<Rightarrow> lease_field list" where
  "abandon_fields reason = [F_state L_abandoned, F_delivery_state D_abandoned, F_error reason]"

definition failed_fields :: "string \<Rightarrow> lease_field list" where
  "failed_fields reason = [F_state L_failed, F_delivery_state D_needs_manual_recovery, F_error reason]"

definition abandon_for_manual_change ::
  "clock \<Rightarrow> string \<Rightarrow> string \<Rightarrow> 'a goal_bridge_scheme \<Rightarrow> ('a goal_bridge_scheme, unit) outcome" where
  "abandon_for_manual_change now thr reason s =
     (case db_live_for_thread (store s) thr of
        None \<Rightarrow> (s, Inr ())
      | Some lease \<Rightarrow>
          if delivery_state lease = D_activating then (s, Inr ())
          else and_then (st_update now (job_id lease) (abandon_fields reason) s)
                 (\<lambda>_ s. (drop_deadline (job_id lease) (drop_delivery (job_id lease) s), Inr ())))"

section \<open>Registration\<close>

definition prepare_start ::
  "string \<Rightarrow> json \<Rightarrow> 'a goal_bridge_scheme \<Rightarrow> ('a goal_bridge_scheme, coro) outcome" where
  "prepare_start job req s =
     (case check_thread_id (jget ''thread_id'' req) of
        Inl e \<Rightarrow> (s, Inl e)
      | Inr thr \<Rightarrow>
          let timeout = jget ''timeout_sec'' req; grace = jget ''grace_period_sec'' req in
          if \<not> isinstance_int timeout
             \<or> \<not> (1 \<le> int_of_json timeout \<and> int_of_json timeout \<le> 7 * 24 * 60 * 60)
          then (s, Inl (ValueError ''invalid timeout_sec''))
          else if \<not> isinstance_int grace
             \<or> \<not> (1 \<le> int_of_json grace \<and> int_of_json grace \<le> 120)
          then (s, Inl (ValueError ''invalid grace_period_sec''))
          else
            (case db_get (store s) job of
               Some existing \<Rightarrow>
                 if thread_id existing = thr \<and> lease_state existing = L_armed
                    \<and> delivery_state existing = D_pending
                 then (s, Inr (Done (JObj [(''ok'', JBool True), (''automatic_wakeup'', JBool True),
                                           (''idempotent'', JBool True)])))
                 else (s, Inl (RuntimeError ''job already has a non-reusable wake lease''))
             | None \<Rightarrow>
                 (send job (Goal_get thr) s,
                  Inr (Suspend (P_get job thr (int_of_json timeout) (int_of_json grace))))))"

definition prepare_got ::
  "clock \<Rightarrow> string \<Rightarrow> string \<Rightarrow> int \<Rightarrow> int \<Rightarrow> pyexc + json \<Rightarrow> 'a goal_bridge_scheme \<Rightarrow>
   ('a goal_bridge_scheme, coro) outcome" where
  "prepare_got now job thr timeout grace reply s =
     (case reply of Inl e \<Rightarrow> (s, Inl e) | Inr res \<Rightarrow>
     (case goal_from_result res of Inl e \<Rightarrow> (s, Inl e) | Inr goal \<Rightarrow>
        let obj = jget ''objective'' goal; created = jget ''createdAt'' goal;
            updated = jget ''updatedAt'' goal in
        if \<not> py_eq (jget ''status'' goal) (JStr ''active'')
        then (s, Inl (RuntimeError ''Goal wakeup requires an active Goal''))
        else if \<not> is_str obj \<or> \<not> isinstance_int created \<or> \<not> isinstance_int updated
        then (s, Inl (RuntimeError ''App Server returned incomplete Goal identity''))
        else
          and_then
            (st_create now
               \<lparr>nl_job_id = job, nl_thread_id = thr, nl_objective = str_of_json obj,
                nl_goal_created_at = int_of_json created, nl_goal_updated_at = int_of_json updated,
                nl_deadline_at = now + of_int timeout + of_int grace + 60,
                nl_wake_mode = M_goal, nl_turn_id = None, nl_call_id = None\<rparr> s)
            (\<lambda>lease s.
               (send job (Goal_set thr ''paused'')
                  (s\<lparr>pause_notifications := (pause_notifications s)(thr \<mapsto> [])\<rparr>),
                Inr (Suspend (P_pause job thr (int_of_json updated) lease))))))"

text \<open>
  The \<open>except\<close> and \<open>finally\<close> clauses around the pause: whatever was raised, a lease
  still in preparation is abandoned, and the exception goes on.
\<close>

definition prepare_failed ::
  "clock \<Rightarrow> string \<Rightarrow> string \<Rightarrow> pyexc \<Rightarrow> 'a goal_bridge_scheme \<Rightarrow>
   ('a goal_bridge_scheme, 'b) outcome" where
  "prepare_failed now job thr exc s =
     (let s = s\<lparr>expected_goal_status := (expected_goal_status s)(thr := None)\<rparr>;
          handled =
            (case db_get (store s) job of
               None \<Rightarrow> (s, Inr ())
             | Some current \<Rightarrow>
                 if lease_state current = L_preparing
                 then and_then (st_update now job (abandon_fields (''prepare failed: '' @ exc_str exc)) s)
                        (\<lambda>_ s. (s, Inr ()))
                 else (s, Inr ()))
      in (case handled of (s, r) \<Rightarrow>
            (s\<lparr>pause_notifications := (pause_notifications s)(thr := None)\<rparr>,
             Inl (case r of Inl e \<Rightarrow> e | Inr _ \<Rightarrow> exc))))"

definition prepare_paused ::
  "clock \<Rightarrow> string \<Rightarrow> string \<Rightarrow> int \<Rightarrow> wake_lease \<Rightarrow> pyexc + json \<Rightarrow> 'a goal_bridge_scheme \<Rightarrow>
   ('a goal_bridge_scheme, coro) outcome" where
  "prepare_paused now job thr updated lease reply s =
     (let fail = (\<lambda>e. prepare_failed now job thr e s) in
      case reply of Inl e \<Rightarrow> fail e | Inr res \<Rightarrow>
      (case goal_from_result res of Inl e \<Rightarrow> fail e | Inr paused \<Rightarrow>
         let u = jget ''updatedAt'' paused in
         if \<not> same_goal lease paused \<or> \<not> py_eq (jget ''status'' paused) (JStr ''paused'')
         then fail (RuntimeError ''Goal identity changed while the wake lease was being armed'')
         else if \<not> type_is_int u \<or> int_of_json u < updated
         then fail (RuntimeError ''App Server returned incomplete paused Goal revision'')
         else (send job (Goal_get thr) s,
               Inr (Suspend (P_confirm job thr updated (int_of_json u) lease)))))"

text \<open>
  The reconciliation of the notifications buffered while the pause was in flight: those
  older than the active snapshot are skipped, active ones up to the pause are skipped until
  a paused one was seen, and every other one must be the pause itself.
\<close>

fun reconcile_pause :: "wake_lease \<Rightarrow> int \<Rightarrow> int \<Rightarrow> bool \<Rightarrow> json list \<Rightarrow> bool" where
  "reconcile_pause lease updated paused_updated saw [] = True"
| "reconcile_pause lease updated paused_updated saw (n # ns) =
     (let revision = jget ''updatedAt'' n in
      if same_goal lease n \<and> type_is_int revision \<and> int_of_json revision \<le> updated
      then reconcile_pause lease updated paused_updated saw ns
      else if \<not> saw \<and> same_goal lease n \<and> py_eq (jget ''status'' n) (JStr ''active'')
              \<and> type_is_int revision \<and> int_of_json revision \<le> paused_updated
      then reconcile_pause lease updated paused_updated saw ns
      else if \<not> same_goal lease n \<or> \<not> py_eq (jget ''status'' n) (JStr ''paused'')
              \<or> \<not> py_eq revision (JInt paused_updated)
      then False
      else reconcile_pause lease updated paused_updated True ns)"

text \<open>The commit of the confirmed pause, and what is scheduled for it.\<close>

definition prepare_arm ::
  "clock \<Rightarrow> string \<Rightarrow> string \<Rightarrow> int \<Rightarrow> wake_lease \<Rightarrow> 'a goal_bridge_scheme \<Rightarrow>
   ('a goal_bridge_scheme, coro) outcome" where
  "prepare_arm now job thr paused_updated current s =
     (let early = terminal_state current \<noteq> None in
      case st_update now job
             [F_state (if early then L_terminal else L_armed),
              F_delivery_state (if early then D_waiting_for_idle else D_pending),
              F_goal_updated_at paused_updated] s of
        (s', Inl e) \<Rightarrow> prepare_failed now job thr e s'
      | (s', Inr lease') \<Rightarrow>
          let s'' = s'\<lparr>pause_notifications := (pause_notifications s')(thr := None)\<rparr>
          in (if lease_state lease' = L_terminal
              then schedule_delivery lease' s'' else schedule_deadline lease' s'',
              Inr (Done (JObj [(''ok'', JBool True), (''automatic_wakeup'', JBool True),
                               (''thread_id'', JStr thr)]))))"

definition prepare_confirmed ::
  "clock \<Rightarrow> string \<Rightarrow> string \<Rightarrow> int \<Rightarrow> int \<Rightarrow> wake_lease \<Rightarrow> pyexc + json \<Rightarrow> 'a goal_bridge_scheme \<Rightarrow>
   ('a goal_bridge_scheme, coro) outcome" where
  "prepare_confirmed now job thr updated paused_updated lease reply s =
     (let fail = (\<lambda>e. prepare_failed now job thr e s) in
      case reply of Inl e \<Rightarrow> fail e | Inr res \<Rightarrow>
      (case goal_from_result res of Inl e \<Rightarrow> fail e | Inr latest \<Rightarrow>
         if \<not> same_goal lease latest \<or> \<not> py_eq (jget ''status'' latest) (JStr ''paused'')
            \<or> \<not> py_eq (jget ''updatedAt'' latest) (JInt paused_updated)
         then fail (RuntimeError ''Goal changed while its bridge pause was being confirmed'')
         else
           (case pause_notifications s thr of
              None \<Rightarrow> fail (KeyError thr)
            | Some ns \<Rightarrow>
                if \<not> reconcile_pause lease updated paused_updated False ns
                then fail (RuntimeError ''Goal was changed outside the bridge during registration'')
                else
                  (case db_get (store s) job of
                     None \<Rightarrow> fail (RuntimeError ''wake registration was revoked before pause confirmation'')
                   | Some current \<Rightarrow>
                       if lease_state current \<noteq> L_preparing \<or> delivery_state current \<noteq> D_pending
                       then fail (RuntimeError ''wake registration was revoked before pause confirmation'')
                       else
                         prepare_arm now job thr paused_updated current s))))"

section \<open>Terminal events and aborts\<close>

definition ok_delivery :: "string \<Rightarrow> jfields \<Rightarrow> coro" where
  "ok_delivery d extra = Done (JObj ((''ok'', JBool True) # (''delivery_state'', JStr d) # extra))"

definition settled_delivery :: "delivery_state \<Rightarrow> bool" where
  "settled_delivery d \<longleftrightarrow> d \<in> {D_resumed, D_abandoned, D_needs_manual_recovery}"

definition terminal_request ::
  "clock \<Rightarrow> string \<Rightarrow> json \<Rightarrow> 'a goal_bridge_scheme \<Rightarrow> ('a goal_bridge_scheme, coro) outcome" where
  "terminal_request now job req s =
     (case check_thread_id (jget ''thread_id'' req) of
        Inl e \<Rightarrow> (s, Inl e)
      | Inr thr \<Rightarrow>
     (case jget ''terminal_state'' req of
        JStr tstate \<Rightarrow>
          if length tstate > 64 then (s, Inl (ValueError ''invalid terminal_state''))
          else
     (case db_get (store s) job of
        None \<Rightarrow> (s, Inl (RuntimeError ''no matching wake lease''))
      | Some lease \<Rightarrow>
          if thread_id lease \<noteq> thr then (s, Inl (RuntimeError ''no matching wake lease''))
          else if settled_delivery (delivery_state lease)
          then (s, Inr (ok_delivery (delivery_str (delivery_state lease)) [(''idempotent'', JBool True)]))
          else if lease_state lease = L_terminal
          then (s, Inr (ok_delivery (delivery_str (delivery_state lease)) [(''idempotent'', JBool True)]))
          else if lease_state lease = L_preparing \<and> delivery_state lease = D_pending
          then
            (if terminal_state lease = None
             then and_then (st_update now job [F_terminal_state tstate] s)
                    (\<lambda>_ s. (s, Inr (ok_delivery ''waiting_for_registration'' [])))
             else (s, Inr (ok_delivery ''waiting_for_registration'' [])))
          else if lease_state lease \<noteq> L_armed \<or> delivery_state lease \<noteq> D_pending
          then (s, Inl (RuntimeError ''wake lease is not armed for terminal delivery''))
          else
            and_then
              (st_update now job [F_state L_terminal, F_terminal_state tstate,
                                  F_delivery_state D_waiting_for_idle] s)
              (\<lambda>lease s.
                 (schedule_delivery lease (drop_deadline job s),
                  Inr (ok_delivery ''waiting_for_idle'' []))))
      | _ \<Rightarrow> (s, Inl (ValueError ''invalid terminal_state''))))"

text \<open>
  Methods that call the overridable \<open>_abandon_for_manual_change\<close> take it as their first
  argument, so that a subclass passes its own.
\<close>

type_synonym 's abandon = "clock \<Rightarrow> string \<Rightarrow> string \<Rightarrow> 's \<Rightarrow> ('s, unit) outcome"

definition abort_request ::
  "'a goal_bridge_scheme abandon \<Rightarrow> clock \<Rightarrow> string \<Rightarrow> json \<Rightarrow> 'a goal_bridge_scheme \<Rightarrow>
   ('a goal_bridge_scheme, coro) outcome" where
  "abort_request self_abandon now job req s =
     (case check_thread_id (jget ''thread_id'' req) of
        Inl e \<Rightarrow> (s, Inl e)
      | Inr thr \<Rightarrow>
     (case db_get (store s) job of
        None \<Rightarrow> (s, Inr (ok_delivery ''not_registered'' []))
      | Some lease \<Rightarrow>
          if thread_id lease \<noteq> thr then (s, Inl (RuntimeError ''wake lease belongs to another thread''))
          else if settled_delivery (delivery_state lease)
          then (s, Inr (ok_delivery (delivery_str (delivery_state lease)) []))
          else if lease_state lease = L_preparing
          then and_then (self_abandon now thr ''Wake registration aborted before pause confirmation'' s)
                 (\<lambda>_ s. (s, Inr (ok_delivery ''abandoned'' [])))
          else if lease_state lease = L_terminal
          then (s, Inr (ok_delivery (delivery_str (delivery_state lease)) []))
          else if lease_state lease \<noteq> L_armed \<or> delivery_state lease \<noteq> D_pending
          then (s, Inl (RuntimeError ''wake lease cannot be aborted from its current state''))
          else
            and_then
              (st_update now job [F_state L_terminal, F_terminal_state ''bridge_aborted'',
                                  F_delivery_state D_waiting_for_idle] s)
              (\<lambda>lease s. (schedule_delivery lease s, Inr (ok_delivery ''waiting_for_idle'' [])))))"

section \<open>Delivery\<close>

text \<open>\<open>finally: self._delivery_tasks.pop(lease.job_id, None)\<close>.\<close>

definition pop_delivery :: "wake_lease \<Rightarrow> 'a goal_bridge_scheme \<Rightarrow> 'a goal_bridge_scheme" where
  "pop_delivery lease s = s\<lparr>delivery_tasks := (delivery_tasks s)(job_id lease := None)\<rparr>"

text \<open>The handlers around \<open>_deliver\<close>'s body, for an exception that leaves it.\<close>

definition deliver_raise ::
  "clock \<Rightarrow> wake_lease \<Rightarrow> pyexc \<Rightarrow> 'a goal_bridge_scheme \<Rightarrow> ('a goal_bridge_scheme, coro) outcome" where
  "deliver_raise now lease exc s =
     (if exc = CancelledError then (pop_delivery lease s, Inl CancelledError)
      else
        (case db_get (store s) (job_id lease) of
           None \<Rightarrow> (pop_delivery lease s, Inr (Done JNull))
         | Some current \<Rightarrow>
             if delivery_state current \<in> {D_resumed, D_abandoned}
             then (pop_delivery lease s, Inr (Done JNull))
             else
               (case st_update now (job_id lease)
                       (failed_fields (''delivery failed: '' @ exc_name exc @ '': '' @ exc_str exc)) s of
                  (s', Inl e) \<Rightarrow> (pop_delivery lease s', Inl e)
                | (s', Inr _) \<Rightarrow> (pop_delivery lease s', Inr (Done JNull)))))"

text \<open>\<open>_wait_until_idle\<close>, from its start to the first \<open>thread/read\<close>.\<close>

definition wait_idle ::
  "wake_lease \<Rightarrow> 'a goal_bridge_scheme \<Rightarrow> ('a goal_bridge_scheme, coro) outcome" where
  "wait_idle lease s =
     (let s = (if thread_events s (thread_id lease) = None
               then s\<lparr>thread_events := (thread_events s)(thread_id lease \<mapsto> False)\<rparr> else s)
      in (send (job_id lease) (Thread_read (thread_id lease)) s, Inr (Suspend (W_idle1 lease))))"

definition deliver_start ::
  "wake_lease \<Rightarrow> 'a goal_bridge_scheme \<Rightarrow> ('a goal_bridge_scheme, coro) outcome" where
  "deliver_start lease s =
     (case db_get (store s) (job_id lease) of
        None \<Rightarrow> (pop_delivery lease s, Inr (Done JNull))
      | Some current \<Rightarrow>
          if lease_state current \<noteq> L_terminal \<or> delivery_state current \<noteq> D_waiting_for_idle
          then (pop_delivery lease s, Inr (Done JNull))
          else wait_idle lease s)"

definition system_error :: pyexc where
  "system_error = RuntimeError ''thread entered systemError before Goal wakeup''"

text \<open>After the first \<open>thread/read\<close> of a round, and after the second.\<close>

definition idle_first ::
  "clock \<Rightarrow> wake_lease \<Rightarrow> pyexc + json \<Rightarrow> 'a goal_bridge_scheme \<Rightarrow> ('a goal_bridge_scheme, coro) outcome" where
  "idle_first now lease reply s =
     (case reply of Inl e \<Rightarrow> deliver_raise now lease e s | Inr res \<Rightarrow>
     (case thread_status res of Inl e \<Rightarrow> deliver_raise now lease e s | Inr status \<Rightarrow>
        if status = ''idle'' then (s, Inr (Suspend (W_lock lease)))
        else if status = ''systemError'' then deliver_raise now lease system_error s
        else (send (job_id lease) (Thread_read (thread_id lease))
                (s\<lparr>thread_events := (thread_events s)(thread_id lease \<mapsto> False)\<rparr>),
              Inr (Suspend (W_idle2 lease)))))"

definition idle_second ::
  "clock \<Rightarrow> wake_lease \<Rightarrow> pyexc + json \<Rightarrow> 'a goal_bridge_scheme \<Rightarrow> ('a goal_bridge_scheme, coro) outcome" where
  "idle_second now lease reply s =
     (case reply of Inl e \<Rightarrow> deliver_raise now lease e s | Inr res \<Rightarrow>
     (case thread_status res of Inl e \<Rightarrow> deliver_raise now lease e s | Inr status \<Rightarrow>
        if status = ''idle'' then (s, Inr (Suspend (W_lock lease)))
        else if status = ''systemError'' then deliver_raise now lease system_error s
        else (s, Inr (Suspend (W_event lease)))))"

section \<open>Activation\<close>

text \<open>
  The lock of \<open>_goal_controls\<close>: taken by the task that enters the \<open>async with\<close>,
  released when it leaves it in any way.
\<close>

definition lock_free :: "string \<Rightarrow> 'a goal_bridge_scheme \<Rightarrow> bool" where
  "lock_free thr s \<longleftrightarrow> goal_controls s thr \<in> {None, Some None}"

definition acquire :: "string \<Rightarrow> nat \<Rightarrow> 'a goal_bridge_scheme \<Rightarrow> 'a goal_bridge_scheme" where
  "acquire thr tid s = s\<lparr>goal_controls := (goal_controls s)(thr \<mapsto> Some tid)\<rparr>"

definition release :: "string \<Rightarrow> 'a goal_bridge_scheme \<Rightarrow> 'a goal_bridge_scheme" where
  "release thr s = s\<lparr>goal_controls := (goal_controls s)(thr \<mapsto> None)\<rparr>"

definition activate_start ::
  "nat \<Rightarrow> wake_lease \<Rightarrow> 'a goal_bridge_scheme \<Rightarrow> ('a goal_bridge_scheme, coro) outcome" where
  "activate_start tid lease s =
     (send (job_id lease) (Thread_read (thread_id lease)) (acquire (thread_id lease) tid s),
      Inr (Suspend (A_read lease)))"

text \<open>How \<open>_activate_goal\<close> ends a segment: it awaits an RPC, or it returns.\<close>

datatype act = Act_await goal_pc | Act_return bool

text \<open>The \<open>async with\<close> and the \<open>while True\<close> of \<open>_deliver\<close> around it.\<close>

definition deliver_loop ::
  "clock \<Rightarrow> wake_lease \<Rightarrow> ('a goal_bridge_scheme, act) outcome \<Rightarrow> ('a goal_bridge_scheme, coro) outcome" where
  "deliver_loop now lease a =
     (case a of
        (s, Inl e) \<Rightarrow> deliver_raise now lease e (release (thread_id lease) s)
      | (s, Inr (Act_await pc)) \<Rightarrow> (s, Inr (Suspend pc))
      | (s, Inr (Act_return True)) \<Rightarrow>
          (pop_delivery lease (release (thread_id lease) s), Inr (Done JNull))
      | (s, Inr (Act_return False)) \<Rightarrow> wait_idle lease (release (thread_id lease) s))"

definition activate_read ::
  "wake_lease \<Rightarrow> pyexc + json \<Rightarrow> 'a goal_bridge_scheme \<Rightarrow> ('a goal_bridge_scheme, act) outcome" where
  "activate_read lease reply s =
     (case reply of Inl e \<Rightarrow> (s, Inl e) | Inr res \<Rightarrow>
     (case thread_status res of Inl e \<Rightarrow> (s, Inl e) | Inr status \<Rightarrow>
        if status \<noteq> ''idle'' then (s, Inr (Act_return False))
        else
          (case db_get (store s) (job_id lease) of
             None \<Rightarrow> (s, Inr (Act_return True))
           | Some current \<Rightarrow>
               if settled_delivery (delivery_state current) then (s, Inr (Act_return True))
               else (send (job_id lease) (Goal_get (thread_id lease)) s, Inr (Act_await (A_get lease))))))"

definition act_update ::
  "clock \<Rightarrow> wake_lease \<Rightarrow> lease_field list \<Rightarrow> 'a goal_bridge_scheme \<Rightarrow> ('a goal_bridge_scheme, act) outcome" where
  "act_update now lease fs s = and_then (st_update now (job_id lease) fs s) (\<lambda>_ s. (s, Inr (Act_return True)))"

definition activate_get ::
  "clock \<Rightarrow> wake_lease \<Rightarrow> pyexc + json \<Rightarrow> 'a goal_bridge_scheme \<Rightarrow> ('a goal_bridge_scheme, act) outcome" where
  "activate_get now lease reply s =
     (case reply of Inl e \<Rightarrow> (s, Inl e) | Inr res \<Rightarrow>
     (case goal_from_result res of Inl e \<Rightarrow> (s, Inl e) | Inr goal \<Rightarrow>
     (case db_get (store s) (job_id lease) of
        None \<Rightarrow> (s, Inr (Act_return True))
      | Some current \<Rightarrow>
          if lease_state current \<noteq> L_terminal \<or> delivery_state current \<noteq> D_waiting_for_idle
          then (s, Inr (Act_return True))
          else if \<not> same_goal lease goal
          then act_update now lease (abandon_fields ''Goal identity changed before terminal delivery'') s
          else if py_eq (jget ''status'' goal) (JStr ''active'')
          then act_update now lease (abandon_fields ''Goal was resumed outside the bridge'') s
          else if \<not> py_eq (jget ''status'' goal) (JStr ''paused'')
          then act_update now lease
                 (abandon_fields (''Goal status changed to '' @ json_repr (jget ''status'' goal))) s
          else if \<not> py_eq (jget ''updatedAt'' goal) (JInt (goal_updated_at current))
          then act_update now lease (abandon_fields ''Paused Goal revision changed before terminal delivery'') s
          else
            and_then (st_update now (job_id lease) [F_delivery_state D_activating] s)
              (\<lambda>_ s.
                 (send (job_id lease) (Goal_set (thread_id lease) ''active'')
                    (s\<lparr>expected_goal_status :=
                         (expected_goal_status s)(thread_id lease \<mapsto> (''active'', None))\<rparr>),
                  Inr (Act_await (A_set lease)))))))"

definition pop_expected :: "string \<Rightarrow> 'a goal_bridge_scheme \<Rightarrow> 'a goal_bridge_scheme" where
  "pop_expected thr s = s\<lparr>expected_goal_status := (expected_goal_status s)(thr := None)\<rparr>"

definition activate_set ::
  "clock \<Rightarrow> wake_lease \<Rightarrow> pyexc + json \<Rightarrow> 'a goal_bridge_scheme \<Rightarrow> ('a goal_bridge_scheme, act) outcome" where
  "activate_set now lease reply s =
     (case reply of
        Inl e \<Rightarrow> act_update now lease (failed_fields (''ambiguous Goal activation: '' @ exc_str e))
                   (pop_expected (thread_id lease) s)
      | Inr res \<Rightarrow>
     (case goal_from_result res of Inl e \<Rightarrow> (s, Inl e) | Inr activated \<Rightarrow>
        if \<not> same_goal lease activated \<or> \<not> py_eq (jget ''status'' activated) (JStr ''active'')
        then act_update now lease (failed_fields ''App Server did not confirm Goal activation'') s
        else if \<not> isinstance_int (jget ''updatedAt'' activated)
        then act_update now lease (failed_fields ''App Server returned incomplete active Goal revision'') s
        else act_update now lease [F_state L_delivered, F_delivery_state D_resumed]
               (pop_expected (thread_id lease) s)))"

section \<open>User controls, notifications\<close>

definition user_goal_control ::
  "'a goal_bridge_scheme abandon \<Rightarrow> clock \<Rightarrow> string \<Rightarrow> 'a goal_bridge_scheme \<Rightarrow>
   ('a goal_bridge_scheme, coro) outcome" where
  "user_goal_control self_abandon now thr s =
     and_then (self_abandon now thr ''Explicit user Goal control'' s)
       (\<lambda>_ s. (s, Inr (Suspend (U_lock thr))))"

definition user_control_locked ::
  "'a goal_bridge_scheme abandon \<Rightarrow> clock \<Rightarrow> nat \<Rightarrow> string \<Rightarrow> 'a goal_bridge_scheme \<Rightarrow>
   ('a goal_bridge_scheme, coro) outcome" where
  "user_control_locked self_abandon now tid thr s =
     (case self_abandon now thr ''Explicit user Goal control'' (acquire thr tid s) of
        (s, Inl e) \<Rightarrow> (release thr s, Inl e)
      | (s, Inr _) \<Rightarrow> (send [] (User_op thr) s, Inr (Suspend (U_op thr))))"

definition pick_goal :: "json \<Rightarrow> json" where
  "pick_goal goal =
     JObj (map (\<lambda>k. (k, jget k goal)) [''threadId'', ''objective'', ''createdAt'', ''updatedAt'', ''status''])"

definition set_event :: "string \<Rightarrow> 'a goal_bridge_scheme \<Rightarrow> 'a goal_bridge_scheme" where
  "set_event thr s = s\<lparr>thread_events := (thread_events s)(thr \<mapsto> True)\<rparr>"

definition goal_updated ::
  "'a goal_bridge_scheme abandon \<Rightarrow> clock \<Rightarrow> string \<Rightarrow> json \<Rightarrow> 'a goal_bridge_scheme \<Rightarrow>
   ('a goal_bridge_scheme, unit) outcome" where
  "goal_updated self_abandon now thr goal s =
     (case pause_notifications s thr of
        Some ns \<Rightarrow>
          if length ns \<ge> 64
          then self_abandon now thr ''Too many Goal changes during pause confirmation'' s
          else (s\<lparr>pause_notifications := (pause_notifications s)(thr \<mapsto> ns @ [pick_goal goal])\<rparr>, Inr ())
      | None \<Rightarrow>
          if (case expected_goal_status s thr of
                None \<Rightarrow> False
              | Some (status, exp_rev) \<Rightarrow>
                  py_eq (jget ''status'' goal) (JStr status) \<and>
                  (case exp_rev of None \<Rightarrow> True | Some u \<Rightarrow> py_eq (jget ''updatedAt'' goal) (JInt u)))
          then (pop_expected thr s, Inr ())
          else
            (case db_live_for_thread (store s) thr of
               None \<Rightarrow> (s, Inr ())
             | Some lease \<Rightarrow>
                 let revision = jget ''updatedAt'' goal in
                 if same_goal lease goal \<and> type_is_int revision
                    \<and> int_of_json revision < goal_updated_at lease
                 then (s, Inr ())
                 else if \<not> same_goal lease goal \<or> \<not> py_eq (jget ''status'' goal) (JStr ''paused'')
                    \<or> \<not> py_eq revision (JInt (goal_updated_at lease))
                 then self_abandon now thr ''Goal was changed outside the bridge'' s
                 else (s, Inr ())))"

definition on_notification ::
  "'a goal_bridge_scheme abandon \<Rightarrow> clock \<Rightarrow> string \<Rightarrow> json \<Rightarrow> 'a goal_bridge_scheme \<Rightarrow>
   ('a goal_bridge_scheme, unit) outcome" where
  "on_notification self_abandon now meth params s =
     (case jget ''threadId'' params of
        JStr thr \<Rightarrow>
          if meth = ''thread/status/changed'' \<or> meth = ''turn/completed'' then (set_event thr s, Inr ())
          else if meth = ''thread/goal/cleared'' then self_abandon now thr ''Goal was cleared'' s
          else if meth \<noteq> ''thread/goal/updated'' then (s, Inr ())
          else if \<not> is_dict (jget ''goal'' params) then (s, Inr ())
          else goal_updated self_abandon now thr (jget ''goal'' params) s
      | _ \<Rightarrow> (s, Inr ()))"

section \<open>Deadlines, recovery\<close>

definition pop_deadline :: "wake_lease \<Rightarrow> 'a goal_bridge_scheme \<Rightarrow> 'a goal_bridge_scheme" where
  "pop_deadline lease s = s\<lparr>deadline_tasks := (deadline_tasks s)(job_id lease := None)\<rparr>"

definition expire_at_deadline ::
  "clock \<Rightarrow> wake_lease \<Rightarrow> 'a goal_bridge_scheme \<Rightarrow> ('a goal_bridge_scheme, coro) outcome" where
  "expire_at_deadline now lease s =
     (case db_get (store s) (job_id lease) of
        None \<Rightarrow> (pop_deadline lease s, Inr (Done JNull))
      | Some current \<Rightarrow>
          if lease_state current \<noteq> L_armed \<or> delivery_state current \<noteq> D_pending
          then (pop_deadline lease s, Inr (Done JNull))
          else
            (case st_update now (job_id lease)
                    [F_state L_terminal, F_terminal_state ''bridge_deadline_expired'',
                     F_delivery_state D_waiting_for_idle,
                     F_error ''MCP server did not deliver a terminal event before the guarded deadline''] s of
               (s', Inl e) \<Rightarrow> (pop_deadline lease s', Inl e)
             | (s', Inr current') \<Rightarrow>
                 (pop_deadline lease (schedule_delivery current' s'), Inr (Done JNull))))"

definition recover_lease ::
  "clock \<Rightarrow> wake_lease \<Rightarrow> 'a goal_bridge_scheme \<Rightarrow> ('a goal_bridge_scheme, unit) outcome" where
  "recover_lease now lease s =
     (let upd = (\<lambda>fs. and_then (st_update now (job_id lease) fs s) (\<lambda>_ s. (s, Inr ()))) in
      case delivery_state lease of
        D_abandoned \<Rightarrow> upd [F_state L_abandoned]
      | D_resumed \<Rightarrow> upd [F_state L_delivered]
      | D_needs_manual_recovery \<Rightarrow> upd [F_state L_failed]
      | D_activating \<Rightarrow> upd (failed_fields ''bridge restarted during ambiguous Goal activation'')
      | _ \<Rightarrow>
          (case lease_state lease of
             L_terminal \<Rightarrow> (schedule_delivery lease s, Inr ())
           | L_armed \<Rightarrow> (schedule_deadline lease s, Inr ())
           | _ \<Rightarrow> upd (failed_fields ''bridge restarted during wake lease preparation'')))"

fun recover_all ::
  "clock \<Rightarrow> wake_lease list \<Rightarrow> 'a goal_bridge_scheme \<Rightarrow> ('a goal_bridge_scheme, unit) outcome" where
  "recover_all now [] s = (s, Inr ())"
| "recover_all now (l # ls) s = and_then (recover_lease now l s) (\<lambda>_ s. recover_all now ls s)"

text \<open>
  A new process on a database: the fields as \<open>__init__\<close> sets them, then the recovery of
  \<open>start\<close>. The logs go on, and task numbers are never used twice.
\<close>

definition fresh_bridge ::
  "bridge_db \<Rightarrow> nat \<Rightarrow> (string \<times> rpc) list \<Rightarrow> (nat \<times> json) list \<Rightarrow> goal_bridge" where
  "fresh_bridge d n hist out =
     \<lparr>store = d, thread_events = Map.empty, expected_goal_status = Map.empty,
      pause_notifications = Map.empty, goal_controls = Map.empty, delivery_tasks = Map.empty,
      deadline_tasks = Map.empty, tasks = Map.empty, next_task = n, sent = hist, responses = out\<rparr>"

definition start_bridge ::
  "clock \<Rightarrow> bridge_db \<Rightarrow> nat \<Rightarrow> (string \<times> rpc) list \<Rightarrow> (nat \<times> json) list \<Rightarrow> (goal_bridge, unit) outcome" where
  "start_bridge now d n hist out = recover_all now (db_pending d) (fresh_bridge d n hist out)"

section \<open>Requests\<close>

definition dispatch ::
  "clock \<Rightarrow> json \<Rightarrow> goal_bridge \<Rightarrow> (goal_bridge, coro) outcome" where
  "dispatch now req s =
     (if \<not> py_eq (jget ''version'' req) (JInt 1)
      then (s, Inl (ValueError ''unsupported bridge protocol version''))
      else
        let action = jget ''action'' req in
        if py_eq action (JStr ''health'')
        then (s, Inr (Done (JObj [(''ok'', JBool True), (''version'', JInt 1)])))
        else
          (case check_job_id (jget ''job_id'' req) of
             Inl e \<Rightarrow> (s, Inl e)
           | Inr job \<Rightarrow>
               if py_eq action (JStr ''prepare'') then prepare_start job req s
               else if py_eq action (JStr ''terminal'') then terminal_request now job req s
               else if py_eq action (JStr ''abort'')
               then abort_request abandon_for_manual_change now job req s
               else (s, Inl (ValueError (''unsupported bridge action: '' @ json_repr action)))))"

text \<open>
  What a connection brings: a peer of another user, a line that is empty, too long or not
  ended, a line the decoder refuses with some exception, or a JSON value. An object goes to
  \<open>_dispatch\<close>.
\<close>

datatype conn_input = Other_user | Bad_framing | Undecodable pyexc | Decoded json

definition handle_request ::
  "clock \<Rightarrow> conn_input \<Rightarrow> goal_bridge \<Rightarrow> (goal_bridge, coro) outcome" where
  "handle_request now inp s =
     (case inp of
        Other_user \<Rightarrow> (s, Inl (PermissionError ''bridge accepts only same-user Unix peers''))
      | Bad_framing \<Rightarrow> (s, Inl (ValueError ''invalid bridge request framing''))
      | Undecodable e \<Rightarrow> (s, Inl e)
      | Decoded v \<Rightarrow> if is_dict v then dispatch now v s
                    else (s, Inl (ValueError ''bridge request must be an object'')))"

section \<open>The event loop\<close>

text \<open>Tasks of a client connection: their result is written back as a response.\<close>

fun answers_client :: "goal_pc \<Rightarrow> bool" where
  "answers_client (P_get _ _ _ _) = True"
| "answers_client (P_pause _ _ _ _) = True"
| "answers_client (P_confirm _ _ _ _ _) = True"
| "answers_client _ = False"

definition error_response :: "pyexc \<Rightarrow> json" where
  "error_response e =
     JObj [(''ok'', JBool False), (''error'', JStr (exc_name e @ '': '' @ exc_str e))]"

text \<open>
  What the loop does with the end of a segment: a suspended coroutine stays a task, a
  finished one leaves, and a connection gets its reply.
\<close>

definition settle ::
  "nat \<Rightarrow> bool \<Rightarrow> ('a goal_bridge_scheme, coro) outcome \<Rightarrow> 'a goal_bridge_scheme" where
  "settle tid answer res =
     (case res of
        (s, Inr (Suspend pc)) \<Rightarrow>
          s\<lparr>tasks := (tasks s)(tid \<mapsto>
              \<lparr>task_pc = pc, cancelled = (case tasks s tid of None \<Rightarrow> False | Some t \<Rightarrow> cancelled t)\<rparr>)\<rparr>
      | (s, Inr (Done v)) \<Rightarrow>
          s\<lparr>tasks := (tasks s)(tid := None),
            responses := (if answer then responses s @ [(tid, v)] else responses s)\<rparr>
      | (s, Inl e) \<Rightarrow>
          s\<lparr>tasks := (tasks s)(tid := None),
            responses := (if answer \<and> e \<noteq> CancelledError then responses s @ [(tid, error_response e)]
                          else responses s)\<rparr>)"

text \<open>The reply to an RPC resumes the coroutine that awaits it.\<close>

fun resume_reply ::
  "clock \<Rightarrow> goal_pc \<Rightarrow> pyexc + json \<Rightarrow> 'a goal_bridge_scheme \<Rightarrow> ('a goal_bridge_scheme, coro) outcome option" where
  "resume_reply now (P_get job thr timeout grace) r s = Some (prepare_got now job thr timeout grace r s)"
| "resume_reply now (P_pause job thr u lease) r s = Some (prepare_paused now job thr u lease r s)"
| "resume_reply now (P_confirm job thr u p lease) r s = Some (prepare_confirmed now job thr u p lease r s)"
| "resume_reply now (W_idle1 lease) r s = Some (idle_first now lease r s)"
| "resume_reply now (W_idle2 lease) r s = Some (idle_second now lease r s)"
| "resume_reply now (A_read lease) r s = Some (deliver_loop now lease (activate_read lease r s))"
| "resume_reply now (A_get lease) r s = Some (deliver_loop now lease (activate_get now lease r s))"
| "resume_reply now (A_set lease) r s = Some (deliver_loop now lease (activate_set now lease r s))"
| "resume_reply now (U_op thr) r s =
     Some (release thr s, case r of Inl e \<Rightarrow> Inl e | Inr v \<Rightarrow> Inr (Done v))"
| "resume_reply now _ r s = None"

text \<open>
  A task that waits for no RPC runs when the loop starts it, its event is set, its lock is
  free, or its sleep is over.
\<close>

fun resume_run ::
  "clock \<Rightarrow> nat \<Rightarrow> goal_pc \<Rightarrow> 'a goal_bridge_scheme \<Rightarrow> ('a goal_bridge_scheme, coro) outcome option" where
  "resume_run now tid (W_start lease) s = Some (deliver_start lease s)"
| "resume_run now tid (W_event lease) s =
     (if thread_events s (thread_id lease) = Some True then Some (wait_idle lease s) else None)"
| "resume_run now tid (W_lock lease) s =
     (if lock_free (thread_id lease) s then Some (activate_start tid lease s) else None)"
| "resume_run now tid (X_start lease) s = Some (s, Inr (Suspend (X_sleep lease)))"
| "resume_run now tid (X_sleep lease) s =
     (if deadline_at lease \<le> now then Some (expire_at_deadline now lease s) else None)"
| "resume_run now tid (U_lock thr) s =
     (if lock_free thr s then Some (user_control_locked abandon_for_manual_change now tid thr s) else None)"
| "resume_run now tid _ s = None"

text \<open>
  A \<open>CancelledError\<close> raised at the await: a task that never ran has entered no
  \<open>try\<close> block.
\<close>

fun resume_cancel ::
  "clock \<Rightarrow> goal_pc \<Rightarrow> 'a goal_bridge_scheme \<Rightarrow> ('a goal_bridge_scheme, coro) outcome" where
  "resume_cancel now (P_pause job thr u lease) s = prepare_failed now job thr CancelledError s"
| "resume_cancel now (P_confirm job thr u p lease) s = prepare_failed now job thr CancelledError s"
| "resume_cancel now (W_idle1 lease) s = deliver_raise now lease CancelledError s"
| "resume_cancel now (W_idle2 lease) s = deliver_raise now lease CancelledError s"
| "resume_cancel now (W_event lease) s = deliver_raise now lease CancelledError s"
| "resume_cancel now (W_lock lease) s = deliver_raise now lease CancelledError s"
| "resume_cancel now (A_read lease) s = deliver_loop now lease (s, Inl CancelledError)"
| "resume_cancel now (A_get lease) s = deliver_loop now lease (s, Inl CancelledError)"
| "resume_cancel now (A_set lease) s = deliver_loop now lease (s, Inl CancelledError)"
| "resume_cancel now (X_sleep lease) s = (pop_deadline lease s, Inl CancelledError)"
| "resume_cancel now (U_op thr) s = (release thr s, Inl CancelledError)"
| "resume_cancel now _ s = (s, Inl CancelledError)"

text \<open>
  The events of the loop. An RPC reply is a result or the message of an
  \<open>AppServerError\<close>, the only exception \<open>AppServerClient.call\<close> raises on its own.
\<close>

datatype event =
    Ev_request clock conn_input
  | Ev_reply clock nat "string + json"
  | Ev_run clock nat
  | Ev_cancel clock nat
  | Ev_notify clock string json
  | Ev_user_control clock string
  | Ev_restart clock

fun rpc_result :: "string + json \<Rightarrow> pyexc + json" where
  "rpc_result (Inl m) = Inl (AppServerError m)"
| "rpc_result (Inr v) = Inr v"

text \<open>
  A cancelled task only ever resumes with the \<open>CancelledError\<close>. The bridge itself
  cancels delivery and deadline tasks; a client's or user's task may be cancelled from
  outside at any time.
\<close>

fun external_cancel :: "goal_pc \<Rightarrow> bool" where
  "external_cancel (U_lock _) = True"
| "external_cancel (U_op _) = True"
| "external_cancel pc = answers_client pc"

definition new_task :: "'a goal_bridge_scheme \<Rightarrow> 'a goal_bridge_scheme" where
  "new_task s = s\<lparr>next_task := Suc (next_task s)\<rparr>"

fun bstep :: "event \<Rightarrow> goal_bridge \<Rightarrow> goal_bridge option" where
  "bstep (Ev_request now req) s =
     Some (settle (next_task s) True (handle_request now req (new_task s)))"
| "bstep (Ev_reply now tid r) s =
     (case tasks s tid of
        None \<Rightarrow> None
      | Some t \<Rightarrow>
          if cancelled t then None
          else map_option (settle tid (answers_client (task_pc t)))
                 (resume_reply now (task_pc t) (rpc_result r) s))"
| "bstep (Ev_run now tid) s =
     (case tasks s tid of
        None \<Rightarrow> None
      | Some t \<Rightarrow>
          if cancelled t then None
          else map_option (settle tid (answers_client (task_pc t))) (resume_run now tid (task_pc t) s))"
| "bstep (Ev_cancel now tid) s =
     (case tasks s tid of
        None \<Rightarrow> None
      | Some t \<Rightarrow>
          if cancelled t \<or> external_cancel (task_pc t)
          then Some (settle tid (answers_client (task_pc t)) (resume_cancel now (task_pc t) s))
          else None)"
| "bstep (Ev_notify now meth params) s =
     Some (fst (on_notification abandon_for_manual_change now meth params s))"
| "bstep (Ev_user_control now thr) s =
     Some (settle (next_task s) False
             (user_goal_control abandon_for_manual_change now thr (new_task s)))"
| "bstep (Ev_restart now) s =
     (case start_bridge now (store s) (next_task s) (sent s) (responses s) of
        (s', Inr _) \<Rightarrow> Some s'
      | (_, Inl _) \<Rightarrow> None)"

text \<open>
  The reachable bridges: started on a fresh database, then any events in any order,
  restarts on the database left behind among them.
\<close>

inductive bridge_reach :: "goal_bridge \<Rightarrow> bool" where
  boot: "start_bridge now empty_db 0 [] [] = (s, Inr ()) \<Longrightarrow> bridge_reach s"
| step: "bridge_reach s \<Longrightarrow> bstep ev s = Some s' \<Longrightarrow> bridge_reach s'"

end
