(* ===== verification/Goal_Bridge_Inv.thy ===== *)
theory Goal_Bridge_Inv
  imports Goal_Bridge
begin

text \<open>
  The invariant of the Goal bridge and its preservation. A running segment is one task
  taken out of the table: \<open>core x E L s\<close> is the invariant with the task \<open>x\<close> ignored,
  the jobs \<open>E\<close> it answers for exempt, and the locks \<open>L\<close> it holds exempt. Each basic
  operation keeps \<open>core\<close>, and \<open>settle\<close> turns it back into the invariant.
\<close>

section \<open>What a task is responsible for\<close>

fun delivery_lease :: "goal_pc \<Rightarrow> wake_lease option" where
  "delivery_lease (W_start l) = Some l"
| "delivery_lease (W_idle1 l) = Some l"
| "delivery_lease (W_idle2 l) = Some l"
| "delivery_lease (W_event l) = Some l"
| "delivery_lease (W_lock l) = Some l"
| "delivery_lease (A_read l) = Some l"
| "delivery_lease (A_get l) = Some l"
| "delivery_lease (A_set l) = Some l"
| "delivery_lease _ = None"

fun deadline_lease :: "goal_pc \<Rightarrow> wake_lease option" where
  "deadline_lease (X_start l) = Some l"
| "deadline_lease (X_sleep l) = Some l"
| "deadline_lease _ = None"

fun prepare_job :: "goal_pc \<Rightarrow> string option" where
  "prepare_job (P_pause j _ _ _) = Some j"
| "prepare_job (P_confirm j _ _ _ _) = Some j"
| "prepare_job _ = None"

fun holds_lock :: "goal_pc \<Rightarrow> string option" where
  "holds_lock (A_read l) = Some (thread_id l)"
| "holds_lock (A_get l) = Some (thread_id l)"
| "holds_lock (A_set l) = Some (thread_id l)"
| "holds_lock (U_op thr) = Some thr"
| "holds_lock _ = None"

fun is_A_set :: "goal_pc \<Rightarrow> bool" where
  "is_A_set (A_set _) = True"
| "is_A_set _ = False"

abbreviation lease_at :: "'a goal_bridge_scheme \<Rightarrow> string \<Rightarrow> wake_lease option" where
  "lease_at s \<equiv> db_get (store s)"

text \<open>The identity of the Goal a lease is for: no update of the lease changes it.\<close>

abbreviation goal_key :: "wake_lease \<Rightarrow> string \<times> string \<times> int" where
  "goal_key l \<equiv> (thread_id l, objective l, goal_created_at l)"

text \<open>A task of the table other than the running one.\<close>

definition tk :: "nat option \<Rightarrow> 'a goal_bridge_scheme \<Rightarrow> nat \<Rightarrow> goal_task \<Rightarrow> bool" where
  "tk x s tid t \<longleftrightarrow> tasks s tid = Some t \<and> x \<noteq> Some tid"

section \<open>The invariant\<close>

definition ids_ok :: "'a goal_bridge_scheme \<Rightarrow> bool" where
  "ids_ok s \<longleftrightarrow> (\<forall>tid. tid \<ge> next_task s \<longrightarrow> tasks s tid = None)
     \<and> (\<forall>j tid. delivery_tasks s j = Some tid \<longrightarrow> tid < next_task s)
     \<and> (\<forall>j tid. deadline_tasks s j = Some tid \<longrightarrow> tid < next_task s)"

text \<open>A delivery task works on a lease that has left registration; the activation RPC is
  only in flight for a lease recorded as activating, and is never cancelled.\<close>

definition deliv_fact :: "'a goal_bridge_scheme \<Rightarrow> goal_task \<Rightarrow> wake_lease \<Rightarrow> bool" where
  "deliv_fact s t l \<longleftrightarrow>
     (\<exists>cur. lease_at s (job_id l) = Some cur \<and> goal_key cur = goal_key l
       \<and> lease_state cur \<notin> {L_preparing, L_armed}
       \<and> (is_A_set (task_pc t) \<longrightarrow>
            \<not> cancelled t \<and> lease_state cur = L_terminal \<and> delivery_state cur = D_activating))"

definition deliv_ok :: "nat option \<Rightarrow> 'a goal_bridge_scheme \<Rightarrow> bool" where
  "deliv_ok x s \<longleftrightarrow> (\<forall>tid t l. tk x s tid t \<longrightarrow> delivery_lease (task_pc t) = Some l \<longrightarrow> deliv_fact s t l)"

definition deliv_uniq :: "nat option \<Rightarrow> 'a goal_bridge_scheme \<Rightarrow> bool" where
  "deliv_uniq x s \<longleftrightarrow>
     (\<forall>a t l b u m. tk x s a t \<longrightarrow> tk x s b u \<longrightarrow> delivery_lease (task_pc t) = Some l \<longrightarrow>
        delivery_lease (task_pc u) = Some m \<longrightarrow> job_id l = job_id m \<longrightarrow> a = b)"

definition maps_ok :: "nat option \<Rightarrow> 'a goal_bridge_scheme \<Rightarrow> bool" where
  "maps_ok x s \<longleftrightarrow>
     (\<forall>j tid t. delivery_tasks s j = Some tid \<longrightarrow> tk x s tid t \<longrightarrow>
        (\<exists>l. delivery_lease (task_pc t) = Some l \<and> job_id l = j))
   \<and> (\<forall>j tid t. deadline_tasks s j = Some tid \<longrightarrow> tk x s tid t \<longrightarrow>
        (\<exists>l. deadline_lease (task_pc t) = Some l \<and> job_id l = j))"

definition dl_ok :: "nat option \<Rightarrow> 'a goal_bridge_scheme \<Rightarrow> bool" where
  "dl_ok x s \<longleftrightarrow> (\<forall>tid t l. tk x s tid t \<longrightarrow> deadline_lease (task_pc t) = Some l \<longrightarrow>
     (\<exists>cur. lease_at s (job_id l) = Some cur \<and> lease_state cur \<noteq> L_preparing))"

text \<open>The two state columns of a lease agree.\<close>

definition combo :: "wake_lease \<Rightarrow> bool" where
  "combo l \<longleftrightarrow>
     (lease_state l \<in> {L_preparing, L_armed} \<longrightarrow> delivery_state l = D_pending) \<and>
     (lease_state l = L_terminal \<longrightarrow> delivery_state l \<in> {D_waiting_for_idle, D_activating}) \<and>
     (lease_state l = L_delivered \<longrightarrow> delivery_state l = D_resumed) \<and>
     (lease_state l = L_abandoned \<longrightarrow> delivery_state l = D_abandoned) \<and>
     (lease_state l = L_failed \<longrightarrow> delivery_state l = D_needs_manual_recovery)"

definition combos :: "'a goal_bridge_scheme \<Rightarrow> bool" where
  "combos s \<longleftrightarrow> (\<forall>j l. lease_at s j = Some l \<longrightarrow> combo l)"

text \<open>Every live lease has a task that will move it on.\<close>

definition serves :: "goal_task \<Rightarrow> string \<Rightarrow> wake_lease \<Rightarrow> bool" where
  "serves t j cur \<longleftrightarrow>
     (lease_state cur = L_preparing \<longrightarrow> prepare_job (task_pc t) = Some j)
   \<and> (lease_state cur = L_armed \<longrightarrow>
        \<not> cancelled t \<and> (\<exists>l. deadline_lease (task_pc t) = Some l \<and> job_id l = j))
   \<and> (lease_state cur = L_terminal \<longrightarrow>
        \<not> cancelled t \<and> (\<exists>l. delivery_lease (task_pc t) = Some l \<and> job_id l = j)
        \<and> (delivery_state cur = D_activating \<longrightarrow> is_A_set (task_pc t)))"

definition served :: "nat option \<Rightarrow> string set \<Rightarrow> 'a goal_bridge_scheme \<Rightarrow> bool" where
  "served x E s \<longleftrightarrow> (\<forall>j l. lease_at s j = Some l \<longrightarrow> j \<notin> E \<longrightarrow> is_live l \<longrightarrow>
     (\<exists>tid t. tk x s tid t \<and> serves t j l))"

text \<open>The lock of a thread is held by exactly the task that is inside its block.\<close>

definition locks_ok :: "nat option \<Rightarrow> string set \<Rightarrow> 'a goal_bridge_scheme \<Rightarrow> bool" where
  "locks_ok x L s \<longleftrightarrow>
     (\<forall>tid t thr. tk x s tid t \<longrightarrow> holds_lock (task_pc t) = Some thr \<longrightarrow>
        goal_controls s thr = Some (Some tid))
   \<and> (\<forall>thr tid. goal_controls s thr = Some (Some tid) \<longrightarrow> thr \<notin> L \<longrightarrow>
        (\<exists>t. tk x s tid t \<and> holds_lock (task_pc t) = Some thr))"

fun is_activation :: "rpc \<Rightarrow> bool" where
  "is_activation (Goal_set _ status) = (status = ''active'')"
| "is_activation _ = False"

definition activations :: "'a goal_bridge_scheme \<Rightarrow> string \<Rightarrow> nat" where
  "activations s j = length (filter (\<lambda>(k, r). k = j \<and> is_activation r) (sent s))"

definition acts_ok :: "'a goal_bridge_scheme \<Rightarrow> bool" where
  "acts_ok s \<longleftrightarrow> (\<forall>j. activations s j = 0 \<or> activations s j = 1 \<and>
     (\<exists>l. lease_at s j = Some l
        \<and> delivery_state l \<in> {D_activating, D_resumed, D_needs_manual_recovery}
        \<and> lease_state l \<in> {L_terminal, L_delivered, L_failed}))"

definition core :: "nat option \<Rightarrow> string set \<Rightarrow> string set \<Rightarrow> 'a goal_bridge_scheme \<Rightarrow> bool" where
  "core x E L s \<longleftrightarrow> store_ok (store s) \<and> ids_ok s \<and> deliv_ok x s \<and> deliv_uniq x s \<and> maps_ok x s
     \<and> dl_ok x s \<and> combos s \<and> served x E s \<and> locks_ok x L s \<and> acts_ok s"

definition bridge_inv :: "'a goal_bridge_scheme \<Rightarrow> bool" where
  "bridge_inv s \<longleftrightarrow> core None {} {} s"

lemmas core_defs = core_def ids_ok_def deliv_ok_def deliv_fact_def deliv_uniq_def maps_ok_def dl_ok_def
  combos_def served_def locks_ok_def acts_ok_def activations_def

section \<open>Operations that only touch what the invariant does not read\<close>

lemma core_frame [simp]:
  "core x E L (s\<lparr>pause_notifications := p\<rparr>) = core x E L s"
  "core x E L (s\<lparr>expected_goal_status := q\<rparr>) = core x E L s"
  "core x E L (s\<lparr>thread_events := e\<rparr>) = core x E L s"
  "core x E L (s\<lparr>responses := r\<rparr>) = core x E L s"
  by (simp_all add: core_defs tk_def)

lemma core_send [simp]: "\<not> is_activation r \<Longrightarrow> core x E L (send j r s) = core x E L s"
  by (simp add: core_defs tk_def send_def)

lemma core_pop_expected [simp]: "core x E L (pop_expected thr s) = core x E L s"
  by (simp add: pop_expected_def)

lemma core_set_event [simp]: "core x E L (set_event thr s) = core x E L s"
  by (simp add: set_event_def)

lemma core_pop_delivery: "core x E L s \<Longrightarrow> core x E L (pop_delivery l s)"
  by (simp add: core_defs tk_def pop_delivery_def)

lemma core_pop_deadline: "core x E L s \<Longrightarrow> core x E L (pop_deadline l s)"
  by (simp add: core_defs tk_def pop_deadline_def)

lemma core_served:
  "core x E L s \<Longrightarrow> lease_at s j = Some l \<Longrightarrow> j \<notin> E \<Longrightarrow> is_live l \<Longrightarrow> \<exists>tid t. tk x s tid t \<and> serves t j l"
  unfolding core_def served_def by metis

lemma core_holds:
  "core x E L s \<Longrightarrow> tk x s tid t \<Longrightarrow> holds_lock (task_pc t) = Some thr \<Longrightarrow> goal_controls s thr = Some (Some tid)"
  unfolding core_def locks_ok_def by metis

lemma core_lock_owner:
  "core x E L s \<Longrightarrow> goal_controls s thr = Some (Some tid) \<Longrightarrow> thr \<notin> L \<Longrightarrow>
     \<exists>t. tk x s tid t \<and> holds_lock (task_pc t) = Some thr"
  unfolding core_def locks_ok_def by metis

lemma served_mono: "served x E s \<Longrightarrow> E \<subseteq> E' \<Longrightarrow> served x E' s"
  unfolding served_def by blast

lemma core_mono: "core x E L s \<Longrightarrow> E \<subseteq> E' \<Longrightarrow> core x E' L s"
  unfolding core_def using served_mono by blast

lemma core_store_ok: "core x E L s \<Longrightarrow> store_ok (store s)"
  by (simp add: core_def)

lemma core_fresh_task: "core None E L s \<Longrightarrow> core (Some (next_task s)) E L s"
proof -
  assume c: "core None E L s"
  then have "tasks s (next_task s) = None" by (simp add: core_def ids_ok_def)
  then have "tk (Some (next_task s)) s = tk None s" by (auto simp: tk_def fun_eq_iff)
  with c show ?thesis
    by (simp add: core_def deliv_ok_def deliv_uniq_def maps_ok_def dl_ok_def served_def 
          locks_ok_def)
qed

lemma tk_next_task [simp]: "tk x (s\<lparr>next_task := n\<rparr>) = tk x s"
  by (simp add: tk_def fun_eq_iff)

lemma core_next_task: "core x E L s \<Longrightarrow> core x E L (s\<lparr>next_task := Suc (next_task s)\<rparr>)"
  by (simp add: core_defs) (meson Suc_leD less_SucI)

section \<open>Store updates\<close>

text \<open>No other task delivers the job, or watches its deadline.\<close>

definition undelivered :: "nat option \<Rightarrow> 'a goal_bridge_scheme \<Rightarrow> string \<Rightarrow> bool" where
  "undelivered x s j \<longleftrightarrow>
     (\<forall>tid t l. tk x s tid t \<longrightarrow> delivery_lease (task_pc t) = Some l \<longrightarrow> job_id l \<noteq> j)"

definition unwatched :: "nat option \<Rightarrow> 'a goal_bridge_scheme \<Rightarrow> string \<Rightarrow> bool" where
  "unwatched x s j \<longleftrightarrow>
     (\<forall>tid t l. tk x s tid t \<longrightarrow> deadline_lease (task_pc t) = Some l \<longrightarrow> job_id l \<noteq> j)"

lemma tk_store [simp]: "tk x (s\<lparr>store := d\<rparr>) = tk x s"
  by (simp add: tk_def fun_eq_iff)

lemma undelivered_early:
  assumes "core x E L s" "lease_at s j = Some l" "lease_state l \<in> {L_preparing, L_armed}"
  shows "undelivered x s j"
  using assms by (fastforce simp: undelivered_def core_def deliv_ok_def deliv_fact_def)

lemma unwatched_preparing:
  assumes "core x E L s" "lease_at s j = Some l" "lease_state l = L_preparing"
  shows "unwatched x s j"
  using assms by (fastforce simp: unwatched_def core_def dl_ok_def)

lemma core_put:
  assumes c: "core x E L s" and l: "lease_at s j = Some l" and l': "l' = set_fields fs l"
    and live: "is_live l' \<Longrightarrow> is_live l" and combo: "combo l'"
    and other: "undelivered x s j \<or> lease_state l' \<notin> {L_preparing, L_armed} \<and> delivery_state l \<noteq> D_activating"
    and prep: "lease_state l' = L_preparing \<Longrightarrow> lease_state l = L_preparing"
    and acts: "activations s j = 0 \<or> delivery_state l' \<in> {D_activating, D_resumed, D_needs_manual_recovery}
        \<and> lease_state l' \<in> {L_terminal, L_delivered, L_failed}"
    and E: "E \<subseteq> insert j E'" "j \<notin> E' \<Longrightarrow> \<not> is_live l'"
  shows "core x E' L (s\<lparr>store := db_put now j fs (store s)\<rparr>)"
proof -
  let ?s = "s\<lparr>store := db_put now j fs (store s)\<rparr>"
  have get: "db_get (db_put now j fs (store s)) k = (if k = j then Some l' else lease_at s k)" for k
    using l l' by (simp add: db_get_put)
  have key: "job_id l' = j" "goal_key l' = goal_key l" using l l' db_get_key by auto
  have "store_ok (store ?s)"
    using store_ok_put [OF core_store_ok [OF c], of j fs now] l l' live by simp
  moreover have "ids_ok ?s" "deliv_uniq x ?s" "maps_ok x ?s" "locks_ok x L ?s"
    using c by (auto simp: core_def ids_ok_def deliv_uniq_def maps_ok_def locks_ok_def)
  moreover have "deliv_ok x ?s"
    unfolding deliv_ok_def
  proof (intro allI impI)
    fix tid t m
    assume t: "tk x ?s tid t" "delivery_lease (task_pc t) = Some m"
    then have fact: "deliv_fact s t m" using c by (simp add: core_def deliv_ok_def)
    show "deliv_fact ?s t m"
    proof (cases "job_id m = j")
      case True
      then have "lease_state l' \<notin> {L_preparing, L_armed} \<and> delivery_state l \<noteq> D_activating"
        using other t by (auto simp: undelivered_def)
      moreover have "lease_at ?s (job_id m) = Some l'" "lease_at s (job_id m) = Some l"
        using True get l by simp_all
      ultimately show ?thesis using fact key by (auto simp: deliv_fact_def)
    qed (use fact in \<open>simp add: deliv_fact_def get\<close>)
  qed
  moreover have "dl_ok x ?s"
    using c l prep by (fastforce simp: core_def dl_ok_def get)
  moreover have "combos ?s" using c combo by (simp add: core_def combos_def get)
  moreover have "served x E' ?s"
    unfolding served_def
  proof (intro allI impI)
    fix k m
    assume k: "lease_at ?s k = Some m" "k \<notin> E'" "is_live m"
    then have "k \<noteq> j" using E(2) by (auto simp: get)
    then show "\<exists>tid t. tk x ?s tid t \<and> serves t k m"
      using core_served [OF c, of k m] k E(1) by (auto simp: get)
  qed
  moreover have "acts_ok ?s"
    using c acts by (auto simp: core_def acts_ok_def get activations_def)
  ultimately show ?thesis by (simp add: core_def)
qed

text \<open>A live lease that is not activating has sent no activation.\<close>

lemma no_activation:
  assumes "core x E L s" "lease_at s j = Some l" "is_live l" "delivery_state l \<noteq> D_activating"
  shows "activations s j = 0"
proof (rule ccontr)
  assume "activations s j \<noteq> 0"
  then obtain m where "lease_at s j = Some m" "lease_state m \<in> {L_terminal, L_delivered, L_failed}"
    "delivery_state m \<in> {D_activating, D_resumed, D_needs_manual_recovery}"
    using assms(1) unfolding core_def acts_ok_def by (metis (no_types))
  moreover have "combo l" using assms(1,2) by (simp add: core_def combos_def)
  ultimately show False
    using assms(2-4) by (auto simp: is_live_def live_state_def combo_def)
qed

text \<open>Updates through \<open>st_update\<close>: none of those below is refused.\<close>

lemma st_update_ok:
  assumes "core x E L s" "lease_at s j = Some l" "fs \<noteq> []" "list_all field_allowed fs"
    and "is_live (set_fields fs l) \<Longrightarrow> is_live l"
  shows "st_update now j fs s = (s\<lparr>store := db_put now j fs (store s)\<rparr>, Inr (set_fields fs l))"
  using db_update_ok [OF core_store_ok [OF assms(1)] assms(2-5), of now] by (simp add: st_update_def)

lemma core_abandon:
  assumes c: "core x E L s" and l: "lease_at s j = Some l" "is_live l" "delivery_state l \<noteq> D_activating"
    and E: "E \<subseteq> insert j E'"
  shows "core x E' L (s\<lparr>store := db_put now j (abandon_fields r) (store s)\<rparr>)"
  by (rule core_put [OF c l(1) refl])
    (use no_activation [OF c l] l(3) E in
      \<open>auto simp: abandon_fields_def combo_def is_live_def live_state_def\<close>)

lemma core_fail:
  assumes c: "core x E L s" and l: "lease_at s j = Some l"
    and u: "undelivered x s j \<or> delivery_state l \<noteq> D_activating" and E: "E \<subseteq> insert j E'"
  shows "core x E' L (s\<lparr>store := db_put now j (failed_fields r) (store s)\<rparr>)"
  by (rule core_put [OF c l refl])
    (use u E in \<open>auto simp: failed_fields_def combo_def is_live_def live_state_def\<close>)

section \<open>The task table\<close>

lemma goal_task_eq: "t\<lparr>cancelled := c\<rparr> = \<lparr>task_pc = task_pc t, cancelled = c\<rparr>"
  by (cases t) simp

text \<open>The obligations of a task, when it enters the table under the number \<open>tid\<close>.\<close>

definition task_fits :: "nat option \<Rightarrow> 'a goal_bridge_scheme \<Rightarrow> nat \<Rightarrow> goal_task \<Rightarrow> bool" where
  "task_fits x s tid t \<longleftrightarrow>
     (\<forall>l. delivery_lease (task_pc t) = Some l \<longrightarrow>
        deliv_fact s t l \<and> undelivered x s (job_id l))
   \<and> (\<forall>l. deadline_lease (task_pc t) = Some l \<longrightarrow>
        (\<exists>cur. lease_at s (job_id l) = Some cur \<and> lease_state cur \<noteq> L_preparing))
   \<and> (\<forall>j. delivery_tasks s j = Some tid \<longrightarrow> (\<exists>l. delivery_lease (task_pc t) = Some l \<and> job_id l = j))
   \<and> (\<forall>j. deadline_tasks s j = Some tid \<longrightarrow> (\<exists>l. deadline_lease (task_pc t) = Some l \<and> job_id l = j))
   \<and> (\<forall>thr. holds_lock (task_pc t) = Some thr \<longrightarrow> goal_controls s thr = Some (Some tid))"

lemma core_task_put:
  assumes c: "core x E L s" and x: "x = Some tid \<and> x' = None \<or> tasks s tid = None \<and> x' = x \<and> x \<noteq> Some tid"
    and fits: "task_fits x s tid t" and tid: "tid < next_task s"
    and E: "\<And>j cur. j \<in> E \<Longrightarrow> j \<notin> E' \<Longrightarrow> lease_at s j = Some cur \<Longrightarrow>
        is_live cur \<Longrightarrow> serves t j cur"
    and L: "\<And>thr y. thr \<in> L \<Longrightarrow> thr \<notin> L' \<Longrightarrow> goal_controls s thr = Some (Some y) \<Longrightarrow>
        y = tid \<and> holds_lock (task_pc t) = Some thr"
  shows "core x' E' L' (s\<lparr>tasks := (tasks s)(tid \<mapsto> t)\<rparr>)"
proof -
  let ?s = "s\<lparr>tasks := (tasks s)(tid \<mapsto> t)\<rparr>"
  have tk: "tk x' ?s a u \<longleftrightarrow> (if a = tid then u = t else tk x s a u)" for a u
    using x by (auto simp: tk_def)
  have not_tid: "\<not> tk x s tid u" for u using x by (auto simp: tk_def)
  have "store_ok (store ?s)" "combos ?s" "acts_ok ?s"
    using c by (simp_all add: core_def combos_def acts_ok_def activations_def)
  moreover have "ids_ok ?s" using c tid by (auto simp: core_def ids_ok_def)
  moreover have "deliv_ok x' ?s"
    using c fits by (auto simp: core_def deliv_ok_def task_fits_def deliv_fact_def tk)
  moreover have "deliv_uniq x' ?s"
  proof -
    have u: "deliv_uniq x s" using c by (simp add: core_def)
    have "job_id m \<noteq> job_id l"
      if "delivery_lease (task_pc t) = Some l" "tk x s b v" "delivery_lease (task_pc v) = Some m"
      for l b v m
      using that fits by (auto simp: task_fits_def undelivered_def)
    then show ?thesis using u unfolding deliv_uniq_def tk by (metis (full_types))
  qed
  moreover have "maps_ok x' ?s"
    using c fits by (auto simp: core_def maps_ok_def task_fits_def tk)
  moreover have "dl_ok x' ?s"
    using c fits by (auto simp: core_def dl_ok_def task_fits_def tk)
  moreover have "served x' E' ?s"
    unfolding served_def
  proof (intro allI impI)
    fix j cur
    assume j: "lease_at ?s j = Some cur" "j \<notin> E'" "is_live cur"
    show "\<exists>a u. tk x' ?s a u \<and> serves u j cur"
    proof (cases "j \<in> E")
      case True
      then have "serves t j cur" using E j by simp
      then show ?thesis using tk by metis
    next
      case False
      then obtain a u where "tk x s a u" "serves u j cur"
        using core_served [OF c _ False j(3)] j(1) by auto
      then show ?thesis using tk not_tid by metis
    qed
  qed
  moreover have "locks_ok x' L' ?s"
    unfolding locks_ok_def
  proof (intro conjI allI impI)
    fix a u thr
    assume "tk x' ?s a u" "holds_lock (task_pc u) = Some thr"
    then show "goal_controls ?s thr = Some (Some a)"
      using c fits by (auto simp: tk core_def locks_ok_def task_fits_def split: if_splits)
  next
    fix thr a
    assume g: "goal_controls ?s thr = Some (Some a)" "thr \<notin> L'"
    show "\<exists>u. tk x' ?s a u \<and> holds_lock (task_pc u) = Some thr"
    proof (cases "thr \<in> L")
      case True
      then have "a = tid \<and> holds_lock (task_pc t) = Some thr" using L g by simp
      then show ?thesis using tk by metis
    next
      case False
      then obtain u where "tk x s a u" "holds_lock (task_pc u) = Some thr"
        using core_lock_owner [OF c] g by auto
      then show ?thesis using tk not_tid by metis
    qed
  qed
  ultimately show ?thesis by (simp add: core_def)
qed

lemmas core_settle_put = core_task_put [where x' = None, OF _ disjI1, OF _ conjI, OF _ refl refl]

lemma core_task_drop:
  "core (Some tid) E L s \<Longrightarrow> core None E L (s\<lparr>tasks := (tasks s)(tid := None)\<rparr>)"
proof -
  assume c: "core (Some tid) E L s"
  have "tk None (s\<lparr>tasks := (tasks s)(tid := None)\<rparr>) = tk (Some tid) s"
    by (auto simp: tk_def fun_eq_iff)
  with c show ?thesis
    by (simp add: core_def deliv_ok_def deliv_fact_def deliv_uniq_def maps_ok_def dl_ok_def served_def
          locks_ok_def ids_ok_def combos_def acts_ok_def activations_def)
qed

text \<open>The jobs whose live lease a task is responsible for.\<close>

definition duty :: "'a goal_bridge_scheme \<Rightarrow> goal_task \<Rightarrow> string set" where
  "duty s t = {j. \<exists>cur. lease_at s j = Some cur \<and> is_live cur \<and> serves t j cur}"

text \<open>A task starts to run, and stops.\<close>

lemma core_begin:
  assumes inv: "bridge_inv s" and t: "tasks s tid = Some t"
  shows "core (Some tid) (duty s t) (set_option (holds_lock (task_pc t))) s"
    and "task_fits (Some tid) s tid t" and "tid < next_task s"
proof -
  have c: "core None {} {} s" using inv by (simp add: bridge_inv_def)
  have sub: "tk None s a u" if "tk (Some tid) s a u" for a u using that by (simp add: tk_def)
  have tt: "tk None s tid t" using t by (simp add: tk_def)
  have "served (Some tid) (duty s t) s"
    unfolding served_def
  proof (intro allI impI)
    fix j l
    assume j: "lease_at s j = Some l" "j \<notin> duty s t" "is_live l"
    then obtain a u where "tk None s a u" "serves u j l" using core_served [OF c j(1)] by auto
    moreover have "a \<noteq> tid"
      using calculation j t by (auto simp: tk_def duty_def)
    ultimately show "\<exists>a u. tk (Some tid) s a u \<and> serves u j l" by (auto simp: tk_def)
  qed
  moreover have "locks_ok (Some tid) (set_option (holds_lock (task_pc t))) s"
    unfolding locks_ok_def
  proof (intro conjI allI impI)
    fix a u thr
    assume "tk (Some tid) s a u" "holds_lock (task_pc u) = Some thr"
    then show "goal_controls s thr = Some (Some a)"
      using core_holds [OF c] sub by blast
  next
    fix thr a
    assume g: "goal_controls s thr = Some (Some a)" "thr \<notin> set_option (holds_lock (task_pc t))"
    then obtain u where "tk None s a u" "holds_lock (task_pc u) = Some thr"
      using core_lock_owner [OF c] by auto
    then show "\<exists>u. tk (Some tid) s a u \<and> holds_lock (task_pc u) = Some thr"
      using g(2) t by (auto simp: tk_def)
  qed
  ultimately show "core (Some tid) (duty s t) (set_option (holds_lock (task_pc t))) s"
    using c sub unfolding core_def deliv_ok_def deliv_uniq_def maps_ok_def dl_ok_def by meson
  show "tid < next_task s"
    using c t unfolding core_def ids_ok_def by (metis not_le option.distinct(1))
  have "undelivered (Some tid) s (job_id l)" if "delivery_lease (task_pc t) = Some l" for l
    using c that tt sub unfolding undelivered_def core_def deliv_uniq_def by (metis tk_def)
  then show "task_fits (Some tid) s tid t"
    using c tt unfolding task_fits_def core_def deliv_ok_def dl_ok_def maps_ok_def locks_ok_def by meson
qed

lemma settle_end:
  assumes "core (Some tid) {} {} s"
  shows "bridge_inv (settle tid a (s, Inl e))" "bridge_inv (settle tid a (s, Inr (Done v)))"
  using core_task_drop [OF assms] core_frame(4) by (auto simp: bridge_inv_def settle_def)

lemma settle_suspend:
  assumes c: "core (Some tid) E L s" and tid: "tid < next_task s"
    and t: "t = \<lparr>task_pc = pc, cancelled = (case tasks s tid of None \<Rightarrow> False | Some t \<Rightarrow> cancelled t)\<rparr>"
    and fits: "task_fits (Some tid) s tid t"
    and E: "\<And>j cur. j \<in> E \<Longrightarrow> lease_at s j = Some cur \<Longrightarrow> is_live cur \<Longrightarrow> serves t j cur"
    and L: "L \<subseteq> set_option (holds_lock pc)"
  shows "bridge_inv (settle tid a (s, Inr (Suspend pc)))"
proof -
  have "core None {} {} (s\<lparr>tasks := (tasks s)(tid \<mapsto> t)\<rparr>)"
  proof (rule core_settle_put [OF c fits tid E])
    fix thr y
    assume "thr \<in> L" "goal_controls s thr = Some (Some y)"
    moreover then have "holds_lock (task_pc t) = Some thr" using L t by auto
    ultimately show "y = tid \<and> holds_lock (task_pc t) = Some thr"
      using fits by (auto simp: task_fits_def)
  qed
  then show ?thesis by (simp add: bridge_inv_def settle_def t)
qed

section \<open>Scheduling and dropping tasks\<close>

lemma tk_maps [simp]:
  "tk x (s\<lparr>delivery_tasks := m\<rparr>) = tk x s" "tk x (s\<lparr>deadline_tasks := m\<rparr>) = tk x s"
  "tk x (s\<lparr>goal_controls := g\<rparr>) = tk x s" "tk x (s\<lparr>sent := h\<rparr>) = tk x s"
  by (simp_all add: tk_def fun_eq_iff)

lemma core_spawn:
  assumes c: "core x E L s" and x: "x \<noteq> Some (next_task s)"
    and fits: "task_fits x s (next_task s) \<lparr>task_pc = pc, cancelled = False\<rparr>"
    and E: "\<And>j cur. j \<in> E \<Longrightarrow> j \<notin> E' \<Longrightarrow> lease_at s j = Some cur \<Longrightarrow> is_live cur \<Longrightarrow>
        serves \<lparr>task_pc = pc, cancelled = False\<rparr> j cur"
  shows "core x E' L (spawn pc s)"
proof -
  let ?s = "s\<lparr>next_task := Suc (next_task s)\<rparr>"
  have "core x E' L (?s\<lparr>tasks := (tasks ?s)(next_task s \<mapsto> \<lparr>task_pc = pc, cancelled = False\<rparr>)\<rparr>)"
  proof (rule core_task_put [OF core_next_task [OF c]])
    have "tasks s (next_task s) = None" using c by (simp add: core_def ids_ok_def)
    with x show "x = Some (next_task s) \<and> x = None \<or>
        tasks ?s (next_task s) = None \<and> x = x \<and> x \<noteq> Some (next_task s)" by simp
    show "task_fits x ?s (next_task s) \<lparr>task_pc = pc, cancelled = False\<rparr>"
      using fits by (simp add: task_fits_def deliv_fact_def undelivered_def)
  qed (use E in auto)
  moreover have "spawn pc s = ?s\<lparr>tasks := (tasks ?s)(next_task s \<mapsto> \<lparr>task_pc = pc, cancelled = False\<rparr>)\<rparr>"
    by (simp add: spawn_def)
  ultimately show ?thesis by simp
qed

text \<open>Pointing a map entry at a task that matches it.\<close>

lemma core_delivery_entry:
  assumes "core x E L s" "tid < next_task s"
    and "\<And>t. tk x s tid t \<Longrightarrow> \<exists>l. delivery_lease (task_pc t) = Some l \<and> job_id l = j"
  shows "core x E L (s\<lparr>delivery_tasks := (delivery_tasks s)(j \<mapsto> tid)\<rparr>)"
  using assms
  by (simp add: core_def ids_ok_def deliv_ok_def deliv_fact_def deliv_uniq_def maps_ok_def dl_ok_def
        served_def locks_ok_def combos_def acts_ok_def activations_def)

lemma core_deadline_entry:
  assumes "core x E L s" "tid < next_task s"
    and "\<And>t. tk x s tid t \<Longrightarrow> \<exists>l. deadline_lease (task_pc t) = Some l \<and> job_id l = j"
  shows "core x E L (s\<lparr>deadline_tasks := (deadline_tasks s)(j \<mapsto> tid)\<rparr>)"
  using assms
  by (simp add: core_def ids_ok_def deliv_ok_def deliv_fact_def deliv_uniq_def maps_ok_def dl_ok_def
        served_def locks_ok_def combos_def acts_ok_def activations_def)

lemma schedule_delivery_spawns:
  assumes c: "core x E L s" and j: "job_id l = j" and u: "undelivered x s j"
    and x: "\<And>tid. x = Some tid \<Longrightarrow> delivery_tasks s j \<noteq> Some tid"
  shows "schedule_delivery l s =
     (spawn (W_start l) s)\<lparr>delivery_tasks := (delivery_tasks s)(j \<mapsto> next_task s)\<rparr>"
proof -
  have maps: "maps_ok x s" using c by (simp add: core_def)
  have "task_done tid s" if "delivery_tasks s j = Some tid" for tid
  proof (rule ccontr)
    assume "\<not> task_done tid s"
    then obtain t where t: "tasks s tid = Some t" by (auto simp: task_done_def)
    then have "tk x s tid t" using x that by (auto simp: tk_def)
    then show False using maps u that unfolding maps_ok_def undelivered_def by blast
  qed
  then show ?thesis using j by (auto simp: schedule_delivery_def spawn_def split: option.splits)
qed

lemma core_schedule_delivery:
  assumes c: "core x (insert j E) L s" and j: "job_id l = j" and cur: "lease_at s j = Some cur"
    and "lease_state cur = L_terminal" "delivery_state cur = D_waiting_for_idle"
    and "goal_key l = goal_key cur" and u: "undelivered x s j"
    and x: "\<And>tid. x = Some tid \<Longrightarrow> tid < next_task s \<and> delivery_tasks s j \<noteq> Some tid"
  shows "core x E L (schedule_delivery l s)"
proof -
  let ?t = "\<lparr>task_pc = W_start l, cancelled = False\<rparr>"
  have ids: "ids_ok s" using c by (simp add: core_def)
  have new: "delivery_tasks s k \<noteq> Some (next_task s)" "deadline_tasks s k \<noteq> Some (next_task s)" for k
    using ids unfolding ids_ok_def by blast+
  have "core x E L (spawn (W_start l) s)"
  proof (rule core_spawn [OF c])
    show "task_fits x s (next_task s) ?t"
      using assms new by (auto simp: task_fits_def deliv_fact_def)
    show "serves ?t k m" if "k \<in> insert j E" "k \<notin> E" "lease_at s k = Some m" for k m
      using that cur assms(4,5) j by (auto simp: serves_def)
  qed (use x in auto)
  then have "core x E L ((spawn (W_start l) s)\<lparr>delivery_tasks :=
      (delivery_tasks (spawn (W_start l) s))(j \<mapsto> next_task s)\<rparr>)"
    by (rule core_delivery_entry) (auto simp: spawn_def tk_def j)
  then show ?thesis
    using schedule_delivery_spawns [OF c j u] x by (simp add: spawn_def)
qed

lemma schedule_deadline_spawns:
  assumes c: "core x E L s" and j: "job_id l = j" and u: "unwatched x s j"
    and x: "\<And>tid. x = Some tid \<Longrightarrow> deadline_tasks s j \<noteq> Some tid"
  shows "schedule_deadline l s =
     (spawn (X_start l) s)\<lparr>deadline_tasks := (deadline_tasks s)(j \<mapsto> next_task s)\<rparr>"
proof -
  have maps: "maps_ok x s" using c by (simp add: core_def)
  have "task_done tid s" if "deadline_tasks s j = Some tid" for tid
  proof (rule ccontr)
    assume "\<not> task_done tid s"
    then obtain t where t: "tasks s tid = Some t" by (auto simp: task_done_def)
    then have "tk x s tid t" using x that by (auto simp: tk_def)
    then show False using maps u that unfolding maps_ok_def unwatched_def by blast
  qed
  then show ?thesis using j by (auto simp: schedule_deadline_def spawn_def split: option.splits)
qed

lemma core_schedule_deadline:
  assumes c: "core x (insert j E) L s" and j: "job_id l = j" and cur: "lease_at s j = Some cur"
    and "lease_state cur = L_armed" and u: "unwatched x s j"
    and x: "\<And>tid. x = Some tid \<Longrightarrow> tid < next_task s \<and> deadline_tasks s j \<noteq> Some tid"
  shows "core x E L (schedule_deadline l s)"
proof -
  let ?t = "\<lparr>task_pc = X_start l, cancelled = False\<rparr>"
  have ids: "ids_ok s" using c by (simp add: core_def)
  have new: "delivery_tasks s k \<noteq> Some (next_task s)" "deadline_tasks s k \<noteq> Some (next_task s)" for k
    using ids unfolding ids_ok_def by blast+
  have "core x E L (spawn (X_start l) s)"
  proof (rule core_spawn [OF c])
    show "task_fits x s (next_task s) ?t"
      using assms new by (auto simp: task_fits_def)
    show "serves ?t k m" if "k \<in> insert j E" "k \<notin> E" "lease_at s k = Some m" for k m
      using that cur assms(4) j by (auto simp: serves_def)
  qed (use x in auto)
  then have "core x E L ((spawn (X_start l) s)\<lparr>deadline_tasks :=
      (deadline_tasks (spawn (X_start l) s))(j \<mapsto> next_task s)\<rparr>)"
    by (rule core_deadline_entry) (auto simp: spawn_def tk_def j)
  then show ?thesis
    using schedule_deadline_spawns [OF c j u] x by (simp add: spawn_def)
qed

lemma core_cancel:
  assumes c: "core x E L s" and a: "\<And>t. tk x s tid t \<Longrightarrow> \<not> is_A_set (task_pc t)"
    and serves: "\<And>t j cur. tk x s tid t \<Longrightarrow> lease_at s j = Some cur \<Longrightarrow> serves t j cur \<Longrightarrow>
        is_live cur \<Longrightarrow> j \<in> E \<or> lease_state cur = L_preparing"
  shows "core x E L (cancel_task tid s)"
proof (cases "tasks s tid")
  case None
  then show ?thesis using c by (simp add: cancel_task_def)
next
  case (Some t)
  let ?t = "t\<lparr>cancelled := True\<rparr>"
  let ?s = "s\<lparr>tasks := (tasks s)(tid \<mapsto> ?t)\<rparr>"
  have tk: "tk x ?s b u \<longleftrightarrow> (if b = tid then x \<noteq> Some tid \<and> u = ?t else tk x s b u)" for b u
    by (auto simp: tk_def)
  have old: "\<exists>v. tk x s b v \<and> task_pc v = task_pc u \<and> (b \<noteq> tid \<longrightarrow> v = u)" if "tk x ?s b u" for b u
    using that Some by (auto simp: tk split: if_splits) (auto simp: tk_def)
  have new: "\<exists>v. tk x ?s b v \<and> task_pc v = task_pc u \<and> (b \<noteq> tid \<longrightarrow> v = u)" if "tk x s b u" for b u
    using that Some unfolding tk by (cases "b = tid") (auto simp: tk_def)
  have "store_ok (store ?s)" "combos ?s" "acts_ok ?s"
    using c by (simp_all add: core_def combos_def acts_ok_def activations_def)
  moreover have "ids_ok ?s" using c Some unfolding core_def ids_ok_def by auto
  moreover have "deliv_uniq x ?s" using c old unfolding core_def deliv_uniq_def by metis
  moreover have "maps_ok x ?s" "dl_ok x ?s"
    using c old by (simp_all add: core_def maps_ok_def dl_ok_def) metis+
  moreover have "deliv_ok x ?s"
    unfolding deliv_ok_def
  proof (intro allI impI)
    fix b u m
    assume u: "tk x ?s b u" "delivery_lease (task_pc u) = Some m"
    then obtain v where v: "tk x s b v" "task_pc v = task_pc u" "b \<noteq> tid \<longrightarrow> v = u" using old by blast
    then have "deliv_fact s v m" using c u(2) by (simp add: core_def deliv_ok_def)
    moreover have "\<not> is_A_set (task_pc u) \<or> v = u" using a v by metis
    ultimately show "deliv_fact ?s u m" using v(2) by (auto simp: deliv_fact_def)
  qed
  moreover have "locks_ok x L ?s"
    unfolding locks_ok_def
  proof (intro conjI allI impI)
    fix b u thr
    assume "tk x ?s b u" "holds_lock (task_pc u) = Some thr"
    then show "goal_controls ?s thr = Some (Some b)"
      using old [of b u] core_holds [OF c, of b] by auto
  next
    fix thr b
    assume "goal_controls ?s thr = Some (Some b)" "thr \<notin> L"
    then obtain u where "tk x s b u" "holds_lock (task_pc u) = Some thr"
      using core_lock_owner [OF c, of thr b] by auto
    then show "\<exists>u. tk x ?s b u \<and> holds_lock (task_pc u) = Some thr"
      using new [of b u] by auto
  qed
  moreover have "served x E ?s"
    unfolding served_def
  proof (intro allI impI)
    fix j cur
    assume j: "lease_at ?s j = Some cur" "j \<notin> E" "is_live cur"
    then obtain b u where u: "tk x s b u" "serves u j cur" using core_served [OF c, of j cur] by auto
    then obtain v where v: "tk x ?s b v" "task_pc v = task_pc u" "b \<noteq> tid \<longrightarrow> v = u" using new by blast
    have "serves v j cur"
    proof (cases "b = tid")
      case True
      then have "lease_state cur = L_preparing" using serves u j by auto
      then show ?thesis using u(2) v(2) by (simp add: serves_def)
    qed (use u v in simp)
    then show "\<exists>b u. tk x ?s b u \<and> serves u j cur" using v(1) by blast
  qed
  ultimately have "core x E L ?s" by (simp add: core_def)
  then show ?thesis using Some by (simp add: cancel_task_def)
qed

lemma core_unmap:
  assumes "core x E L s"
  shows "core x E L (s\<lparr>delivery_tasks := (delivery_tasks s)(j := None)\<rparr>)"
    and "core x E L (s\<lparr>deadline_tasks := (deadline_tasks s)(j := None)\<rparr>)"
  using assms by (simp_all add: core_defs tk_def)

lemma core_drop_delivery:
  assumes c: "core x E L s" and j: "lease_at s j = Some cur" "lease_state cur \<noteq> L_terminal"
  shows "core x E L (drop_delivery j s)"
proof (cases "delivery_tasks s j")
  case None
  then show ?thesis using c by (simp add: drop_delivery_def)
next
  case (Some tid)
  have lease: "\<exists>l. delivery_lease (task_pc t) = Some l \<and> job_id l = j" if "tk x s tid t" for t
    using c Some that unfolding core_def maps_ok_def by blast
  have "core x E L (cancel_task tid (s\<lparr>delivery_tasks := (delivery_tasks s)(j := None)\<rparr>))"
  proof (rule core_cancel [OF core_unmap(1) [OF c]], simp_all)
    fix t
    assume t: "tk x s tid t"
    obtain l where l: "delivery_lease (task_pc t) = Some l" "job_id l = j" using lease [OF t] by blast
    then have "deliv_fact s t l" using c t by (simp add: core_def deliv_ok_def)
    then show "\<not> is_A_set (task_pc t)" using j l(2) by (auto simp: deliv_fact_def)
    fix k m
    assume "serves t k m" "is_live m" "lease_at s k = Some m"
    moreover have "deadline_lease (task_pc t) = None" "prepare_job (task_pc t) = None"
      using l(1) by (cases "task_pc t"; simp)+
    ultimately show "k \<in> E \<or> lease_state m = L_preparing"
      using l j by (auto simp: serves_def is_live_def live_state_def)
  qed
  then show ?thesis using Some by (simp add: drop_delivery_def)
qed

lemma core_drop_deadline:
  assumes c: "core x E L s" and j: "lease_at s j = Some cur" "lease_state cur \<noteq> L_armed \<or> j \<in> E"
  shows "core x E L (drop_deadline j s)"
proof (cases "deadline_tasks s j")
  case None
  then show ?thesis using c by (simp add: drop_deadline_def)
next
  case (Some tid)
  have lease: "\<exists>l. deadline_lease (task_pc t) = Some l \<and> job_id l = j" if "tk x s tid t" for t
    using c Some that unfolding core_def maps_ok_def by blast
  have "core x E L (cancel_task tid (s\<lparr>deadline_tasks := (deadline_tasks s)(j := None)\<rparr>))"
  proof (rule core_cancel [OF core_unmap(2) [OF c]], simp_all)
    fix t
    assume t: "tk x s tid t"
    obtain l where l: "deadline_lease (task_pc t) = Some l" "job_id l = j" using lease [OF t] by blast
    then show "\<not> is_A_set (task_pc t)" by (cases "task_pc t") auto
    fix k m
    assume "serves t k m" "is_live m" "lease_at s k = Some m"
    moreover have "delivery_lease (task_pc t) = None" "prepare_job (task_pc t) = None"
      using l(1) by (cases "task_pc t"; simp)+
    ultimately show "k \<in> E \<or> lease_state m = L_preparing"
      using l j by (auto simp: serves_def is_live_def live_state_def)
  qed
  then show ?thesis using Some by (simp add: drop_deadline_def)
qed

text \<open>What these operations leave alone.\<close>

lemma cancel_task_frame [frame_simps]:
  "store (cancel_task tid s) = store s" "next_task (cancel_task tid s) = next_task s"
  "delivery_tasks (cancel_task tid s) = delivery_tasks s"
  "deadline_tasks (cancel_task tid s) = deadline_tasks s"
  "goal_controls (cancel_task tid s) = goal_controls s" "sent (cancel_task tid s) = sent s"
  "pause_notifications (cancel_task tid s) = pause_notifications s"
  "expected_goal_status (cancel_task tid s) = expected_goal_status s"
  by (simp_all add: cancel_task_def split: option.splits)

lemma drop_frame [frame_simps]:
  "store (drop_delivery j s) = store s" "store (drop_deadline j s) = store s"
  "next_task (drop_delivery j s) = next_task s" "next_task (drop_deadline j s) = next_task s"
  "delivery_tasks (drop_deadline j s) = delivery_tasks s"
  "deadline_tasks (drop_delivery j s) = deadline_tasks s"
  "goal_controls (drop_delivery j s) = goal_controls s"
  "goal_controls (drop_deadline j s) = goal_controls s"
  "sent (drop_delivery j s) = sent s" "sent (drop_deadline j s) = sent s"
  "pause_notifications (drop_delivery j s) = pause_notifications s"
  "pause_notifications (drop_deadline j s) = pause_notifications s"
  "expected_goal_status (drop_delivery j s) = expected_goal_status s"
  "expected_goal_status (drop_deadline j s) = expected_goal_status s"
  by (simp_all add: drop_delivery_def drop_deadline_def frame_simps split: option.splits)

lemma cancel_task_pc: "map_option task_pc (tasks (cancel_task tid s) a) = map_option task_pc (tasks s a)"
  by (simp add: cancel_task_def split: option.splits)

lemma undelivered_pc:
  "undelivered x s k \<longleftrightarrow> (\<forall>a pc l. map_option task_pc (tasks s a) = Some pc \<longrightarrow> x \<noteq> Some a \<longrightarrow>
     delivery_lease pc = Some l \<longrightarrow> job_id l \<noteq> k)"
  unfolding undelivered_def tk_def by (simp only: map_option_eq_Some) metis

lemma undelivered_drop_deadline [frame_simps]:
  "undelivered x (drop_deadline j s) k = undelivered x s k"
  by (simp add: drop_deadline_def undelivered_pc cancel_task_pc del: map_option_eq_Some split: option.splits)

lemma core_shrink:
  assumes c: "core x E L s" and dead: "\<And>j cur. j \<in> E \<Longrightarrow> j \<notin> E' \<Longrightarrow> lease_at s j = Some cur \<Longrightarrow> \<not> is_live cur"
  shows "core x E' L s"
proof -
  have "served x E' s"
    unfolding served_def using core_served [OF c] dead by blast
  with c show ?thesis by (simp add: core_def)
qed

section \<open>Locks\<close>

lemma core_acquire:
  assumes c: "core (Some tid) E {} s" and free: "lock_free thr s"
  shows "core (Some tid) E {thr} (acquire thr tid s)"
proof -
  have "locks_ok (Some tid) {thr} (acquire thr tid s)"
    unfolding locks_ok_def
  proof (intro conjI allI impI)
    fix a t thr'
    assume "tk (Some tid) (acquire thr tid s) a t" "holds_lock (task_pc t) = Some thr'"
    then have "goal_controls s thr' = Some (Some a)" using core_holds [OF c] by (simp add: acquire_def)
    then show "goal_controls (acquire thr tid s) thr' = Some (Some a)"
      using free by (auto simp: acquire_def lock_free_def)
  next
    fix thr' a
    assume "goal_controls (acquire thr tid s) thr' = Some (Some a)" "thr' \<notin> {thr}"
    then show "\<exists>t. tk (Some tid) (acquire thr tid s) a t \<and> holds_lock (task_pc t) = Some thr'"
      using core_lock_owner [OF c] by (simp add: acquire_def)
  qed
  with c show ?thesis
    by (simp add: acquire_def core_def ids_ok_def deliv_ok_def deliv_fact_def deliv_uniq_def maps_ok_def
          dl_ok_def served_def combos_def acts_ok_def activations_def)
qed

lemma core_release:
  assumes c: "core (Some tid) E L s" and own: "goal_controls s thr = Some (Some tid)" and L: "L \<subseteq> {thr}"
  shows "core (Some tid) E {} (release thr s)"
proof -
  have "locks_ok (Some tid) {} (release thr s)"
    unfolding locks_ok_def
  proof (intro conjI allI impI)
    fix a t thr'
    assume t: "tk (Some tid) (release thr s) a t" "holds_lock (task_pc t) = Some thr'"
    then have g: "goal_controls s thr' = Some (Some a)" using core_holds [OF c] by (simp add: release_def)
    then have "thr' \<noteq> thr" using own t(1) by (auto simp: tk_def)
    with g show "goal_controls (release thr s) thr' = Some (Some a)" by (simp add: release_def)
  next
    fix thr' a
    assume "goal_controls (release thr s) thr' = Some (Some a)"
    then have "thr' \<notin> L" "goal_controls s thr' = Some (Some a)"
      using L by (auto simp: release_def split: if_splits)
    then show "\<exists>t. tk (Some tid) (release thr s) a t \<and> holds_lock (task_pc t) = Some thr'"
      using core_lock_owner [OF c] by (simp add: release_def)
  qed
  with c show ?thesis
    by (simp add: release_def core_def ids_ok_def deliv_ok_def deliv_fact_def deliv_uniq_def maps_ok_def
          dl_ok_def served_def combos_def acts_ok_def activations_def)
qed

end
