(* ===== verification/Goal_Bridge_Safe.thy ===== *)
theory Goal_Bridge_Safe
  imports Goal_Bridge_Inv
begin

text \<open>
  Every step of the Goal bridge keeps the invariant: one lemma per segment of a
  coroutine, in the order of \<open>Goal_Bridge\<close>, then the step of the whole bridge, the start
  of a process and the reachable states.
\<close>

section \<open>Settling a segment\<close>

text \<open>A client's or user's task owns no entry of the task maps.\<close>

definition unmapped :: "nat \<Rightarrow> 'a goal_bridge_scheme \<Rightarrow> bool" where
  "unmapped tid s \<longleftrightarrow> (\<forall>j. delivery_tasks s j \<noteq> Some tid \<and> deadline_tasks s j \<noteq> Some tid)"

lemma unmapped_client:
  "task_fits x s tid t \<Longrightarrow> delivery_lease (task_pc t) = None \<Longrightarrow> deadline_lease (task_pc t) = None \<Longrightarrow>
     unmapped tid s"
  by (simp add: task_fits_def unmapped_def)

lemma unmapped_drop [frame_simps]:
  "unmapped tid s \<Longrightarrow> unmapped tid (drop_delivery j s)" "unmapped tid s \<Longrightarrow> unmapped tid (drop_deadline j s)"
  by (simp_all add: unmapped_def drop_delivery_def drop_deadline_def frame_simps split: option.splits)

lemma unmapped_store [simp]: "unmapped tid (s\<lparr>store := d\<rparr>) = unmapped tid s"
  by (simp add: unmapped_def)

lemma send_frame [simp]:
  "store (send j r s) = store s" "next_task (send j r s) = next_task s" "tasks (send j r s) = tasks s"
  "delivery_tasks (send j r s) = delivery_tasks s" "deadline_tasks (send j r s) = deadline_tasks s"
  "goal_controls (send j r s) = goal_controls s"
  by (simp_all add: send_def)

lemma unmapped_send [simp]: "unmapped tid (send j r s) = unmapped tid s"
  by (simp add: unmapped_def)

lemma settle_client:
  assumes c: "core (Some tid) E L s" and tid: "tid < next_task s" and un: "unmapped tid s"
    and pc: "delivery_lease pc = None" "deadline_lease pc = None"
    and lock: "\<And>thr. holds_lock pc = Some thr \<Longrightarrow> goal_controls s thr = Some (Some tid)"
    and L: "L \<subseteq> set_option (holds_lock pc)"
    and E: "\<And>j cur. j \<in> E \<Longrightarrow> lease_at s j = Some cur \<Longrightarrow> is_live cur \<Longrightarrow>
        lease_state cur = L_preparing \<and> prepare_job pc = Some j"
  shows "bridge_inv (settle tid a (s, Inr (Suspend pc)))"
proof (rule settle_suspend [OF c tid refl])
  show "task_fits (Some tid) s tid
      \<lparr>task_pc = pc, cancelled = (case tasks s tid of None \<Rightarrow> False | Some t \<Rightarrow> cancelled t)\<rparr>"
    using un pc lock by (simp add: task_fits_def unmapped_def)
qed (use E L in \<open>auto simp: serves_def\<close>)

text \<open>A worker goes on to another await with the same lease.\<close>

lemma settle_worker:
  assumes c: "core (Some tid) (duty s0 t) L s" and tid: "tid < next_task s" and t: "tasks s0 tid = Some t"
    and fits: "task_fits (Some tid) s0 tid t"
    and same: "store s = store s0" "tasks s = tasks s0" "delivery_tasks s = delivery_tasks s0"
      "deadline_tasks s = deadline_tasks s0"
    and pc: "delivery_lease pc = delivery_lease (task_pc t)" "deadline_lease pc = deadline_lease (task_pc t)"
      "prepare_job pc = prepare_job (task_pc t)" "\<not> is_A_set (task_pc t)" "\<not> is_A_set pc"
    and lock: "\<And>thr. holds_lock pc = Some thr \<Longrightarrow> goal_controls s thr = Some (Some tid)"
    and L: "L \<subseteq> set_option (holds_lock pc)"
  shows "bridge_inv (settle tid a (s, Inr (Suspend pc)))"
proof (rule settle_suspend [OF c tid refl])
  show "task_fits (Some tid) s tid
      \<lparr>task_pc = pc, cancelled = (case tasks s tid of None \<Rightarrow> False | Some t \<Rightarrow> cancelled t)\<rparr>"
    using fits pc lock same by (auto simp: task_fits_def deliv_fact_def undelivered_def tk_def)
  show "serves \<lparr>task_pc = pc, cancelled = (case tasks s tid of None \<Rightarrow> False | Some t \<Rightarrow> cancelled t)\<rparr> j cur"
    if "j \<in> duty s0 t" "lease_at s j = Some cur" for j cur
    using that pc t same by (auto simp: duty_def serves_def)
qed (rule L)

section \<open>Abandoning\<close>

lemma abandon_inv:
  assumes c: "core x E L s" and r: "abandon_for_manual_change now thr reason s = (s', res)"
  shows "core x E L s'" "res = Inr ()"
    and "next_task s' = next_task s" "goal_controls s' = goal_controls s" "sent s' = sent s"
    and "unmapped tid s \<Longrightarrow> unmapped tid s'"
    and "db_live_for_thread (store s') thr = Some l \<Longrightarrow> delivery_state l = D_activating"
proof -
  have ok: "store_ok (store s)" using c by (rule core_store_ok)
  have "core x E L s' \<and> res = Inr () \<and> next_task s' = next_task s \<and> goal_controls s' = goal_controls s
      \<and> sent s' = sent s \<and> (unmapped tid s \<longrightarrow> unmapped tid s')
      \<and> (\<forall>l. db_live_for_thread (store s') thr = Some l \<longrightarrow> delivery_state l = D_activating)"
  proof (cases "\<exists>lease. db_live_for_thread (store s) thr = Some lease \<and> delivery_state lease \<noteq> D_activating")
    case False
    then have "s' = s" "res = Inr ()"
      using r by (auto simp: abandon_for_manual_change_def split: option.splits if_splits)
    then show ?thesis using c False by auto
  next
    case True
    then obtain lease where live: "db_live_for_thread (store s) thr = Some lease"
      and d: "delivery_state lease \<noteq> D_activating" by blast
    define j where "j = job_id lease"
    have l: "lease_at s j = Some lease" "is_live lease" "thread_id lease = thr"
      using live ls.live_iff [OF ok] by (auto simp: j_def)
    let ?fs = "abandon_fields reason"
    define m where "m = set_fields ?fs lease"
    have m: "lease_state m = L_abandoned" by (simp add: m_def abandon_fields_def)
    let ?s = "s\<lparr>store := db_put now j ?fs (store s)\<rparr>"
    have upd: "st_update now j ?fs s = (?s, Inr m)"
      unfolding m_def
      by (rule st_update_ok [OF c l(1)]) (simp_all add: abandon_fields_def is_live_def live_state_def)
    have core: "core x E L ?s" by (rule core_abandon [OF c l(1,2) d]) auto
    have get: "lease_at ?s j = Some m" using l by (simp add: db_get_put m_def)
    have s': "s' = drop_deadline j (drop_delivery j ?s)" "res = Inr ()"
      using r upd live d by (auto simp: abandon_for_manual_change_def j_def)
    have "core x E L (drop_delivery j ?s)" by (rule core_drop_delivery [OF core get]) (simp add: m)
    then have "core x E L s'"
      unfolding s' by (rule core_drop_deadline [where cur = m]) (use get m in \<open>simp_all add: frame_simps\<close>)
    moreover have "db_live_for_thread (store ?s) thr = None"
      using ls.live_after_retire(3) [OF ok live, of ?fs] m
      by (simp add: m_def j_def is_live_def live_state_def abandon_fields_def)
    ultimately show ?thesis unfolding s' by (simp add: frame_simps)
  qed
  then show "core x E L s'" "res = Inr ()" "next_task s' = next_task s" "goal_controls s' = goal_controls s"
    "sent s' = sent s" "unmapped tid s \<Longrightarrow> unmapped tid s'"
    "db_live_for_thread (store s') thr = Some l \<Longrightarrow> delivery_state l = D_activating"
    by blast+
qed

section \<open>Requests\<close>

text \<open>The move of an early lease to \<open>terminal\<close>, up to the scheduling of its delivery.\<close>

lemma core_terminalize:
  assumes c: "core x E L s" and l: "lease_at s j = Some l" "lease_state l \<in> {L_preparing, L_armed}"
    and fs: "fs \<noteq> []" "list_all field_allowed fs" and m: "m = set_fields fs l"
      "lease_state m = L_terminal" "delivery_state m = D_waiting_for_idle"
    and s': "s' = s\<lparr>store := db_put now j fs (store s)\<rparr>"
  shows "st_update now j fs s = (s', Inr m)" "core x (insert j E) L s'" "undelivered x s' j"
    "lease_at s' j = Some m" "job_id m = j" "goal_key m = goal_key l"
proof -
  have live: "is_live l" using l(2) by (auto simp: is_live_def live_state_def)
  have "delivery_state l = D_pending"
    using c l by (auto simp: core_def combos_def combo_def)
  then have acts: "activations s j = 0" using no_activation [OF c l(1) live] by simp
  show "st_update now j fs s = (s', Inr m)"
    unfolding s' m(1) by (rule st_update_ok [OF c l(1) fs]) (rule live)
  show "core x (insert j E) L s'"
    unfolding s' by (rule core_put [OF c l(1) m(1)])
      (use live acts m undelivered_early [OF c l] in \<open>auto simp: combo_def\<close>)
  show "undelivered x s' j" using undelivered_early [OF c l] by (simp add: s' undelivered_def)
  show "lease_at s' j = Some m" "job_id m = j" "goal_key m = goal_key l"
    using l(1) m(1) db_get_key by (auto simp: s' db_get_put)
qed

lemma core_set_terminal_state:
  assumes c: "core x E L s" and l: "lease_at s j = Some l" "lease_state l = L_preparing"
  shows "core x E L (s\<lparr>store := db_put now j [F_terminal_state v] (store s)\<rparr>)" (is "core x E L ?s")
proof -
  have live: "is_live l" using l(2) by (auto simp: is_live_def live_state_def)
  have pend: "delivery_state l = D_pending" using c l by (auto simp: core_def combos_def combo_def)
  have acts: "activations s j = 0" using no_activation [OF c l(1) live] pend by simp
  have "core x (insert j E) L ?s"
    by (rule core_put [OF c l(1) refl])
      (use live acts l(2) pend undelivered_early [OF c l(1)] in \<open>auto simp: combo_def\<close>)
  moreover have "served x E ?s"
    unfolding served_def
  proof (intro allI impI)
    fix k m
    assume k: "lease_at ?s k = Some m" "k \<notin> E" "is_live m"
    show "\<exists>tid t. tk x ?s tid t \<and> serves t k m"
    proof (cases "k = j")
      case True
      then have "lease_state m = L_preparing" using k l by (auto simp: db_get_put)
      moreover obtain tid t where "tk x s tid t" "serves t j l"
        using core_served [OF c l(1) _ live] k(2) True by auto
      ultimately show ?thesis using True l(2) by (auto simp: serves_def)
    next
      case False
      then show ?thesis using core_served [OF c _ k(2,3)] k(1) by (simp add: db_get_put)
    qed
  qed
  ultimately show ?thesis by (simp add: core_def)
qed

lemma terminal_request_inv:
  assumes c: "core (Some tid) {} {} s" and un: "unmapped tid s" "tid < next_task s"
  shows "bridge_inv (settle tid a (terminal_request now job req s))"
proof -
  have goal: "bridge_inv (settle tid a (terminal_request now job req s))"
    if thr: "check_thread_id (jget ''thread_id'' req) = Inr thr" and ts: "jget ''terminal_state'' req = JStr tstate"
      "length tstate \<le> 64" and l: "lease_at s job = Some l" "thread_id l = thr"
    for thr tstate l
  proof -
    consider (old) "settled_delivery (delivery_state l) \<or> lease_state l = L_terminal"
      | (prep) "\<not> settled_delivery (delivery_state l)" "lease_state l = L_preparing" "delivery_state l = D_pending"
      | (armed) "\<not> settled_delivery (delivery_state l)" "lease_state l = L_armed" "delivery_state l = D_pending"
      | (other) "\<not> settled_delivery (delivery_state l)" "lease_state l \<noteq> L_terminal"
          "\<not> (lease_state l = L_preparing \<and> delivery_state l = D_pending)"
          "\<not> (lease_state l = L_armed \<and> delivery_state l = D_pending)"
      by blast
    then show ?thesis
    proof cases
      case old
      then show ?thesis
        using thr ts l settle_end [OF c] by (auto simp: terminal_request_def ok_delivery_def)
    next
      case prep
      have "st_update now job [F_terminal_state tstate] s =
          (s\<lparr>store := db_put now job [F_terminal_state tstate] (store s)\<rparr>, Inr (set_fields [F_terminal_state tstate] l))"
        by (rule st_update_ok [OF c l(1)]) (use prep in \<open>auto simp: is_live_def live_state_def\<close>)
      then show ?thesis
        using thr ts l prep settle_end [OF c] settle_end [OF core_set_terminal_state [OF c l(1) prep(2)]]
        by (auto simp: terminal_request_def ok_delivery_def)
    next
      case armed
      let ?fs = "[F_state L_terminal, F_terminal_state tstate, F_delivery_state D_waiting_for_idle]"
      define m where "m = set_fields ?fs l"
      define s1 where "s1 = s\<lparr>store := db_put now job ?fs (store s)\<rparr>"
      have early: "lease_state l \<in> {L_preparing, L_armed}" using armed by simp
      note T = core_terminalize [OF c l(1) early _ _ m_def _ _ s1_def, simplified m_def, simplified]
      have "core (Some tid) {} {} (schedule_delivery m (drop_deadline job s1))"
      proof (rule core_schedule_delivery [where cur = m and j = job])
        show "core (Some tid) {job} {} (drop_deadline job s1)"
          by (rule core_drop_deadline [OF T(2) T(4)]) simp
      qed (use T un in \<open>auto simp: m_def frame_simps s1_def unmapped_def\<close>)
      then have "bridge_inv (settle tid a (schedule_delivery m (drop_deadline job s1), Inr (Done v)))" for v
        by (rule settle_end(2))
      then show ?thesis
        using thr ts l armed T(1) by (simp add: terminal_request_def ok_delivery_def m_def)
    next
      case other
      then show ?thesis using thr ts l settle_end [OF c] by (auto simp: terminal_request_def)
    qed
  qed
  show ?thesis
    using settle_end [OF c] goal
    by (auto simp: terminal_request_def split: sum.splits json.splits option.splits if_splits)
qed

lemma abort_request_inv:
  assumes c: "core (Some tid) {} {} s" and un: "unmapped tid s" "tid < next_task s"
  shows "bridge_inv (settle tid a (abort_request abandon_for_manual_change now job req s))"
proof -
  have goal: "bridge_inv (settle tid a (abort_request abandon_for_manual_change now job req s))"
    if thr: "check_thread_id (jget ''thread_id'' req) = Inr thr"
      and l: "lease_at s job = Some l" "thread_id l = thr" "\<not> settled_delivery (delivery_state l)"
    for thr l
  proof -
    consider (prep) "lease_state l = L_preparing" | (armed) "lease_state l = L_armed" "delivery_state l = D_pending"
      | (other) "lease_state l \<noteq> L_preparing" "\<not> (lease_state l = L_armed \<and> delivery_state l = D_pending)"
      by blast
    then show ?thesis
    proof cases
      case prep
      obtain s1 r1 where r: "abandon_for_manual_change now thr
          ''Wake registration aborted before pause confirmation'' s = (s1, r1)" by fastforce
      then show ?thesis
        using thr l prep abandon_inv(2) [OF c r] settle_end [OF abandon_inv(1) [OF c r]]
        by (simp add: abort_request_def ok_delivery_def)
    next
      case armed
      let ?fs = "[F_state L_terminal, F_terminal_state ''bridge_aborted'', F_delivery_state D_waiting_for_idle]"
      define m where "m = set_fields ?fs l"
      define s1 where "s1 = s\<lparr>store := db_put now job ?fs (store s)\<rparr>"
      have early: "lease_state l \<in> {L_preparing, L_armed}" using armed by simp
      note T = core_terminalize [OF c l(1) early _ _ m_def _ _ s1_def, simplified m_def, simplified]
      have "core (Some tid) {} {} (schedule_delivery m s1)"
        by (rule core_schedule_delivery [where cur = m and j = job])
          (use T un in \<open>auto simp: m_def frame_simps s1_def unmapped_def\<close>)
      then have "bridge_inv (settle tid a (schedule_delivery m s1, Inr (Done v)))" for v
        by (rule settle_end(2))
      then show ?thesis
        using thr l armed T(1) by (simp add: abort_request_def ok_delivery_def m_def)
    next
      case other
      then show ?thesis using thr l settle_end [OF c] by (auto simp: abort_request_def ok_delivery_def)
    qed
  qed
  show ?thesis
    using settle_end [OF c] goal
    by (auto simp: abort_request_def ok_delivery_def split: sum.splits json.splits option.splits if_splits)
qed

lemma prepare_start_inv:
  assumes c: "core (Some tid) {} {} s" and un: "unmapped tid s" "tid < next_task s"
  shows "bridge_inv (settle tid a (prepare_start job req s))"
proof -
  have "bridge_inv (settle tid a (send job (Goal_get thr) s, Inr (Suspend (P_get job thr i g))))" for thr i g
    by (rule settle_client [of _ "{}" "{}"]) (use c un in auto)
  then show ?thesis
    using settle_end [OF c] by (auto simp: prepare_start_def Let_def split: sum.splits option.splits)
qed

lemma handle_request_inv:
  assumes c: "core (Some tid) {} {} s" and un: "unmapped tid s" "tid < next_task s"
  shows "bridge_inv (settle tid a (handle_request now req s))"
  using settle_end [OF c] prepare_start_inv [OF assms] terminal_request_inv [OF assms]
    abort_request_inv [OF assms]
  by (auto simp: handle_request_def dispatch_def Let_def split: conn_input.splits sum.splits)

section \<open>Registration\<close>

lemma lease_duty_prepare:
  assumes t: "prepare_job (task_pc t) = Some j"
  shows "k \<in> duty s t \<longleftrightarrow> k = j \<and> (\<exists>cur. lease_at s j = Some cur \<and> lease_state cur = L_preparing)"
proof -
  have "delivery_lease (task_pc t) = None" "deadline_lease (task_pc t) = None"
    using t by (cases "task_pc t"; simp)+
  then show ?thesis using t by (auto simp: duty_def serves_def is_live_def live_state_def)
qed

lemma prepare_failed_inv:
  assumes c: "core (Some tid) (duty s t) {} s" and t: "prepare_job (task_pc t) = Some job"
  shows "bridge_inv (settle tid a (prepare_failed now job thr e s))"
proof (cases "\<exists>cur. lease_at s job = Some cur \<and> lease_state cur = L_preparing")
  case False
  then have "duty s t = {}" using lease_duty_prepare [OF t, of _ s] by auto
  with c have "core (Some tid) {} {} s" by simp
  then have "bridge_inv (settle tid a (s\<lparr>expected_goal_status := q, pause_notifications := p\<rparr>, Inl e'))" for p q e'
    by (intro settle_end) simp
  then show ?thesis using False by (cases "lease_at s job") (auto simp: prepare_failed_def Let_def)
next
  case True
  then obtain cur where cur: "lease_at s job = Some cur" "lease_state cur = L_preparing" by blast
  have live: "is_live cur" using cur(2) by (auto simp: is_live_def live_state_def)
  have act: "delivery_state cur \<noteq> D_activating" using c cur by (auto simp: core_def combos_def combo_def)
  let ?fs = "abandon_fields (''prepare failed: '' @ exc_str e)"
  let ?q = "s\<lparr>expected_goal_status := (expected_goal_status s)(thr := None)\<rparr>"
  have cq: "core (Some tid) (duty s t) {} ?q" using c by simp
  have "st_update now job ?fs ?q = (?q\<lparr>store := db_put now job ?fs (store ?q)\<rparr>, Inr (set_fields ?fs cur))"
    by (rule st_update_ok [OF cq]) (use cur live in \<open>auto simp: abandon_fields_def\<close>)
  moreover have "core (Some tid) {} {} (?q\<lparr>store := db_put now job ?fs (store ?q)\<rparr>)"
    by (rule core_abandon [OF cq _ live act]) (use cur lease_duty_prepare [OF t, of _ s] in auto)
  ultimately show ?thesis
    using cur settle_end(1) [of tid "s\<lparr>expected_goal_status := q, store := d, pause_notifications := p\<rparr>" for q d p]
    by (simp add: prepare_failed_def)
qed

lemma core_create:
  assumes c: "core x E L s" and fresh: "lease_at s (nl_job_id n) = None"
    and free: "db_live_for_thread (store s) (nl_thread_id n) = None"
  shows "core x (insert (nl_job_id n) E) L (s\<lparr>store := db_insert now n (store s)\<rparr>)" (is "core x ?E L ?s")
proof -
  have ok: "store_ok (store s)" using c by (rule core_store_ok)
  have get: "db_get (db_insert now n (store s)) = (lease_at s)(nl_job_id n \<mapsto> lease_of_new n)"
    using db_get_insert [OF fresh] by simp
  have "store_ok (store ?s)" using create_lease_fresh [OF ok fresh free] by simp
  moreover have "ids_ok ?s" "deliv_uniq x ?s" "maps_ok x ?s" "locks_ok x L ?s"
    using c by (auto simp: core_def ids_ok_def deliv_uniq_def maps_ok_def locks_ok_def)
  moreover have "deliv_ok x ?s"
  proof -
    have "deliv_fact ?s t l" if "deliv_fact s t l" for t l
      using that fresh by (auto simp: deliv_fact_def get)
    then show ?thesis using c by (simp add: core_def deliv_ok_def)
  qed
  moreover have "dl_ok x ?s"
    using c fresh unfolding core_def dl_ok_def by (simp add: get) (metis option.distinct(1))
  moreover have "combos ?s" using c by (simp add: core_def combos_def get combo_def)
  moreover have "served x ?E ?s"
    unfolding served_def using core_served [OF c] by (simp add: get)
  moreover have "acts_ok ?s"
    using c fresh by (auto simp: core_def acts_ok_def get activations_def)
  ultimately show ?thesis by (simp add: core_def)
qed

lemma prepare_got_inv:
  assumes c: "core (Some tid) {} {} s" and un: "unmapped tid s" "tid < next_task s"
  shows "bridge_inv (settle tid a (prepare_got now job thr timeout grace r s))"
proof -
  have susp: "bridge_inv (settle tid a (send job (Goal_set thr ''paused'')
      (s\<lparr>store := d, pause_notifications := p\<rparr>), Inr (Suspend (P_pause job thr u lease))))"
    if "core (Some tid) E {} (s\<lparr>store := d\<rparr>)" "E \<subseteq> {job}"
      "\<And>cur. job \<in> E \<Longrightarrow> db_get d job = Some cur \<Longrightarrow> lease_state cur = L_preparing" for d p u lease E
  proof (rule settle_client [where E = E and L = "{}"])
    show "core (Some tid) E {} (send job (Goal_set thr ''paused'') (s\<lparr>store := d, pause_notifications := p\<rparr>))"
      using that(1) by (simp del: goal_bridge.update_convs)
  qed (use that un in \<open>auto simp: send_def unmapped_def\<close>)
  have created: "bridge_inv (settle tid a (and_then (st_create now n s)
      (\<lambda>lease s. (send job (Goal_set thr ''paused'')
           (s\<lparr>pause_notifications := (pause_notifications s)(thr \<mapsto> [])\<rparr>),
         Inr (Suspend (P_pause job thr u lease))))))" if n: "nl_job_id n = job" for n u
  proof -
    have ok: "store_ok (store s)" using c by (rule core_store_ok)
    consider (known) l where "lease_at s job = Some l"
      | (busy) "lease_at s job = None" "db_live_for_thread (store s) (nl_thread_id n) \<noteq> None"
      | (fresh) "lease_at s job = None" "db_live_for_thread (store s) (nl_thread_id n) = None"
      by blast
    then show ?thesis
    proof cases
      case known
      have "bridge_inv (settle tid a (send job (Goal_set thr ''paused'') (s\<lparr>pause_notifications := p\<rparr>),
          Inr (Suspend (P_pause job thr u l))))" for p
        using susp [of "{}" "store s" p u l] c by simp
      then show ?thesis
        using known create_lease_known [OF ok, of n l now] n settle_end [OF c] by (simp add: st_create_def)
    next
      case busy
      then show ?thesis using create_lease_busy [OF ok, of n now] n settle_end [OF c] by (simp add: st_create_def)
    next
      case fresh
      note F = core_create [OF c, of n now] create_lease_fresh(1) [OF ok, of n now]
      have "bridge_inv (settle tid a (send job (Goal_set thr ''paused'')
          (s\<lparr>store := db_insert now n (store s), pause_notifications := p\<rparr>),
          Inr (Suspend (P_pause job thr u l))))" for p l
        by (rule susp [of "{job}"]) (use F fresh n db_get_insert [of "store s" n now] in auto)
      then show ?thesis using F fresh n by (simp add: st_create_def)
    qed
  qed
  show ?thesis
    using settle_end [OF c] created by (auto simp: prepare_got_def Let_def split: sum.splits)
qed

lemma prepare_paused_inv:
  assumes c: "core (Some tid) (duty s t) {} s" and un: "unmapped tid s" "tid < next_task s"
    and t: "prepare_job (task_pc t) = Some job"
  shows "bridge_inv (settle tid a (prepare_paused now job thr updated lease r s))"
proof -
  have "bridge_inv (settle tid a (send job (Goal_get thr) s,
      Inr (Suspend (P_confirm job thr updated u lease))))" for u
    by (rule settle_client [where E = "duty s t" and L = "{}"])
      (use c un in \<open>auto simp: lease_duty_prepare [OF t]\<close>)
  then show ?thesis
    using prepare_failed_inv [OF c t] by (auto simp: prepare_paused_def Let_def split: sum.splits)
qed

lemma prepare_arm_inv:
  assumes c: "core (Some tid) (duty s t) {} s" and un: "unmapped tid s" "tid < next_task s"
    and t: "prepare_job (task_pc t) = Some job"
    and cur: "lease_at s job = Some cur" "lease_state cur = L_preparing"
  shows "bridge_inv (settle tid a (prepare_arm now job thr paused cur s))"
proof -
  let ?early = "terminal_state cur \<noteq> None"
  let ?fs = "[F_state (if ?early then L_terminal else L_armed),
     F_delivery_state (if ?early then D_waiting_for_idle else D_pending), F_goal_updated_at paused]"
  define m where "m = set_fields ?fs cur"
  define s1 where "s1 = s\<lparr>store := db_put now job ?fs (store s)\<rparr>"
  define s2 where "s2 = s1\<lparr>pause_notifications := (pause_notifications s1)(thr := None)\<rparr>"
  have live: "is_live cur" using cur(2) by (simp add: is_live_def live_state_def)
  have upd: "st_update now job ?fs s = (s1, Inr m)"
    unfolding s1_def m_def by (rule st_update_ok [OF c cur(1)]) (use live in auto)
  have m: "job_id m = job" "goal_key m = goal_key cur"
    using cur(1) db_get_key by (auto simp: m_def)
  have get: "lease_at s2 job = Some m" using cur(1) by (simp add: s2_def s1_def m_def db_get_put)
  have E: "duty s t \<subseteq> insert job {job}" using lease_duty_prepare [OF t, of _ s] by auto
  have pend: "delivery_state cur = D_pending" using c cur by (auto simp: core_def combos_def combo_def)
  have acts: "activations s job = 0" using no_activation [OF c cur(1) live] pend by simp
  have undel: "undelivered (Some tid) s job" using undelivered_early [OF c cur(1)] cur(2) by simp
  have core: "core (Some tid) {job} {} s2"
    unfolding s2_def s1_def core_frame
    by (rule core_put [OF c cur(1) m_def])
      (use live acts undel E in \<open>auto simp: m_def combo_def split: if_splits\<close>)
  have undel2: "undelivered (Some tid) s2 job" "unwatched (Some tid) s2 job"
    using undel unwatched_preparing [OF c cur]
    by (simp_all add: s2_def s1_def undelivered_def unwatched_def tk_def)
  have un2: "tid < next_task s2 \<and> delivery_tasks s2 job \<noteq> Some tid"
      "tid < next_task s2 \<and> deadline_tasks s2 job \<noteq> Some tid"
    using un by (simp_all add: s2_def s1_def unmapped_def)
  have "core (Some tid) {} {} (schedule_delivery m s2)" if "?early"
    by (rule core_schedule_delivery [OF core m(1) get])
      (use that undel2 un2 in \<open>auto simp: m_def\<close>)
  moreover have "core (Some tid) {} {} (schedule_deadline m s2)" if "\<not> ?early"
    by (rule core_schedule_deadline [OF core m(1) get])
      (use that undel2 un2 in \<open>auto simp: m_def\<close>)
  moreover have "lease_state m = L_terminal \<longleftrightarrow> ?early" by (simp add: m_def)
  ultimately show ?thesis
    unfolding prepare_arm_def upd Let_def using settle_end(2) [of tid _ a] by (auto simp: s2_def [symmetric])
qed

lemma prepare_confirmed_inv:
  assumes c: "core (Some tid) (duty s t) {} s" and un: "unmapped tid s" "tid < next_task s"
    and t: "prepare_job (task_pc t) = Some job"
  shows "bridge_inv (settle tid a (prepare_confirmed now job thr updated paused lease r s))"
  using prepare_failed_inv [OF c t] prepare_arm_inv [OF assms]
  by (auto simp: prepare_confirmed_def Let_def split: sum.splits option.splits)

section \<open>Delivery\<close>

text \<open>What is known of a delivery task while one of its segments runs.\<close>

definition delivering :: "nat \<Rightarrow> goal_task \<Rightarrow> wake_lease \<Rightarrow> 'a goal_bridge_scheme \<Rightarrow> bool" where
  "delivering tid t l s \<longleftrightarrow> tasks s tid = Some t \<and> delivery_lease (task_pc t) = Some l \<and>
     core (Some tid) (duty s t) (set_option (holds_lock (task_pc t))) s \<and>
     task_fits (Some tid) s tid t \<and> tid < next_task s"

lemma delivery_pc:
  assumes "delivery_lease pc = Some l"
  shows "deadline_lease pc = None" "prepare_job pc = None" "holds_lock pc \<in> {None, Some (thread_id l)}"
  using assms by (cases pc; simp)+

lemma deliveringD:
  assumes d: "delivering tid t l s"
  shows "\<exists>cur. lease_at s (job_id l) = Some cur \<and> goal_key cur = goal_key l
       \<and> lease_state cur \<notin> {L_preparing, L_armed}
       \<and> (is_A_set (task_pc t) \<longrightarrow> lease_state cur = L_terminal \<and> delivery_state cur = D_activating)"
    and "undelivered (Some tid) s (job_id l)" and "duty s t \<subseteq> {job_id l}"
    and "holds_lock (task_pc t) = Some thr \<Longrightarrow> goal_controls s thr = Some (Some tid)"
  using d delivery_pc [of "task_pc t" l]
  by (auto simp: delivering_def task_fits_def deliv_fact_def duty_def serves_def is_live_def live_state_def)

lemma core_released:
  assumes d: "delivering tid t l s" and h: "holds_lock (task_pc t) = Some (thread_id l)"
  shows "core (Some tid) (duty s t) {} (release (thread_id l) s)"
  by (rule core_release [where L = "{thread_id l}"])
    (use d h deliveringD(4) [OF d h] in \<open>auto simp: delivering_def\<close>)

lemma release_frame [simp]:
  "store (release thr s) = store s" "tasks (release thr s) = tasks s" "next_task (release thr s) = next_task s"
  "delivery_tasks (release thr s) = delivery_tasks s" "deadline_tasks (release thr s) = deadline_tasks s"
  by (simp_all add: release_def)

lemma acquire_frame [simp]:
  "store (acquire thr tid s) = store s" "tasks (acquire thr tid s) = tasks s"
  "next_task (acquire thr tid s) = next_task s" "delivery_tasks (acquire thr tid s) = delivery_tasks s"
  "deadline_tasks (acquire thr tid s) = deadline_tasks s"
  "goal_controls (acquire thr tid s) thr = Some (Some tid)"
  by (simp_all add: acquire_def)

lemma undelivered_release [simp]: "undelivered x (release thr s) j = undelivered x s j"
  by (simp add: undelivered_def tk_def)

lemma deliver_raise_inv:
  assumes c: "core (Some tid) E {} s" and E: "E \<subseteq> {job_id l}" and u: "undelivered (Some tid) s (job_id l)"
    and cur: "lease_at s (job_id l) = Some cur" and e: "e \<noteq> CancelledError"
  shows "bridge_inv (settle tid a (deliver_raise now l e s))"
proof (cases "delivery_state cur \<in> {D_resumed, D_abandoned}")
  case True
  have "combo cur" using c cur by (auto simp: core_def combos_def)
  then have "\<not> is_live cur" using True by (auto simp: combo_def is_live_def live_state_def)
  then have "core (Some tid) {} {} s" by (intro core_shrink [OF c]) (use cur E in auto)
  then have "core (Some tid) {} {} (pop_delivery l s)" by (rule core_pop_delivery)
  then show ?thesis using True cur e settle_end(2) by (simp add: deliver_raise_def)
next
  case False
  let ?fs = "failed_fields (''delivery failed: '' @ exc_name e @ '': '' @ exc_str e)"
  let ?s = "s\<lparr>store := db_put now (job_id l) ?fs (store s)\<rparr>"
  have "st_update now (job_id l) ?fs s = (?s, Inr (set_fields ?fs cur))"
    by (rule st_update_ok [OF c cur]) (simp_all add: failed_fields_def is_live_def live_state_def)
  moreover have "core (Some tid) {} {} (pop_delivery l ?s)"
    by (rule core_pop_delivery, rule core_fail [OF c cur]) (use u E in auto)
  ultimately show ?thesis using False cur e settle_end(2) by (simp add: deliver_raise_def)
qed

lemma wait_idle_inv:
  assumes d: "delivering tid t l s0" and a: "\<not> is_A_set (task_pc t)"
    and c: "core (Some tid) (duty s0 t) {} s"
    and same: "store s = store s0" "tasks s = tasks s0" "delivery_tasks s = delivery_tasks s0"
      "deadline_tasks s = deadline_tasks s0" "next_task s = next_task s0"
  shows "bridge_inv (settle tid b (wait_idle l s))"
proof -
  define s1 where "s1 = (if thread_events s (thread_id l) = None
      then s\<lparr>thread_events := (thread_events s)(thread_id l \<mapsto> False)\<rparr> else s)"
  have c1: "core (Some tid) (duty s0 t) {} s1" using c by (simp add: s1_def)
  have "bridge_inv (settle tid b (send (job_id l) (Thread_read (thread_id l)) s1, Inr (Suspend (W_idle1 l))))"
    by (rule settle_worker [where L = "{}" and ?s0.0 = s0 and t = t])
      (use d a c1 same delivery_pc [of "task_pc t" l] in \<open>auto simp: delivering_def s1_def\<close>)
  then show ?thesis by (simp add: wait_idle_def s1_def Let_def)
qed

text \<open>The tasks that have not reached the activation yet: an exception leaves them failed.\<close>

lemma deliver_raise_unlocked:
  assumes d: "delivering tid t l s" and h: "holds_lock (task_pc t) = None" and e: "e \<noteq> CancelledError"
  shows "bridge_inv (settle tid b (deliver_raise now l e s))"
proof -
  obtain cur where "lease_at s (job_id l) = Some cur" using deliveringD(1) [OF d] by blast
  then show ?thesis
    using deliver_raise_inv [OF _ deliveringD(3,2) [OF d] _ e] d h by (simp add: delivering_def)
qed

lemma deliver_raise_released:
  assumes d: "delivering tid t l s" and h: "holds_lock (task_pc t) = Some (thread_id l)" and e: "e \<noteq> CancelledError"
  shows "bridge_inv (settle tid b (deliver_raise now l e (release (thread_id l) s)))"
proof -
  obtain cur where "lease_at s (job_id l) = Some cur" using deliveringD(1) [OF d] by blast
  then show ?thesis
    using deliver_raise_inv [OF core_released [OF d h] deliveringD(3) [OF d] _ _ e] deliveringD(2) [OF d]
    by simp
qed

text \<open>A delivery task ends without touching the lease when the lease needs no activation.\<close>

lemma not_waiting_idle_duty:
  assumes d: "delivering tid t l s" and a: "\<not> is_A_set (task_pc t)"
    and w: "\<And>cur. lease_at s (job_id l) = Some cur \<Longrightarrow>
      lease_state cur \<noteq> L_terminal \<or> delivery_state cur \<noteq> D_waiting_for_idle"
  shows "duty s t = {}"
proof -
  have "\<not> serves t j cur \<or> \<not> is_live cur" if "lease_at s j = Some cur" for j cur
  proof (cases "j = job_id l")
    case True
    have "combo cur" using d that by (auto simp: delivering_def core_def combos_def)
    then show ?thesis
      using w [of cur] True that a d delivery_pc [of "task_pc t" l]
      by (auto simp: serves_def is_live_def live_state_def combo_def delivering_def)
  next
    case False
    then show ?thesis using deliveringD(3) [OF d] that by (auto simp: duty_def)
  qed
  then show ?thesis by (auto simp: duty_def)
qed

lemma deliver_start_inv:
  assumes d: "delivering tid t l s" and h: "holds_lock (task_pc t) = None" and a: "\<not> is_A_set (task_pc t)"
  shows "bridge_inv (settle tid b (deliver_start l s))"
proof -
  have c: "core (Some tid) (duty s t) {} s" using d h by (simp add: delivering_def)
  obtain cur where cur: "lease_at s (job_id l) = Some cur" using deliveringD(1) [OF d] by blast
  show ?thesis
  proof (cases "lease_state cur \<noteq> L_terminal \<or> delivery_state cur \<noteq> D_waiting_for_idle")
    case True
    then have "core (Some tid) {} {} (pop_delivery l s)"
      using c not_waiting_idle_duty [OF d a] cur by (intro core_pop_delivery) auto
    then show ?thesis using True cur settle_end(2) by (simp add: deliver_start_def)
  next
    case False
    then show ?thesis using cur wait_idle_inv [OF d a c] by (simp add: deliver_start_def)
  qed
qed

lemma settle_lock:
  assumes d: "delivering tid t l s" and h: "holds_lock (task_pc t) = None" and a: "\<not> is_A_set (task_pc t)"
    and pc: "pc \<in> {W_lock l, W_event l}"
  shows "bridge_inv (settle tid b (s, Inr (Suspend pc)))"
  by (rule settle_worker [where L = "{}" and ?s0.0 = s and t = t])
    (use d h a pc delivery_pc [of "task_pc t" l] in \<open>auto simp: delivering_def\<close>)

lemma thread_status_exc: "thread_status r = Inl e \<Longrightarrow> e \<noteq> CancelledError"
  by (auto simp: thread_status_def Let_def split: if_splits json.splits)

lemma goal_from_result_exc: "goal_from_result r = Inl e \<Longrightarrow> e \<noteq> CancelledError"
  by (auto simp: goal_from_result_def split: if_splits)

lemma idle_inv:
  assumes d: "delivering tid t l s" and h: "holds_lock (task_pc t) = None" and a: "\<not> is_A_set (task_pc t)"
    and r: "r \<noteq> Inl CancelledError"
  shows "bridge_inv (settle tid b (idle_first now l r s))" "bridge_inv (settle tid b (idle_second now l r s))"
proof -
  have "bridge_inv (settle tid b (send (job_id l) (Thread_read (thread_id l))
      (s\<lparr>thread_events := ev\<rparr>), Inr (Suspend (W_idle2 l))))" for ev
    by (rule settle_worker [where L = "{}" and ?s0.0 = s and t = t])
      (use d h a delivery_pc [of "task_pc t" l] in \<open>auto simp: delivering_def\<close>)
  then show "bridge_inv (settle tid b (idle_first now l r s))" "bridge_inv (settle tid b (idle_second now l r s))"
    using r deliver_raise_unlocked [OF d h] thread_status_exc settle_lock [OF d h a]
    by (auto simp: idle_first_def idle_second_def system_error_def split: sum.splits)
qed

lemma activate_start_inv:
  assumes d: "delivering tid t l s" and h: "holds_lock (task_pc t) = None" and a: "\<not> is_A_set (task_pc t)"
    and free: "lock_free (thread_id l) s"
  shows "bridge_inv (settle tid b (activate_start tid l s))"
  unfolding activate_start_def
  by (rule settle_worker [where L = "{thread_id l}" and ?s0.0 = s and t = t])
    (use d h a core_acquire [OF _ free] delivery_pc [of "task_pc t" l] in \<open>auto simp: delivering_def\<close>)

section \<open>Activation\<close>

text \<open>Leaving the \<open>async with\<close> and \<open>_deliver\<close> after a committed update of the lease.\<close>

lemma finish_locked:
  assumes d: "delivering tid t l s" and h: "holds_lock (task_pc t) = Some (thread_id l)"
    and c: "core (Some tid) {} {thread_id l} s'" and same: "goal_controls s' = goal_controls s"
  shows "bridge_inv (settle tid b (deliver_loop now l (s', Inr (Act_return True))))"
proof -
  have "core (Some tid) {} {} (release (thread_id l) s')"
    by (rule core_release [OF c]) (use deliveringD(4) [OF d h] same in auto)
  then have "core (Some tid) {} {} (pop_delivery l (release (thread_id l) s'))" by (rule core_pop_delivery)
  then show ?thesis using settle_end(2) by (simp add: deliver_loop_def)
qed

lemma act_update_finish:
  assumes d: "delivering tid t l s0" and h: "holds_lock (task_pc t) = Some (thread_id l)"
    and same: "store s = store s0" "goal_controls s = goal_controls s0"
    and c: "core (Some tid) (duty s0 t) {thread_id l} s"
    and cur: "lease_at s (job_id l) = Some cur" and fs: "fs \<noteq> []" "list_all field_allowed fs"
      "\<not> is_live (set_fields fs cur)"
    and put: "core (Some tid) {} {thread_id l} (s\<lparr>store := db_put now (job_id l) fs (store s)\<rparr>)"
  shows "bridge_inv (settle tid b (deliver_loop now l (act_update now l fs s)))"
proof -
  have "st_update now (job_id l) fs s =
      (s\<lparr>store := db_put now (job_id l) fs (store s)\<rparr>, Inr (set_fields fs cur))"
    by (rule st_update_ok [OF c cur fs(1,2)]) (use fs(3) in blast)
  then show ?thesis
    using finish_locked [OF d h put] same by (simp add: act_update_def)
qed

lemma activate_read_inv:
  assumes d: "delivering tid t l s" and h: "holds_lock (task_pc t) = Some (thread_id l)"
    and a: "\<not> is_A_set (task_pc t)" and r: "r \<noteq> Inl CancelledError"
  shows "bridge_inv (settle tid b (deliver_loop now l (activate_read l r s)))"
proof -
  obtain cur where cur: "lease_at s (job_id l) = Some cur" using deliveringD(1) [OF d] by blast
  have c: "core (Some tid) (duty s t) {thread_id l} s" using d h by (simp add: delivering_def)
  have raised: "bridge_inv (settle tid b (deliver_loop now l (s, Inl e)))" if "e \<noteq> CancelledError" for e
    using deliver_raise_released [OF d h that] by (simp add: deliver_loop_def)
  have again: "bridge_inv (settle tid b (deliver_loop now l (s, Inr (Act_return False))))"
    using wait_idle_inv [OF d a core_released [OF d h]] by (simp add: deliver_loop_def)
  have settled: "bridge_inv (settle tid b (deliver_loop now l (s, Inr (Act_return True))))"
    if "settled_delivery (delivery_state cur)"
  proof (rule finish_locked [OF d h])
    have "duty s t = {}"
      using not_waiting_idle_duty [OF d a] cur that by (auto simp: settled_delivery_def)
    then show "core (Some tid) {} {thread_id l} s" using c by simp
  qed simp
  have asked: "bridge_inv (settle tid b (deliver_loop now l
      (send (job_id l) (Goal_get (thread_id l)) s, Inr (Act_await (A_get l)))))"
    unfolding deliver_loop_def prod.case sum.case act.case
    by (rule settle_worker [where L = "{thread_id l}" and ?s0.0 = s and t = t])
      (use d h a c deliveringD(4) [OF d h] delivery_pc [of "task_pc t" l] in \<open>auto simp: delivering_def\<close>)
  show ?thesis
    using r raised again settled asked thread_status_exc cur
    by (auto simp: activate_read_def split: sum.splits)
qed

lemma core_send_activation:
  assumes c: "core x E L s" and none: "activations s j = 0" and l: "lease_at s j = Some l"
    and st: "lease_state l = L_terminal" "delivery_state l = D_activating"
  shows "core x E L (send j r s)"
proof -
  have acts: "activations (send j r s) k = activations s k + (if k = j \<and> is_activation r then 1 else 0)" for k
    by (simp add: activations_def send_def)
  have tk: "tk x (send j r s) = tk x s" by (simp add: send_def)
  have "acts_ok (send j r s)"
    using c none l st by (auto simp: core_def acts_ok_def acts)
  with c show ?thesis
    by (simp add: core_def ids_ok_def deliv_ok_def deliv_fact_def deliv_uniq_def maps_ok_def
          dl_ok_def served_def combos_def locks_ok_def tk)
qed

lemma activate_send_inv:
  assumes d: "delivering tid t l s" and h: "holds_lock (task_pc t) = Some (thread_id l)"
    and t: "\<not> cancelled t" and cur: "lease_at s (job_id l) = Some cur"
    and w: "lease_state cur = L_terminal" "delivery_state cur = D_waiting_for_idle"
  shows "bridge_inv (settle tid b (deliver_loop now l
     (and_then (st_update now (job_id l) [F_delivery_state D_activating] s)
        (\<lambda>_ s. (send (job_id l) (Goal_set (thread_id l) ''active'')
                  (s\<lparr>expected_goal_status := (expected_goal_status s)(thread_id l \<mapsto> (''active'', None))\<rparr>),
                Inr (Act_await (A_set l)))))))"
proof -
  have c: "core (Some tid) (duty s t) {thread_id l} s" using d h by (simp add: delivering_def)
  have live: "is_live cur" using w by (simp add: is_live_def live_state_def)
  let ?fs = "[F_delivery_state D_activating]"
  define m where "m = set_fields ?fs cur"
  let ?s = "s\<lparr>store := db_put now (job_id l) ?fs (store s)\<rparr>"
  have upd: "st_update now (job_id l) ?fs s = (?s, Inr m)"
    unfolding m_def by (rule st_update_ok [OF c cur]) (use live in auto)
  have get: "lease_at ?s (job_id l) = Some m" using cur by (simp add: db_get_put m_def)
  have acts: "activations s (job_id l) = 0" using no_activation [OF c cur live] w by simp
  have "core (Some tid) {job_id l} {thread_id l} ?s"
    by (rule core_put [OF c cur m_def])
      (use live w acts deliveringD(2,3) [OF d] in \<open>auto simp: m_def combo_def\<close>)
  then have core: "core (Some tid) {job_id l} {thread_id l}
      (send (job_id l) (Goal_set (thread_id l) ''active'') (?s\<lparr>expected_goal_status := q\<rparr>))" for q
    by (intro core_send_activation [where l = m]) (use acts get w in \<open>auto simp: m_def activations_def\<close>)
  have "bridge_inv (settle tid b (send (job_id l) (Goal_set (thread_id l) ''active'')
      (?s\<lparr>expected_goal_status := q\<rparr>), Inr (Suspend (A_set l))))" for q
  proof (rule settle_suspend [OF core _ refl])
    have "goal_key m = goal_key l" using deliveringD(1) [OF d] cur by (auto simp: m_def)
    moreover have "lease_state m = L_terminal" "delivery_state m = D_activating" using w by (simp_all add: m_def)
    ultimately show "task_fits (Some tid) (send (job_id l) (Goal_set (thread_id l) ''active'')
        (?s\<lparr>expected_goal_status := q\<rparr>)) tid
      \<lparr>task_pc = A_set l, cancelled = (case tasks (send (job_id l) (Goal_set (thread_id l) ''active'')
        (?s\<lparr>expected_goal_status := q\<rparr>)) tid of None \<Rightarrow> False | Some t \<Rightarrow> cancelled t)\<rparr>"
      using d h t get deliveringD(2,4) [OF d] delivery_pc [of "task_pc t" l]
      by (auto simp: task_fits_def deliv_fact_def delivering_def undelivered_def tk_def)
    show "tid < next_task (send (job_id l) (Goal_set (thread_id l) ''active'') (?s\<lparr>expected_goal_status := q\<rparr>))"
      using d by (simp add: delivering_def)
  qed (use d t get w in \<open>auto simp: serves_def delivering_def m_def\<close>)
  then show ?thesis by (simp add: upd deliver_loop_def)
qed

lemma abandon_finish:
  assumes d: "delivering tid t l s" and h: "holds_lock (task_pc t) = Some (thread_id l)"
    and cur: "lease_at s (job_id l) = Some cur"
    and w: "lease_state cur = L_terminal" "delivery_state cur = D_waiting_for_idle"
  shows "bridge_inv (settle tid b (deliver_loop now l (act_update now l (abandon_fields r) s)))"
proof -
  have c: "core (Some tid) (duty s t) {thread_id l} s" using d h by (simp add: delivering_def)
  show ?thesis
    by (rule act_update_finish [OF d h refl refl c cur], simp_all add: abandon_fields_def is_live_def live_state_def,
        fold abandon_fields_def, rule core_abandon [OF c cur])
      (use w deliveringD(3) [OF d] in \<open>auto simp: is_live_def live_state_def\<close>)
qed

lemma activate_get_inv:
  assumes d: "delivering tid t l s" and h: "holds_lock (task_pc t) = Some (thread_id l)"
    and a: "\<not> is_A_set (task_pc t)" and t: "\<not> cancelled t" and r: "r \<noteq> Inl CancelledError"
  shows "bridge_inv (settle tid b (deliver_loop now l (activate_get now l r s)))"
proof -
  obtain cur where cur: "lease_at s (job_id l) = Some cur" using deliveringD(1) [OF d] by blast
  have raised: "bridge_inv (settle tid b (deliver_loop now l (s, Inl e)))" if "e \<noteq> CancelledError" for e
    using deliver_raise_released [OF d h that] by (simp add: deliver_loop_def)
  show ?thesis
  proof (cases "lease_state cur = L_terminal \<and> delivery_state cur = D_waiting_for_idle")
    case True
    then show ?thesis
      using r raised goal_from_result_exc cur abandon_finish [OF d h cur] activate_send_inv [OF d h t cur]
      by (auto simp: activate_get_def split: sum.splits)
  next
    case False
    have "duty s t = {}" by (rule not_waiting_idle_duty [OF d a]) (use False cur in auto)
    then have "bridge_inv (settle tid b (deliver_loop now l (s, Inr (Act_return True))))"
      using d h by (intro finish_locked [OF d h]) (auto simp: delivering_def)
    then show ?thesis
      using r raised goal_from_result_exc cur False by (auto simp: activate_get_def split: sum.splits)
  qed
qed

lemma activate_set_inv:
  assumes d: "delivering tid t l s" and h: "holds_lock (task_pc t) = Some (thread_id l)"
    and a: "is_A_set (task_pc t)" and r: "r \<noteq> Inl CancelledError"
  shows "bridge_inv (settle tid b (deliver_loop now l (activate_set now l r s)))"
proof -
  obtain cur where cur: "lease_at s (job_id l) = Some cur" using deliveringD(1) [OF d] by blast
  have c: "core (Some tid) (duty s t) {thread_id l} s" using d h by (simp add: delivering_def)
  have raised: "bridge_inv (settle tid b (deliver_loop now l (s, Inl e)))" if "e \<noteq> CancelledError" for e
    using deliver_raise_released [OF d h that] by (simp add: deliver_loop_def)
  have E: "duty s t \<subseteq> insert (job_id l) {}" using deliveringD(3) [OF d] .
  have failed: "bridge_inv (settle tid b (deliver_loop now l (act_update now l (failed_fields e) s')))"
    if "s' = s \<or> s' = pop_expected (thread_id l) s" for e s'
  proof (rule act_update_finish [OF d h])
    show c': "core (Some tid) (duty s t) {thread_id l} s'" using c that by auto
    show cur': "lease_at s' (job_id l) = Some cur" using cur that by (auto simp: pop_expected_def)
    have "undelivered (Some tid) s' (job_id l)"
      using deliveringD(2) [OF d] that by (auto simp: undelivered_def tk_def pop_expected_def)
    then show "core (Some tid) {} {thread_id l} (s'\<lparr>store := db_put now (job_id l) (failed_fields e) (store s')\<rparr>)"
      using core_fail [OF c' cur'] E by blast
  qed (use that in \<open>auto simp: pop_expected_def failed_fields_def is_live_def live_state_def\<close>)
  have delivered: "bridge_inv (settle tid b (deliver_loop now l
      (act_update now l [F_state L_delivered, F_delivery_state D_resumed] (pop_expected (thread_id l) s))))"
  proof (rule act_update_finish [OF d h])
    let ?s = "pop_expected (thread_id l) s"
    show c': "core (Some tid) (duty s t) {thread_id l} ?s" using c by simp
    show cur': "lease_at ?s (job_id l) = Some cur" using cur by (simp add: pop_expected_def)
    have u: "undelivered (Some tid) ?s (job_id l)"
      using deliveringD(2) [OF d] by (auto simp: undelivered_def tk_def pop_expected_def)
    show "core (Some tid) {} {thread_id l}
        (?s\<lparr>store := db_put now (job_id l) [F_state L_delivered, F_delivery_state D_resumed] (store ?s)\<rparr>)"
      by (rule core_put [OF c' cur' refl]) (use u E in \<open>auto simp: combo_def is_live_def live_state_def\<close>)
  qed (simp_all add: pop_expected_def is_live_def live_state_def)
  show ?thesis
    using r raised goal_from_result_exc failed delivered
    by (auto simp: activate_set_def split: sum.splits)
qed

section \<open>Deadlines, user controls, notifications\<close>

lemma expire_inv:
  assumes c: "core (Some tid) (duty s t) {} s" and t: "deadline_lease (task_pc t) = Some l"
    and fits: "task_fits (Some tid) s tid t" and tid: "tid < next_task s"
  shows "bridge_inv (settle tid b (expire_at_deadline now l s))"
proof -
  have pc: "delivery_lease (task_pc t) = None" "prepare_job (task_pc t) = None"
    using t by (cases "task_pc t"; simp)+
  have duty: "k = job_id l \<and> (\<exists>cur. lease_at s k = Some cur \<and> lease_state cur = L_armed)" if "k \<in> duty s t" for k
    using that pc t by (auto simp: duty_def serves_def is_live_def live_state_def)
  obtain cur where cur: "lease_at s (job_id l) = Some cur" using fits t by (auto simp: task_fits_def)
  show ?thesis
  proof (cases "lease_state cur = L_armed \<and> delivery_state cur = D_pending")
    case False
    have "combo cur" using c cur by (auto simp: core_def combos_def)
    then have "duty s t = {}" using cur False by (auto dest!: duty simp: combo_def)
    then have "core (Some tid) {} {} (pop_deadline l s)" using c by (intro core_pop_deadline) simp
    then show ?thesis using cur False settle_end(2) by (auto simp: expire_at_deadline_def)
  next
    case True
    let ?fs = "[F_state L_terminal, F_terminal_state ''bridge_deadline_expired'',
       F_delivery_state D_waiting_for_idle,
       F_error ''MCP server did not deliver a terminal event before the guarded deadline'']"
    define m where "m = set_fields ?fs cur"
    define s1 where "s1 = s\<lparr>store := db_put now (job_id l) ?fs (store s)\<rparr>"
    have early: "lease_state cur \<in> {L_preparing, L_armed}" using True by simp
    note T = core_terminalize [OF c cur early _ _ m_def _ _ s1_def, simplified m_def, simplified]
    have c1: "core (Some tid) {job_id l} {} s1"
      by (rule core_shrink [OF T(2)]) (use duty in auto)
    have "core (Some tid) {} {} (schedule_delivery m s1)"
      by (rule core_schedule_delivery [OF c1, where cur = m])
        (use T tid fits pc in \<open>auto simp: m_def s1_def task_fits_def\<close>)
    then have "core (Some tid) {} {} (pop_deadline l (schedule_delivery m s1))" by (rule core_pop_deadline)
    then have "bridge_inv (settle tid b (pop_deadline l (schedule_delivery m s1), Inr (Done v)))" for v
      by (rule settle_end(2))
    then show ?thesis using cur True T(1) by (simp add: expire_at_deadline_def m_def)
  qed
qed

lemma user_goal_control_inv:
  assumes c: "core (Some tid) {} {} s" and un: "unmapped tid s" "tid < next_task s"
  shows "bridge_inv (settle tid b (user_goal_control abandon_for_manual_change now thr s))"
proof -
  obtain s1 r1 where r: "abandon_for_manual_change now thr ''Explicit user Goal control'' s = (s1, r1)" by fastforce
  note A = abandon_inv [OF c r]
  have "bridge_inv (settle tid b (s1, Inr (Suspend (U_lock thr))))"
    by (rule settle_client [OF A(1)]) (use A(3,6) un in auto)
  then show ?thesis using r A(2) by (simp add: user_goal_control_def)
qed

lemma user_control_locked_inv:
  assumes c: "core (Some tid) {} {} s" and un: "unmapped tid s" "tid < next_task s" and free: "lock_free thr s"
  shows "bridge_inv (settle tid b (user_control_locked abandon_for_manual_change now tid thr s))"
proof -
  obtain s1 r1 where r: "abandon_for_manual_change now thr ''Explicit user Goal control'' (acquire thr tid s) = (s1, r1)"
    by fastforce
  note A = abandon_inv [OF core_acquire [OF c free] r]
  have "unmapped tid s1" using A(6) [of tid] un by (simp add: unmapped_def)
  then have "bridge_inv (settle tid b (send [] (User_op thr) s1, Inr (Suspend (U_op thr))))"
    by (intro settle_client [where E = "{}" and L = "{thr}"]) (use A(1,3,4) un in auto)
  then show ?thesis using r A(2) by (simp add: user_control_locked_def)
qed

lemma on_notification_inv:
  assumes inv: "bridge_inv s"
  shows "bridge_inv (fst (on_notification abandon_for_manual_change now meth params s))"
proof -
  have "bridge_inv (fst (abandon_for_manual_change now thr r s))" for thr r
    using abandon_inv(1) [of None "{}" "{}" s now thr r] inv by (metis bridge_inv_def prod.collapse)
  then show ?thesis
    using inv by (auto simp: on_notification_def goal_updated_def bridge_inv_def Let_def
        split: json.splits option.splits)
qed

section \<open>The step of the bridge\<close>

lemma delivering_begin:
  "bridge_inv s \<Longrightarrow> tasks s tid = Some t \<Longrightarrow> delivery_lease (task_pc t) = Some l \<Longrightarrow> delivering tid t l s"
  using core_begin [of s tid t] by (simp add: delivering_def)

lemma client_begin:
  assumes "bridge_inv s" "tasks s tid = Some t" "delivery_lease (task_pc t) = None" "deadline_lease (task_pc t) = None"
  shows "core (Some tid) (duty s t) (set_option (holds_lock (task_pc t))) s" "unmapped tid s" "tid < next_task s"
    and "prepare_job (task_pc t) = None \<Longrightarrow> duty s t = {}"
    and "holds_lock (task_pc t) = Some thr \<Longrightarrow> goal_controls s thr = Some (Some tid)"
  using core_begin [OF assms(1,2)] unmapped_client assms(3,4)
  by (auto simp: duty_def serves_def is_live_def live_state_def task_fits_def)

lemma rpc_result_exc [simp]: "rpc_result r \<noteq> Inl CancelledError"
  by (cases r) simp_all

lemma resume_reply_inv:
  assumes inv: "bridge_inv s" and t: "tasks s tid = Some t" "\<not> cancelled t"
    and r: "resume_reply now (task_pc t) (rpc_result rep) s = Some res"
  shows "bridge_inv (settle tid b res)"
proof -
  note D = delivering_begin [OF inv t(1)] and C = client_begin [OF inv t(1)]
  show ?thesis
  proof (cases "task_pc t")
    case (P_get job thr timeout grace)
    then show ?thesis using r C prepare_got_inv [of tid s] by auto
  next
    case (P_pause job thr u lease)
    then show ?thesis using r C prepare_paused_inv [of tid s t] by auto
  next
    case (P_confirm job thr u p lease)
    then show ?thesis using r C prepare_confirmed_inv [of tid s t] by auto
  next
    case (W_idle1 l)
    then show ?thesis using r idle_inv(1) [OF D [of l]] by auto
  next
    case (W_idle2 l)
    then show ?thesis using r idle_inv(2) [OF D [of l]] by auto
  next
    case (A_read l)
    then show ?thesis using r activate_read_inv [OF D [of l]] by auto
  next
    case (A_get l)
    then show ?thesis using r t(2) activate_get_inv [OF D [of l]] by auto
  next
    case (A_set l)
    then show ?thesis using r activate_set_inv [OF D [of l]] by auto
  next
    case (U_op thr)
    then have "core (Some tid) {} {} (release thr s)"
      using core_release [of tid "{}" "{thr}" s thr] C by auto
    then show ?thesis using r U_op settle_end by (cases "rpc_result rep") auto
  qed (use r in simp_all)
qed

lemma resume_run_inv:
  assumes inv: "bridge_inv s" and t: "tasks s tid = Some t" "\<not> cancelled t"
    and r: "resume_run now tid (task_pc t) s = Some res"
  shows "bridge_inv (settle tid b res)"
proof -
  note D = delivering_begin [OF inv t(1)] and C = client_begin [OF inv t(1)] and B = core_begin [OF inv t(1)]
  show ?thesis
  proof (cases "task_pc t")
    case (W_start l)
    then show ?thesis using r deliver_start_inv [OF D [of l]] by auto
  next
    case (W_event l)
    moreover have "core (Some tid) (duty s t) {} s" using B(1) W_event by simp
    ultimately show ?thesis using r wait_idle_inv [OF D [of l]] by (auto split: if_splits)
  next
    case (W_lock l)
    then show ?thesis using r activate_start_inv [OF D [of l]] by (auto split: if_splits)
  next
    case (X_start l)
    have "bridge_inv (settle tid b (s, Inr (Suspend (X_sleep l))))"
      by (rule settle_worker [where L = "{}" and ?s0.0 = s and t = t]) (use B t X_start in auto)
    then show ?thesis using r X_start by simp
  next
    case (X_sleep l)
    then show ?thesis using r B expire_inv [of tid s t l] by (auto split: if_splits)
  next
    case (U_lock thr)
    then show ?thesis using r C user_control_locked_inv [of tid s thr] by (auto split: if_splits)
  qed (use r in simp_all)
qed

lemma cancelled_duty:
  "cancelled t \<Longrightarrow> prepare_job (task_pc t) = None \<Longrightarrow> duty s t = {}"
  by (auto simp: duty_def serves_def is_live_def live_state_def)

lemma resume_cancel_inv:
  assumes inv: "bridge_inv s" and t: "tasks s tid = Some t" "cancelled t \<or> external_cancel (task_pc t)"
  shows "bridge_inv (settle tid b (resume_cancel now (task_pc t) s))"
proof -
  note C = client_begin [OF inv t(1)] and B = core_begin [OF inv t(1)]
  have unlocked: "core (Some tid) {} {} s" if "prepare_job (task_pc t) = None" "holds_lock (task_pc t) = None"
      "delivery_lease (task_pc t) = None \<and> deadline_lease (task_pc t) = None \<or> cancelled t"
    using B(1) C(4) cancelled_duty [of t s] that by auto
  have locked: "core (Some tid) {} {} (release thr s)" if "prepare_job (task_pc t) = None" "holds_lock (task_pc t) = Some thr"
      "delivery_lease (task_pc t) = None \<and> deadline_lease (task_pc t) = None \<or> cancelled t" for thr
    by (rule core_release [where L = "{thr}"])
      (use B C(4) cancelled_duty [of t s] that in \<open>auto simp: task_fits_def\<close>)
  have popped: "bridge_inv (settle tid b (pop_delivery l s', Inl e))"
      "bridge_inv (settle tid b (pop_deadline l s', Inl e))" if "core (Some tid) {} {} s'" for l s' e
    using that settle_end(1) core_pop_delivery core_pop_deadline by blast+
  have raised: "deliver_raise now l CancelledError s' = (pop_delivery l s', Inl CancelledError)" for l s'
    by (simp add: deliver_raise_def)
  show ?thesis
  proof (cases "task_pc t")
    case (P_pause job thr u lease)
    then show ?thesis using C prepare_failed_inv [of tid s t job] by auto
  next
    case (P_confirm job thr u p lease)
    then show ?thesis using C prepare_failed_inv [of tid s t job] by auto
  qed (use t(2) unlocked locked settle_end(1) popped in \<open>simp_all add: raised deliver_loop_def\<close>)
qed

section \<open>Start and restart\<close>

lemma others_schedule:
  assumes "undelivered x s k" "unwatched x s k" "job_id l \<noteq> k"
  shows "undelivered x (schedule_delivery l s) k" "unwatched x (schedule_delivery l s) k"
    "undelivered x (schedule_deadline l s) k" "unwatched x (schedule_deadline l s) k"
  using assms
  by (auto simp: undelivered_def unwatched_def schedule_delivery_def schedule_deadline_def spawn_def tk_def)

lemma schedule_store [simp]:
  "store (schedule_delivery l s) = store s" "store (schedule_deadline l s) = store s"
  by (simp_all add: schedule_delivery_def schedule_deadline_def spawn_def)

text \<open>A live lease about to be recovered: nothing works on it yet.\<close>

definition orphan :: "'a goal_bridge_scheme \<Rightarrow> wake_lease \<Rightarrow> bool" where
  "orphan s l \<longleftrightarrow> lease_at s (job_id l) = Some l \<and> is_live l
     \<and> undelivered None s (job_id l) \<and> unwatched None s (job_id l)"

lemma orphan_schedule:
  assumes "orphan s m" "job_id m \<noteq> job_id l"
  shows "orphan (schedule_delivery l s) m" "orphan (schedule_deadline l s) m"
  using assms others_schedule [of None s "job_id m" l] by (simp_all add: orphan_def)

lemma recover_lease_inv:
  assumes c: "core None (insert (job_id l) E) {} s" and l: "orphan s l"
  obtains s' where "recover_lease now l s = (s', Inr ())" "core None E {} s'"
    "\<And>m. orphan s m \<Longrightarrow> job_id m \<noteq> job_id l \<Longrightarrow> orphan s' m"
proof -
  have get: "lease_at s (job_id l) = Some l" and live: "is_live l"
    and u: "undelivered None s (job_id l)" "unwatched None s (job_id l)"
    using l by (simp_all add: orphan_def)
  have "combo l" using c get by (auto simp: core_def combos_def)
  then consider (armed) "lease_state l = L_armed" "delivery_state l = D_pending"
    | (terminal) "lease_state l = L_terminal" "delivery_state l = D_waiting_for_idle"
    | (fail) "delivery_state l = D_activating \<or> lease_state l = L_preparing \<and> delivery_state l = D_pending"
    using live by (auto simp: combo_def is_live_def live_state_def)
  then show thesis
  proof cases
    case armed
    have "core None E {} (schedule_deadline l s)"
      by (rule core_schedule_deadline [OF c refl get armed(1) u(2)]) simp
    moreover have "recover_lease now l s = (schedule_deadline l s, Inr ())"
      using armed by (simp add: recover_lease_def)
    ultimately show thesis using that orphan_schedule by blast
  next
    case terminal
    have "core None E {} (schedule_delivery l s)"
      by (rule core_schedule_delivery [OF c refl get terminal refl u(1)]) simp
    moreover have "recover_lease now l s = (schedule_delivery l s, Inr ())"
      using terminal by (simp add: recover_lease_def)
    ultimately show thesis using that orphan_schedule by blast
  next
    case fail
    define r where "r = (if delivery_state l = D_activating
        then ''bridge restarted during ambiguous Goal activation''
        else ''bridge restarted during wake lease preparation'')"
    let ?s = "s\<lparr>store := db_put now (job_id l) (failed_fields r) (store s)\<rparr>"
    have "st_update now (job_id l) (failed_fields r) s = (?s, Inr (set_fields (failed_fields r) l))"
      by (rule st_update_ok [OF c get]) (use live in \<open>auto simp: failed_fields_def\<close>)
    then have "recover_lease now l s = (?s, Inr ())"
      using fail by (auto simp: recover_lease_def r_def)
    moreover have "core None E {} ?s" by (rule core_fail [OF c get]) (use u in auto)
    moreover have "orphan ?s m" if "orphan s m" "job_id m \<noteq> job_id l" for m
      using that by (simp add: orphan_def db_get_put undelivered_def unwatched_def)
    ultimately show thesis using that by blast
  qed
qed

lemma recover_all_inv:
  assumes "core None (job_id ` set ls) {} s" "distinct (map job_id ls)" "\<forall>l \<in> set ls. orphan s l"
  shows "\<exists>s'. recover_all now ls s = (s', Inr ()) \<and> bridge_inv s'"
  using assms
proof (induction ls arbitrary: s)
  case Nil
  then show ?case by (simp add: bridge_inv_def)
next
  case (Cons l ls)
  obtain s' where r: "recover_lease now l s = (s', Inr ())" and c: "core None (job_id ` set ls) {} s'"
    and o: "\<And>m. orphan s m \<Longrightarrow> job_id m \<noteq> job_id l \<Longrightarrow> orphan s' m"
    using recover_lease_inv [of l "job_id ` set ls" s now] Cons.prems(1,3) by (auto simp: image_iff)
  have "orphan s' m" if "m \<in> set ls" for m
  proof (rule o)
    show "orphan s m" using that Cons.prems(3) by simp
    show "job_id m \<noteq> job_id l" using that Cons.prems(2) by (metis distinct.simps(2) image_eqI list.set_map list.simps(9))
  qed
  then show ?case using Cons.IH [OF c] Cons.prems(2) r by simp
qed

lemma fresh_orphans:
  assumes ok: "store_ok d" and combo: "\<And>j l. db_get d j = Some l \<Longrightarrow> combo l"
    and acts: "acts_ok (fresh_bridge d n hist out)"
  shows "core None (job_id ` set (db_pending d)) {} (fresh_bridge d n hist out)"
    and "distinct (map job_id (db_pending d))"
    and "\<forall>l \<in> set (db_pending d). orphan (fresh_bridge d n hist out) l"
proof -
  let ?s = "fresh_bridge d n hist out"
  have tk: "\<not> tk x ?s tid t" for x tid t by (simp add: tk_def fresh_bridge_def)
  have "served None (job_id ` set (db_pending d)) ?s"
    unfolding served_def
  proof (intro allI impI)
    fix j l
    assume j: "lease_at ?s j = Some l" "j \<notin> job_id ` set (db_pending d)" "is_live l"
    then have "db_get d j = Some l" by (simp add: fresh_bridge_def)
    then have "l \<in> set (db_pending d)" "job_id l = j"
      using set_db_pending [OF ok] db_get_key j(3) by auto
    then show "\<exists>tid t. tk None ?s tid t \<and> serves t j l" using j(2) by blast
  qed
  then show "core None (job_id ` set (db_pending d)) {} ?s"
    using ok combo acts tk
    by (simp add: core_def ids_ok_def deliv_ok_def deliv_uniq_def maps_ok_def dl_ok_def combos_def locks_ok_def)
      (simp add: fresh_bridge_def)
  show "distinct (map job_id (db_pending d))" using distinct_db_pending [OF ok] .
  show "\<forall>l \<in> set (db_pending d). orphan ?s l"
    using set_db_pending [OF ok] tk by (simp add: orphan_def undelivered_def unwatched_def) (simp add: fresh_bridge_def)
qed

text \<open>A process that starts on a database left by a bridge, at any moment, comes up.\<close>

lemma start_bridge_inv:
  assumes "store_ok d" "\<And>j l. db_get d j = Some l \<Longrightarrow> combo l" "acts_ok (fresh_bridge d n hist out)"
  shows "\<exists>s. start_bridge now d n hist out = (s, Inr ()) \<and> bridge_inv s"
  unfolding start_bridge_def by (rule recover_all_inv [OF fresh_orphans [OF assms]])

lemma restart_orphans:
  assumes "bridge_inv s"
  shows "core None (job_id ` set (db_pending (store s))) {} (fresh_bridge (store s) n (sent s) out)"
    and "\<forall>l \<in> set (db_pending (store s)). orphan (fresh_bridge (store s) n (sent s) out) l"
  using fresh_orphans [of "store s" n "sent s" out] assms
  by (auto simp: bridge_inv_def core_def combos_def acts_ok_def activations_def fresh_bridge_def)

lemma boot_inv: "\<exists>s. start_bridge now empty_db 0 [] [] = (s, Inr ()) \<and> bridge_inv s"
  by (rule start_bridge_inv) (simp_all add: db_get_empty acts_ok_def activations_def fresh_bridge_def)

lemma restart_inv:
  "bridge_inv s \<Longrightarrow> \<exists>s'. start_bridge now (store s) n (sent s) out = (s', Inr ()) \<and> bridge_inv s'"
  by (rule start_bridge_inv)
    (auto simp: bridge_inv_def core_def combos_def acts_ok_def activations_def fresh_bridge_def)

lemma bstep_inv:
  assumes inv: "bridge_inv s" and st: "bstep ev s = Some s'"
  shows "bridge_inv s'"
proof -
  have new: "core (Some (next_task s)) {} {} (new_task s)" "unmapped (next_task s) (new_task s)"
      "next_task s < next_task (new_task s)"
    using core_next_task [OF core_fresh_task [of "{}" "{}" s]] inv
    by (auto simp: bridge_inv_def new_task_def unmapped_def core_def ids_ok_def)
  show ?thesis
  proof (cases ev)
    case (Ev_request now req)
    then show ?thesis using st handle_request_inv [OF new] by auto
  next
    case (Ev_reply now tid r)
    then show ?thesis using st resume_reply_inv [OF inv] by (auto split: option.splits if_splits)
  next
    case (Ev_run now tid)
    then show ?thesis using st resume_run_inv [OF inv] by (auto split: option.splits if_splits)
  next
    case (Ev_cancel now tid)
    then show ?thesis using st resume_cancel_inv [OF inv] by (auto split: option.splits if_splits)
  next
    case (Ev_notify now meth params)
    then show ?thesis using st on_notification_inv [OF inv] by auto
  next
    case (Ev_user_control now thr)
    then show ?thesis using st user_goal_control_inv [OF new] by auto
  next
    case (Ev_restart now)
    then show ?thesis using st restart_inv [OF inv, of now "next_task s" "responses s"] by auto
  qed
qed

lemma bridge_reach_inv: "bridge_reach s \<Longrightarrow> bridge_inv s"
proof (induction rule: bridge_reach.induct)
  case (boot now s)
  then show ?case using boot_inv [of now] by auto
next
  case (step s ev s')
  then show ?case using bstep_inv by blast
qed

end
