(* ===== verification/Goal_Bridge_Props.thy ===== *)
theory Goal_Bridge_Props
  imports Goal_Bridge_Safe
begin

text \<open>
  What the invariant gives about the Goal bridge: the properties of its reachable states
  and of its steps, with runs of the bridge from an empty database as their witnesses.
\<close>

section \<open>Leases only move forward\<close>

text \<open>No step forgets a lease, moves it to another thread, or touches the outcome of one
  that has left the live states.\<close>

definition fwd :: "bridge_db \<Rightarrow> bridge_db \<Rightarrow> bool" where
  "fwd d d' \<longleftrightarrow> (\<forall>j l. db_get d j = Some l \<longrightarrow>
     (\<exists>l'. db_get d' j = Some l' \<and> thread_id l' = thread_id l \<and>
       (\<not> is_live l \<longrightarrow> lease_state l' = lease_state l \<and> delivery_state l' = delivery_state l)))"

lemma fwd_refl [simp]: "fwd d d"
  by (simp add: fwd_def)

lemma fwd_trans: "fwd d e \<Longrightarrow> fwd e f \<Longrightarrow> fwd d f"
  unfolding fwd_def is_live_def by metis

lemma fwd_update:
  assumes "\<And>l. db_get (store s) j = Some l \<Longrightarrow> is_live l \<or>
    lease_state (set_fields fs l) = lease_state l \<and> delivery_state (set_fields fs l) = delivery_state l"
  shows "fwd (store s) (store (fst (st_update now j fs s)))"
proof -
  have "fwd (store s) (db_put now j fs (store s))"
    using assms by (auto simp: fwd_def db_get_put)
  then show ?thesis
    by (auto simp: st_update_def db_update_def split: option.splits)
qed

lemma fwd_create: "fwd (store s) (store (fst (st_create now n s)))"
proof -
  have "fwd (store s) (db_insert now n (store s))" if "constraints_ok (rows (db_insert now n (store s)))"
  proof -
    have "db_get (store s) (nl_job_id n) = None"
      using that by (auto simp: constraints_ok_def db_insert_def db_get_None)
    then show ?thesis by (auto simp: fwd_def db_get_insert)
  qed
  then show ?thesis
    by (auto simp: st_create_def create_lease_def split: option.splits)
qed

lemma store_and_then:
  "fwd d (store (fst m)) \<Longrightarrow> (\<And>a s. m = (s, Inr a) \<Longrightarrow> fwd (store s) (store (fst (f a s)))) \<Longrightarrow>
     fwd d (store (fst (and_then m f)))"
  by (cases m) (auto simp: and_then_def split: sum.splits intro: fwd_trans)

lemma store_settle [simp]: "store (settle tid a res) = store (fst res)"
  by (auto simp: settle_def split: prod.splits sum.splits coro.splits)

lemma store_frame [simp]:
  "store (pop_delivery l s) = store s" "store (pop_deadline l s) = store s"
  "store (pop_expected thr s) = store s" "store (set_event thr s) = store s"
  "store (drop_delivery j s) = store s" "store (drop_deadline j s) = store s"
  by (simp_all add: pop_delivery_def pop_deadline_def pop_expected_def set_event_def drop_frame)

lemma st_update_cases:
  "(case st_update now j fs s of (s', Inl e) \<Rightarrow> f s' e | (s', Inr l) \<Rightarrow> g s' l)
     = (let r = st_update now j fs s in case snd r of Inl e \<Rightarrow> f (fst r) e | Inr l \<Rightarrow> g (fst r) l)"
  by (cases "st_update now j fs s") (simp add: Let_def split: sum.split)

lemma abandon_fwd:
  assumes "store_ok (store s)"
  shows "fwd (store s) (store (fst (abandon_for_manual_change now thr r s)))"
proof (cases "db_live_for_thread (store s) thr")
  case (Some l)
  then have "db_get (store s) (job_id l) = Some l" "is_live l"
    using db_live_for_thread_iff [OF assms] by auto
  then show ?thesis
    using Some by (auto simp: abandon_for_manual_change_def intro!: store_and_then fwd_update)
qed (simp add: abandon_for_manual_change_def)

lemma live_states: "lease_state l \<in> {L_preparing, L_armed, L_terminal} \<Longrightarrow> is_live l"
  by (simp add: is_live_def live_state_def)

lemma prepare_failed_fwd: "fwd (store s) (store (fst (prepare_failed now job thr e s)))"
proof (cases "db_get (store s) job")
  case (Some cur)
  let ?q = "s\<lparr>expected_goal_status := (expected_goal_status s)(thr := None)\<rparr>"
  have "fwd (store ?q) (store (fst (st_update now job (abandon_fields x) ?q)))" if "lease_state cur = L_preparing" for x
    by (rule fwd_update) (use Some that live_states in auto)
  then show ?thesis
    using Some by (auto simp: prepare_failed_def Let_def split: prod.splits intro!: store_and_then)
      (metis fst_conv fwd_refl store_and_then)
qed (simp add: prepare_failed_def)

lemma prepare_arm_fwd:
  assumes "db_get (store s) job = Some cur" "lease_state cur = L_preparing"
  shows "fwd (store s) (store (fst (prepare_arm now job thr p cur s)))"
proof -
  have "fwd (store s) (store (fst (st_update now job fs s)))" for fs
    by (rule fwd_update) (use assms live_states in auto)
  then show ?thesis
    by (auto simp: prepare_arm_def st_update_cases Let_def split: sum.splits
        intro!: fwd_trans [OF _ prepare_failed_fwd])
qed

lemma request_fwd:
  assumes ok: "store_ok (store s)"
  shows "fwd (store s) (store (fst (handle_request now req s)))"
proof -
  have start: "fwd (store s) (store (fst (prepare_start job r s)))" for job r
    by (auto simp: prepare_start_def Let_def split: sum.splits option.splits)
  have terminal: "fwd (store s) (store (fst (terminal_request now job r s)))" for job r
    by (auto simp: terminal_request_def live_states split: sum.splits option.splits json.splits
        intro!: store_and_then fwd_update)
  have abort: "fwd (store s) (store (fst (abort_request abandon_for_manual_change now job r s)))" for job r
    using abandon_fwd [OF ok]
    by (auto simp: abort_request_def live_states split: sum.splits option.splits
        intro!: store_and_then fwd_update)
  show ?thesis
    using start terminal abort
    by (auto simp: handle_request_def dispatch_def Let_def split: conn_input.splits sum.splits)
qed

lemma deliver_raise_fwd:
  assumes c: "combos s" and cur: "lease_at s (job_id l) = Some cur" "lease_state cur \<notin> {L_preparing, L_armed}"
  shows "fwd (store s) (store (fst (deliver_raise now l e s)))"
proof -
  have "combo cur" using c cur(1) by (simp add: combos_def)
  then have "fwd (store s) (store (fst (st_update now (job_id l) (failed_fields r) s)))"
    if "delivery_state cur \<notin> {D_resumed, D_abandoned}" for r
    using that cur
    by (intro fwd_update) (cases "lease_state cur";
        auto simp: failed_fields_def is_live_def live_state_def combo_def)
  then show ?thesis
    using cur by (auto simp: deliver_raise_def st_update_cases Let_def split: sum.splits)
qed

text \<open>The segments of a delivery, from what is known of its task.\<close>

lemma delivery_fwd:
  assumes d: "delivering tid t l s" and e: "s1 = s \<or> s1 = release (thread_id l) s"
  shows "fwd (store s) (store (fst (deliver_raise now l e s1)))"
proof -
  have "combos s" using d by (simp add: delivering_def core_def)
  then show ?thesis
    using deliveringD(1) [OF d] deliver_raise_fwd [of s1 l _ now e] e by (auto simp: combos_def)
qed

lemma idle_fwd:
  assumes d: "delivering tid t l s"
  shows "fwd (store s) (store (fst (idle_first now l r s)))" "fwd (store s) (store (fst (idle_second now l r s)))"
    "fwd (store s) (store (fst (deliver_start l s)))" "fwd (store s) (store (fst (wait_idle l s)))"
  using delivery_fwd [OF d disjI1 [OF refl]]
  by (auto simp: idle_first_def idle_second_def deliver_start_def wait_idle_def Let_def
      split: sum.splits option.splits)

lemma deliver_loop_fwd:
  assumes d: "delivering tid t l s" and a: "fwd (store s) (store (fst act))"
    and e: "\<And>e s1. act = (s1, Inl e) \<Longrightarrow> s1 = s"
  shows "fwd (store s) (store (fst (deliver_loop now l act)))"
proof -
  obtain s1 r where act: "act = (s1, r)" by fastforce
  show ?thesis
  proof (cases r)
    case (Inl x)
    then show ?thesis using act e delivery_fwd [OF d disjI2 [OF refl]] by (auto simp: deliver_loop_def)
  next
    case (Inr x)
    then show ?thesis
      using act a by (auto simp: deliver_loop_def wait_idle_def Let_def split: act.splits bool.splits)
  qed
qed

lemma act_update_fwd:
  assumes c: "core x E L s" and cur: "lease_at s (job_id l) = Some cur" "is_live cur"
    and fs: "fs \<noteq> []" "list_all field_allowed fs"
  shows "fwd (store s) (store (fst (act_update now l fs s)))" "\<exists>v. snd (act_update now l fs s) = Inr v"
proof -
  have "fwd (store s) (store (fst (st_update now (job_id l) fs s)))"
    by (rule fwd_update) (use cur in auto)
  then show "fwd (store s) (store (fst (act_update now l fs s)))" "\<exists>v. snd (act_update now l fs s) = Inr v"
    using st_update_ok [OF c cur(1) fs] cur(2) by (simp_all add: act_update_def)
qed

lemma activate_fwd:
  assumes d: "delivering tid t l s"
  shows "fwd (store s) (store (fst (deliver_loop now l (activate_read l r s))))"
    and "fwd (store s) (store (fst (deliver_loop now l (activate_get now l r s))))"
    and "is_A_set (task_pc t) \<Longrightarrow> fwd (store s) (store (fst (deliver_loop now l (activate_set now l r s))))"
proof -
  have c: "core (Some tid) (duty s t) (set_option (holds_lock (task_pc t))) s"
    using d by (simp add: delivering_def)
  then have cp: "core (Some tid) (duty s t) (set_option (holds_lock (task_pc t))) (pop_expected (thread_id l) s)"
    by simp
  obtain cur where cur: "lease_at s (job_id l) = Some cur"
    and a: "is_A_set (task_pc t) \<longrightarrow> lease_state cur = L_terminal" using deliveringD(1) [OF d] by blast
  have fields: "abandon_fields x \<noteq> []" "list_all field_allowed (abandon_fields x)"
      "failed_fields x \<noteq> []" "list_all field_allowed (failed_fields x)" for x
    by (simp_all add: abandon_fields_def failed_fields_def)
  have eqs: "st_update now (job_id l) (abandon_fields x) s = (s\<lparr>store := db_put now (job_id l) (abandon_fields x) (store s)\<rparr>,
        Inr (set_fields (abandon_fields x) cur))"
      "st_update now (job_id l) [F_delivery_state D_activating] s =
        (s\<lparr>store := db_put now (job_id l) [F_delivery_state D_activating] (store s)\<rparr>,
         Inr (set_fields [F_delivery_state D_activating] cur))" if "is_live cur" for x
    using st_update_ok [OF c cur] fields that by auto
  note upd = act_update_fwd [OF c cur] act_update_fwd [OF cp, of l cur, simplified]
  show "fwd (store s) (store (fst (deliver_loop now l (activate_read l r s))))"
    by (rule deliver_loop_fwd [OF d]) (auto simp: activate_read_def split: sum.splits option.splits if_splits)
  show "fwd (store s) (store (fst (deliver_loop now l (activate_get now l r s))))"
  proof (rule deliver_loop_fwd [OF d])
    have send: "fwd (store s) (store (fst (st_update now (job_id l) [F_delivery_state D_activating] s)))"
      "\<exists>v. snd (st_update now (job_id l) [F_delivery_state D_activating] s) = Inr v" if "is_live cur"
      using that cur fwd_update [of s "job_id l" "[F_delivery_state D_activating]" now] st_update_ok [OF c cur]
      by simp_all
    then show "fwd (store s) (store (fst (activate_get now l r s)))"
      using cur upd(1) fields
      by (auto simp: activate_get_def live_states split: sum.splits intro!: store_and_then)
    show "s1 = s" if "activate_get now l r s = (s1, Inl e)" for s1 e
      using that cur eqs by (auto simp: activate_get_def live_states act_update_def split: sum.splits if_splits)
  qed
  show "fwd (store s) (store (fst (deliver_loop now l (activate_set now l r s))))" if "is_A_set (task_pc t)"
  proof (rule deliver_loop_fwd [OF d])
    have live: "is_live cur" using a that by (simp add: live_states)
    show "fwd (store s) (store (fst (activate_set now l r s)))"
      using cur upd(1,3) fields live by (auto simp: activate_set_def split: sum.splits)
    have "act_update now l fs s \<noteq> (s1, Inl e)" "act_update now l fs (pop_expected (thread_id l) s) \<noteq> (s1, Inl e)"
      if "fs \<noteq> []" "list_all field_allowed fs" for fs s1 e
      using upd(2) [OF live that, of now] upd(4) [OF cur live that, of now] by auto
    then have no: "act_update now l (failed_fields x) s \<noteq> (s1, Inl e)"
        "act_update now l (failed_fields x) (pop_expected (thread_id l) s) \<noteq> (s1, Inl e)"
        "act_update now l [F_state L_delivered, F_delivery_state D_resumed] (pop_expected (thread_id l) s) \<noteq> (s1, Inl e)"
      for x s1 e using fields(3,4) by simp_all
    show "s1 = s" if "activate_set now l r s = (s1, Inl e)" for s1 e
      using that by (auto simp: activate_set_def no split: sum.splits if_splits)
  qed
qed

lemma expire_fwd: "fwd (store s) (store (fst (expire_at_deadline now l s)))"
proof -
  have "fwd (store s) (store (fst (st_update now (job_id l) fs s)))"
    if "db_get (store s) (job_id l) = Some cur" "lease_state cur = L_armed" for fs cur
    by (rule fwd_update) (use that live_states in auto)
  then show ?thesis
    by (auto simp: expire_at_deadline_def st_update_cases Let_def split: option.splits sum.splits)
qed

lemma recover_lease_fwd: "orphan s l \<Longrightarrow> fwd (store s) (store (fst (recover_lease now l s)))"
  by (auto simp: recover_lease_def orphan_def Let_def split: delivery_state.splits lease_state.splits
      intro!: store_and_then fwd_update)

lemma recover_all_fwd:
  assumes "core None (job_id ` set ls) {} s" "distinct (map job_id ls)" "\<forall>l \<in> set ls. orphan s l"
  shows "fwd (store s) (store (fst (recover_all now ls s)))"
  using assms
proof (induction ls arbitrary: s)
  case (Cons l ls)
  obtain s' where r: "recover_lease now l s = (s', Inr ())" and c: "core None (job_id ` set ls) {} s'"
    and o: "\<And>m. orphan s m \<Longrightarrow> job_id m \<noteq> job_id l \<Longrightarrow> orphan s' m"
    using recover_lease_inv [of l "job_id ` set ls" s now] Cons.prems(1,3) by (auto simp: image_iff)
  have "orphan s' m" if "m \<in> set ls" for m
  proof (rule o)
    show "orphan s m" using that Cons.prems(3) by simp
    show "job_id m \<noteq> job_id l" using that Cons.prems(2) by (metis distinct.simps(2) image_eqI list.set_map list.simps(9))
  qed
  then have "fwd (store s') (store (fst (recover_all now ls s')))" using Cons.IH [OF c] Cons.prems(2) by simp
  moreover have "fwd (store s) (store s')" using recover_lease_fwd [of s l now] r Cons.prems(3) by simp
  ultimately show ?case using r fwd_trans by auto
qed simp

lemma notification_fwd:
  "store_ok (store s) \<Longrightarrow> fwd (store s) (store (fst (on_notification abandon_for_manual_change now meth params s)))"
  using abandon_fwd [of s now]
  by (auto simp: on_notification_def goal_updated_def Let_def split: json.splits option.splits)

lemma user_fwd:
  assumes ok: "store_ok (store s)"
  shows "fwd (store s) (store (fst (user_goal_control abandon_for_manual_change now thr s)))"
    "fwd (store s) (store (fst (user_control_locked abandon_for_manual_change now tid thr s)))"
  using abandon_fwd [OF ok] abandon_fwd [of "acquire thr tid s"] ok
  by (auto simp: user_goal_control_def user_control_locked_def intro!: store_and_then split: prod.splits sum.splits)
    (metis fst_conv)+

lemma bstep_fwd:
  assumes inv: "bridge_inv s" and st: "bstep ev s = Some s'"
  shows "fwd (store s) (store s')"
proof -
  have ok: "store_ok (store s)" "store_ok (store (new_task s))" and same: "store (new_task s) = store s"
    using inv by (auto simp: bridge_inv_def core_def new_task_def)
  show ?thesis
  proof (cases ev)
    case (Ev_request now req)
    then show ?thesis using st request_fwd [OF ok(2)] same by auto
  next
    case (Ev_reply now tid r)
    then obtain t res where t: "tasks s tid = Some t" and res: "resume_reply now (task_pc t) (rpc_result r) s = Some res"
      and s': "store s' = store (fst res)" using st by (auto split: option.splits if_splits)
    note D = delivering_begin [OF inv t]
    have got: "fwd (store s) (store (fst (prepare_got now j thr i g rep s)))" for j thr i g rep
      by (auto simp: prepare_got_def Let_def split: sum.splits intro!: store_and_then fwd_create)
    have paused: "fwd (store s) (store (fst (prepare_paused now j thr u l rep s)))" for j thr u l rep
      using prepare_failed_fwd by (auto simp: prepare_paused_def Let_def split: sum.splits)
    have confirmed: "fwd (store s) (store (fst (prepare_confirmed now j thr u p l rep s)))" for j thr u p l rep
      using prepare_failed_fwd prepare_arm_fwd
      by (auto simp: prepare_confirmed_def Let_def split: sum.splits option.splits)
    show ?thesis
      using res s' got paused confirmed idle_fwd(1,2) [OF D] activate_fwd [OF D]
      by (cases "task_pc t") auto
  next
    case (Ev_run now tid)
    then obtain t res where t: "tasks s tid = Some t" and res: "resume_run now tid (task_pc t) s = Some res"
      and s': "store s' = store (fst res)" using st by (auto split: option.splits if_splits)
    note D = delivering_begin [OF inv t]
    show ?thesis
      using res s' idle_fwd(3,4) [OF D] user_fwd(2) [OF ok(1)] expire_fwd
      by (cases "task_pc t") (auto simp: activate_start_def split: if_splits)
  next
    case (Ev_cancel now tid)
    then obtain t where t: "tasks s tid = Some t" and s': "store s' = store (fst (resume_cancel now (task_pc t) s))"
      using st by (auto split: option.splits if_splits)
    show ?thesis
      using s' prepare_failed_fwd by (cases "task_pc t") (auto simp: deliver_raise_def deliver_loop_def)
  next
    case (Ev_notify now meth params)
    then show ?thesis using st notification_fwd [OF ok(1)] by auto
  next
    case (Ev_user_control now thr)
    then show ?thesis using st user_fwd(1) [OF ok(2)] same by auto
  next
    case (Ev_restart now)
    have "fwd (store (fresh_bridge (store s) (next_task s) (sent s) (responses s)))
        (store (fst (start_bridge now (store s) (next_task s) (sent s) (responses s))))"
      unfolding start_bridge_def
      by (rule recover_all_fwd [OF restart_orphans(1) [OF inv] distinct_db_pending [OF ok(1)] restart_orphans(2) [OF inv]])
    then show ?thesis using st Ev_restart by (auto simp: fresh_bridge_def split: prod.splits sum.splits)
  qed
qed

section \<open>Who sends an activation\<close>

text \<open>The activations sent so far; every segment but one leaves them as they are.\<close>

definition acts_of :: "goal_bridge \<Rightarrow> (string \<times> rpc) list" where
  "acts_of s = filter (\<lambda>(j, r). is_activation r) (sent s)"

lemma acts_of_frame [simp]:
  "acts_of (s\<lparr>store := d\<rparr>) = acts_of s" "acts_of (s\<lparr>pause_notifications := p\<rparr>) = acts_of s"
  "acts_of (s\<lparr>expected_goal_status := q\<rparr>) = acts_of s" "acts_of (s\<lparr>thread_events := e\<rparr>) = acts_of s"
  "acts_of (release thr s) = acts_of s" "acts_of (acquire thr tid s) = acts_of s"
  "acts_of (pop_delivery l s) = acts_of s" "acts_of (pop_deadline l s) = acts_of s"
  "acts_of (pop_expected thr s) = acts_of s" "acts_of (set_event thr s) = acts_of s"
  "acts_of (drop_delivery j s) = acts_of s" "acts_of (drop_deadline j s) = acts_of s"
  "acts_of (schedule_delivery l s) = acts_of s" "acts_of (schedule_deadline l s) = acts_of s"
  "acts_of (new_task s) = acts_of s"
  by (simp_all add: acts_of_def release_def acquire_def pop_delivery_def pop_deadline_def pop_expected_def
      set_event_def drop_frame schedule_delivery_def schedule_deadline_def spawn_def new_task_def)

lemma acts_of_send [simp]: "\<not> is_activation r \<Longrightarrow> acts_of (send j r s) = acts_of s"
  by (simp add: acts_of_def send_def)

lemma acts_of_settle [simp]: "acts_of (settle tid a res) = acts_of (fst res)"
  by (auto simp: acts_of_def settle_def split: prod.splits sum.splits coro.splits)

lemma acts_of_update [simp]: "acts_of (fst (st_update now j fs s)) = acts_of s"
  "acts_of (fst (st_create now n s)) = acts_of s"
  by (simp_all add: st_update_def st_create_def split: prod.splits)

lemma acts_of_and_then:
  "(\<And>a s. acts_of (fst (f a s)) = acts_of s) \<Longrightarrow> acts_of (fst (and_then m f)) = acts_of (fst m)"
  by (cases m) (auto simp: and_then_def split: sum.splits)

lemma acts_of_abandon [simp]: "acts_of (fst (abandon_for_manual_change now thr r s)) = acts_of s"
  by (simp add: abandon_for_manual_change_def acts_of_and_then split: option.splits)

lemma acts_of_prepare_failed [simp]: "acts_of (fst (prepare_failed now job thr e s)) = acts_of s"
proof -
  let ?q = "s\<lparr>expected_goal_status := (expected_goal_status s)(thr := None)\<rparr>"
  have "acts_of (fst (and_then (st_update now job fs ?q) (\<lambda>_ s. (s, Inr ())))) = acts_of s" for fs
    by (simp add: acts_of_and_then)
  then show ?thesis by (simp add: prepare_failed_def Let_def split: option.splits prod.splits) (metis fst_conv)
qed

lemma acts_of_request [simp]: "acts_of (fst (handle_request now req s)) = acts_of s"
proof -
  have "acts_of (fst (prepare_start job r s)) = acts_of s"
      "acts_of (fst (terminal_request now job r s)) = acts_of s"
      "acts_of (fst (abort_request abandon_for_manual_change now job r s)) = acts_of s" for job r
    by (simp_all add: prepare_start_def terminal_request_def abort_request_def Let_def acts_of_and_then
        split: sum.splits option.splits json.splits)
  then show ?thesis
    by (simp add: handle_request_def dispatch_def Let_def split: conn_input.splits sum.splits)
qed

lemma acts_of_prepare [simp]:
  "acts_of (fst (prepare_got now job thr i g r s)) = acts_of s"
  "acts_of (fst (prepare_paused now job thr u l r s)) = acts_of s"
  "acts_of (fst (prepare_confirmed now job thr u p l r s)) = acts_of s"
proof -
  show "acts_of (fst (prepare_got now job thr i g r s)) = acts_of s"
    by (simp add: prepare_got_def Let_def acts_of_and_then split: sum.splits)
  show "acts_of (fst (prepare_paused now job thr u l r s)) = acts_of s"
    by (simp add: prepare_paused_def Let_def split: sum.splits)
  have "acts_of (fst (prepare_arm now job thr p cur s)) = acts_of s" for cur
    by (simp add: prepare_arm_def st_update_cases Let_def split: sum.splits)
  then show "acts_of (fst (prepare_confirmed now job thr u p l r s)) = acts_of s"
    by (simp add: prepare_confirmed_def Let_def split: sum.splits option.splits)
qed

lemma acts_of_deliver [simp]:
  "acts_of (fst (deliver_raise now l e s)) = acts_of s" "acts_of (fst (wait_idle l s)) = acts_of s"
  "acts_of (fst (deliver_start l s)) = acts_of s" "acts_of (fst (activate_start tid l s)) = acts_of s"
  "acts_of (fst (expire_at_deadline now l s)) = acts_of s"
  by (simp_all add: deliver_raise_def wait_idle_def deliver_start_def activate_start_def expire_at_deadline_def
      st_update_cases Let_def split: option.splits sum.splits)

lemma acts_of_idle [simp]:
  "acts_of (fst (idle_first now l r s)) = acts_of s" "acts_of (fst (idle_second now l r s)) = acts_of s"
  by (simp_all add: idle_first_def idle_second_def split: sum.splits)

lemma acts_of_loop: "acts_of (fst (deliver_loop now l act)) = acts_of (fst act)"
  by (cases act) (auto simp: deliver_loop_def split: sum.splits act.splits bool.splits)

lemma acts_of_activate [simp]:
  "acts_of (fst (activate_read l r s)) = acts_of s" "acts_of (fst (activate_set now l r s)) = acts_of s"
  by (simp_all add: activate_read_def activate_set_def act_update_def acts_of_and_then split: sum.splits option.splits)

lemma acts_of_user [simp]:
  "acts_of (fst (user_goal_control abandon_for_manual_change now thr s)) = acts_of s"
  "acts_of (fst (user_control_locked abandon_for_manual_change now tid thr s)) = acts_of s"
  "acts_of (fst (on_notification abandon_for_manual_change now meth params s)) = acts_of s"
proof -
  show "acts_of (fst (user_goal_control abandon_for_manual_change now thr s)) = acts_of s"
    by (simp add: user_goal_control_def acts_of_and_then)
  show "acts_of (fst (user_control_locked abandon_for_manual_change now tid thr s)) = acts_of s"
  proof (cases "abandon_for_manual_change now thr ''Explicit user Goal control'' (acquire thr tid s)")
    case (Pair s1 r)
    then have "acts_of s1 = acts_of s"
      using acts_of_abandon [of now thr "''Explicit user Goal control''" "acquire thr tid s"]
      by (simp del: acts_of_abandon)
    then show ?thesis using Pair by (auto simp: user_control_locked_def split: sum.splits)
  qed
  show "acts_of (fst (on_notification abandon_for_manual_change now meth params s)) = acts_of s"
    by (simp add: on_notification_def goal_updated_def Let_def split: json.splits option.splits)
qed

lemma acts_of_recover [simp]: "acts_of (fst (recover_all now ls s)) = acts_of s"
proof (induction ls arbitrary: s)
  case (Cons l ls)
  have "acts_of (fst (recover_lease now l s)) = acts_of s"
    by (simp add: recover_lease_def Let_def acts_of_and_then split: delivery_state.splits lease_state.splits)
  then show ?case using Cons.IH by (simp add: acts_of_and_then)
qed simp

text \<open>The one segment that sends an activation, and what it has checked by then.\<close>

lemma activate_get_sends:
  assumes "acts_of (fst (activate_get now l r s)) \<noteq> acts_of s"
  obtains res goal cur where "r = Inr res" "goal_from_result res = Inr goal"
    "lease_at s (job_id l) = Some cur" "lease_state cur = L_terminal" "delivery_state cur = D_waiting_for_idle"
    "same_goal l goal" "jget ''status'' goal = JStr ''paused''"
    "py_eq (jget ''updatedAt'' goal) (JInt (goal_updated_at cur))"
    "acts_of (fst (activate_get now l r s)) = acts_of s @ [(job_id l, Goal_set (thread_id l) ''active'')]"
proof -
  have quiet: "acts_of (fst (act_update now l fs s)) = acts_of s" for fs
    by (simp add: act_update_def acts_of_and_then)
  have acts: "acts_of (fst (st_update now j fs s)) = acts_of s" for j fs by simp
  obtain s1 rr where u: "st_update now (job_id l) [F_delivery_state D_activating] s = (s1, rr)" by fastforce
  have s1: "acts_of s1 = acts_of s" using acts [of "job_id l" "[F_delivery_state D_activating]"] u by simp
  then have sent: "acts_of (send (job_id l) (Goal_set (thread_id l) ''active'') (s1\<lparr>expected_goal_status := q\<rparr>))
      = acts_of s @ [(job_id l, Goal_set (thread_id l) ''active'')]" for q
    by (simp add: acts_of_def send_def)
  show thesis
    using assms quiet that sent s1 u
    by (auto simp: activate_get_def split: sum.splits option.splits if_splits)
      (cases rr; auto)+
qed

lemma bstep_acts:
  assumes inv: "bridge_inv s" and st: "bstep ev s = Some s'" and ne: "acts_of s' \<noteq> acts_of s"
  obtains now tid r t l where "ev = Ev_reply now tid r" "tasks s tid = Some t" "task_pc t = A_get l" "\<not> cancelled t"
    "s' = settle tid False (deliver_loop now l (activate_get now l (rpc_result r) s))"
    "acts_of (fst (activate_get now l (rpc_result r) s)) \<noteq> acts_of s"
proof (cases ev)
  case (Ev_reply now tid r)
  then obtain t res where t: "tasks s tid = Some t" "\<not> cancelled t"
    and res: "resume_reply now (task_pc t) (rpc_result r) s = Some res"
    and s': "s' = settle tid (answers_client (task_pc t)) res" using st by (auto split: option.splits if_splits)
  show thesis
  proof (cases "task_pc t")
    case (A_get l)
    then show thesis using that [OF Ev_reply t(1)] t res s' ne by (auto simp: acts_of_loop)
  qed (use res s' ne in \<open>auto simp: acts_of_loop\<close>)
next
  case (Ev_run now tid)
  then obtain t res where "tasks s tid = Some t" "resume_run now tid (task_pc t) s = Some res"
    "acts_of s' = acts_of (fst res)" using st by (auto split: option.splits if_splits)
  then show thesis using ne by (cases "task_pc t") (auto split: if_splits)
next
  case (Ev_cancel now tid)
  then obtain t where "tasks s tid = Some t" "acts_of s' = acts_of (fst (resume_cancel now (task_pc t) s))"
    using st by (auto split: option.splits if_splits)
  then show thesis using ne by (cases "task_pc t") (auto simp: acts_of_loop)
next
  case (Ev_restart now)
  have "acts_of (fst (start_bridge now (store s) (next_task s) (sent s) (responses s))) = acts_of s"
    by (simp add: start_bridge_def) (simp add: acts_of_def fresh_bridge_def)
  then show thesis using st Ev_restart ne by (auto split: prod.splits sum.splits)
qed (use st ne in auto)

end
