(* ===== verification/Goal_Bridge_Claims.thy ===== *)
theory Goal_Bridge_Claims
  imports Goal_Bridge_Props
begin

text \<open>
  The correctness properties of the Goal bridge. The witnesses are runs of the bridge: a
  registration, its terminal event and its delivery, driven event by event from an empty
  database.
\<close>

section \<open>Runs\<close>

fun run_events :: "event list \<Rightarrow> goal_bridge \<Rightarrow> goal_bridge option" where
  "run_events [] s = Some s"
| "run_events (e # es) s = (case bstep e s of None \<Rightarrow> None | Some s' \<Rightarrow> run_events es s')"

definition demo_boot :: goal_bridge where
  "demo_boot = fst (start_bridge 0 empty_db 0 [] [])"

definition demo_job :: string where
  "demo_job = ''0123456789abcdef0123456789abcdef''"

definition demo_thread :: string where
  "demo_thread = ''01234567-89ab-cdef-0123-456789abcdef''"

definition demo_goal :: "string \<Rightarrow> int \<Rightarrow> json" where
  "demo_goal status u = JObj [(''threadId'', JStr demo_thread), (''objective'', JStr ''ship''),
     (''createdAt'', JInt 5), (''updatedAt'', JInt u), (''status'', JStr status)]"

definition demo_reply :: "string \<Rightarrow> int \<Rightarrow> string + json" where
  "demo_reply status u = Inr (JObj [(''goal'', demo_goal status u)])"

definition demo_idle :: "string + json" where
  "demo_idle = Inr (JObj [(''thread'', JObj [(''status'', JObj [(''type'', JStr ''idle'')])])])"

text \<open>A request as the MCP server sends it.\<close>

definition bridge_request :: "string \<Rightarrow> string \<Rightarrow> string \<Rightarrow> jfields \<Rightarrow> json" where
  "bridge_request action job thr fs =
     JObj ([(''version'', JInt 1), (''action'', JStr action), (''job_id'', JStr job),
            (''thread_id'', JStr thr)] @ fs)"

definition demo_request :: "string \<Rightarrow> jfields \<Rightarrow> conn_input" where
  "demo_request action fs = Decoded (bridge_request action demo_job demo_thread fs)"

definition demo_prepare :: event where
  "demo_prepare = Ev_request 0
     (demo_request ''prepare'' [(''timeout_sec'', JInt 100), (''grace_period_sec'', JInt 5)])"

definition demo_end :: event where
  "demo_end = Ev_request 4 (demo_request ''terminal'' [(''terminal_state'', JStr ''succeeded'')])"

text \<open>Registered and paused; its command ended; its delivery holds the lock and has asked
  for the Goal; the activation was sent; it was confirmed.\<close>

definition demo_armed :: "event list" where
  "demo_armed = [demo_prepare, Ev_reply 1 0 (demo_reply ''active'' 7),
     Ev_reply 2 0 (demo_reply ''paused'' 8), Ev_reply 3 0 (demo_reply ''paused'' 8)]"

definition demo_asking :: "event list" where
  "demo_asking = demo_armed @ [demo_end, Ev_run 5 3, Ev_reply 6 3 demo_idle, Ev_run 7 3,
     Ev_reply 8 3 demo_idle]"

definition demo_activate :: event where
  "demo_activate = Ev_reply 9 3 (demo_reply ''paused'' 8)"

definition demo_delivered :: "event list" where
  "demo_delivered = demo_asking @ [demo_activate, Ev_reply 10 3 (demo_reply ''active'' 9)]"

lemma reach_boot: "bridge_reach demo_boot"
  using boot_inv [of 0] bridge_reach.boot [of 0 demo_boot] by (auto simp: demo_boot_def)

lemma run_reach: "bridge_reach s \<Longrightarrow> run_events es s = Some s' \<Longrightarrow> bridge_reach s'"
  by (induction es arbitrary: s) (auto split: option.splits intro: bridge_reach.step)

lemma demo_reach: "run_events es demo_boot = Some s \<Longrightarrow> bridge_reach s"
  using run_reach [OF reach_boot] .

lemma run_events_snoc:
  "run_events (es @ [e]) s = (case run_events es s of None \<Rightarrow> None | Some s' \<Rightarrow> bstep e s')"
  by (induction es arbitrary: s) (auto split: option.splits)

text \<open>What the runs lead to, evaluated.\<close>

lemma demo_asking_run:
  "map_option (\<lambda>s. (map_option (\<lambda>l. (lease_state l, delivery_state l)) (lease_at s demo_job),
      activations s demo_job, map_option (\<lambda>s'. (activations s' demo_job,
        map_option (\<lambda>l. (lease_state l, delivery_state l)) (lease_at s' demo_job))) (bstep demo_activate s)))
     (run_events demo_asking demo_boot) =
   Some (Some (L_terminal, D_waiting_for_idle), 0, Some (1, Some (L_terminal, D_activating)))"
  by code_simp

lemma demo_delivered_run:
  "map_option (\<lambda>s. (map_option (\<lambda>l. (lease_state l, delivery_state l)) (lease_at s demo_job),
      activations s demo_job, tasks s 3 = None, bstep demo_end s = None)) (run_events demo_delivered demo_boot) =
   Some (Some (L_delivered, D_resumed), 1, True, False)"
  by code_simp

section \<open>Safety of the activation\<close>

text \<open>
  C1. The bridge resumes a Goal at most once per job: whatever requests, replies,
  notifications, cancellations and restarts happen in whatever order, at most one
  \<open>thread/goal/set\<close> to \<open>active\<close> is ever sent for a job.
\<close>

theorem activation_at_most_once:
  assumes "bridge_reach s"
  shows "activations s j \<le> 1"
proof -
  have "acts_ok s" using bridge_reach_inv [OF assms] by (simp add: bridge_inv_def core_def)
  then show ?thesis unfolding acts_ok_def by (metis le_numeral_extra(4) zero_le_one)
qed

theorem activation_at_most_once_witness:
  "\<exists>s. run_events demo_delivered demo_boot = Some s \<and> activations s demo_job = 1 \<and> activations s demo_job \<le> 1"
proof -
  obtain s where s: "run_events demo_delivered demo_boot = Some s" "activations s demo_job = 1"
    using demo_delivered_run by auto
  show ?thesis using s activation_at_most_once [OF demo_reach [OF s(1)], of demo_job] by blast
qed

text \<open>
  C24. An activation is only sent on evidence: when a step sends one for a job, it is the
  reply to the \<open>thread/goal/get\<close> of the delivery that holds the thread's control lock,
  the reported Goal is the registered one (thread, creation time, objective), still paused
  at the revision of the bridge's own pause, and the lease was terminal and waiting; it is
  recorded as activating in the same step.
\<close>

theorem activation_on_evidence:
  assumes reach: "bridge_reach s" and st: "bstep ev s = Some s'"
    and ne: "activations s' j \<noteq> activations s j"
  shows "\<exists>now tid res goal cur cur'. ev = Ev_reply now tid (Inr res) \<and> goal_from_result res = Inr goal
    \<and> lease_at s j = Some cur \<and> lease_state cur = L_terminal \<and> delivery_state cur = D_waiting_for_idle
    \<and> same_goal cur goal \<and> jget ''status'' goal = JStr ''paused''
    \<and> py_eq (jget ''updatedAt'' goal) (JInt (goal_updated_at cur))
    \<and> goal_controls s (thread_id cur) = Some (Some tid)
    \<and> lease_at s' j = Some cur' \<and> lease_state cur' = L_terminal \<and> delivery_state cur' = D_activating"
proof -
  have inv: "bridge_inv s" using bridge_reach_inv [OF reach] .
  have count: "activations s j = length (filter (\<lambda>(k, r). k = j) (acts_of s))" for s :: goal_bridge and j
    by (auto simp: activations_def acts_of_def intro!: arg_cong [where f = length] filter_cong)
  then have "acts_of s' \<noteq> acts_of s" using ne by metis
  from bstep_acts [OF inv st this] obtain now tid r t l where ev: "ev = Ev_reply now tid r"
    and t: "tasks s tid = Some t" "task_pc t = A_get l"
    and s': "s' = settle tid False (deliver_loop now l (activate_get now l (rpc_result r) s))"
    and acts: "acts_of (fst (activate_get now l (rpc_result r) s)) \<noteq> acts_of s" by metis
  from activate_get_sends [OF acts] obtain res goal cur where res: "rpc_result r = Inr res" "goal_from_result res = Inr goal"
    and cur: "lease_at s (job_id l) = Some cur" "lease_state cur = L_terminal" "delivery_state cur = D_waiting_for_idle"
    and g: "same_goal l goal" "jget ''status'' goal = JStr ''paused''" "py_eq (jget ''updatedAt'' goal) (JInt (goal_updated_at cur))"
    and sent: "acts_of (fst (activate_get now l (rpc_result r) s)) = acts_of s @ [(job_id l, Goal_set (thread_id l) ''active'')]"
    by metis
  have d: "delivering tid t l s" using delivering_begin [OF inv t(1)] t(2) by simp
  have r: "r = Inr res" using res(1) by (cases r) auto
  have "acts_of s' = acts_of s @ [(job_id l, Goal_set (thread_id l) ''active'')]"
    using s' sent by (simp add: acts_of_loop)
  then have j: "j = job_id l" using ne by (auto simp: count split: if_splits)
  have key: "goal_key cur = goal_key l" using deliveringD(1) [OF d] cur(1) by auto
  have upd: "st_update now (job_id l) [F_delivery_state D_activating] s =
      (s\<lparr>store := db_put now (job_id l) [F_delivery_state D_activating] (store s)\<rparr>, Inr (set_fields [F_delivery_state D_activating] cur))"
    by (rule st_update_ok [where x = "Some tid"]) (use d cur live_states in \<open>auto simp: delivering_def\<close>)
  have "lease_at s' j = Some (set_fields [F_delivery_state D_activating] cur)"
    using upd g cur res r by (simp add: s' j deliver_loop_def activate_get_def db_get_put)
  moreover have "goal_controls s (thread_id cur) = Some (Some tid)"
    using deliveringD(4) [OF d] t(2) key by simp
  moreover have "same_goal cur goal" using g(1) key by (simp add: same_goal_def)
  ultimately show ?thesis using ev r res g cur j by auto
qed

theorem activation_on_evidence_witness:
  "\<exists>s s' goal. run_events demo_asking demo_boot = Some s \<and> bstep demo_activate s = Some s'
     \<and> activations s' demo_job \<noteq> activations s demo_job \<and> jget ''status'' goal = JStr ''paused''"
proof -
  obtain s s' where s: "run_events demo_asking demo_boot = Some s" "bstep demo_activate s = Some s'"
    "activations s' demo_job \<noteq> activations s demo_job"
    using demo_asking_run by auto
  show ?thesis using s activation_on_evidence [OF demo_reach [OF s(1)] s(2,3)] by blast
qed

section \<open>No stranded lease, no revived lease\<close>

text \<open>
  C22. No live lease is stranded: in every reachable state each live lease has an unfinished
  task that moves it on, a registration for one being prepared, a running deadline watcher
  for an armed one, a running delivery for a terminal one, and the one that awaits the
  reply of the activation RPC for one recorded as activating.
\<close>

theorem live_lease_has_task:
  assumes reach: "bridge_reach s" and l: "lease_at s j = Some l" "is_live l"
  shows "\<exists>tid t. tasks s tid = Some t \<and> serves t j l"
  using core_served [of None "{}" "{}" s j l] bridge_reach_inv [OF reach] l by (auto simp: bridge_inv_def tk_def)

theorem live_lease_has_task_witness:
  "\<exists>s l tid t. run_events demo_asking demo_boot = Some s \<and> lease_at s demo_job = Some l \<and> is_live l
     \<and> tasks s tid = Some t \<and> serves t demo_job l"
proof -
  obtain s l where s: "run_events demo_asking demo_boot = Some s" "lease_at s demo_job = Some l"
    "lease_state l = L_terminal" using demo_asking_run by auto
  then have "is_live l" by (simp add: is_live_def live_state_def)
  then show ?thesis using s live_lease_has_task [OF demo_reach [OF s(1)] s(2)] by blast
qed

text \<open>
  C23. An outcome is final: once a lease has left the live states no step, a restart
  included, changes its state or delivery state, forgets it or moves it to another thread.
\<close>

theorem outcome_final:
  assumes reach: "bridge_reach s" and st: "bstep ev s = Some s'"
    and l: "lease_at s j = Some l" "\<not> is_live l"
  shows "\<exists>l'. lease_at s' j = Some l' \<and> thread_id l' = thread_id l
    \<and> lease_state l' = lease_state l \<and> delivery_state l' = delivery_state l"
  using bstep_fwd [OF bridge_reach_inv [OF reach] st] l unfolding fwd_def by blast

theorem outcome_final_witness:
  "\<exists>s s' l l'. run_events demo_delivered demo_boot = Some s \<and> bstep demo_end s = Some s'
     \<and> lease_at s demo_job = Some l \<and> lease_state l = L_delivered
     \<and> lease_at s' demo_job = Some l' \<and> lease_state l' = L_delivered"
proof -
  obtain s s' l where s: "run_events demo_delivered demo_boot = Some s" "lease_at s demo_job = Some l"
    "lease_state l = L_delivered" "bstep demo_end s = Some s'" using demo_delivered_run by auto
  then have "\<not> is_live l" by (simp add: is_live_def live_state_def)
  then show ?thesis using s outcome_final [OF demo_reach [OF s(1)] s(4,2)] by metis
qed

section \<open>User controls\<close>

text \<open>
  The control lock of a thread excludes: of the activation of a Goal and the forwarded
  user controls of its thread, at most one is past the lock at any time.
\<close>

theorem control_lock_exclusive:
  assumes reach: "bridge_reach s" and t: "tasks s a = Some t" "holds_lock (task_pc t) = Some thr"
    and u: "tasks s b = Some u" "holds_lock (task_pc u) = Some thr"
  shows "a = b"
proof -
  have c: "core None {} {} s" using bridge_reach_inv [OF reach] by (simp add: bridge_inv_def)
  show ?thesis using core_holds [OF c, of a t thr] core_holds [OF c, of b u thr] t u by (simp add: tk_def)
qed

definition demo_user :: "event list" where
  "demo_user = demo_armed @ [Ev_user_control 4 demo_thread]"

lemma demo_user_run:
  "map_option (\<lambda>s. (map_option task_pc (tasks s 2),
      map_option (\<lambda>s'. (map_option task_pc (tasks s' 2), map_option lease_state (lease_at s' demo_job)))
        (bstep (Ev_run 5 2) s)))
     (run_events demo_user demo_boot) =
   Some (Some (U_lock demo_thread), Some (Some (U_op demo_thread), Some L_abandoned))"
  by code_simp

theorem control_lock_exclusive_witness:
  "\<exists>s. run_events (demo_user @ [Ev_run 5 2]) demo_boot = Some s
     \<and> {b. \<exists>u. tasks s b = Some u \<and> holds_lock (task_pc u) = Some demo_thread} = {2}"
proof -
  obtain s0 s t where s: "run_events demo_user demo_boot = Some s0" "bstep (Ev_run 5 2) s0 = Some s"
    "tasks s 2 = Some t" "task_pc t = U_op demo_thread" using demo_user_run by auto
  have reach: "bridge_reach s" using bridge_reach.step [OF demo_reach [OF s(1)] s(2)] .
  have "b = 2" if "tasks s b = Some u" "holds_lock (task_pc u) = Some demo_thread" for b u
    using control_lock_exclusive [OF reach that s(3)] s(4) by simp
  moreover have "holds_lock (task_pc t) = Some demo_thread" using s(4) by simp
  ultimately have "{b. \<exists>u. tasks s b = Some u \<and> holds_lock (task_pc u) = Some demo_thread} = {2}" using s(3) by blast
  moreover have "run_events (demo_user @ [Ev_run 5 2]) demo_boot = Some s" using s(1,2) by (simp only: run_events_snoc option.case)
  ultimately show ?thesis by blast
qed

text \<open>
  C10. A user's Goal control overrides the bridge: when it gets the lock and is forwarded to
  the App Server, the thread has no live lease left, so no wakeup that was registered
  before it can follow it.
\<close>

theorem user_control_revokes:
  assumes reach: "bridge_reach s" and t: "tasks s tid = Some t" "task_pc t = U_lock thr"
    and st: "bstep (Ev_run now tid) s = Some s'"
  shows "sent s' = sent s @ [([], User_op thr)] \<and> db_live_for_thread (store s') thr = None"
proof -
  have inv: "bridge_inv s" using bridge_reach_inv [OF reach] .
  note C = client_begin [OF inv t(1)]
  have c: "core (Some tid) {} {} s" using C(1,4) t(2) by simp
  have free: "lock_free thr s" using st t by (auto split: if_splits)
  obtain s1 r1 where r: "abandon_for_manual_change now thr ''Explicit user Goal control'' (acquire thr tid s) = (s1, r1)"
    by fastforce
  note A = abandon_inv [OF core_acquire [OF c free] r]
  have s': "s' = settle tid False (send [] (User_op thr) s1, Inr (Suspend (U_op thr)))"
    using st t free r A(2) by (simp add: user_control_locked_def split: if_splits)
  have c': "core None {} {} s'" using bstep_inv [OF inv st] by (simp add: bridge_inv_def)
  have "db_live_for_thread (store s') thr = None"
  proof (rule ccontr)
    assume "db_live_for_thread (store s') thr \<noteq> None"
    then obtain l where l: "db_live_for_thread (store s') thr = Some l" by blast
    then have act: "delivery_state l = D_activating" using A(7) s' by simp
    have g: "lease_at s' (job_id l) = Some l" "is_live l" "thread_id l = thr"
      using l db_live_for_thread_iff [OF core_store_ok [OF c']] by auto
    obtain b u where u: "tk None s' b u" "serves u (job_id l) l" using core_served [OF c' g(1) _ g(2)] by auto
    have "combo l" using c' g(1) by (simp add: core_def combos_def)
    then have "lease_state l = L_terminal" using act g(2) by (auto simp: combo_def is_live_def live_state_def)
    then obtain m where m: "is_A_set (task_pc u)" "delivery_lease (task_pc u) = Some m" "job_id m = job_id l"
      using u(2) act by (auto simp: serves_def)
    then have "deliv_fact s' u m" using c' u(1) by (simp add: core_def deliv_ok_def)
    then have "holds_lock (task_pc u) = Some thr" using m g by (cases "task_pc u") (auto simp: deliv_fact_def)
    moreover have "tasks s' tid = Some \<lparr>task_pc = U_op thr, cancelled = (case tasks s1 tid of None \<Rightarrow> False | Some t \<Rightarrow> cancelled t)\<rparr>"
      by (simp add: s' settle_def)
    ultimately have "b = tid" using core_holds [OF c' u(1)] core_holds [OF c', of tid] by (auto simp: tk_def)
    then show False using u(1) m(1) by (auto simp: tk_def s' settle_def)
  qed
  then show ?thesis using A(5) s' by (simp add: settle_def) (simp add: send_def acquire_def)
qed

theorem user_control_revokes_witness:
  "\<exists>s s'. run_events demo_user demo_boot = Some s \<and> bstep (Ev_run 5 2) s = Some s'
     \<and> sent s' = sent s @ [([], User_op demo_thread)] \<and> db_live_for_thread (store s') demo_thread = None"
proof -
  obtain s s' t where s: "run_events demo_user demo_boot = Some s" "bstep (Ev_run 5 2) s = Some s'"
    "tasks s 2 = Some t" "task_pc t = U_lock demo_thread" using demo_user_run by auto
  show ?thesis using s user_control_revokes [OF demo_reach [OF s(1)] s(3,4,2)] by blast
qed

section \<open>Restarts\<close>

text \<open>What recovery makes of a lease.\<close>

definition recovered :: "wake_lease \<Rightarrow> wake_lease" where
  "recovered l =
     (if \<not> is_live l then l
      else if delivery_state l = D_activating
      then set_fields (failed_fields ''bridge restarted during ambiguous Goal activation'') l
      else if lease_state l = L_preparing
      then set_fields (failed_fields ''bridge restarted during wake lease preparation'') l
      else l)"

lemma recover_lease_get:
  assumes c: "core x E L s" and l: "orphan s l" "combo l"
  shows "lease_at (fst (recover_lease now l s)) k = (if k = job_id l then Some (recovered l) else lease_at s k)"
proof -
  have get: "lease_at s (job_id l) = Some l" and live: "is_live l" using l by (simp_all add: orphan_def)
  have "st_update now (job_id l) (failed_fields r) s =
      (s\<lparr>store := db_put now (job_id l) (failed_fields r) (store s)\<rparr>, Inr (set_fields (failed_fields r) l))" for r
    by (rule st_update_ok [OF c get]) (use live in \<open>auto simp: failed_fields_def\<close>)
  then show ?thesis
    using get live l(2)
    by (cases "delivery_state l"; cases "lease_state l")
      (auto simp: recover_lease_def recovered_def db_get_put combo_def is_live_def live_state_def)
qed

lemma recover_all_get:
  assumes "core None (job_id ` set ls) {} s" "distinct (map job_id ls)" "\<forall>l \<in> set ls. orphan s l"
  shows "lease_at (fst (recover_all now ls s)) k =
    (case find (\<lambda>l. job_id l = k) ls of None \<Rightarrow> lease_at s k | Some l \<Rightarrow> Some (recovered l))"
  using assms
proof (induction ls arbitrary: s)
  case (Cons l ls)
  obtain s' where r: "recover_lease now l s = (s', Inr ())" and c: "core None (job_id ` set ls) {} s'"
    and o: "\<And>m. orphan s m \<Longrightarrow> job_id m \<noteq> job_id l \<Longrightarrow> orphan s' m"
    using recover_lease_inv [of l "job_id ` set ls" s now] Cons.prems(1,3) by (auto simp: image_iff)
  have "orphan s l" "combo l" using Cons.prems(1,3) by (auto simp: core_def combos_def orphan_def)
  then have get: "lease_at s' k = (if k = job_id l then Some (recovered l) else lease_at s k)" for k
    using recover_lease_get [OF Cons.prems(1), of l now k] r by simp
  have ne: "job_id m \<noteq> job_id l" if "m \<in> set ls" for m
    using that Cons.prems(2) by (metis distinct.simps(2) image_eqI list.set_map list.simps(9))
  then have "orphan s' m" if "m \<in> set ls" for m using o that Cons.prems(3) by simp
  then have IH: "lease_at (fst (recover_all now ls s')) k =
      (case find (\<lambda>l. job_id l = k) ls of None \<Rightarrow> lease_at s' k | Some l \<Rightarrow> Some (recovered l))"
    using Cons.IH [OF c] Cons.prems(2) by simp
  moreover have "find (\<lambda>l. job_id l = k) ls = None" if "k = job_id l" using ne that by (auto simp: find_None_iff)
  ultimately show ?case using r get by (auto split: option.splits)
qed simp

lemma find_pending:
  assumes ok: "store_ok d"
  shows "find (\<lambda>l. job_id l = j) (db_pending d) =
    (case db_get d j of None \<Rightarrow> None | Some l \<Rightarrow> if is_live l then Some l else None)"
proof (cases "\<exists>l. db_get d j = Some l \<and> is_live l")
  case True
  then obtain l where l: "db_get d j = Some l" "is_live l" "job_id l = j" using db_get_key by blast
  then have "l \<in> set (db_pending d)" using set_db_pending [OF ok] by auto
  then show ?thesis using find_Some_unique [OF distinct_db_pending [OF ok]] l by fastforce
next
  case False
  then have "find (\<lambda>l. job_id l = j) (db_pending d) = None"
    using set_db_pending [OF ok] by (auto simp: find_None_iff)
  then show ?thesis using False by (auto split: option.splits)
qed

text \<open>
  Crash recovery: at any reachable state the process may die and a new one comes up on
  the database. It fails the leases whose registration or activation was in flight (an
  activation is never tried twice), keeps the armed and the waiting ones as they are, and
  leaves every settled one alone. By C5 the kept ones have their tasks again.
\<close>

theorem restart_recovers:
  assumes reach: "bridge_reach s"
  shows "\<exists>s'. bstep (Ev_restart now) s = Some s' \<and> (\<forall>j. lease_at s' j = map_option recovered (lease_at s j))"
proof -
  have inv: "bridge_inv s" using bridge_reach_inv [OF reach] .
  then have ok: "store_ok (store s)" by (simp add: bridge_inv_def core_def)
  let ?f = "fresh_bridge (store s) (next_task s) (sent s) (responses s)"
  obtain s' where s': "start_bridge now (store s) (next_task s) (sent s) (responses s) = (s', Inr ())"
    using restart_inv [OF inv] by blast
  have "lease_at s' j = map_option recovered (lease_at s j)" for j
  proof -
    have "lease_at s' j = (case find (\<lambda>l. job_id l = j) (db_pending (store s)) of
        None \<Rightarrow> lease_at ?f j | Some l \<Rightarrow> Some (recovered l))"
      using recover_all_get [OF restart_orphans(1) [OF inv] distinct_db_pending [OF ok] restart_orphans(2) [OF inv],
          where now = now and k = j] s'
      unfolding start_bridge_def by (metis fst_conv)
    moreover have "lease_at ?f j = lease_at s j" by (simp add: fresh_bridge_def)
    moreover have "find (\<lambda>l. job_id l = j) (db_pending (store s)) = (case lease_at s j of
        None \<Rightarrow> None | Some l \<Rightarrow> if is_live l then Some l else None)"
      by (rule find_pending [OF ok])
    ultimately show ?thesis by (auto simp: recovered_def split: option.splits)
  qed
  then show ?thesis using s' by auto
qed

theorem restart_recovers_witness:
  "\<exists>s s' s'' l. run_events demo_asking demo_boot = Some s \<and> bstep demo_activate s = Some s'
     \<and> bstep (Ev_restart 20) s' = Some s'' \<and> lease_at s'' demo_job = Some l
     \<and> lease_state l = L_failed \<and> delivery_state l = D_needs_manual_recovery"
proof -
  obtain s s' l where s: "run_events demo_asking demo_boot = Some s" "bstep demo_activate s = Some s'"
    "lease_at s' demo_job = Some l" "lease_state l = L_terminal" "delivery_state l = D_activating"
    using demo_asking_run by auto
  have "bridge_reach s'" using bridge_reach.step [OF demo_reach [OF s(1)] s(2)] .
  then show ?thesis
    using s restart_recovers [of s' 20]
    by (auto simp: recovered_def failed_fields_def is_live_def live_state_def)
qed

section \<open>Terminal events\<close>

lemma bridge_request_fields [simp]:
  "is_dict (bridge_request a j thr fs)" "jget ''version'' (bridge_request a j thr fs) = JInt 1"
  "jget ''action'' (bridge_request a j thr fs) = JStr a" "jget ''job_id'' (bridge_request a j thr fs) = JStr j"
  "jget ''thread_id'' (bridge_request a j thr fs) = JStr thr"
  "jget ''terminal_state'' (bridge_request a j thr [(''terminal_state'', v)]) = v"
  by (simp_all add: bridge_request_def jfield_def)

lemma new_request:
  assumes "bridge_inv s"
  shows "core (Some (next_task s)) {} {} (new_task s)" "unmapped (next_task s) (new_task s)"
    "next_task s < next_task (new_task s)" "store (new_task s) = store s"
    "deadline_tasks (new_task s) = deadline_tasks s" "delivery_tasks (new_task s) = delivery_tasks s"
    "tasks (new_task s) = tasks s" "responses (new_task s) = responses s"
  using core_next_task [OF core_fresh_task [of "{}" "{}" s]] assms
  by (auto simp: bridge_inv_def new_task_def unmapped_def core_def ids_ok_def)

text \<open>
  A terminal event of an armed lease starts its delivery: the request is answered with
  \<open>waiting_for_idle\<close>, the lease becomes terminal with the reported state, its deadline
  watcher is dropped, and a new, registered delivery task is ready to run.
\<close>

theorem terminal_starts_delivery:
  assumes reach: "bridge_reach s" and j: "hex_handle 32 j" and thr: "check_thread_id (JStr thr) = Inr thr"
    and ts: "length ts \<le> 64" and l: "lease_at s j = Some l" "thread_id l = thr" "lease_state l = L_armed"
  shows "\<exists>s' tid l'. bstep (Ev_request now
      (Decoded (bridge_request ''terminal'' j thr [(''terminal_state'', JStr ts)]))) s = Some s'
    \<and> l' = l\<lparr>lease_state := L_terminal, terminal_state := Some ts, delivery_state := D_waiting_for_idle\<rparr>
    \<and> lease_at s' j = Some l' \<and> deadline_tasks s' j = None
    \<and> delivery_tasks s' j = Some tid \<and> tasks s' tid = Some \<lparr>task_pc = W_start l', cancelled = False\<rparr>
    \<and> (\<exists>a. responses s' = responses s @ [(a, JObj [(''ok'', JBool True), (''delivery_state'', JStr ''waiting_for_idle'')])])"
proof -
  have inv: "bridge_inv s" using bridge_reach_inv [OF reach] .
  let ?fs = "[F_state L_terminal, F_terminal_state ts, F_delivery_state D_waiting_for_idle]"
  let ?n = "new_task s"
  note N = new_request [OF inv]
  have l': "lease_at ?n j = Some l" "lease_state l \<in> {L_preparing, L_armed}" using l N(4) by simp_all
  have pend: "delivery_state l = D_pending" using N(1) l'(1) l(3) by (auto simp: core_def combos_def combo_def)
  define m where "m = set_fields ?fs l"
  define s1 where "s1 = ?n\<lparr>store := db_put now j ?fs (store ?n)\<rparr>"
  note T = core_terminalize [OF N(1) l' _ _ m_def _ _ s1_def, simplified m_def, simplified, folded m_def]
  let ?d = "drop_deadline j s1"
  have c: "core (Some (next_task s)) {j} {} ?d"
    by (rule core_drop_deadline [OF T(2) T(4)]) simp
  have sched: "schedule_delivery m ?d = (spawn (W_start m) ?d)\<lparr>delivery_tasks := (delivery_tasks ?d)(j \<mapsto> next_task ?d)\<rparr>"
    by (rule schedule_delivery_spawns [OF c])
      (use T N in \<open>auto simp: m_def frame_simps s1_def unmapped_def\<close>)
  have "bstep (Ev_request now (Decoded (bridge_request ''terminal'' j thr [(''terminal_state'', JStr ts)]))) s
      = Some (settle (next_task s) True (schedule_delivery m ?d, Inr (ok_delivery ''waiting_for_idle'' [])))"
    using l l' pend j thr ts T(1)
    by (simp add: handle_request_def dispatch_def check_job_id_def terminal_request_def settled_delivery_def m_def)
  moreover have "deadline_tasks ?d j = None"
    by (simp add: drop_deadline_def cancel_task_frame split: option.splits)
  moreover have "responses ?d = responses s"
    by (simp add: drop_deadline_def cancel_task_def s1_def N(8) split: option.splits)
  moreover have "next_task ?d \<noteq> next_task s" using N(3) by (simp add: s1_def drop_frame)
  moreover have "lease_at ?d j = Some m" using T(4) by (simp add: drop_frame m_def)
  ultimately show ?thesis
    using sched by (simp add: settle_def ok_delivery_def spawn_def m_def)
qed

lemma demo_ids: "hex_handle 32 demo_job" "check_thread_id (JStr demo_thread) = Inr demo_thread"
  by code_simp+

lemma demo_armed_run:
  "map_option (\<lambda>s. (map_option (\<lambda>l. (lease_state l, delivery_state l, thread_id l, goal_updated_at l)) (lease_at s demo_job),
      map_option (\<lambda>t. (cancelled t, map_option (\<lambda>l. (job_id l, deadline_at l)) (deadline_lease (task_pc t)))) (tasks s 1),
      pause_notifications s demo_thread = None \<and> expected_goal_status s demo_thread = None))
     (run_events demo_armed demo_boot) =
   Some (Some (L_armed, D_pending, demo_thread, 8), Some (False, Some (demo_job, 166)), True)"
  by code_simp

theorem terminal_starts_delivery_witness:
  "\<exists>s s' l'. run_events demo_armed demo_boot = Some s
     \<and> bstep (Ev_request 4 (Decoded (bridge_request ''terminal'' demo_job demo_thread
          [(''terminal_state'', JStr ''succeeded'')]))) s = Some s'
     \<and> lease_at s' demo_job = Some l' \<and> lease_state l' = L_terminal \<and> terminal_state l' = Some ''succeeded''"
proof -
  obtain s l where s: "run_events demo_armed demo_boot = Some s" "lease_at s demo_job = Some l"
    "thread_id l = demo_thread" "lease_state l = L_armed" using demo_armed_run by auto
  have "length ''succeeded'' \<le> 64" by simp
  from terminal_starts_delivery [OF demo_reach [OF s(1)] demo_ids this s(2-4), of 4]
  show ?thesis using s(1) by fastforce
qed

text \<open>
  A terminal event that overtakes the registration is not lost: it is recorded in the
  lease under preparation (the first one wins), and the confirmation of the pause then
  makes the lease terminal with that state, to be delivered at once, instead of arming it.
\<close>

theorem early_terminal_kept:
  assumes reach: "bridge_reach s" and j: "hex_handle 32 j" and thr: "check_thread_id (JStr thr) = Inr thr"
    and ts: "length ts \<le> 64" and l: "lease_at s j = Some l" "thread_id l = thr" "lease_state l = L_preparing"
  shows "\<exists>s' l'. bstep (Ev_request now
      (Decoded (bridge_request ''terminal'' j thr [(''terminal_state'', JStr ts)]))) s = Some s'
    \<and> lease_at s' j = Some l'
    \<and> l' = (if terminal_state l = None then l\<lparr>terminal_state := Some ts\<rparr> else l)
    \<and> lease_at (fst (prepare_arm now j thr rev' l' s')) j =
        Some (l'\<lparr>lease_state := L_terminal, delivery_state := D_waiting_for_idle, goal_updated_at := rev'\<rparr>)"
proof -
  have inv: "bridge_inv s" using bridge_reach_inv [OF reach] .
  let ?n = "new_task s"
  note N = new_request [OF inv]
  define l' where "l' = (if terminal_state l = None then l\<lparr>terminal_state := Some ts\<rparr> else l)"
  have get: "lease_at ?n j = Some l" using l N(4) by simp
  have pend: "delivery_state l = D_pending" using N(1) get l(3) by (auto simp: core_def combos_def combo_def)
  define s1 where "s1 = (if terminal_state l = None then ?n\<lparr>store := db_put now j [F_terminal_state ts] (store ?n)\<rparr> else ?n)"
  have upd: "st_update now j [F_terminal_state ts] ?n =
      (?n\<lparr>store := db_put now j [F_terminal_state ts] (store ?n)\<rparr>, Inr (set_fields [F_terminal_state ts] l))"
    by (rule st_update_ok [OF N(1) get]) (use l(3) in \<open>auto simp: is_live_def live_state_def\<close>)
  define s' where "s' = settle (next_task s) True (s1, Inr (ok_delivery ''waiting_for_registration'' []))"
  have st: "bstep (Ev_request now (Decoded (bridge_request ''terminal'' j thr [(''terminal_state'', JStr ts)]))) s = Some s'"
    using l get pend j thr ts upd
    by (simp add: s'_def s1_def handle_request_def dispatch_def check_job_id_def terminal_request_def settled_delivery_def)
  have get': "lease_at s' j = Some l'" using get by (simp add: s'_def s1_def l'_def db_get_put)
  have c': "core None {} {} s'" using bstep_inv [OF inv st] by (simp add: bridge_inv_def)
  have "is_live l'" using l(3) by (simp add: l'_def is_live_def live_state_def)
  then have "st_update now j [F_state L_terminal, F_delivery_state D_waiting_for_idle, F_goal_updated_at rev'] s' =
      (s'\<lparr>store := db_put now j [F_state L_terminal, F_delivery_state D_waiting_for_idle, F_goal_updated_at rev'] (store s')\<rparr>,
       Inr (set_fields [F_state L_terminal, F_delivery_state D_waiting_for_idle, F_goal_updated_at rev'] l'))"
    by (intro st_update_ok [OF c' get']) simp_all
  moreover have "terminal_state l' \<noteq> None" by (simp add: l'_def)
  ultimately have "lease_at (fst (prepare_arm now j thr rev' l' s')) j =
      Some (l'\<lparr>lease_state := L_terminal, delivery_state := D_waiting_for_idle, goal_updated_at := rev'\<rparr>)"
    using get' by (simp add: prepare_arm_def db_get_put)
  then show ?thesis using st get' l'_def by blast
qed

lemma demo_preparing_run:
  "map_option (\<lambda>s. map_option (\<lambda>l. (lease_state l, thread_id l, terminal_state l)) (lease_at s demo_job))
     (run_events (take 2 demo_armed) demo_boot) = Some (Some (L_preparing, demo_thread, None))"
  by code_simp

theorem early_terminal_kept_witness:
  "\<exists>s s' l. run_events (take 2 demo_armed) demo_boot = Some s
     \<and> bstep (Ev_request 4 (Decoded (bridge_request ''terminal'' demo_job demo_thread
          [(''terminal_state'', JStr ''failed'')]))) s = Some s'
     \<and> lease_at s' demo_job = Some l \<and> terminal_state l = Some ''failed''"
proof -
  obtain s l where s: "run_events (take 2 demo_armed) demo_boot = Some s" "lease_at s demo_job = Some l"
    "thread_id l = demo_thread" "lease_state l = L_preparing" "terminal_state l = None"
    using demo_preparing_run by auto
  have "length ''failed'' \<le> 64" by simp
  from early_terminal_kept [OF demo_reach [OF s(1)] demo_ids this s(2-4), of 4 8]
  show ?thesis using s(1,5) by fastforce
qed

section \<open>Deadlines and delivery\<close>

text \<open>
  A lease whose server never reports is not armed forever: when the clock reaches the
  lease's deadline, the watcher that sleeps on it makes the lease terminal with the state
  \<open>bridge_deadline_expired\<close> and starts a delivery task for it.
\<close>

theorem deadline_fires:
  assumes reach: "bridge_reach s" and t: "tasks s tid = Some t" "task_pc t = X_sleep w" "\<not> cancelled t"
    and l: "lease_at s (job_id w) = Some l" "lease_state l = L_armed" and now: "deadline_at w \<le> now"
  shows "\<exists>s' l' u. bstep (Ev_run now tid) s = Some s' \<and> lease_at s' (job_id w) = Some l'
    \<and> lease_state l' = L_terminal \<and> delivery_state l' = D_waiting_for_idle
    \<and> terminal_state l' = Some ''bridge_deadline_expired''
    \<and> tasks s' tid = None \<and> tasks s' (next_task s) = Some u \<and> task_pc u = W_start l' \<and> \<not> cancelled u"
proof -
  have inv: "bridge_inv s" using bridge_reach_inv [OF reach] .
  note B = core_begin [OF inv t(1)]
  let ?fs = "[F_state L_terminal, F_terminal_state ''bridge_deadline_expired'',
     F_delivery_state D_waiting_for_idle,
     F_error ''MCP server did not deliver a terminal event before the guarded deadline'']"
  define m where "m = set_fields ?fs l"
  define s1 where "s1 = s\<lparr>store := db_put now (job_id w) ?fs (store s)\<rparr>"
  have early: "lease_state l \<in> {L_preparing, L_armed}" using l(2) by simp
  have pend: "delivery_state l = D_pending" using B(1) l by (auto simp: core_def combos_def combo_def)
  note T = core_terminalize [OF B(1) l(1) early _ _ m_def _ _ s1_def, simplified m_def, simplified, folded m_def]
  have sched: "schedule_delivery m s1 =
      (spawn (W_start m) s1)\<lparr>delivery_tasks := (delivery_tasks s1)(job_id w \<mapsto> next_task s1)\<rparr>"
    by (rule schedule_delivery_spawns [OF T(2)])
      (use T B(2) t(2) in \<open>auto simp: m_def s1_def task_fits_def\<close>)
  have "bstep (Ev_run now tid) s = Some (settle tid False (pop_deadline w (schedule_delivery m s1), Inr (Done JNull)))"
    using t now l pend T(1) by (simp add: expire_at_deadline_def m_def)
  then show ?thesis
    using sched T(4) B(3) by (simp add: settle_def pop_deadline_def spawn_def s1_def m_def)
qed

lemma demo_sleeping_run:
  "map_option (\<lambda>s. (map_option (\<lambda>l. (lease_state l, deadline_at l)) (lease_at s demo_job),
      case tasks s 1 of None \<Rightarrow> False | Some t \<Rightarrow> task_pc t = X_sleep (the (lease_at s demo_job)) \<and> \<not> cancelled t))
     (run_events (demo_armed @ [Ev_run 4 1]) demo_boot) =
   Some (Some (L_armed, 166), True)"
  by code_simp

theorem deadline_fires_witness:
  "\<exists>s s' l'. run_events (demo_armed @ [Ev_run 4 1]) demo_boot = Some s
     \<and> bstep (Ev_run 166 1) s = Some s' \<and> lease_at s' demo_job = Some l'
     \<and> terminal_state l' = Some ''bridge_deadline_expired''"
proof -
  obtain s l t where s: "run_events (demo_armed @ [Ev_run 4 1]) demo_boot = Some s"
    and l: "lease_at s demo_job = Some l" "lease_state l = L_armed" "deadline_at l = 166"
    and t: "tasks s 1 = Some t" "task_pc t = X_sleep l" "\<not> cancelled t"
    using demo_sleeping_run by (auto split: option.splits)
  have "lease_at s (job_id l) = Some l" "deadline_at l \<le> 166" "job_id l = demo_job" using l db_get_key [OF l(1)] by simp_all
  with deadline_fires [OF demo_reach [OF s] t this(1) l(2) this(2)]
  show ?thesis using s by auto
qed

text \<open>
  A delivery that is let through completes: if the thread is idle at both reads, the
  lock is free, the Goal is found paused as the bridge left it and the App Server confirms
  the activation, then the delivery task runs through to the end; it sends two reads, one
  Goal query and one activation, and leaves the lease delivered and the task gone.
\<close>

theorem delivery_completes:
  assumes reach: "bridge_reach s" and t: "tasks s tid = Some t" "task_pc t = W_start l" "\<not> cancelled t"
    and cur: "lease_at s (job_id l) = Some cur" "lease_state cur = L_terminal" "delivery_state cur = D_waiting_for_idle"
    and free: "lock_free (thread_id l) s" and idle: "thread_status idle = Inr ''idle''"
    and found: "goal_from_result res = Inr g" "same_goal l g" "jget ''status'' g = JStr ''paused''"
      "py_eq (jget ''updatedAt'' g) (JInt (goal_updated_at cur))"
    and conf: "goal_from_result res' = Inr g'" "same_goal l g'" "jget ''status'' g' = JStr ''active''"
      "isinstance_int (jget ''updatedAt'' g')"
  shows "\<exists>s' l'. run_events [Ev_run t1 tid, Ev_reply t2 tid (Inr idle), Ev_run t3 tid, Ev_reply t4 tid (Inr idle),
        Ev_reply t5 tid (Inr res), Ev_reply t6 tid (Inr res')] s = Some s'
    \<and> tasks s' tid = None \<and> lease_at s' (job_id l) = Some l'
    \<and> lease_state l' = L_delivered \<and> delivery_state l' = D_resumed
    \<and> sent s' = sent s @ [(job_id l, Thread_read (thread_id l)), (job_id l, Thread_read (thread_id l)),
        (job_id l, Goal_get (thread_id l)), (job_id l, Goal_set (thread_id l) ''active'')]"
proof -
  have ok: "store_ok (store s)" using bridge_reach_inv [OF reach] by (simp add: bridge_inv_def core_def)
  let ?fs = "[F_delivery_state D_activating]" and ?gs = "[F_state L_delivered, F_delivery_state D_resumed]"
  let ?d = "db_put t5 (job_id l) ?fs (store s)"
  have upd: "db_update t5 (job_id l) ?fs (store s) = (?d, Inr (set_fields ?fs cur))"
    by (rule db_update_ok [OF ok cur(1)]) (use cur(2) in \<open>simp_all add: is_live_def live_state_def\<close>)
  then have ok': "store_ok ?d" using db_update_store_ok ok by blast
  have get': "db_get ?d (job_id l) = Some (set_fields ?fs cur)" using cur(1) by (simp add: db_get_put)
  have upd': "db_update t6 (job_id l) ?gs ?d = (db_put t6 (job_id l) ?gs ?d, Inr (set_fields ?gs (set_fields ?fs cur)))"
    by (rule db_update_ok [OF ok' get']) (simp_all add: is_live_def live_state_def)
  note S = deliver_start_def wait_idle_def Let_def settle_def send_def idle_first_def activate_start_def acquire_def
    lock_free_def deliver_loop_def activate_read_def settled_delivery_def activate_get_def st_update_def
    activate_set_def act_update_def pop_expected_def release_def pop_delivery_def
  show ?thesis
    using t cur free idle found conf upd upd' get' by (simp add: S db_get_put)
qed

definition demo_asked :: "event list" where
  "demo_asked = demo_armed @ [demo_end]"

lemma demo_asked_run:
  "map_option (\<lambda>s. (map_option (\<lambda>l. (lease_state l, delivery_state l, goal_updated_at l, thread_id l, objective l, goal_created_at l))
        (lease_at s demo_job),
      case tasks s 3 of None \<Rightarrow> False | Some t \<Rightarrow> task_pc t = W_start (the (lease_at s demo_job)) \<and> \<not> cancelled t,
      goal_controls s demo_thread))
     (run_events demo_asked demo_boot) =
   Some (Some (L_terminal, D_waiting_for_idle, 8, demo_thread, ''ship'', 5), True, None)"
  by code_simp

theorem delivery_completes_witness:
  "\<exists>s s' l'. run_events demo_asked demo_boot = Some s
     \<and> run_events [Ev_run 5 3, Ev_reply 6 3 demo_idle, Ev_run 7 3, Ev_reply 8 3 demo_idle,
          Ev_reply 9 3 (demo_reply ''paused'' 8), Ev_reply 10 3 (demo_reply ''active'' 9)] s = Some s'
     \<and> lease_at s' demo_job = Some l' \<and> lease_state l' = L_delivered"
proof -
  obtain s l t where s: "run_events demo_asked demo_boot = Some s"
    and l: "lease_at s demo_job = Some l" "lease_state l = L_terminal" "delivery_state l = D_waiting_for_idle"
      "goal_updated_at l = 8" "thread_id l = demo_thread" "objective l = ''ship''" "goal_created_at l = 5"
    and t: "tasks s 3 = Some t" "task_pc t = W_start l" "\<not> cancelled t" and free: "goal_controls s demo_thread = None"
    using demo_asked_run by (auto split: option.splits)
  have j: "job_id l = demo_job" using db_get_key [OF l(1)] .
  have sg: "same_goal l (demo_goal st u)" for st u
    using l by (simp add: same_goal_def demo_goal_def jfield_def)
  have "goal_from_result (JObj [(''goal'', demo_goal st u)]) = Inr (demo_goal st u)" for st u
    by (simp add: goal_from_result_def jfield_def demo_goal_def)
  moreover have "jget ''status'' (demo_goal st u) = JStr st" "jget ''updatedAt'' (demo_goal st u) = JInt u" for st u
    by (simp_all add: demo_goal_def jfield_def)
  moreover obtain i where "demo_idle = Inr i" "thread_status i = Inr ''idle''"
    by (simp add: demo_idle_def thread_status_def jfield_def)
  ultimately show ?thesis
    using delivery_completes [OF demo_reach [OF s] t, of l i "JObj [(''goal'', demo_goal ''paused'' 8)]" "demo_goal ''paused'' 8"
        "JObj [(''goal'', demo_goal ''active'' 9)]" "demo_goal ''active'' 9" 5 6 7 8 9 10] s l j sg free
    by (simp add: lock_free_def demo_reply_def del: run_events.simps) blast
qed

section \<open>Changes made outside the bridge\<close>

text \<open>
  A change of the Goal that the bridge did not make revokes the wakeup: a
  \<open>thread/goal/updated\<close> notification that shows another Goal, another status than
  \<open>paused\<close> or another revision than the bridge's pause (older ones are stale and
  skipped) abandons the thread's lease, unless its own activation is in flight, its
  registration is still collecting notifications, or the change is one the bridge expects.
\<close>

theorem foreign_change_abandons:
  assumes reach: "bridge_reach s" and live: "db_live_for_thread (store s) thr = Some l"
    and act: "delivery_state l \<noteq> D_activating"
    and quiet: "pause_notifications s thr = None" "expected_goal_status s thr = None"
    and n: "jget ''threadId'' params = JStr thr" "jget ''goal'' params = g" "is_dict g"
    and change: "\<not> same_goal l g \<or> jget ''status'' g \<noteq> JStr ''paused'' \<or> \<not> py_eq (jget ''updatedAt'' g) (JInt (goal_updated_at l))"
    and fresh: "\<not> (same_goal l g \<and> type_is_int (jget ''updatedAt'' g) \<and> int_of_json (jget ''updatedAt'' g) < goal_updated_at l)"
  shows "\<exists>s' l'. bstep (Ev_notify now ''thread/goal/updated'' params) s = Some s'
    \<and> lease_at s' (job_id l) = Some l' \<and> lease_state l' = L_abandoned \<and> delivery_state l' = D_abandoned
    \<and> db_live_for_thread (store s') thr = None"
proof -
  have inv: "bridge_inv s" using bridge_reach_inv [OF reach] .
  then have c: "core None {} {} s" by (simp add: bridge_inv_def)
  have ok: "store_ok (store s)" using core_store_ok [OF c] .
  have get: "lease_at s (job_id l) = Some l" "is_live l" using live db_live_for_thread_iff [OF ok] by auto
  let ?fs = "abandon_fields ''Goal was changed outside the bridge''"
  have upd: "st_update now (job_id l) ?fs s = (s\<lparr>store := db_put now (job_id l) ?fs (store s)\<rparr>, Inr (set_fields ?fs l))"
    by (rule st_update_ok [OF c get(1)]) (use get(2) in \<open>auto simp: abandon_fields_def\<close>)
  have "db_live_for_thread (db_put now (job_id l) ?fs (store s)) thr = None"
    using ls.live_after_retire(3) [OF ok live, of ?fs now]
    by (simp add: abandon_fields_def is_live_def live_state_def)
  then show ?thesis
    using upd live act quiet n change fresh get(1)
    by (auto simp: on_notification_def goal_updated_def abandon_for_manual_change_def drop_frame db_get_put
        abandon_fields_def Let_def)
qed

theorem foreign_change_abandons_witness:
  "\<exists>s s'. run_events demo_armed demo_boot = Some s
     \<and> bstep (Ev_notify 4 ''thread/goal/updated'' (JObj [(''threadId'', JStr demo_thread), (''goal'', demo_goal ''active'' 9)])) s = Some s'
     \<and> db_live_for_thread (store s') demo_thread = None"
proof -
  obtain s l where s: "run_events demo_armed demo_boot = Some s" and l: "lease_at s demo_job = Some l"
      "lease_state l = L_armed" "delivery_state l = D_pending" "thread_id l = demo_thread"
    and q: "pause_notifications s demo_thread = None" "expected_goal_status s demo_thread = None"
    and gu: "goal_updated_at l = 8"
    using demo_armed_run by auto
  have reach: "bridge_reach s" by (rule demo_reach [OF s])
  have ok: "store_ok (store s)" using bridge_reach_inv [OF reach] by (simp add: bridge_inv_def core_def)
  have "db_live_for_thread (store s) demo_thread = Some l"
    using l db_get_key [OF l(1)] by (simp add: db_live_for_thread_iff [OF ok] is_live_def live_state_def)
  from foreign_change_abandons [OF reach this _ q, where g = "demo_goal ''active'' 9" and now = 4 and
      params = "JObj [(''threadId'', JStr demo_thread), (''goal'', demo_goal ''active'' 9)]"]
  show ?thesis using s l gu by (simp add: jfield_def demo_goal_def del: bstep.simps) blast
qed

text \<open>A second job on the thread, after an activation that the App Server did not confirm.\<close>

definition stale_job :: string where
  "stale_job = ''fedcba9876543210fedcba9876543210''"

definition stale_run :: "event list" where
  "stale_run = demo_asking @ [demo_activate, Ev_reply 10 3 (demo_reply ''paused'' 8),
     Ev_request 11 (Decoded (bridge_request ''prepare'' stale_job demo_thread
       [(''timeout_sec'', JInt 100), (''grace_period_sec'', JInt 5)])),
     Ev_reply 12 4 (demo_reply ''active'' 20), Ev_reply 13 4 (demo_reply ''paused'' 21),
     Ev_reply 14 4 (demo_reply ''paused'' 21)]"

definition foreign_resume :: event where
  "foreign_resume = Ev_notify 15 ''thread/goal/updated''
     (JObj [(''threadId'', JStr demo_thread), (''goal'', demo_goal ''active'' 22)])"

lemma stale_run_run:
  "map_option (\<lambda>s. (map_option (\<lambda>l. (job_id l, lease_state l)) (db_live_for_thread (store s) demo_thread),
      expected_goal_status s demo_thread,
      map_option (\<lambda>s'. map_option lease_state (lease_at s' stale_job)) (bstep foreign_resume s)))
     (run_events stale_run demo_boot) =
   Some (Some (stale_job, L_armed), Some (''active'', None), Some (Some L_armed))"
  by code_simp

text \<open>
  C40. A gap in C14: after an activation whose confirmation does not match, the expected
  status entry of the thread is not removed. It outlives its lease, and the next job of the
  thread loses one genuine change to it: a Goal resumed outside the bridge leaves that
  job's lease armed.
\<close>

theorem stale_expected_status:
  "\<exists>s s' l l'. bridge_reach s \<and> expected_goal_status s demo_thread = Some (''active'', None)
     \<and> db_live_for_thread (store s) demo_thread = Some l \<and> lease_state l = L_armed
     \<and> bstep foreign_resume s = Some s' \<and> lease_at s' (job_id l) = Some l' \<and> lease_state l' = L_armed"
proof -
  obtain s s' l l' where s: "run_events stale_run demo_boot = Some s"
    and "db_live_for_thread (store s) demo_thread = Some l" "job_id l = stale_job" "lease_state l = L_armed"
      "expected_goal_status s demo_thread = Some (''active'', None)"
      "bstep foreign_resume s = Some s'" "lease_at s' stale_job = Some l'" "lease_state l' = L_armed"
    using stale_run_run by auto
  then show ?thesis using demo_reach [OF s] by metis
qed

end
