(* ===== verification/Session_Bridge.thy ===== *)
theory Session_Bridge
  imports Goal_Bridge "HOL-Library.AList"
begin

text \<open>
  The session bridge (\<open>session_bridge.py\<close>, class \<open>SessionBridge\<close>): session handoff
  layered on the Goal bridge, and the part of the TUI proxy it works with
  (\<open>tui_proxy.py\<close>: the \<open>Peer\<close> of a connection and the messages of the user that
  change a session). The class extends \<open>GoalBridge\<close>; its record extends the Goal
  bridge's, inherited methods are the functions of \<open>Goal_Bridge\<close>, and a method that
  calls an overridden one gets the override. The coroutines are cut at their awaits as
  there, and \<open>sstep\<close> is the step of the whole coordinator on one event.
\<close>

section \<open>State\<close>

text \<open>A peer is the connection of one TUI; the number is its identity.\<close>

type_synonym peer = nat

text \<open>What is sent over the connection of a peer: RPCs of the bridge, messages of the user.\<close>

datatype peer_rpc =
    Turns_list string
  | Peer_goal_get string
  | Turn_interrupt string "string option"
  | Inject_items string string
  | Turn_start string string
  | Forward json

text \<open>The locals of the inner function \<open>prepare\<close> of \<open>_prepare\<close>.\<close>

record prep =
  p_job :: string
  p_thread :: string
  p_call :: string
  p_goal :: json
  p_timeout :: int
  p_grace :: int
  p_turn :: string
  p_peer :: peer

text \<open>
  Where a coroutine is suspended in the code of this class: in \<open>_prepare\<close>
  (\<open>SP_\<close>), \<open>_handoff\<close> (\<open>H_\<close>), \<open>_deliver\<close> (\<open>D_\<close>), and in the proxy's
  forwarding of a user's message (\<open>Y_\<close>; at \<open>Y_goal\<close> inside the inherited
  \<open>user_goal_control\<close>). A point holds the locals the rest of the code reads.
\<close>

datatype session_pc =
    SP_get string string json
  | SP_observe prep
  | SP_lock prep
  | SP_latest prep
  | SP_goal prep
  | H_lock wake_lease peer string
  | H_goal wake_lease peer string
  | H_latest wake_lease peer string
  | H_interrupt wake_lease peer string
  | H_done wake_lease peer string
  | H_latest2 wake_lease peer string
  | H_inject wake_lease peer string
  | D_lock wake_lease peer
  | D_goal wake_lease peer "string option"
  | D_latest wake_lease peer "string option"
  | D_start wake_lease peer
  | Y_lock peer json
  | Y_send peer
  | Y_goal peer

text \<open>
  The fields of \<open>SessionBridge\<close>; a dict whose order is used is an association list.
  \<open>activity_lock\<close> maps a peer to the task inside its \<open>exclusive\<close>. A task that
  entered this class's code has its point in \<open>session_tasks\<close>; a delivery task keeps
  its entry of \<open>tasks\<close> beside it, where its cancellation is noted. \<open>peer_sent\<close>
  records what went over the peers' connections, with the job it serves.
\<close>

record session_bridge = goal_bridge +
  peers :: "(string \<times> peer) list"
  lease_peers :: "(string \<times> peer) list"
  ambiguous_threads :: "string set"
  calls :: "((string \<times> string) \<times> (string \<times> peer)) list"
  call_changed :: bool
  turn_done :: "string \<times> string \<rightharpoonup> bool"
  activity_lock :: "peer \<rightharpoonup> nat"
  session_tasks :: "nat \<rightharpoonup> session_pc"
  peer_sent :: "(peer \<times> string \<times> peer_rpc) list"

text \<open>How a segment ends, when it does not raise: suspended here, or as inherited code ends.\<close>

datatype scoro = At session_pc | Base coro

definition lift_base :: "('s, coro) outcome \<Rightarrow> ('s, scoro) outcome" where
  "lift_base res = (case res of (s, Inl e) \<Rightarrow> (s, Inl e) | (s, Inr c) \<Rightarrow> (s, Inr (Base c)))"

abbreviation reply_with :: "jfields \<Rightarrow> scoro" where
  "reply_with kvs \<equiv> Base (Done (JObj kvs))"

definition peer_send :: "peer \<Rightarrow> string \<Rightarrow> peer_rpc \<Rightarrow> session_bridge \<Rightarrow> session_bridge" where
  "peer_send p j r s = s\<lparr>peer_sent := peer_sent s @ [(p, j, r)]\<rparr>"

text \<open>\<open>exclusive\<close>: \<open>async with activity_lock\<close>.\<close>

definition enter :: "peer \<Rightarrow> nat \<Rightarrow> session_bridge \<Rightarrow> session_bridge" where
  "enter p tid s = s\<lparr>activity_lock := (activity_lock s)(p \<mapsto> tid)\<rparr>"

definition leave :: "peer \<Rightarrow> session_bridge \<Rightarrow> session_bridge" where
  "leave p s = s\<lparr>activity_lock := (activity_lock s)(p := None)\<rparr>"

definition pop_lease_peer :: "string \<Rightarrow> session_bridge \<Rightarrow> session_bridge" where
  "pop_lease_peer j s = s\<lparr>lease_peers := AList.delete j (lease_peers s)\<rparr>"

section \<open>Checks on foreign values\<close>

text \<open>\<open>v in {...}\<close> for a set of texts: lists and dicts cannot be hashed.\<close>

fun str_in :: "json \<Rightarrow> string list \<Rightarrow> pyexc + bool" where
  "str_in (JStr t) ts = Inr (t \<in> set ts)"
| "str_in (JArr _) ts = Inl (TypeError (''unhashable type: '' @ py_repr ''list''))"
| "str_in (JObj _) ts = Inl (TypeError (''unhashable type: '' @ py_repr ''dict''))"
| "str_in _ ts = Inr False"

fun type_name :: "json \<Rightarrow> string" where
  "type_name JNull = ''NoneType''"
| "type_name (JBool _) = ''bool''"
| "type_name (JInt _) = ''int''"
| "type_name (JFloat _ _) = ''float''"
| "type_name (JStr _) = ''str''"
| "type_name (JArr _) = ''list''"
| "type_name (JObj _) = ''dict''"

text \<open>\<open>v.get(k)\<close> on a value that may not be a dict.\<close>

definition attr_get :: "string \<Rightarrow> json \<Rightarrow> pyexc + json" where
  "attr_get k v =
     (if is_dict v then Inr (jget k v)
      else Inl (AttributeError (py_repr (type_name v) @ '' object has no attribute '' @ py_repr ''get'')))"

text \<open>What \<open>_latest_turn\<close> makes of the reply to \<open>thread/turns/list\<close>.\<close>

definition latest_turn :: "json \<Rightarrow> pyexc + json" where
  "latest_turn res =
     (case (if is_dict res then jget ''data'' res else JNull) of
        JArr [t] \<Rightarrow> if is_dict t then Inr t
                   else Inl (RuntimeError ''cannot confirm the current turn through bounded history'')
      | _ \<Rightarrow> Inl (RuntimeError ''cannot confirm the current turn through bounded history''))"

definition turn_is :: "string option \<Rightarrow> string \<Rightarrow> json \<Rightarrow> bool" where
  "turn_is tid status t \<longleftrightarrow>
     py_eq (jget ''id'' t) (json_opt_str tid) \<and> py_eq (jget ''status'' t) (JStr status)"

text \<open>What \<open>_check_goal\<close> makes of the reply to \<open>thread/goal/get\<close>.\<close>

definition check_goal :: "wake_lease \<Rightarrow> json \<Rightarrow> pyexc + unit" where
  "check_goal lease res =
     (if \<not> is_dict res \<or> \<not> jhas ''goal'' res
      then Inl (RuntimeError ''cannot confirm unchanged Goal state'')
      else if dumps_sorted (jget ''goal'' res) \<noteq> objective lease
      then Inl (RuntimeError ''Goal changed while session continuation was pending'')
      else Inr ())"

section \<open>Leases and their owners\<close>

definition live_session :: "string \<Rightarrow> session_bridge \<Rightarrow> pyexc + wake_lease" where
  "live_session j s =
     (case db_get (store s) j of
        None \<Rightarrow> Inl (RuntimeError ''session wake lease is no longer live'')
      | Some lease \<Rightarrow>
          if wake_mode lease \<noteq> M_session \<or> lease_state lease \<notin> {L_armed, L_terminal}
             \<or> delivery_state lease \<in> {D_abandoned, D_needs_manual_recovery, D_resumed}
          then Inl (RuntimeError ''session wake lease is no longer live'')
          else Inr lease)"

definition owner :: "wake_lease \<Rightarrow> session_bridge \<Rightarrow> pyexc + peer" where
  "owner lease s =
     (case map_of (lease_peers s) (job_id lease) of
        None \<Rightarrow> Inl (RuntimeError ''the original owning TUI is unavailable or ambiguous'')
      | Some p \<Rightarrow>
          if map_of (peers s) (thread_id lease) \<noteq> Some p \<or> thread_id lease \<in> ambiguous_threads s
          then Inl (RuntimeError ''the original owning TUI is unavailable or ambiguous'')
          else Inr p)"

definition session_failed ::
  "clock \<Rightarrow> string \<Rightarrow> string \<Rightarrow> session_bridge \<Rightarrow> (session_bridge, unit) outcome" where
  "session_failed now j reason s =
     (case db_get (store s) j of
        None \<Rightarrow> (s, Inr ())
      | Some lease \<Rightarrow>
          if lease_state lease \<in> {L_armed, L_terminal}
          then and_then (st_update now j (failed_fields reason) s) (\<lambda>_ s. (pop_lease_peer j s, Inr ()))
          else (s, Inr ()))"

text \<open>The override of \<open>_abandon_for_manual_change\<close>.\<close>

definition s_abandon :: "session_bridge abandon" where
  "s_abandon now thr reason s =
     (let lease = db_live_for_thread (store s) thr in
      and_then (abandon_for_manual_change now thr reason s)
        (\<lambda>_ s. (case lease of
                  None \<Rightarrow> s
                | Some l \<Rightarrow>
                    if wake_mode l = M_session \<and>
                       (case db_get (store s) (job_id l) of
                          None \<Rightarrow> False | Some current \<Rightarrow> lease_state current = L_abandoned)
                    then pop_lease_peer (job_id l) s else s,
                Inr ())))"

section \<open>Events of a TUI connection\<close>

definition user_activity :: "clock \<Rightarrow> string \<Rightarrow> session_bridge \<Rightarrow> (session_bridge, unit) outcome" where
  "user_activity now thr s =
     (let s = s\<lparr>calls := filter (\<lambda>((t, _), _). t \<noteq> thr) (calls s)\<rparr> in
      case db_live_for_thread (store s) thr of
        None \<Rightarrow> (s, Inr ())
      | Some lease \<Rightarrow>
          if wake_mode lease = M_session
          then s_abandon now thr ''User activity superseded automatic continuation'' s
          else (s, Inr ()))"

text \<open>\<open>while len(self.calls) > 256: self.calls.popitem(last=False)\<close>.\<close>

fun trim_calls :: "'a list \<Rightarrow> 'a list" where
  "trim_calls [] = []"
| "trim_calls (c # cs) = (if length (c # cs) > 256 then trim_calls cs else c # cs)"

definition observe_item :: "peer \<Rightarrow> string \<Rightarrow> json \<Rightarrow> session_bridge \<Rightarrow> session_bridge" where
  "observe_item p thr params s =
     (let item = jget_default ''item'' (JObj []) params in
      if is_dict item \<and> py_eq (jget ''type'' item) (JStr ''mcpToolCall'')
         \<and> py_eq (jget ''server'' item) (JStr ''longrun'') \<and> py_eq (jget ''tool'' item) (JStr ''start_job'')
         \<and> is_str (jget ''id'' item) \<and> is_str (jget ''turnId'' params)
      then s\<lparr>calls := trim_calls (AList.update (thr, str_of_json (jget ''id'' item))
                                    (str_of_json (jget ''turnId'' params), p) (calls s)),
             peers := AList.update thr p (peers s), call_changed := True\<rparr>
      else s)"

definition observe_started ::
  "clock \<Rightarrow> peer \<Rightarrow> string \<Rightarrow> json \<Rightarrow> session_bridge \<Rightarrow> (session_bridge, unit) outcome" where
  "observe_started now p thr params s =
     (let s = s\<lparr>peers := AList.update thr p (peers s)\<rparr> in
      case attr_get ''id'' (jget_default ''turn'' (JObj []) params) of
        Inl e \<Rightarrow> (s, Inl e)
      | Inr turn \<Rightarrow>
          (case db_live_for_thread (store s) thr of
             None \<Rightarrow> (s, Inr ())
           | Some lease \<Rightarrow>
               if wake_mode lease = M_session \<and> \<not> py_eq turn (json_opt_str (turn_id lease))
                  \<and> delivery_state lease \<noteq> D_activating
               then s_abandon now thr ''Another turn started before wake delivery'' s
               else (s, Inr ())))"

definition observe_completed ::
  "clock \<Rightarrow> string \<Rightarrow> json \<Rightarrow> session_bridge \<Rightarrow> (session_bridge, unit) outcome" where
  "observe_completed now thr params s =
     (case attr_get ''id'' (jget_default ''turn'' (JObj []) params) of
        Inl e \<Rightarrow> (s, Inl e)
      | Inr (JStr turn) \<Rightarrow>
          let s = (if turn_done s (thr, turn) = None then s
                   else s\<lparr>turn_done := (turn_done s)((thr, turn) \<mapsto> True)\<rparr>) in
          and_then
            (case db_live_for_thread (store s) thr of
               None \<Rightarrow> (s, Inr ())
             | Some lease \<Rightarrow>
                 if wake_mode lease = M_session \<and> turn_id lease = Some turn
                    \<and> handoff_state lease \<notin> {H_interrupting, H_ready}
                 then s_abandon now thr ''Originating turn ended before handoff'' s
                 else (s, Inr ()))
            (\<lambda>_ s. (s\<lparr>calls := filter (\<lambda>((t, _), (u, _)). \<not> (t = thr \<and> u = turn)) (calls s)\<rparr>, Inr ()))
      | Inr _ \<Rightarrow> (s, Inr ()))"

definition observe ::
  "clock \<Rightarrow> peer \<Rightarrow> string \<Rightarrow> json \<Rightarrow> session_bridge \<Rightarrow> (session_bridge, unit) outcome" where
  "observe now p meth params s =
     (case jget ''threadId'' params of
        JStr thr \<Rightarrow>
          if meth \<in> {''item/started'', ''turn/started''} \<and> map_of (peers s) thr \<notin> {None, Some p}
          then user_activity now thr (s\<lparr>ambiguous_threads := insert thr (ambiguous_threads s)\<rparr>)
          else if meth = ''item/started'' then (observe_item p thr params s, Inr ())
          else if meth = ''turn/started'' then observe_started now p thr params s
          else if meth = ''turn/completed''
          then and_then (observe_completed now thr params s) (\<lambda>_ s. (set_event thr s, Inr ()))
          else if meth = ''thread/status/changed'' then (set_event thr s, Inr ())
          else (s, Inr ())
      | _ \<Rightarrow> (s, Inr ()))"

text \<open>The three loops of \<open>disconnected\<close>, each over a snapshot of its dict.\<close>

fun drop_threads ::
  "clock \<Rightarrow> peer \<Rightarrow> (string \<times> peer) list \<Rightarrow> session_bridge \<Rightarrow> (session_bridge, unit) outcome" where
  "drop_threads now p [] s = (s, Inr ())"
| "drop_threads now p ((thr, q) # ps) s =
     (if q = p
      then and_then (user_activity now thr s)
             (\<lambda>_ s. drop_threads now p ps
                      (s\<lparr>peers := AList.delete thr (peers s),
                         ambiguous_threads := ambiguous_threads s - {thr}\<rparr>))
      else drop_threads now p ps s)"

fun drop_leases ::
  "clock \<Rightarrow> peer \<Rightarrow> (string \<times> peer) list \<Rightarrow> session_bridge \<Rightarrow> (session_bridge, unit) outcome" where
  "drop_leases now p [] s = (s, Inr ())"
| "drop_leases now p ((j, q) # ps) s =
     (if q = p
      then and_then (case db_get (store s) j of
                       None \<Rightarrow> (s, Inr ()) | Some lease \<Rightarrow> user_activity now (thread_id lease) s)
             (\<lambda>_ s. drop_leases now p ps (pop_lease_peer j s))
      else drop_leases now p ps s)"

definition disconnected :: "clock \<Rightarrow> peer \<Rightarrow> session_bridge \<Rightarrow> (session_bridge, unit) outcome" where
  "disconnected now p s =
     and_then (drop_threads now p (peers s) s) (\<lambda>_ s.
     and_then (drop_leases now p (lease_peers s) s) (\<lambda>_ s.
       (s\<lparr>calls := filter (\<lambda>(_, (_, q)). q \<noteq> p) (calls s)\<rparr>, Inr ())))"

section \<open>Registration\<close>

text \<open>\<open>_prepare\<close> up to its first await.\<close>

definition s_prepare ::
  "string \<Rightarrow> json \<Rightarrow> session_bridge \<Rightarrow> (session_bridge, scoro) outcome" where
  "s_prepare job req s =
     (let policy = jget_default ''wake_policy'' (JStr ''goal'') req in
      if py_eq policy (JStr ''goal'') then lift_base (prepare_start job req s)
      else
        (case str_in policy [''auto'', ''session''] of
           Inl e \<Rightarrow> (s, Inl e)
         | Inr False \<Rightarrow> (s, Inl (ValueError ''invalid wake policy''))
         | Inr True \<Rightarrow>
             (case check_thread_id (jget ''thread_id'' req) of
                Inl e \<Rightarrow> (s, Inl e)
              | Inr thr \<Rightarrow> (send job (Goal_get thr) s, Inr (At (SP_get job thr req))))))"

definition s_prepare_got ::
  "string \<Rightarrow> string \<Rightarrow> json \<Rightarrow> pyexc + json \<Rightarrow> session_bridge \<Rightarrow> (session_bridge, scoro) outcome" where
  "s_prepare_got job thr req reply s =
     (case reply of Inl e \<Rightarrow> (s, Inl e) | Inr res \<Rightarrow>
        if \<not> is_dict res \<or> \<not> jhas ''goal'' res
        then (s, Inl (RuntimeError ''cannot establish Goal state''))
        else
          let goal = jget ''goal'' res; call = jget ''call_id'' req;
              timeout = jget ''timeout_sec'' req; grace = jget ''grace_period_sec'' req in
          if is_dict goal \<and> py_eq (jget ''status'' goal) (JStr ''active'')
             \<and> py_eq (jget ''wake_policy'' req) (JStr ''auto'')
          then lift_base (prepare_start job req s)
          else if goal \<noteq> JNull \<and> \<not> (is_dict goal \<and> py_eq (jget ''status'' goal) (JStr ''complete''))
          then (s, Inl (RuntimeError ''session wakeup requires no Goal or a completed Goal; paused Goals are not bypassed''))
          else if \<not> is_str call \<or> \<not> (1 \<le> length (str_of_json call) \<and> length (str_of_json call) \<le> 256)
          then (s, Inl (RuntimeError ''session wakeup requires trusted MCP call metadata''))
          else if \<not> type_is_int timeout \<or> \<not> (1 \<le> int_of_json timeout \<and> int_of_json timeout \<le> 7 * 24 * 3600)
                  \<or> \<not> type_is_int grace \<or> \<not> (1 \<le> int_of_json grace \<and> int_of_json grace \<le> 120)
          then (s, Inl (ValueError ''invalid session wake deadline''))
          else (s, Inr (At (SP_observe \<lparr>p_job = job, p_thread = thr, p_call = str_of_json call, p_goal = goal,
                                       p_timeout = int_of_json timeout, p_grace = int_of_json grace,
                                       p_turn = [], p_peer = 0\<rparr>))))"

text \<open>
  The loop of \<open>observed\<close>: it ends when the call was seen, else it clears the event and
  waits again.
\<close>

definition s_prepare_observed :: "prep \<Rightarrow> session_bridge \<Rightarrow> (session_bridge, scoro) outcome" where
  "s_prepare_observed p s =
     (case map_of (calls s) (p_thread p, p_call p) of
        None \<Rightarrow> (s\<lparr>call_changed := False\<rparr>, Inr (At (SP_observe p)))
      | Some (turn, q) \<Rightarrow> (s, Inr (At (SP_lock (p\<lparr>p_turn := turn, p_peer := q\<rparr>)))))"

definition observe_timeout :: pyexc where
  "observe_timeout = RuntimeError ''session handoff requires the matching live codex-longrun TUI connection''"

text \<open>\<open>exclusive\<close> around the inner function.\<close>

definition in_prepare :: "prep \<Rightarrow> (session_bridge, scoro) outcome \<Rightarrow> (session_bridge, scoro) outcome" where
  "in_prepare p res =
     (case res of
        (s, Inr (At pc)) \<Rightarrow> (s, Inr (At pc))
      | (s, r) \<Rightarrow> (leave (p_peer p) s, r))"

definition s_prepare_enter :: "prep \<Rightarrow> session_bridge \<Rightarrow> (session_bridge, scoro) outcome" where
  "s_prepare_enter p s =
     (if p_thread p \<in> ambiguous_threads s
      then (s, Inl (RuntimeError ''session handoff requires one unambiguous owning TUI connection''))
      else if map_of (calls s) (p_thread p, p_call p) \<noteq> Some (p_turn p, p_peer p)
      then (s, Inl (RuntimeError ''user activity superseded the originating tool call''))
      else (peer_send (p_peer p) (p_job p) (Turns_list (p_thread p)) s, Inr (At (SP_latest p))))"

definition s_prepare_latest ::
  "prep \<Rightarrow> pyexc + json \<Rightarrow> session_bridge \<Rightarrow> (session_bridge, scoro) outcome" where
  "s_prepare_latest p reply s =
     (case bindr reply latest_turn of Inl e \<Rightarrow> (s, Inl e) | Inr turn \<Rightarrow>
        if \<not> turn_is (Some (p_turn p)) ''inProgress'' turn
        then (s, Inl (RuntimeError ''originating tool call is no longer in the active turn''))
        else (peer_send (p_peer p) (p_job p) (Peer_goal_get (p_thread p)) s, Inr (At (SP_goal p))))"

text \<open>The commit of a registration: no await between the last check and the armed lease.\<close>

definition s_prepare_commit ::
  "clock \<Rightarrow> prep \<Rightarrow> session_bridge \<Rightarrow> (session_bridge, scoro) outcome" where
  "s_prepare_commit now p s =
     and_then
       (st_create now
          \<lparr>nl_job_id = p_job p, nl_thread_id = p_thread p, nl_objective = dumps_sorted (p_goal p),
           nl_goal_created_at = 0, nl_goal_updated_at = 0,
           nl_deadline_at = now + of_int (p_timeout p) + of_int (p_grace p) + 60,
           nl_wake_mode = M_session, nl_turn_id = Some (p_turn p), nl_call_id = Some (p_call p)\<rparr> s)
       (\<lambda>lease s.
          if wake_mode lease \<noteq> M_session \<or> turn_id lease \<noteq> Some (p_turn p) \<or> call_id lease \<noteq> Some (p_call p)
          then (s, Inl (RuntimeError ''job already belongs to a different wake registration''))
          else
            and_then (st_update now (p_job p) [F_state L_armed] s)
              (\<lambda>_ s.
                 let s = s\<lparr>lease_peers := AList.update (p_job p) (p_peer p) (lease_peers s)\<rparr>;
                     l = (case db_get (store s) (p_job p) of None \<Rightarrow> lease | Some l \<Rightarrow> l) in
                 (schedule_deadline l s,
                  Inr (reply_with [(''ok'', JBool True), (''automatic_wakeup'', JBool True),
                                   (''wake_mode'', JStr ''session''), (''thread_id'', JStr (p_thread p)),
                                   (''turn_id'', JStr (p_turn p))]))))"

definition s_prepare_goal ::
  "clock \<Rightarrow> prep \<Rightarrow> pyexc + json \<Rightarrow> session_bridge \<Rightarrow> (session_bridge, scoro) outcome" where
  "s_prepare_goal now p reply s =
     (case reply of Inl e \<Rightarrow> (s, Inl e) | Inr res \<Rightarrow>
        if \<not> is_dict res \<or> \<not> jhas ''goal'' res \<or> \<not> py_eq (jget ''goal'' res) (p_goal p)
        then (s, Inl (RuntimeError ''Goal changed before session registration''))
        else
          (case db_get (store s) (p_job p) of
             None \<Rightarrow> s_prepare_commit now p s
           | Some existing \<Rightarrow>
               if lease_state existing \<noteq> L_armed \<or> handoff_state existing \<noteq> H_pending
               then (s, Inl (RuntimeError ''job already has a non-reusable wake lease''))
               else s_prepare_commit now p s))"

section \<open>Handoff\<close>

definition job_states :: "string list" where
  "job_states = [''starting'', ''running'', ''succeeded'', ''failed'', ''timed_out'', ''inactive_timeout'',
     ''cancelled'', ''spawn_error'', ''success_condition_not_met'', ''orphaned_recovered'']"

definition s_handoff ::
  "wake_lease \<Rightarrow> json \<Rightarrow> session_bridge \<Rightarrow> (session_bridge, scoro) outcome" where
  "s_handoff lease req s =
     (case str_in (jget ''job_state'' req) job_states of
        Inl e \<Rightarrow> (s, Inl e)
      | Inr False \<Rightarrow> (s, Inl (ValueError ''invalid session start receipt''))
      | Inr True \<Rightarrow>
          (case live_session (job_id lease) s of
             Inl e \<Rightarrow> (s, Inl e)
           | Inr lease \<Rightarrow>
               if handoff_state lease = H_ready
               then (s, Inr (reply_with [(''ok'', JBool True), (''handoff'', JStr ''complete''),
                                         (''idempotent'', JBool True)]))
               else
                 (case owner lease s of
                    Inl e \<Rightarrow> (s, Inl e)
                  | Inr p \<Rightarrow> (s, Inr (At (H_lock lease p (str_of_json (jget ''job_state'' req))))))))"

definition turn_key :: "wake_lease \<Rightarrow> string \<times> string" where
  "turn_key lease = (thread_id lease, case turn_id lease of None \<Rightarrow> [] | Some t \<Rightarrow> t)"

definition pop_turn :: "wake_lease \<Rightarrow> session_bridge \<Rightarrow> session_bridge" where
  "pop_turn lease s = s\<lparr>turn_done := (turn_done s)(turn_key lease := None)\<rparr>"

text \<open>The \<open>except\<close> around the transfer: a failed handoff fails its lease, and the exception goes on.\<close>

definition handoff_raise ::
  "clock \<Rightarrow> wake_lease \<Rightarrow> pyexc \<Rightarrow> session_bridge \<Rightarrow> (session_bridge, scoro) outcome" where
  "handoff_raise now lease e s =
     (if e = CancelledError then (s, Inl CancelledError)
      else and_then (session_failed now (job_id lease) (''handoff failed: '' @ exc_str e) s)
             (\<lambda>_ s. (s, Inl e)))"

text \<open>
  The inner function \<open>transfer\<close> inside \<open>exclusive\<close> and \<open>wait_for\<close>; \<open>guarded\<close>
  is its part inside the \<open>try\<close> that removes the turn's event.
\<close>

definition in_transfer ::
  "clock \<Rightarrow> wake_lease \<Rightarrow> peer \<Rightarrow> bool \<Rightarrow> (session_bridge, scoro) outcome \<Rightarrow>
   (session_bridge, scoro) outcome" where
  "in_transfer now lease p guarded res =
     (let out = (\<lambda>s. leave p (if guarded then pop_turn lease s else s)) in
      case res of
        (s, Inr (At pc)) \<Rightarrow> (s, Inr (At pc))
      | (s, Inr (Base c)) \<Rightarrow> (out s, Inr (Base c))
      | (s, Inl e) \<Rightarrow> handoff_raise now lease e (out s))"

definition transfer_enter ::
  "wake_lease \<Rightarrow> peer \<Rightarrow> string \<Rightarrow> session_bridge \<Rightarrow> (session_bridge, scoro) outcome" where
  "transfer_enter lease p st s =
     (case live_session (job_id lease) s of
        Inl e \<Rightarrow> (s, Inl e)
      | Inr current \<Rightarrow>
          if handoff_state current \<noteq> H_pending
          then (s, Inl (RuntimeError ''handoff already attempted; do not retry interruption''))
          else (peer_send p (job_id lease) (Peer_goal_get (thread_id lease)) s,
                Inr (At (H_goal current p st))))"

definition transfer_goal ::
  "wake_lease \<Rightarrow> peer \<Rightarrow> string \<Rightarrow> pyexc + json \<Rightarrow> session_bridge \<Rightarrow> (session_bridge, scoro) outcome" where
  "transfer_goal lease p st reply s =
     (case bindr reply (check_goal lease) of
        Inl e \<Rightarrow> (s, Inl e)
      | Inr _ \<Rightarrow> (peer_send p (job_id lease) (Turns_list (thread_id lease)) s, Inr (At (H_latest lease p st))))"

definition transfer_interrupt ::
  "clock \<Rightarrow> wake_lease \<Rightarrow> peer \<Rightarrow> string \<Rightarrow> pyexc + json \<Rightarrow> session_bridge \<Rightarrow>
   (session_bridge, scoro) outcome" where
  "transfer_interrupt now lease p st reply s =
     (case bindr reply latest_turn of Inl e \<Rightarrow> (s, Inl e) | Inr turn \<Rightarrow>
        if \<not> turn_is (turn_id lease) ''inProgress'' turn
        then (s, Inl (RuntimeError ''originating turn changed before handoff''))
        else
     (case live_session (job_id lease) s of Inl e \<Rightarrow> (s, Inl e) | Inr _ \<Rightarrow>
     (case owner lease s of Inl e \<Rightarrow> (s, Inl e) | Inr _ \<Rightarrow>
        let s = (if turn_done s (turn_key lease) = None
                 then s\<lparr>turn_done := (turn_done s)(turn_key lease \<mapsto> False)\<rparr> else s) in
        and_then (st_update now (job_id lease) [F_handoff_state H_interrupting, F_receipt_state st] s)
          (\<lambda>_ s. (peer_send p (job_id lease) (Turn_interrupt (thread_id lease) (turn_id lease)) s,
                  Inr (At (H_interrupt lease p st)))))))"

text \<open>After the reply to the interrupt, and after the turn's completion was observed.\<close>

definition transfer_wait ::
  "wake_lease \<Rightarrow> peer \<Rightarrow> string \<Rightarrow> pyexc + json \<Rightarrow> session_bridge \<Rightarrow> (session_bridge, scoro) outcome" where
  "transfer_wait lease p st reply s =
     (case reply of Inl e \<Rightarrow> (s, Inl e) | Inr _ \<Rightarrow> (s, Inr (At (H_done lease p st))))"

definition transfer_done ::
  "wake_lease \<Rightarrow> peer \<Rightarrow> string \<Rightarrow> session_bridge \<Rightarrow> (session_bridge, scoro) outcome" where
  "transfer_done lease p st s =
     (peer_send p (job_id lease) (Turns_list (thread_id lease)) s, Inr (At (H_latest2 lease p st)))"

definition receipt_text :: "string \<Rightarrow> string \<Rightarrow> string" where
  "receipt_text job st =
     ''[Longrun session handoff]'' @ [CHR 0x0A] @ ''Job '' @ job @
     '' was registered for automatic session continuation; its state at handoff was '' @ st @
     ''. The bridge intentionally interrupted the pending start_job transport after startup to release the model turn. '' @
     ''An aborted outer functions.exec does not mean the background job failed to start. '' @
     ''Do not launch a duplicate. On the completion wake, call longrun.get_job once for '' @
     ''this job, inspect its result, and continue the original user task. '' @
     ''No Goal was created or reactivated. New user instructions take precedence.''"

definition transfer_receipt ::
  "clock \<Rightarrow> wake_lease \<Rightarrow> peer \<Rightarrow> string \<Rightarrow> pyexc + json \<Rightarrow> session_bridge \<Rightarrow>
   (session_bridge, scoro) outcome" where
  "transfer_receipt now lease p st reply s =
     (case bindr reply latest_turn of Inl e \<Rightarrow> (s, Inl e) | Inr turn \<Rightarrow>
        if \<not> turn_is (turn_id lease) ''interrupted'' turn
        then (s, Inl (RuntimeError ''App Server did not confirm interruption of the originating turn''))
        else
     (case live_session (job_id lease) s of Inl e \<Rightarrow> (s, Inl e) | Inr _ \<Rightarrow>
        and_then (st_update now (job_id lease) [F_handoff_state H_recording_receipt] s)
          (\<lambda>_ s. (peer_send p (job_id lease)
                    (Inject_items (thread_id lease) (receipt_text (job_id lease) st)) s,
                  Inr (At (H_inject lease p st))))))"

definition transfer_ready ::
  "clock \<Rightarrow> wake_lease \<Rightarrow> pyexc + json \<Rightarrow> session_bridge \<Rightarrow> (session_bridge, scoro) outcome" where
  "transfer_ready now lease reply s =
     (case reply of Inl e \<Rightarrow> (s, Inl e) | Inr _ \<Rightarrow>
     (case live_session (job_id lease) s of Inl e \<Rightarrow> (s, Inl e) | Inr current \<Rightarrow>
        and_then (st_update now (job_id lease) [F_handoff_state H_ready] s)
          (\<lambda>_ s.
             ((if lease_state current = L_terminal
               then schedule_delivery
                      (case db_get (store s) (job_id lease) of None \<Rightarrow> current | Some l \<Rightarrow> l) s
               else s),
              Inr (reply_with [(''ok'', JBool True), (''handoff'', JStr ''complete'')])))))"

section \<open>Terminal events and aborts\<close>

definition s_terminal ::
  "clock \<Rightarrow> string \<Rightarrow> json \<Rightarrow> session_bridge \<Rightarrow> (session_bridge, scoro) outcome" where
  "s_terminal now job req s =
     (case db_get (store s) job of
        None \<Rightarrow> lift_base (terminal_request now job req s)
      | Some lease \<Rightarrow>
          if wake_mode lease \<noteq> M_session then lift_base (terminal_request now job req s)
          else
     (case check_thread_id (jget ''thread_id'' req) of
        Inl e \<Rightarrow> (s, Inl e)
      | Inr thr \<Rightarrow>
          if thread_id lease \<noteq> thr then (s, Inl (RuntimeError ''wake lease belongs to another thread''))
          else if lease_state lease \<notin> {L_armed, L_terminal}
          then (s, Inr (Base (ok_delivery (delivery_str (delivery_state lease)) [])))
          else
     (case jget ''terminal_state'' req of
        JStr term_st \<Rightarrow>
          if length term_st > 64 then (s, Inl (ValueError ''invalid terminal_state''))
          else
            and_then
              (if lease_state lease \<noteq> L_terminal
               then st_update now job [F_state L_terminal, F_terminal_state term_st,
                                       F_delivery_state D_waiting_for_handoff] s
               else (s, Inr lease))
              (\<lambda>lease s.
                 ((if handoff_state lease = H_ready then schedule_delivery lease s else s),
                  Inr (Base (ok_delivery (delivery_str (delivery_state lease)) []))))
      | _ \<Rightarrow> (s, Inl (ValueError ''invalid terminal_state'')))))"

definition s_abort ::
  "clock \<Rightarrow> string \<Rightarrow> json \<Rightarrow> session_bridge \<Rightarrow> (session_bridge, scoro) outcome" where
  "s_abort now job req s =
     (case db_get (store s) job of
        None \<Rightarrow> lift_base (abort_request s_abandon now job req s)
      | Some lease \<Rightarrow>
          if wake_mode lease \<noteq> M_session then lift_base (abort_request s_abandon now job req s)
          else
     (case check_thread_id (jget ''thread_id'' req) of
        Inl e \<Rightarrow> (s, Inl e)
      | Inr thr \<Rightarrow>
          if thread_id lease \<noteq> thr then (s, Inl (RuntimeError ''wake lease belongs to another thread''))
          else and_then (s_abandon now (thread_id lease) ''Session registration aborted'' s)
                 (\<lambda>_ s. (s, Inr (Base (ok_delivery ''abandoned'' []))))))"

section \<open>Delivery\<close>

text \<open>The \<open>finally\<close> of \<open>_deliver\<close>, and its handlers.\<close>

definition deliver_finish :: "wake_lease \<Rightarrow> session_bridge \<Rightarrow> session_bridge" where
  "deliver_finish lease s =
     (let s = pop_delivery lease s in
      case db_get (store s) (job_id lease) of
        None \<Rightarrow> s
      | Some current \<Rightarrow>
          if lease_state current \<notin> {L_armed, L_terminal} then pop_lease_peer (job_id lease) s else s)"

definition s_deliver_raise ::
  "clock \<Rightarrow> wake_lease \<Rightarrow> pyexc \<Rightarrow> session_bridge \<Rightarrow> (session_bridge, scoro) outcome" where
  "s_deliver_raise now lease e s =
     (if e = CancelledError then (deliver_finish lease s, Inl CancelledError)
      else
        (case session_failed now (job_id lease) (''session delivery failed: '' @ exc_str e) s of
           (s', Inl e') \<Rightarrow> (deliver_finish lease s', Inl e')
         | (s', Inr _) \<Rightarrow> (deliver_finish lease s', Inr (Base (Done JNull)))))"

definition s_deliver ::
  "clock \<Rightarrow> wake_lease \<Rightarrow> session_bridge \<Rightarrow> (session_bridge, scoro) outcome" where
  "s_deliver now lease s =
     (case owner lease s of
        Inl e \<Rightarrow> s_deliver_raise now lease e s
      | Inr p \<Rightarrow> (s, Inr (At (D_lock lease p))))"

definition in_wake ::
  "clock \<Rightarrow> wake_lease \<Rightarrow> peer \<Rightarrow> (session_bridge, scoro) outcome \<Rightarrow> (session_bridge, scoro) outcome" where
  "in_wake now lease p res =
     (case res of
        (s, Inr (At pc)) \<Rightarrow> (s, Inr (At pc))
      | (s, Inr (Base c)) \<Rightarrow> (deliver_finish lease (leave p s), Inr (Base c))
      | (s, Inl e) \<Rightarrow> s_deliver_raise now lease e (leave p s))"

definition wake_enter ::
  "wake_lease \<Rightarrow> peer \<Rightarrow> session_bridge \<Rightarrow> (session_bridge, scoro) outcome" where
  "wake_enter lease p s =
     (case live_session (job_id lease) s of
        Inl e \<Rightarrow> (s, Inl e)
      | Inr current \<Rightarrow>
          if lease_state current \<noteq> L_terminal \<or> handoff_state current \<noteq> H_ready
          then (s, Inr (Base (Done JNull)))
          else (peer_send p (job_id lease) (Peer_goal_get (thread_id lease)) s,
                Inr (At (D_goal lease p (terminal_state current)))))"

definition wake_goal ::
  "wake_lease \<Rightarrow> peer \<Rightarrow> string option \<Rightarrow> pyexc + json \<Rightarrow> session_bridge \<Rightarrow>
   (session_bridge, scoro) outcome" where
  "wake_goal lease p term_st reply s =
     (case bindr reply (check_goal lease) of
        Inl e \<Rightarrow> (s, Inl e)
      | Inr _ \<Rightarrow> (peer_send p (job_id lease) (Turns_list (thread_id lease)) s,
                 Inr (At (D_latest lease p term_st))))"

definition wake_text :: "string \<Rightarrow> string option \<Rightarrow> string" where
  "wake_text job term_st =
     ''[Longrun session wake]'' @ [CHR 0x0A] @ ''Job '' @ job @ '' reached terminal state '' @
     (case term_st of None \<Rightarrow> ''None'' | Some t \<Rightarrow> t) @ ''. Read its result once with longrun.get_job, '' @
     ''then continue the original task under the latest user instructions. '' @
     ''This is one job completion notification, not a new Goal. Do not restart the job.''"

definition wake_commit ::
  "clock \<Rightarrow> wake_lease \<Rightarrow> peer \<Rightarrow> string option \<Rightarrow> pyexc + json \<Rightarrow> session_bridge \<Rightarrow>
   (session_bridge, scoro) outcome" where
  "wake_commit now lease p term_st reply s =
     (case bindr reply latest_turn of Inl e \<Rightarrow> (s, Inl e) | Inr turn \<Rightarrow>
        if \<not> turn_is (turn_id lease) ''interrupted'' turn
        then (s, Inl (RuntimeError ''newer user activity superseded this wakeup''))
        else
     (case live_session (job_id lease) s of Inl e \<Rightarrow> (s, Inl e) | Inr _ \<Rightarrow>
     (case owner lease s of Inl e \<Rightarrow> (s, Inl e) | Inr _ \<Rightarrow>
        and_then (st_update now (job_id lease) [F_delivery_state D_activating] s)
          (\<lambda>_ s. (peer_send p (job_id lease)
                    (Turn_start (thread_id lease) (wake_text (job_id lease) term_st)) s,
                  Inr (At (D_start lease p)))))))"

definition wake_started ::
  "clock \<Rightarrow> wake_lease \<Rightarrow> pyexc + json \<Rightarrow> session_bridge \<Rightarrow> (session_bridge, scoro) outcome" where
  "wake_started now lease reply s =
     (case reply of Inl e \<Rightarrow> (s, Inl e) | Inr res \<Rightarrow>
     (case (if is_dict res then attr_get ''id'' (jget_default ''turn'' (JObj []) res) else Inr JNull) of
        Inl e \<Rightarrow> (s, Inl e)
      | Inr (JStr turn) \<Rightarrow>
          and_then (st_update now (job_id lease)
                      [F_state L_delivered, F_delivery_state D_resumed, F_wake_turn_id turn] s)
            (\<lambda>_ s. (drop_deadline (job_id lease) s, Inr (Base (Done JNull))))
      | Inr _ \<Rightarrow> (s, Inl (RuntimeError ''App Server did not confirm the continuation turn''))))"

section \<open>Notifications, deadlines, recovery\<close>

definition s_on_notification ::
  "clock \<Rightarrow> string \<Rightarrow> json \<Rightarrow> session_bridge \<Rightarrow> (session_bridge, unit) outcome" where
  "s_on_notification now meth params s =
     (case jget ''threadId'' params of
        JStr thr \<Rightarrow>
          (case db_live_for_thread (store s) thr of
             Some lease \<Rightarrow>
               if wake_mode lease = M_session \<and> meth \<in> {''thread/goal/updated'', ''thread/goal/cleared''}
               then
                 let goal = (if meth = ''thread/goal/updated'' then jget ''goal'' params else JNull) in
                 (if dumps_sorted goal \<noteq> objective lease
                  then s_abandon now thr ''Goal changed while session wakeup was pending'' s
                  else (s, Inr ()))
               else on_notification s_abandon now meth params s
           | None \<Rightarrow> on_notification s_abandon now meth params s)
      | _ \<Rightarrow> on_notification s_abandon now meth params s)"

definition s_expire :: "clock \<Rightarrow> wake_lease \<Rightarrow> session_bridge \<Rightarrow> (session_bridge, coro) outcome" where
  "s_expire now lease s =
     (if wake_mode lease \<noteq> M_session then expire_at_deadline now lease s
      else
        (case session_failed now (job_id lease)
                ''session completion or handoff acknowledgement deadline expired'' s of
           (s', Inl e) \<Rightarrow> (pop_deadline lease s', Inl e)
         | (s', Inr _) \<Rightarrow> (pop_deadline lease s', Inr (Done JNull))))"

definition s_recover_lease ::
  "clock \<Rightarrow> wake_lease \<Rightarrow> session_bridge \<Rightarrow> (session_bridge, unit) outcome" where
  "s_recover_lease now lease s =
     (if wake_mode lease = M_session
      then and_then (st_update now (job_id lease)
                       (failed_fields ''coordinator restarted; session ownership must be re-established manually'') s)
             (\<lambda>_ s. (s, Inr ()))
      else recover_lease now lease s)"

fun s_recover_all ::
  "clock \<Rightarrow> wake_lease list \<Rightarrow> session_bridge \<Rightarrow> (session_bridge, unit) outcome" where
  "s_recover_all now [] s = (s, Inr ())"
| "s_recover_all now (l # ls) s = and_then (s_recover_lease now l s) (\<lambda>_ s. s_recover_all now ls s)"

text \<open>A new coordinator on a database: \<open>__init__\<close>, then the recovery of \<open>start\<close>.\<close>

definition fresh_session ::
  "bridge_db \<Rightarrow> nat \<Rightarrow> (string \<times> rpc) list \<Rightarrow> (nat \<times> json) list \<Rightarrow>
   (peer \<times> string \<times> peer_rpc) list \<Rightarrow> session_bridge" where
  "fresh_session d n hist out phist =
     \<lparr>store = d, thread_events = Map.empty, expected_goal_status = Map.empty,
      pause_notifications = Map.empty, goal_controls = Map.empty, delivery_tasks = Map.empty,
      deadline_tasks = Map.empty, tasks = Map.empty, next_task = n, sent = hist, responses = out,
      peers = [], lease_peers = [], ambiguous_threads = {}, calls = [], call_changed = False,
      turn_done = Map.empty, activity_lock = Map.empty, session_tasks = Map.empty, peer_sent = phist\<rparr>"

definition start_session ::
  "clock \<Rightarrow> bridge_db \<Rightarrow> nat \<Rightarrow> (string \<times> rpc) list \<Rightarrow> (nat \<times> json) list \<Rightarrow>
   (peer \<times> string \<times> peer_rpc) list \<Rightarrow> (session_bridge, unit) outcome" where
  "start_session now d n hist out phist = s_recover_all now (db_pending d) (fresh_session d n hist out phist)"

section \<open>Requests\<close>

text \<open>The inherited \<open>_dispatch\<close>, on the overridden methods.\<close>

definition base_dispatch ::
  "clock \<Rightarrow> json \<Rightarrow> session_bridge \<Rightarrow> (session_bridge, scoro) outcome" where
  "base_dispatch now req s =
     (if \<not> py_eq (jget ''version'' req) (JInt 1)
      then (s, Inl (ValueError ''unsupported bridge protocol version''))
      else
        let action = jget ''action'' req in
        if py_eq action (JStr ''health'')
        then (s, Inr (reply_with [(''ok'', JBool True), (''version'', JInt 1)]))
        else
          (case check_job_id (jget ''job_id'' req) of
             Inl e \<Rightarrow> (s, Inl e)
           | Inr job \<Rightarrow>
               if py_eq action (JStr ''prepare'') then s_prepare job req s
               else if py_eq action (JStr ''terminal'') then s_terminal now job req s
               else if py_eq action (JStr ''abort'') then s_abort now job req s
               else (s, Inl (ValueError (''unsupported bridge action: '' @ json_repr action)))))"

definition session_control ::
  "clock \<Rightarrow> string \<Rightarrow> json \<Rightarrow> session_bridge \<Rightarrow> (session_bridge, scoro) outcome" where
  "session_control now action req s =
     (case check_job_id (jget ''job_id'' req) of Inl e \<Rightarrow> (s, Inl e) | Inr job \<Rightarrow>
     (case check_thread_id (jget ''thread_id'' req) of Inl e \<Rightarrow> (s, Inl e) | Inr thr \<Rightarrow>
     (case db_get (store s) job of
        None \<Rightarrow> (s, Inl (RuntimeError ''no matching wake lease''))
      | Some lease \<Rightarrow>
          if thread_id lease \<noteq> thr then (s, Inl (RuntimeError ''no matching wake lease''))
          else if wake_mode lease \<noteq> M_session
          then (s, Inl (RuntimeError ''session control cannot change a Goal lease''))
          else if action = ''wake_status''
          then (s, Inr (reply_with [(''ok'', JBool True), (''delivery_state'', JStr (delivery_str (delivery_state lease))),
                                    (''error'', json_opt_str (lease_error lease))]))
          else if action = ''cancel_wakeup''
          then
            (if lease_state lease \<notin> {L_preparing, L_armed, L_terminal, L_abandoned}
             then (s, Inr (reply_with [(''ok'', JBool True), (''wakeup_cancelled'', JBool False),
                                       (''job_cancelled'', JBool False),
                                       (''delivery_state'', JStr (delivery_str (delivery_state lease)))]))
             else and_then (s_abandon now thr ''Session wakeup explicitly cancelled'' s)
                    (\<lambda>_ s. (s, Inr (reply_with [(''ok'', JBool True), (''wakeup_cancelled'', JBool True),
                                               (''job_cancelled'', JBool False)]))))
          else s_handoff lease req s)))"

definition s_dispatch ::
  "clock \<Rightarrow> json \<Rightarrow> session_bridge \<Rightarrow> (session_bridge, scoro) outcome" where
  "s_dispatch now req s =
     (let action = jget ''action'' req in
      if \<not> py_eq (jget ''version'' req) (JInt 1)
      then (s, Inl (ValueError ''unsupported bridge protocol version''))
      else if py_eq action (JStr ''health'')
      then (s, Inr (reply_with [(''ok'', JBool True), (''version'', JInt 1),
                                (''session_wakeup_supported'', JBool True),
                                (''session_transport_ready'', JBool (peers s \<noteq> []))]))
      else
        (case str_in action [''handoff'', ''cancel_wakeup'', ''wake_status''] of
           Inl e \<Rightarrow> (s, Inl e)
         | Inr True \<Rightarrow> session_control now (str_of_json action) req s
         | Inr False \<Rightarrow> base_dispatch now req s))"

definition s_handle_request ::
  "clock \<Rightarrow> conn_input \<Rightarrow> session_bridge \<Rightarrow> (session_bridge, scoro) outcome" where
  "s_handle_request now inp s =
     (case inp of
        Other_user \<Rightarrow> (s, Inl (PermissionError ''bridge accepts only same-user Unix peers''))
      | Bad_framing \<Rightarrow> (s, Inl (ValueError ''invalid bridge request framing''))
      | Undecodable e \<Rightarrow> (s, Inl e)
      | Decoded v \<Rightarrow> if is_dict v then s_dispatch now v s
                    else (s, Inl (ValueError ''bridge request must be an object'')))"

section \<open>Messages of the user\<close>

definition control_methods :: "string list" where
  "control_methods = [''turn/start'', ''turn/steer'', ''turn/interrupt'', ''thread/archive'', ''thread/unsubscribe'',
     ''thread/start'', ''thread/resume'', ''thread/goal/set'', ''thread/goal/clear'', ''thread/rollback'',
     ''thread/compact/start'']"

fun activity_of ::
  "clock \<Rightarrow> peer \<Rightarrow> (string \<times> peer) list \<Rightarrow> session_bridge \<Rightarrow> (session_bridge, unit) outcome" where
  "activity_of now p [] s = (s, Inr ())"
| "activity_of now p ((thr, q) # ps) s =
     (if q = p then and_then (user_activity now thr s) (\<lambda>_ s. activity_of now p ps s)
      else activity_of now p ps s)"

text \<open>Inside the peer's lock: the bridge learns of the activity before the App Server does.\<close>

definition message_locked ::
  "clock \<Rightarrow> peer \<Rightarrow> json \<Rightarrow> session_bridge \<Rightarrow> (session_bridge, scoro) outcome" where
  "message_locked now p msg s =
     (let params = jget_default ''params'' (JObj []) msg;
          thr = (if is_dict params then jget ''threadId'' params else JNull) in
      and_then (if is_str thr then user_activity now (str_of_json thr) s else activity_of now p (peers s) s)
        (\<lambda>_ s.
           if is_str thr \<and> jget ''method'' msg \<in> {JStr ''thread/goal/set'', JStr ''thread/goal/clear''}
           then and_then (user_goal_control s_abandon now (str_of_json thr) s) (\<lambda>c s. (s, Inr (Base c)))
           else (peer_send p [] (Forward msg) s, Inr (At (Y_send p)))))"

section \<open>The event loop\<close>

text \<open>Whether a point answers a connection of the bridge, and the peer whose lock it holds.\<close>

fun s_answers :: "session_pc \<Rightarrow> bool" where
  "s_answers (SP_get _ _ _) = True"
| "s_answers (SP_observe _) = True"
| "s_answers (SP_lock _) = True"
| "s_answers (SP_latest _) = True"
| "s_answers (SP_goal _) = True"
| "s_answers (H_lock _ _ _) = True"
| "s_answers (H_goal _ _ _) = True"
| "s_answers (H_latest _ _ _) = True"
| "s_answers (H_interrupt _ _ _) = True"
| "s_answers (H_done _ _ _) = True"
| "s_answers (H_latest2 _ _ _) = True"
| "s_answers (H_inject _ _ _) = True"
| "s_answers _ = False"

text \<open>The end of a segment: like \<open>settle\<close>, with the points of this class beside.\<close>

definition s_settle ::
  "nat \<Rightarrow> bool \<Rightarrow> (session_bridge, scoro) outcome \<Rightarrow> session_bridge" where
  "s_settle tid answer res =
     (case res of
        (s, Inr (At pc)) \<Rightarrow> s\<lparr>session_tasks := (session_tasks s)(tid \<mapsto> pc)\<rparr>
      | (s, Inr (Base c)) \<Rightarrow>
          settle tid answer (s\<lparr>session_tasks := (session_tasks s)(tid := None)\<rparr>, Inr c)
      | (s, Inl e) \<Rightarrow>
          settle tid answer (s\<lparr>session_tasks := (session_tasks s)(tid := None)\<rparr>, Inl e))"

text \<open>A reply over the connection of a peer resumes the coroutine that awaits it.\<close>

fun peer_reply ::
  "clock \<Rightarrow> session_pc \<Rightarrow> pyexc + json \<Rightarrow> session_bridge \<Rightarrow> (session_bridge, scoro) outcome option" where
  "peer_reply now (SP_latest p) r s = Some (in_prepare p (s_prepare_latest p r s))"
| "peer_reply now (SP_goal p) r s = Some (in_prepare p (s_prepare_goal now p r s))"
| "peer_reply now (H_goal l p st) r s = Some (in_transfer now l p False (transfer_goal l p st r s))"
| "peer_reply now (H_latest l p st) r s = Some (in_transfer now l p False (transfer_interrupt now l p st r s))"
| "peer_reply now (H_interrupt l p st) r s = Some (in_transfer now l p True (transfer_wait l p st r s))"
| "peer_reply now (H_latest2 l p st) r s = Some (in_transfer now l p True (transfer_receipt now l p st r s))"
| "peer_reply now (H_inject l p st) r s = Some (in_transfer now l p True (transfer_ready now l r s))"
| "peer_reply now (D_goal l p t) r s = Some (in_wake now l p (wake_goal l p t r s))"
| "peer_reply now (D_latest l p t) r s = Some (in_wake now l p (wake_commit now l p t r s))"
| "peer_reply now (D_start l p) r s = Some (in_wake now l p (wake_started now l r s))"
| "peer_reply now _ r s = None"

text \<open>
  A coroutine that waits for a lock, an event or a send. The message of a user enters
  inherited code from inside the lock: \<open>Y_goal\<close> stays beside it.
\<close>

fun session_run ::
  "clock \<Rightarrow> nat \<Rightarrow> session_pc \<Rightarrow> session_bridge \<Rightarrow> (session_bridge, scoro) outcome option" where
  "session_run now tid (SP_observe p) s =
     (if map_of (calls s) (p_thread p, p_call p) \<noteq> None \<or> call_changed s
      then Some (s_prepare_observed p s) else None)"
| "session_run now tid (SP_lock p) s =
     (if activity_lock s (p_peer p) = None
      then Some (in_prepare p (s_prepare_enter p (enter (p_peer p) tid s))) else None)"
| "session_run now tid (H_lock l p st) s =
     (if activity_lock s p = None
      then Some (in_transfer now l p False (transfer_enter l p st (enter p tid s))) else None)"
| "session_run now tid (H_done l p st) s =
     (if turn_done s (turn_key l) = Some True
      then Some (in_transfer now l p True (transfer_done l p st s)) else None)"
| "session_run now tid (D_lock l p) s =
     (if activity_lock s p = None
      then Some (in_wake now l p (wake_enter l p (enter p tid s))) else None)"
| "session_run now tid (Y_send p) s = Some (leave p s, Inr (Base (Done JNull)))"
| "session_run now tid _ s = None"

definition message_run ::
  "clock \<Rightarrow> nat \<Rightarrow> peer \<Rightarrow> json \<Rightarrow> session_bridge \<Rightarrow> session_bridge option" where
  "message_run now tid p msg s =
     (if activity_lock s p \<noteq> None then None
      else Some
        (case message_locked now p msg (enter p tid s) of
           (s', Inr (Base c)) \<Rightarrow>
             settle tid False (s'\<lparr>session_tasks := (session_tasks s')(tid \<mapsto> Y_goal p)\<rparr>, Inr c)
         | (s', Inl e) \<Rightarrow> s_settle tid False (leave p s', Inl e)
         | res \<Rightarrow> s_settle tid False res))"

text \<open>A timeout of a \<open>wait_for\<close>: of \<open>observed\<close>, of the whole transfer, of its wait.\<close>

fun session_timeout ::
  "clock \<Rightarrow> session_pc \<Rightarrow> session_bridge \<Rightarrow> (session_bridge, scoro) outcome option" where
  "session_timeout now (SP_observe p) s = Some (s, Inl observe_timeout)"
| "session_timeout now (H_lock l p st) s = Some (handoff_raise now l (TimeoutError []) s)"
| "session_timeout now (H_goal l p st) s = Some (in_transfer now l p False (s, Inl (TimeoutError [])))"
| "session_timeout now (H_latest l p st) s = Some (in_transfer now l p False (s, Inl (TimeoutError [])))"
| "session_timeout now (H_interrupt l p st) s = Some (in_transfer now l p True (s, Inl (TimeoutError [])))"
| "session_timeout now (H_done l p st) s = Some (in_transfer now l p True (s, Inl (TimeoutError [])))"
| "session_timeout now (H_latest2 l p st) s = Some (in_transfer now l p True (s, Inl (TimeoutError [])))"
| "session_timeout now (H_inject l p st) s = Some (in_transfer now l p True (s, Inl (TimeoutError [])))"
| "session_timeout now _ s = None"

fun session_cancel ::
  "clock \<Rightarrow> session_pc \<Rightarrow> session_bridge \<Rightarrow> (session_bridge, scoro) outcome" where
  "session_cancel now (SP_latest p) s = in_prepare p (s, Inl CancelledError)"
| "session_cancel now (SP_goal p) s = in_prepare p (s, Inl CancelledError)"
| "session_cancel now (H_goal l p st) s = in_transfer now l p False (s, Inl CancelledError)"
| "session_cancel now (H_latest l p st) s = in_transfer now l p False (s, Inl CancelledError)"
| "session_cancel now (H_interrupt l p st) s = in_transfer now l p True (s, Inl CancelledError)"
| "session_cancel now (H_done l p st) s = in_transfer now l p True (s, Inl CancelledError)"
| "session_cancel now (H_latest2 l p st) s = in_transfer now l p True (s, Inl CancelledError)"
| "session_cancel now (H_inject l p st) s = in_transfer now l p True (s, Inl CancelledError)"
| "session_cancel now (D_lock l p) s = s_deliver_raise now l CancelledError s"
| "session_cancel now (D_goal l p t) s = in_wake now l p (s, Inl CancelledError)"
| "session_cancel now (D_latest l p t) s = in_wake now l p (s, Inl CancelledError)"
| "session_cancel now (D_start l p) s = in_wake now l p (s, Inl CancelledError)"
| "session_cancel now (Y_send p) s = (leave p s, Inl CancelledError)"
| "session_cancel now _ s = (s, Inl CancelledError)"

text \<open>Inherited coroutines: \<open>_deliver\<close>, \<open>_expire_at_deadline\<close> and the abandoning are overridden.\<close>

fun base_run ::
  "clock \<Rightarrow> nat \<Rightarrow> goal_pc \<Rightarrow> session_bridge \<Rightarrow> (session_bridge, scoro) outcome option" where
  "base_run now tid (W_start l) s =
     Some (if wake_mode l = M_session then s_deliver now l s else lift_base (deliver_start l s))"
| "base_run now tid (X_sleep l) s =
     (if deadline_at l \<le> now then Some (lift_base (s_expire now l s)) else None)"
| "base_run now tid (U_lock thr) s =
     (if lock_free thr s then Some (lift_base (user_control_locked s_abandon now tid thr s)) else None)"
| "base_run now tid pc s = map_option lift_base (resume_run now tid pc s)"

text \<open>The end of the inherited code inside a user's message releases the peer's lock.\<close>

definition end_message :: "nat \<Rightarrow> session_bridge \<Rightarrow> session_bridge" where
  "end_message tid s =
     (case session_tasks s tid of
        Some (Y_goal p) \<Rightarrow>
          if tasks s tid = None
          then leave p (s\<lparr>session_tasks := (session_tasks s)(tid := None)\<rparr>) else s
      | _ \<Rightarrow> s)"

definition base_settle ::
  "nat \<Rightarrow> goal_pc \<Rightarrow> (session_bridge, scoro) outcome \<Rightarrow> session_bridge" where
  "base_settle tid pc res =
     (case res of
        (s, Inr (At pc')) \<Rightarrow> s\<lparr>session_tasks := (session_tasks s)(tid \<mapsto> pc')\<rparr>
      | (s, Inr (Base c)) \<Rightarrow> end_message tid (settle tid (answers_client pc) (s, Inr c))
      | (s, Inl e) \<Rightarrow> end_message tid (settle tid (answers_client pc) (s, Inl e)))"

text \<open>
  The events: a request to the bridge, a reply of the App Server to the bridge or over a
  peer's connection (where any exception but a cancellation may come back), a coroutine
  that may go on, a timeout, a cancellation, a notification, a message of the user, an
  event of a TUI connection, its end, a restart.
\<close>

datatype sevent =
    S_request clock conn_input
  | S_reply clock nat "string + json"
  | S_peer_reply clock nat "pyexc + json"
  | S_run clock nat
  | S_timeout clock nat
  | S_cancel clock nat
  | S_notify clock string json
  | S_message peer json
  | S_observe clock peer string json
  | S_disconnect clock peer
  | S_restart clock

fun in_base :: "session_pc option \<Rightarrow> bool" where
  "in_base None = True"
| "in_base (Some (Y_goal _)) = True"
| "in_base (Some _) = False"

fun sstep :: "sevent \<Rightarrow> session_bridge \<Rightarrow> session_bridge option" where
  "sstep (S_request now inp) s =
     Some (s_settle (next_task s) True (s_handle_request now inp (new_task s)))"
| "sstep (S_reply now tid r) s =
     (case session_tasks s tid of
        Some (SP_get job thr req) \<Rightarrow> Some (s_settle tid True (s_prepare_got job thr req (rpc_result r) s))
      | pc \<Rightarrow>
          (case tasks s tid of
             None \<Rightarrow> None
           | Some t \<Rightarrow>
               if cancelled t \<or> \<not> in_base pc then None
               else map_option (\<lambda>res. base_settle tid (task_pc t) (lift_base res))
                      (resume_reply now (task_pc t) (rpc_result r) s)))"
| "sstep (S_peer_reply now tid r) s =
     (case session_tasks s tid of
        None \<Rightarrow> None
      | Some pc \<Rightarrow>
          if r = Inl CancelledError \<or> (case tasks s tid of None \<Rightarrow> False | Some t \<Rightarrow> cancelled t) then None
          else map_option (s_settle tid (s_answers pc)) (peer_reply now pc r s))"
| "sstep (S_run now tid) s =
     (case session_tasks s tid of
        Some (Y_lock p msg) \<Rightarrow> message_run now tid p msg s
      | pc \<Rightarrow>
          if (case tasks s tid of None \<Rightarrow> False | Some t \<Rightarrow> cancelled t) then None
          else if in_base pc
          then (case tasks s tid of
                  None \<Rightarrow> None
                | Some t \<Rightarrow> map_option (base_settle tid (task_pc t)) (base_run now tid (task_pc t) s))
          else map_option (s_settle tid (s_answers (the pc))) (session_run now tid (the pc) s))"
| "sstep (S_timeout now tid) s =
     (case session_tasks s tid of
        None \<Rightarrow> None
      | Some pc \<Rightarrow> map_option (s_settle tid (s_answers pc)) (session_timeout now pc s))"
| "sstep (S_cancel now tid) s =
     (if in_base (session_tasks s tid)
      then (case tasks s tid of
              None \<Rightarrow> None
            | Some t \<Rightarrow>
                if cancelled t \<or> external_cancel (task_pc t)
                then Some (base_settle tid (task_pc t) (lift_base (resume_cancel now (task_pc t) s)))
                else None)
      else if (case tasks s tid of None \<Rightarrow> True | Some t \<Rightarrow> cancelled t)
      then Some (s_settle tid (s_answers (the (session_tasks s tid)))
                   (session_cancel now (the (session_tasks s tid)) s))
      else None)"
| "sstep (S_notify now meth params) s = Some (fst (s_on_notification now meth params s))"
| "sstep (S_message p msg) s =
     (if str_in (jget ''method'' msg) control_methods = Inr True
      then Some (s_settle (next_task s) False (new_task s, Inr (At (Y_lock p msg)))) else None)"
| "sstep (S_observe now p meth params) s = Some (fst (observe now p meth params s))"
| "sstep (S_disconnect now p) s = Some (fst (disconnected now p s))"
| "sstep (S_restart now) s =
     (case start_session now (store s) (next_task s) (sent s) (responses s) (peer_sent s) of
        (s', Inr _) \<Rightarrow> Some s'
      | (_, Inl _) \<Rightarrow> None)"

text \<open>The coordinators that can be reached from one on a fresh database.\<close>

inductive session_reach :: "session_bridge \<Rightarrow> bool" where
  boot: "start_session now empty_db 0 [] [] [] = (s, Inr ()) \<Longrightarrow> session_reach s"
| step: "session_reach s \<Longrightarrow> sstep ev s = Some s' \<Longrightarrow> session_reach s'"

end
