(* ===== verification/Session_Gentle.thy ===== *)
theory Session_Gentle
  imports Session_Bridge Goal_Bridge_Inv
begin

text \<open>
  What inherited code may do to a session. \<open>gentle s s'\<close> says that a segment left the
  session's own state alone, that it touched a session lease at most by abandoning it
  before its wake was under way, and that it cancelled no task of a lease past that point;
  \<open>tinv\<close> is the bookkeeping this rests on. Each inherited function is shown to keep
  both (\<open>qt\<close>).
\<close>

section \<open>Leases\<close>

definition lease_key :: "wake_lease \<Rightarrow> string \<times> string \<times> wake_mode \<times> string option \<times> string option \<times> string" where
  "lease_key l = (job_id l, thread_id l, wake_mode l, turn_id l, call_id l, objective l)"

text \<open>A live lease was abandoned before its wake was under way.\<close>

definition retired :: "wake_lease \<Rightarrow> wake_lease \<Rightarrow> bool" where
  "retired l l' \<longleftrightarrow> is_live l \<and> delivery_state l \<noteq> D_activating \<and> lease_state l' = L_abandoned
     \<and> delivery_state l' = D_abandoned \<and> handoff_state l' = handoff_state l"

fun lease_step :: "wake_lease option \<Rightarrow> wake_lease option \<Rightarrow> bool" where
  "lease_step None None = True"
| "lease_step None (Some l') = (wake_mode l' = M_goal)"
| "lease_step (Some l) None = False"
| "lease_step (Some l) (Some l') =
     (lease_key l' = lease_key l \<and> (wake_mode l = M_session \<longrightarrow> l' = l \<or> retired l l'))"

lemma retired_not_live: "retired l l' \<Longrightarrow> \<not> is_live l'"
  by (simp add: retired_def is_live_def live_state_def)

lemma lease_step_refl [simp]: "lease_step a a"
  by (cases a) simp_all

lemma lease_step_trans: "lease_step a b \<Longrightarrow> lease_step b c \<Longrightarrow> lease_step a c"
proof (cases a; cases b; cases c)
  fix l m n
  assume "lease_step a b" "lease_step b c" "a = Some l" "b = Some m" "c = Some n"
  moreover have "\<not> (retired l m \<and> retired m n)" using retired_not_live [of l m] by (auto simp: retired_def)
  ultimately show ?thesis by (auto simp: lease_key_def)
qed (auto simp: lease_key_def)

text \<open>A session lease whose wake is under way or that is over: nothing abandons it any more.\<close>

definition settled :: "'a goal_bridge_scheme \<Rightarrow> string \<Rightarrow> bool" where
  "settled s j \<longleftrightarrow> (\<exists>l. lease_at s j = Some l \<and> wake_mode l = M_session
     \<and> (delivery_state l = D_activating \<or> \<not> is_live l))"

lemma lease_step_settled:
  assumes "lease_step (lease_at s j) (lease_at s' j)" "settled s j"
  shows "settled s' j" "lease_at s' j = lease_at s j"
  using assms by (cases "lease_at s j"; cases "lease_at s' j";
      auto simp: settled_def retired_def lease_key_def)+

section \<open>What inherited code may do\<close>

definition gentle_leases :: "session_bridge \<Rightarrow> session_bridge \<Rightarrow> bool" where
  "gentle_leases s s' \<longleftrightarrow> (\<forall>j. lease_step (lease_at s j) (lease_at s' j))
   \<and> (\<forall>j. map_of (lease_peers s') j = None \<or> map_of (lease_peers s') j = map_of (lease_peers s) j)"

definition gentle_tasks :: "session_bridge \<Rightarrow> session_bridge \<Rightarrow> bool" where
  "gentle_tasks s s' \<longleftrightarrow>
     (\<forall>tid t. tasks s tid = Some t \<longrightarrow> (\<exists>t'. tasks s' tid = Some t' \<and> task_pc t' = task_pc t))
   \<and> (\<forall>tid t l. tasks s tid = Some t \<longrightarrow> delivery_lease (task_pc t) = Some l \<longrightarrow>
        settled s (job_id l) \<longrightarrow> tasks s' tid = Some t)
   \<and> (\<forall>tid. tid < next_task s \<longrightarrow> tasks s tid = None \<longrightarrow> tasks s' tid = None)"

definition gentle_maps :: "session_bridge \<Rightarrow> session_bridge \<Rightarrow> bool" where
  "gentle_maps s s' \<longleftrightarrow> next_task s \<le> next_task s'
   \<and> (\<forall>j tid. tid < next_task s \<longrightarrow> delivery_tasks s' j = Some tid \<longrightarrow> delivery_tasks s j = Some tid)
   \<and> (\<forall>j tid. tid < next_task s \<longrightarrow> deadline_tasks s' j = Some tid \<longrightarrow> deadline_tasks s j = Some tid)"

definition gentle_rest :: "session_bridge \<Rightarrow> session_bridge \<Rightarrow> bool" where
  "gentle_rest s s' \<longleftrightarrow>
     session_tasks s' = session_tasks s \<and> activity_lock s' = activity_lock s \<and> peers s' = peers s
   \<and> calls s' = calls s \<and> peer_sent s' = peer_sent s \<and> ambiguous_threads s' = ambiguous_threads s"

definition gentle :: "session_bridge \<Rightarrow> session_bridge \<Rightarrow> bool" where
  "gentle s s' \<longleftrightarrow> gentle_leases s s' \<and> gentle_tasks s s' \<and> gentle_maps s s' \<and> gentle_rest s s'"

lemmas gentle_defs = gentle_def gentle_leases_def gentle_tasks_def gentle_maps_def gentle_rest_def

lemma gentle_refl [simp]: "gentle s s"
  by (simp add: gentle_defs)

lemma gentle_tasks_trans:
  assumes "gentle_tasks s s'" "gentle_tasks s' s''" "gentle_maps s s'" "gentle_leases s s'"
  shows "gentle_tasks s s''"
proof -
  have "tasks s'' tid = Some t"
    if t: "tasks s tid = Some t" "delivery_lease (task_pc t) = Some l" "settled s (job_id l)" for tid t l
  proof -
    have "settled s' (job_id l)"
      using assms(4) t(3) lease_step_settled(1) [of s "job_id l" s'] by (simp add: gentle_leases_def)
    moreover have "tasks s' tid = Some t" using assms(1) t unfolding gentle_tasks_def by blast
    ultimately show ?thesis using assms(2) t(2) unfolding gentle_tasks_def by blast
  qed
  moreover have "\<exists>t'. tasks s'' tid = Some t' \<and> task_pc t' = task_pc t" if "tasks s tid = Some t" for tid t
    using that assms(1,2) unfolding gentle_tasks_def by metis
  moreover have "tasks s'' tid = None" if "tid < next_task s" "tasks s tid = None" for tid
    using that assms(1-3) unfolding gentle_tasks_def gentle_maps_def by (meson order.strict_trans2)
  ultimately show ?thesis unfolding gentle_tasks_def by blast
qed

lemma gentle_trans: "gentle s s' \<Longrightarrow> gentle s' s'' \<Longrightarrow> gentle s s''"
proof -
  assume a: "gentle s s'" "gentle s' s''"
  then have "gentle_maps s s''"
    unfolding gentle_def gentle_maps_def by (meson order.strict_trans2 order.trans)
  moreover have "gentle_leases s s''"
    using a lease_step_trans unfolding gentle_def gentle_leases_def by metis
  ultimately show ?thesis
    using a gentle_tasks_trans [of s s' s''] by (simp add: gentle_def gentle_rest_def)
qed

text \<open>
  The bookkeeping of tasks and leases: entries of the task maps point at tasks of their job, a
  task's lease is the stored one up to its mutable columns, only a fresh delivery or deadline
  task of a session lease is in inherited code, and a stored session lease has left preparation.
\<close>

definition lease_known :: "'a goal_bridge_scheme \<Rightarrow> wake_lease \<Rightarrow> bool" where
  "lease_known s l \<longleftrightarrow> (\<exists>cur. lease_at s (job_id l) = Some cur \<and> lease_key cur = lease_key l)"

definition task_lease :: "goal_pc \<Rightarrow> wake_lease option" where
  "task_lease pc = (case delivery_lease pc of None \<Rightarrow> deadline_lease pc | Some l \<Rightarrow> Some l)"

definition modes_ok :: "'a goal_bridge_scheme \<Rightarrow> bool" where
  "modes_ok s \<longleftrightarrow> (\<forall>tid t l. tasks s tid = Some t \<longrightarrow> task_lease (task_pc t) = Some l \<longrightarrow>
     lease_known s l \<and> (wake_mode l = M_session \<longrightarrow> task_pc t \<in> {W_start l, X_start l, X_sleep l}))"

definition no_prep :: "'a goal_bridge_scheme \<Rightarrow> bool" where
  "no_prep s \<longleftrightarrow> (\<forall>j l. lease_at s j = Some l \<longrightarrow> wake_mode l = M_session \<longrightarrow> lease_state l \<noteq> L_preparing)"

definition tinv :: "'a goal_bridge_scheme \<Rightarrow> bool" where
  "tinv s \<longleftrightarrow> store_ok (store s) \<and> ids_ok s \<and> maps_ok None s \<and> modes_ok s \<and> no_prep s"

text \<open>The state a segment started from, and where it is.\<close>

definition qt :: "session_bridge \<Rightarrow> session_bridge \<Rightarrow> bool" where
  "qt s0 s \<longleftrightarrow> tinv s \<and> gentle s0 s"

lemma qt_refl [simp]: "qt s s \<longleftrightarrow> tinv s"
  by (simp add: qt_def)

lemma qt_trans: "qt s0 s \<Longrightarrow> qt s s' \<Longrightarrow> qt s0 s'"
  using gentle_trans by (auto simp: qt_def)

lemma qtI: "qt s0 s \<Longrightarrow> (tinv s \<Longrightarrow> qt s s') \<Longrightarrow> qt s0 s'"
  using qt_trans by (auto simp: qt_def)

lemmas tinv_defs = tinv_def ids_ok_def maps_ok_def modes_ok_def no_prep_def tk_def lease_known_def

lemma tinv_store:
  assumes "tinv s" "store_ok d" "\<And>l. lease_known s l \<Longrightarrow> lease_known (s\<lparr>store := d\<rparr>) l" "no_prep (s\<lparr>store := d\<rparr>)"
  shows "tinv (s\<lparr>store := d\<rparr>)"
proof -
  have "ids_ok (s\<lparr>store := d\<rparr>)" "maps_ok None (s\<lparr>store := d\<rparr>)"
    using assms(1) by (simp_all add: tinv_def ids_ok_def maps_ok_def)
  moreover have "modes_ok (s\<lparr>store := d\<rparr>)"
    using assms(1,3) unfolding tinv_def modes_ok_def by simp
  ultimately show ?thesis using assms(2,4) by (simp add: tinv_def)
qed

lemma qt_frame [simp]:
  "qt s0 (s\<lparr>pause_notifications := p\<rparr>) = qt s0 s"
  "qt s0 (s\<lparr>expected_goal_status := q\<rparr>) = qt s0 s"
  "qt s0 (s\<lparr>thread_events := e\<rparr>) = qt s0 s"
  "qt s0 (s\<lparr>goal_controls := g\<rparr>) = qt s0 s"
  "qt s0 (s\<lparr>sent := h\<rparr>) = qt s0 s"
  by (simp_all add: qt_def tinv_defs gentle_defs)

lemma qt_ops [simp]:
  "qt s0 (send j r s) = qt s0 s" "qt s0 (pop_expected thr s) = qt s0 s" "qt s0 (set_event thr s) = qt s0 s"
  "qt s0 (acquire thr tid s) = qt s0 s" "qt s0 (release thr s) = qt s0 s"
  by (simp_all add: send_def pop_expected_def set_event_def acquire_def release_def)

section \<open>Store updates\<close>

lemma session_update_cases:
  assumes u: "st_update now j fs s = (s', r)" and ok: "store_ok (store s)"
  obtains (raised) e where "s' = s" "r = Inl e"
  | (stored) l where "lease_at s j = Some l" "s' = s\<lparr>store := db_put now j fs (store s)\<rparr>"
      "r = Inr (set_fields fs l)" "store_ok (db_put now j fs (store s))"
proof (cases r)
  case (Inl e)
  then have "s' = s" using u db_update_raise_keeps [OF _ ok, of now j fs] by (auto simp: st_update_def split: prod.splits)
  then show ?thesis using raised Inl by blast
next
  case (Inr m)
  then have d: "db_update now j fs (store s) = (store s', Inr m)" "s' = s\<lparr>store := store s'\<rparr>"
    using u by (auto simp: st_update_def split: prod.splits)
  then obtain l where l: "lease_at s j = Some l"
    using db_update_unknown [OF ok, of j now fs] by (cases "lease_at s j") auto
  then have "store s' = db_put now j fs (store s)" "m = set_fields fs l"
    using d(1) by (auto simp: db_update_def db_get_put split: if_splits option.splits)
  then show ?thesis using stored l d(2) Inr db_update_store_ok [OF d(1) ok] by metis
qed

lemma lease_key_set_fields [simp]: "lease_key (set_fields fs l) = lease_key l"
  by (simp add: lease_key_def)

lemma known_put: "lease_known s l \<Longrightarrow> lease_known (s\<lparr>store := db_put now j fs (store s)\<rparr>) l"
  by (auto simp: lease_known_def db_get_put)

lemma tinv_put:
  assumes t: "tinv s" and ok: "store_ok (db_put now j fs (store s))"
    and prep: "\<And>l. lease_at s j = Some l \<Longrightarrow> wake_mode l = M_session \<Longrightarrow> lease_state (set_fields fs l) \<noteq> L_preparing"
  shows "tinv (s\<lparr>store := db_put now j fs (store s)\<rparr>)"
proof (rule tinv_store [OF t ok known_put])
  show "no_prep (s\<lparr>store := db_put now j fs (store s)\<rparr>)"
    using t prep by (auto simp: tinv_def no_prep_def db_get_put split: if_splits)
qed

lemma qt_put:
  assumes q: "qt s0 s" and ok: "store_ok (db_put now j fs (store s))"
    and l: "\<And>l. lease_at s j = Some l \<Longrightarrow> wake_mode l = M_goal"
  shows "qt s0 (s\<lparr>store := db_put now j fs (store s)\<rparr>)"
proof (rule qtI [OF q])
  assume "tinv s"
  then have "tinv (s\<lparr>store := db_put now j fs (store s)\<rparr>)" using tinv_put ok l by force
  moreover have "lease_step (lease_at s k) (db_get (db_put now j fs (store s)) k)" for k
    using l by (cases "lease_at s k") (auto simp: db_get_put)
  ultimately show "qt s (s\<lparr>store := db_put now j fs (store s)\<rparr>)"
    by (simp add: qt_def gentle_defs)
qed

lemma qt_tinv: "qt s0 s \<Longrightarrow> tinv s"
  by (simp add: qt_def)

lemma qt_store_ok: "qt s0 s \<Longrightarrow> store_ok (store s)"
  by (simp add: qt_def tinv_def)

lemma qt_update:
  assumes q: "qt s0 s" and u: "st_update now j fs s = (s', r)"
    and l: "\<And>l. lease_at s j = Some l \<Longrightarrow> wake_mode l = M_goal"
  shows "qt s0 s'" and "r = Inr m \<Longrightarrow> lease_at s' j = Some m"
proof -
  have "qt s0 s' \<and> (r = Inr m \<longrightarrow> lease_at s' j = Some m)"
    using u qt_store_ok [OF q]
  proof (cases rule: session_update_cases)
    case (stored l')
    then show ?thesis using qt_put [OF q stored(4) l] by (simp add: db_get_put)
  qed (use q in simp)
  then show "qt s0 s'" and "r = Inr m \<Longrightarrow> lease_at s' j = Some m" by simp_all
qed

lemma st_create_cases:
  assumes c: "st_create now n s = (s', r)" and ok: "store_ok (store s)"
  obtains (raised) e where "s' = s" "r = Inl e"
  | (known) l where "s' = s" "r = Inr l" "lease_at s (nl_job_id n) = Some l" "thread_id l = nl_thread_id n"
  | (created) "lease_at s (nl_job_id n) = None" "db_live_for_thread (store s) (nl_thread_id n) = None"
      "s' = s\<lparr>store := db_insert now n (store s)\<rparr>" "r = Inr (lease_of_new n)"
      "store_ok (db_insert now n (store s))"
proof (cases "lease_at s (nl_job_id n)")
  case (Some l)
  then have "st_create now n s = (s, if thread_id l \<noteq> nl_thread_id n
      then Inl (RuntimeError ''job ID is already registered for a different thread'') else Inr l)"
    using create_lease_known [OF ok Some, of now] by (simp add: st_create_def)
  then show ?thesis using raised known c Some by (auto split: if_splits)
next
  case None
  show ?thesis
  proof (cases "db_live_for_thread (store s) (nl_thread_id n)")
    case (Some m)
    then have "s' = s" "r = Inl (RuntimeError ''this thread already has a live longrun wake lease'')"
      using create_lease_busy [OF ok None, of now] c by (simp_all add: st_create_def)
    then show ?thesis using raised by blast
  next
    case live: None
    show ?thesis
      using created [OF None live] create_lease_fresh [OF ok None live, of now] c by (simp add: st_create_def)
  qed
qed

lemma tinv_insert:
  assumes t: "tinv s" and n: "lease_at s (nl_job_id n) = None" "nl_wake_mode n = M_goal"
    and ok: "store_ok (db_insert now n (store s))"
  shows "tinv (s\<lparr>store := db_insert now n (store s)\<rparr>)"
proof (rule tinv_store [OF t ok])
  show "lease_known (s\<lparr>store := db_insert now n (store s)\<rparr>) l" if "lease_known s l" for l
    using that n(1) by (auto simp: lease_known_def db_get_insert)
  show "no_prep (s\<lparr>store := db_insert now n (store s)\<rparr>)"
    using t n by (auto simp: tinv_def no_prep_def db_get_insert)
qed

lemma qt_create:
  assumes q: "qt s0 s" and c: "st_create now n s = (s', r)" and m: "nl_wake_mode n = M_goal"
  shows "qt s0 s'"
  using c qt_store_ok [OF q]
proof (cases rule: st_create_cases)
  case created
  have "qt s s'" if "tinv s"
  proof -
    have "lease_step (lease_at s k) (lease_at s' k)" for k
      using created m by (cases "lease_at s k") (auto simp: db_get_insert)
    then show ?thesis using tinv_insert [OF that created(1) m created(5)] created by (simp add: qt_def gentle_defs)
  qed
  then show ?thesis using qtI [OF q] by blast
qed (use q in simp_all)

section \<open>The task table\<close>

lemma lease_known_stored: "lease_at s j = Some l \<Longrightarrow> lease_known s l"
  using db_get_key by (auto simp: lease_known_def)

lemma gentle_known: "gentle s s' \<Longrightarrow> lease_known s l \<Longrightarrow> lease_known s' l"
proof -
  assume q: "gentle s s'" "lease_known s l"
  then obtain cur where "lease_at s (job_id l) = Some cur" "lease_key cur = lease_key l"
    by (auto simp: lease_known_def)
  moreover have "lease_step (lease_at s (job_id l)) (lease_at s' (job_id l))"
    using q(1) by (simp add: gentle_def gentle_leases_def)
  ultimately show ?thesis by (cases "lease_at s' (job_id l)") (auto simp: lease_known_def)
qed

lemma gentle_spawn:
  assumes "ids_ok s"
  shows "gentle s (spawn pc s)"
proof -
  have "tasks s (next_task s) = None" using assms by (simp add: ids_ok_def)
  then have "gentle_tasks s (spawn pc s)" by (auto simp: gentle_tasks_def spawn_def)
  then show ?thesis by (simp add: gentle_def gentle_leases_def gentle_maps_def gentle_rest_def) (simp add: spawn_def)
qed

lemma ids_spawn: "ids_ok s \<Longrightarrow> ids_ok (spawn pc s)"
  by (auto simp: ids_ok_def spawn_def less_Suc_eq)

lemma tinv_spawn:
  assumes t: "tinv s" and pc: "pc \<in> {W_start l, X_start l}" and l: "lease_known s l"
  shows "tinv (spawn pc s)"
proof -
  have new: "delivery_tasks s k \<noteq> Some (next_task s)" "deadline_tasks s k \<noteq> Some (next_task s)" for k
    using t unfolding tinv_def ids_ok_def by blast+
  have known: "lease_known (spawn pc s) m \<longleftrightarrow> lease_known s m" for m
    by (simp add: lease_known_def spawn_def)
  have "maps_ok None (spawn pc s)"
    using t new by (auto simp: tinv_def maps_ok_def tk_def spawn_def)
  moreover have "modes_ok (spawn pc s)"
    using t pc l unfolding tinv_def modes_ok_def known by (auto simp: spawn_def task_lease_def)
  moreover have "store_ok (store (spawn pc s))" "no_prep (spawn pc s)"
    using t by (simp_all add: tinv_def no_prep_def spawn_def)
  ultimately show ?thesis using t ids_spawn [of s pc] by (simp add: tinv_def)
qed

text \<open>Pointing a map entry at a new task.\<close>

lemma qt_entry:
  assumes q: "qt s s'" and n: "n = next_task s" "n < next_task s'" "tasks s' n = Some t"
  shows "delivery_lease (task_pc t) = Some l \<Longrightarrow> job_id l = j \<Longrightarrow> qt s (s'\<lparr>delivery_tasks := (delivery_tasks s')(j \<mapsto> n)\<rparr>)"
    and "deadline_lease (task_pc t) = Some l \<Longrightarrow> job_id l = j \<Longrightarrow> qt s (s'\<lparr>deadline_tasks := (deadline_tasks s')(j \<mapsto> n)\<rparr>)"
proof -
  have m: "maps_ok None s'" "ids_ok s'" using q by (simp_all add: qt_def tinv_def)
  let ?a = "s'\<lparr>delivery_tasks := (delivery_tasks s')(j \<mapsto> n)\<rparr>"
  let ?b = "s'\<lparr>deadline_tasks := (deadline_tasks s')(j \<mapsto> n)\<rparr>"
  have rest: "ids_ok ?a" "ids_ok ?b" "modes_ok ?a" "modes_ok ?b" "no_prep ?a" "no_prep ?b"
    using q m n by (simp_all add: qt_def tinv_def ids_ok_def modes_ok_def no_prep_def lease_known_def)
  have gentle: "gentle s ?a" "gentle s ?b" using q n(1) by (auto simp: qt_def gentle_defs)
  show "qt s ?a" if "delivery_lease (task_pc t) = Some l" "job_id l = j"
  proof -
    have "maps_ok None ?a" using m(1) n(3) that by (auto simp: maps_ok_def tk_def)
    then show ?thesis using q rest gentle by (simp add: qt_def tinv_def)
  qed
  show "qt s ?b" if "deadline_lease (task_pc t) = Some l" "job_id l = j"
  proof -
    have "maps_ok None ?b" using m(1) n(3) that by (auto simp: maps_ok_def tk_def)
    then show ?thesis using q rest gentle by (simp add: qt_def tinv_def)
  qed
qed

lemma qt_schedule:
  assumes q: "qt s0 s" and l: "lease_known s l"
  shows "qt s0 (schedule_delivery l s)" "qt s0 (schedule_deadline l s)"
proof -
  have t: "tinv s" using q by (rule qt_tinv)
  have sp: "qt s (spawn pc s)" if "pc \<in> {W_start l, X_start l}" for pc
    using tinv_spawn [OF t that l] gentle_spawn t by (simp add: qt_def tinv_def)
  have "qt s (schedule_delivery l s)"
    using qt_entry(1) [OF sp [of "W_start l"], of "next_task s" "\<lparr>task_pc = W_start l, cancelled = False\<rparr>" l "job_id l"] t
    by (auto simp: schedule_delivery_def spawn_def)
  moreover have "qt s (schedule_deadline l s)"
    using qt_entry(2) [OF sp [of "X_start l"], of "next_task s" "\<lparr>task_pc = X_start l, cancelled = False\<rparr>" l "job_id l"] t
    by (auto simp: schedule_deadline_def spawn_def)
  ultimately show "qt s0 (schedule_delivery l s)" "qt s0 (schedule_deadline l s)" using qt_trans q by blast+
qed

lemma deadline_not_delivery: "deadline_lease pc = Some l \<Longrightarrow> delivery_lease pc = None"
  by (cases pc) simp_all

lemma qt_cancel:
  assumes q: "qt s0 s"
    and c: "\<And>t l. tasks s tid = Some t \<Longrightarrow> delivery_lease (task_pc t) = Some l \<Longrightarrow> \<not> settled s0 (job_id l)"
  shows "qt s0 (cancel_task tid s)"
proof (cases "tasks s tid")
  case None
  then show ?thesis using q by (simp add: cancel_task_def)
next
  case (Some t)
  let ?s = "s\<lparr>tasks := (tasks s)(tid \<mapsto> t\<lparr>cancelled := True\<rparr>)\<rparr>"
  have tinv: "tinv s" using q by (rule qt_tinv)
  have pcs: "\<exists>u. tasks s a = Some u \<and> task_pc u = task_pc v" if "tasks ?s a = Some v" for a v
    using that Some by (auto split: if_splits)
  have "ids_ok ?s" using tinv Some by (auto simp: tinv_def ids_ok_def)
  moreover have "maps_ok None ?s"
  proof -
    have m: "maps_ok None s" using tinv by (simp add: tinv_def)
    have "\<exists>l. delivery_lease (task_pc v) = Some l \<and> job_id l = j" if "delivery_tasks s j = Some a" "tasks ?s a = Some v" for j a v
      using m that(1) pcs [OF that(2)] unfolding maps_ok_def tk_def by (metis option.distinct(1))
    moreover have "\<exists>l. deadline_lease (task_pc v) = Some l \<and> job_id l = j" if "deadline_tasks s j = Some a" "tasks ?s a = Some v" for j a v
      using m that(1) pcs [OF that(2)] unfolding maps_ok_def tk_def by (metis option.distinct(1))
    ultimately show ?thesis by (simp add: maps_ok_def tk_def)
  qed
  moreover have "modes_ok ?s"
  proof -
    have "lease_known ?s m = lease_known s m" for m by (simp add: lease_known_def)
    then show ?thesis using tinv pcs unfolding tinv_def modes_ok_def by metis
  qed
  moreover have "no_prep ?s" "store_ok (store ?s)" using tinv by (simp_all add: tinv_def no_prep_def)
  moreover have "gentle s0 ?s"
  proof -
    have qts: "gentle_tasks s0 s" using q by (simp add: qt_def gentle_def)
    have "tasks ?s a = Some v"
      if v: "tasks s0 a = Some v" "delivery_lease (task_pc v) = Some l" "settled s0 (job_id l)" for a v l
    proof -
      have "tasks s a = Some v" using qts v unfolding gentle_tasks_def by blast
      moreover have "a \<noteq> tid" using c [of v l] v calculation by auto
      ultimately show ?thesis by simp
    qed
    moreover have "\<exists>w. tasks ?s a = Some w \<and> task_pc w = task_pc v" if "tasks s0 a = Some v" for a v
      using qts that Some unfolding gentle_tasks_def by fastforce
    moreover have "tasks ?s a = None" if "a < next_task s0" "tasks s0 a = None" for a
      using qts that Some unfolding gentle_tasks_def by fastforce
    ultimately have "gentle_tasks s0 ?s" unfolding gentle_tasks_def by blast
    then show ?thesis using q by (simp add: qt_def gentle_def gentle_leases_def gentle_maps_def gentle_rest_def)
  qed
  ultimately show ?thesis using Some by (simp add: cancel_task_def qt_def tinv_def)
qed

lemma qt_unmap:
  "qt s0 s \<Longrightarrow> qt s0 (s\<lparr>delivery_tasks := (delivery_tasks s)(j := None)\<rparr>)"
  "qt s0 s \<Longrightarrow> qt s0 (s\<lparr>deadline_tasks := (deadline_tasks s)(j := None)\<rparr>)"
  by (auto simp: qt_def tinv_def ids_ok_def maps_ok_def modes_ok_def no_prep_def tk_def lease_known_def gentle_defs)

lemma qt_pop [simp]: "qt s0 s \<Longrightarrow> qt s0 (pop_delivery l s)" "qt s0 s \<Longrightarrow> qt s0 (pop_deadline l s)"
  by (simp_all add: pop_delivery_def pop_deadline_def qt_unmap)

lemma qt_drop_deadline: "qt s0 s \<Longrightarrow> qt s0 (drop_deadline j s)"
proof -
  assume q: "qt s0 s"
  show ?thesis
  proof (cases "deadline_tasks s j")
    case (Some tid)
    have "maps_ok None s" using q by (simp add: qt_def tinv_def)
    then have "\<And>t. tasks s tid = Some t \<Longrightarrow> delivery_lease (task_pc t) = None"
      using Some deadline_not_delivery unfolding maps_ok_def tk_def by blast
    then show ?thesis using Some qt_cancel [OF qt_unmap(2) [OF q], of j tid] by (auto simp: drop_deadline_def)
  qed (use q in \<open>simp add: drop_deadline_def\<close>)
qed

lemma qt_drop_delivery: "qt s0 s \<Longrightarrow> \<not> settled s0 j \<Longrightarrow> qt s0 (drop_delivery j s)"
proof -
  assume q: "qt s0 s" and n: "\<not> settled s0 j"
  show ?thesis
  proof (cases "delivery_tasks s j")
    case (Some tid)
    have "maps_ok None s" using q by (simp add: qt_def tinv_def)
    then have "\<not> settled s0 (job_id l)" if "tasks s tid = Some t" "delivery_lease (task_pc t) = Some l" for t l
      using Some n that unfolding maps_ok_def tk_def by (metis option.distinct(1) option.inject)
    then show ?thesis using Some n qt_cancel [OF qt_unmap(1) [OF q], of j tid] by (auto simp: drop_delivery_def)
  qed (use q in \<open>simp add: drop_delivery_def\<close>)
qed

lemma qt_pop_lease_peer: "qt s0 s \<Longrightarrow> qt s0 (pop_lease_peer j s)"
proof -
  assume q: "qt s0 s"
  have "map_of (AList.delete j xs) k = None \<or> map_of (AList.delete j xs) k = map_of xs k" for xs :: "(string \<times> peer) list" and k
    by (simp add: delete_conv')
  then show ?thesis
    using q unfolding qt_def gentle_def gentle_leases_def
    by (simp add: pop_lease_peer_def tinv_def ids_ok_def maps_ok_def modes_ok_def no_prep_def tk_def lease_known_def
        gentle_tasks_def gentle_maps_def gentle_rest_def) metis
qed

section \<open>Abandoning\<close>

lemma live_lease:
  assumes "store_ok (store s)" "db_live_for_thread (store s) thr = Some l"
  shows "lease_at s (job_id l) = Some l" "is_live l" "thread_id l = thr"
  using assms db_live_for_thread_iff [of "store s" thr l] by auto

lemma qt_retire:
  assumes t: "tinv s" and l: "lease_at s j = Some l" "is_live l" "delivery_state l \<noteq> D_activating"
  shows "qt s (s\<lparr>store := db_put now j (abandon_fields r) (store s)\<rparr>)"
proof -
  let ?s = "s\<lparr>store := db_put now j (abandon_fields r) (store s)\<rparr>"
  have ok: "store_ok (store s)" using t by (simp add: tinv_def)
  have "store_ok (store ?s)"
    using store_ok_put [OF ok, of j "abandon_fields r" now] l by simp
  then have "tinv ?s" using tinv_put [OF t] by (simp add: abandon_fields_def)
  moreover have "lease_step (lease_at s k) (lease_at ?s k)" for k
    using l by (cases "lease_at s k") (auto simp: db_get_put abandon_fields_def retired_def lease_key_def)
  ultimately show ?thesis by (simp add: qt_def gentle_defs)
qed

text \<open>The effect of the override, whichever lease it finds.\<close>

lemma s_abandon_effect:
  assumes t: "tinv s"
  obtains (none) "db_live_for_thread (store s) thr = None" "s_abandon now thr r s = (s, Inr ())"
  | (kept) l where "db_live_for_thread (store s) thr = Some l" "delivery_state l = D_activating"
      "s_abandon now thr r s = (s, Inr ())"
  | (gone) l s' where "db_live_for_thread (store s) thr = Some l" "delivery_state l \<noteq> D_activating"
      "s_abandon now thr r s = (s', Inr ())" "qt s s'"
      "lease_at s' (job_id l) = Some (set_fields (abandon_fields r) l)"
proof (cases "db_live_for_thread (store s) thr")
  case None
  then show ?thesis using none by (simp add: s_abandon_def abandon_for_manual_change_def)
next
  case (Some l)
  have ok: "store_ok (store s)" using t by (simp add: tinv_def)
  note l = live_lease [OF ok Some]
  show ?thesis
  proof (cases "delivery_state l = D_activating")
    case True
    then show ?thesis
      using kept [OF Some True] Some l
      by (auto simp: s_abandon_def abandon_for_manual_change_def is_live_def live_state_def)
  next
    case False
    let ?s1 = "s\<lparr>store := db_put now (job_id l) (abandon_fields r) (store s)\<rparr>"
    let ?s2 = "drop_deadline (job_id l) (drop_delivery (job_id l) ?s1)"
    let ?s3 = "if wake_mode l = M_session then pop_lease_peer (job_id l) ?s2 else ?s2"
    have n: "\<not> settled s (job_id l)" using l False by (auto simp: settled_def)
    have q2: "qt s ?s2"
      by (intro qt_drop_deadline qt_drop_delivery qt_retire [OF t l(1,2) False] n)
    then have q3: "qt s ?s3" using qt_pop_lease_peer by auto
    have "st_update now (job_id l) (abandon_fields r) s = (?s1, Inr (set_fields (abandon_fields r) l))"
      using db_update_ok [OF ok l(1), of "abandon_fields r" now] l(2) by (simp add: st_update_def abandon_fields_def)
    then have base: "abandon_for_manual_change now thr r s = (?s2, Inr ())"
      using Some False by (simp add: abandon_for_manual_change_def)
    have st: "store ?s2 = db_put now (job_id l) (abandon_fields r) (store s)"
      by (simp add: drop_deadline_def drop_delivery_def cancel_task_def split: option.splits)
    have cur: "lease_at ?s2 (job_id l) = Some (set_fields (abandon_fields r) l)"
      using l(1) by (simp only: st) (simp add: db_get_put)
    have ab: "lease_state (set_fields (abandon_fields r) l) = L_abandoned" by (simp add: abandon_fields_def)
    have "s_abandon now thr r s = (?s3, Inr ())"
      unfolding s_abandon_def Some base by (simp add: cur ab)
    moreover have "lease_at ?s3 (job_id l) = Some (set_fields (abandon_fields r) l)"
      using cur by (simp add: pop_lease_peer_def)
    ultimately show ?thesis using gone [OF Some False] q3 by blast
  qed
qed

lemma qt_abandon:
  assumes q: "qt s0 s" and a: "s_abandon now thr r s = (s', res)"
  shows "qt s0 s'" "res = Inr ()"
proof -
  have t: "tinv s" using q by (rule qt_tinv)
  have "qt s0 s' \<and> res = Inr ()"
    using s_abandon_effect [OF t, of thr now r] by (cases; use a q qt_trans in auto)
  then show "qt s0 s'" "res = Inr ()" by simp_all
qed

section \<open>Segments of inherited code\<close>

text \<open>No session lease is stored for the job.\<close>

definition goal_job :: "'a goal_bridge_scheme \<Rightarrow> string \<Rightarrow> bool" where
  "goal_job s j \<longleftrightarrow> (\<forall>l. lease_at s j = Some l \<longrightarrow> wake_mode l = M_goal)"

lemma gentle_goal_job: "gentle s s' \<Longrightarrow> goal_job s j \<Longrightarrow> goal_job s' j"
proof -
  assume "gentle s s'" "goal_job s j"
  moreover then have "lease_step (lease_at s j) (lease_at s' j)" by (simp add: gentle_def gentle_leases_def)
  ultimately show ?thesis
    by (cases "lease_at s j"; cases "lease_at s' j") (auto simp: goal_job_def lease_key_def)
qed

lemma qt_goal_job: "qt s0 s \<Longrightarrow> goal_job s0 j \<Longrightarrow> goal_job s j"
  using gentle_goal_job by (auto simp: qt_def)

lemma qt_known: "qt s0 s \<Longrightarrow> lease_known s0 l \<Longrightarrow> lease_known s l"
  using gentle_known by (auto simp: qt_def)

lemma known_goal: "lease_known s l \<Longrightarrow> wake_mode l = M_goal \<Longrightarrow> goal_job s (job_id l)"
  by (auto simp: lease_known_def goal_job_def lease_key_def)

lemma preparing_goal: "tinv s \<Longrightarrow> lease_at s j = Some l \<Longrightarrow> lease_state l = L_preparing \<Longrightarrow> goal_job s j"
  unfolding tinv_def no_prep_def goal_job_def by (metis option.inject wake_mode.exhaust)

text \<open>A segment is gentle, and suspends only at points of the kind \<open>K\<close>.\<close>

definition seg :: "session_bridge \<Rightarrow> ('c \<Rightarrow> bool) \<Rightarrow> (session_bridge, 'c) outcome \<Rightarrow> bool" where
  "seg s0 K res \<longleftrightarrow> qt s0 (fst res) \<and> (\<forall>c. snd res = Inr c \<longrightarrow> K c)"

lemma seg_simps [simp]:
  "seg s0 K (s, Inl e) \<longleftrightarrow> qt s0 s"
  "seg s0 K (s, Inr c) \<longleftrightarrow> qt s0 s \<and> K c"
  by (auto simp: seg_def)

lemma seg_prod: "seg s0 K (s, r) \<Longrightarrow> qt s0 s"
  by (simp add: seg_def)

lemma seg_update:
  assumes q: "qt s0 s" and g: "goal_job s j"
    and f: "\<And>m s'. qt s0 s' \<Longrightarrow> lease_at s' j = Some m \<Longrightarrow> seg s0 K (f m s')"
  shows "seg s0 K (and_then (st_update now j fs s) f)"
proof (cases "st_update now j fs s")
  case (Pair s' r)
  then show ?thesis
    using qt_update [OF q Pair] g f by (cases r) (simp_all add: goal_job_def)
qed

lemma seg_update_case:
  assumes q: "qt s0 s" and g: "goal_job s j"
    and f: "\<And>m s'. qt s0 s' \<Longrightarrow> lease_at s' j = Some m \<Longrightarrow> seg s0 K (f s' m)"
    and e: "\<And>e s'. qt s0 s' \<Longrightarrow> seg s0 K (h s' e)"
  shows "seg s0 K (case st_update now j fs s of (s', Inl e) \<Rightarrow> h s' e | (s', Inr m) \<Rightarrow> f s' m)"
proof (cases "st_update now j fs s")
  case (Pair s' r)
  then show ?thesis
    using qt_update [OF q Pair] g f e by (cases r) (simp_all add: goal_job_def)
qed

lemma seg_abandon:
  assumes q: "qt s0 s" and f: "\<And>s'. qt s0 s' \<Longrightarrow> seg s0 K (f () s')"
  shows "seg s0 K (and_then (s_abandon now thr r s) f)"
proof (cases "s_abandon now thr r s")
  case (Pair s' res)
  then show ?thesis using qt_abandon [OF q Pair] f by simp
qed

lemma seg_abandon_only [simp]: "qt s0 s \<Longrightarrow> seg s0 (\<lambda>_. True) (s_abandon now thr r s)"
  using qt_abandon [of s0 s now thr r] by (cases "s_abandon now thr r s") simp

fun client_end :: "coro \<Rightarrow> bool" where
  "client_end (Suspend pc) = (task_lease pc = None)"
| "client_end (Done _) = True"

fun delivery_end :: "wake_lease \<Rightarrow> coro \<Rightarrow> bool" where
  "delivery_end l (Suspend pc) = (delivery_lease pc = Some l)"
| "delivery_end l (Done _) = True"

fun act_end :: "wake_lease \<Rightarrow> act \<Rightarrow> bool" where
  "act_end l (Act_await pc) = (delivery_lease pc = Some l)"
| "act_end l (Act_return _) = True"

subsection \<open>Registration\<close>

lemma client_pcs [simp]:
  "task_lease (P_get job thr t g) = None" "task_lease (P_pause job thr u l) = None"
  "task_lease (P_confirm job thr u p l) = None" "task_lease (U_lock thr) = None" "task_lease (U_op thr) = None"
  by (simp_all add: task_lease_def)

lemma prepare_start_seg: "qt s0 s \<Longrightarrow> seg s0 client_end (prepare_start job req s)"
  by (auto simp: prepare_start_def Let_def split: sum.splits option.splits)

lemma prepare_got_seg:
  assumes q: "qt s0 s"
  shows "seg s0 client_end (prepare_got now job thr timeout grace r s)"
proof -
  have "seg s0 client_end (and_then (st_create now n s) (\<lambda>lease s.
      (send job (Goal_set thr st) (s\<lparr>pause_notifications := (pause_notifications s)(thr \<mapsto> [])\<rparr>),
       Inr (Suspend (P_pause job thr u lease)))))" if "nl_wake_mode n = M_goal" for n st u
  proof (cases "st_create now n s")
    case (Pair s' res)
    then show ?thesis using qt_create [OF q Pair that] by (cases res) simp_all
  qed
  then show ?thesis using q by (auto simp: prepare_got_def Let_def split: sum.splits)
qed

lemma prepare_failed_seg:
  assumes q: "qt s0 s"
  shows "seg s0 K (prepare_failed now job thr e s)"
proof -
  let ?s = "s\<lparr>expected_goal_status := (expected_goal_status s)(thr := None)\<rparr>"
  have q': "qt s0 ?s" using q by simp
  define handled where "handled = (case db_get (store ?s) job of
      None \<Rightarrow> (?s, Inr ())
    | Some current \<Rightarrow>
        if lease_state current = L_preparing
        then and_then (st_update now job (abandon_fields (''prepare failed: '' @ exc_str e)) ?s) (\<lambda>_ s. (s, Inr ()))
        else (?s, Inr ()))"
  have "seg s0 (\<lambda>_. True) handled"
    unfolding handled_def
    using q' preparing_goal [OF qt_tinv [OF q']]
    by (auto split: option.splits intro!: seg_update)
  then have "qt s0 (fst handled)" by (simp add: seg_def)
  then show ?thesis
    unfolding prepare_failed_def Let_def handled_def [symmetric] by (cases handled) simp
qed

lemma prepare_paused_seg:
  "qt s0 s \<Longrightarrow> seg s0 client_end (prepare_paused now job thr u lease r s)"
  by (auto simp: prepare_paused_def Let_def prepare_failed_seg split: sum.splits)

lemma prepare_arm_seg:
  assumes q: "qt s0 s" and c: "lease_at s job = Some current" "lease_state current = L_preparing"
  shows "seg s0 client_end (prepare_arm now job thr p current s)"
proof -
  have g: "goal_job s job" using preparing_goal [OF qt_tinv [OF q] c] .
  show ?thesis
    unfolding prepare_arm_def Let_def
    by (rule seg_update_case [OF q g])
      (use prepare_failed_seg lease_known_stored in \<open>auto intro!: qt_schedule simp: lease_known_def\<close>)
qed

lemma prepare_confirmed_seg:
  "qt s0 s \<Longrightarrow> seg s0 client_end (prepare_confirmed now job thr u p lease r s)"
  by (auto simp: prepare_confirmed_def Let_def prepare_failed_seg prepare_arm_seg split: sum.splits option.splits)

lemma terminal_request_seg:
  assumes q: "qt s0 s" and g: "goal_job s job"
  shows "seg s0 client_end (terminal_request now job req s)"
  unfolding terminal_request_def
  by (auto simp: q ok_delivery_def split: sum.splits json.splits option.splits
      intro!: seg_update [OF q g] qt_schedule qt_drop_deadline)
    (auto simp: lease_known_def drop_deadline_def cancel_task_def dest: db_get_key split: option.splits)

lemma abort_request_seg:
  assumes q: "qt s0 s" and g: "goal_job s job"
  shows "seg s0 client_end (abort_request s_abandon now job req s)"
  unfolding abort_request_def
  by (auto simp: q ok_delivery_def split: sum.splits option.splits
      intro!: seg_update [OF q g] seg_abandon [OF q] qt_schedule lease_known_stored)

subsection \<open>Delivery and activation\<close>

lemma deliver_raise_seg:
  assumes q: "qt s0 s" and g: "goal_job s (job_id l)"
  shows "seg s0 (delivery_end l) (deliver_raise now l e s)"
proof -
  have "seg s0 (delivery_end l)
      (case st_update now (job_id l) fs s of
         (s', Inl e) \<Rightarrow> (pop_delivery l s', Inl e) | (s', Inr _) \<Rightarrow> (pop_delivery l s', Inr (Done JNull)))" for fs
    by (rule seg_update_case [OF q g]) auto
  then show ?thesis using q by (auto simp: deliver_raise_def split: option.splits)
qed

lemma wait_idle_seg: "qt s0 s \<Longrightarrow> seg s0 (delivery_end l) (wait_idle l s)"
  by (auto simp: wait_idle_def Let_def)

lemma deliver_start_seg: "qt s0 s \<Longrightarrow> seg s0 (delivery_end l) (deliver_start l s)"
  by (auto simp: deliver_start_def wait_idle_seg split: option.splits)

lemma idle_seg:
  assumes "qt s0 s" "goal_job s (job_id l)"
  shows "seg s0 (delivery_end l) (idle_first now l r s)" "seg s0 (delivery_end l) (idle_second now l r s)"
  using assms by (auto simp: idle_first_def idle_second_def deliver_raise_seg split: sum.splits)

lemma activate_start_seg: "qt s0 s \<Longrightarrow> seg s0 (delivery_end l) (activate_start tid l s)"
  by (simp add: activate_start_def)

lemma goal_job_release [simp]: "goal_job (release thr s) j = goal_job s j"
  by (simp add: goal_job_def release_def)

lemma deliver_loop_seg:
  assumes a: "seg s0 (act_end l) a" and g: "goal_job s0 (job_id l)"
  shows "seg s0 (delivery_end l) (deliver_loop now l a)"
proof (cases a)
  case (Pair s r)
  have q: "qt s0 s" using a Pair by (simp add: seg_def)
  then have "goal_job s (job_id l)" using qt_goal_job g by blast
  then show ?thesis
    using q a Pair deliver_raise_seg [of s0 "release (thread_id l) s" l] wait_idle_seg [of s0 "release (thread_id l) s" l]
    by (auto simp: deliver_loop_def split: sum.splits act.splits bool.splits)
qed

lemma act_update_seg:
  assumes "qt s0 s" "goal_job s (job_id l)"
  shows "seg s0 (act_end l) (act_update now l fs s)"
  unfolding act_update_def by (rule seg_update [OF assms]) simp

lemma activate_read_seg: "qt s0 s \<Longrightarrow> seg s0 (act_end l) (activate_read l r s)"
  by (auto simp: activate_read_def split: sum.splits option.splits)

lemma activate_get_seg:
  assumes q: "qt s0 s" and g: "goal_job s (job_id l)"
  shows "seg s0 (act_end l) (activate_get now l r s)"
proof -
  have "seg s0 (act_end l) (and_then (st_update now (job_id l) fs s)
      (\<lambda>_ s. (send (job_id l) rq (s\<lparr>expected_goal_status := (expected_goal_status s)(thr \<mapsto> v)\<rparr>),
              Inr (Act_await (A_set l)))))" for fs rq thr v
    by (rule seg_update [OF q g]) simp
  then show ?thesis
    using q act_update_seg [OF q g] by (auto simp: activate_get_def split: sum.splits option.splits)
qed

lemma activate_set_seg:
  assumes q: "qt s0 s" and g: "goal_job s (job_id l)"
  shows "seg s0 (act_end l) (activate_set now l r s)"
proof -
  have "goal_job (pop_expected thr s) (job_id l)" for thr using g by (simp add: goal_job_def pop_expected_def)
  then show ?thesis
    using q act_update_seg [of s0 _ l] g by (auto simp: activate_set_def split: sum.splits)
qed

subsection \<open>User controls, notifications, deadlines\<close>

lemma user_control_seg:
  assumes q: "qt s0 s"
  shows "seg s0 client_end (user_goal_control s_abandon now thr s)"
    and "seg s0 client_end (user_control_locked s_abandon now tid thr s)"
proof -
  show "seg s0 client_end (user_goal_control s_abandon now thr s)"
    unfolding user_goal_control_def by (rule seg_abandon [OF q]) simp
  have "qt s0 (acquire thr tid s)" using q by simp
  from qt_abandon [OF this] show "seg s0 client_end (user_control_locked s_abandon now tid thr s)"
    by (auto simp: user_control_locked_def split: prod.splits sum.splits)
qed

lemma on_notification_seg:
  assumes q: "qt s0 s"
  shows "seg s0 (\<lambda>_. True) (on_notification s_abandon now meth params s)"
  using q by (auto simp: on_notification_def goal_updated_def Let_def split: json.splits option.splits prod.splits)

lemma s_on_notification_seg:
  assumes q: "qt s0 s"
  shows "seg s0 (\<lambda>_. True) (s_on_notification now meth params s)"
  using q on_notification_seg [OF q] by (auto simp: s_on_notification_def Let_def split: json.splits option.splits)

lemma expire_seg:
  assumes q: "qt s0 s" and g: "goal_job s (job_id l)"
  shows "seg s0 (\<lambda>c. \<exists>v. c = Done v) (expire_at_deadline now l s)"
proof -
  have "seg s0 (\<lambda>c. \<exists>v. c = Done v)
      (case st_update now (job_id l) fs s of
         (s', Inl e) \<Rightarrow> (pop_deadline l s', Inl e)
       | (s', Inr m) \<Rightarrow> (pop_deadline l (schedule_delivery m s'), Inr (Done JNull)))" for fs
    by (rule seg_update_case [OF q g]) (auto intro!: qt_pop qt_schedule lease_known_stored)
  then show ?thesis using q by (auto simp: expire_at_deadline_def split: option.splits)
qed

lemma user_activity_seg:
  assumes "tinv s"
  shows "seg (s\<lparr>calls := filter (\<lambda>((t, _), _). t \<noteq> thr) (calls s)\<rparr>) (\<lambda>_. True) (user_activity now thr s)"
proof -
  let ?s = "s\<lparr>calls := filter (\<lambda>((t, _), _). t \<noteq> thr) (calls s)\<rparr>"
  have q: "qt ?s ?s" using assms by (simp add: tinv_defs)
  then show ?thesis using seg_abandon_only [OF q] by (auto simp: user_activity_def Let_def split: option.splits)
qed

end
