(* ===== verification/Session_Inv.thy ===== *)
theory Session_Inv
  imports Session_Gentle
begin

text \<open>
  The invariant of the session bridge. As for the Goal bridge, \<open>sv x E L s\<close> is the
  invariant with the running task \<open>x\<close> ignored, the jobs \<open>E\<close> it answers for and the
  peers' locks \<open>L\<close> it holds exempt. Mutual exclusion on a peer's connection, the agreement
  of the coroutines that serve a job on one peer, and what each point of a coroutine may
  assume of its lease together bound what is sent for a job.
\<close>

section \<open>What is sent for a job\<close>

text \<open>The three RPCs that act on a session: the interrupt, the receipt, the wake.\<close>

datatype control = C_interrupt | C_receipt | C_wake

fun control_of :: "peer_rpc \<Rightarrow> control list" where
  "control_of (Turn_interrupt _ _) = [C_interrupt]"
| "control_of (Inject_items _ _) = [C_receipt]"
| "control_of (Turn_start _ _) = [C_wake]"
| "control_of _ = []"

definition controls_in :: "(peer \<times> string \<times> peer_rpc) list \<Rightarrow> string \<Rightarrow> control list" where
  "controls_in ps j = concat (map (\<lambda>(p, k, r). if k = j then control_of r else []) ps)"

definition controls :: "session_bridge \<Rightarrow> string \<Rightarrow> control list" where
  "controls s j = controls_in (peer_sent s) j"

lemma controls_in_append [simp]:
  "controls_in (ps @ [(p, k, r)]) j = controls_in ps j @ (if k = j then control_of r else [])"
  by (simp add: controls_in_def)

section \<open>The points of a coroutine\<close>

fun holds :: "session_pc \<Rightarrow> peer option" where
  "holds (SP_latest p) = Some (p_peer p)"
| "holds (SP_goal p) = Some (p_peer p)"
| "holds (H_goal l p st) = Some p"
| "holds (H_latest l p st) = Some p"
| "holds (H_interrupt l p st) = Some p"
| "holds (H_done l p st) = Some p"
| "holds (H_latest2 l p st) = Some p"
| "holds (H_inject l p st) = Some p"
| "holds (D_goal l p t) = Some p"
| "holds (D_latest l p t) = Some p"
| "holds (D_start l p) = Some p"
| "holds (Y_send p) = Some p"
| "holds (Y_goal p) = Some p"
| "holds _ = None"

text \<open>The lease a coroutine works on and the peer it chose.\<close>

fun serving :: "session_pc \<Rightarrow> (wake_lease \<times> peer) option" where
  "serving (H_lock l p st) = Some (l, p)"
| "serving (H_goal l p st) = Some (l, p)"
| "serving (H_latest l p st) = Some (l, p)"
| "serving (H_interrupt l p st) = Some (l, p)"
| "serving (H_done l p st) = Some (l, p)"
| "serving (H_latest2 l p st) = Some (l, p)"
| "serving (H_inject l p st) = Some (l, p)"
| "serving (D_lock l p) = Some (l, p)"
| "serving (D_goal l p t) = Some (l, p)"
| "serving (D_latest l p t) = Some (l, p)"
| "serving (D_start l p) = Some (l, p)"
| "serving _ = None"

fun is_D_start :: "session_pc \<Rightarrow> bool" where
  "is_D_start (D_start _ _) = True"
| "is_D_start _ = False"

text \<open>Which entry of \<open>tasks\<close> a coroutine of this class has beside its point.\<close>

fun beside :: "session_pc \<Rightarrow> goal_pc option \<Rightarrow> bool" where
  "beside (D_lock l p) x = (x = Some (W_start l))"
| "beside (D_goal l p t) x = (x = Some (W_start l))"
| "beside (D_latest l p t) x = (x = Some (W_start l))"
| "beside (D_start l p) x = (x = Some (W_start l))"
| "beside (Y_goal p) x = (\<exists>pc. x = Some pc \<and> task_lease pc = None)"
| "beside _ x = (x = None)"

text \<open>What a point assumes of the stored lease.\<close>

fun point_phase :: "session_pc \<Rightarrow> wake_lease \<Rightarrow> bool" where
  "point_phase (H_goal l p st) cur = (is_live cur \<longrightarrow> handoff_state cur = H_pending)"
| "point_phase (H_latest l p st) cur = (is_live cur \<longrightarrow> handoff_state cur = H_pending)"
| "point_phase (H_interrupt l p st) cur = (is_live cur \<longrightarrow> handoff_state cur = H_interrupting)"
| "point_phase (H_done l p st) cur = (is_live cur \<longrightarrow> handoff_state cur = H_interrupting)"
| "point_phase (H_latest2 l p st) cur = (is_live cur \<longrightarrow> handoff_state cur = H_interrupting)"
| "point_phase (H_inject l p st) cur = (is_live cur \<longrightarrow> handoff_state cur = H_recording_receipt)"
| "point_phase (D_goal l p t) cur = (handoff_state cur = H_ready \<and> (is_live cur \<longrightarrow> lease_state cur = L_terminal))"
| "point_phase (D_latest l p t) cur = (handoff_state cur = H_ready \<and> (is_live cur \<longrightarrow> lease_state cur = L_terminal))"
| "point_phase (D_start l p) cur = (handoff_state cur = H_ready \<and>
     (is_live cur \<longrightarrow> lease_state cur = L_terminal \<and> delivery_state cur = D_activating))"
| "point_phase _ cur = True"

lemma phase_idle: "serving pc \<noteq> None \<Longrightarrow> holds pc = None \<Longrightarrow> point_phase pc cur"
  by (cases pc) simp_all

section \<open>The invariant\<close>

definition sp :: "nat option \<Rightarrow> session_bridge \<Rightarrow> nat \<Rightarrow> session_pc \<Rightarrow> bool" where
  "sp x s tid pc \<longleftrightarrow> session_tasks s tid = Some pc \<and> x \<noteq> Some tid"

definition locks :: "nat option \<Rightarrow> peer set \<Rightarrow> session_bridge \<Rightarrow> bool" where
  "locks x L s \<longleftrightarrow>
     (\<forall>tid pc p. sp x s tid pc \<longrightarrow> holds pc = Some p \<longrightarrow> activity_lock s p = Some tid)
   \<and> (\<forall>p tid. activity_lock s p = Some tid \<longrightarrow>
        x = Some tid \<and> p \<in> L \<or> (\<exists>pc. sp x s tid pc \<and> holds pc = Some p))"

text \<open>A coroutine that serves a live lease works over the connection of its thread.\<close>

definition point_ok :: "session_bridge \<Rightarrow> nat \<Rightarrow> session_pc \<Rightarrow> bool" where
  "point_ok s tid pc \<longleftrightarrow>
     (\<forall>l p. serving pc = Some (l, p) \<longrightarrow>
        (\<exists>cur. lease_at s (job_id l) = Some cur \<and> lease_key cur = lease_key l \<and> wake_mode l = M_session
           \<and> (is_live cur \<longrightarrow> delivery_state cur \<noteq> D_activating \<longrightarrow>
                map_of (peers s) (thread_id l) = Some p)
           \<and> point_phase pc cur
           \<and> (is_D_start pc \<longrightarrow>
                (is_live cur \<longrightarrow> map_of (lease_peers s) (job_id l) \<in> {None, Some p})
                \<and> (\<exists>t. tasks s tid = Some t \<and> \<not> cancelled t))))"

text \<open>No delivery or deadline goes by the number of a client's task.\<close>

definition free_id :: "session_bridge \<Rightarrow> nat \<Rightarrow> bool" where
  "free_id s tid \<longleftrightarrow> tasks s tid = None \<longrightarrow>
     (\<forall>j. delivery_tasks s j \<noteq> Some tid \<and> deadline_tasks s j \<noteq> Some tid)"

definition points :: "nat option \<Rightarrow> session_bridge \<Rightarrow> bool" where
  "points x s \<longleftrightarrow> (\<forall>tid pc. sp x s tid pc \<longrightarrow>
     tid < next_task s \<and> free_id s tid \<and> beside pc (map_option task_pc (tasks s tid)) \<and> point_ok s tid pc)"

definition live_job :: "session_bridge \<Rightarrow> string \<Rightarrow> bool" where
  "live_job s j \<longleftrightarrow> (\<exists>l. lease_at s j = Some l \<and> is_live l)"

definition same_peer :: "nat option \<Rightarrow> session_bridge \<Rightarrow> bool" where
  "same_peer x s \<longleftrightarrow>
     (\<forall>a pc b pc' l p l' p'. sp x s a pc \<longrightarrow> sp x s b pc' \<longrightarrow> serving pc = Some (l, p) \<longrightarrow>
        serving pc' = Some (l', p') \<longrightarrow> job_id l = job_id l' \<longrightarrow> live_job s (job_id l) \<longrightarrow> p = p')"

definition lease_ok :: "wake_lease \<Rightarrow> bool" where
  "lease_ok l \<longleftrightarrow> (is_live l \<longrightarrow> delivery_state l = D_activating \<longrightarrow>
     lease_state l = L_terminal \<and> handoff_state l = H_ready)"

text \<open>What was sent for a lease, by the stage of its handoff.\<close>

definition stage :: "wake_lease \<Rightarrow> control list \<Rightarrow> bool" where
  "stage l cs \<longleftrightarrow>
     (case handoff_state l of
        H_not_applicable \<Rightarrow> False
      | H_pending \<Rightarrow> cs = []
      | H_interrupting \<Rightarrow> cs = [C_interrupt]
      | H_recording_receipt \<Rightarrow> cs = [C_interrupt, C_receipt]
      | H_ready \<Rightarrow>
          cs = [C_interrupt, C_receipt] \<and> \<not> (is_live l \<and> delivery_state l = D_activating)
        \<or> cs = [C_interrupt, C_receipt, C_wake] \<and> (is_live l \<longrightarrow> delivery_state l = D_activating))"

text \<open>A wake under way has the task that awaits its confirmation.\<close>

definition waking :: "nat option \<Rightarrow> session_bridge \<Rightarrow> string \<Rightarrow> bool" where
  "waking x s j \<longleftrightarrow> (\<exists>tid l p. sp x s tid (D_start l p) \<and> job_id l = j)"

definition leases :: "nat option \<Rightarrow> string set \<Rightarrow> session_bridge \<Rightarrow> bool" where
  "leases x E s \<longleftrightarrow>
     (\<forall>j l. lease_at s j = Some l \<longrightarrow> wake_mode l = M_session \<longrightarrow>
        lease_ok l \<and> stage l (controls s j)
        \<and> (is_live l \<longrightarrow> delivery_state l = D_activating \<longrightarrow> j \<in> E \<or> waking x s j))
   \<and> (\<forall>j. goal_job s j \<longrightarrow> controls s j = [])"

definition calls_ok :: "session_bridge \<Rightarrow> bool" where
  "calls_ok s \<longleftrightarrow> (\<forall>thr c u p. ((thr, c), (u, p)) \<in> set (calls s) \<longrightarrow> map_of (peers s) thr = Some p)"

definition sv :: "nat option \<Rightarrow> string set \<Rightarrow> peer set \<Rightarrow> session_bridge \<Rightarrow> bool" where
  "sv x E L s \<longleftrightarrow> locks x L s \<and> points x s \<and> same_peer x s \<and> leases x E s \<and> calls_ok s"

definition session_inv :: "session_bridge \<Rightarrow> bool" where
  "session_inv s \<longleftrightarrow> tinv s \<and> sv None {} {} s"

lemmas sv_defs = sv_def locks_def points_def point_ok_def same_peer_def live_job_def leases_def waking_def
  calls_ok_def sp_def controls_def goal_job_def

lemma sv_frame [simp]:
  "sv x E L (s\<lparr>pause_notifications := a\<rparr>) = sv x E L s"
  "sv x E L (s\<lparr>expected_goal_status := b\<rparr>) = sv x E L s"
  "sv x E L (s\<lparr>thread_events := e\<rparr>) = sv x E L s"
  "sv x E L (s\<lparr>goal_controls := g\<rparr>) = sv x E L s"
  "sv x E L (s\<lparr>responses := r\<rparr>) = sv x E L s"
  "sv x E L (s\<lparr>sent := h\<rparr>) = sv x E L s"
  "sv x E L (s\<lparr>turn_done := d\<rparr>) = sv x E L s"
  "sv x E L (s\<lparr>call_changed := c\<rparr>) = sv x E L s"
  "sv x E L (s\<lparr>ambiguous_threads := m\<rparr>) = sv x E L s"
  by (simp_all add: sv_defs free_id_def)

lemma tinv_frame [simp]:
  "tinv (s\<lparr>responses := r\<rparr>) = tinv s"
  "tinv (s\<lparr>turn_done := d\<rparr>) = tinv s" "tinv (s\<lparr>call_changed := c\<rparr>) = tinv s"
  "tinv (s\<lparr>ambiguous_threads := m\<rparr>) = tinv s" "tinv (s\<lparr>peers := ps\<rparr>) = tinv s"
  "tinv (s\<lparr>lease_peers := lp\<rparr>) = tinv s" "tinv (s\<lparr>calls := cs\<rparr>) = tinv s"
  "tinv (s\<lparr>activity_lock := al\<rparr>) = tinv s" "tinv (s\<lparr>session_tasks := st\<rparr>) = tinv s"
  "tinv (s\<lparr>peer_sent := h\<rparr>) = tinv s"
  by (simp_all add: tinv_defs)

section \<open>Gentle segments\<close>

lemma stage_step:
  "stage l cs \<Longrightarrow> l' = l \<or> retired l l' \<Longrightarrow> stage l' cs"
  using retired_not_live [of l l'] by (auto simp: stage_def retired_def split: handoff_state.splits)

lemma phase_step: "point_phase pc l \<Longrightarrow> l' = l \<or> retired l l' \<Longrightarrow> point_phase pc l'"
  using retired_not_live [of l l'] by (cases pc) (auto simp: retired_def)

lemma gentle_sp [simp]: "gentle s s' \<Longrightarrow> sp x s' = sp x s"
  by (simp add: sp_def fun_eq_iff gentle_def gentle_rest_def)

lemma gentle_lease:
  assumes q: "gentle s s'" and l: "lease_at s j = Some l" "wake_mode l = M_session"
  obtains l' where "lease_at s' j = Some l'" "lease_key l' = lease_key l" "l' = l \<or> retired l l'"
proof -
  have "lease_step (lease_at s j) (lease_at s' j)" using q by (simp add: gentle_def gentle_leases_def)
  then show ?thesis using that l by (cases "lease_at s' j") auto
qed

lemma gentle_lease_back:
  assumes q: "gentle s s'" and l: "lease_at s' j = Some l'" "wake_mode l' = M_session"
  obtains l where "lease_at s j = Some l" "lease_key l' = lease_key l" "l' = l \<or> retired l l'" "wake_mode l = M_session"
proof -
  have "lease_step (lease_at s j) (lease_at s' j)" using q by (simp add: gentle_def gentle_leases_def)
  then show ?thesis using that l by (cases "lease_at s j") (auto simp: lease_key_def)
qed

lemma serving_D_start: "is_D_start pc \<Longrightarrow> \<exists>l p. pc = D_start l p"
  by (cases pc) simp_all

lemma gentle_id:
  assumes q: "gentle s s'" and tid: "tid < next_task s"
  shows "tid < next_task s'" "map_option task_pc (tasks s' tid) = map_option task_pc (tasks s tid)"
    and "free_id s tid \<Longrightarrow> free_id s' tid"
proof -
  have qt: "gentle_tasks s s'" "gentle_maps s s'" using q by (simp_all add: gentle_def)
  show "tid < next_task s'" using tid qt(2) by (simp add: gentle_maps_def)
  show eq: "map_option task_pc (tasks s' tid) = map_option task_pc (tasks s tid)"
  proof (cases "tasks s tid")
    case None
    then show ?thesis using tid qt(1) by (simp add: gentle_tasks_def)
  next
    case (Some t)
    then show ?thesis using qt(1) unfolding gentle_tasks_def by fastforce
  qed
  have "tasks s' tid = None \<Longrightarrow> tasks s tid = None" using eq by (cases "tasks s tid") auto
  then show "free_id s tid \<Longrightarrow> free_id s' tid" using tid qt(2) unfolding free_id_def gentle_maps_def by metis
qed

lemma gentle_points:
  assumes q: "gentle s s'" and pts: "points x s"
  shows "points x s'"
  unfolding points_def
proof (intro allI impI conjI)
  fix tid pc
  assume "sp x s' tid pc"
  then have sp: "sp x s tid pc" using q by simp
  then have old: "tid < next_task s" "beside pc (map_option task_pc (tasks s tid))" "point_ok s tid pc" "free_id s tid"
    using pts by (auto simp: points_def)
  have qt: "gentle_tasks s s'" "gentle_maps s s'" "gentle_leases s s'" "gentle_rest s s'" using q by (simp_all add: gentle_def)
  note id = gentle_id [OF q old(1)]
  show "tid < next_task s'" "beside pc (map_option task_pc (tasks s' tid))" "free_id s' tid"
    using id old by simp_all
  show "point_ok s' tid pc"
    unfolding point_ok_def
  proof (intro allI impI)
    fix l p
    assume serv: "serving pc = Some (l, p)"
    then obtain cur where cur: "lease_at s (job_id l) = Some cur" "lease_key cur = lease_key l" "wake_mode l = M_session"
      "is_live cur \<longrightarrow> delivery_state cur \<noteq> D_activating \<longrightarrow> map_of (peers s) (thread_id l) = Some p"
      "point_phase pc cur"
      "is_D_start pc \<longrightarrow> (is_live cur \<longrightarrow> map_of (lease_peers s) (job_id l) \<in> {None, Some p})
         \<and> (\<exists>t. tasks s tid = Some t \<and> \<not> cancelled t)"
      using old(3) unfolding point_ok_def by blast
    have "wake_mode cur = M_session" using cur(2,3) by (simp add: lease_key_def)
    then obtain cur' where cur': "lease_at s' (job_id l) = Some cur'" "lease_key cur' = lease_key cur"
        "cur' = cur \<or> retired cur cur'"
      using gentle_lease [OF q cur(1)] by blast
    have live: "is_live cur' \<Longrightarrow> cur' = cur" using cur'(3) retired_not_live by blast
    have "\<exists>t. tasks s' tid = Some t \<and> \<not> cancelled t" if d: "is_D_start pc"
    proof -
      obtain m r where pc: "pc = D_start m r" using serving_D_start [OF d] by blast
      then have m: "m = l" using serv by simp
      obtain t where t: "tasks s tid = Some t" "\<not> cancelled t" using cur(6) d by blast
      have "delivery_lease (task_pc t) = Some l" using old(2) t pc m by simp
      moreover have "settled s (job_id l)"
        using cur(1,5) \<open>wake_mode cur = M_session\<close> pc by (auto simp: settled_def)
      ultimately have "tasks s' tid = Some t" using qt(1) t(1) unfolding gentle_tasks_def by blast
      then show ?thesis using t(2) by blast
    qed
    moreover have "map_of (lease_peers s') (job_id l) \<in> {None, Some p}"
      if "is_D_start pc" "is_live cur'"
      using that cur(6) live qt(3) unfolding gentle_leases_def by (metis insertE insertI1 insertI2 singletonD)
    ultimately show "\<exists>cur. lease_at s' (job_id l) = Some cur \<and> lease_key cur = lease_key l \<and> wake_mode l = M_session
        \<and> (is_live cur \<longrightarrow> delivery_state cur \<noteq> D_activating \<longrightarrow> map_of (peers s') (thread_id l) = Some p)
        \<and> point_phase pc cur
        \<and> (is_D_start pc \<longrightarrow> (is_live cur \<longrightarrow> map_of (lease_peers s') (job_id l) \<in> {None, Some p})
             \<and> (\<exists>t. tasks s' tid = Some t \<and> \<not> cancelled t))"
      using cur cur' live phase_step [OF cur(5) cur'(3)] qt(4) by (auto simp: gentle_rest_def)
  qed
qed

lemma gentle_live_job: "gentle s s' \<Longrightarrow> point_ok s tid pc \<Longrightarrow> serving pc = Some (l, p) \<Longrightarrow>
    live_job s' (job_id l) \<Longrightarrow> live_job s (job_id l)"
proof -
  assume a: "gentle s s'" "point_ok s tid pc" "serving pc = Some (l, p)" "live_job s' (job_id l)"
  then obtain cur where cur: "lease_at s (job_id l) = Some cur" "wake_mode cur = M_session"
    by (fastforce simp: point_ok_def lease_key_def)
  then obtain cur' where "lease_at s' (job_id l) = Some cur'" "cur' = cur \<or> retired cur cur'"
    using gentle_lease [OF a(1)] by blast
  then show ?thesis using a(4) cur retired_not_live by (auto simp: live_job_def)
qed

lemma gentle_sv:
  assumes q: "gentle s s'" and sv: "sv x E L s"
  shows "sv x E L s'"
proof -
  have rest: "gentle_rest s s'" using q by (simp add: gentle_def)
  have "locks x L s'" using sv q rest unfolding sv_def locks_def gentle_rest_def by simp
  moreover have "points x s'" using gentle_points [OF q] sv by (simp add: sv_def)
  moreover have "same_peer x s'"
  proof -
    have "live_job s (job_id l)" if "sp x s a pc" "serving pc = Some (l, p)" "live_job s' (job_id l)" for a pc l p
      using that gentle_live_job [OF q, of a pc] sv by (auto simp: sv_def points_def)
    then show ?thesis using sv q unfolding sv_def same_peer_def gentle_sp [OF q] by meson
  qed
  moreover have "leases x E s'"
    unfolding leases_def
  proof (intro conjI allI impI)
    fix j l'
    assume l': "lease_at s' j = Some l'" "wake_mode l' = M_session"
    then obtain l where l: "lease_at s j = Some l" "l' = l \<or> retired l l'" "wake_mode l = M_session"
      using gentle_lease_back [OF q] by metis
    have ctl: "controls s' j = controls s j" using rest by (simp add: controls_def gentle_rest_def)
    have old: "lease_ok l" "stage l (controls s j)"
      "is_live l \<longrightarrow> delivery_state l = D_activating \<longrightarrow> j \<in> E \<or> waking x s j"
      using sv l by (simp_all add: sv_def leases_def)
    have live: "is_live l' \<Longrightarrow> l' = l" using l(2) retired_not_live by blast
    show "lease_ok l'" using old(1) live by (auto simp: lease_ok_def)
    show "stage l' (controls s' j)" using stage_step [OF old(2) l(2)] ctl by simp
    have "waking x s' j = waking x s j" using q by (simp add: waking_def)
    then show "j \<in> E \<or> waking x s' j" if "is_live l'" "delivery_state l' = D_activating"
      using that old(3) live by auto
  next
    fix j
    assume g: "goal_job s' j"
    have "lease_step (lease_at s j) (lease_at s' j)" using q by (simp add: gentle_def gentle_leases_def)
    then have "goal_job s j"
      using g by (cases "lease_at s j"; cases "lease_at s' j") (auto simp: goal_job_def lease_key_def)
    then have "controls s j = []" using sv by (simp add: sv_def leases_def)
    then show "controls s' j = []" using rest by (simp add: controls_def gentle_rest_def)
  qed
  moreover have "calls_ok s'" using sv rest by (simp add: sv_def calls_ok_def gentle_rest_def)
  ultimately show ?thesis by (simp add: sv_def)
qed

section \<open>A task starts to run, and stops\<close>

text \<open>No other coroutine that serves a live job works over another connection.\<close>

definition sole_peer :: "nat option \<Rightarrow> session_bridge \<Rightarrow> string \<Rightarrow> peer \<Rightarrow> bool" where
  "sole_peer x s j p \<longleftrightarrow>
     (\<forall>b pc l p'. sp x s b pc \<longrightarrow> serving pc = Some (l, p') \<longrightarrow> job_id l = j \<longrightarrow> live_job s j \<longrightarrow> p = p')"

fun wakes :: "session_pc \<Rightarrow> string set" where
  "wakes (D_start l p) = {job_id l}"
| "wakes _ = {}"

lemma sv_begin:
  assumes sv: "sv None {} {} s" and t: "session_tasks s tid = Some pc"
  shows "sv (Some tid) (wakes pc) (set_option (holds pc)) s"
    and "tid < next_task s" and "beside pc (map_option task_pc (tasks s tid))" and "point_ok s tid pc"
    and "free_id s tid" and "serving pc = Some (l, p) \<Longrightarrow> sole_peer (Some tid) s (job_id l) p"
    and "holds pc = Some q \<Longrightarrow> activity_lock s q = Some tid"
proof -
  have here: "sp None s tid pc" using t by (simp add: sp_def)
  have sub: "sp None s a u" if "sp (Some tid) s a u" for a u using that by (simp add: sp_def)
  have other: "sp (Some tid) s a u \<or> a = tid \<and> u = pc" if "sp None s a u" for a u
    using that t by (auto simp: sp_def)
  have "locks (Some tid) (set_option (holds pc)) s"
  proof -
    have l: "locks None {} s" using sv by (simp add: sv_def)
    then have "\<exists>u. sp None s a u \<and> holds u = Some p" if "activity_lock s p = Some a" for p a
      using that unfolding locks_def by blast
    then have "Some tid = Some a \<and> p \<in> set_option (holds pc) \<or> (\<exists>u. sp (Some tid) s a u \<and> holds u = Some p)"
      if "activity_lock s p = Some a" for p a
      using that other by (metis option.set_intros)
    then show ?thesis using l sub unfolding locks_def by blast
  qed
  moreover have "points (Some tid) s" "same_peer (Some tid) s"
    using sv sub unfolding sv_def points_def same_peer_def by blast+
  moreover have "leases (Some tid) (wakes pc) s"
  proof -
    have "waking (Some tid) s j \<or> j \<in> wakes pc" if "waking None s j" for j
      using that other unfolding waking_def by fastforce
    then show ?thesis using sv unfolding sv_def leases_def by blast
  qed
  ultimately show "sv (Some tid) (wakes pc) (set_option (holds pc)) s" using sv by (simp add: sv_def)
  show "tid < next_task s" "beside pc (map_option task_pc (tasks s tid))" "point_ok s tid pc" "free_id s tid"
    using sv here by (auto simp: sv_def points_def)
  show "sole_peer (Some tid) s (job_id l) p" if "serving pc = Some (l, p)"
    using that sv here sub unfolding sv_def same_peer_def sole_peer_def by metis
  show "activity_lock s q = Some tid" if "holds pc = Some q"
    using that sv here by (simp add: sv_def locks_def)
qed

lemma sv_fresh:
  assumes sv: "sv None {} {} s" and n: "session_tasks s n = None"
  shows "sv (Some n) {} {} s"
proof -
  have "sp (Some n) s = sp None s" using n by (auto simp: sp_def fun_eq_iff)
  then show ?thesis using sv by (auto simp: sv_def locks_def points_def same_peer_def leases_def waking_def)
qed

text \<open>The parts of the invariant that do not read the locks, or the points.\<close>

lemma pred_frame [simp]:
  "sp x (s\<lparr>activity_lock := al\<rparr>) = sp x s"
  "point_ok (s\<lparr>activity_lock := al\<rparr>) = point_ok s" "point_ok (s\<lparr>session_tasks := st\<rparr>) = point_ok s"
  "live_job (s\<lparr>activity_lock := al\<rparr>) = live_job s" "live_job (s\<lparr>session_tasks := st\<rparr>) = live_job s"
  "controls (s\<lparr>activity_lock := al\<rparr>) = controls s" "controls (s\<lparr>session_tasks := st\<rparr>) = controls s"
  "goal_job (s\<lparr>activity_lock := al\<rparr>) = goal_job s" "goal_job (s\<lparr>session_tasks := st\<rparr>) = goal_job s"
  "free_id (s\<lparr>activity_lock := al\<rparr>) = free_id s" "free_id (s\<lparr>session_tasks := st\<rparr>) = free_id s"
  by (simp_all add: free_id_def sp_def point_ok_def live_job_def controls_def goal_job_def fun_eq_iff)

lemma waking_lock [simp]: "waking x (s\<lparr>activity_lock := al\<rparr>) = waking x s"
  by (simp add: waking_def fun_eq_iff)

lemma sv_lock:
  assumes "sv x E L s" "locks x L' (s\<lparr>activity_lock := al\<rparr>)"
  shows "sv x E L' (s\<lparr>activity_lock := al\<rparr>)"
  using assms unfolding sv_def points_def same_peer_def leases_def calls_ok_def by simp

lemma sv_drop:
  assumes sv: "sv (Some tid) {} {} s"
  shows "sv None {} {} (s\<lparr>session_tasks := (session_tasks s)(tid := None)\<rparr>)"
proof -
  have "sp None (s\<lparr>session_tasks := (session_tasks s)(tid := None)\<rparr>) = sp (Some tid) s"
    by (auto simp: sp_def fun_eq_iff)
  then show ?thesis
    using sv unfolding sv_def locks_def points_def same_peer_def leases_def waking_def calls_ok_def by simp
qed

lemma sv_suspend:
  assumes sv: "sv (Some tid) E L s" and tid: "tid < next_task s" "free_id s tid"
    and b: "beside pc (map_option task_pc (tasks s tid))" and p: "point_ok s tid pc"
    and sole: "\<And>l p. serving pc = Some (l, p) \<Longrightarrow> sole_peer (Some tid) s (job_id l) p"
    and L: "L \<subseteq> set_option (holds pc)" "\<And>p. holds pc = Some p \<Longrightarrow> activity_lock s p = Some tid"
    and E: "E \<subseteq> wakes pc"
  shows "sv None {} {} (s\<lparr>session_tasks := (session_tasks s)(tid \<mapsto> pc)\<rparr>)"
proof -
  let ?s = "s\<lparr>session_tasks := (session_tasks s)(tid \<mapsto> pc)\<rparr>"
  have sp: "sp None ?s a u \<longleftrightarrow> (if a = tid then u = pc else sp (Some tid) s a u)" for a u
    by (auto simp: sp_def)
  have not_tid: "\<not> sp (Some tid) s tid u" for u by (simp add: sp_def)
  have same: "point_ok ?s a u = point_ok s a u" "live_job ?s j = live_job s j" for a u j
    by (simp_all add: point_ok_def live_job_def)
  have l: "locks (Some tid) L s" using sv by (simp add: sv_def)
  have "locks None {} ?s"
    unfolding locks_def
  proof (intro conjI allI impI)
    fix a u q
    assume "sp None ?s a u" "holds u = Some q"
    then show "activity_lock ?s q = Some a" using l L(2) by (auto simp: sp locks_def split: if_splits)
  next
    fix q a
    assume "activity_lock ?s q = Some a"
    then have "Some tid = Some a \<and> q \<in> L \<or> (\<exists>u. sp (Some tid) s a u \<and> holds u = Some q)"
      using l unfolding locks_def by simp
    then have "\<exists>u. sp None ?s a u \<and> holds u = Some q"
    proof
      assume "Some tid = Some a \<and> q \<in> L"
      then have "a = tid" "holds pc = Some q" using L(1) by auto
      then show ?thesis by (auto simp: sp)
    next
      assume "\<exists>u. sp (Some tid) s a u \<and> holds u = Some q"
      then show ?thesis using not_tid sp by metis
    qed
    then show "None = Some a \<and> q \<in> {} \<or> (\<exists>u. sp None ?s a u \<and> holds u = Some q)" by simp
  qed
  moreover have "points None ?s"
    using sv tid b p by (auto simp: sv_def points_def sp same split: if_splits)
  moreover have "same_peer None ?s"
  proof -
    have sole': "p = p'" if "serving pc = Some (l, p)" "sp (Some tid) s c u" "serving u = Some (l', p')"
        "job_id l' = job_id l" "live_job s (job_id l)" for l p c u l' p'
      using that sole unfolding sole_peer_def by blast
    have old: "p = p'" if "sp (Some tid) s a u" "serving u = Some (l, p)" "sp (Some tid) s c v" "serving v = Some (l', p')"
        "job_id l = job_id l'" "live_job s (job_id l)" for a u l p c v l' p'
      using that sv unfolding sv_def same_peer_def by blast
    show ?thesis
      unfolding same_peer_def sp same
    proof (intro allI impI)
      fix a u c v l p l' p'
      assume h: "if a = tid then u = pc else sp (Some tid) s a u" "if c = tid then v = pc else sp (Some tid) s c v"
        "serving u = Some (l, p)" "serving v = Some (l', p')" "job_id l = job_id l'" "live_job s (job_id l)"
      show "p = p'"
      proof (cases "a = tid"; cases "c = tid")
        assume "a = tid" "c = tid"
        then show ?thesis using h by simp
      next
        assume "a = tid" "c \<noteq> tid"
        then show ?thesis using h sole' [of l p c v l' p'] by simp
      next
        assume "a \<noteq> tid" "c = tid"
        then show ?thesis using h sole' [of l' p' a u l p] by simp
      next
        assume "a \<noteq> tid" "c \<noteq> tid"
        then show ?thesis using h old [of a u l p c v l' p'] by simp
      qed
    qed
  qed
  moreover have "leases None {} ?s"
  proof -
    have "waking None ?s j" if "j \<in> E \<or> waking (Some tid) s j" for j
      using that
    proof
      assume "j \<in> E"
      then obtain l q where "pc = D_start l q" "job_id l = j" using E by (cases pc) auto
      then show ?thesis unfolding waking_def sp by (metis)
    next
      assume "waking (Some tid) s j"
      then show ?thesis unfolding waking_def sp by (metis not_tid)
    qed
    then have w: "j \<in> E \<or> waking (Some tid) s j \<Longrightarrow> j \<in> {} \<or> waking None ?s j" for j by blast
    have l: "leases (Some tid) E s" using sv by (simp add: sv_def)
    show ?thesis
      unfolding leases_def
    proof (intro conjI allI impI)
      fix j m
      assume m: "lease_at ?s j = Some m" "wake_mode m = M_session"
      then have o: "lease_ok m \<and> stage m (controls s j)
          \<and> (is_live m \<longrightarrow> delivery_state m = D_activating \<longrightarrow> j \<in> E \<or> waking (Some tid) s j)"
        using l by (simp add: leases_def)
      show "lease_ok m" "stage m (controls ?s j)" using o by simp_all
      show "j \<in> {} \<or> waking None ?s j" if "is_live m" "delivery_state m = D_activating"
        using o that w by blast
    next
      fix j
      assume "goal_job ?s j"
      then show "controls ?s j = []" using l by (simp add: leases_def)
    qed
  qed
  ultimately show ?thesis using sv by (simp add: sv_def calls_ok_def)
qed

lemma sv_enter:
  assumes sv: "sv (Some tid) E L s" and free: "activity_lock s p = None"
  shows "sv (Some tid) E (insert p L) (enter p tid s)"
proof -
  have l: "locks (Some tid) L s" using sv by (simp add: sv_def)
  have "locks (Some tid) (insert p L) (enter p tid s)"
    unfolding locks_def
  proof (intro conjI allI impI)
    fix a u q
    assume "sp (Some tid) (enter p tid s) a u" "holds u = Some q"
    then have "activity_lock s q = Some a" using l by (simp add: locks_def sp_def enter_def)
    then show "activity_lock (enter p tid s) q = Some a" using free by (auto simp: enter_def)
  next
    fix q a
    assume "activity_lock (enter p tid s) q = Some a"
    then show "Some tid = Some a \<and> q \<in> insert p L \<or> (\<exists>u. sp (Some tid) (enter p tid s) a u \<and> holds u = Some q)"
      using l by (auto simp: locks_def sp_def enter_def split: if_splits)
  qed
  then show ?thesis using sv_lock [OF sv] by (simp add: enter_def)
qed

lemma sv_leave:
  assumes sv: "sv (Some tid) E L s" and own: "activity_lock s p = Some tid"
  shows "sv (Some tid) E (L - {p}) (leave p s)"
proof -
  have l: "locks (Some tid) L s" using sv by (simp add: sv_def)
  have "locks (Some tid) (L - {p}) (leave p s)"
    unfolding locks_def
  proof (intro conjI allI impI)
    fix a u q
    assume u: "sp (Some tid) (leave p s) a u" "holds u = Some q"
    then have "activity_lock s q = Some a" "a \<noteq> tid" using l by (auto simp: locks_def sp_def leave_def)
    then show "activity_lock (leave p s) q = Some a" using own by (auto simp: leave_def)
  next
    fix q a
    assume "activity_lock (leave p s) q = Some a"
    then show "Some tid = Some a \<and> q \<in> L - {p} \<or> (\<exists>u. sp (Some tid) (leave p s) a u \<and> holds u = Some q)"
      using l by (auto simp: locks_def sp_def leave_def split: if_splits)
  qed
  then show ?thesis using sv_lock [OF sv] by (simp add: leave_def)
qed

text \<open>Mutual exclusion: another coroutine that serves the running task's job holds no lock.\<close>

lemma others_idle:
  assumes sv: "sv (Some tid) E L s" and own: "activity_lock s p = Some tid" and sole: "sole_peer (Some tid) s j p"
    and live: "live_job s j" and b: "sp (Some tid) s b pc" "serving pc = Some (l, p')" "job_id l = j"
  shows "holds pc = None"
proof (rule ccontr)
  assume "holds pc \<noteq> None"
  moreover have "p' = p" using sole live b unfolding sole_peer_def by blast
  ultimately have "holds pc = Some p" using b(2) by (cases pc) auto
  then have "activity_lock s p = Some b" using sv b(1) by (simp add: sv_def locks_def)
  then show False using own b(1) by (simp add: sp_def)
qed

lemma not_waking:
  assumes "sv (Some tid) E L s" "activity_lock s p = Some tid" "sole_peer (Some tid) s j p" "live_job s j"
  shows "\<not> waking (Some tid) s j"
  using others_idle [OF assms] by (force simp: waking_def)

section \<open>Writing a session lease\<close>

lemma sv_store:
  assumes sv: "sv x E L s" and get: "\<And>k. db_get d k = (if k = j then Some l' else lease_at s k)"
    and l': "wake_mode l' = M_session" "lease_ok l'" "stage l' (controls_in ps j)"
    and old: "lease_at s j = None \<or> (\<exists>l. lease_at s j = Some l \<and> lease_key l' = lease_key l
        \<and> (is_live l' \<longrightarrow> is_live l)
        \<and> (is_live l' \<longrightarrow> delivery_state l' \<noteq> D_activating \<longrightarrow> delivery_state l \<noteq> D_activating)
        \<and> (\<forall>b pc m p. sp x s b pc \<longrightarrow> serving pc = Some (m, p) \<longrightarrow> job_id m = j \<longrightarrow> point_phase pc l \<longrightarrow> point_phase pc l'))"
    and ps: "\<And>k. k \<noteq> j \<Longrightarrow> controls_in ps k = controls s k"
    and E: "E \<subseteq> insert j E'" "is_live l' \<Longrightarrow> delivery_state l' = D_activating \<Longrightarrow> j \<in> E' \<or> waking x s j"
  shows "sv x E' L (s\<lparr>store := d, peer_sent := ps\<rparr>)"
proof -
  let ?s = "s\<lparr>store := d, peer_sent := ps\<rparr>"
  have sp: "sp y ?s = sp y s" for y by (simp add: sp_def fun_eq_iff)
  have live: "live_job ?s k \<Longrightarrow> live_job s k" if "lease_at s k \<noteq> None" for k
    using that old by (auto simp: live_job_def get split: if_splits)
  have served: "lease_at s (job_id l) \<noteq> None" if "sp x s a pc" "serving pc = Some (l, p)" for a pc l p
    using that sv by (fastforce simp: sv_def points_def point_ok_def)
  have "locks x L ?s" using sv by (simp add: sv_def locks_def sp)
  moreover have "same_peer x ?s"
    using sv live served unfolding sv_def same_peer_def sp by meson
  moreover have "points x ?s"
    unfolding points_def sp
  proof (intro allI impI conjI)
    fix tid pc
    assume t: "sp x s tid pc"
    then have o: "tid < next_task s" "free_id s tid" "beside pc (map_option task_pc (tasks s tid))" "point_ok s tid pc"
      using sv by (auto simp: sv_def points_def)
    show "tid < next_task ?s" "free_id ?s tid" "beside pc (map_option task_pc (tasks ?s tid))"
      using o by (simp_all add: free_id_def)
    show "point_ok ?s tid pc"
      unfolding point_ok_def
    proof (intro allI impI)
      fix m p
      assume serv: "serving pc = Some (m, p)"
      then obtain cur where cur: "lease_at s (job_id m) = Some cur" "lease_key cur = lease_key m" "wake_mode m = M_session"
        "is_live cur \<longrightarrow> delivery_state cur \<noteq> D_activating \<longrightarrow> map_of (peers s) (thread_id m) = Some p"
        "point_phase pc cur"
        "is_D_start pc \<longrightarrow> (is_live cur \<longrightarrow> map_of (lease_peers s) (job_id m) \<in> {None, Some p})
           \<and> (\<exists>t. tasks s tid = Some t \<and> \<not> cancelled t)"
        using o(4) unfolding point_ok_def by blast
      show "\<exists>cur. lease_at ?s (job_id m) = Some cur \<and> lease_key cur = lease_key m \<and> wake_mode m = M_session
          \<and> (is_live cur \<longrightarrow> delivery_state cur \<noteq> D_activating \<longrightarrow> map_of (peers ?s) (thread_id m) = Some p)
          \<and> point_phase pc cur
          \<and> (is_D_start pc \<longrightarrow> (is_live cur \<longrightarrow> map_of (lease_peers ?s) (job_id m) \<in> {None, Some p})
               \<and> (\<exists>t. tasks ?s tid = Some t \<and> \<not> cancelled t))"
      proof (cases "job_id m = j")
        case False
        then show ?thesis using cur by (simp add: get)
      next
        case True
        then have "lease_key l' = lease_key cur \<and> (is_live l' \<longrightarrow> is_live cur)
            \<and> (is_live l' \<longrightarrow> delivery_state l' \<noteq> D_activating \<longrightarrow> delivery_state cur \<noteq> D_activating) \<and> point_phase pc l'"
          using old cur(1,5) t serv by auto
        then show ?thesis using cur True by (simp add: get)
      qed
    qed
  qed
  moreover have "leases x E' ?s"
  proof -
    have lo: "lease_ok l \<and> stage l (controls s k) \<and> (is_live l \<longrightarrow> delivery_state l = D_activating \<longrightarrow> k \<in> E \<or> waking x s k)"
      if "lease_at s k = Some l" "wake_mode l = M_session" for k l
      using that sv by (simp add: sv_def leases_def)
    have w: "waking x ?s k = waking x s k" for k by (simp add: waking_def sp)
    have c: "controls ?s k = controls_in ps k" for k by (simp add: controls_def)
    have "lease_ok l \<and> stage l (controls ?s k) \<and> (is_live l \<longrightarrow> delivery_state l = D_activating \<longrightarrow> k \<in> E' \<or> waking x ?s k)"
      if "lease_at ?s k = Some l" "wake_mode l = M_session" for k l
    proof (cases "k = j")
      case True
      then show ?thesis using that l' E(2) by (simp add: get w c)
    next
      case False
      then show ?thesis using that lo [of k l] E(1) ps [of k] by (auto simp: get w c)
    qed
    moreover have "controls ?s k = []" if g: "goal_job ?s k" for k
    proof -
      have k: "k \<noteq> j" using g l'(1) by (auto simp: goal_job_def get)
      then have "goal_job s k" using g by (simp add: goal_job_def get)
      then have "controls s k = []" using sv by (simp add: sv_def leases_def)
      then show ?thesis using k ps by (simp add: c)
    qed
    ultimately show ?thesis unfolding leases_def by blast
  qed
  ultimately show ?thesis using sv by (simp add: sv_def calls_ok_def)
qed

end
