(* ===== verification/Session_Safe.thy ===== *)
theory Session_Safe
  imports Session_Inv
begin

text \<open>
  Each step of the session bridge keeps the invariant: the segments of the session code one
  by one, then inherited code, events of a connection, messages of the user, restarts.
\<close>

section \<open>The running task\<close>

definition running :: "nat \<Rightarrow> string set \<Rightarrow> peer set \<Rightarrow> session_bridge \<Rightarrow> bool" where
  "running tid E L s \<longleftrightarrow> tinv s \<and> sv (Some tid) E L s \<and> tid < next_task s \<and> free_id s tid"

lemma running_quiet: "running tid E L s \<Longrightarrow> qt s s' \<Longrightarrow> running tid E L s'"
  using gentle_sv gentle_id by (auto simp: running_def qt_def)

lemma running_frame [simp]:
  "running tid E L (s\<lparr>turn_done := d\<rparr>) = running tid E L s"
  "running tid E L (s\<lparr>call_changed := c\<rparr>) = running tid E L s"
  by (simp_all add: running_def free_id_def)

lemma running_pop_turn [simp]: "running tid E L (pop_turn l s) = running tid E L s"
  by (simp add: pop_turn_def)

lemma running_enter: "running tid E L s \<Longrightarrow> activity_lock s p = None \<Longrightarrow> running tid E (insert p L) (enter p tid s)"
  using sv_enter by (auto simp: running_def enter_def free_id_def)

lemma running_leave:
  "running tid E L s \<Longrightarrow> activity_lock s p = Some tid \<Longrightarrow> running tid E (L - {p}) (leave p s)"
  using sv_leave by (auto simp: running_def leave_def free_id_def)

lemma sv_peer_send: "control_of r = [] \<Longrightarrow> sv x E L (peer_send p j r s) = sv x E L s"
proof -
  assume r: "control_of r = []"
  then have "controls (peer_send p j r s) = controls s" by (auto simp: controls_def peer_send_def)
  moreover have "sp x (peer_send p j r s) = sp x s" "point_ok (peer_send p j r s) = point_ok s"
    "free_id (peer_send p j r s) = free_id s" "live_job (peer_send p j r s) = live_job s"
    "goal_job (peer_send p j r s) = goal_job s"
    by (simp_all add: peer_send_def sp_def point_ok_def free_id_def live_job_def goal_job_def fun_eq_iff)
  moreover have "waking x (peer_send p j r s) = waking x s"
    using calculation(2) by (simp add: waking_def fun_eq_iff)
  ultimately show ?thesis
    unfolding sv_def locks_def points_def same_peer_def leases_def calls_ok_def by (simp add: peer_send_def)
qed

lemma running_peer_send:
  "running tid E L s \<Longrightarrow> control_of r = [] \<Longrightarrow> running tid E L (peer_send p j r s)"
  using sv_peer_send [of r "Some tid" E L p j s] by (simp add: running_def peer_send_def free_id_def)

section \<open>The end of a segment\<close>

lemma sv_tasks:
  assumes sv: "sv x E L s" and x: "x = Some tid \<or> session_tasks s tid = None"
  shows "sv x E L (s\<lparr>tasks := (tasks s)(tid := y)\<rparr>)"
proof -
  let ?s = "s\<lparr>tasks := (tasks s)(tid := y)\<rparr>"
  have not: "\<not> sp x s tid pc" for pc using x by (auto simp: sp_def)
  have f: "sp z ?s = sp z s" "live_job ?s = live_job s" "controls ?s = controls s" "goal_job ?s = goal_job s" for z
    by (simp_all add: sp_def live_job_def controls_def goal_job_def fun_eq_iff)
  have w: "waking x ?s = waking x s" by (simp add: waking_def f fun_eq_iff)
  have "points x ?s"
    unfolding points_def f
  proof (intro allI impI)
    fix a pc
    assume a: "sp x s a pc"
    then have "a \<noteq> tid" using not by blast
    then have "point_ok ?s a pc = point_ok s a pc" "free_id ?s a = free_id s a" "tasks ?s a = tasks s a"
      by (simp_all add: point_ok_def free_id_def)
    then show "a < next_task ?s \<and> free_id ?s a \<and> beside pc (map_option task_pc (tasks ?s a)) \<and> point_ok ?s a pc"
      using a sv by (simp add: sv_def points_def)
  qed
  then show ?thesis
    using sv unfolding sv_def locks_def same_peer_def leases_def calls_ok_def f w by simp
qed

lemma tinv_task_drop:
  assumes "tinv s"
  shows "tinv (s\<lparr>tasks := (tasks s)(tid := None)\<rparr>)"
  using assms by (auto simp: tinv_def ids_ok_def maps_ok_def tk_def modes_ok_def no_prep_def lease_known_def split: if_splits)

definition task_fit :: "session_bridge \<Rightarrow> nat \<Rightarrow> goal_pc \<Rightarrow> bool" where
  "task_fit s tid pc \<longleftrightarrow>
     (\<forall>j. delivery_tasks s j = Some tid \<longrightarrow> (\<exists>l. delivery_lease pc = Some l \<and> job_id l = j))
   \<and> (\<forall>j. deadline_tasks s j = Some tid \<longrightarrow> (\<exists>l. deadline_lease pc = Some l \<and> job_id l = j))
   \<and> (\<forall>l. task_lease pc = Some l \<longrightarrow> lease_known s l
        \<and> (wake_mode l = M_session \<longrightarrow> pc \<in> {W_start l, X_start l, X_sleep l}))"

lemma tinv_task_put:
  assumes t: "tinv s" and tid: "tid < next_task s" and fit: "task_fit s tid (task_pc u)"
  shows "tinv (s\<lparr>tasks := (tasks s)(tid \<mapsto> u)\<rparr>)"
proof -
  let ?s = "s\<lparr>tasks := (tasks s)(tid \<mapsto> u)\<rparr>"
  have "ids_ok ?s" using t tid by (auto simp: tinv_def ids_ok_def)
  moreover have "maps_ok None ?s" using t fit by (auto simp: tinv_def maps_ok_def tk_def task_fit_def)
  moreover have "modes_ok ?s"
    unfolding modes_ok_def
  proof (intro allI impI)
    fix a v l
    assume "tasks ?s a = Some v" "task_lease (task_pc v) = Some l"
    moreover have "lease_known ?s l = lease_known s l" by (simp add: lease_known_def)
    ultimately show "lease_known ?s l \<and> (wake_mode l = M_session \<longrightarrow> task_pc v \<in> {W_start l, X_start l, X_sleep l})"
      using t fit by (cases "a = tid") (auto simp: tinv_def modes_ok_def task_fit_def)
  qed
  ultimately show ?thesis using t by (simp add: tinv_def no_prep_def)
qed

lemma settle_running:
  assumes r: "running tid {} {} s"
  shows "session_inv (s_settle tid a (s, Inl e))" "session_inv (s_settle tid a (s, Inr (Base (Done v))))"
    and "task_fit s tid pc \<Longrightarrow> session_inv (s_settle tid a (s, Inr (Base (Suspend pc))))"
proof -
  let ?s = "s\<lparr>session_tasks := (session_tasks s)(tid := None)\<rparr>"
  have sv: "sv None {} {} ?s" using sv_drop r by (simp add: running_def)
  have t: "tinv ?s" using r by (simp add: running_def)
  have "session_inv (?s\<lparr>tasks := (tasks ?s)(tid := None)\<rparr>)"
    using sv_tasks [OF sv] tinv_task_drop [OF t] by (simp add: session_inv_def)
  then show "session_inv (s_settle tid a (s, Inl e))" "session_inv (s_settle tid a (s, Inr (Base (Done v))))"
    by (auto simp: session_inv_def s_settle_def settle_def)
  show "session_inv (s_settle tid a (s, Inr (Base (Suspend pc))))" if "task_fit s tid pc"
  proof -
    have "task_fit ?s tid pc" using that by (simp add: task_fit_def lease_known_def)
    then have "tinv (?s\<lparr>tasks := (tasks ?s)(tid \<mapsto> \<lparr>task_pc = pc, cancelled = c\<rparr>)\<rparr>)" for c
      using tinv_task_put [OF t] r by (simp add: running_def)
    then show ?thesis
      using sv_tasks [OF sv] by (simp add: session_inv_def s_settle_def settle_def)
  qed
qed

text \<open>A segment that suspends in the session's code.\<close>

definition at_ok :: "nat \<Rightarrow> session_bridge \<Rightarrow> session_pc \<Rightarrow> bool" where
  "at_ok tid s pc \<longleftrightarrow> beside pc (map_option task_pc (tasks s tid)) \<and> point_ok s tid pc
     \<and> (\<forall>l p. serving pc = Some (l, p) \<longrightarrow> sole_peer (Some tid) s (job_id l) p)
     \<and> (\<forall>p. holds pc = Some p \<longrightarrow> activity_lock s p = Some tid)"

lemma settle_at:
  assumes "running tid E L s" "at_ok tid s pc" "E \<subseteq> wakes pc" "L \<subseteq> set_option (holds pc)"
  shows "session_inv (s_settle tid a (s, Inr (At pc)))"
  using sv_suspend [of tid E L s pc] assms by (simp add: running_def at_ok_def session_inv_def s_settle_def)

lemma session_begin:
  assumes inv: "session_inv s" and t: "session_tasks s tid = Some pc"
  shows "running tid (wakes pc) (set_option (holds pc)) s" and "at_ok tid s pc"
  using sv_begin [of s tid pc] inv t by (simp_all add: session_inv_def running_def at_ok_def)

section \<open>Failing a lease\<close>

lemma serving_lease:
  assumes "point_ok s tid pc" "serving pc = Some (l, p)"
  obtains cur where "lease_at s (job_id l) = Some cur" "lease_key cur = lease_key l" "wake_mode cur = M_session"
    "is_live cur \<longrightarrow> delivery_state cur \<noteq> D_activating \<longrightarrow> map_of (peers s) (thread_id l) = Some p"
    "point_phase pc cur"
  using assms by (fastforce simp: point_ok_def lease_key_def)

lemma running_put:
  assumes r: "running tid E L s" and u: "st_update now j fs s = (s', Inr m)"
    and l: "lease_at s j = Some l" "wake_mode l = M_session"
    and l': "lease_ok (set_fields fs l)" "stage (set_fields fs l) (controls_in ps j)"
      "lease_state (set_fields fs l) \<noteq> L_preparing" "is_live (set_fields fs l) \<Longrightarrow> is_live l"
      "is_live (set_fields fs l) \<Longrightarrow> delivery_state (set_fields fs l) \<noteq> D_activating \<Longrightarrow> delivery_state l \<noteq> D_activating"
    and ph: "\<And>b pc n p. sp (Some tid) s b pc \<Longrightarrow> serving pc = Some (n, p) \<Longrightarrow> job_id n = j \<Longrightarrow>
        point_phase pc l \<Longrightarrow> point_phase pc (set_fields fs l)"
    and ps: "\<And>k. k \<noteq> j \<Longrightarrow> controls_in ps k = controls s k"
    and E: "E \<subseteq> insert j E'" "is_live (set_fields fs l) \<Longrightarrow> delivery_state (set_fields fs l) = D_activating \<Longrightarrow>
        j \<in> E' \<or> waking (Some tid) s j"
  shows "running tid E' L (s'\<lparr>peer_sent := ps\<rparr>)" and "m = set_fields fs l"
    and "s' = s\<lparr>store := db_put now j fs (store s)\<rparr>"
proof -
  have ok: "store_ok (store s)" using r by (simp add: running_def tinv_def)
  from u ok have st: "s' = s\<lparr>store := db_put now j fs (store s)\<rparr> \<and> m = set_fields fs l \<and> store_ok (db_put now j fs (store s))"
    by (cases rule: session_update_cases) (use l in simp_all)
  then show "m = set_fields fs l" "s' = s\<lparr>store := db_put now j fs (store s)\<rparr>" by simp_all
  let ?d = "db_put now j fs (store s)"
  have get: "db_get ?d k = (if k = j then Some (set_fields fs l) else lease_at s k)" for k
    using l by (simp add: db_get_put)
  have "sv (Some tid) E' L (s\<lparr>store := ?d, peer_sent := ps\<rparr>)"
    by (rule sv_store [where j = j and l' = "set_fields fs l", OF _ get])
      (use r l l' ph ps E in \<open>auto simp: running_def\<close>)
  moreover have "tinv (s\<lparr>store := ?d\<rparr>)"
    using tinv_put [of s now j fs] r st l l'(3) by (simp add: running_def)
  ultimately show "running tid E' L (s'\<lparr>peer_sent := ps\<rparr>)"
    using r st by (simp add: running_def free_id_def)
qed

lemma not_live_fields [simp]: "\<not> is_live (set_fields (failed_fields r) l)" "\<not> is_live (set_fields (abandon_fields r) l)"
  by (simp_all add: failed_fields_def abandon_fields_def is_live_def live_state_def)

lemma stage_dead: "stage l cs \<Longrightarrow> handoff_state l' = handoff_state l \<Longrightarrow> \<not> is_live l' \<Longrightarrow> stage l' cs"
  by (auto simp: stage_def split: handoff_state.splits)

lemma phase_dead: "point_phase pc l \<Longrightarrow> handoff_state l' = handoff_state l \<Longrightarrow> \<not> is_live l' \<Longrightarrow> point_phase pc l'"
  by (cases pc) auto

lemma failed_handoff [simp]: "handoff_state (set_fields (failed_fields r) l) = handoff_state l"
  by (simp add: failed_fields_def)

lemma running_dead:
  assumes r: "running tid E L s" and l: "lease_at s j = Some l" "\<not> is_live l" and E: "E \<subseteq> {j}"
  shows "running tid {} L s"
proof -
  have "leases (Some tid) E s" using r by (simp add: running_def sv_def)
  then have "leases (Some tid) {} s"
    using l E unfolding leases_def by (metis empty_iff insert_iff option.inject subset_iff)
  then show ?thesis using r by (simp add: running_def sv_def)
qed

lemma session_failed_run:
  assumes r: "running tid E L s" and l: "lease_at s j = Some l" "wake_mode l = M_session" and E: "E \<subseteq> {j}"
    and f: "session_failed now j reason s = (s', res)"
  shows "running tid {} L s'" "res = Inr ()" "activity_lock s' = activity_lock s"
proof -
  have "running tid {} L s' \<and> res = Inr () \<and> activity_lock s' = activity_lock s"
  proof (cases "lease_state l \<in> {L_armed, L_terminal}")
    case True
    have ok: "store_ok (store s)" using r by (simp add: running_def tinv_def)
    have u: "st_update now j (failed_fields reason) s
        = (s\<lparr>store := db_put now j (failed_fields reason) (store s)\<rparr>, Inr (set_fields (failed_fields reason) l))"
    proof -
      have "failed_fields reason \<noteq> []" "list_all field_allowed (failed_fields reason)"
        by (simp_all add: failed_fields_def)
      then show ?thesis using db_update_ok [OF ok l(1), of "failed_fields reason" now] by (simp add: st_update_def)
    qed
    have st: "stage l (controls s j)" using r l by (simp add: running_def sv_def leases_def)
    have "running tid {} L (s\<lparr>store := db_put now j (failed_fields reason) (store s), peer_sent := peer_sent s\<rparr>)"
      by (rule running_put(1) [OF r u l])
        (use E in \<open>auto simp: lease_ok_def controls_def [symmetric] failed_fields_def is_live_def live_state_def
            intro: stage_dead [OF st] phase_dead\<close>)
    then have run: "running tid {} L (s\<lparr>store := db_put now j (failed_fields reason) (store s)\<rparr>)" by simp
    then have "tinv (s\<lparr>store := db_put now j (failed_fields reason) (store s)\<rparr>)" by (simp add: running_def)
    then have "running tid {} L (pop_lease_peer j (s\<lparr>store := db_put now j (failed_fields reason) (store s)\<rparr>))"
      using running_quiet [OF run] qt_pop_lease_peer qt_refl by blast
    then show ?thesis using f l True u by (auto simp: session_failed_def pop_lease_peer_def)
  next
    case False
    have "no_prep s" using r by (simp add: running_def tinv_def)
    then have "\<not> is_live l" using False l by (auto simp: no_prep_def is_live_def live_state_def)
    then show ?thesis using running_dead [OF r l(1) _ E] f l False by (auto simp: session_failed_def)
  qed
  then show "running tid {} L s'" "res = Inr ()" "activity_lock s' = activity_lock s" by simp_all
qed

section \<open>Serving a lease over a peer's connection\<close>

definition serve :: "nat \<Rightarrow> wake_lease \<Rightarrow> peer \<Rightarrow> session_bridge \<Rightarrow> bool" where
  "serve tid l p s \<longleftrightarrow> running tid {} {p} s \<and> activity_lock s p = Some tid
     \<and> sole_peer (Some tid) s (job_id l) p
     \<and> (\<exists>cur. lease_at s (job_id l) = Some cur \<and> lease_key cur = lease_key l \<and> wake_mode cur = M_session
          \<and> (is_live cur \<longrightarrow> delivery_state cur \<noteq> D_activating \<longrightarrow> map_of (peers s) (thread_id l) = Some p))"

lemma serve_key: "lease_key l' = lease_key l \<Longrightarrow> serve tid l' p s = serve tid l p s"
  by (simp add: serve_def lease_key_def)

lemma serve_at:
  assumes "serve tid l p s" "serving pc = Some (l, p)" "holds pc = Some p" "\<not> is_D_start pc"
    and "beside pc (map_option task_pc (tasks s tid))" "\<And>cur. lease_at s (job_id l) = Some cur \<Longrightarrow> point_phase pc cur"
  shows "at_ok tid s pc"
  using assms by (auto simp: at_ok_def serve_def point_ok_def lease_key_def)

lemma serve_frame [simp]: "serve tid l p (s\<lparr>turn_done := d\<rparr>) = serve tid l p s"
  by (simp add: serve_def sole_peer_def sp_def live_job_def)

lemma sole_peer_send [simp]: "sole_peer x (peer_send q j r s) k p = sole_peer x s k p"
  by (simp add: sole_peer_def sp_def live_job_def peer_send_def)

lemma serve_send: "serve tid l p s \<Longrightarrow> control_of r = [] \<Longrightarrow> serve tid l p (peer_send q j r s)"
proof -
  assume a: "serve tid l p s" "control_of r = []"
  have "running tid {} {p} (peer_send q j r s)" using a running_peer_send by (simp add: serve_def)
  moreover have "activity_lock (peer_send q j r s) = activity_lock s" "peers (peer_send q j r s) = peers s"
    "store (peer_send q j r s) = store s" by (simp_all add: peer_send_def)
  ultimately show ?thesis using a(1) by (simp add: serve_def)
qed

lemma begin_serve:
  assumes inv: "session_inv s" and t: "session_tasks s tid = Some pc" "serving pc = Some (l, p)" "holds pc = Some p"
    and pc: "\<not> is_D_start pc"
  shows "serve tid l p s" and "beside pc (map_option task_pc (tasks s tid))"
    and "lease_at s (job_id l) = Some cur \<Longrightarrow> point_phase pc cur"
proof -
  have w: "wakes pc = {}" using pc by (cases pc) simp_all
  have r: "running tid {} {p} s" "at_ok tid s pc" using session_begin [OF inv t(1)] t(3) w by simp_all
  then show "serve tid l p s"
    using serving_lease [OF _ t(2)] t unfolding serve_def at_ok_def by metis
  show "beside pc (map_option task_pc (tasks s tid))" using r(2) by (simp add: at_ok_def)
  show "point_phase pc cur" if "lease_at s (job_id l) = Some cur"
    using r(2) that serving_lease [OF _ t(2)] unfolding at_ok_def by (metis option.inject)
qed

text \<open>From the lock's queue into the lock.\<close>

lemma enter_serve:
  assumes inv: "session_inv s" and t: "session_tasks s tid = Some pc" "serving pc = Some (l, p)" "holds pc = None"
    and free: "activity_lock s p = None"
  shows "serve tid l p (enter p tid s)" and "beside pc (map_option task_pc (tasks s tid))"
proof -
  have w: "wakes pc = {}" using t(3) by (cases pc) simp_all
  have r: "running tid {} {} s" "at_ok tid s pc" using session_begin [OF inv t(1)] t(3) w by simp_all
  then obtain cur where "lease_at s (job_id l) = Some cur" "lease_key cur = lease_key l" "wake_mode cur = M_session"
    "is_live cur \<longrightarrow> delivery_state cur \<noteq> D_activating \<longrightarrow> map_of (peers s) (thread_id l) = Some p"
    using serving_lease [OF _ t(2)] unfolding at_ok_def by metis
  then show "serve tid l p (enter p tid s)"
    using running_enter [OF r(1) free] r(2) t(2)
    by (simp add: serve_def enter_def at_ok_def sole_peer_def sp_def live_job_def)
  show "beside pc (map_option task_pc (tasks s tid))" using r(2) by (simp add: at_ok_def)
qed

text \<open>How a segment inside a peer's lock may end.\<close>

definition seg_ok :: "nat \<Rightarrow> wake_lease \<Rightarrow> peer \<Rightarrow> string set \<Rightarrow> (session_bridge, scoro) outcome \<Rightarrow> bool" where
  "seg_ok tid l p E res \<longleftrightarrow>
     (case res of
        (s, Inr (At pc)) \<Rightarrow> \<exists>E'. running tid E' {p} s \<and> at_ok tid s pc \<and> E' \<subseteq> wakes pc \<and> holds pc = Some p
      | (s, Inr (Base c)) \<Rightarrow> running tid {} {p} s \<and> activity_lock s p = Some tid \<and> (\<exists>v. c = Done v)
      | (s, Inl e) \<Rightarrow> running tid E {p} s \<and> activity_lock s p = Some tid
          \<and> (\<exists>cur. lease_at s (job_id l) = Some cur \<and> wake_mode cur = M_session))"

lemma seg_ok_simps [simp]:
  "seg_ok tid l p E (s, Inl e) \<longleftrightarrow> running tid E {p} s \<and> activity_lock s p = Some tid
     \<and> (\<exists>cur. lease_at s (job_id l) = Some cur \<and> wake_mode cur = M_session)"
  "seg_ok tid l p E (s, Inr (At pc)) \<longleftrightarrow>
     (\<exists>E'. running tid E' {p} s \<and> at_ok tid s pc \<and> E' \<subseteq> wakes pc \<and> holds pc = Some p)"
  "seg_ok tid l p E (s, Inr (Base c)) \<longleftrightarrow>
     running tid {} {p} s \<and> activity_lock s p = Some tid \<and> (\<exists>v. c = Done v)"
  by (simp_all add: seg_ok_def)

lemma serve_raise: "serve tid l p s \<Longrightarrow> seg_ok tid l p {} (s, Inl e)"
  by (auto simp: serve_def)

lemma serve_return: "serve tid l p s \<Longrightarrow> seg_ok tid l p E (s, Inr (Base (Done v)))"
  by (simp add: serve_def)

lemma serve_await:
  assumes "serve tid l p s" "serving pc = Some (l, p)" "holds pc = Some p" "\<not> is_D_start pc"
    and "beside pc (map_option task_pc (tasks s tid))" "\<And>cur. lease_at s (job_id l) = Some cur \<Longrightarrow> point_phase pc cur"
  shows "seg_ok tid l' p E (s, Inr (At pc))"
proof -
  have "running tid {} {p} s" using assms(1) by (simp add: serve_def)
  moreover have "at_ok tid s pc" using serve_at [OF assms] .
  ultimately show ?thesis using assms(3) by auto
qed

lemma handoff_raise_settle:
  assumes r: "running tid {} {} s" and l: "lease_at s (job_id l) = Some cur" "wake_mode cur = M_session"
  shows "session_inv (s_settle tid a (handoff_raise now l e s))"
proof (cases "session_failed now (job_id l) (''handoff failed: '' @ exc_str e) s")
  case (Pair s' res)
  then show ?thesis
    using session_failed_run [OF r l _ Pair] settle_running(1) r by (auto simp: handoff_raise_def)
qed

lemma in_transfer_settle:
  assumes "seg_ok tid l p {} res"
  shows "session_inv (s_settle tid a (in_transfer now l p g res))"
proof -
  obtain s r where res: "res = (s, r)" by (cases res)
  have out: "running tid {} {} (leave p (if g then pop_turn l s else s))"
    if "running tid {} {p} s" "activity_lock s p = Some tid"
    using that running_leave [of tid "{}" "{p}" "if g then pop_turn l s else s" p] by (auto simp: pop_turn_def)
  have st: "store (leave p (if g then pop_turn l s else s)) = store s" by (simp add: leave_def pop_turn_def)
  show ?thesis
  proof (cases r)
    case (Inl e)
    then show ?thesis
      using assms res out handoff_raise_settle [of tid _ l] st by (fastforce simp: in_transfer_def)
  next
    case (Inr c)
    then show ?thesis
    proof (cases c)
      case (At pc)
      then obtain E where "running tid E {p} s" "at_ok tid s pc" "E \<subseteq> wakes pc" "holds pc = Some p"
        using assms res Inr by auto
      then show ?thesis
        using settle_at [of tid E "{p}" s pc a] res Inr At by (simp add: in_transfer_def)
    next
      case (Base b)
      then show ?thesis
        using assms res Inr out settle_running(2) by (auto simp: in_transfer_def)
    qed
  qed
qed

lemma qt_deliver_finish: "qt s0 s \<Longrightarrow> qt s0 (deliver_finish l s)"
  using qt_pop_lease_peer by (auto simp: deliver_finish_def Let_def split: option.splits)

lemma running_finish: "running tid E L s \<Longrightarrow> running tid E L (deliver_finish l s)"
  by (rule running_quiet) (auto simp: running_def intro: qt_deliver_finish)

lemma deliver_raise_settle:
  assumes r: "running tid E {} s" and E: "E \<subseteq> {job_id l}" "e = CancelledError \<Longrightarrow> E = {}"
    and l: "lease_at s (job_id l) = Some cur" "wake_mode cur = M_session"
  shows "session_inv (s_settle tid a (s_deliver_raise now l e s))"
proof (cases "session_failed now (job_id l) (''session delivery failed: '' @ exc_str e) s")
  case (Pair s' res)
  then show ?thesis
    using session_failed_run [OF r l E(1) Pair] settle_running(1,2) running_finish r E(2)
    by (auto simp: s_deliver_raise_def)
qed

lemma in_wake_settle:
  assumes "seg_ok tid l p E res" and E: "E \<subseteq> {job_id l}" "snd res = Inl CancelledError \<Longrightarrow> E = {}"
  shows "session_inv (s_settle tid a (in_wake now l p res))"
proof -
  obtain s r where res: "res = (s, r)" by (cases res)
  have out: "running tid F {} (leave p s)" if "running tid F {p} s" "activity_lock s p = Some tid" for F
    using that running_leave [of tid F "{p}" s p] by auto
  have st: "store (leave p s) = store s" by (simp add: leave_def)
  show ?thesis
  proof (cases r)
    case (Inl e)
    then obtain cur where "running tid E {p} s" "activity_lock s p = Some tid"
      "lease_at s (job_id l) = Some cur" "wake_mode cur = M_session" using assms(1) res by auto
    then show ?thesis
      using deliver_raise_settle [OF out E(1), of e cur] E(2) res Inl st by (simp add: in_wake_def)
  next
    case (Inr c)
    then show ?thesis
    proof (cases c)
      case (At pc)
      then obtain F where "running tid F {p} s" "at_ok tid s pc" "F \<subseteq> wakes pc" "holds pc = Some p"
        using assms res Inr by auto
      then show ?thesis using settle_at [of tid F "{p}" s pc a] res Inr At by (simp add: in_wake_def)
    next
      case (Base b)
      then show ?thesis using assms(1) res Inr out running_finish settle_running(2) by (fastforce simp: in_wake_def)
    qed
  qed
qed

lemma live_sessionD:
  assumes "live_session j s = Inr cur"
  shows "lease_at s j = Some cur" "wake_mode cur = M_session" "lease_state cur \<in> {L_armed, L_terminal}" "is_live cur"
  using assms by (auto simp: live_session_def is_live_def live_state_def split: option.splits if_splits)

lemma ownerD:
  assumes "owner l s = Inr p"
  shows "map_of (lease_peers s) (job_id l) = Some p" "map_of (peers s) (thread_id l) = Some p"
    "thread_id l \<notin> ambiguous_threads s"
  using assms by (auto simp: owner_def split: option.splits if_splits)

section \<open>The handoff\<close>

text \<open>Inside the lock of its peer a segment may move its live lease on.\<close>

lemma serve_put:
  assumes sv: "serve tid l p s" and u: "st_update now (job_id l) fs s = (s', Inr m)"
    and cur: "lease_at s (job_id l) = Some cur" "is_live cur" "delivery_state cur \<noteq> D_activating"
    and l': "lease_ok (set_fields fs cur)" "stage (set_fields fs cur) (controls s (job_id l) @ control_of r)"
      "lease_state (set_fields fs cur) \<noteq> L_preparing"
  shows "running tid (if delivery_state (set_fields fs cur) = D_activating then {job_id l} else {}) {p}
           (peer_send p (job_id l) r s')"
    and "store s' = db_put now (job_id l) fs (store s)" "tasks s' = tasks s" "peers s' = peers s" "lease_peers s' = lease_peers s"
    and "activity_lock (peer_send p (job_id l) r s') = activity_lock s"
    and "sole_peer (Some tid) (peer_send p (job_id l) r s') (job_id l) p"
    and "lease_at s' (job_id l) = Some (set_fields fs cur)"
proof -
  have r: "running tid {} {p} s" and lock: "activity_lock s p = Some tid" and sole: "sole_peer (Some tid) s (job_id l) p"
    using sv by (simp_all add: serve_def)
  have live: "live_job s (job_id l)" using cur by (simp add: live_job_def)
  have mode: "wake_mode cur = M_session" using sv cur(1) by (auto simp: serve_def)
  have idle: "point_phase pc x" if "sp (Some tid) s b pc" "serving pc = Some (n, q)" "job_id n = job_id l" for b pc n q x
  proof (rule phase_idle)
    show "serving pc \<noteq> None" using that(2) by simp
    show "holds pc = None" using others_idle [of tid "{}" "{p}", OF _ lock sole live that] r by (simp add: running_def)
  qed
  let ?ps = "peer_sent s @ [(p, job_id l, r)]"
  note put = running_put [OF r u cur(1) mode, where ps = ?ps
      and E' = "if delivery_state (set_fields fs cur) = D_activating then {job_id l} else {}"]
  have "running tid (if delivery_state (set_fields fs cur) = D_activating then {job_id l} else {}) {p} (s'\<lparr>peer_sent := ?ps\<rparr>)"
    by (rule put(1)) (use l' cur idle in \<open>auto simp: controls_def\<close>)
  moreover have st: "s' = s\<lparr>store := db_put now (job_id l) fs (store s)\<rparr>"
    by (rule put(3)) (use l' cur idle in \<open>auto simp: controls_def\<close>)
  ultimately show "running tid (if delivery_state (set_fields fs cur) = D_activating then {job_id l} else {}) {p}
      (peer_send p (job_id l) r s')" by (simp add: peer_send_def)
  show "store s' = db_put now (job_id l) fs (store s)" "tasks s' = tasks s" "peers s' = peers s" "lease_peers s' = lease_peers s"
    "activity_lock (peer_send p (job_id l) r s') = activity_lock s"
    using st by (simp_all add: peer_send_def)
  show at: "lease_at s' (job_id l) = Some (set_fields fs cur)" using st cur(1) by (simp add: db_get_put)
  show "sole_peer (Some tid) (peer_send p (job_id l) r s') (job_id l) p"
    using sole live st by (auto simp: sole_peer_def sp_def peer_send_def)
qed

lemma st_update_raise: "st_update now j fs s = (s', Inl e) \<Longrightarrow> tinv s \<Longrightarrow> s' = s"
  using session_update_cases [of now j fs s s' "Inl e"] by (auto simp: tinv_def)

lemma serve_tinv: "serve tid l p s \<Longrightarrow> tinv s"
  by (simp add: serve_def running_def)

lemma serve_stage:
  assumes "serve tid l p s" "lease_at s (job_id l) = Some cur"
  shows "lease_ok cur" "stage cur (controls s (job_id l))" "wake_mode cur = M_session" "lease_key cur = lease_key l"
    "is_live cur \<Longrightarrow> delivery_state cur \<noteq> D_activating \<Longrightarrow> map_of (peers s) (thread_id l) = Some p"
proof -
  show m: "wake_mode cur = M_session" "lease_key cur = lease_key l"
    "is_live cur \<Longrightarrow> delivery_state cur \<noteq> D_activating \<Longrightarrow> map_of (peers s) (thread_id l) = Some p"
    using assms by (auto simp: serve_def)
  show "lease_ok cur" "stage cur (controls s (job_id l))"
    using assms m(1) by (auto simp: serve_def running_def sv_def leases_def)
qed

text \<open>A step of the handoff: the lease goes to its next stage and the RPC goes out.\<close>

lemma handoff_commit:
  assumes sv: "serve tid l p s" and live: "live_session (job_id l) s = Inr cur"
    and h: "handoff_state cur \<noteq> H_ready" and fs: "fs = F_handoff_state h' # (if r = [] then [] else [F_receipt_state (hd r)])"
    and st: "h' \<noteq> H_ready" "stage (cur\<lparr>handoff_state := h'\<rparr>) (controls s (job_id l) @ control_of rq)"
    and pc: "serving pc = Some (l, p)" "holds pc = Some p" "\<not> is_D_start pc" "beside pc (map_option task_pc (tasks s tid))"
      "\<And>c. handoff_state c = h' \<Longrightarrow> point_phase pc c"
  shows "seg_ok tid l p {} (and_then (st_update now (job_id l) fs s)
           (\<lambda>_ s. (peer_send p (job_id l) rq s, Inr (At pc))))"
proof -
  note cur = live_sessionD [OF live]
  note inv = serve_stage [OF sv cur(1)]
  have act: "delivery_state cur \<noteq> D_activating" using inv(1) cur(4) h by (auto simp: lease_ok_def)
  have f: "set_fields fs cur = (if r = [] then cur\<lparr>handoff_state := h'\<rparr> else cur\<lparr>handoff_state := h', receipt_state := Some (hd r)\<rparr>)"
    by (simp add: fs)
  have stf: "stage (set_fields fs cur) cs = stage (cur\<lparr>handoff_state := h'\<rparr>) cs" for cs
    using st(1) by (cases h') (simp_all add: f stage_def)
  have lo: "lease_ok (set_fields fs cur)" using act by (simp add: f lease_ok_def)
  have np: "lease_state (set_fields fs cur) \<noteq> L_preparing" using cur(3) by (auto simp: f)
  show ?thesis
  proof (cases "st_update now (job_id l) fs s")
    case (Pair s' res)
    show ?thesis
    proof (cases res)
      case (Inl e)
      then show ?thesis using st_update_raise [OF _ serve_tinv [OF sv]] Pair serve_raise [OF sv] by force
    next
      case (Inr m)
      note put = serve_put [OF sv Pair [unfolded Inr] cur(1,4) act lo _ np, of rq, unfolded stf, OF st(2)]
      have key: "lease_key (set_fields fs cur) = lease_key l" "wake_mode (set_fields fs cur) = M_session"
        using inv(3,4) by simp_all
      have "serve tid l p (peer_send p (job_id l) rq s')"
        unfolding serve_def
      proof (intro conjI exI)
        show "running tid {} {p} (peer_send p (job_id l) rq s')" using put(1) act by (simp add: f split: if_splits)
        show "activity_lock (peer_send p (job_id l) rq s') p = Some tid" using put(6) sv by (simp add: serve_def)
        show "sole_peer (Some tid) (peer_send p (job_id l) rq s') (job_id l) p" using put(7) .
        show "lease_at (peer_send p (job_id l) rq s') (job_id l) = Some (set_fields fs cur)"
          using put(8) by (simp add: peer_send_def)
        show "lease_key (set_fields fs cur) = lease_key l" "wake_mode (set_fields fs cur) = M_session" using key by simp_all
        show "is_live (set_fields fs cur) \<longrightarrow> delivery_state (set_fields fs cur) \<noteq> D_activating \<longrightarrow>
            map_of (peers (peer_send p (job_id l) rq s')) (thread_id l) = Some p"
          using inv(5) cur(4) act put(4) by (simp add: peer_send_def)
      qed
      then have "seg_ok tid l p {} (peer_send p (job_id l) rq s', Inr (At pc))"
        by (rule serve_await [OF _ pc(1-3)]) (use pc(4,5) put(3,8) f in \<open>auto simp: peer_send_def\<close>)
      then show ?thesis using Pair Inr by simp
    qed
  qed
qed

lemma transfer_enter_ok:
  assumes sv: "serve tid l p s" and b: "tasks s tid = None"
  shows "seg_ok tid l p {} (transfer_enter l p st s)"
proof (cases "live_session (job_id l) s")
  case (Inl e)
  then show ?thesis using serve_raise [OF sv] by (simp add: transfer_enter_def)
next
  case (Inr cur)
  note cur = live_sessionD [OF Inr]
  have key: "lease_key cur = lease_key l" using serve_stage [OF sv cur(1)] by simp
  then have "serve tid cur p (peer_send p (job_id l) (Peer_goal_get (thread_id l)) s)"
    using sv serve_key serve_send by (metis control_of.simps(5))
  then have "seg_ok tid l p {} (peer_send p (job_id l) (Peer_goal_get (thread_id l)) s, Inr (At (H_goal cur p st)))"
    if "handoff_state cur = H_pending"
    by (rule serve_await) (use b cur(1) key that in \<open>auto simp: peer_send_def lease_key_def\<close>)
  then show ?thesis using Inr serve_raise [OF sv] by (auto simp: transfer_enter_def)
qed

lemma transfer_goal_ok:
  assumes sv: "serve tid l p s" and b: "tasks s tid = None"
    and ph: "\<And>cur. lease_at s (job_id l) = Some cur \<Longrightarrow> is_live cur \<Longrightarrow> handoff_state cur = H_pending"
  shows "seg_ok tid l p {} (transfer_goal l p st r s)"
proof -
  have "seg_ok tid l p {} (peer_send p (job_id l) (Turns_list (thread_id l)) s, Inr (At (H_latest l p st)))"
    by (rule serve_await [OF serve_send [OF sv]]) (use b ph in \<open>auto simp: peer_send_def\<close>)
  then show ?thesis using serve_raise [OF sv] by (auto simp: transfer_goal_def split: sum.splits)
qed

lemma transfer_interrupt_ok:
  assumes sv: "serve tid l p s" and b: "tasks s tid = None"
    and ph: "\<And>cur. lease_at s (job_id l) = Some cur \<Longrightarrow> is_live cur \<Longrightarrow> handoff_state cur = H_pending"
  shows "seg_ok tid l p {} (transfer_interrupt now l p st r s)"
proof -
  have go: "seg_ok tid l p {} (and_then (st_update now (job_id l) [F_handoff_state H_interrupting, F_receipt_state st] s')
      (\<lambda>_ s. (peer_send p (job_id l) (Turn_interrupt (thread_id l) (turn_id l)) s, Inr (At (H_interrupt l p st)))))"
    if live: "live_session (job_id l) s = Inr cur" and s': "s' = s \<or> s' = s\<lparr>turn_done := d\<rparr>" for cur s' d
  proof (rule handoff_commit [where r = "[st]"])
    note cur = live_sessionD [OF live]
    show sv': "serve tid l p s'" using sv s' by auto
    show "live_session (job_id l) s' = Inr cur" using live s' by (auto simp: live_session_def)
    have h: "handoff_state cur = H_pending" using ph cur by blast
    then show "handoff_state cur \<noteq> H_ready" by simp
    have "stage cur (controls s (job_id l))" using serve_stage(2) [OF sv cur(1)] .
    then have "controls s (job_id l) = []" using h by (simp add: stage_def)
    moreover have "controls s' = controls s" using s' by (auto simp: controls_def)
    ultimately show "stage (cur\<lparr>handoff_state := H_interrupting\<rparr>)
        (controls s' (job_id l) @ control_of (Turn_interrupt (thread_id l) (turn_id l)))"
      by (simp add: stage_def)
    show "beside (H_interrupt l p st) (map_option task_pc (tasks s' tid))" using b s' by auto
  qed simp_all
  show ?thesis
    using serve_raise [OF sv] go
    by (auto simp: transfer_interrupt_def Let_def split: sum.splits)
qed

lemma transfer_wait_ok:
  assumes sv: "serve tid l p s" and b: "tasks s tid = None"
    and ph: "\<And>cur. lease_at s (job_id l) = Some cur \<Longrightarrow> is_live cur \<Longrightarrow> handoff_state cur = H_interrupting"
  shows "seg_ok tid l p {} (transfer_wait l p st r s)" "seg_ok tid l p {} (transfer_done l p st s)"
proof -
  have "seg_ok tid l p {} (s, Inr (At (H_done l p st)))"
    by (rule serve_await [OF sv]) (use b ph in auto)
  then show "seg_ok tid l p {} (transfer_wait l p st r s)"
    using serve_raise [OF sv] by (auto simp: transfer_wait_def split: sum.splits)
  show "seg_ok tid l p {} (transfer_done l p st s)"
    unfolding transfer_done_def
    by (rule serve_await [OF serve_send [OF sv]]) (use b ph in \<open>auto simp: peer_send_def\<close>)
qed

lemma transfer_receipt_ok:
  assumes sv: "serve tid l p s" and b: "tasks s tid = None"
    and ph: "\<And>cur. lease_at s (job_id l) = Some cur \<Longrightarrow> is_live cur \<Longrightarrow> handoff_state cur = H_interrupting"
  shows "seg_ok tid l p {} (transfer_receipt now l p st r s)"
proof -
  have go: "seg_ok tid l p {} (and_then (st_update now (job_id l) [F_handoff_state H_recording_receipt] s)
      (\<lambda>_ s. (peer_send p (job_id l) (Inject_items (thread_id l) (receipt_text (job_id l) st)) s, Inr (At (H_inject l p st)))))"
    if live: "live_session (job_id l) s = Inr cur" for cur
  proof (rule handoff_commit [OF sv live, where r = "[]"])
    note cur = live_sessionD [OF live]
    have h: "handoff_state cur = H_interrupting" using ph cur by blast
    then show "handoff_state cur \<noteq> H_ready" by simp
    have "stage cur (controls s (job_id l))" using serve_stage(2) [OF sv cur(1)] .
    then show "stage (cur\<lparr>handoff_state := H_recording_receipt\<rparr>)
        (controls s (job_id l) @ control_of (Inject_items (thread_id l) (receipt_text (job_id l) st)))"
      using h by (simp add: stage_def)
  qed (use b in simp_all)
  show ?thesis
    using serve_raise [OF sv] go by (auto simp: transfer_receipt_def split: sum.splits)
qed

lemma transfer_ready_ok:
  assumes sv: "serve tid l p s"
    and ph: "\<And>cur. lease_at s (job_id l) = Some cur \<Longrightarrow> is_live cur \<Longrightarrow> handoff_state cur = H_recording_receipt"
  shows "seg_ok tid l p {} (transfer_ready now l r s)"
proof -
  have "seg_ok tid l p {} (and_then (st_update now (job_id l) [F_handoff_state H_ready] s)
      (\<lambda>_ s. ((if lease_state cur = L_terminal
               then schedule_delivery (case db_get (store s) (job_id l) of None \<Rightarrow> cur | Some l \<Rightarrow> l) s else s),
              Inr (reply_with v))))"
    if live: "live_session (job_id l) s = Inr cur" for cur v
  proof -
    note cur = live_sessionD [OF live]
    note inv = serve_stage [OF sv cur(1)]
    have h: "handoff_state cur = H_recording_receipt" using ph cur by blast
    have act: "delivery_state cur \<noteq> D_activating" using inv(1) cur(4) h by (auto simp: lease_ok_def)
    let ?f = "[F_handoff_state H_ready]"
    have lo: "lease_ok (set_fields ?f cur)" "lease_state (set_fields ?f cur) \<noteq> L_preparing"
      "stage (set_fields ?f cur) (controls s (job_id l) @ control_of (Turns_list []))"
      using act h inv(2) cur(3) by (auto simp: lease_ok_def stage_def)
    show ?thesis
    proof (cases "st_update now (job_id l) ?f s")
      case (Pair s' res)
      show ?thesis
      proof (cases res)
        case (Inl e)
        then show ?thesis using st_update_raise [OF _ serve_tinv [OF sv]] Pair serve_raise [OF sv] by force
      next
        case (Inr m)
        note put = serve_put [OF sv Pair [unfolded Inr] cur(1,4) act lo(1,3,2)]
        have run: "running tid {} {p} s'"
          using put(1) act by (simp add: running_def sv_peer_send) (simp add: peer_send_def free_id_def tinv_defs)
        have lock: "activity_lock s' p = Some tid" using put(6) sv by (simp add: peer_send_def serve_def)
        have t: "tinv s'" using run by (simp add: running_def)
        have q: "qt s' (schedule_delivery m' s')" if "lease_at s' (job_id l) = Some m'" for m'
          using qt_schedule(1) [of s' s' m'] t lease_known_stored [OF that] by simp
        have "running tid {} {p} (schedule_delivery (set_fields ?f cur) s')"
          using running_quiet [OF run q [OF put(8)]] .
        moreover have "activity_lock (schedule_delivery (set_fields ?f cur) s') = activity_lock s'"
          using q [OF put(8)] by (simp add: qt_def gentle_def gentle_rest_def)
        ultimately show ?thesis using Pair Inr run lock put(8) by auto
      qed
    qed
  qed
  then show ?thesis
    using serve_raise [OF sv] by (auto simp: transfer_ready_def split: sum.splits)
qed

section \<open>The delivery\<close>

text \<open>The owner of a lease is the one connection its coroutines may work over.\<close>

lemma owner_sole:
  assumes sv: "sv x {} L s" and own: "owner l s = Inr p"
    and cur: "lease_at s (job_id l) = Some cur" "lease_key cur = lease_key l" "wake_mode cur = M_session"
  shows "sole_peer x s (job_id l) p"
  unfolding sole_peer_def
proof (intro allI impI)
  fix b pc m q
  assume b: "sp x s b pc" "serving pc = Some (m, q)" "job_id m = job_id l" "live_job s (job_id l)"
  note o = ownerD [OF own]
  have live: "is_live cur" using b(4) cur(1) by (simp add: live_job_def)
  have pt: "point_ok s a u" if "sp x s a u" for a u using sv that by (simp add: sv_def points_def)
  show "p = q"
  proof (cases "delivery_state cur = D_activating")
    case False
    from pt [OF b(1)] b(2) obtain c where c: "lease_at s (job_id m) = Some c" "lease_key c = lease_key m"
      "is_live c \<longrightarrow> delivery_state c \<noteq> D_activating \<longrightarrow> map_of (peers s) (thread_id m) = Some q"
      by (rule serving_lease) blast
    have "c = cur" using c(1) cur(1) b(3) by simp
    moreover have "thread_id m = thread_id l" using c(2) cur(2) \<open>c = cur\<close> by (simp add: lease_key_def)
    ultimately show ?thesis using c(3) live False o(2) by simp
  next
    case True
    then have "waking x s (job_id l)" using sv live cur by (auto simp: sv_def leases_def)
    then obtain a n r where a: "sp x s a (D_start n r)" "job_id n = job_id l" by (auto simp: waking_def)
    have "map_of (lease_peers s) (job_id n) \<in> {None, Some r}"
      using pt [OF a(1)] cur(1) a(2) live by (auto simp: point_ok_def)
    then have "r = p" using o(1) a(2) by auto
    moreover have "r = q"
      using sv a b unfolding sv_def same_peer_def by (metis serving.simps(11))
    ultimately show ?thesis by simp
  qed
qed

lemma session_modes:
  assumes "tinv s" "tasks s tid = Some t" "task_lease (task_pc t) = Some l"
  obtains cur where "lease_at s (job_id l) = Some cur" "lease_key cur = lease_key l"
  using assms unfolding tinv_def modes_ok_def lease_known_def by metis

lemma base_begin:
  assumes inv: "session_inv s" and t: "session_tasks s tid = None" "tasks s tid = Some t"
  shows "running tid {} {} s"
proof -
  have i: "tinv s" "sv None {} {} s" using inv by (simp_all add: session_inv_def)
  then have "tid < next_task s" using t(2) unfolding tinv_def ids_ok_def by (metis not_le option.distinct(1))
  then show ?thesis using i sv_fresh [of s tid] t by (simp add: running_def free_id_def)
qed

lemma s_deliver_settle:
  assumes inv: "session_inv s" and t: "session_tasks s tid = None" "tasks s tid = Some t" "task_pc t = W_start l"
    and m: "wake_mode l = M_session"
  shows "session_inv (s_settle tid a (s_deliver now l s))"
proof -
  have run: "running tid {} {} s" using base_begin [OF inv t(1,2)] .
  have "tinv s" using inv by (simp add: session_inv_def)
  then obtain cur where cur: "lease_at s (job_id l) = Some cur" "lease_key cur = lease_key l"
    using session_modes [of s tid t l] t(2,3) by (auto simp: task_lease_def)
  then have cm: "wake_mode cur = M_session" using m by (simp add: lease_key_def)
  show ?thesis
  proof (cases "owner l s")
    case (Inl e)
    then show ?thesis using deliver_raise_settle [OF run _ _ cur(1) cm] by (simp add: s_deliver_def)
  next
    case (Inr p)
    have "sv (Some tid) {} {} s" using run by (simp add: running_def)
    then have "at_ok tid s (D_lock l p)"
      using t cur m owner_sole [OF _ Inr cur cm] ownerD [OF Inr]
      by (auto simp: at_ok_def point_ok_def)
    then show ?thesis using settle_at [OF run, of "D_lock l p"] Inr by (simp add: s_deliver_def)
  qed
qed

lemma wake_enter_ok:
  assumes sv: "serve tid l p s" and b: "map_option task_pc (tasks s tid) = Some (W_start l)"
  shows "seg_ok tid l p {} (wake_enter l p s)"
proof (cases "live_session (job_id l) s")
  case (Inl e)
  then show ?thesis using serve_raise [OF sv] by (simp add: wake_enter_def)
next
  case (Inr cur)
  have "seg_ok tid l p {} (peer_send p (job_id l) (Peer_goal_get (thread_id l)) s, Inr (At (D_goal l p (terminal_state cur))))"
    if "handoff_state cur = H_ready" "lease_state cur = L_terminal"
    by (rule serve_await [OF serve_send [OF sv]])
      (use b live_sessionD(1) [OF Inr] that in \<open>auto simp: peer_send_def\<close>)
  then show ?thesis using Inr serve_return [OF sv] by (auto simp: wake_enter_def)
qed

lemma wake_goal_ok:
  assumes sv: "serve tid l p s" and b: "map_option task_pc (tasks s tid) = Some (W_start l)"
    and ph: "\<And>cur. lease_at s (job_id l) = Some cur \<Longrightarrow> handoff_state cur = H_ready \<and> (is_live cur \<longrightarrow> lease_state cur = L_terminal)"
  shows "seg_ok tid l p {} (wake_goal l p ts r s)"
proof -
  have "seg_ok tid l p {} (peer_send p (job_id l) (Turns_list (thread_id l)) s, Inr (At (D_latest l p ts)))"
    by (rule serve_await [OF serve_send [OF sv]]) (use b ph in \<open>auto simp: peer_send_def\<close>)
  then show ?thesis using serve_raise [OF sv] by (auto simp: wake_goal_def split: sum.splits)
qed

lemma wake_commit_ok:
  assumes sv: "serve tid l p s" and t: "tasks s tid = Some t" "task_pc t = W_start l" "\<not> cancelled t"
    and ph: "\<And>cur. lease_at s (job_id l) = Some cur \<Longrightarrow> handoff_state cur = H_ready \<and> (is_live cur \<longrightarrow> lease_state cur = L_terminal)"
  shows "seg_ok tid l p {} (wake_commit now l p ts r s)"
proof -
  have "seg_ok tid l p {} (and_then (st_update now (job_id l) [F_delivery_state D_activating] s)
      (\<lambda>_ s. (peer_send p (job_id l) rq s, Inr (At (D_start l p)))))"
    if live: "live_session (job_id l) s = Inr cur" and own: "owner l s = Inr q"
      and rq: "rq = Turn_start (thread_id l) (wake_text (job_id l) ts)" for cur q rq
  proof -
    note cur = live_sessionD [OF live] and o = ownerD [OF own]
    note inv = serve_stage [OF sv cur(1)]
    have p: "running tid {} {p} s" "activity_lock s p = Some tid" "sole_peer (Some tid) s (job_id l) p"
      using sv by (simp_all add: serve_def)
    have rd: "handoff_state cur = H_ready" "lease_state cur = L_terminal" using ph cur by blast+
    have act: "delivery_state cur \<noteq> D_activating"
      using not_waking [of tid "{}" "{p}" s p "job_id l"] p cur inv(3)
      by (auto simp: running_def live_job_def sv_def leases_def)
    have q: "q = p" using inv(5) cur(4) act o(2) by simp
    let ?f = "[F_delivery_state D_activating]"
    have l': "lease_ok (set_fields ?f cur)" "lease_state (set_fields ?f cur) \<noteq> L_preparing"
      "stage (set_fields ?f cur) (controls s (job_id l) @ control_of rq)"
      using act rd inv(2) cur(4) rq by (auto simp: lease_ok_def stage_def)
    show ?thesis
    proof (cases "st_update now (job_id l) ?f s")
      case (Pair s' res)
      show ?thesis
      proof (cases res)
        case (Inl e)
        then show ?thesis using st_update_raise [OF _ serve_tinv [OF sv]] Pair serve_raise [OF sv] by force
      next
        case (Inr m)
        note put = serve_put [OF sv Pair [unfolded Inr] cur(1,4) act l'(1,3,2)]
        have "at_ok tid (peer_send p (job_id l) rq s') (D_start l p)"
          using put t p o q rd inv(3,4) cur(4)
          by (auto simp: at_ok_def point_ok_def peer_send_def lease_key_def is_live_def live_state_def)
        then show ?thesis using put(1) Pair Inr by auto
      qed
    qed
  qed
  then show ?thesis
    using serve_raise [OF sv] by (auto simp: wake_commit_def split: sum.splits)
qed

lemma delivered_dead [simp]:
  "\<not> is_live (set_fields [F_state L_delivered, F_delivery_state D_resumed, F_wake_turn_id w] l)"
  by (simp add: is_live_def live_state_def)

lemma wake_started_ok:
  assumes inv: "session_inv s" and t: "session_tasks s tid = Some (D_start l p)"
  shows "seg_ok tid l p {job_id l} (wake_started now l r s)"
    and "r \<noteq> Inl CancelledError \<Longrightarrow> snd (wake_started now l r s) \<noteq> Inl CancelledError"
proof -
  have run: "running tid {job_id l} {p} s" and at: "at_ok tid s (D_start l p)"
    using session_begin [OF inv t] by simp_all
  have lock: "activity_lock s p = Some tid" using at by (simp add: at_ok_def)
  have "point_ok s tid (D_start l p)" using at by (simp add: at_ok_def)
  then obtain cur where cur: "lease_at s (job_id l) = Some cur" "lease_key cur = lease_key l" "wake_mode cur = M_session"
    by (rule serving_lease) auto
  let ?f = "\<lambda>w. [F_state L_delivered, F_delivery_state D_resumed, F_wake_turn_id w]"
  have st: "stage cur (controls s (job_id l))" using run cur by (simp add: running_def sv_def leases_def)
  have ok: "store_ok (store s)" using run by (simp add: running_def tinv_def)
  have u: "st_update now (job_id l) (?f w) s
      = (s\<lparr>store := db_put now (job_id l) (?f w) (store s)\<rparr>, Inr (set_fields (?f w) cur))" for w
    using db_update_ok [OF ok cur(1), of "?f w" now] delivered_dead [of w cur] by (simp add: st_update_def)
  have go: "running tid {} {p} (drop_deadline (job_id l) (s\<lparr>store := db_put now (job_id l) (?f w) (store s)\<rparr>))" for w
  proof -
    have "running tid {} {p} (s\<lparr>store := db_put now (job_id l) (?f w) (store s), peer_sent := peer_sent s\<rparr>)"
    proof (rule running_put(1) [OF run u cur(1,3)])
      show "stage (set_fields (?f w) cur) (controls_in (peer_sent s) (job_id l))"
        using stage_dead [OF st, of "set_fields (?f w) cur"] by (simp add: controls_def is_live_def live_state_def)
      show "point_phase pc (set_fields (?f w) cur)" if "point_phase pc cur" for pc
        using phase_dead [OF that, of "set_fields (?f w) cur"] by (simp add: is_live_def live_state_def)
    qed (use delivered_dead [of w cur] in \<open>auto simp: lease_ok_def controls_def\<close>)
    then have "running tid {} {p} (s\<lparr>store := db_put now (job_id l) (?f w) (store s)\<rparr>)" by simp
    then show ?thesis using running_quiet qt_drop_deadline qt_refl unfolding running_def by blast
  qed
  have al: "activity_lock (drop_deadline j x) = activity_lock x" for j x
    by (simp add: drop_deadline_def cancel_task_def split: option.splits)
  have rs: "seg_ok tid l p {job_id l} (s, Inl e)" for e using run lock cur by auto
  have "wake_started now l r s = (s, Inl e) \<Longrightarrow> seg_ok tid l p {job_id l} (wake_started now l r s)" for e
    using rs by simp
  show "seg_ok tid l p {job_id l} (wake_started now l r s)"
    using rs go lock by (auto simp: wake_started_def u al split: sum.splits json.splits)
  show "snd (wake_started now l r s) \<noteq> Inl CancelledError" if "r \<noteq> Inl CancelledError"
    using that by (auto simp: wake_started_def u attr_get_def split: sum.splits json.splits)
qed

section \<open>The registration\<close>

definition prep_ok :: "nat \<Rightarrow> peer \<Rightarrow> (session_bridge, scoro) outcome \<Rightarrow> bool" where
  "prep_ok tid p res \<longleftrightarrow>
     running tid {} {p} (fst res) \<and> activity_lock (fst res) p = Some tid
   \<and> (\<forall>c. snd res = Inr c \<longrightarrow>
        (case c of At pc \<Rightarrow> at_ok tid (fst res) pc \<and> holds pc = Some p | Base b \<Rightarrow> \<exists>v. b = Done v))"

lemma in_prepare_settle:
  assumes "prep_ok tid (p_peer p) res"
  shows "session_inv (s_settle tid a (in_prepare p res))"
proof -
  obtain s r where res: "res = (s, r)" by (cases res)
  have run: "running tid {} {p_peer p} s" "activity_lock s (p_peer p) = Some tid"
    using assms res by (simp_all add: prep_ok_def)
  have out: "running tid {} {} (leave (p_peer p) s)" using running_leave [OF run] by simp
  show ?thesis
  proof (cases r)
    case (Inl e)
    then show ?thesis using out res settle_running(1) by (simp add: in_prepare_def)
  next
    case (Inr c)
    then show ?thesis
      using assms res out settle_running(2) settle_at [OF run(1), of _ a]
      by (cases c) (auto simp: in_prepare_def prep_ok_def)
  qed
qed

text \<open>Inside the lock: before the task serves a lease, only its own number and the lock matter.\<close>

definition client_run :: "nat \<Rightarrow> peer \<Rightarrow> session_bridge \<Rightarrow> bool" where
  "client_run tid p s \<longleftrightarrow> running tid {} {p} s \<and> activity_lock s p = Some tid \<and> tasks s tid = None"

lemma client_run_send: "client_run tid p s \<Longrightarrow> control_of r = [] \<Longrightarrow> client_run tid p (peer_send q j r s)"
  using running_peer_send by (simp add: client_run_def peer_send_def)

lemma client_raise: "client_run tid p s \<Longrightarrow> prep_ok tid p (s, Inl e)"
  by (simp add: client_run_def prep_ok_def)

lemma client_await:
  "client_run tid p s \<Longrightarrow> serving pc = None \<Longrightarrow> holds pc = Some p \<Longrightarrow> beside pc None \<Longrightarrow>
     prep_ok tid p (s, Inr (At pc))"
  by (simp add: client_run_def prep_ok_def at_ok_def point_ok_def)

lemma begin_client:
  assumes inv: "session_inv s" and t: "session_tasks s tid = Some pc" "serving pc = None" "\<And>x. beside pc x = (x = None)"
  shows "holds pc = Some p \<Longrightarrow> client_run tid p s"
    and "holds pc = None \<Longrightarrow> activity_lock s p = None \<Longrightarrow> client_run tid p (enter p tid s)"
    and "holds pc = None \<Longrightarrow> running tid {} {} s" and "tasks s tid = None"
proof -
  have w: "wakes pc = {}" using t(2) by (cases pc) simp_all
  note b = session_begin [OF inv t(1)]
  show n: "tasks s tid = None" using b(2) t(3) by (simp add: at_ok_def)
  show r: "running tid {} {} s" if "holds pc = None" using b(1) w that by simp
  show "client_run tid p s" if "holds pc = Some p"
    using b w n that by (simp add: client_run_def at_ok_def)
  show "client_run tid p (enter p tid s)" if "holds pc = None" "activity_lock s p = None"
    using running_enter [OF r [OF that(1)] that(2)] n by (simp add: client_run_def enter_def)
qed

lemma s_prepare_enter_ok:
  "client_run tid (p_peer p) s \<Longrightarrow> prep_ok tid (p_peer p) (s_prepare_enter p s)"
  by (auto simp: s_prepare_enter_def intro!: client_raise client_await client_run_send)

lemma s_prepare_latest_ok:
  "client_run tid (p_peer p) s \<Longrightarrow> prep_ok tid (p_peer p) (s_prepare_latest p r s)"
  by (auto simp: s_prepare_latest_def split: sum.splits intro!: client_raise client_await client_run_send)

lemma sv_lease_peer:
  assumes sv: "sv x E L s" and l: "lease_at s j = Some l" "lease_state l = L_armed"
  shows "sv x E L (s\<lparr>lease_peers := AList.update j p (lease_peers s)\<rparr>)"
proof -
  let ?s = "s\<lparr>lease_peers := AList.update j p (lease_peers s)\<rparr>"
  have f: "sp y ?s = sp y s" "live_job ?s = live_job s" "controls ?s = controls s" "goal_job ?s = goal_job s"
    "free_id ?s = free_id s" for y
    by (simp_all add: sp_def live_job_def controls_def goal_job_def free_id_def fun_eq_iff)
  have w: "waking x ?s = waking x s" by (simp add: waking_def f fun_eq_iff)
  have live: "is_live l" using l(2) by (simp add: is_live_def live_state_def)
  have "point_ok ?s a pc" if "point_ok s a pc" for a pc
  proof (cases "is_D_start pc")
    case False
    then show ?thesis using that by (simp add: point_ok_def)
  next
    case True
    then obtain m q where pc: "pc = D_start m q" using serving_D_start by blast
    then have "job_id m \<noteq> j" using that l live by (auto simp: point_ok_def)
    then show ?thesis using that pc by (simp add: point_ok_def update_conv')
  qed
  then show ?thesis
    using sv unfolding sv_def points_def locks_def same_peer_def leases_def calls_ok_def f w by simp
qed

lemma s_prepare_finish:
  assumes c: "client_run tid p s" and l: "lease_at s j = Some l" "lease_state l = L_armed"
  shows "prep_ok tid p (schedule_deadline l (s\<lparr>lease_peers := AList.update j p (lease_peers s)\<rparr>), Inr (reply_with v))"
proof -
  let ?s = "s\<lparr>lease_peers := AList.update j p (lease_peers s)\<rparr>"
  have run: "running tid {} {p} ?s"
    using c sv_lease_peer l by (simp add: client_run_def running_def free_id_def)
  then have "tinv ?s" by (simp add: running_def)
  then have q: "qt ?s (schedule_deadline l ?s)"
    using qt_schedule(2) [of ?s ?s l] lease_known_stored [of ?s j l] l by simp
  then have "activity_lock (schedule_deadline l ?s) = activity_lock ?s"
    by (simp add: qt_def gentle_def gentle_rest_def)
  then show ?thesis using running_quiet [OF run q] c by (simp add: prep_ok_def client_run_def)
qed

lemma s_prepare_commit_ok:
  assumes c: "client_run tid (p_peer p) s"
    and old: "\<And>l. lease_at s (p_job p) = Some l \<Longrightarrow> lease_state l = L_armed \<and> handoff_state l = H_pending"
  shows "prep_ok tid (p_peer p) (s_prepare_commit now p s)"
proof -
  define n where "n = \<lparr>nl_job_id = p_job p, nl_thread_id = p_thread p, nl_objective = dumps_sorted (p_goal p),
      nl_goal_created_at = 0, nl_goal_updated_at = 0,
      nl_deadline_at = now + of_int (p_timeout p) + of_int (p_grace p) + 60,
      nl_wake_mode = M_session, nl_turn_id = Some (p_turn p), nl_call_id = Some (p_call p)\<rparr>"
  have n: "nl_job_id n = p_job p" "nl_wake_mode n = M_session" "nl_turn_id n = Some (p_turn p)" "nl_call_id n = Some (p_call p)"
    by (simp_all add: n_def)
  have run: "running tid {} {p_peer p} s" using c by (simp add: client_run_def)
  then have ok: "store_ok (store s)" by (simp add: running_def tinv_def)
  let ?f = "[F_state L_armed]"
  show ?thesis
  proof (cases "st_create now n s")
    case (Pair s1 res)
    from Pair ok show ?thesis
    proof (cases rule: st_create_cases)
      case (raised e)
      then show ?thesis using client_raise [OF c] Pair by (simp add: s_prepare_commit_def n_def [symmetric])
    next
      case (known l)
      have l: "lease_at s (p_job p) = Some l" using known(3) n(1) by simp
      have a: "lease_state l = L_armed" "handoff_state l = H_pending" using old [OF l] by simp_all
      have same: "set_fields ?f l = l" using a(1) by simp
      have u: "st_update now (p_job p) ?f s = (s\<lparr>store := db_put now (p_job p) ?f (store s)\<rparr>, Inr l)"
        using db_update_ok [OF ok l, of ?f now] same by (simp add: st_update_def)
      have "prep_ok tid (p_peer p) (schedule_deadline l
          (s\<lparr>store := db_put now (p_job p) ?f (store s), lease_peers := AList.update (p_job p) (p_peer p) (lease_peers s)\<rparr>),
          Inr (reply_with v))" if m: "wake_mode l = M_session" for v
      proof -
        have i: "lease_ok l" "stage l (controls s (p_job p))" using run l m by (auto simp: running_def sv_def leases_def)
        have act: "delivery_state l \<noteq> D_activating"
          using i(1) a by (auto simp: lease_ok_def is_live_def live_state_def)
        have "running tid {} {p_peer p} (s\<lparr>store := db_put now (p_job p) ?f (store s), peer_sent := peer_sent s\<rparr>)"
        proof (rule running_put(1) [OF run u l m])
          show "lease_ok (set_fields ?f l)" "stage (set_fields ?f l) (controls_in (peer_sent s) (p_job p))"
            using i same by (simp_all add: controls_def)
          show "point_phase pc (set_fields ?f l)" if "point_phase pc l" for pc using that same by simp
          show "is_live l" if "is_live (set_fields ?f l)" using that same by simp
          show "delivery_state l \<noteq> D_activating" if "delivery_state (set_fields ?f l) \<noteq> D_activating" using that by simp
          show "p_job p \<in> {} \<or> waking (Some tid) s (p_job p)"
            if "is_live (set_fields ?f l)" "delivery_state (set_fields ?f l) = D_activating"
            using that same act by simp
        qed (simp_all add: controls_def)
        then have "client_run tid (p_peer p) (s\<lparr>store := db_put now (p_job p) ?f (store s)\<rparr>)"
          using c by (simp add: client_run_def)
        from s_prepare_finish [OF this, of "p_job p" l] show ?thesis
          using l a(1) same by (simp add: db_get_put)
      qed
      then show ?thesis
        using known Pair client_raise [OF c] u l same
        by (auto simp: s_prepare_commit_def n_def [symmetric] Let_def db_get_put)
    next
      case created
      let ?d1 = "db_insert now n (store s)" and ?d2 = "db_put now (p_job p) ?f (db_insert now n (store s))"
      let ?l = "set_fields ?f (lease_of_new n)"
      have none: "lease_at s (p_job p) = None" using created(1) n(1) by simp
      have get1: "db_get ?d1 = (lease_at s)(p_job p \<mapsto> lease_of_new n)" using db_get_insert created(1) n(1) by simp
      have u: "st_update now (p_job p) ?f s1 = (s\<lparr>store := ?d2\<rparr>, Inr ?l)"
        using db_update_ok [OF created(5), of "p_job p" "lease_of_new n" ?f now] get1 created(3)
        by (simp add: st_update_def is_live_def live_state_def)
      have get2: "db_get ?d2 k = (if k = p_job p then Some ?l else lease_at s k)" for k
        using get1 by (simp add: db_get_put)
      have ok2: "store_ok ?d2"
        using store_ok_put [OF created(5), of "p_job p" ?f now] get1 by (simp add: is_live_def live_state_def)
      have hp: "handoff_state (lease_of_new n) = H_pending"
        using n(2) by (simp add: lease_of_new_def lease_of_row_def row_of_new_def wake_lease.truncate_def)
      have ctl: "controls s (p_job p) = []" using run none by (auto simp: running_def sv_def leases_def goal_job_def)
      have "sv (Some tid) {} {p_peer p} (s\<lparr>store := ?d2, peer_sent := peer_sent s\<rparr>)"
        by (rule sv_store [OF _ get2])
          (use run n hp ctl none in \<open>auto simp: running_def lease_ok_def stage_def controls_def\<close>)
      moreover have "tinv (s\<lparr>store := ?d2\<rparr>)"
      proof (rule tinv_store [OF _ ok2])
        show "tinv s" using run by (simp add: running_def)
        show "lease_known (s\<lparr>store := ?d2\<rparr>) m" if "lease_known s m" for m
          using that none by (auto simp: lease_known_def get2)
        show "no_prep (s\<lparr>store := ?d2\<rparr>)" using run by (auto simp: running_def tinv_def no_prep_def get2)
      qed
      ultimately have "client_run tid (p_peer p) (s\<lparr>store := ?d2\<rparr>)"
        using c by (simp add: client_run_def running_def free_id_def)
      from s_prepare_finish [OF this, of "p_job p" ?l]
      show ?thesis
        using created(3,4) Pair u n get2
        by (simp add: s_prepare_commit_def n_def [symmetric] Let_def)
    qed
  qed
qed

lemma s_prepare_goal_ok:
  assumes c: "client_run tid (p_peer p) s"
  shows "prep_ok tid (p_peer p) (s_prepare_goal now p r s)"
  using client_raise [OF c] s_prepare_commit_ok [OF c, of now]
  by (auto simp: s_prepare_goal_def split: sum.splits option.splits)

end
