(* ===== verification/Session_Steps.thy ===== *)
theory Session_Steps
  imports Session_Safe
begin

text \<open>
  The steps of the whole coordinator keep the invariant: requests, inherited coroutines,
  messages of the user, events of a connection, restarts.
\<close>

section \<open>Segments that hold no lock\<close>

definition free_ok :: "nat \<Rightarrow> (session_bridge, scoro) outcome \<Rightarrow> bool" where
  "free_ok tid res \<longleftrightarrow> running tid {} {} (fst res)
   \<and> (\<forall>c. snd res = Inr c \<longrightarrow>
        (case c of At pc \<Rightarrow> at_ok tid (fst res) pc
         | Base (Suspend pc) \<Rightarrow> task_fit (fst res) tid pc | Base (Done v) \<Rightarrow> True))"

lemma free_ok_simps [simp]:
  "free_ok tid (s, Inl e) = running tid {} {} s"
  "free_ok tid (s, Inr (Base (Done v))) = running tid {} {} s"
  "free_ok tid (s, Inr (Base (Suspend b))) = (running tid {} {} s \<and> task_fit s tid b)"
  "free_ok tid (s, Inr (At pc)) = (running tid {} {} s \<and> at_ok tid s pc)"
  by (simp_all add: free_ok_def)

lemma free_settle:
  assumes "free_ok tid res"
  shows "session_inv (s_settle tid a res)"
proof -
  obtain s r where res: "res = (s, r)" by (cases res)
  show ?thesis
  proof (cases r)
    case (Inl e)
    then show ?thesis using settle_running(1) assms res by simp
  next
    case (Inr c)
    then show ?thesis
    proof (cases c)
      case (At pc)
      then show ?thesis using settle_at [of tid "{}" "{}" s pc a] assms res Inr by simp
    next
      case (Base b)
      then show ?thesis using settle_running(2,3) assms res Inr by (cases b) simp_all
    qed
  qed
qed

text \<open>A client's task: nothing is stored for it yet.\<close>

definition client :: "nat \<Rightarrow> session_bridge \<Rightarrow> bool" where
  "client tid s \<longleftrightarrow> running tid {} {} s \<and> tasks s tid = None"

lemma client_quiet:
  assumes c: "client tid s" and q: "qt s s'"
  shows "client tid s'"
proof -
  have r: "running tid {} {} s" using c by (simp add: client_def)
  then have "map_option task_pc (tasks s' tid) = map_option task_pc (tasks s tid)"
    using gentle_id(2) q by (simp add: running_def qt_def)
  then show ?thesis using running_quiet [OF r q] c by (simp add: client_def)
qed

lemma client_fit: "client tid s \<Longrightarrow> task_lease pc = None \<Longrightarrow> task_fit s tid pc"
  by (simp add: client_def running_def free_id_def task_fit_def)

lemma seg_client:
  assumes c: "client tid s" and seg: "seg s client_end res"
  shows "free_ok tid (lift_base res)"
proof -
  obtain s' r where res: "res = (s', r)" by (cases res)
  have c': "client tid s'" using client_quiet [OF c] seg res by (simp add: seg_def)
  show ?thesis
  proof (cases r)
    case (Inl e)
    then show ?thesis using c' res by (simp add: lift_base_def client_def)
  next
    case (Inr b)
    then show ?thesis using c' res seg client_fit [OF c'] by (cases b) (simp_all add: lift_base_def client_def)
  qed
qed

lemma client_tinv: "client tid s \<Longrightarrow> qt s s"
  by (simp add: client_def running_def)

lemma client_send [simp]: "client tid (send j r s) = client tid s"
  by (simp add: client_def running_def free_id_def send_def tinv_defs)

lemma client_at: "client tid s \<Longrightarrow> serving pc = None \<Longrightarrow> holds pc = None \<Longrightarrow> beside pc None \<Longrightarrow> at_ok tid s pc"
  by (simp add: client_def at_ok_def point_ok_def)

lemma client_simps [simp]:
  "client tid s \<Longrightarrow> running tid {} {} s"
  by (simp add: client_def)

section \<open>Requests\<close>

lemma client_new:
  assumes "session_inv s"
  shows "client (next_task s) (new_task s)" and "session_tasks s (next_task s) = None"
proof -
  have i: "tinv s" "sv None {} {} s" using assms by (simp_all add: session_inv_def)
  show n: "session_tasks s (next_task s) = None"
    using i(2) unfolding sv_def points_def sp_def by (metis less_irrefl option.distinct(1) option.exhaust)
  have free: "tasks s (next_task s) = None" "free_id s (next_task s)"
    using i(1) unfolding tinv_def ids_ok_def free_id_def by (metis le_refl, metis less_irrefl)
  have "sv (Some (next_task s)) {} {} (new_task s)"
  proof -
    have f: "sp x (new_task s) = sp x s" "live_job (new_task s) = live_job s" "controls (new_task s) = controls s"
      "goal_job (new_task s) = goal_job s" "free_id (new_task s) = free_id s" "point_ok (new_task s) = point_ok s" for x
      by (simp_all add: sp_def live_job_def controls_def goal_job_def free_id_def point_ok_def new_task_def fun_eq_iff)
    have w: "waking x (new_task s) = waking x s" for x by (simp add: waking_def f fun_eq_iff)
    show ?thesis
      using sv_fresh [OF i(2) n]
      unfolding sv_def points_def locks_def same_peer_def leases_def calls_ok_def f w
      by (auto simp: new_task_def less_Suc_eq)
  qed
  moreover have "tinv (new_task s)"
    using i(1) by (auto simp: tinv_defs new_task_def less_Suc_eq)
  ultimately show "client (next_task s) (new_task s)"
    using free by (simp add: client_def running_def new_task_def free_id_def)
qed

lemma s_prepare_free: "client tid s \<Longrightarrow> free_ok tid (s_prepare job req s)"
  using seg_client [OF _ prepare_start_seg [OF client_tinv]]
  by (auto simp: s_prepare_def Let_def simp: client_at split: sum.splits bool.splits)

lemma s_prepare_got_free: "client tid s \<Longrightarrow> free_ok tid (s_prepare_got job thr req r s)"
  using seg_client [OF _ prepare_start_seg [OF client_tinv]]
  by (auto simp: s_prepare_got_def Let_def simp: client_at split: sum.splits bool.splits)

lemma s_prepare_observed_free: "client tid s \<Longrightarrow> free_ok tid (s_prepare_observed p s)"
proof -
  assume c: "client tid s"
  then have "client tid (s\<lparr>call_changed := False\<rparr>)" by (simp add: client_def)
  then show ?thesis using c by (auto simp: s_prepare_observed_def simp: client_at split: option.splits)
qed

lemma s_handoff_free:
  assumes c: "client tid s"
  shows "free_ok tid (s_handoff lease req s)"
proof -
  have "at_ok tid s (H_lock cur p st)" if live: "live_session (job_id lease) s = Inr cur" and own: "owner cur s = Inr p" for cur p st
  proof -
    note cur = live_sessionD [OF live]
    have key: "job_id cur = job_id lease" using cur(1) db_get_key by auto
    have sv: "sv (Some tid) {} {} s" using c by (simp add: client_def running_def)
    have "sole_peer (Some tid) s (job_id cur) p"
      using owner_sole [OF sv own, of cur] cur(1,2) key by simp
    then show ?thesis using c cur key ownerD [OF own] by (simp add: at_ok_def point_ok_def client_def)
  qed
  then show ?thesis using c by (auto simp: s_handoff_def split: sum.splits bool.splits)
qed

lemma client_put:
  assumes c: "client tid s" and u: "st_update now j fs s = (s', Inr m)" and l: "lease_at s j = Some l" "wake_mode l = M_session"
    and l': "lease_ok (set_fields fs l)" "stage (set_fields fs l) (controls s j)" "lease_state (set_fields fs l) \<noteq> L_preparing"
      "is_live (set_fields fs l) \<Longrightarrow> is_live l"
      "is_live (set_fields fs l) \<Longrightarrow> delivery_state (set_fields fs l) \<noteq> D_activating \<Longrightarrow> delivery_state l \<noteq> D_activating"
      "is_live (set_fields fs l) \<Longrightarrow> delivery_state (set_fields fs l) \<noteq> D_activating"
    and ph: "\<And>pc. point_phase pc l \<Longrightarrow> point_phase pc (set_fields fs l)"
  shows "client tid s'" and "lease_at s' j = Some (set_fields fs l)" and "m = set_fields fs l"
proof -
  have r: "running tid {} {} s" using c by simp
  note put = running_put [OF r u l l'(1) _ l'(3,4,5) ph, where ps = "peer_sent s" and E' = "{}"]
  have "running tid {} {} (s'\<lparr>peer_sent := peer_sent s\<rparr>)"
    by (rule put(1)) (use l' in \<open>simp_all add: controls_def\<close>)
  moreover have st: "s' = s\<lparr>store := db_put now j fs (store s)\<rparr>"
    by (rule put(3)) (use l' in \<open>simp_all add: controls_def\<close>)
  ultimately show "client tid s'" using c by (simp add: client_def)
  show "lease_at s' j = Some (set_fields fs l)" using st l(1) by (simp add: db_get_put)
  show "m = set_fields fs l"
    by (rule put(2)) (use l' in \<open>simp_all add: controls_def\<close>)
qed

lemma stage_live: "stage l cs \<Longrightarrow> is_live l \<Longrightarrow> delivery_state l \<noteq> D_activating \<Longrightarrow>
    handoff_state l' = handoff_state l \<Longrightarrow> delivery_state l' \<noteq> D_activating \<Longrightarrow> stage l' cs"
  by (auto simp: stage_def split: handoff_state.splits)

lemma client_schedule: "client tid s \<Longrightarrow> lease_at s j = Some l \<Longrightarrow> client tid (schedule_delivery l s)"
  using client_quiet qt_schedule(1) client_tinv lease_known_stored by metis

lemma client_lease:
  assumes "client tid s" "lease_at s j = Some l" "wake_mode l = M_session"
  shows "lease_ok l" "stage l (controls s j)"
  using assms by (auto simp: client_def running_def sv_def leases_def)

lemma goal_jobI:
  "lease_at s j = None \<Longrightarrow> goal_job s j"
  "lease_at s j = Some l \<Longrightarrow> wake_mode l \<noteq> M_session \<Longrightarrow> goal_job s j"
  using wake_mode.exhaust by (auto simp: goal_job_def)

lemma terminal_put:
  assumes c: "client tid s" and l: "lease_at s j = Some l" "wake_mode l = M_session" "lease_state l = L_armed"
    and u: "st_update now j [F_state L_terminal, F_terminal_state ts, F_delivery_state D_waiting_for_handoff] s = (s', Inr m)"
  shows "client tid s'" and "lease_at s' j = Some m" and "wake_mode m = M_session"
proof -
  let ?f = "[F_state L_terminal, F_terminal_state ts, F_delivery_state D_waiting_for_handoff]"
  have live: "is_live l" using l(3) by (simp add: is_live_def live_state_def)
  have act: "delivery_state l \<noteq> D_activating" using client_lease(1) [OF c l(1,2)] live l(3) by (auto simp: lease_ok_def)
  have st: "stage (set_fields ?f l) (controls s j)"
    by (rule stage_live [OF client_lease(2) [OF c l(1,2)] live act]) simp_all
  have ph: "point_phase pc (set_fields ?f l)" if "point_phase pc l" for pc
    using that live l(3) by (cases pc) simp_all
  note put = client_put [OF c u l(1,2) _ st _ _ _ _ ph]
  show "client tid s'" by (rule put(1)) (use live act in \<open>simp_all add: lease_ok_def\<close>)
  have at: "lease_at s' j = Some (set_fields ?f l)"
    by (rule put(2)) (use live act in \<open>simp_all add: lease_ok_def\<close>)
  moreover have m: "m = set_fields ?f l"
    by (rule put(3)) (use live act in \<open>simp_all add: lease_ok_def\<close>)
  ultimately show "lease_at s' j = Some m" "wake_mode m = M_session" using l(2) by simp_all
qed

lemma s_terminal_free:
  assumes c: "client tid s"
  shows "free_ok tid (s_terminal now job req s)"
proof -
  have base: "free_ok tid (lift_base (terminal_request now job req s))" if "goal_job s job"
    using seg_client [OF c terminal_request_seg [OF client_tinv [OF c] that]] .
  have go: "free_ok tid (and_then
      (st_update now job [F_state L_terminal, F_terminal_state ts, F_delivery_state D_waiting_for_handoff] s)
      (\<lambda>lease s. ((if handoff_state lease = H_ready then schedule_delivery lease s else s),
                 Inr (reply_with [(''ok'', JBool True), (''delivery_state'', JStr (delivery_str (delivery_state lease)))]))))"
    if l: "lease_at s job = Some l" "wake_mode l = M_session" "lease_state l = L_armed" for l ts
  proof (cases "st_update now job [F_state L_terminal, F_terminal_state ts, F_delivery_state D_waiting_for_handoff] s")
    case (Pair s' r)
    show ?thesis
    proof (cases r)
      case (Inl e)
      then show ?thesis using Pair c st_update_raise [OF Pair [unfolded Inl]] client_tinv [OF c] by simp
    next
      case (Inr m)
      note put = terminal_put [OF c l Pair [unfolded Inr]]
      show ?thesis using Pair Inr put(1) client_schedule [OF put(1,2)] by simp
    qed
  qed
  show ?thesis
  proof (cases "lease_at s job")
    case None
    then show ?thesis using base goal_jobI(1) [of s job] by (simp add: s_terminal_def)
  next
    case (Some l)
    show ?thesis
    proof (cases "wake_mode l = M_session")
      case False
      then show ?thesis using base goal_jobI(2) [OF Some] Some by (simp add: s_terminal_def)
    next
      case True
      show ?thesis
        using Some True c go [OF Some True] client_schedule [OF c Some]
        by (simp add: s_terminal_def ok_delivery_def split: sum.splits json.splits)
    qed
  qed
qed

lemma client_abandon:
  assumes c: "client tid s" and f: "\<And>s'. client tid s' \<Longrightarrow> free_ok tid (f () s')"
  shows "free_ok tid (and_then (s_abandon now thr r s) f)"
proof (cases "s_abandon now thr r s")
  case (Pair s' res)
  note q = qt_abandon [OF client_tinv [OF c] Pair]
  show ?thesis using Pair q(2) f [OF client_quiet [OF c q(1)]] by simp
qed

lemma s_abort_free:
  assumes c: "client tid s"
  shows "free_ok tid (s_abort now job req s)"
proof -
  have base: "free_ok tid (lift_base (abort_request s_abandon now job req s))" if "goal_job s job"
    using seg_client [OF c abort_request_seg [OF client_tinv [OF c] that]] .
  show ?thesis
    using base c goal_jobI(1) [of s job] goal_jobI(2) [of s job]
    by (auto simp: s_abort_def ok_delivery_def split: option.splits sum.splits intro!: client_abandon)
qed

lemma session_control_free: "client tid s \<Longrightarrow> free_ok tid (session_control now action req s)"
  by (auto simp: session_control_def s_handoff_free split: option.splits sum.splits intro!: client_abandon)

lemma base_dispatch_free: "client tid s \<Longrightarrow> free_ok tid (base_dispatch now req s)"
  by (auto simp: base_dispatch_def Let_def s_prepare_free s_terminal_free s_abort_free split: sum.splits)

lemma s_dispatch_free: "client tid s \<Longrightarrow> free_ok tid (s_dispatch now req s)"
  by (auto simp: s_dispatch_def Let_def session_control_free base_dispatch_free split: sum.splits bool.splits)

lemma s_handle_request_free: "client tid s \<Longrightarrow> free_ok tid (s_handle_request now inp s)"
  by (auto simp: s_handle_request_def s_dispatch_free split: conn_input.splits)

section \<open>Coroutines of the session code\<close>

lemma begin_free:
  assumes inv: "session_inv s" and t: "session_tasks s tid = Some pc" "serving pc = None" "\<And>x. beside pc x = (x = None)" "holds pc = None"
  shows "client tid s"
  using begin_client(3,4) [OF inv t(1,2)] t(3,4) by (simp add: client_def)

lemma begin_transfer:
  assumes inv: "session_inv s" and t: "session_tasks s tid = Some pc" "serving pc = Some (l, p)" "holds pc = Some p"
    and pc: "\<And>x. beside pc x = (x = None)"
  shows "serve tid l p s" "tasks s tid = None" "lease_at s (job_id l) = Some cur \<Longrightarrow> point_phase pc cur"
proof -
  have d: "\<not> is_D_start pc" using pc t(2) by (cases pc) auto
  show "serve tid l p s" "lease_at s (job_id l) = Some cur \<Longrightarrow> point_phase pc cur"
    using begin_serve [OF inv t d] by simp_all
  show "tasks s tid = None" using begin_serve(2) [OF inv t d] pc by simp
qed

lemma begin_wake:
  assumes inv: "session_inv s" and t: "session_tasks s tid = Some pc" "serving pc = Some (l, p)" "holds pc = Some p"
    and pc: "\<And>x. beside pc x = (x = Some (W_start l))" "\<not> is_D_start pc"
  shows "serve tid l p s" "map_option task_pc (tasks s tid) = Some (W_start l)"
    "lease_at s (job_id l) = Some cur \<Longrightarrow> point_phase pc cur"
  using begin_serve [OF inv t pc(2)] pc(1) by simp_all

lemma peer_reply_inv:
  assumes inv: "session_inv s" and t: "session_tasks s tid = Some pc"
    and r: "r \<noteq> Inl CancelledError" and c: "\<And>t. tasks s tid = Some t \<Longrightarrow> \<not> cancelled t"
    and res: "peer_reply now pc r s = Some res"
  shows "session_inv (s_settle tid a res)"
proof (cases pc)
  case (SP_latest p)
  then have "client_run tid (p_peer p) s" using begin_client(1) [OF inv t] by simp
  then show ?thesis using res SP_latest in_prepare_settle [OF s_prepare_latest_ok] by auto
next
  case (SP_goal p)
  then have "client_run tid (p_peer p) s" using begin_client(1) [OF inv t] by simp
  then show ?thesis using res SP_goal in_prepare_settle [OF s_prepare_goal_ok] by auto
next
  case (H_goal l p st)
  note b = begin_transfer [OF inv t [unfolded H_goal], of l p]
  show ?thesis using res H_goal b in_transfer_settle [OF transfer_goal_ok [of tid l p s st r]] by auto
next
  case (H_latest l p st)
  note b = begin_transfer [OF inv t [unfolded H_latest], of l p]
  show ?thesis using res H_latest b in_transfer_settle [OF transfer_interrupt_ok [of tid l p s now st r]] by auto
next
  case (H_interrupt l p st)
  note b = begin_transfer [OF inv t [unfolded H_interrupt], of l p]
  show ?thesis using res H_interrupt b in_transfer_settle [OF transfer_wait_ok(1) [of tid l p s st r]] by auto
next
  case (H_latest2 l p st)
  note b = begin_transfer [OF inv t [unfolded H_latest2], of l p]
  show ?thesis using res H_latest2 b in_transfer_settle [OF transfer_receipt_ok [of tid l p s now st r]] by auto
next
  case (H_inject l p st)
  note b = begin_transfer [OF inv t [unfolded H_inject], of l p]
  show ?thesis using res H_inject b in_transfer_settle [OF transfer_ready_ok [of tid l p s now r]] by auto
next
  case (D_goal l p ts)
  note b = begin_wake [OF inv t [unfolded D_goal], of l p]
  show ?thesis using res D_goal b in_wake_settle [OF wake_goal_ok [of tid l p s ts r]] by auto
next
  case (D_latest l p ts)
  note b = begin_wake [OF inv t [unfolded D_latest], of l p]
  obtain u where u: "tasks s tid = Some u" "task_pc u = W_start l" using b(2) by auto
  show ?thesis
    using res D_latest b in_wake_settle [OF wake_commit_ok [OF _ u c [OF u(1)], of p now ts r]] by auto
next
  case (D_start l p)
  note w = wake_started_ok [OF inv t [unfolded D_start]]
  have "session_inv (s_settle tid a (in_wake now l p (wake_started now l r s)))"
    by (rule in_wake_settle [OF w(1)]) (use w(2) [OF r] in auto)
  then show ?thesis using res D_start by simp
qed (use res in simp_all)

lemma session_run_inv:
  assumes inv: "session_inv s" and t: "session_tasks s tid = Some pc" and res: "session_run now tid pc s = Some res"
  shows "session_inv (s_settle tid a res)"
proof (cases pc)
  case (SP_observe p)
  then have "client tid s" using begin_free [OF inv t] by simp
  then show ?thesis
    using res SP_observe free_settle [OF s_prepare_observed_free] by (auto split: if_splits)
next
  case (SP_lock p)
  then have f: "activity_lock s (p_peer p) = None" using res by (auto split: if_splits)
  then have "client_run tid (p_peer p) (enter (p_peer p) tid s)" using begin_client(2) [OF inv t] SP_lock by simp
  then show ?thesis using res SP_lock f in_prepare_settle [OF s_prepare_enter_ok] by auto
next
  case (H_lock l p st)
  then have f: "activity_lock s p = None" using res by (auto split: if_splits)
  note e = enter_serve [OF inv t [unfolded H_lock], of l p]
  have "seg_ok tid l p {} (transfer_enter l p st (enter p tid s))"
    by (rule transfer_enter_ok) (use e f in \<open>simp_all add: enter_def\<close>)
  from in_transfer_settle [OF this] show ?thesis using res H_lock f by auto
next
  case (H_done l p st)
  note b = begin_transfer [OF inv t [unfolded H_done], of l p]
  show ?thesis
    using res H_done b in_transfer_settle [OF transfer_wait_ok(2) [of tid l p s st]] by (auto split: if_splits)
next
  case (D_lock l p)
  then have f: "activity_lock s p = None" using res by (auto split: if_splits)
  note e = enter_serve [OF inv t [unfolded D_lock], of l p]
  have "seg_ok tid l p {} (wake_enter l p (enter p tid s))"
    by (rule wake_enter_ok) (use e f in \<open>simp_all add: enter_def\<close>)
  from in_wake_settle [OF this] show ?thesis using res D_lock f by auto
next
  case (Y_send p)
  have "client_run tid p s" using begin_client(1) [OF inv t] Y_send by simp
  then have "running tid {} {} (leave p s)" using running_leave [of tid "{}" "{p}" s p] by (simp add: client_run_def)
  then show ?thesis using res Y_send settle_running(2) by auto
qed (use res in simp_all)

lemma serve_running: "serve tid l p s \<Longrightarrow> running tid {} {p} s \<and> activity_lock s p = Some tid"
  by (simp add: serve_def)

lemma transfer_raise:
  assumes inv: "session_inv s" and t: "session_tasks s tid = Some pc" "serving pc = Some (l, p)" "holds pc = Some p"
    and pc: "\<And>x. beside pc x = (x = None)"
  shows "session_inv (s_settle tid a (in_transfer now l p g (s, Inl e)))"
  using in_transfer_settle [OF serve_raise [OF begin_transfer(1) [OF inv t pc]]] .

lemma wake_raise:
  assumes inv: "session_inv s" and t: "session_tasks s tid = Some pc" "serving pc = Some (l, p)" "holds pc = Some p"
    and pc: "\<And>x. beside pc x = (x = Some (W_start l))" "\<not> is_D_start pc"
  shows "session_inv (s_settle tid a (in_wake now l p (s, Inl e)))"
  by (rule in_wake_settle [OF serve_raise [OF begin_wake(1) [OF inv t pc]]]) auto

lemma queued_lease:
  assumes inv: "session_inv s" and t: "session_tasks s tid = Some pc" "serving pc = Some (l, p)" "holds pc = None"
  obtains cur where "lease_at s (job_id l) = Some cur" "wake_mode cur = M_session" "running tid {} {} s"
proof -
  have w: "wakes pc = {}" using t(3) by (cases pc) simp_all
  have r: "running tid {} {} s" "at_ok tid s pc" using session_begin [OF inv t(1)] t(3) w by simp_all
  then show ?thesis using serving_lease [OF _ t(2)] that unfolding at_ok_def by metis
qed

lemma session_timeout_inv:
  assumes inv: "session_inv s" and t: "session_tasks s tid = Some pc" and res: "session_timeout now pc s = Some res"
  shows "session_inv (s_settle tid a res)"
proof (cases pc)
  case (SP_observe p)
  then have "client tid s" using begin_free [OF inv t] by simp
  then show ?thesis using res SP_observe settle_running(1) by auto
next
  case (H_lock l p st)
  then obtain cur where "lease_at s (job_id l) = Some cur" "wake_mode cur = M_session" "running tid {} {} s"
    using queued_lease [OF inv t] by auto
  then show ?thesis using res H_lock handoff_raise_settle by auto
next
  case (H_goal l p st) then show ?thesis using res transfer_raise [OF inv t] by auto
next
  case (H_latest l p st) then show ?thesis using res transfer_raise [OF inv t] by auto
next
  case (H_interrupt l p st) then show ?thesis using res transfer_raise [OF inv t] by auto
next
  case (H_done l p st) then show ?thesis using res transfer_raise [OF inv t] by auto
next
  case (H_latest2 l p st) then show ?thesis using res transfer_raise [OF inv t] by auto
next
  case (H_inject l p st) then show ?thesis using res transfer_raise [OF inv t] by auto
qed (use res in simp_all)

lemma session_cancel_inv:
  assumes inv: "session_inv s" and t: "session_tasks s tid = Some pc" "\<not> in_base (Some pc)"
    and c: "\<And>t. tasks s tid = Some t \<Longrightarrow> cancelled t"
  shows "session_inv (s_settle tid a (session_cancel now pc s))"
proof -
  have client: "session_inv (s_settle tid a (s, Inl e))"
    if "serving pc = None" "\<And>x. beside pc x = (x = None)" "holds pc = None" for e
    using begin_free [OF inv t(1) that] settle_running(1) by simp
  have lock: "client_run tid p s" if "serving pc = None" "\<And>x. beside pc x = (x = None)" "holds pc = Some p" for p
    using begin_client(1) [OF inv t(1) that(1,2,3)] .
  have queued: "running tid {} {} s" if "serving pc \<noteq> None" "holds pc = None"
    using queued_lease [OF inv t(1) _ that(2)] that(1) by auto
  show ?thesis
  proof (cases pc)
    case (SP_latest p)
    then show ?thesis using in_prepare_settle [OF client_raise [OF lock]] by simp
  next
    case (SP_goal p)
    then show ?thesis using in_prepare_settle [OF client_raise [OF lock]] by simp
  next
    case (H_goal l p st) then show ?thesis using transfer_raise [OF inv t(1)] by simp
  next
    case (H_latest l p st) then show ?thesis using transfer_raise [OF inv t(1)] by simp
  next
    case (H_interrupt l p st) then show ?thesis using transfer_raise [OF inv t(1)] by simp
  next
    case (H_done l p st) then show ?thesis using transfer_raise [OF inv t(1)] by simp
  next
    case (H_latest2 l p st) then show ?thesis using transfer_raise [OF inv t(1)] by simp
  next
    case (H_inject l p st) then show ?thesis using transfer_raise [OF inv t(1)] by simp
  next
    case (H_lock l p st) then show ?thesis using settle_running(1) queued by simp
  next
    case (D_lock l p)
    then obtain cur where "lease_at s (job_id l) = Some cur" "wake_mode cur = M_session" "running tid {} {} s"
      using queued_lease [OF inv t(1)] by auto
    then show ?thesis using D_lock deliver_raise_settle [of tid "{}" s l] by simp
  next
    case (D_goal l p ts) then show ?thesis using wake_raise [OF inv t(1)] by simp
  next
    case (D_latest l p ts) then show ?thesis using wake_raise [OF inv t(1)] by simp
  next
    case (D_start l p)
    have "at_ok tid s pc" using session_begin(2) [OF inv t(1)] .
    then have "\<exists>u. tasks s tid = Some u \<and> \<not> cancelled u" using D_start by (auto simp: at_ok_def point_ok_def)
    then show ?thesis using c by blast
  next
    case (Y_send p)
    then have "running tid {} {} (leave p s)"
      using lock running_leave [of tid "{}" "{p}" s p] by (simp add: client_run_def)
    then show ?thesis using Y_send settle_running(1) by simp
  qed (use client t(2) in simp_all)
qed

end
