(* ===== verification/Session_Reach.thy ===== *)
theory Session_Reach
  imports Session_Steps
begin

text \<open>
  Inherited coroutines, messages of the user, events of a connection, notifications and
  restarts keep the invariant, so every coordinator that can be reached has it.
\<close>

section \<open>Inherited coroutines\<close>

text \<open>A coroutine stays of its kind: it works on the same lease, and on a Goal lease.\<close>

fun kind :: "goal_pc \<Rightarrow> coro \<Rightarrow> bool" where
  "kind pc (Done v) = True"
| "kind pc (Suspend pc') \<longleftrightarrow> delivery_lease pc' = delivery_lease pc \<and> deadline_lease pc' = deadline_lease pc
     \<and> (\<forall>l. delivery_lease pc = Some l \<longrightarrow> wake_mode l = M_goal)"

lemma deadline_pcs: "deadline_lease pc = Some l \<Longrightarrow> pc \<in> {X_start l, X_sleep l}"
  by (cases pc) auto

lemma kind_task_lease: "kind pc (Suspend pc') \<Longrightarrow> task_lease pc' = task_lease pc"
  by (auto simp: task_lease_def split: option.splits)

lemma kind_fit:
  assumes t: "tinv s" "tasks s tid = Some t" and q: "qt s s'" and k: "kind (task_pc t) (Suspend pc')"
  shows "task_fit s' tid pc'"
proof -
  have n: "tid < next_task s" using t unfolding tinv_def ids_ok_def by (metis not_le option.distinct(1))
  have m: "maps_ok None s" using t by (simp add: tinv_def)
  have old: "delivery_tasks s' j = Some tid \<Longrightarrow> delivery_tasks s j = Some tid"
    "deadline_tasks s' j = Some tid \<Longrightarrow> deadline_tasks s j = Some tid" for j
    using q n by (auto simp: qt_def gentle_def gentle_maps_def)
  have tk: "tk None s tid t" using t(2) by (simp add: tk_def)
  have "\<exists>l. delivery_lease pc' = Some l \<and> job_id l = j" if "delivery_tasks s' j = Some tid" for j
    using m tk k old(1) [OF that] unfolding maps_ok_def by (metis kind.simps(2))
  moreover have "\<exists>l. deadline_lease pc' = Some l \<and> job_id l = j" if "deadline_tasks s' j = Some tid" for j
    using m tk k old(2) [OF that] unfolding maps_ok_def by (metis kind.simps(2))
  moreover have "lease_known s' l \<and> (wake_mode l = M_session \<longrightarrow> pc' \<in> {W_start l, X_start l, X_sleep l})"
    if l: "task_lease pc' = Some l" for l
  proof -
    have "task_lease (task_pc t) = Some l" using l kind_task_lease [OF k] by simp
    then have "lease_known s l" using t unfolding tinv_def modes_ok_def by blast
    moreover have "pc' \<in> {W_start l, X_start l, X_sleep l}" if "wake_mode l = M_session"
    proof -
      have "delivery_lease pc' \<noteq> Some l" using k that by auto
      then have "deadline_lease pc' = Some l" using l by (auto simp: task_lease_def split: option.splits)
      then show ?thesis using deadline_pcs by blast
    qed
    ultimately show ?thesis using qt_known [OF q] by blast
  qed
  ultimately show ?thesis unfolding task_fit_def by blast
qed

lemma delivery_goal:
  assumes t: "tinv s" "tasks s tid = Some t" and l: "delivery_lease (task_pc t) = Some l" "task_pc t \<noteq> W_start l"
  shows "wake_mode l = M_goal" "goal_job s (job_id l)"
proof -
  have "task_lease (task_pc t) = Some l" using l by (simp add: task_lease_def)
  then have k: "lease_known s l" "wake_mode l = M_session \<longrightarrow> task_pc t \<in> {W_start l, X_start l, X_sleep l}"
    using t unfolding tinv_def modes_ok_def by blast+
  then show m: "wake_mode l = M_goal" using l by (cases "wake_mode l") auto
  show "goal_job s (job_id l)" using known_goal [OF k(1) m] .
qed

lemma seg_mono: "seg s K res \<Longrightarrow> (\<And>c. K c \<Longrightarrow> K' c) \<Longrightarrow> seg s K' res"
  by (auto simp: seg_def)

lemma client_kind: "client_end c \<Longrightarrow> task_lease pc = None \<Longrightarrow> kind pc c"
  by (cases c) (auto simp: task_lease_def split: option.splits)

lemma delivery_not_deadline: "delivery_lease pc = Some l \<Longrightarrow> deadline_lease pc = None"
  by (cases pc) auto

lemma delivery_kind: "delivery_end l c \<Longrightarrow> delivery_lease pc = Some l \<Longrightarrow> wake_mode l = M_goal \<Longrightarrow> kind pc c"
  using delivery_not_deadline by (cases c) auto

lemma seg_kind:
  "seg s client_end res \<Longrightarrow> task_lease pc = None \<Longrightarrow> seg s (kind pc) res"
  "seg s (delivery_end l) res \<Longrightarrow> delivery_lease pc = Some l \<Longrightarrow> wake_mode l = M_goal \<Longrightarrow> seg s (kind pc) res"
  using seg_mono client_kind delivery_kind by metis+

lemma reply_kind:
  assumes t: "tinv s" "tasks s tid = Some t" and res: "resume_reply now (task_pc t) r s = Some res"
  shows "seg s (kind (task_pc t)) res"
proof -
  have q: "qt s s" using t(1) by simp
  note g = delivery_goal [OF t]
  show ?thesis
  proof (cases "task_pc t")
    case (P_get job thr timeout grace)
    then show ?thesis using res seg_kind(1) [OF prepare_got_seg [OF q]] by auto
  next
    case (P_pause job thr u l)
    then show ?thesis using res seg_kind(1) [OF prepare_paused_seg [OF q]] by auto
  next
    case (P_confirm job thr u p l)
    then show ?thesis using res seg_kind(1) [OF prepare_confirmed_seg [OF q]] by auto
  next
    case (W_idle1 l)
    then show ?thesis using res g [of l] seg_kind(2) [OF idle_seg(1) [OF q]] by auto
  next
    case (W_idle2 l)
    then show ?thesis using res g [of l] seg_kind(2) [OF idle_seg(2) [OF q]] by auto
  next
    case (A_read l)
    then show ?thesis using res g [of l] seg_kind(2) [OF deliver_loop_seg [OF activate_read_seg [OF q]]] by auto
  next
    case (A_get l)
    then show ?thesis using res g [of l] seg_kind(2) [OF deliver_loop_seg [OF activate_get_seg [OF q]]] by auto
  next
    case (A_set l)
    then show ?thesis using res g [of l] seg_kind(2) [OF deliver_loop_seg [OF activate_set_seg [OF q]]] by auto
  next
    case (U_op thr)
    then show ?thesis using res t(1) by (auto split: sum.splits)
  qed (use res in simp_all)
qed

lemma cancel_kind:
  assumes t: "tinv s" "tasks s tid = Some t"
  shows "seg s (kind (task_pc t)) (resume_cancel now (task_pc t) s)"
proof -
  have q: "qt s s" using t(1) by simp
  note g = delivery_goal [OF t]
  show ?thesis
  proof (cases "task_pc t")
    case (W_idle1 l)
    then show ?thesis using g [of l] seg_kind(2) [OF deliver_raise_seg [OF q]] by auto
  next
    case (W_idle2 l)
    then show ?thesis using g [of l] seg_kind(2) [OF deliver_raise_seg [OF q]] by auto
  next
    case (W_event l)
    then show ?thesis using g [of l] seg_kind(2) [OF deliver_raise_seg [OF q]] by auto
  next
    case (W_lock l)
    then show ?thesis using g [of l] seg_kind(2) [OF deliver_raise_seg [OF q]] by auto
  next
    case (A_read l)
    then show ?thesis using g [of l] t(1) seg_kind(2) [OF deliver_loop_seg [of s l "(s, Inl CancelledError)"]] by auto
  next
    case (A_get l)
    then show ?thesis using g [of l] t(1) seg_kind(2) [OF deliver_loop_seg [of s l "(s, Inl CancelledError)"]] by auto
  next
    case (A_set l)
    then show ?thesis using g [of l] t(1) seg_kind(2) [OF deliver_loop_seg [of s l "(s, Inl CancelledError)"]] by auto
  qed (use t(1) q prepare_failed_seg [OF q] in auto)
qed

text \<open>The segments of an inherited coroutine; two are overridden for session leases.\<close>

fun overridden :: "goal_pc \<Rightarrow> bool" where
  "overridden (W_start l) = (wake_mode l = M_session)"
| "overridden (X_sleep l) = (wake_mode l = M_session)"
| "overridden _ = False"

lemma seg_done: "seg s (\<lambda>c. \<exists>v. c = Done v) res \<Longrightarrow> seg s (kind pc) res"
  by (auto elim: seg_mono)

lemma mode_goal: "wake_mode l \<noteq> M_session \<Longrightarrow> wake_mode l = M_goal"
  by (cases "wake_mode l") auto

lemma run_kind:
  assumes t: "tinv s" "tasks s tid = Some t" "\<not> overridden (task_pc t)" and res: "base_run now tid (task_pc t) s = Some res"
  obtains b where "res = lift_base b" "seg s (kind (task_pc t)) b"
proof -
  have q: "qt s s" using t(1) by simp
  note g = delivery_goal [OF t(1,2)]
  show ?thesis
  proof (cases "task_pc t")
    case (W_start l)
    then have "wake_mode l = M_goal" using t(3) mode_goal by simp
    then show ?thesis
      using res W_start that [of "deliver_start l s"] seg_kind(2) [OF deliver_start_seg [OF q], where pc = "W_start l"] by auto
  next
    case (W_event l)
    then show ?thesis
      using res g [of l] that [of "wait_idle l s"] seg_kind(2) [OF wait_idle_seg [OF q], where pc = "W_event l"] by (auto split: if_splits)
  next
    case (W_lock l)
    then show ?thesis
      using res g [of l] that [of "activate_start tid l s"] seg_kind(2) [OF activate_start_seg [OF q], where pc = "W_lock l"] by (auto split: if_splits)
  next
    case (X_start l)
    then show ?thesis using res t(1) that [of "(s, Inr (Suspend (X_sleep l)))"] by auto
  next
    case (X_sleep l)
    then have m: "wake_mode l = M_goal" using t(3) mode_goal by simp
    have "lease_known s l" using t(1,2) X_sleep unfolding tinv_def modes_ok_def by (auto simp: task_lease_def)
    then have "seg s (kind (X_sleep l)) (expire_at_deadline now l s)"
      using seg_done [OF expire_seg [OF q]] known_goal m by blast
    then show ?thesis using res X_sleep m that [of "expire_at_deadline now l s"] by (auto simp: s_expire_def split: if_splits)
  next
    case (U_lock thr)
    then show ?thesis
      using res that [of "user_control_locked s_abandon now tid thr s"] seg_kind(1) [OF user_control_seg(2) [OF q], where pc = "U_lock thr"] by (auto split: if_splits)
  qed (use res in simp_all)
qed

section \<open>The end of an inherited segment\<close>

lemma seg_st: "seg s K (s', r) \<Longrightarrow> session_tasks s' = session_tasks s \<and> activity_lock s' = activity_lock s"
  by (simp add: seg_def qt_def gentle_def gentle_rest_def)

lemma base_settle_outside:
  assumes "session_tasks (fst res) tid = None"
  shows "base_settle tid pc res = s_settle tid (answers_client pc) res"
proof -
  obtain s r where res: "res = (s, r)" by (cases res)
  have "s\<lparr>session_tasks := (session_tasks s)(tid := None)\<rparr> = s" using assms res by (simp add: fun_upd_idem)
  then show ?thesis
    using assms res by (auto simp: base_settle_def s_settle_def end_message_def settle_def split: sum.splits scoro.splits coro.splits)
qed

lemma base_settle_inside:
  assumes "session_tasks s tid = Some (Y_goal p)"
  shows "base_settle tid pc (s, Inl e) = s_settle tid (answers_client pc) (leave p s, Inl e)"
    and "base_settle tid pc (s, Inr (Base (Done v))) = s_settle tid (answers_client pc) (leave p s, Inr (Base (Done v)))"
  using assms by (simp_all add: base_settle_def s_settle_def end_message_def settle_def leave_def)

text \<open>The message of a user goes on in inherited code, inside the lock of its peer.\<close>

lemma overlay_suspend:
  assumes run: "running tid {} {p} s" "activity_lock s p = Some tid" and pc: "task_lease pc = None" "task_fit s tid pc"
  shows "session_inv (settle tid a (s\<lparr>session_tasks := (session_tasks s)(tid \<mapsto> Y_goal p)\<rparr>, Inr (Suspend pc)))"
proof -
  define u where "u = \<lparr>task_pc = pc, cancelled = (case tasks s tid of None \<Rightarrow> False | Some t \<Rightarrow> cancelled t)\<rparr>"
  let ?s = "s\<lparr>tasks := (tasks s)(tid \<mapsto> u)\<rparr>"
  have sv: "sv (Some tid) {} {p} ?s" using sv_tasks [of "Some tid" "{}" "{p}" s tid] run by (simp add: running_def)
  have "sv None {} {} (?s\<lparr>session_tasks := (session_tasks ?s)(tid \<mapsto> Y_goal p)\<rparr>)"
    by (rule sv_suspend [OF sv]) (use run pc in \<open>auto simp: running_def free_id_def u_def point_ok_def\<close>)
  moreover have "tinv ?s" using tinv_task_put [of s tid u] run(1) pc(2) by (simp add: running_def u_def)
  moreover have "settle tid a (s\<lparr>session_tasks := (session_tasks s)(tid \<mapsto> Y_goal p)\<rparr>, Inr (Suspend pc))
      = ?s\<lparr>session_tasks := (session_tasks ?s)(tid \<mapsto> Y_goal p)\<rparr>"
    by (simp add: settle_def u_def)
  ultimately show ?thesis by (simp add: session_inv_def)
qed

lemma base_settle_inv:
  assumes inv: "session_inv s" and t: "tasks s tid = Some t" "in_base (session_tasks s tid)"
    and b: "seg s (kind (task_pc t)) b"
  shows "session_inv (base_settle tid (task_pc t) (lift_base b))"
proof -
  obtain s' r where res: "b = (s', r)" by (cases b)
  have tinv: "tinv s" using inv by (simp add: session_inv_def)
  have q: "qt s s'" using b res by (simp add: seg_def)
  have same: "session_tasks s' = session_tasks s" "activity_lock s' = activity_lock s" using seg_st b res by auto
  have fit: "task_fit s' tid pc'" if "r = Inr (Suspend pc')" for pc'
    using kind_fit [OF tinv t(1) q] b res that by (simp add: seg_def)
  show ?thesis
  proof (cases "session_tasks s tid")
    case None
    have run: "running tid {} {} s'" using running_quiet [OF base_begin [OF inv None t(1)] q] .
    have "free_ok tid (lift_base b)"
      using run fit res by (cases r; cases "projr r") (auto simp: lift_base_def)
    then show ?thesis
      using base_settle_outside [of "lift_base b"] None same res free_settle by (simp add: lift_base_def split: sum.splits)
  next
    case (Some u)
    then obtain p where p: "session_tasks s tid = Some (Y_goal p)" using t(2) by (cases u) auto
    have r0: "running tid {} {p} s" "at_ok tid s (Y_goal p)" using session_begin [OF inv p] by simp_all
    then have lock: "activity_lock s p = Some tid" "task_lease (task_pc t) = None" using t(1) by (auto simp: at_ok_def)
    have run: "running tid {} {p} s'" using running_quiet [OF r0(1) q] .
    have out: "running tid {} {} (leave p s')" using running_leave [OF run, of p] same lock by simp
    have st: "s'\<lparr>session_tasks := (session_tasks s')(tid \<mapsto> Y_goal p)\<rparr> = s'" using same p by (simp add: fun_upd_idem)
    show ?thesis
    proof (cases r)
      case (Inl e)
      then show ?thesis
        using base_settle_inside(1) [of s' tid p] same p res settle_running(1) [OF out] by (simp add: lift_base_def)
    next
      case (Inr c)
      show ?thesis
      proof (cases c)
        case (Done v)
        then show ?thesis
          using base_settle_inside(2) [of s' tid p] same p res Inr settle_running(2) [OF out] by (simp add: lift_base_def)
      next
        case (Suspend pc')
        have "kind (task_pc t) (Suspend pc')" using b res Inr Suspend by (simp add: seg_def)
        then have lease: "task_lease pc' = None" using kind_task_lease lock(2) by metis
        have "session_inv (settle tid a (s', Inr (Suspend pc')))" for a
          using overlay_suspend [OF run _ lease fit, of a] st same lock Inr Suspend by simp
        moreover have "end_message tid (settle tid a (s', Inr (Suspend pc'))) = settle tid a (s', Inr (Suspend pc'))" for a
          using same p by (simp add: end_message_def settle_def)
        ultimately show ?thesis using res Inr Suspend by (simp add: lift_base_def base_settle_def)
      qed
    qed
  qed
qed

section \<open>The overridden coroutines of a session lease\<close>

lemma session_tasks_failed: "session_failed now j r s = (s', res) \<Longrightarrow> session_tasks s' = session_tasks s"
  by (auto simp: session_failed_def st_update_def pop_lease_peer_def and_then_def split: option.splits if_splits prod.splits sum.splits)

lemma session_tasks_finish [simp]: "session_tasks (deliver_finish l s) = session_tasks s"
  by (simp add: deliver_finish_def pop_delivery_def pop_lease_peer_def Let_def split: option.splits)

lemma session_tasks_deliver: "session_tasks (fst (s_deliver now l s)) = session_tasks s"
  using session_tasks_failed by (auto simp: s_deliver_def s_deliver_raise_def split: sum.splits prod.splits)

lemma s_expire_free:
  assumes run: "running tid {} {} s" and l: "lease_at s (job_id l) = Some cur" "wake_mode cur = M_session" "wake_mode l = M_session"
  shows "free_ok tid (lift_base (s_expire now l s))" and "session_tasks (fst (s_expire now l s)) = session_tasks s"
proof -
  obtain s' res where f: "session_failed now (job_id l) ''session completion or handoff acknowledgement deadline expired'' s = (s', res)"
    by fastforce
  have r: "running tid {} {} s'" "res = Inr ()" using session_failed_run [OF run l(1,2) _ f] by simp_all
  have "running tid {} {} (pop_deadline l s')"
    by (rule running_quiet [OF r(1)]) (use r(1) in \<open>simp add: running_def\<close>)
  then show "free_ok tid (lift_base (s_expire now l s))" using f r l(3) by (simp add: s_expire_def lift_base_def)
  show "session_tasks (fst (s_expire now l s)) = session_tasks s"
    using f r l(3) session_tasks_failed [OF f] by (simp add: s_expire_def pop_deadline_def)
qed

lemma overridden_run_inv:
  assumes inv: "session_inv s" and t: "tasks s tid = Some t" "in_base (session_tasks s tid)" "overridden (task_pc t)"
    and res: "base_run now tid (task_pc t) s = Some res"
  shows "session_inv (base_settle tid (task_pc t) res)"
proof -
  have "task_lease (task_pc t) \<noteq> None" using t(3) by (cases "task_pc t") (simp_all add: task_lease_def)
  then have none: "session_tasks s tid = None"
    using t(1,2) session_begin(2) [OF inv, of tid]
    by (cases "session_tasks s tid" rule: in_base.cases) (auto simp: at_ok_def)
  have run: "running tid {} {} s" using base_begin [OF inv none t(1)] .
  show ?thesis
  proof (cases "task_pc t")
    case (W_start l)
    then have r: "res = s_deliver now l s" "wake_mode l = M_session" using res t(3) by auto
    have "session_inv (s_settle tid (answers_client (task_pc t)) (s_deliver now l s))"
      by (rule s_deliver_settle [OF inv none t(1) W_start r(2)])
    then show ?thesis using base_settle_outside [of res tid] session_tasks_deliver r none by simp
  next
    case (X_sleep l)
    then have r: "res = lift_base (s_expire now l s)" "wake_mode l = M_session" using res t(3) by (auto split: if_splits)
    have "lease_known s l" using inv t(1) X_sleep unfolding session_inv_def tinv_def modes_ok_def by (auto simp: task_lease_def)
    then obtain cur where cur: "lease_at s (job_id l) = Some cur" "wake_mode cur = M_session"
      using r(2) by (auto simp: lease_known_def lease_key_def)
    note e = s_expire_free [OF run cur r(2), of now]
    have "session_tasks (fst res) tid = None" using e(2) none r(1) by (simp add: lift_base_def split: prod.splits sum.splits)
    then show ?thesis using base_settle_outside [of res tid] free_settle [OF e(1)] r(1) by simp
  qed (use t(3) in simp_all)
qed

section \<open>Events of a connection\<close>

lemma inv_quiet: "session_inv s \<Longrightarrow> qt s s' \<Longrightarrow> session_inv s'"
  using gentle_sv by (auto simp: session_inv_def qt_def)

lemma sv_calls_new:
  assumes a: "sv x E L s" and ok: "calls_ok (s\<lparr>calls := cs\<rparr>)"
  shows "sv x E L (s\<lparr>calls := cs\<rparr>)"
proof -
  let ?s = "s\<lparr>calls := cs\<rparr>"
  have f: "sp x ?s = sp x s" "live_job ?s = live_job s" "controls ?s = controls s" "goal_job ?s = goal_job s"
    "free_id ?s = free_id s" "point_ok ?s = point_ok s"
    by (simp_all add: sp_def live_job_def controls_def goal_job_def free_id_def point_ok_def fun_eq_iff)
  have w: "waking x ?s = waking x s" by (simp add: waking_def f fun_eq_iff)
  show ?thesis
    using a ok unfolding sv_def points_def locks_def same_peer_def leases_def f w by simp
qed

lemma sv_calls: "sv x E L s \<Longrightarrow> set cs \<subseteq> set (calls s) \<Longrightarrow> sv x E L (s\<lparr>calls := cs\<rparr>)"
proof (rule sv_calls_new)
  assume "sv x E L s" "set cs \<subseteq> set (calls s)"
  then show "calls_ok (s\<lparr>calls := cs\<rparr>)" unfolding sv_def calls_ok_def by simp blast
qed

lemma user_activity_quiet:
  assumes t: "tinv s" and u: "user_activity now thr s = (s', r)"
  defines "s1 \<equiv> s\<lparr>calls := filter (\<lambda>((t, _), _). t \<noteq> thr) (calls s)\<rparr>"
  shows "r = Inr ()" and "qt s1 s'"
    and "db_live_for_thread (store s') thr = Some l \<Longrightarrow> wake_mode l = M_session \<Longrightarrow> delivery_state l = D_activating"
proof -
  have q: "qt s1 s1" using t by (simp add: s1_def)
  have st: "store s1 = store s" by (simp add: s1_def)
  have ua: "user_activity now thr s = (case db_live_for_thread (store s1) thr of None \<Rightarrow> (s1, Inr ())
      | Some lease \<Rightarrow> if wake_mode lease = M_session
          then s_abandon now thr ''User activity superseded automatic continuation'' s1 else (s1, Inr ()))"
    unfolding user_activity_def s1_def Let_def by simp
  have t1: "tinv s1" using q by simp
  have "r = Inr () \<and> qt s1 s' \<and> (\<forall>l. db_live_for_thread (store s') thr = Some l \<longrightarrow> wake_mode l = M_session \<longrightarrow>
      delivery_state l = D_activating)"
  proof (cases rule: s_abandon_effect [OF t1, of thr now "''User activity superseded automatic continuation''", case_names none kept gone])
    case none
    then show ?thesis using u q by (simp add: ua)
  next
    case (kept l)
    then show ?thesis using u q by (auto simp: ua split: if_splits)
  next
    case (gone l s2)
    have ok: "store_ok (store s1)" "store_ok (store s2)" using t1 gone(4) by (auto simp: tinv_def qt_def)
    show ?thesis
    proof (cases "wake_mode l = M_session")
      case False
      then show ?thesis using u q gone by (auto simp: ua)
    next
      case True
      then have s': "s' = s2" "r = Inr ()" using u gone by (simp_all add: ua)
      have "db_live_for_thread (store s2) thr \<noteq> Some m" if m: "wake_mode m = M_session" for m
      proof
        assume a: "db_live_for_thread (store s2) thr = Some m"
        note lm = live_lease [OF ok(2) a]
        have "gentle s1 s2" using gone(4) by (simp add: qt_def)
        then obtain n where n: "lease_at s1 (job_id m) = Some n" "lease_key m = lease_key n" "m = n \<or> retired n m"
          using gentle_lease_back lm(1) m by metis
        then have "m = n" using retired_not_live lm(2) by blast
        then have "db_live_for_thread (store s1) thr = Some m"
          using n(1) lm db_live_for_thread_iff [OF ok(1)] by auto
        then have "m = l" using gone(1) by simp
        then show False using gone(5) lm(1,2) not_live_fields(2) by (metis option.inject)
      qed
      then show ?thesis using s' gone(4) by auto
    qed
  qed
  then show "r = Inr ()" and "qt s1 s'"
    and "db_live_for_thread (store s') thr = Some l \<Longrightarrow> wake_mode l = M_session \<Longrightarrow> delivery_state l = D_activating"
    by auto
qed

lemma user_activity_inv:
  assumes inv: "session_inv s" and u: "user_activity now thr s = (s', r)"
  shows "session_inv s'" "r = Inr ()"
proof -
  have t: "tinv s" using inv by (simp add: session_inv_def)
  let ?s1 = "s\<lparr>calls := filter (\<lambda>((t, _), _). t \<noteq> thr) (calls s)\<rparr>"
  have "session_inv ?s1" using inv sv_calls [of None "{}" "{}" s] by (auto simp: session_inv_def)
  then show "session_inv s'" using inv_quiet user_activity_quiet(2) [OF t u] by blast
  show "r = Inr ()" using user_activity_quiet(1) [OF t u] .
qed

lemma user_activity_run:
  assumes run: "running tid E L s" and u: "user_activity now thr s = (s', r)"
  shows "running tid E L s'" "r = Inr ()" "activity_lock s' = activity_lock s" "session_tasks s' = session_tasks s"
    "peers s' = peers s" "map_option task_pc (tasks s' tid) = map_option task_pc (tasks s tid)"
proof -
  have t: "tinv s" using run by (simp add: running_def)
  let ?s1 = "s\<lparr>calls := filter (\<lambda>((t, _), _). t \<noteq> thr) (calls s)\<rparr>"
  have r1: "running tid E L ?s1" using run sv_calls [of "Some tid" E L s] by (auto simp: running_def free_id_def)
  note q = user_activity_quiet [OF t u]
  show "running tid E L s'" using running_quiet [OF r1 q(2)] .
  show "r = Inr ()" by (rule q(1))
  have "gentle ?s1 s'" using q(2) by (simp add: qt_def)
  then show "activity_lock s' = activity_lock s" "session_tasks s' = session_tasks s" "peers s' = peers s"
    "map_option task_pc (tasks s' tid) = map_option task_pc (tasks s tid)"
    using gentle_id(2) [of ?s1 s' tid] run by (simp_all add: gentle_def gentle_rest_def running_def)
qed

lemma activity_of_run:
  "running tid E L s \<Longrightarrow> activity_of now p ps s = (s', r) \<Longrightarrow>
     running tid E L s' \<and> r = Inr () \<and> activity_lock s' = activity_lock s \<and> session_tasks s' = session_tasks s
     \<and> map_option task_pc (tasks s' tid) = map_option task_pc (tasks s tid)"
proof (induction now p ps s rule: activity_of.induct)
  case (2 now p thr q ps s)
  show ?case
  proof (cases "q = p")
    case True
    obtain s1 r1 where u: "user_activity now thr s = (s1, r1)" by fastforce
    note a = user_activity_run [OF 2(3) u]
    show ?thesis using 2(1) [OF True a(1)] 2(4) True u a by auto
  qed (use 2 in auto)
qed simp

lemma user_control_end: "user_goal_control s_abandon now thr s = (s', Inr c) \<Longrightarrow> c = Suspend (U_lock thr)"
  by (auto simp: user_goal_control_def and_then_def split: prod.splits sum.splits)

lemma message_run_inv:
  assumes inv: "session_inv s" and t: "session_tasks s tid = Some (Y_lock p msg)" and m: "message_run now tid p msg s = Some s'"
  shows "session_inv s'"
proof -
  have free: "activity_lock s p = None" using m by (auto simp: message_run_def split: if_splits)
  have c: "client_run tid p (enter p tid s)" using begin_client(2) [OF inv t] free by simp
  let ?s = "enter p tid s"
  have run: "running tid {} {p} ?s" and lock: "activity_lock ?s p = Some tid" and none: "tasks ?s tid = None"
    using c by (simp_all add: client_run_def)
  define params where "params = jget_default ''params'' (JObj []) msg"
  define thr where "thr = (if is_dict params then jget ''threadId'' params else JNull)"
  obtain s1 r1 where a: "(if is_str thr then user_activity now (str_of_json thr) ?s else activity_of now p (peers ?s) ?s) = (s1, r1)"
    by fastforce
  have s1: "running tid {} {p} s1" "r1 = Inr ()" "activity_lock s1 = activity_lock ?s" "tasks s1 tid = None"
    using user_activity_run [OF run, of now "str_of_json thr" s1 r1] activity_of_run [OF run, of now p "peers ?s" s1 r1] a none
    by (auto split: if_splits)
  have lock1: "activity_lock s1 p = Some tid" using s1(3) lock by simp
  let ?goal = "is_str thr \<and> jget ''method'' msg \<in> {JStr ''thread/goal/set'', JStr ''thread/goal/clear''}"
  have ml: "message_locked now p msg ?s = (if ?goal
      then and_then (user_goal_control s_abandon now (str_of_json thr) s1) (\<lambda>c s. (s, Inr (Base c)))
      else (peer_send p [] (Forward msg) s1, Inr (At (Y_send p))))"
    using a s1(2) unfolding message_locked_def params_def thr_def Let_def by simp
  show ?thesis
  proof (cases ?goal)
    case False
    have run2: "running tid {} {p} (peer_send p [] (Forward msg) s1)" using running_peer_send [OF s1(1)] by simp
    have "at_ok tid (peer_send p [] (Forward msg) s1) (Y_send p)"
      using lock1 s1(4) by (simp add: at_ok_def point_ok_def peer_send_def)
    then have "session_inv (s_settle tid False (peer_send p [] (Forward msg) s1, Inr (At (Y_send p))))"
      using settle_at [OF run2] by simp
    moreover have "s' = s_settle tid False (peer_send p [] (Forward msg) s1, Inr (At (Y_send p)))"
      using m free ml False unfolding message_run_def by auto
    ultimately show ?thesis by simp
  next
    case True
    obtain s2 r2 where u: "user_goal_control s_abandon now (str_of_json thr) s1 = (s2, r2)" by fastforce
    have q1: "qt s1 s1" using s1(1) by (simp add: running_def)
    have q: "qt s1 s2" using user_control_seg(1) [OF q1, of now "str_of_json thr"] u by (simp add: seg_def)
    have run2: "running tid {} {p} s2" using running_quiet [OF s1(1) q] .
    have gentle: "gentle s1 s2" using q by (simp add: qt_def)
    then have same: "activity_lock s2 = activity_lock s1" by (simp add: gentle_def gentle_rest_def)
    have "map_option task_pc (tasks s2 tid) = map_option task_pc (tasks s1 tid)"
      using gentle_id(2) [OF gentle] s1(1) by (simp add: running_def)
    then have none2: "tasks s2 tid = None" using s1(4) by simp
    show ?thesis
    proof (cases r2)
      case (Inl e)
      have "running tid {} {} (leave p s2)" using running_leave [OF run2, of p] same lock1 by simp
      moreover have "s' = s_settle tid False (leave p s2, Inl e)"
        using m free ml True u Inl unfolding message_run_def by auto
      ultimately show ?thesis using settle_running(1) by simp
    next
      case (Inr c)
      then have cc: "c = Suspend (U_lock (str_of_json thr))" using user_control_end u by simp
      have fit: "task_fit s2 tid (U_lock (str_of_json thr))"
        using run2 none2 by (simp add: running_def free_id_def task_fit_def)
      have "s' = settle tid False (s2\<lparr>session_tasks := (session_tasks s2)(tid \<mapsto> Y_goal p)\<rparr>, Inr c)"
        using m free ml True u Inr unfolding message_run_def by auto
      then show ?thesis using overlay_suspend [OF run2 _ _ fit] same lock1 cc by simp
    qed
  qed
qed

lemma sv_peers:
  assumes sv: "sv x E L s" and p: "\<And>q. map_of (peers s) thr = Some q \<Longrightarrow> q = p"
  shows "sv x E L (s\<lparr>peers := AList.update thr p (peers s)\<rparr>)"
proof -
  let ?s = "s\<lparr>peers := AList.update thr p (peers s)\<rparr>"
  have keep: "map_of (peers ?s) k = Some q" if "map_of (peers s) k = Some q" for k q
    using that p by (auto simp: update_conv')
  have f: "sp x ?s = sp x s" "live_job ?s = live_job s" "controls ?s = controls s" "goal_job ?s = goal_job s"
    "free_id ?s = free_id s"
    by (simp_all add: sp_def live_job_def controls_def goal_job_def free_id_def fun_eq_iff)
  have w: "waking x ?s = waking x s" by (simp add: waking_def f fun_eq_iff)
  have "point_ok ?s tid pc" if "point_ok s tid pc" for tid pc
    using that keep unfolding point_ok_def by simp blast
  then have "points x ?s" using sv unfolding sv_def points_def f by simp
  moreover have "calls_ok ?s" using sv keep unfolding sv_def calls_ok_def by simp
  ultimately show ?thesis
    using sv unfolding sv_def locks_def same_peer_def leases_def f w by simp
qed

lemma inv_peers:
  "session_inv s \<Longrightarrow> (\<And>q. map_of (peers s) thr = Some q \<Longrightarrow> q = p) \<Longrightarrow>
     session_inv (s\<lparr>peers := AList.update thr p (peers s)\<rparr>)"
  using sv_peers by (simp add: session_inv_def)

lemma inv_calls: "session_inv s \<Longrightarrow> set cs \<subseteq> set (calls s) \<Longrightarrow> session_inv (s\<lparr>calls := cs\<rparr>)"
  using sv_calls by (simp add: session_inv_def)

lemma inv_frame [simp]:
  "session_inv (s\<lparr>turn_done := d\<rparr>) = session_inv s" "session_inv (s\<lparr>ambiguous_threads := m\<rparr>) = session_inv s"
  "session_inv (s\<lparr>call_changed := c\<rparr>) = session_inv s"
  by (simp_all add: session_inv_def)

lemma inv_set_event [simp]: "session_inv (set_event thr s) = session_inv s"
  by (simp add: session_inv_def set_event_def tinv_defs)

lemma inv_abandon: "session_inv s \<Longrightarrow> s_abandon now thr r s = (s', res) \<Longrightarrow> session_inv s' \<and> res = Inr ()"
proof -
  assume inv: "session_inv s" and a: "s_abandon now thr r s = (s', res)"
  have q: "qt s s" using inv by (simp add: session_inv_def)
  show ?thesis using inv_quiet [OF inv qt_abandon(1) [OF q a]] qt_abandon(2) [OF q a] by simp
qed

lemma inv_abandon_fst [simp]: "session_inv s \<Longrightarrow> session_inv (fst (s_abandon now thr r s))"
  using inv_abandon [of s now thr r] by (cases "s_abandon now thr r s") simp

lemma trim_set: "set (trim_calls cs) \<subseteq> set cs"
  by (induction cs) auto

lemma update_set: "set (AList.update k v xs) \<subseteq> insert (k, v) (set xs)"
  by (induction xs) auto

lemma update_other: "((thr, c), (u, q)) \<in> set (AList.update k v xs) \<Longrightarrow>
    ((thr, c), (u, q)) = (k, v) \<or> ((thr, c), (u, q)) \<in> set xs"
  using update_set by fastforce

lemma observe_item_inv:
  assumes inv: "session_inv s" and p: "\<And>q. map_of (peers s) thr = Some q \<Longrightarrow> q = p"
  shows "session_inv (observe_item p thr params s)"
proof -
  let ?s = "s\<lparr>peers := AList.update thr p (peers s)\<rparr>"
  let ?cs = "\<lambda>c u. trim_calls (AList.update (thr, c) (u, p) (calls s))"
  have i: "session_inv ?s" using inv_peers [OF inv p] .
  have "calls_ok (?s\<lparr>calls := ?cs c u\<rparr>)" for c u
  proof -
    have ok: "calls_ok ?s" using i by (simp add: session_inv_def sv_def)
    show ?thesis
      unfolding calls_ok_def
    proof (intro allI impI)
      fix t d v q
      assume "((t, d), (v, q)) \<in> set (calls (?s\<lparr>calls := ?cs c u\<rparr>))"
      then have "((t, d), (v, q)) \<in> set (?cs c u)" by simp
      from update_other [OF subsetD [OF trim_set this]] show "map_of (peers (?s\<lparr>calls := ?cs c u\<rparr>)) t = Some q"
        using ok [unfolded calls_ok_def, rule_format, of t d v q] by (auto simp: update_conv')
    qed
  qed
  then have "session_inv (?s\<lparr>calls := ?cs c u\<rparr>)" for c u
    using i sv_calls_new [of None "{}" "{}" ?s "?cs c u"] by (simp add: session_inv_def)
  moreover have "?s\<lparr>calls := ?cs c u\<rparr> = s\<lparr>calls := ?cs c u, peers := AList.update thr p (peers s)\<rparr>" for c u
    by simp
  ultimately show ?thesis using inv by (simp add: observe_item_def Let_def)
qed

lemma observe_started_inv:
  assumes inv: "session_inv s" and p: "\<And>q. map_of (peers s) thr = Some q \<Longrightarrow> q = p"
  shows "session_inv (fst (observe_started now p thr params s))"
  using inv_peers [OF inv p]
  by (auto simp: observe_started_def Let_def split: sum.splits option.splits)

lemma observe_completed_inv:
  assumes inv: "session_inv s"
  shows "session_inv (fst (observe_completed now thr params s))"
proof -
  have "session_inv (fst (and_then
      (case db_live_for_thread (store s') thr of
         None \<Rightarrow> (s', Inr ())
       | Some lease \<Rightarrow>
           if wake_mode lease = M_session \<and> turn_id lease = Some turn
              \<and> handoff_state lease \<notin> {H_interrupting, H_ready}
           then s_abandon now thr ''Originating turn ended before handoff'' s' else (s', Inr ()))
      (\<lambda>_ s. (s\<lparr>calls := filter (\<lambda>((t, _), (u, _)). \<not> (t = thr \<and> u = turn)) (calls s)\<rparr>, Inr ()))))"
    if s': "session_inv s'" for s' turn
  proof -
    define m where "m = (case db_live_for_thread (store s') thr of
         None \<Rightarrow> (s', Inr ())
       | Some lease \<Rightarrow>
           if wake_mode lease = M_session \<and> turn_id lease = Some turn
              \<and> handoff_state lease \<notin> {H_interrupting, H_ready}
           then s_abandon now thr ''Originating turn ended before handoff'' s' else (s', Inr ()))"
    obtain s1 r1 where s1: "m = (s1, r1)" by (cases m)
    then have "session_inv s1 \<and> r1 = Inr ()"
      using s' inv_abandon [OF s'] by (auto simp: m_def split: option.splits if_splits)
    then show ?thesis unfolding m_def [symmetric] using s1 by (auto intro!: inv_calls)
  qed
  then show ?thesis
    using inv by (auto simp: observe_completed_def Let_def split: sum.splits json.splits)
qed

lemma observe_inv:
  assumes inv: "session_inv s"
  shows "session_inv (fst (observe now p meth params s))"
proof -
  have ua: "session_inv (fst (user_activity now thr (s\<lparr>ambiguous_threads := m\<rparr>)))" for thr m
    using user_activity_inv(1) [of "s\<lparr>ambiguous_threads := m\<rparr>" now thr] inv
    by (cases "user_activity now thr (s\<lparr>ambiguous_threads := m\<rparr>)") simp
  have comp: "session_inv (fst (and_then (observe_completed now thr params s) (\<lambda>_ s. (set_event thr s, Inr ()))))" for thr
    using observe_completed_inv [OF inv, of now thr params]
    by (cases "observe_completed now thr params s"; cases "snd (observe_completed now thr params s)") simp_all
  have known: "q = p" if "\<not> (meth \<in> {''item/started'', ''turn/started''} \<and> map_of (peers s) thr \<notin> {None, Some p})"
    "meth \<in> {''item/started'', ''turn/started''}" "map_of (peers s) thr = Some q" for thr q
    using that by auto
  show ?thesis
  proof (cases "jget ''threadId'' params")
    case (JStr thr)
    consider (amb) "meth \<in> {''item/started'', ''turn/started''}" "map_of (peers s) thr \<notin> {None, Some p}"
      | (item) "meth = ''item/started''" "map_of (peers s) thr \<in> {None, Some p}"
      | (turn) "meth = ''turn/started''" "map_of (peers s) thr \<in> {None, Some p}"
      | (rest) "meth \<notin> {''item/started'', ''turn/started''}" by blast
    then show ?thesis
    proof cases
      case amb
      then show ?thesis using JStr ua by (auto simp: observe_def)
    next
      case item
      then have "session_inv (observe_item p thr params s)" by (intro observe_item_inv [OF inv]) auto
      then show ?thesis using JStr item by (auto simp: observe_def)
    next
      case turn
      then have "session_inv (fst (observe_started now p thr params s))" by (intro observe_started_inv [OF inv]) auto
      then show ?thesis using JStr turn by (auto simp: observe_def)
    next
      case rest
      then show ?thesis using JStr inv comp [of thr] by (simp add: observe_def)
    qed
  qed (simp_all add: observe_def inv)
qed

lemma sv_drop_peer:
  assumes sv: "sv None E L s" and t: "tinv s" and c: "\<And>c u q. ((thr, c), (u, q)) \<notin> set (calls s)"
    and l: "\<And>l. db_live_for_thread (store s) thr = Some l \<Longrightarrow> wake_mode l = M_session \<Longrightarrow> delivery_state l = D_activating"
  shows "sv None E L (s\<lparr>peers := AList.delete thr (peers s)\<rparr>)"
proof -
  let ?s = "s\<lparr>peers := AList.delete thr (peers s)\<rparr>"
  have ok: "store_ok (store s)" using t by (simp add: tinv_def)
  have f: "sp x ?s = sp x s" "live_job ?s = live_job s" "controls ?s = controls s" "goal_job ?s = goal_job s"
    "free_id ?s = free_id s" for x
    by (simp_all add: sp_def live_job_def controls_def goal_job_def free_id_def fun_eq_iff)
  have w: "waking x ?s = waking x s" for x by (simp add: waking_def f fun_eq_iff)
  have "point_ok ?s tid pc" if p: "point_ok s tid pc" for tid pc
    unfolding point_ok_def
  proof (intro allI impI)
    fix m p
    assume serv: "serving pc = Some (m, p)"
    then obtain cur where cur: "lease_at s (job_id m) = Some cur" "lease_key cur = lease_key m" "wake_mode m = M_session"
      "is_live cur \<longrightarrow> delivery_state cur \<noteq> D_activating \<longrightarrow> map_of (peers s) (thread_id m) = Some p"
      "point_phase pc cur" "is_D_start pc \<longrightarrow> (is_live cur \<longrightarrow> map_of (lease_peers s) (job_id m) \<in> {None, Some p})
         \<and> (\<exists>t. tasks s tid = Some t \<and> \<not> cancelled t)"
      using p unfolding point_ok_def by blast
    have "thread_id m \<noteq> thr" if "is_live cur" "delivery_state cur \<noteq> D_activating"
    proof
      assume "thread_id m = thr"
      then have "db_live_for_thread (store s) thr = Some cur" "wake_mode cur = M_session"
        using cur(1,2,3) that(1) db_live_for_thread_iff [OF ok] by (auto simp: lease_key_def)
      then show False using l that(2) by blast
    qed
    then have "is_live cur \<longrightarrow> delivery_state cur \<noteq> D_activating \<longrightarrow> map_of (peers ?s) (thread_id m) = Some p"
      using cur(4) by (simp add: delete_conv')
    then show "\<exists>cur. lease_at ?s (job_id m) = Some cur \<and> lease_key cur = lease_key m \<and> wake_mode m = M_session
        \<and> (is_live cur \<longrightarrow> delivery_state cur \<noteq> D_activating \<longrightarrow> map_of (peers ?s) (thread_id m) = Some p)
        \<and> point_phase pc cur \<and> (is_D_start pc \<longrightarrow> (is_live cur \<longrightarrow> map_of (lease_peers ?s) (job_id m) \<in> {None, Some p})
          \<and> (\<exists>t. tasks ?s tid = Some t \<and> \<not> cancelled t))"
      using cur by simp
  qed
  then have "points None ?s" using sv unfolding sv_def points_def f by simp
  moreover have "calls_ok ?s" using sv c unfolding sv_def calls_ok_def by (auto simp: delete_conv')
  ultimately show ?thesis
    using sv unfolding sv_def locks_def same_peer_def leases_def f w by simp
qed

lemma drop_threads_inv:
  "session_inv s \<Longrightarrow> drop_threads now p ps s = (s', r) \<Longrightarrow> session_inv s' \<and> r = Inr ()"
proof (induction now p ps s rule: drop_threads.induct)
  case (2 now p thr q ps s)
  show ?case
  proof (cases "q = p")
    case True
    obtain s1 r1 where u: "user_activity now thr s = (s1, r1)" by fastforce
    have t: "tinv s" using 2(3) by (simp add: session_inv_def)
    have i: "session_inv s1" "r1 = Inr ()" using user_activity_inv [OF 2(3) u] by simp_all
    note ua = user_activity_quiet [OF t u]
    have "calls s1 = filter (\<lambda>((t, _), _). t \<noteq> thr) (calls s)"
      using ua(2) by (simp add: qt_def gentle_def gentle_rest_def)
    then have "\<And>c u q. ((thr, c), (u, q)) \<notin> set (calls s1)" by auto
    then have "session_inv (s1\<lparr>peers := AList.delete thr (peers s1)\<rparr>)"
      using sv_drop_peer [OF _ _ _ ua(3)] i(1) by (simp add: session_inv_def)
    then have "session_inv (s1\<lparr>peers := AList.delete thr (peers s1), ambiguous_threads := ambiguous_threads s1 - {thr}\<rparr>)"
      by simp
    from 2(1) [OF True this] show ?thesis using 2(4) True u i(2) by simp
  qed (use 2 in auto)
qed simp

lemma drop_leases_inv:
  "session_inv s \<Longrightarrow> drop_leases now p ps s = (s', r) \<Longrightarrow> session_inv s' \<and> r = Inr ()"
proof (induction now p ps s rule: drop_leases.induct)
  case (2 now p j q ps s)
  show ?case
  proof (cases "q = p")
    case True
    obtain s1 r1 where u: "(case db_get (store s) j of
        None \<Rightarrow> (s, Inr ()) | Some lease \<Rightarrow> user_activity now (thread_id lease) s) = (s1, r1)" by fastforce
    have i: "session_inv s1" "r1 = Inr ()"
      using u 2(3) user_activity_inv [OF 2(3)] by (auto split: option.splits)
    then have "qt s1 (pop_lease_peer j s1)" using qt_pop_lease_peer [of s1 s1] by (simp add: session_inv_def)
    then have "session_inv (pop_lease_peer j s1)" using inv_quiet i(1) by blast
    from 2(1) [OF True this] show ?thesis using 2(4) True u i(2) by simp
  qed (use 2 in auto)
qed simp

lemma disconnected_inv:
  assumes inv: "session_inv s"
  shows "session_inv (fst (disconnected now p s))"
proof -
  obtain s1 r1 where d1: "drop_threads now p (peers s) s = (s1, r1)" by fastforce
  note i1 = drop_threads_inv [OF inv d1]
  obtain s2 r2 where d2: "drop_leases now p (lease_peers s1) s1 = (s2, r2)" by fastforce
  have i2: "session_inv s2 \<and> r2 = Inr ()" using drop_leases_inv d2 i1 by blast
  then have "session_inv (s2\<lparr>calls := filter (\<lambda>(_, (_, q)). q \<noteq> p) (calls s2)\<rparr>)" by (auto intro: inv_calls)
  then show ?thesis using d1 d2 i1 i2 by (simp add: disconnected_def)
qed

section \<open>Restarts\<close>

lemma recover_lease_seg:
  assumes t: "tinv s" and l: "lease_at s (job_id l) = Some l" "wake_mode l = M_goal"
  shows "seg s (\<lambda>_. True) (recover_lease now l s)"
    and "k \<noteq> job_id l \<Longrightarrow> lease_at (fst (recover_lease now l s)) k = lease_at s k"
proof -
  have q: "qt s s" and g: "goal_job s (job_id l)" using t l by (simp_all add: goal_job_def)
  have u: "seg s (\<lambda>_. True) (and_then (st_update now (job_id l) fs s) (\<lambda>_ s. (s, Inr ())))" for fs
    by (rule seg_update [OF q g]) simp
  have sch: "qt s (schedule_delivery l s)" "qt s (schedule_deadline l s)"
    using qt_schedule [OF q lease_known_stored [OF l(1)]] by simp_all
  show "seg s (\<lambda>_. True) (recover_lease now l s)"
    using u sch by (simp add: recover_lease_def Let_def split: delivery_state.splits lease_state.splits)
  have ok: "store_ok (store s)" using t by (simp add: tinv_def)
  have other: "lease_at (fst (and_then (st_update now (job_id l) fs s) (\<lambda>_ s. (s, Inr ())))) k = lease_at s k"
    if k: "k \<noteq> job_id l" for fs
  proof (cases "st_update now (job_id l) fs s")
    case (Pair s' r)
    from Pair ok show ?thesis by (cases rule: session_update_cases) (use Pair k in \<open>simp_all add: db_get_put\<close>)
  qed
  show "lease_at (fst (recover_lease now l s)) k = lease_at s k" if "k \<noteq> job_id l"
    using other [OF that]
    by (simp add: recover_lease_def Let_def schedule_delivery_def schedule_deadline_def spawn_def
        split: delivery_state.splits lease_state.splits)
qed

lemma sv_forget:
  assumes sv: "sv None E L s" and E: "E \<subseteq> insert j E'" and j: "\<And>l. lease_at s j = Some l \<Longrightarrow> wake_mode l = M_session \<Longrightarrow> \<not> is_live l"
  shows "sv None E' L s"
proof -
  have l: "leases None E s" using sv by (simp add: sv_def)
  have "k \<in> E' \<or> waking None s k"
    if "lease_at s k = Some m" "wake_mode m = M_session" "is_live m" "delivery_state m = D_activating" for k m
    using l that E j unfolding leases_def by blast
  then have "leases None E' s" using l unfolding leases_def by simp
  then show ?thesis using sv by (simp add: sv_def)
qed

lemma recover_session_inv:
  assumes t: "tinv s" "sv None E {} s" and l: "lease_at s (job_id l) = Some l" "wake_mode l = M_session" "is_live l"
    and E: "E \<subseteq> insert (job_id l) E'" and r: "s_recover_lease now l s = (s', Inr ())"
  shows "tinv s'" "sv None E' {} s'" "lease_at s' k = (if k = job_id l then Some (set_fields (failed_fields
      ''coordinator restarted; session ownership must be re-established manually'') l) else lease_at s k)"
    "peer_sent s' = peer_sent s"
proof -
  let ?f = "failed_fields ''coordinator restarted; session ownership must be re-established manually''"
  have ok: "store_ok (store s)" using t by (simp add: tinv_def)
  obtain s1 r1 where u: "st_update now (job_id l) ?f s = (s1, r1)" by fastforce
  have st: "s' = s\<lparr>store := db_put now (job_id l) ?f (store s)\<rparr> \<and> store_ok (db_put now (job_id l) ?f (store s))"
    using u ok by (cases rule: session_update_cases) (use r l(2) u in \<open>simp_all add: s_recover_lease_def\<close>)
  have get: "db_get (db_put now (job_id l) ?f (store s)) k = (if k = job_id l then Some (set_fields ?f l) else lease_at s k)" for k
    using l(1) by (simp add: db_get_put)
  show "lease_at s' k = (if k = job_id l then Some (set_fields ?f l) else lease_at s k)" using st get by simp
  show "peer_sent s' = peer_sent s" using st by simp
  show "tinv s'" using tinv_put [OF t(1), of now "job_id l" ?f] st by (simp add: failed_fields_def)
  have stage: "stage l (controls s (job_id l))" using t(2) l by (simp add: sv_def leases_def)
  have "sv None E' {} (s\<lparr>store := db_put now (job_id l) ?f (store s), peer_sent := peer_sent s\<rparr>)"
  proof (rule sv_store [OF t(2) get])
    show "stage (set_fields ?f l) (controls_in (peer_sent s) (job_id l))"
      using stage_dead [OF stage] by (simp add: controls_def)
    show "lease_at s (job_id l) = None \<or> (\<exists>l'. lease_at s (job_id l) = Some l' \<and> lease_key (set_fields ?f l) = lease_key l'
        \<and> (is_live (set_fields ?f l) \<longrightarrow> is_live l')
        \<and> (is_live (set_fields ?f l) \<longrightarrow> delivery_state (set_fields ?f l) \<noteq> D_activating \<longrightarrow> delivery_state l' \<noteq> D_activating)
        \<and> (\<forall>b pc m p. sp None s b pc \<longrightarrow> serving pc = Some (m, p) \<longrightarrow> job_id m = job_id l \<longrightarrow> point_phase pc l' \<longrightarrow>
              point_phase pc (set_fields ?f l)))"
      using l(1) phase_dead by (intro disjI2 exI [of _ l]) (simp add: phase_dead)
  qed (use l E in \<open>auto simp: lease_ok_def controls_def\<close>)
  then show "sv None E' {} s'" using st by simp
qed

lemma s_recover_all_inv:
  assumes "tinv s" "sv None (job_id ` set ls) {} s" "\<forall>l \<in> set ls. lease_at s (job_id l) = Some l \<and> is_live l"
    and "distinct (map job_id ls)" "s_recover_all now ls s = (s', Inr ())"
  shows "session_inv s' \<and> (\<forall>j l. lease_at s' j = Some l \<longrightarrow> wake_mode l = M_session \<longrightarrow> is_live l \<longrightarrow>
           lease_at s j = Some l \<and> j \<notin> job_id ` set ls)
         \<and> (\<forall>k. k \<notin> job_id ` set ls \<longrightarrow> lease_at s' k = lease_at s k) \<and> peer_sent s' = peer_sent s
         \<and> (\<forall>k. map_option wake_mode (lease_at s' k) = map_option wake_mode (lease_at s k))"
  using assms
proof (induction ls arbitrary: s)
  case Nil
  then show ?case by (simp add: session_inv_def)
next
  case (Cons l ls)
  obtain s1 r where r: "s_recover_lease now l s = (s1, r)" by fastforce
  then have ok: "r = Inr ()" "s_recover_all now ls s1 = (s', Inr ())"
    using Cons.prems(5) by (cases r; simp)+
  have l: "lease_at s (job_id l) = Some l" "is_live l" using Cons.prems(3) by simp_all
  have fresh: "job_id l \<notin> job_id ` set ls" using Cons.prems(4) by simp
  have step: "tinv s1 \<and> sv None (job_id ` set ls) {} s1 \<and> (\<forall>k. k \<noteq> job_id l \<longrightarrow> lease_at s1 k = lease_at s k)
      \<and> (\<forall>m. lease_at s1 (job_id l) = Some m \<longrightarrow> wake_mode m = M_session \<longrightarrow> \<not> is_live m)
      \<and> peer_sent s1 = peer_sent s \<and> map_option wake_mode (lease_at s1 (job_id l)) = map_option wake_mode (lease_at s (job_id l))"
  proof (cases "wake_mode l = M_session")
    case True
    note rs = recover_session_inv [OF Cons.prems(1,2) l(1) True l(2) _ r [unfolded ok(1)], of "job_id ` set ls"]
    show ?thesis using rs(1,2) rs(3) rs(4) l(1) by auto
  next
    case False
    note m = mode_goal [OF False]
    have rec: "recover_lease now l s = (s1, r)" using r False by (simp add: s_recover_lease_def)
    note rl = recover_lease_seg [OF Cons.prems(1) l(1) m, where now = now]
    have q: "qt s s1" using rl(1) rec by (simp add: seg_def)
    then have gentle: "gentle s s1" by (simp add: qt_def)
    have "goal_job s (job_id l)" using l(1) m by (simp add: goal_job_def)
    then have g: "goal_job s1 (job_id l)" by (rule qt_goal_job [OF q])
    have "sv None (job_id ` set (l # ls)) {} s1" using gentle_sv [OF gentle Cons.prems(2)] .
    then have "sv None (job_id ` set ls) {} s1"
      by (rule sv_forget) (use g in \<open>auto simp: goal_job_def\<close>)
    have "lease_step (lease_at s (job_id l)) (lease_at s1 (job_id l))" using gentle by (simp add: gentle_def gentle_leases_def)
    then have "map_option wake_mode (lease_at s1 (job_id l)) = map_option wake_mode (lease_at s (job_id l))"
      using l(1) by (cases "lease_at s1 (job_id l)") (auto simp: lease_key_def)
    moreover note \<open>sv None (job_id ` set ls) {} s1\<close>
    ultimately show ?thesis using q rl(2) rec g gentle by (auto simp: qt_def goal_job_def gentle_def gentle_rest_def)
  qed
  have rest: "\<forall>m \<in> set ls. lease_at s1 (job_id m) = Some m \<and> is_live m"
  proof
    fix m
    assume m: "m \<in> set ls"
    then have "job_id m \<noteq> job_id l" using fresh by (metis image_eqI)
    then show "lease_at s1 (job_id m) = Some m \<and> is_live m" using step m Cons.prems(3) by simp
  qed
  have s1: "tinv s1" "sv None (job_id ` set ls) {} s1" and d: "distinct (map job_id ls)"
    and other: "\<And>k. k \<noteq> job_id l \<Longrightarrow> lease_at s1 k = lease_at s k"
    and dead: "\<And>m. lease_at s1 (job_id l) = Some m \<Longrightarrow> wake_mode m = M_session \<Longrightarrow> \<not> is_live m"
    and sent: "peer_sent s1 = peer_sent s"
    and mode: "map_option wake_mode (lease_at s1 (job_id l)) = map_option wake_mode (lease_at s (job_id l))"
    using step Cons.prems(4) by auto
  from Cons.IH [OF s1 rest d ok(2)]
  have i: "session_inv s'"
    and u: "\<And>j m. lease_at s' j = Some m \<Longrightarrow> wake_mode m = M_session \<Longrightarrow> is_live m \<Longrightarrow>
      lease_at s1 j = Some m \<and> j \<notin> job_id ` set ls"
    and keep: "\<And>k. k \<notin> job_id ` set ls \<Longrightarrow> lease_at s' k = lease_at s1 k" and sent': "peer_sent s' = peer_sent s1"
    and mode': "\<And>k. map_option wake_mode (lease_at s' k) = map_option wake_mode (lease_at s1 k)"
    by blast+
  have modes: "map_option wake_mode (lease_at s' k) = map_option wake_mode (lease_at s k)" for k
    using mode' [of k] mode other [of k] by (cases "k = job_id l") simp_all
  have live: "lease_at s j = Some m \<and> j \<notin> job_id ` set (l # ls)"
    if m: "lease_at s' j = Some m" "wake_mode m = M_session" "is_live m" for j m
  proof -
    have "j \<noteq> job_id l" using u [OF m] m dead by blast
    then show ?thesis using u [OF m] other by simp
  qed
  have rest': "lease_at s' k = lease_at s k" if "k \<notin> job_id ` set (l # ls)" for k
  proof -
    have "k \<notin> job_id ` set ls" "k \<noteq> job_id l" using that by auto
    then show ?thesis using keep other by metis
  qed
  show ?case
    by (intro conjI allI impI; (fact i | (rule live [THEN conjunct1], assumption+) | (rule live [THEN conjunct2], assumption+)
        | (rule rest', assumption) | rule trans [OF sent' sent] | rule modes))
qed

lemma start_session_inv:
  assumes ok: "store_ok d" and np: "\<And>j l. db_get d j = Some l \<Longrightarrow> wake_mode l = M_session \<Longrightarrow> lease_state l \<noteq> L_preparing"
    and l: "\<And>j l. db_get d j = Some l \<Longrightarrow> wake_mode l = M_session \<Longrightarrow> lease_ok l \<and> stage l (controls_in ph j)"
    and g: "\<And>j. (\<And>l. db_get d j = Some l \<Longrightarrow> wake_mode l = M_goal) \<Longrightarrow> controls_in ph j = []"
    and st: "start_session now d n hist out ph = (s', Inr ())"
  shows "session_inv s'" and "lease_at s' j = Some m \<Longrightarrow> wake_mode m = M_session \<Longrightarrow> \<not> is_live m"
    and "db_get d k = Some l' \<Longrightarrow> \<not> is_live l' \<Longrightarrow> lease_at s' k = Some l'" and "peer_sent s' = ph"
    and "map_option wake_mode (lease_at s' k) = map_option wake_mode (db_get d k)"
proof -
  let ?s = "fresh_session d n hist out ph"
  have t: "tinv ?s" using ok np by (simp add: fresh_session_def tinv_defs)
  have pend: "set (db_pending d) = {l. db_get d (job_id l) = Some l \<and> is_live l}" by (rule set_db_pending [OF ok])
  have sp: "\<not> sp x ?s tid pc" for x tid pc by (simp add: sp_def fresh_session_def)
  have "leases None (job_id ` set (db_pending d)) ?s"
    unfolding leases_def
  proof (intro conjI allI impI)
    fix j m
    assume m: "lease_at ?s j = Some m" "wake_mode m = M_session"
    then have d: "db_get d j = Some m" by (simp add: fresh_session_def)
    show "lease_ok m" "stage m (controls ?s j)" using l [OF d m(2)] by (simp_all add: controls_def fresh_session_def)
    show "j \<in> job_id ` set (db_pending d) \<or> waking None ?s j" if "is_live m" "delivery_state m = D_activating"
      using d that(1) db_get_key [OF d] pend by force
  next
    fix j
    assume "goal_job ?s j"
    then show "controls ?s j = []" using g [of j] by (simp add: goal_job_def controls_def fresh_session_def)
  qed
  then have sv: "sv None (job_id ` set (db_pending d)) {} ?s"
    using sp by (simp add: sv_def locks_def points_def same_peer_def calls_ok_def) (simp add: fresh_session_def)
  have all: "\<forall>l \<in> set (db_pending d). lease_at ?s (job_id l) = Some l \<and> is_live l"
    using pend by (simp add: fresh_session_def)
  from s_recover_all_inv [OF t sv all distinct_db_pending [OF ok] st [unfolded start_session_def]]
  have inv: "session_inv s'"
    and rec: "\<And>j l. lease_at s' j = Some l \<Longrightarrow> wake_mode l = M_session \<Longrightarrow> is_live l \<Longrightarrow>
      lease_at ?s j = Some l \<and> j \<notin> job_id ` set (db_pending d)"
    and keep: "\<And>k. k \<notin> job_id ` set (db_pending d) \<Longrightarrow> lease_at s' k = lease_at ?s k"
    and sent: "peer_sent s' = peer_sent ?s"
    and mode: "\<And>k. map_option wake_mode (lease_at s' k) = map_option wake_mode (lease_at ?s k)"
    by blast+
  show "map_option wake_mode (lease_at s' k) = map_option wake_mode (db_get d k)"
    using mode [of k] by (simp add: fresh_session_def)
  show "session_inv s'" by (rule inv)
  show "peer_sent s' = ph" using sent by (simp add: fresh_session_def)
  show "lease_at s' k = Some l'" if "db_get d k = Some l'" "\<not> is_live l'"
  proof -
    have "k \<notin> job_id ` set (db_pending d)"
    proof
      assume "k \<in> job_id ` set (db_pending d)"
      then obtain m where "k = job_id m" "m \<in> set (db_pending d)" by blast
      then have "db_get d k = Some m" "is_live m" using pend by simp_all
      then show False using that by simp
    qed
    then show ?thesis using keep [of k] that by (simp add: fresh_session_def)
  qed
  show "\<not> is_live m" if "lease_at s' j = Some m" "wake_mode m = M_session"
  proof
    assume live: "is_live m"
    then have "lease_at ?s j = Some m" "j \<notin> job_id ` set (db_pending d)" using rec that by blast+
    moreover then have "db_get d j = Some m" by (simp add: fresh_session_def)
    moreover then have "job_id m = j" by (rule db_get_key)
    ultimately have "m \<in> set (db_pending d)" using live pend by simp
    then show False using \<open>job_id m = j\<close> \<open>j \<notin> job_id ` set (db_pending d)\<close> by blast
  qed
qed

section \<open>Every step\<close>

lemma session_restart_inv:
  assumes inv: "session_inv s" and st: "start_session now (store s) n hist out (peer_sent s) = (s', Inr ())"
  shows "session_inv s'" and "lease_at s' j = Some m \<Longrightarrow> wake_mode m = M_session \<Longrightarrow> \<not> is_live m"
    and "lease_at s k = Some l' \<Longrightarrow> \<not> is_live l' \<Longrightarrow> lease_at s' k = Some l'" and "peer_sent s' = peer_sent s"
    and "map_option wake_mode (lease_at s' k) = map_option wake_mode (lease_at s k)"
proof -
  have t: "store_ok (store s)" "no_prep s" using inv by (simp_all add: session_inv_def tinv_def)
  have l: "leases None {} s" using inv by (simp add: session_inv_def sv_def)
  have l1: "lease_ok l \<and> stage l (controls_in (peer_sent s) k)" if "lease_at s k = Some l" "wake_mode l = M_session" for k l
    using l that by (simp add: leases_def controls_def)
  have l2: "controls_in (peer_sent s) k = []" if "\<And>l. lease_at s k = Some l \<Longrightarrow> wake_mode l = M_goal" for k
    using l that by (simp add: leases_def controls_def goal_job_def)
  have np: "lease_state l \<noteq> L_preparing" if "lease_at s k = Some l" "wake_mode l = M_session" for k l
    using t(2) that by (simp add: no_prep_def)
  show "session_inv s'" by (rule start_session_inv(1) [OF t(1) _ _ _ st]) (fact np l1 l2)+
  show "\<not> is_live m" if "lease_at s' j = Some m" "wake_mode m = M_session"
    by (rule start_session_inv(2) [OF t(1) _ _ _ st that]) (fact np l1 l2)+
  show "lease_at s' k = Some l'" if "lease_at s k = Some l'" "\<not> is_live l'"
    by (rule start_session_inv(3) [OF t(1) _ _ _ st that]) (fact np l1 l2)+
  show "peer_sent s' = peer_sent s" by (rule start_session_inv(4) [OF t(1) _ _ _ st]) (fact np l1 l2)+
  show "map_option wake_mode (lease_at s' k) = map_option wake_mode (lease_at s k)"
    by (rule start_session_inv(5) [OF t(1) _ _ _ st]) (fact np l1 l2)+
qed

lemma session_boot_inv: "start_session now empty_db 0 [] [] [] = (s, Inr ()) \<Longrightarrow> session_inv s"
  by (rule start_session_inv(1)) (auto simp: db_get_empty controls_in_def)

lemma notify_inv: "session_inv s \<Longrightarrow> session_inv (fst (s_on_notification now meth params s))"
proof -
  assume inv: "session_inv s"
  then have "qt s s" by (simp add: session_inv_def)
  from s_on_notification_seg [OF this] show ?thesis using inv_quiet [OF inv] by (simp add: seg_def)
qed

lemma sstep_reply:
  "\<nexists>job thr req. session_tasks s tid = Some (SP_get job thr req) \<Longrightarrow> sstep (S_reply now tid r) s =
     (case tasks s tid of None \<Rightarrow> None
      | Some t \<Rightarrow> if cancelled t \<or> \<not> in_base (session_tasks s tid) then None
          else map_option (\<lambda>res. base_settle tid (task_pc t) (lift_base res)) (resume_reply now (task_pc t) (rpc_result r) s))"
  by (cases "session_tasks s tid"; cases "the (session_tasks s tid)") (simp_all cong: option.case_cong)

lemma sstep_run:
  "\<nexists>p msg. session_tasks s tid = Some (Y_lock p msg) \<Longrightarrow> sstep (S_run now tid) s =
     (if (case tasks s tid of None \<Rightarrow> False | Some t \<Rightarrow> cancelled t) then None
      else if in_base (session_tasks s tid)
      then (case tasks s tid of None \<Rightarrow> None | Some t \<Rightarrow> map_option (base_settle tid (task_pc t)) (base_run now tid (task_pc t) s))
      else map_option (s_settle tid (s_answers (the (session_tasks s tid)))) (session_run now tid (the (session_tasks s tid)) s))"
  by (cases "session_tasks s tid"; cases "the (session_tasks s tid)") (simp_all cong: option.case_cong)

lemma sstep_peer_reply:
  assumes "sstep (S_peer_reply now tid r) s = Some s'"
  obtains pc res where "session_tasks s tid = Some pc" "r \<noteq> Inl CancelledError"
    "\<And>t. tasks s tid = Some t \<Longrightarrow> \<not> cancelled t" "peer_reply now pc r s = Some res" "s' = s_settle tid (s_answers pc) res"
  using assms by (auto split: option.splits if_splits)

lemma reply_inv:
  assumes inv: "session_inv s" and st: "sstep (S_reply now tid r) s = Some s'"
  shows "session_inv s'"
proof -
  have tinv: "tinv s" using inv by (simp add: session_inv_def)
  have base: "session_inv s'"
    if b: "in_base (session_tasks s tid)" and "tasks s tid = Some t"
      "map_option (\<lambda>res. base_settle tid (task_pc t) (lift_base res)) (resume_reply now (task_pc t) (rpc_result r) s) = Some s'" for t
    using that reply_kind [OF tinv that(2)] base_settle_inv [OF inv that(2) b] by auto
  show ?thesis
  proof (cases "\<exists>job thr req. session_tasks s tid = Some (SP_get job thr req)")
    case True
    then obtain job thr req where t: "session_tasks s tid = Some (SP_get job thr req)" by blast
    have "client tid s" using begin_free [OF inv t] by simp
    then show ?thesis using st t free_settle [OF s_prepare_got_free] by auto
  next
    case False
    then have "(case tasks s tid of None \<Rightarrow> None
      | Some t \<Rightarrow> if cancelled t \<or> \<not> in_base (session_tasks s tid) then None
          else map_option (\<lambda>res. base_settle tid (task_pc t) (lift_base res)) (resume_reply now (task_pc t) (rpc_result r) s)) = Some s'"
      using st sstep_reply [of s tid now r] by simp
    then show ?thesis using base by (auto split: option.splits if_splits)
  qed
qed

lemma run_inv:
  assumes inv: "session_inv s" and st: "sstep (S_run now tid) s = Some s'"
  shows "session_inv s'"
proof -
  have tinv: "tinv s" using inv by (simp add: session_inv_def)
  have base: "session_inv s'"
    if b: "in_base (session_tasks s tid)" and t: "tasks s tid = Some t"
      and r: "base_run now tid (task_pc t) s = Some res" "s' = base_settle tid (task_pc t) res" for t res
  proof (cases "overridden (task_pc t)")
    case True
    then show ?thesis using overridden_run_inv [OF inv t b True r(1)] r(2) by simp
  next
    case False
    from run_kind [OF tinv t False r(1)] show ?thesis using base_settle_inv [OF inv t b] r(2) by metis
  qed
  show ?thesis
  proof (cases "\<exists>p msg. session_tasks s tid = Some (Y_lock p msg)")
    case True
    then show ?thesis using st message_run_inv [OF inv] by auto
  next
    case False
    then have "(if (case tasks s tid of None \<Rightarrow> False | Some t \<Rightarrow> cancelled t) then None
        else if in_base (session_tasks s tid)
        then (case tasks s tid of None \<Rightarrow> None | Some t \<Rightarrow> map_option (base_settle tid (task_pc t)) (base_run now tid (task_pc t) s))
        else map_option (s_settle tid (s_answers (the (session_tasks s tid)))) (session_run now tid (the (session_tasks s tid)) s))
      = Some s'"
      using st sstep_run [of s tid now] by simp
    then show ?thesis
      using base session_run_inv [OF inv, of tid]
      by (cases "session_tasks s tid") (auto split: option.splits if_splits)
  qed
qed

lemma sstep_inv:
  assumes inv: "session_inv s" and st: "sstep ev s = Some s'"
  shows "session_inv s'"
proof (cases ev)
  case (S_request now inp)
  then show ?thesis using st free_settle [OF s_handle_request_free [OF client_new(1) [OF inv]]] by auto
next
  case (S_reply now tid r)
  then show ?thesis using reply_inv [OF inv] st by blast
next
  case (S_peer_reply now tid r)
  from sstep_peer_reply [OF st [unfolded S_peer_reply]] show ?thesis
    using peer_reply_inv [OF inv] by metis
next
  case (S_run now tid)
  then show ?thesis using run_inv [OF inv] st by blast
next
  case (S_timeout now tid)
  then show ?thesis using st session_timeout_inv [OF inv] by (auto split: option.splits)
next
  case (S_cancel now tid)
  show ?thesis
  proof (cases "in_base (session_tasks s tid)")
    case True
    have "tinv s" using inv by (simp add: session_inv_def)
    then have "session_inv (base_settle tid (task_pc t) (lift_base (resume_cancel now (task_pc t) s)))"
      if "tasks s tid = Some t" for t
      by (intro base_settle_inv [OF inv that True] cancel_kind [OF _ that])
    then show ?thesis using st S_cancel True by (auto split: option.splits if_splits)
  next
    case False
    then show ?thesis
      using st S_cancel session_cancel_inv [OF inv, of tid] by (cases "session_tasks s tid") (auto split: option.splits if_splits)
  qed
next
  case (S_notify now meth params)
  then show ?thesis using st notify_inv [OF inv] by auto
next
  case (S_message p msg)
  have "free_ok (next_task s) (new_task s, Inr (At (Y_lock p msg)))"
    using client_new(1) [OF inv] client_at by simp
  then show ?thesis using st S_message free_settle by (auto split: if_splits)
next
  case (S_observe now p meth params)
  then show ?thesis using st observe_inv [OF inv] by auto
next
  case (S_disconnect now p)
  then show ?thesis using st disconnected_inv [OF inv] by auto
next
  case (S_restart now)
  then show ?thesis using st session_restart_inv(1) [OF inv] by (auto split: prod.splits sum.splits)
qed

theorem session_reach_inv: "session_reach s \<Longrightarrow> session_inv s"
  by (induction rule: session_reach.induct) (auto intro: session_boot_inv sstep_inv)

end
