(* ===== verification/Session_Calm.thy ===== *)
theory Session_Calm
  imports Session_Reach
begin

text \<open>
  Which steps act on a session. \<open>calm s s'\<close> says that nothing of the interrupt, the
  receipt and the wake was sent, and that no session lease that was over came back to life.
  Every step is calm but three: the replies that a handoff or a delivery goes on with.
\<close>

section \<open>Calm segments\<close>

definition over :: "session_bridge \<Rightarrow> string \<Rightarrow> bool" where
  "over s j \<longleftrightarrow> (\<exists>l. lease_at s j = Some l \<and> wake_mode l = M_session \<and> \<not> is_live l)"

definition calm :: "session_bridge \<Rightarrow> session_bridge \<Rightarrow> bool" where
  "calm s s' \<longleftrightarrow> (\<forall>j. over s j \<longrightarrow> over s' j) \<and> (\<forall>j. controls s' j = controls s j)"

lemma calm_refl [simp]: "calm s s"
  by (simp add: calm_def)

lemma calm_trans: "calm s s' \<Longrightarrow> calm s' s'' \<Longrightarrow> calm s s''"
  by (simp add: calm_def)

lemma calm_same: "store s' = store s \<Longrightarrow> peer_sent s' = peer_sent s \<Longrightarrow> calm s0 s' = calm s0 s"
  by (simp add: calm_def over_def controls_def)

lemma calm_frame [simp]:
  "calm s0 (s\<lparr>turn_done := a1\<rparr>) = calm s0 s" "calm s0 (s\<lparr>call_changed := a2\<rparr>) = calm s0 s"
  "calm s0 (s\<lparr>ambiguous_threads := a3\<rparr>) = calm s0 s" "calm s0 (s\<lparr>peers := a4\<rparr>) = calm s0 s"
  "calm s0 (s\<lparr>lease_peers := a5\<rparr>) = calm s0 s" "calm s0 (s\<lparr>calls := a6\<rparr>) = calm s0 s"
  "calm s0 (s\<lparr>activity_lock := a7\<rparr>) = calm s0 s" "calm s0 (s\<lparr>session_tasks := a8\<rparr>) = calm s0 s"
  "calm s0 (enter p tid s) = calm s0 s" "calm s0 (leave p s) = calm s0 s"
  "calm s0 (send k q s) = calm s0 s" "calm s0 (new_task s) = calm s0 s"
  "calm s0 (pop_lease_peer j s) = calm s0 s" "calm s0 (set_event thr s) = calm s0 s"
  "calm s0 (pop_turn l s) = calm s0 s" "calm s0 (pop_delivery l s) = calm s0 s" "calm s0 (pop_deadline l s) = calm s0 s"
  by (rule calm_same; simp add: enter_def leave_def send_def new_task_def pop_lease_peer_def set_event_def pop_turn_def
      pop_delivery_def pop_deadline_def)+

lemma calm_first [simp]:
  "calm (s\<lparr>calls := cs\<rparr>) = calm s" "calm (new_task s) = calm s" "calm (enter p tid s) = calm s"
  "calm (s\<lparr>ambiguous_threads := m\<rparr>) = calm s" "calm (s\<lparr>peers := ps\<rparr>) = calm s" "calm (s\<lparr>turn_done := d\<rparr>) = calm s"
  by (simp_all add: calm_def over_def controls_def fun_eq_iff new_task_def enter_def)

lemma calm_drop_deadline [simp]: "calm s0 (drop_deadline j s) = calm s0 s"
  by (rule calm_same) (simp_all add: drop_deadline_def cancel_task_def split: option.splits)

lemma calm_schedule [simp]:
  "calm s0 (schedule_delivery l s) = calm s0 s" "calm s0 (schedule_deadline l s) = calm s0 s"
  by (rule calm_same; simp add: schedule_delivery_def schedule_deadline_def spawn_def)+

lemma calm_finish [simp]: "calm s0 (deliver_finish l s) = calm s0 s"
  by (simp add: deliver_finish_def Let_def split: option.splits)

lemma calm_send [simp]: "control_of r = [] \<Longrightarrow> calm s0 (peer_send p j r s) = calm s0 s"
proof -
  assume "control_of r = []"
  then have "controls (peer_send p j r s) k = controls s k" for k by (simp add: controls_def peer_send_def)
  moreover have "over (peer_send p j r s) k = over s k" for k by (simp add: over_def peer_send_def)
  ultimately show ?thesis by (simp add: calm_def)
qed

lemma calm_settle [simp]: "calm s0 (s_settle tid a res) = calm s0 (fst res)"
  by (rule calm_same; cases res)
    (auto simp: s_settle_def settle_def split: sum.splits scoro.splits coro.splits)

lemma calm_settle_base [simp]: "calm s0 (settle tid a res) = calm s0 (fst res)"
  by (rule calm_same; cases res) (auto simp: settle_def split: sum.splits coro.splits)

lemma calm_end_message [simp]: "calm s0 (end_message tid s) = calm s0 s"
  by (simp add: end_message_def split: option.splits session_pc.splits)

lemma calm_base_settle [simp]: "calm s0 (base_settle tid pc res) = calm s0 (fst res)"
  by (cases res) (auto simp: base_settle_def split: sum.splits scoro.splits)

lemma calm_qt: "qt s s' \<Longrightarrow> calm s s'"
proof -
  assume "qt s s'"
  then have q: "gentle_leases s s'" "gentle_rest s s'" by (simp_all add: qt_def gentle_def)
  have "over s' j" if "over s j" for j
  proof -
    have "lease_step (lease_at s j) (lease_at s' j)" using q(1) by (simp add: gentle_leases_def)
    then show ?thesis using that
      by (cases "lease_at s' j") (auto simp: over_def lease_key_def retired_def)
  qed
  then show ?thesis using q(2) by (simp add: calm_def controls_def gentle_rest_def)
qed

lemma calm_seg: "seg s K res \<Longrightarrow> calm s (fst res)"
  by (simp add: seg_def calm_qt)

lemma fst_lift [simp]: "fst (lift_base res) = fst res"
  by (simp add: lift_base_def split: prod.splits sum.splits)

text \<open>An update of a lease that is live, or that leaves it over.\<close>

lemma calm_update:
  assumes ok: "store_ok (store s)" and u: "st_update now j fs s = (s', r)"
    and l: "\<And>l. lease_at s j = Some l \<Longrightarrow> \<not> is_live l \<Longrightarrow> \<not> is_live (set_fields fs l)"
  shows "calm s s'"
  using u ok
proof (cases rule: session_update_cases)
  case (stored m)
  have "over s' k" if "over s k" for k
    using that stored l by (auto simp: over_def db_get_put)
  then show ?thesis using stored by (simp add: calm_def controls_def)
qed simp

lemma calm_then:
  assumes "calm s (fst m)" "\<And>a s'. m = (s', Inr a) \<Longrightarrow> calm s (fst (f a s'))"
  shows "calm s (fst (and_then m f))"
  using assms by (cases m; cases "snd m") auto

lemma calm_failed: "store_ok (store s) \<Longrightarrow> calm s (fst (session_failed now j r s))"
proof -
  assume ok: "store_ok (store s)"
  have "calm s (fst (and_then (st_update now j (failed_fields r) s) (\<lambda>_ s. (pop_lease_peer j s, Inr ()))))"
  proof (rule calm_then)
    show c: "calm s (fst (st_update now j (failed_fields r) s))"
      using calm_update [OF ok, of now j "failed_fields r"] by (cases "st_update now j (failed_fields r) s") simp
    show "calm s (fst (pop_lease_peer j s', Inr ()))" if "st_update now j (failed_fields r) s = (s', Inr a)" for a s'
      using c that by simp
  qed
  then show ?thesis by (simp add: session_failed_def split: option.splits)
qed

lemma calm_abandon: "tinv s \<Longrightarrow> calm s (fst (s_abandon now thr r s))"
  using calm_seg [OF seg_abandon_only [of s s now thr r]] by simp

lemma calm_activity: "tinv s \<Longrightarrow> calm s (fst (user_activity now thr s))"
  using calm_seg [OF user_activity_seg [of s thr now]] by simp

section \<open>Requests\<close>

lemma calm_update_then:
  assumes "store_ok (store s)" "\<And>l. lease_at s j = Some l \<Longrightarrow> \<not> is_live l \<Longrightarrow> \<not> is_live (set_fields fs l)"
    and "\<And>m s'. calm s s' \<Longrightarrow> calm s (fst (f m s'))"
  shows "calm s (fst (and_then (st_update now j fs s) f))"
proof (rule calm_then)
  show c: "calm s (fst (st_update now j fs s))"
    using calm_update [OF assms(1) _ assms(2)] by (cases "st_update now j fs s") simp
  show "calm s (fst (f a s'))" if "st_update now j fs s = (s', Inr a)" for a s'
    using c that assms(3) by simp
qed

lemma tinv_ok: "tinv s \<Longrightarrow> store_ok (store s)"
  by (simp add: tinv_def)

lemma calm_prepare: "tinv s \<Longrightarrow> calm s (fst (s_prepare job req s))"
  using calm_seg [OF prepare_start_seg [of s s job req]]
  by (auto simp: s_prepare_def Let_def split: sum.splits bool.splits)

lemma calm_prepare_got: "tinv s \<Longrightarrow> calm s (fst (s_prepare_got job thr req r s))"
  using calm_seg [OF prepare_start_seg [of s s job req]]
  by (auto simp: s_prepare_got_def Let_def split: sum.splits bool.splits)

lemma calm_prepare_observed: "calm s (fst (s_prepare_observed p s))"
  by (auto simp: s_prepare_observed_def split: option.splits)

lemma calm_terminal: "tinv s \<Longrightarrow> calm s (fst (s_terminal now job req s))"
proof -
  assume t: "tinv s"
  have base: "calm s (fst (terminal_request now job req s))" if "goal_job s job"
    using calm_seg [OF terminal_request_seg [of s s job now req]] t that by simp
  have go: "calm s (fst (and_then
      (st_update now job [F_state L_terminal, F_terminal_state ts, F_delivery_state D_waiting_for_handoff] s)
      (\<lambda>lease s. ((if handoff_state lease = H_ready then schedule_delivery lease s else s),
                 Inr (Base (ok_delivery (delivery_str (delivery_state lease)) []))))))"
    if "lease_at s job = Some l" "lease_state l = L_armed" for l ts
    by (rule calm_update_then [OF tinv_ok [OF t]]) (use that in \<open>auto simp: is_live_def live_state_def\<close>)
  show ?thesis
  proof (cases "lease_at s job")
    case None
    then show ?thesis using base goal_jobI(1) [of s job] by (simp add: s_terminal_def)
  next
    case (Some l)
    show ?thesis
    proof (cases "wake_mode l = M_session")
      case False
      then show ?thesis using base goal_jobI(2) [OF Some] Some by (simp add: s_terminal_def)
    next
      case True
      show ?thesis using Some True go [OF Some] by (simp add: s_terminal_def split: sum.splits json.splits)
    qed
  qed
qed

lemma calm_abort: "tinv s \<Longrightarrow> calm s (fst (s_abort now job req s))"
proof -
  assume t: "tinv s"
  have base: "calm s (fst (abort_request s_abandon now job req s))" if "goal_job s job"
    using calm_seg [OF abort_request_seg [of s s job now req]] t that by simp
  have "calm s (fst (and_then (s_abandon now thr r s) (\<lambda>_ s. (s, Inr c))))" for thr r and c :: scoro
    by (rule calm_then [OF calm_abandon [OF t]]) (use calm_abandon [OF t, of now thr r] in simp)
  then show ?thesis
    using base goal_jobI(1) [of s job] goal_jobI(2) [of s job]
    by (auto simp: s_abort_def split: option.splits sum.splits)
qed

lemma calm_control: "tinv s \<Longrightarrow> calm s (fst (session_control now action req s))"
proof -
  assume t: "tinv s"
  have "calm s (fst (and_then (s_abandon now thr r s) (\<lambda>_ s. (s, Inr c))))" for thr r and c :: scoro
    by (rule calm_then [OF calm_abandon [OF t]]) (use calm_abandon [OF t, of now thr r] in simp)
  then show ?thesis
    by (auto simp: session_control_def s_handoff_def split: option.splits sum.splits bool.splits)
qed

lemma calm_request: "tinv s \<Longrightarrow> calm s (fst (s_handle_request now inp s))"
  by (auto simp: s_handle_request_def s_dispatch_def base_dispatch_def Let_def calm_control calm_prepare calm_terminal
      calm_abort split: conn_input.splits sum.splits bool.splits)

section \<open>Coroutines\<close>

lemma calm_in_prepare [simp]: "calm s0 (fst (in_prepare p res)) = calm s0 (fst res)"
  by (cases res) (auto simp: in_prepare_def split: sum.splits scoro.splits)

lemma calm_handoff_raise: "store_ok (store s) \<Longrightarrow> calm s (fst (handoff_raise now l e s))"
  using calm_failed [of s now "job_id l" "''handoff failed: '' @ exc_str e"]
  by (auto simp: handoff_raise_def intro!: calm_then)

lemma calm_in_transfer:
  assumes "calm s0 (fst res)" "store_ok (store (fst res))"
  shows "calm s0 (fst (in_transfer now l p g res))"
proof -
  obtain s r where res: "res = (s, r)" by (cases res)
  let ?out = "leave p (if g then pop_turn l s else s)"
  have out: "calm s0 ?out" "store_ok (store ?out)" using assms res by (simp_all add: leave_def pop_turn_def)
  have "calm s0 (fst (handoff_raise now l e ?out))" for e
    by (rule calm_trans [OF out(1) calm_handoff_raise [OF out(2)]])
  then show ?thesis using assms res by (auto simp: in_transfer_def Let_def split: sum.splits scoro.splits)
qed

lemma calm_deliver_raise: "store_ok (store s) \<Longrightarrow> calm s (fst (s_deliver_raise now l e s))"
  using calm_failed [of s now "job_id l" "''session delivery failed: '' @ exc_str e"]
  by (auto simp: s_deliver_raise_def split: prod.splits sum.splits)

lemma calm_in_wake:
  assumes "calm s0 (fst res)" "store_ok (store (fst res))"
  shows "calm s0 (fst (in_wake now l p res))"
proof -
  obtain s r where res: "res = (s, r)" by (cases res)
  have out: "calm s0 (leave p s)" "store_ok (store (leave p s))" using assms res by (simp_all add: leave_def)
  have "calm s0 (fst (s_deliver_raise now l e (leave p s)))" for e
    by (rule calm_trans [OF out(1) calm_deliver_raise [OF out(2)]])
  then show ?thesis using assms res by (auto simp: in_wake_def split: sum.splits scoro.splits)
qed

lemma calm_commit:
  assumes t: "store_ok (store s)" and old: "\<And>l. lease_at s (p_job p) = Some l \<Longrightarrow> is_live l"
  shows "calm s (fst (s_prepare_commit now p s))"
proof -
  have "calm s (fst (and_then (st_create now n s) f))"
    if n: "nl_job_id n = p_job p"
      and f: "\<And>l s'. calm s s' \<Longrightarrow> store_ok (store s') \<Longrightarrow> (\<And>l. lease_at s' (p_job p) = Some l \<Longrightarrow> is_live l) \<Longrightarrow>
        calm s (fst (f l s'))" for n and f :: "wake_lease \<Rightarrow> session_bridge \<Rightarrow> (session_bridge, scoro) outcome"
  proof (cases "st_create now n s")
    case (Pair s' r)
    from Pair t show ?thesis
    proof (cases rule: st_create_cases)
      case created
      have "calm s s'"
        using created by (auto simp: calm_def over_def controls_def db_get_insert)
      moreover have "is_live l" if "lease_at s' (p_job p) = Some l" for l
        using that created n by (auto simp: db_get_insert is_live_def live_state_def)
      ultimately have "calm s (fst (f (lease_of_new n) s'))"
        by (intro f) (use created in simp_all)
      then show ?thesis using created Pair by simp
    qed (use Pair f old t in simp_all)
  qed
  note create = this
  show ?thesis
    unfolding s_prepare_commit_def
  proof (rule create)
    fix l s'
    assume s': "calm s s'" "store_ok (store s')" "\<And>l. lease_at s' (p_job p) = Some l \<Longrightarrow> is_live l"
    have "calm s' (fst (and_then (st_update now (p_job p) [F_state L_armed] s') (\<lambda>_ s.
        let s = s\<lparr>lease_peers := AList.update (p_job p) (p_peer p) (lease_peers s)\<rparr>;
            l = (case db_get (store s) (p_job p) of None \<Rightarrow> l | Some l \<Rightarrow> l) in (schedule_deadline l s, Inr v))))" for v :: scoro
      by (rule calm_update_then [OF s'(2)]) (use s'(3) in \<open>auto simp: Let_def\<close>)
    then show "calm s (fst (if wake_mode l \<noteq> M_session \<or> turn_id l \<noteq> Some (p_turn p) \<or> call_id l \<noteq> Some (p_call p)
        then (s', Inl (RuntimeError ''job already belongs to a different wake registration''))
        else and_then (st_update now (p_job p) [F_state L_armed] s') (\<lambda>_ s.
          let s = s\<lparr>lease_peers := AList.update (p_job p) (p_peer p) (lease_peers s)\<rparr>;
              l = (case db_get (store s) (p_job p) of None \<Rightarrow> l | Some l \<Rightarrow> l) in
          (schedule_deadline l s, Inr (reply_with [(''ok'', JBool True), (''automatic_wakeup'', JBool True),
             (''wake_mode'', JStr ''session''), (''thread_id'', JStr (p_thread p)), (''turn_id'', JStr (p_turn p))])))))"
      using calm_trans [OF s'(1)] s'(1) by simp
  qed simp
qed

text \<open>The replies that act on the session.\<close>

fun acting :: "session_pc \<Rightarrow> bool" where
  "acting (H_latest l p st) = True"
| "acting (H_latest2 l p st) = True"
| "acting (D_latest l p t) = True"
| "acting _ = False"

lemma update_then_ok:
  assumes "store_ok (store s)" "\<And>s. store (g s) = store s"
  shows "store_ok (store (fst (and_then (st_update now j fs s) (\<lambda>_ s. (g s, Inr (c :: scoro))))))"
proof (cases "st_update now j fs s")
  case (Pair s' r)
  from Pair assms(1) show ?thesis by (cases rule: session_update_cases) (use Pair assms in simp_all)
qed

lemma calm_transfer_ready:
  assumes "store_ok (store s)"
  shows "calm s (fst (transfer_ready now l r s)) \<and> store_ok (store (fst (transfer_ready now l r s)))"
proof -
  define g where "g = (\<lambda>current s. if lease_state current = L_terminal
      then schedule_delivery (case db_get (store s) (job_id l) of None \<Rightarrow> current | Some l \<Rightarrow> l) s else (s :: session_bridge))"
  have st: "store (g cur s) = store s" for cur s by (simp add: g_def schedule_delivery_def spawn_def)
  have "calm s (fst (and_then (st_update now (job_id l) [F_handoff_state H_ready] s) (\<lambda>_ s. (g cur s, Inr c))))"
    for cur and c :: scoro
    by (rule calm_update_then [OF assms]) (simp_all add: is_live_def g_def)
  then show ?thesis
    using assms update_then_ok [OF assms st, where j = "job_id l" and now = now]
    by (auto simp: transfer_ready_def g_def split: sum.splits)
qed

lemma calm_wake_started:
  assumes "store_ok (store s)"
  shows "calm s (fst (wake_started now l r s)) \<and> store_ok (store (fst (wake_started now l r s)))"
proof -
  let ?f = "\<lambda>turn. [F_state L_delivered, F_delivery_state D_resumed, F_wake_turn_id turn]"
  have same: "store (drop_deadline j s) = store s" for j and s :: session_bridge
    by (simp add: drop_deadline_def cancel_task_def split: option.splits)
  note ok = update_then_ok [OF assms same, where j = "job_id l" and now = now]
  have "calm s (fst (and_then (st_update now (job_id l) (?f turn) s) (\<lambda>_ s. (drop_deadline (job_id l) s, Inr c))))"
    for turn and c :: scoro
    by (rule calm_update_then [OF assms]) (simp_all only: delivered_dead not_False_eq_True calm_drop_deadline fst_conv)
  then show ?thesis
    using assms ok by (auto simp: wake_started_def split: sum.splits json.splits)
qed

lemma store_peer_send [simp]: "store (peer_send p j r s) = store s" "store (enter p tid s) = store s" "store (leave p s) = store s"
  by (simp_all add: peer_send_def enter_def leave_def)

lemma calm_peer_reply:
  assumes t: "tinv s" and a: "\<not> acting pc" and res: "peer_reply now pc r s = Some res"
  shows "calm s (fst res)"
proof (cases pc)
  case (SP_goal p)
  have "calm s (fst (s_prepare_goal now p r s))"
    using calm_commit [OF tinv_ok [OF t], of p now]
    by (auto simp: s_prepare_goal_def is_live_def live_state_def split: sum.splits option.splits)
  then show ?thesis using res SP_goal by auto
next
  case (SP_latest p)
  then show ?thesis using res by (auto simp: s_prepare_latest_def split: sum.splits)
next
  case (H_goal l p st)
  have "calm s (fst (transfer_goal l p st r s))" "store (fst (transfer_goal l p st r s)) = store s"
    by (auto simp: transfer_goal_def split: sum.splits)
  then show ?thesis using res H_goal calm_in_transfer [of s "transfer_goal l p st r s" now l p False] tinv_ok [OF t] by auto
next
  case (H_interrupt l p st)
  have "calm s (fst (transfer_wait l p st r s))" "store (fst (transfer_wait l p st r s)) = store s"
    by (auto simp: transfer_wait_def split: sum.splits)
  then show ?thesis using res H_interrupt calm_in_transfer [of s "transfer_wait l p st r s" now l p True] tinv_ok [OF t] by auto
next
  case (H_inject l p st)
  then show ?thesis using res H_inject calm_in_transfer [of s "transfer_ready now l r s" now l p True] calm_transfer_ready [OF tinv_ok [OF t], of now l r] by auto
next
  case (D_goal l p ts)
  have "calm s (fst (wake_goal l p ts r s))" "store (fst (wake_goal l p ts r s)) = store s"
    by (auto simp: wake_goal_def split: sum.splits)
  then show ?thesis using res D_goal calm_in_wake [of s "wake_goal l p ts r s" now l p] tinv_ok [OF t] by auto
next
  case (D_start l p)
  then show ?thesis using res D_start calm_in_wake [of s "wake_started now l r s" now l p] calm_wake_started [OF tinv_ok [OF t], of now l r] by auto
qed (use a res in simp_all)

lemma calm_session_run:
  assumes t: "tinv s" and res: "session_run now tid pc s = Some res"
  shows "calm s (fst res)"
proof (cases pc)
  case (SP_observe p)
  then show ?thesis using res calm_prepare_observed by (auto split: if_splits)
next
  case (SP_lock p)
  then show ?thesis using res by (auto simp: s_prepare_enter_def split: if_splits)
next
  case (H_lock l p st)
  have "calm s (fst (transfer_enter l p st (enter p tid s)))" "store (fst (transfer_enter l p st (enter p tid s))) = store s"
    by (auto simp: transfer_enter_def split: sum.splits)
  then show ?thesis using res H_lock calm_in_transfer [of s "transfer_enter l p st (enter p tid s)" now l p False] tinv_ok [OF t] by (auto split: if_splits)
next
  case (H_done l p st)
  then show ?thesis using res H_done calm_in_transfer [of s "transfer_done l p st s" now l p True] tinv_ok [OF t] by (auto simp: transfer_done_def split: if_splits)
next
  case (D_lock l p)
  have "calm s (fst (wake_enter l p (enter p tid s)))" "store (fst (wake_enter l p (enter p tid s))) = store s"
    by (auto simp: wake_enter_def split: sum.splits)
  then show ?thesis using res D_lock calm_in_wake [of s "wake_enter l p (enter p tid s)" now l p] tinv_ok [OF t] by (auto split: if_splits)
qed (use res in auto)

lemma calm_timeout:
  assumes t: "tinv s" and res: "session_timeout now pc s = Some res"
  shows "calm s (fst res)"
  using res calm_in_transfer calm_handoff_raise tinv_ok [OF t] by (cases pc) auto

lemma calm_cancel:
  assumes t: "tinv s"
  shows "calm s (fst (session_cancel now pc s))"
  using calm_in_transfer calm_in_wake calm_deliver_raise tinv_ok [OF t] by (cases pc) auto

section \<open>Inherited coroutines and events\<close>

lemma calm_base_run:
  assumes inv: "session_inv s" and t: "tasks s tid = Some t" and res: "base_run now tid (task_pc t) s = Some res"
  shows "calm s (fst res)"
proof (cases "overridden (task_pc t)")
  case False
  have tinv: "tinv s" using inv by (simp add: session_inv_def)
  from run_kind [OF tinv t False res] show ?thesis using calm_seg by (metis fst_lift)
next
  case True
  have ok: "store_ok (store s)" using inv by (simp add: session_inv_def tinv_def)
  show ?thesis
  proof (cases "task_pc t")
    case (W_start l)
    then have "res = s_deliver now l s" using res True by simp
    then show ?thesis using calm_deliver_raise [OF ok] by (auto simp: s_deliver_def split: sum.splits)
  next
    case (X_sleep l)
    then have "res = lift_base (s_expire now l s)" using res by (auto split: if_splits)
    then show ?thesis
      using calm_failed [OF ok, of now "job_id l"] True X_sleep
      by (auto simp: s_expire_def split: prod.splits sum.splits) (metis fst_conv)+
  qed (use True in simp_all)
qed

lemma calm_user_control: "tinv s \<Longrightarrow> calm s (fst (user_goal_control s_abandon now thr s))"
  using calm_seg [OF user_control_seg(1) [of s s now thr]] by simp

lemma calm_message:
  assumes inv: "session_inv s" and t: "session_tasks s tid = Some (Y_lock p msg)" and m: "message_run now tid p msg s = Some s'"
  shows "calm s s'"
proof -
  let ?s = "enter p tid s"
  have free: "activity_lock s p = None" using m by (auto simp: message_run_def split: if_splits)
  then have "client_run tid p ?s" using begin_client(2) [OF inv t] by simp
  then have run: "running tid {} {p} ?s" by (simp add: client_run_def)
  then have tinv: "tinv ?s" by (simp add: running_def)
  have act_of: "calm s' s'' \<and> tinv s''" if "running tid {} {p} s'" "activity_of now p ps s' = (s'', r)" for ps s' s'' r
    using that
  proof (induction now p ps s' rule: activity_of.induct)
    case (2 now p thr q ps s)
    show ?case
    proof (cases "q = p")
      case True
      obtain s1 r1 where u: "user_activity now thr s = (s1, r1)" by fastforce
      note i = user_activity_run(1,2) [OF 2(3) u]
      have "calm s s1" using calm_activity [of s now thr] 2(3) u by (simp add: running_def)
      then show ?thesis using 2(1) [OF True i(1)] 2(4) True u i(2) calm_trans by auto
    qed (use 2 in auto)
  qed (simp add: running_def)
  define params where "params = jget_default ''params'' (JObj []) msg"
  define thr where "thr = (if is_dict params then jget ''threadId'' params else JNull)"
  obtain s1 r1 where a: "(if is_str thr then user_activity now (str_of_json thr) ?s else activity_of now p (peers ?s) ?s) = (s1, r1)"
    by fastforce
  have s1: "calm s s1 \<and> tinv s1 \<and> r1 = Inr ()"
  proof (cases "is_str thr")
    case True
    then have u: "user_activity now (str_of_json thr) ?s = (s1, r1)" using a by simp
    show ?thesis
      using calm_activity [OF tinv, of now "str_of_json thr"] user_activity_run(1,2) [OF run u] u by (simp add: running_def)
  next
    case False
    then have u: "activity_of now p (peers ?s) ?s = (s1, r1)" using a by simp
    show ?thesis using act_of [OF run u] activity_of_run [OF run u] by simp
  qed
  then have "calm s (fst (message_locked now p msg ?s))"
    unfolding message_locked_def params_def [symmetric] Let_def thr_def [symmetric]
    using a calm_trans [OF _ calm_user_control [of s1 now "str_of_json thr"]] by (auto intro!: calm_then)
  then show ?thesis
    using m free by (auto simp: message_run_def split: prod.splits sum.splits scoro.splits)
qed

lemma calm_observe:
  assumes t: "tinv s"
  shows "calm s (fst (observe now p meth params s))"
proof -
  have ab: "calm s (fst (s_abandon now thr r s'))" if "tinv s'" "calm s' = calm s" for s' thr r
    using calm_abandon [OF that(1), of now thr r] that(2) by metis
  have ua: "calm s (fst (user_activity now thr (s\<lparr>ambiguous_threads := m\<rparr>)))" for thr m
    using calm_activity [of "s\<lparr>ambiguous_threads := m\<rparr>" now thr] t by simp
  have item: "calm s (observe_item p thr params s)" for thr
    by (simp add: observe_item_def Let_def)
  have started: "calm s (fst (observe_started now p thr params s))" for thr
    using ab [of "s\<lparr>peers := AList.update thr p (peers s)\<rparr>"] t
    by (auto simp: observe_started_def Let_def split: sum.splits option.splits)
  have completed: "calm s (fst (observe_completed now thr params s))" for thr
  proof -
    have "calm s (fst (and_then
        (case db_live_for_thread (store s') thr of
           None \<Rightarrow> (s', Inr ())
         | Some lease \<Rightarrow>
             if wake_mode lease = M_session \<and> turn_id lease = Some turn
                \<and> handoff_state lease \<notin> {H_interrupting, H_ready}
             then s_abandon now thr ''Originating turn ended before handoff'' s' else (s', Inr ()))
        (\<lambda>_ s. (s\<lparr>calls := filter (\<lambda>((t, _), (u, _)). \<not> (t = thr \<and> u = turn)) (calls s)\<rparr>, Inr ()))))"
      if s': "tinv s'" "calm s' = calm s" "calm s s'" for s' turn
    proof -
      have c: "calm s (fst (case db_live_for_thread (store s') thr of
           None \<Rightarrow> (s', Inr ())
         | Some lease \<Rightarrow>
             if wake_mode lease = M_session \<and> turn_id lease = Some turn
                \<and> handoff_state lease \<notin> {H_interrupting, H_ready}
             then s_abandon now thr ''Originating turn ended before handoff'' s' else (s', Inr ())))"
        using ab [OF s'(1,2)] s'(3) by (simp split: option.splits)
      show ?thesis by (rule calm_then [OF c]) (use c in auto)
    qed
    then show ?thesis
      using t by (auto simp: observe_completed_def Let_def split: sum.splits json.splits)
  qed
  have "calm s (fst (and_then (observe_completed now thr params s) (\<lambda>_ s. (set_event thr s, Inr ()))))" for thr
    by (rule calm_then [OF completed]) (use completed [of thr] in auto)
  then show ?thesis
    using ua item started by (auto simp: observe_def split: json.splits)
qed

lemma calm_drop_threads: "session_inv s \<Longrightarrow> drop_threads now p ps s = (s', r) \<Longrightarrow> calm s s'"
proof (induction now p ps s rule: drop_threads.induct)
  case (2 now p thr q ps s)
  show ?case
  proof (cases "q = p")
    case True
    obtain s1 r1 where u: "user_activity now thr s = (s1, r1)" by fastforce
    let ?s2 = "s1\<lparr>peers := AList.delete thr (peers s1), ambiguous_threads := ambiguous_threads s1 - {thr}\<rparr>"
    have "drop_threads now p [(thr, q)] s = (?s2, Inr ())"
      using user_activity_inv(2) [OF 2(3) u] True u by simp
    then have i: "session_inv ?s2" using drop_threads_inv [OF 2(3)] by blast
    have "calm s s1" using calm_activity [of s now thr] 2(3) u by (simp add: session_inv_def)
    moreover have "calm ?s2 s'"
      using 2(1) [OF True i] 2(4) True u user_activity_inv(2) [OF 2(3) u] by simp
    ultimately show ?thesis using calm_trans [of s s1 s'] by simp
  qed (use 2 in auto)
qed simp

lemma calm_drop_leases: "session_inv s \<Longrightarrow> drop_leases now p ps s = (s', r) \<Longrightarrow> calm s s'"
proof (induction now p ps s rule: drop_leases.induct)
  case (2 now p j q ps s)
  show ?case
  proof (cases "q = p")
    case True
    obtain s1 r1 where u: "(case db_get (store s) j of
        None \<Rightarrow> (s, Inr ()) | Some lease \<Rightarrow> user_activity now (thread_id lease) s) = (s1, r1)" by fastforce
    have i: "r1 = Inr ()" using u user_activity_inv(2) [OF 2(3)] by (auto split: option.splits)
    then have "drop_leases now p [(j, q)] s = (pop_lease_peer j s1, Inr ())" using u True by simp
    then have inv: "session_inv (pop_lease_peer j s1)" using drop_leases_inv [OF 2(3)] by blast
    have "calm s s1"
      using u calm_activity [of s now] 2(3) by (auto simp: session_inv_def split: option.splits) (metis fst_conv)
    moreover have "calm (pop_lease_peer j s1) s'" using 2(1) [OF True inv] 2(4) True u i by simp
    ultimately show ?thesis using calm_trans [of s "pop_lease_peer j s1" s'] by simp
  qed (use 2 in auto)
qed simp

lemma calm_disconnected:
  assumes inv: "session_inv s"
  shows "calm s (fst (disconnected now p s))"
proof -
  obtain s1 r1 where d1: "drop_threads now p (peers s) s = (s1, r1)" by fastforce
  note i1 = drop_threads_inv [OF inv d1]
  obtain s2 r2 where d2: "drop_leases now p (lease_peers s1) s1 = (s2, r2)" by fastforce
  have "calm s s2"
    using calm_trans [OF calm_drop_threads [OF inv d1] calm_drop_leases [OF _ d2]] i1 by simp
  then show ?thesis using d1 d2 i1 drop_leases_inv [OF _ d2] by (simp add: disconnected_def)
qed

section \<open>The three replies that act on a session\<close>

text \<open>
  What is sent for which job over which connection, on which reply: the lease is a live
  session lease whose wake is not under way, at the stage the message belongs to, and the
  connection is the one its thread is seen on.
\<close>

definition turn_status :: "control \<Rightarrow> string" where
  "turn_status c = (if c = C_interrupt then ''inProgress'' else ''interrupted'')"

fun stage_of :: "control \<Rightarrow> handoff_state" where
  "stage_of C_interrupt = H_pending"
| "stage_of C_receipt = H_interrupting"
| "stage_of C_wake = H_ready"

fun aimed_at :: "peer_rpc \<Rightarrow> wake_lease \<Rightarrow> bool" where
  "aimed_at (Turn_interrupt thr turn) l = (thr = thread_id l \<and> turn = turn_id l)"
| "aimed_at (Inject_items thr _) l = (thr = thread_id l)"
| "aimed_at (Turn_start thr _) l = (thr = thread_id l)"
| "aimed_at _ l = False"

definition acts :: "json \<Rightarrow> peer \<Rightarrow> string \<Rightarrow> peer_rpc \<Rightarrow> wake_lease \<Rightarrow> session_bridge \<Rightarrow> bool" where
  "acts reply p j r l s \<longleftrightarrow>
     lease_at s j = Some l \<and> wake_mode l = M_session \<and> is_live l \<and> delivery_state l \<noteq> D_activating
   \<and> map_of (peers s) (thread_id l) = Some p \<and> aimed_at r l
   \<and> (\<exists>c turn. control_of r = [c] \<and> handoff_state l = stage_of c
        \<and> latest_turn reply = Inr turn \<and> turn_is (turn_id l) (turn_status c) turn
        \<and> (c \<noteq> C_receipt \<longrightarrow> map_of (lease_peers s) j = Some p \<and> thread_id l \<notin> ambiguous_threads s)
        \<and> (c = C_wake \<longrightarrow> lease_state l = L_terminal))"

definition sends :: "json \<Rightarrow> peer \<Rightarrow> string \<Rightarrow> peer_rpc \<Rightarrow> session_bridge \<Rightarrow> session_bridge \<Rightarrow> bool" where
  "sends reply p j r s s' \<longleftrightarrow>
     (\<exists>l. acts reply p j r l s) \<and> peer_sent s' = peer_sent s @ [(p, j, r)] \<and> (\<forall>k. over s k \<longrightarrow> over s' k)"

definition acted :: "pyexc + json \<Rightarrow> session_bridge \<Rightarrow> (session_bridge, scoro) outcome \<Rightarrow> bool" where
  "acted reply s res \<longleftrightarrow>
     calm s (fst res) \<and> store_ok (store (fst res))
   \<or> (\<exists>pc v p j r. reply = Inr v \<and> snd res = Inr (At pc) \<and> sends v p j r s (fst res))"

lemma commit_acted:
  assumes t: "tinv s" and s0: "s0 = s \<or> s0 = s\<lparr>turn_done := d\<rparr>" and a: "acts v p j r l s" "reply = Inr v" and j: "j = k"
  shows "acted reply s (and_then (st_update now j fs s0) (\<lambda>_ s. (peer_send p k r s, Inr (At pc))))"
proof (cases "st_update now j fs s0")
  case (Pair s1 res)
  have ok: "store_ok (store s0)" using t s0 by (auto simp: tinv_def)
  have live: "lease_at s0 j = Some l" "is_live l" using a s0 by (auto simp: acts_def)
  have same: "calm s0 = calm s" "peer_sent s0 = peer_sent s" "store s0 = store s" using s0 by auto
  have c: "calm s s1" using calm_update [OF ok Pair] live same by auto
  from Pair ok show ?thesis
  proof (cases rule: session_update_cases)
    case (raised e)
    then show ?thesis using Pair c ok by (simp add: acted_def)
  next
    case (stored m)
    have "over (peer_send p k r s1) i = over s1 i" for i by (simp add: over_def)
    then have "sends v p j r s (peer_send p k r s1)"
      using c a(1) stored(2) same j by (auto simp: sends_def calm_def peer_send_def)
    then show ?thesis using Pair stored a(2) by (auto simp: acted_def)
  qed
qed

lemma acted_raise: "tinv s \<Longrightarrow> acted reply s (s, Inl e)"
  by (simp add: acted_def tinv_def)

lemma serve_acts:
  assumes sv: "serve tid l p s" and live: "live_session (job_id l) s = Inr cur"
    and turn: "latest_turn v = Inr turn" "turn_is (turn_id l) (turn_status c) turn"
    and c: "control_of r = [c]" "handoff_state cur = stage_of c" "aimed_at r l" "c \<noteq> C_wake \<Longrightarrow> handoff_state cur \<noteq> H_ready"
    and own: "c \<noteq> C_receipt \<Longrightarrow> owner l s = Inr q" and w: "c = C_wake \<Longrightarrow> lease_state cur = L_terminal \<and> delivery_state cur \<noteq> D_activating"
  shows "acts v p (job_id l) r cur s"
proof -
  note cur = live_sessionD [OF live]
  note inv = serve_stage [OF sv cur(1)]
  have act: "delivery_state cur \<noteq> D_activating"
  proof (cases "c = C_wake")
    case False
    then show ?thesis using c(4) inv(1) cur(4) by (auto simp: lease_ok_def)
  qed (use w in simp)
  have key: "thread_id cur = thread_id l" "turn_id cur = turn_id l" using inv(4) by (simp_all add: lease_key_def)
  have peer: "map_of (peers s) (thread_id l) = Some p" using inv(5) cur(4) act by simp
  have o: "map_of (lease_peers s) (job_id l) = Some p" "thread_id l \<notin> ambiguous_threads s" if "c \<noteq> C_receipt"
    using ownerD [OF own [OF that]] peer by auto
  have aim: "aimed_at r cur" using c(3) key by (cases r) auto
  show ?thesis
    using cur(1,2,4) act key peer o aim turn c(1,2) w unfolding acts_def by (auto intro!: exI [of _ c])
qed

lemma interrupt_acted:
  assumes sv: "serve tid l p s"
    and ph: "\<And>cur. lease_at s (job_id l) = Some cur \<Longrightarrow> is_live cur \<Longrightarrow> handoff_state cur = H_pending"
  shows "acted r s (transfer_interrupt now l p st r s)"
proof -
  have t: "tinv s" using serve_tinv [OF sv] .
  have go: "acted r s (and_then (st_update now (job_id l) fs s')
      (\<lambda>_ s. (peer_send p (job_id l) (Turn_interrupt (thread_id l) (turn_id l)) s, Inr (At pc))))"
    if live: "live_session (job_id l) s = Inr cur" and own: "owner l s = Inr q" and v: "r = Inr v" "latest_turn v = Inr turn"
      "turn_is (turn_id l) ''inProgress'' turn" and s': "s' = s \<or> s' = s\<lparr>turn_done := d\<rparr>" for cur q v turn s' d fs pc
  proof (rule commit_acted [OF t s' _ v(1)])
    have "handoff_state cur = H_pending" using ph live_sessionD(1,4) [OF live] by blast
    then show "acts v p (job_id l) (Turn_interrupt (thread_id l) (turn_id l)) cur s"
      using serve_acts [OF sv live v(2), of C_interrupt] v(3) own by (simp add: turn_status_def)
  qed simp
  show ?thesis
    using acted_raise [OF t] go [where d = "(turn_done s)(turn_key l \<mapsto> False)"]
    by (cases r) (auto simp: transfer_interrupt_def Let_def split: sum.splits)
qed

lemma receipt_acted:
  assumes sv: "serve tid l p s"
    and ph: "\<And>cur. lease_at s (job_id l) = Some cur \<Longrightarrow> is_live cur \<Longrightarrow> handoff_state cur = H_interrupting"
  shows "acted r s (transfer_receipt now l p st r s)"
proof -
  have t: "tinv s" using serve_tinv [OF sv] .
  have go: "acted r s (and_then (st_update now (job_id l) fs s)
      (\<lambda>_ s. (peer_send p (job_id l) (Inject_items (thread_id l) x) s, Inr (At pc))))"
    if live: "live_session (job_id l) s = Inr cur" and v: "r = Inr v" "latest_turn v = Inr turn"
      "turn_is (turn_id l) ''interrupted'' turn" for cur v turn fs pc x
  proof (rule commit_acted [OF t _ _ v(1)])
    have "handoff_state cur = H_interrupting" using ph live_sessionD(1,4) [OF live] by blast
    then show "acts v p (job_id l) (Inject_items (thread_id l) x) cur s"
      using serve_acts [OF sv live v(2), of C_receipt] v(3) by (simp add: turn_status_def)
  qed simp_all
  show ?thesis
    using acted_raise [OF t] go by (cases r) (auto simp: transfer_receipt_def split: sum.splits)
qed

lemma wake_acted:
  assumes sv: "serve tid l p s"
    and ph: "\<And>cur. lease_at s (job_id l) = Some cur \<Longrightarrow> handoff_state cur = H_ready \<and> (is_live cur \<longrightarrow> lease_state cur = L_terminal)"
  shows "acted r s (wake_commit now l p ts r s)"
proof -
  have t: "tinv s" using serve_tinv [OF sv] .
  have go: "acted r s (and_then (st_update now (job_id l) fs s)
      (\<lambda>_ s. (peer_send p (job_id l) (Turn_start (thread_id l) x) s, Inr (At pc))))"
    if live: "live_session (job_id l) s = Inr cur" and own: "owner l s = Inr q" and v: "r = Inr v" "latest_turn v = Inr turn"
      "turn_is (turn_id l) ''interrupted'' turn" for cur q v turn fs pc x
  proof (rule commit_acted [OF t _ _ v(1)])
    note cur = live_sessionD [OF live]
    have rd: "handoff_state cur = H_ready" "lease_state cur = L_terminal" using ph cur(1,4) by blast+
    have p: "running tid {} {p} s" "activity_lock s p = Some tid" "sole_peer (Some tid) s (job_id l) p"
      using sv by (simp_all add: serve_def)
    have "delivery_state cur \<noteq> D_activating"
      using not_waking [of tid "{}" "{p}" s p "job_id l"] p cur
      by (auto simp: running_def live_job_def sv_def leases_def)
    then show "acts v p (job_id l) (Turn_start (thread_id l) x) cur s"
      using serve_acts [OF sv live v(2), of C_wake] v(3) own rd by (simp add: turn_status_def)
  qed simp_all
  show ?thesis
    using acted_raise [OF t] go by (cases r) (auto simp: wake_commit_def split: sum.splits)
qed

lemma sends_same:
  "store s2 = store s1 \<Longrightarrow> peer_sent s2 = peer_sent s1 \<Longrightarrow> sends v p j r s s2 = sends v p j r s s1"
  by (simp add: sends_def over_def)

lemma store_s_settle [simp]: "store (s_settle tid a res) = store (fst res)" "peer_sent (s_settle tid a res) = peer_sent (fst res)"
  by (cases res; auto simp: s_settle_def settle_def split: sum.splits scoro.splits coro.splits)+

lemma acted_transfer:
  assumes "acted reply s res"
  shows "calm s (fst (in_transfer now l p g res)) \<or> (\<exists>v q j r. reply = Inr v \<and> sends v q j r s (fst (in_transfer now l p g res)))"
proof -
  obtain s1 x where res: "res = (s1, x)" by (cases res)
  from assms consider (calm) "calm s s1" "store_ok (store s1)"
    | (sent) pc v q j r where "reply = Inr v" "x = Inr (At pc)" "sends v q j r s s1"
    by (auto simp: acted_def res)
  then show ?thesis
  proof cases
    case calm
    then show ?thesis using calm_in_transfer [of s res] res by simp
  next
    case sent
    then show ?thesis using res by (auto simp: in_transfer_def)
  qed
qed

lemma acted_wake:
  assumes "acted reply s res"
  shows "calm s (fst (in_wake now l p res)) \<or> (\<exists>v q j r. reply = Inr v \<and> sends v q j r s (fst (in_wake now l p res)))"
proof -
  obtain s1 x where res: "res = (s1, x)" by (cases res)
  from assms consider (calm) "calm s s1" "store_ok (store s1)"
    | (sent) pc v q j r where "reply = Inr v" "x = Inr (At pc)" "sends v q j r s s1"
    by (auto simp: acted_def res)
  then show ?thesis
  proof cases
    case calm
    then show ?thesis using calm_in_wake [of s res] res by simp
  next
    case sent
    then show ?thesis using res by (auto simp: in_wake_def)
  qed
qed

lemma acting_reply:
  assumes inv: "session_inv s" and t: "session_tasks s tid = Some pc" and a: "acting pc" and res: "peer_reply now pc r s = Some res"
  shows "calm s (fst res) \<or> (\<exists>v q j m. r = Inr v \<and> sends v q j m s (fst res))"
proof (cases pc)
  case (H_latest l p st)
  note b = begin_transfer [OF inv t [unfolded H_latest], of l p]
  have "acted r s (transfer_interrupt now l p st r s)" by (rule interrupt_acted) (use b in auto)
  from acted_transfer [OF this] show ?thesis using res H_latest by auto
next
  case (H_latest2 l p st)
  note b = begin_transfer [OF inv t [unfolded H_latest2], of l p]
  have "acted r s (transfer_receipt now l p st r s)" by (rule receipt_acted) (use b in auto)
  from acted_transfer [OF this] show ?thesis using res H_latest2 by auto
next
  case (D_latest l p ts)
  note b = begin_wake [OF inv t [unfolded D_latest], of l p]
  have "acted r s (wake_commit now l p ts r s)" by (rule wake_acted) (use b in auto)
  from acted_wake [OF this] show ?thesis using res D_latest by auto
qed (use a in simp_all)

section \<open>Every step\<close>

lemma calm_reply:
  assumes inv: "session_inv s" and st: "sstep (S_reply now tid r) s = Some s'"
  shows "calm s s'"
proof -
  have tinv: "tinv s" using inv by (simp add: session_inv_def)
  show ?thesis
  proof (cases "\<exists>job thr req. session_tasks s tid = Some (SP_get job thr req)")
    case True
    then show ?thesis using st calm_prepare_got [OF tinv] by auto
  next
    case False
    then have "(case tasks s tid of None \<Rightarrow> None
      | Some t \<Rightarrow> if cancelled t \<or> \<not> in_base (session_tasks s tid) then None
          else map_option (\<lambda>res. base_settle tid (task_pc t) (lift_base res)) (resume_reply now (task_pc t) (rpc_result r) s)) = Some s'"
      using st sstep_reply [of s tid now r] by simp
    then obtain t b where t: "tasks s tid = Some t" "resume_reply now (task_pc t) (rpc_result r) s = Some b"
      "s' = base_settle tid (task_pc t) (lift_base b)"
      by (auto split: option.splits if_splits)
    then show ?thesis using calm_seg [OF reply_kind [OF tinv t(1,2)]] by simp
  qed
qed

lemma calm_run:
  assumes inv: "session_inv s" and st: "sstep (S_run now tid) s = Some s'"
  shows "calm s s'"
proof -
  have tinv: "tinv s" using inv by (simp add: session_inv_def)
  show ?thesis
  proof (cases "\<exists>p msg. session_tasks s tid = Some (Y_lock p msg)")
    case True
    then show ?thesis using st calm_message [OF inv] by auto
  next
    case False
    then have "(if (case tasks s tid of None \<Rightarrow> False | Some t \<Rightarrow> cancelled t) then None
        else if in_base (session_tasks s tid)
        then (case tasks s tid of None \<Rightarrow> None | Some t \<Rightarrow> map_option (base_settle tid (task_pc t)) (base_run now tid (task_pc t) s))
        else map_option (s_settle tid (s_answers (the (session_tasks s tid)))) (session_run now tid (the (session_tasks s tid)) s))
      = Some s'"
      using st sstep_run [of s tid now] by simp
    then consider (base) t res where "tasks s tid = Some t" "base_run now tid (task_pc t) s = Some res" "s' = base_settle tid (task_pc t) res"
      | (here) a res where "session_run now tid (the (session_tasks s tid)) s = Some res" "s' = s_settle tid a res"
      by (cases "in_base (session_tasks s tid)"; cases "tasks s tid") (auto split: if_splits)
    then show ?thesis
    proof cases
      case base
      then show ?thesis using calm_base_run [OF inv base(1,2)] by simp
    next
      case here
      then show ?thesis using calm_session_run [OF tinv here(1)] by simp
    qed
  qed
qed

lemma sstep_acts:
  assumes inv: "session_inv s" and st: "sstep ev s = Some s'"
  shows "calm s s' \<or> (\<exists>now tid v p j r. ev = S_peer_reply now tid (Inr v) \<and> sends v p j r s s')"
proof -
  have tinv: "tinv s" using inv by (simp add: session_inv_def)
  show ?thesis
  proof (cases ev)
    case (S_request now inp)
    have "tinv (new_task s)" using client_new(1) [OF inv] by (simp add: client_def running_def)
    from calm_request [OF this, of now inp] show ?thesis using st S_request by auto
  next
    case (S_reply now tid r)
    then show ?thesis using calm_reply [OF inv] st by blast
  next
    case (S_peer_reply now tid r)
    from sstep_peer_reply [OF st [unfolded S_peer_reply]] obtain pc res where
      p: "session_tasks s tid = Some pc" "peer_reply now pc r s = Some res" "s' = s_settle tid (s_answers pc) res" by metis
    show ?thesis
    proof (cases "acting pc")
      case False
      then show ?thesis using calm_peer_reply [OF tinv False p(2)] p(3) by simp
    next
      case True
      have "sends v q j m s s' = sends v q j m s (fst res)" for v q j m
        using p(3) by (intro sends_same) simp_all
      then show ?thesis using acting_reply [OF inv p(1) True p(2)] p(3) S_peer_reply by auto
    qed
  next
    case (S_run now tid)
    then show ?thesis using calm_run [OF inv] st by blast
  next
    case (S_timeout now tid)
    then show ?thesis using st calm_timeout [OF tinv] by (auto split: option.splits)
  next
    case (S_cancel now tid)
    have "calm s (fst (resume_cancel now (task_pc t) s))" if "tasks s tid = Some t" for t
      using calm_seg [OF cancel_kind [OF tinv that]] .
    then show ?thesis
      using st S_cancel calm_cancel [OF tinv] by (auto split: option.splits if_splits)
  next
    case (S_notify now meth params)
    have "qt s s" using tinv by simp
    then show ?thesis using st S_notify calm_seg [OF s_on_notification_seg] by auto
  next
    case (S_message p msg)
    then show ?thesis using st by (auto split: if_splits)
  next
    case (S_observe now p meth params)
    then show ?thesis using st calm_observe [OF tinv] by auto
  next
    case (S_disconnect now p)
    then show ?thesis using st calm_disconnected [OF inv] by auto
  next
    case (S_restart now)
    then have "start_session now (store s) (next_task s) (sent s) (responses s) (peer_sent s) = (s', Inr ())"
      using st by (auto split: prod.splits sum.splits)
    note r = session_restart_inv(3,4) [OF inv this]
    have "calm s s'" unfolding calm_def over_def controls_def using r by auto
    then show ?thesis by blast
  qed
qed

end
