(* ===== verification/Session_Demo.thy ===== *)
theory Session_Demo
  imports Session_Calm "HOL-Library.Sublist"
begin

text \<open>
  Runs of the coordinator, driven event by event from an empty database: a registration,
  its handoff, the end of its command and its delivery, and what may come between. The
  properties of the session bridge are witnessed on them.
\<close>

section \<open>Runs\<close>

fun run_session :: "sevent list \<Rightarrow> session_bridge \<Rightarrow> session_bridge option" where
  "run_session [] s = Some s"
| "run_session (e # es) s = (case sstep e s of None \<Rightarrow> None | Some s' \<Rightarrow> run_session es s')"

definition boot_session :: session_bridge where
  "boot_session = fst (start_session 0 empty_db 0 [] [] [])"

definition job_a :: string where
  "job_a = ''0123456789abcdef0123456789abcdef''"

definition thread_a :: string where
  "thread_a = ''01234567-89ab-cdef-0123-456789abcdef''"

definition ask :: "clock \<Rightarrow> string \<Rightarrow> jfields \<Rightarrow> sevent" where
  "ask now action fs = S_request now (Decoded (JObj
     ([(''version'', JInt 1), (''action'', JStr action), (''job_id'', JStr job_a), (''thread_id'', JStr thread_a)] @ fs)))"

definition see :: "clock \<Rightarrow> peer \<Rightarrow> string \<Rightarrow> jfields \<Rightarrow> sevent" where
  "see now p meth fs = S_observe now p meth (JObj ((''threadId'', JStr thread_a) # fs))"

definition turn_reply :: "string \<Rightarrow> pyexc + json" where
  "turn_reply status = Inr (JObj [(''data'', JArr [JObj [(''id'', JStr ''u1''), (''status'', JStr status)]])])"

definition no_goal :: "pyexc + json" where
  "no_goal = Inr (JObj [(''goal'', JNull)])"

text \<open>The TUI shows the call of \<open>start_job\<close>; the registration finds it and arms the lease.\<close>

definition armed_run :: "sevent list" where
  "armed_run =
     [see 0 7 ''item/started'' [(''turnId'', JStr ''u1''), (''item'', JObj [(''type'', JStr ''mcpToolCall''),
        (''server'', JStr ''longrun''), (''tool'', JStr ''start_job''), (''id'', JStr ''c1'')])],
      ask 1 ''prepare'' [(''wake_policy'', JStr ''session''), (''call_id'', JStr ''c1''),
        (''timeout_sec'', JInt 100), (''grace_period_sec'', JInt 5)],
      S_reply 2 0 (Inr (JObj [(''goal'', JNull)])), S_run 3 0, S_run 4 0,
      S_peer_reply 5 0 (turn_reply ''inProgress''), S_peer_reply 6 0 no_goal]"

text \<open>The handoff: interrupt, wait for the end of the turn, leave the receipt.\<close>

definition asked_run :: "sevent list" where
  "asked_run = armed_run @ [ask 7 ''handoff'' [(''job_state'', JStr ''running'')], S_run 8 2, S_peer_reply 9 2 no_goal]"

definition interrupt_reply :: sevent where
  "interrupt_reply = S_peer_reply 10 2 (turn_reply ''inProgress'')"

definition ready_run :: "sevent list" where
  "ready_run = asked_run @ [interrupt_reply, S_peer_reply 11 2 (Inr (JObj [])),
     see 12 7 ''turn/completed'' [(''turn'', JObj [(''id'', JStr ''u1'')])], S_run 13 2,
     S_peer_reply 14 2 (turn_reply ''interrupted''), S_peer_reply 15 2 (Inr (JObj []))]"

text \<open>The command ends; the delivery looks at the session and wakes it.\<close>

definition latest_run :: "sevent list" where
  "latest_run = ready_run @ [ask 16 ''terminal'' [(''terminal_state'', JStr ''succeeded'')], S_run 17 4, S_run 18 4,
     S_peer_reply 19 4 no_goal]"

definition wake_reply :: sevent where
  "wake_reply = S_peer_reply 20 4 (turn_reply ''interrupted'')"

definition woken_run :: "sevent list" where
  "woken_run = latest_run @ [wake_reply, S_peer_reply 21 4 (Inr (JObj [(''turn'', JObj [(''id'', JStr ''u2'')])]))]"

definition look :: "session_bridge \<Rightarrow> (lease_state \<times> handoff_state \<times> delivery_state) option \<times> control list" where
  "look s = (map_option (\<lambda>l. (lease_state l, handoff_state l, delivery_state l)) (lease_at s job_a), controls s job_a)"

definition identity :: "session_bridge \<Rightarrow> (wake_mode \<times> string) option" where
  "identity s = map_option (\<lambda>l. (wake_mode l, thread_id l)) (lease_at s job_a)"

text \<open>One evaluation of the whole run, looking at the job after every event.\<close>

type_synonym view = "((lease_state \<times> handoff_state \<times> delivery_state) option \<times> control list) \<times> (wake_mode \<times> string) option"

fun trail :: "sevent list \<Rightarrow> session_bridge \<Rightarrow> view list" where
  "trail [] s = [(look s, identity s)]"
| "trail (e # es) s = (look s, identity s) # (case sstep e s of None \<Rightarrow> [] | Some s' \<Rightarrow> trail es s')"

lemma woken_trail: "trail woken_run boot_session =
    replicate 7 ((None, []), None) @
    map (\<lambda>v. (v, Some (M_session, thread_a)))
      (replicate 4 (Some (L_armed, H_pending, D_pending), []) @
       replicate 4 (Some (L_armed, H_interrupting, D_pending), [C_interrupt]) @
       [(Some (L_armed, H_recording_receipt, D_pending), [C_interrupt, C_receipt]),
        (Some (L_armed, H_ready, D_pending), [C_interrupt, C_receipt])] @
       replicate 4 (Some (L_terminal, H_ready, D_waiting_for_handoff), [C_interrupt, C_receipt]) @
       [(Some (L_terminal, H_ready, D_activating), [C_interrupt, C_receipt, C_wake]),
        (Some (L_delivered, H_ready, D_resumed), [C_interrupt, C_receipt, C_wake])])"
  by code_simp

lemma trail_take:
  "trail es s = xs \<Longrightarrow> length xs = Suc (length es) \<Longrightarrow> n \<le> length es \<Longrightarrow>
     \<exists>s'. run_session (take n es) s = Some s' \<and> (look s', identity s') = xs ! n"
proof (induction es s arbitrary: n xs rule: trail.induct)
  case (2 e es s)
  then obtain s1 where s1: "sstep e s = Some s1" by (auto split: option.splits)
  show ?case
  proof (cases n)
    case 0
    then show ?thesis using 2(2) by auto
  next
    case (Suc m)
    then show ?thesis using 2(1) [OF s1 refl, of m] 2(2,3,4) s1 by auto
  qed
qed auto

text \<open>What the user types meanwhile: a new turn on the thread.\<close>

definition user_turn :: json where
  "user_turn = JObj [(''method'', JStr ''turn/start''), (''params'', JObj [(''threadId'', JStr thread_a)])]"

definition user_run :: "sevent list" where
  "user_run = armed_run @ [S_message 7 user_turn]"

lemma user_ends: "map_option (\<lambda>s. (look s, session_tasks s 2 = Some (Y_lock 7 user_turn), identity s,
      map_option (\<lambda>s'. (look s', map_option holds (session_tasks s' 2),
          map_option look (run_session [ask 9 ''handoff'' [(''job_state'', JStr ''running'')]] s')))
        (sstep (S_run 8 2) s)))
    (run_session user_run boot_session) =
    Some ((Some (L_armed, H_pending, D_pending), []), True, Some (M_session, thread_a),
      Some ((Some (L_abandoned, H_pending, D_abandoned), []), Some (Some 7), Some (Some (L_abandoned, H_pending, D_abandoned), [])))"
  by code_simp

lemma restart_ends: "map_option (\<lambda>s. (look s, identity s, map_option look (sstep (S_restart 7) s),
      map_of (lease_peers s) job_a, map_of (peers s) thread_a, look (fst (disconnected 7 7 s))))
    (run_session armed_run boot_session) =
    Some ((Some (L_armed, H_pending, D_pending), []), Some (M_session, thread_a),
      Some (Some (L_failed, H_pending, D_needs_manual_recovery), []), Some 7, Some 7,
      (Some (L_abandoned, H_pending, D_abandoned), []))"
  by code_simp

lemma boot_starts: "start_session 0 empty_db 0 [] [] [] = (boot_session, Inr ())"
proof -
  have "db_pending empty_db = []" by (simp add: db_pending_def empty_db_def)
  then show ?thesis by (simp add: boot_session_def start_session_def)
qed

lemma session_demo_reach: "run_session es boot_session = Some s \<Longrightarrow> session_reach s"
proof -
  have "session_reach s0 \<Longrightarrow> run_session es s0 = Some s \<Longrightarrow> session_reach s" for s0
    by (induction es arbitrary: s0) (auto split: option.splits intro: session_reach.step)
  then show "run_session es boot_session = Some s \<Longrightarrow> session_reach s"
    using session_reach.boot [OF boot_starts] by blast
qed

text \<open>The last step of the registration.\<close>

lemma armed_ends: "map_option (\<lambda>s. case session_tasks s 0 of
        Some (SP_goal p) \<Rightarrow> (case s_prepare_goal 6 p no_goal s of (s', Inr c) \<Rightarrow> Some (look s', p_job p) | _ \<Rightarrow> None)
      | _ \<Rightarrow> None)
    (run_session (take 6 armed_run) boot_session) =
    Some (Some ((Some (L_armed, H_pending, D_pending), []), job_a))"
  by code_simp

text \<open>After the user took over, a Goal job is registered on the same thread; then the old wake is cancelled.\<close>

definition job_b :: string where
  "job_b = ''abcdef0123456789abcdef0123456789''"

definition goal_reply :: "string \<Rightarrow> int \<Rightarrow> string + json" where
  "goal_reply status u = Inr (JObj [(''goal'', JObj [(''threadId'', JStr thread_a), (''objective'', JStr ''ship''),
     (''createdAt'', JInt 5), (''updatedAt'', JInt u), (''status'', JStr status)])])"

definition goal_run :: "sevent list" where
  "goal_run = user_run @
     [S_run 8 2,
      S_request 9 (Decoded (JObj [(''version'', JInt 1), (''action'', JStr ''prepare''), (''job_id'', JStr job_b),
        (''thread_id'', JStr thread_a), (''timeout_sec'', JInt 100), (''grace_period_sec'', JInt 5)])),
      S_reply 10 3 (goal_reply ''active'' 7), S_reply 11 3 (goal_reply ''paused'' 8), S_reply 12 3 (goal_reply ''paused'' 8)]"

definition cancel_request :: json where
  "cancel_request = JObj [(''version'', JInt 1), (''action'', JStr ''cancel_wakeup''), (''job_id'', JStr job_a),
     (''thread_id'', JStr thread_a)]"

lemma goal_ends: "map_option (\<lambda>s. (look s, identity s,
      map_option (\<lambda>g. (job_id g, wake_mode g, delivery_state g)) (db_live_for_thread (store s) thread_a)))
    (run_session goal_run boot_session) =
    Some ((Some (L_abandoned, H_pending, D_abandoned), []), Some (M_session, thread_a), Some (job_b, M_goal, D_pending))"
  by code_simp

text \<open>The handoff waits for the state of the turn.\<close>

lemma asked_ends: "map_option (\<lambda>s. (case session_tasks s 2 of
        None \<Rightarrow> None | Some pc \<Rightarrow> Some (map_option snd (serving pc), holds pc), tasks s 2 = None))
    (run_session asked_run boot_session) = Some (Some (Some 7, Some 7), True)"
  by code_simp

lemma asked_task: "\<exists>s pc l. run_session asked_run boot_session = Some s \<and> session_tasks s 2 = Some pc
    \<and> serving pc = Some (l, 7) \<and> holds pc = Some 7 \<and> tasks s 2 = None"
  using asked_ends by (auto split: option.splits)

end
