(* ===== verification/Session_Claims.thy ===== *)
theory Session_Claims
  imports Session_Demo "HOL-Library.Multiset"
begin

text \<open>
  The correctness properties of the session bridge, with their witnesses on the runs of
  \<open>Session_Demo\<close>.
\<close>

lemma woken_length: "length woken_run = 22"
  by (simp add: woken_run_def latest_run_def ready_run_def asked_run_def armed_run_def)

lemma woken_at: "n \<le> 22 \<Longrightarrow> \<exists>s. run_session (take n woken_run) boot_session = Some s \<and> (look s, identity s) = trail woken_run boot_session ! n"
  by (rule trail_take [OF refl]) (simp_all add: woken_trail woken_length)

lemma run_session_snoc:
  "run_session (es @ [e]) s = (case run_session es s of None \<Rightarrow> None | Some s' \<Rightarrow> sstep e s')"
  by (induction es arbitrary: s) (auto split: option.splits)

lemma wake_step: "\<exists>s s'. run_session latest_run boot_session = Some s \<and> sstep wake_reply s = Some s'
    \<and> look s = (Some (L_terminal, H_ready, D_waiting_for_handoff), [C_interrupt, C_receipt])
    \<and> look s' = (Some (L_terminal, H_ready, D_activating), [C_interrupt, C_receipt, C_wake])
    \<and> identity s' = Some (M_session, thread_a)"
proof -
  have t: "latest_run = take 20 woken_run" "take 20 woken_run @ [wake_reply] = take 21 woken_run"
    by (simp_all add: woken_run_def latest_run_def ready_run_def asked_run_def armed_run_def)
  obtain s where s: "run_session latest_run boot_session = Some s" "(look s, identity s) = trail woken_run boot_session ! 20"
    using woken_at [of 20] t by auto
  obtain s' where s': "run_session (latest_run @ [wake_reply]) boot_session = Some s'" "(look s', identity s') = trail woken_run boot_session ! 21"
    using woken_at [of 21] t by auto
  have "sstep wake_reply s = Some s'" using s(1) s'(1) by (simp add: run_session_snoc)
  then show ?thesis using s s' by (auto simp: woken_trail nth_append)
qed
section \<open>What is sent to a session\<close>

lemma stage_prefix: "stage l cs \<Longrightarrow> prefix cs [C_interrupt, C_receipt, C_wake]"
  by (auto simp: stage_def split: handoff_state.splits)

text \<open>
  C2. A session is acted on in order and at most once: whatever requests, replies,
  notifications, messages of the user, disconnections, cancellations and restarts happen in
  whatever order, what was ever sent for a job is a prefix of interrupt, receipt, wake.
\<close>

theorem session_order:
  assumes "session_reach s"
  shows "prefix (controls s j) [C_interrupt, C_receipt, C_wake]"
proof -
  have l: "leases None {} s" using session_reach_inv [OF assms] by (simp add: session_inv_def sv_def)
  show ?thesis
  proof (cases "goal_job s j")
    case True
    then show ?thesis using l by (simp add: leases_def)
  next
    case False
    then obtain m where "lease_at s j = Some m" "wake_mode m = M_session"
      using mode_goal unfolding goal_job_def by blast
    then show ?thesis using l stage_prefix by (auto simp: leases_def)
  qed
qed

theorem session_order_witness:
  "\<exists>s. run_session woken_run boot_session = Some s \<and> controls s job_a = [C_interrupt, C_receipt, C_wake]
     \<and> prefix (controls s job_a) [C_interrupt, C_receipt, C_wake]"
proof -
  obtain s where s: "run_session woken_run boot_session = Some s"
    "look s = (Some (L_delivered, H_ready, D_resumed), [C_interrupt, C_receipt, C_wake])"
    using woken_at [of 22] by (auto simp: woken_length woken_trail nth_append)
  then have "controls s job_a = [C_interrupt, C_receipt, C_wake]" by (simp add: look_def)
  then show ?thesis using s(1) session_order [OF session_demo_reach [OF s(1)], of job_a] by blast
qed

text \<open>
  C25. Every such message is sent on evidence, and to the owner alone: a step that adds to
  what was sent for a job is the reply that confirmed the originating turn (still in progress
  for the interrupt, interrupted for the receipt and the wake), the job's lease is a live
  session lease at the stage of the message, and it goes to that lease's thread over the one
  connection the thread is seen on; the interrupt and the wake only while that connection
  still owns the lease and no second one showed the thread.
\<close>

theorem session_sends_on_evidence:
  assumes reach: "session_reach s" and st: "sstep ev s = Some s'" and ne: "controls s' j \<noteq> controls s j"
  shows "\<exists>now tid v p r l. ev = S_peer_reply now tid (Inr v) \<and> peer_sent s' = peer_sent s @ [(p, j, r)] \<and> acts v p j r l s"
proof -
  note inv = session_reach_inv [OF reach]
  have "\<not> calm s s'" using ne by (auto simp: calm_def)
  then obtain now tid v p k r where e: "ev = S_peer_reply now tid (Inr v)" "sends v p k r s s'"
    using sstep_acts [OF inv st] by blast
  have "k = j" using ne e(2) by (auto simp: sends_def controls_def split: if_splits)
  then show ?thesis using e by (auto simp: sends_def)
qed

theorem session_sends_on_evidence_witness:
  "\<exists>s s' v p r l. run_session latest_run boot_session = Some s \<and> sstep wake_reply s = Some s'
     \<and> controls s' job_a = controls s job_a @ [C_wake] \<and> wake_reply = S_peer_reply 20 4 (Inr v)
     \<and> peer_sent s' = peer_sent s @ [(p, job_a, r)] \<and> acts v p job_a r l s"
proof -
  obtain s s' where s: "run_session latest_run boot_session = Some s" "sstep wake_reply s = Some s'"
    "controls s job_a = [C_interrupt, C_receipt]" "controls s' job_a = [C_interrupt, C_receipt, C_wake]"
    using wake_step by (auto simp: look_def)
  then show ?thesis
    using session_sends_on_evidence [OF session_demo_reach [OF s(1)] s(2), of job_a]
    by (auto simp: wake_reply_def)
qed

section \<open>The user goes first\<close>

lemma over_step:
  assumes inv: "session_inv s" and st: "sstep ev s = Some s'" and o: "over s j"
  shows "over s' j" "controls s' j = controls s j"
proof -
  have "over s' j \<and> controls s' j = controls s j"
    using sstep_acts [OF inv st]
  proof
    assume "calm s s'"
    then show ?thesis using o by (simp add: calm_def)
  next
    assume "\<exists>now tid v p k r. ev = S_peer_reply now tid (Inr v) \<and> sends v p k r s s'"
    then obtain v p k r where r: "sends v p k r s s'" by blast
    then have "k \<noteq> j" using o by (auto simp: sends_def acts_def over_def)
    then show ?thesis using r o by (auto simp: sends_def controls_def)
  qed
  then show "over s' j" "controls s' j = controls s j" by simp_all
qed

lemma over_run: "session_inv s \<Longrightarrow> over s j \<Longrightarrow> run_session es s = Some s' \<Longrightarrow> over s' j \<and> controls s' j = controls s j"
proof (induction es arbitrary: s)
  case (Cons e es)
  then obtain s1 where s1: "sstep e s = Some s1" "run_session es s1 = Some s'" by (auto split: option.splits)
  note o = over_step [OF Cons.prems(1) s1(1) Cons.prems(2)]
  show ?case using Cons.IH [OF sstep_inv [OF Cons.prems(1) s1(1)] o(1) s1(2)] o(2) by simp
qed simp

text \<open>After the activity of the user a session lease of the thread whose wake is not under way is over.\<close>

lemma activity_over:
  assumes t: "tinv s" and u: "user_activity now thr s = (s', r)"
    and l: "lease_at s j = Some l" "wake_mode l = M_session" "thread_id l = thr" "is_live l \<Longrightarrow> delivery_state l \<noteq> D_activating"
  shows "over s' j"
proof -
  note ua = user_activity_quiet [OF t u]
  have q: "gentle (s\<lparr>calls := filter (\<lambda>((t, _), _). t \<noteq> thr) (calls s)\<rparr>) s'" using ua(2) by (simp add: qt_def)
  obtain m where m: "lease_at s' j = Some m" "lease_key m = lease_key l" "m = l \<or> retired l m"
    by (rule gentle_lease [OF q, of j l]) (use l in simp_all)
  have mode: "wake_mode m = M_session" "thread_id m = thr" using m(2) l(2,3) by (simp_all add: lease_key_def)
  have "\<not> is_live m"
  proof
    assume live: "is_live m"
    then have eq: "m = l" using m(3) retired_not_live by blast
    have "store_ok (store s')" using ua(2) by (simp add: qt_def tinv_def)
    then have "db_live_for_thread (store s') thr = Some m"
      using m(1) mode live db_get_key [OF m(1)] by (auto simp: db_live_for_thread_iff)
    then show False using ua(3) mode(1) l(4) live eq by blast
  qed
  then show ?thesis using m(1) mode(1) by (auto simp: over_def)
qed

text \<open>
  C6. The user goes first: once a message of the user that changes a session (a new turn, a
  steer, an interrupt, a Goal command, an archive and the like) has the connection's lock,
  then for no job of its thread that was not already woken is anything ever sent again: no
  interrupt, no receipt, no wake, whatever happens later.
\<close>

theorem user_goes_first:
  assumes reach: "session_reach s" and t: "session_tasks s tid = Some (Y_lock p msg)"
    and st: "sstep (S_run now tid) s = Some s1"
    and msg: "jget_default ''params'' (JObj []) msg = JObj params" "jget ''threadId'' (JObj params) = JStr thr"
    and l: "lease_at s j = Some l" "wake_mode l = M_session" "thread_id l = thr" "C_wake \<notin> set (controls s j)"
    and run: "run_session es s1 = Some s2"
  shows "controls s2 j = controls s j"
proof -
  note inv = session_reach_inv [OF reach]
  have m: "message_run now tid p msg s = Some s1" using st t by simp
  have free: "activity_lock s p = None" using m by (auto simp: message_run_def split: if_splits)
  let ?s = "enter p tid s"
  have tinv: "tinv ?s" using inv by (simp add: session_inv_def enter_def)
  obtain s' r where u: "user_activity now thr ?s = (s', r)" by fastforce
  have "leases None {} s" using inv by (simp add: session_inv_def sv_def)
  then have stage: "stage l (controls s j)" "lease_ok l" using l(1,2) by (simp_all add: leases_def)
  have act: "delivery_state l \<noteq> D_activating" if "is_live l"
    using stage that l(4) by (auto simp: lease_ok_def stage_def split: handoff_state.splits)
  have o: "over s' j" by (rule activity_over [OF tinv u]) (use l act in simp_all)
  have ua: "r = Inr ()" "tinv s'" using user_activity_quiet [OF tinv u] by (simp_all add: qt_def)
  have "calm s' (fst (message_locked now p msg ?s))"
    using u ua msg calm_user_control [OF ua(2), of now thr]
    by (auto simp: message_locked_def Let_def intro!: calm_then)
  then have "calm s' s1" using m free by (auto simp: message_run_def split: prod.splits sum.splits scoro.splits)
  then have "over s1 j" using o by (simp add: calm_def)
  moreover have "controls s1 j = controls s j" using calm_message [OF inv t m] by (simp add: calm_def)
  ultimately show ?thesis using over_run [OF sstep_inv [OF inv st] _ run] by simp
qed

theorem user_goes_first_witness:
  "\<exists>s s1 s2. run_session user_run boot_session = Some s \<and> sstep (S_run 8 2) s = Some s1
     \<and> run_session [ask 9 ''handoff'' [(''job_state'', JStr ''running'')]] s1 = Some s2
     \<and> lease_at s job_a \<noteq> None \<and> controls s2 job_a = controls s job_a"
proof -
  obtain s s1 s2 where s: "run_session user_run boot_session = Some s" "sstep (S_run 8 2) s = Some s1"
    "run_session [ask 9 ''handoff'' [(''job_state'', JStr ''running'')]] s1 = Some s2"
    "session_tasks s 2 = Some (Y_lock 7 user_turn)" "look s = (Some (L_armed, H_pending, D_pending), [])"
    and m: "identity s = Some (M_session, thread_a)"
    using user_ends by (auto simp del: sstep.simps run_session.simps)
  obtain l where l: "lease_at s job_a = Some l" "wake_mode l = M_session" "thread_id l = thread_a"
    using m by (auto simp: identity_def)
  have "controls s2 job_a = controls s job_a"
    by (rule user_goes_first [OF session_demo_reach [OF s(1)] s(4,2), where params = "[(''threadId'', JStr thread_a)]",
          OF _ _ l _ s(3)])
      (use s(5) in \<open>simp_all add: user_turn_def jget_default_def jfield_def look_def\<close>)
  then show ?thesis using s(1-3) l(1) by auto
qed

section \<open>Restarts and connections\<close>

text \<open>
  A restart gives up every session: the new coordinator has no live session lease (who
  owned the session is not known any more), nothing was sent by the restart, and no message
  for a job of the old ones is ever sent again.
\<close>

theorem restart_gives_up_sessions:
  assumes reach: "session_reach s" and st: "sstep (S_restart now) s = Some s'"
    and l: "lease_at s j = Some l" "wake_mode l = M_session" and run: "run_session es s' = Some s2"
  shows "(\<exists>l'. lease_at s' j = Some l' \<and> \<not> is_live l') \<and> controls s2 j = controls s j"
proof
  note inv = session_reach_inv [OF reach]
  have r: "start_session now (store s) (next_task s) (sent s) (responses s) (peer_sent s) = (s', Inr ())"
    using st by (auto split: prod.splits sum.splits)
  note i = session_restart_inv [OF inv r]
  obtain m where m: "lease_at s' j = Some m" "wake_mode m = M_session"
    using i(5) [of j] l by (cases "lease_at s' j") auto
  then have dead: "\<not> is_live m" using i(2) by blast
  then show "\<exists>l'. lease_at s' j = Some l' \<and> \<not> is_live l'" using m(1) by blast
  have "over s' j" using m dead by (auto simp: over_def)
  moreover have "controls s' j = controls s j" using i(4) by (simp add: controls_def)
  ultimately show "controls s2 j = controls s j" using over_run [OF i(1) _ run] by simp
qed

theorem restart_gives_up_sessions_witness:
  "\<exists>s s' l'. run_session armed_run boot_session = Some s \<and> sstep (S_restart 7) s = Some s'
     \<and> lease_at s job_a \<noteq> None \<and> lease_at s' job_a = Some l' \<and> \<not> is_live l' \<and> controls s' job_a = controls s job_a"
proof -
  obtain s s' where s: "run_session armed_run boot_session = Some s" "sstep (S_restart 7) s = Some s'"
    and m: "identity s = Some (M_session, thread_a)"
    using restart_ends by (auto simp del: sstep.simps)
  obtain l where l: "lease_at s job_a = Some l" "wake_mode l = M_session" using m by (auto simp: identity_def)
  have "run_session [] s' = Some s'" by simp
  from restart_gives_up_sessions [OF session_demo_reach [OF s(1)] s(2) l this] show ?thesis using s l by auto
qed

text \<open>
  C11. The conversation on a connection is never interleaved: at most one coroutine (a
  registration, a handoff, a delivery or the forwarding of a user's message) is between its
  first message on a peer's connection and its last one, and it is the holder of that peer's
  lock.
\<close>

theorem one_holder:
  assumes reach: "session_reach s"
    and a: "session_tasks s a = Some u" "holds u = Some p" and b: "session_tasks s b = Some v" "holds v = Some p"
  shows "a = b \<and> activity_lock s p = Some a"
proof -
  have l: "locks None {} s" using session_reach_inv [OF reach] by (simp add: session_inv_def sv_def)
  then have "activity_lock s p = Some a" "activity_lock s p = Some b"
    using a b unfolding locks_def sp_def by blast+
  then show ?thesis by simp
qed

theorem one_holder_witness:
  "\<exists>s s' u. run_session user_run boot_session = Some s \<and> sstep (S_run 8 2) s = Some s'
     \<and> session_tasks s' 2 = Some u \<and> holds u = Some 7 \<and> activity_lock s' 7 = Some 2"
proof -
  obtain s s' where s: "run_session user_run boot_session = Some s" "sstep (S_run 8 2) s = Some s'"
    "map_option holds (session_tasks s' 2) = Some (Some 7)"
    using user_ends by (auto simp del: sstep.simps run_session.simps)
  obtain u where u: "session_tasks s' 2 = Some u" "holds u = Some 7" using s(3) by auto
  have "session_reach s'" using session_reach.step [OF session_demo_reach [OF s(1)] s(2)] .
  from one_holder [OF this u u] show ?thesis using s(1,2) u by blast
qed

section \<open>A connection ends\<close>

lemma activity_lease_peers:
  assumes t: "tinv s" and u: "user_activity now thr s = (s', r)"
  shows "map_of (lease_peers s') j = map_of (lease_peers s) j \<or> map_of (lease_peers s') j = None \<and> over s' j"
proof -
  let ?s1 = "s\<lparr>calls := filter (\<lambda>((t, _), _). t \<noteq> thr) (calls s)\<rparr>"
  have t1: "tinv ?s1" using t by simp
  show ?thesis
  proof (cases rule: s_abandon_effect [OF t1, of thr now "''User activity superseded automatic continuation''", case_names none kept gone])
    case none
    then show ?thesis using u by (auto simp: user_activity_def Let_def split: option.splits if_splits)
  next
    case (kept l)
    then show ?thesis using u by (auto simp: user_activity_def Let_def split: if_splits)
  next
    case (gone l s2)
    show ?thesis
    proof (cases "wake_mode l = M_session")
      case False
      then show ?thesis using u gone by (auto simp: user_activity_def Let_def)
    next
      case True
      then have s2: "s' = s2" using u gone by (auto simp: user_activity_def Let_def)
      have lp: "lease_peers (fst (abandon_for_manual_change now thr x ?s1)) = lease_peers s" for x
        by (auto simp: abandon_for_manual_change_def st_update_def drop_delivery_def drop_deadline_def cancel_task_def
            and_then_def split: option.splits prod.splits sum.splits)
      have "over s2 (job_id l)"
        using gone(5) True by (auto simp: over_def abandon_fields_def is_live_def live_state_def)
      moreover have "map_of (lease_peers s2) j = map_of (lease_peers s) j \<or> map_of (lease_peers s2) j = None \<and> j = job_id l"
        using gone(1,3) lp [of "''User activity superseded automatic continuation''"]
        by (auto simp: s_abandon_def Let_def and_then_def pop_lease_peer_def delete_conv'
            split: prod.splits sum.splits if_splits)
      ultimately show ?thesis using s2 by auto
    qed
  qed
qed

definition session_stays :: "session_bridge \<Rightarrow> session_bridge \<Rightarrow> string \<Rightarrow> bool" where
  "session_stays s s' j \<longleftrightarrow> (\<forall>l. lease_at s j = Some l \<longrightarrow> wake_mode l = M_session \<longrightarrow>
     (\<exists>l'. lease_at s' j = Some l' \<and> wake_mode l' = M_session))"

lemma gentle_stays: "gentle s s' \<Longrightarrow> session_stays s s' j"
proof -
  assume q: "gentle s s'"
  have "\<exists>l'. lease_at s' j = Some l' \<and> wake_mode l' = M_session" if l: "lease_at s j = Some l" "wake_mode l = M_session" for l
    using gentle_lease [OF q l] l(2) by (auto simp: lease_key_def)
  then show ?thesis by (simp add: session_stays_def)
qed

lemma stays_trans: "session_stays s s' j \<Longrightarrow> session_stays s' s'' j \<Longrightarrow> session_stays s s'' j"
  unfolding session_stays_def by blast

lemma drop_threads_effect:
  "session_inv s \<Longrightarrow> drop_threads now p ps s = (s', r) \<Longrightarrow>
     (\<forall>x \<in> set (peers s'). x \<in> set (peers s) \<and> (fst x, p) \<notin> set ps)
   \<and> (map_of (lease_peers s') j = map_of (lease_peers s) j \<or> map_of (lease_peers s') j = None \<and> over s' j)
   \<and> session_stays s s' j"
proof (induction now p ps s rule: drop_threads.induct)
  case (1 now p s)
  then show ?case by (simp add: session_stays_def)
next
  case (2 now p thr q ps s)
  show ?case
  proof (cases "q = p")
    case True
    obtain s1 r1 where u: "user_activity now thr s = (s1, r1)" by fastforce
    have t: "tinv s" using 2(3) by (simp add: session_inv_def)
    let ?s2 = "s1\<lparr>peers := AList.delete thr (peers s1), ambiguous_threads := ambiguous_threads s1 - {thr}\<rparr>"
    have "drop_threads now p [(thr, q)] s = (?s2, Inr ())"
      using user_activity_inv(2) [OF 2(3) u] True u by simp
    then have i: "session_inv ?s2" using drop_threads_inv [OF 2(3)] by blast
    have d: "drop_threads now p ps ?s2 = (s', r)"
      using 2(4) True u user_activity_inv(2) [OF 2(3) u] by simp
    have q: "gentle (s\<lparr>calls := filter (\<lambda>((t, _), _). t \<noteq> thr) (calls s)\<rparr>) s1"
      using user_activity_quiet(2) [OF t u] by (simp add: qt_def)
    have same: "peers s1 = peers s" using q by (simp add: gentle_def gentle_rest_def)
    have c: "calm s1 s'" using calm_drop_threads [OF i d] by simp
    have "session_stays s ?s2 j" using gentle_stays [OF q, of j] by (simp add: session_stays_def)
    moreover have "set (AList.delete thr (peers s)) \<subseteq> {x \<in> set (peers s). fst x \<noteq> thr}"
      by (auto simp: AList.delete_eq)
    moreover have "map_of (lease_peers s') j = map_of (lease_peers s) j \<or> map_of (lease_peers s') j = None \<and> over s' j"
    proof (cases "map_of (lease_peers s') j = map_of (lease_peers s1) j")
      case True
      then show ?thesis using activity_lease_peers [OF t u, of j] c by (auto simp: calm_def)
    next
      case False
      then show ?thesis using 2(1) [OF \<open>q = p\<close> i d] by simp
    qed
    ultimately show ?thesis using 2(1) [OF True i d] same True stays_trans [of s ?s2 j s'] by fastforce
  next
    case False
    then show ?thesis using 2 by auto
  qed
qed

lemma drop_leases_effect:
  "session_inv s \<Longrightarrow> drop_leases now p ps s = (s', r) \<Longrightarrow>
     peers s' = peers s
   \<and> (\<forall>j. map_of (lease_peers s') j = Some p \<longrightarrow> map_of (lease_peers s) j = Some p \<and> (j, p) \<notin> set ps)
   \<and> (\<forall>j l. (j, p) \<in> set ps \<longrightarrow> lease_at s j = Some l \<longrightarrow> wake_mode l = M_session \<longrightarrow> C_wake \<notin> set (controls s j) \<longrightarrow> over s' j)"
proof (induction now p ps s rule: drop_leases.induct)
  case (2 now p j q ps s)
  show ?case
  proof (cases "q = p")
    case True
    obtain s1 r1 where u: "(case db_get (store s) j of
        None \<Rightarrow> (s, Inr ()) | Some lease \<Rightarrow> user_activity now (thread_id lease) s) = (s1, r1)" by fastforce
    let ?s2 = "pop_lease_peer j s1"
    have t: "tinv s" using 2(3) by (simp add: session_inv_def)
    have r1: "r1 = Inr ()" using u user_activity_inv(2) [OF 2(3)] by (auto split: option.splits)
    have "drop_leases now p [(j, q)] s = (?s2, Inr ())" using u r1 True by simp
    then have i: "session_inv ?s2" using drop_leases_inv [OF 2(3)] by blast
    have d: "drop_leases now p ps ?s2 = (s', r)" using 2(4) True u r1 by simp
    note IH = 2(1) [OF True i d]
    have c2: "calm ?s2 s'" using calm_drop_leases [OF i d] .
    have q: "qt (s\<lparr>calls := calls s1\<rparr>) s1 \<and> calm s s1"
    proof (cases "db_get (store s) j")
      case None
      then show ?thesis using u t by auto
    next
      case (Some l)
      then have ua: "user_activity now (thread_id l) s = (s1, r1)" using u by simp
      have "calls s1 = filter (\<lambda>((t, _), _). t \<noteq> thread_id l) (calls s)"
        using user_activity_quiet(2) [OF t ua] by (simp add: qt_def gentle_def gentle_rest_def)
      then show ?thesis using user_activity_quiet(2) [OF t ua] calm_activity [OF t, of now "thread_id l"] ua by simp
    qed
    have peers: "peers ?s2 = peers s" using q by (simp add: qt_def gentle_def gentle_rest_def pop_lease_peer_def)
    have lp: "map_of (lease_peers ?s2) k = Some p \<Longrightarrow> map_of (lease_peers s) k = Some p \<and> k \<noteq> j" for k
    proof -
      assume k: "map_of (lease_peers ?s2) k = Some p"
      then have "k \<noteq> j" "map_of (lease_peers s1) k = Some p" by (auto simp: pop_lease_peer_def delete_conv' split: if_splits)
      moreover have "map_of (lease_peers s1) k = None \<or> map_of (lease_peers s1) k = map_of (lease_peers s) k"
        using q by (simp add: qt_def gentle_def gentle_leases_def)
      ultimately show ?thesis by auto
    qed
    have own: "over s' j" if l: "lease_at s j = Some l" "wake_mode l = M_session" "C_wake \<notin> set (controls s j)" for l
    proof -
      have "leases None {} s" using 2(3) by (simp add: session_inv_def sv_def)
      then have "stage l (controls s j)" "lease_ok l" using l(1,2) by (simp_all add: leases_def)
      then have "is_live l \<Longrightarrow> delivery_state l \<noteq> D_activating"
        using l(3) by (auto simp: lease_ok_def stage_def split: handoff_state.splits)
      moreover have "user_activity now (thread_id l) s = (s1, r1)" using u l(1) by simp
      ultimately have "over s1 j" using activity_over [OF t _ l(1,2)] by blast
      then show ?thesis using c2 by (simp add: calm_def over_def pop_lease_peer_def)
    qed
    have others: "over s' k" if k: "(k, p) \<in> set ps" "lease_at s k = Some l" "wake_mode l = M_session" "C_wake \<notin> set (controls s k)" for k l
    proof -
      have "gentle (s\<lparr>calls := calls s1\<rparr>) s1" using q by (simp add: qt_def)
      then obtain m where "lease_at s1 k = Some m" "lease_key m = lease_key l"
        by (rule gentle_lease [of _ _ k l]) (use k in simp_all)
      moreover have "controls ?s2 k = controls s k" using q by (simp add: calm_def controls_def pop_lease_peer_def)
      ultimately show ?thesis using IH k by (auto simp: lease_key_def pop_lease_peer_def)
    qed
    show ?thesis using IH peers lp own others True by auto
  next
    case False
    then show ?thesis using 2 by auto
  qed
qed simp

text \<open>
  A connection that ends leaves nothing behind: no thread is bound to it, no lease and
  no observed call, and every session lease it owned is over unless its wake was already sent.
\<close>

theorem connection_end_forgets:
  assumes reach: "session_reach s" and d: "disconnected now p s = (s', r)"
  shows "r = Inr () \<and> map_of (peers s') thr \<noteq> Some p \<and> map_of (lease_peers s') j \<noteq> Some p
    \<and> (\<forall>k u. (k, (u, p)) \<notin> set (calls s'))
    \<and> (\<forall>l. map_of (lease_peers s) j = Some p \<longrightarrow> lease_at s j = Some l \<longrightarrow> wake_mode l = M_session \<longrightarrow>
         C_wake \<notin> set (controls s j) \<longrightarrow> over s' j)"
proof -
  note inv = session_reach_inv [OF reach]
  obtain s1 r1 where d1: "drop_threads now p (peers s) s = (s1, r1)" by fastforce
  note i1 = drop_threads_inv [OF inv d1] and c1 = calm_drop_threads [OF inv d1]
  note e1 = drop_threads_effect [OF inv d1, of j]
  obtain s2 r2 where d2: "drop_leases now p (lease_peers s1) s1 = (s2, r2)" by fastforce
  have inv1: "session_inv s1" using i1 by simp
  note i2 = drop_leases_inv [OF inv1 d2] and e2 = drop_leases_effect [OF inv1 d2] and c2 = calm_drop_leases [OF inv1 d2]
  have s': "s' = s2\<lparr>calls := filter (\<lambda>(_, (_, q)). q \<noteq> p) (calls s2)\<rparr>" "r = Inr ()"
    using d d1 d2 i1 i2 by (simp_all add: disconnected_def)
  have "map_of (peers s1) thr \<noteq> Some p"
  proof
    assume "map_of (peers s1) thr = Some p"
    then have "(thr, p) \<in> set (peers s1)" by (rule map_of_SomeD)
    then show False using e1 by fastforce
  qed
  moreover have "map_of (lease_peers s2) j \<noteq> Some p"
    using e2 map_of_SomeD [of "lease_peers s1" j p] by blast
  moreover have "over s2 j"
    if l: "map_of (lease_peers s) j = Some p" "lease_at s j = Some l" "wake_mode l = M_session" "C_wake \<notin> set (controls s j)" for l
  proof (cases "map_of (lease_peers s1) j = Some p")
    case False
    then have "over s1 j" using e1 l(1) by (elim conjE disjE) simp_all
    then show ?thesis using c2 by (simp add: calm_def)
  next
    case True
    obtain l1 where "lease_at s1 j = Some l1" "wake_mode l1 = M_session"
      using e1 l(2,3) unfolding session_stays_def by blast
    moreover have "controls s1 j = controls s j" using c1 by (simp add: calm_def)
    ultimately show ?thesis using e2 map_of_SomeD [OF True] l(4) by simp
  qed
  ultimately show ?thesis using s' e2 by (auto simp: over_def)
qed

theorem connection_end_forgets_witness:
  "\<exists>s s'. run_session armed_run boot_session = Some s \<and> sstep (S_disconnect 7 7) s = Some s'
     \<and> map_of (lease_peers s) job_a = Some 7 \<and> map_of (lease_peers s') job_a \<noteq> Some 7 \<and> over s' job_a"
proof -
  obtain s where s: "run_session armed_run boot_session = Some s" "map_of (lease_peers s) job_a = Some 7"
    "look s = (Some (L_armed, H_pending, D_pending), [])" and m: "identity s = Some (M_session, thread_a)"
    using restart_ends by (auto simp del: sstep.simps)
  obtain l where l: "lease_at s job_a = Some l" "wake_mode l = M_session" using m by (auto simp: identity_def)
  obtain s' r where d: "disconnected 7 7 s = (s', r)" by fastforce
  have "C_wake \<notin> set (controls s job_a)" using s(3) by (simp add: look_def)
  then show ?thesis
    using connection_end_forgets [OF session_demo_reach [OF s(1)] d, of thread_a job_a] s(1,2) l d by auto
qed

section \<open>Leases\<close>

text \<open>
  C26. A stored session lease is well-formed: it has left preparation, its handoff has a
  stage, and a wake under way is one of a finished job after a complete handoff whose
  confirmation is awaited by a task that holds the owner's connection and is not cancelled.
\<close>

theorem session_lease_wellformed:
  assumes reach: "session_reach s" and l: "lease_at s j = Some l" "wake_mode l = M_session"
  shows "lease_state l \<noteq> L_preparing \<and> handoff_state l \<noteq> H_not_applicable
    \<and> (is_live l \<longrightarrow> delivery_state l = D_activating \<longrightarrow>
         lease_state l = L_terminal \<and> handoff_state l = H_ready
         \<and> (\<exists>tid l' p t. session_tasks s tid = Some (D_start l' p) \<and> job_id l' = j \<and> activity_lock s p = Some tid
              \<and> tasks s tid = Some t \<and> \<not> cancelled t))"
proof -
  have inv: "session_inv s" using session_reach_inv [OF reach] .
  then have i: "lease_ok l" "stage l (controls s j)" "no_prep s"
    "is_live l \<Longrightarrow> delivery_state l = D_activating \<Longrightarrow> waking None s j"
    using l by (simp_all add: session_inv_def sv_def leases_def tinv_def)
  have "\<exists>tid l' p t. session_tasks s tid = Some (D_start l' p) \<and> job_id l' = j \<and> activity_lock s p = Some tid
      \<and> tasks s tid = Some t \<and> \<not> cancelled t" if w: "waking None s j"
  proof -
    obtain tid l' p where t: "session_tasks s tid = Some (D_start l' p)" "job_id l' = j"
      using w by (auto simp: waking_def sp_def)
    have "at_ok tid s (D_start l' p)" using session_begin(2) [OF inv t(1)] .
    then show ?thesis using t by (auto simp: at_ok_def point_ok_def)
  qed
  moreover have "lease_state l \<noteq> L_preparing" using i(3) l unfolding no_prep_def by blast
  ultimately show ?thesis using i by (auto simp: lease_ok_def stage_def split: handoff_state.splits)
qed

lemma waking_lease:
  "\<exists>s s' l. run_session latest_run boot_session = Some s \<and> sstep wake_reply s = Some s' \<and> lease_at s' job_a = Some l
     \<and> wake_mode l = M_session \<and> is_live l \<and> delivery_state l = D_activating \<and> thread_id l = thread_a"
proof -
  obtain s s' where s: "run_session latest_run boot_session = Some s" "sstep wake_reply s = Some s'"
    "look s' = (Some (L_terminal, H_ready, D_activating), [C_interrupt, C_receipt, C_wake])"
    "identity s' = Some (M_session, thread_a)"
    using wake_step by blast
  then obtain l where "lease_at s' job_a = Some l" "lease_state l = L_terminal" "delivery_state l = D_activating"
    "wake_mode l = M_session" "thread_id l = thread_a" by (auto simp: look_def identity_def)
  then show ?thesis using s by (auto simp: is_live_def live_state_def)
qed

theorem session_lease_wellformed_witness:
  "\<exists>s s' l. run_session latest_run boot_session = Some s \<and> sstep wake_reply s = Some s' \<and> lease_at s' job_a = Some l
     \<and> delivery_state l = D_activating \<and> lease_state l = L_terminal \<and> handoff_state l = H_ready"
proof -
  obtain s s' l where s: "run_session latest_run boot_session = Some s" "sstep wake_reply s = Some s'"
    "lease_at s' job_a = Some l" "wake_mode l = M_session" "is_live l" "delivery_state l = D_activating"
    using waking_lease by blast
  have "session_reach s'" using session_reach.step [OF session_demo_reach [OF s(1)] s(2)] .
  from session_lease_wellformed [OF this s(3,4)] show ?thesis using s by blast
qed

text \<open>
  A registration that answers with the session mode has done what it says: the Goal is
  the one it saw before, the lease is armed and its handoff still to come, bound to the thread,
  the turn and the tool call, and the connection that showed the call owns it.
\<close>

theorem registration_binds:
  assumes reach: "session_reach s" and c: "s_prepare_goal now p r s = (s', Inr c)"
  shows "\<exists>res l. r = Inr res \<and> py_eq (jget ''goal'' res) (p_goal p) \<and> lease_at s' (p_job p) = Some l \<and> wake_mode l = M_session
    \<and> lease_state l = L_armed \<and> handoff_state l = H_pending \<and> thread_id l = p_thread p \<and> turn_id l = Some (p_turn p)
    \<and> call_id l = Some (p_call p) \<and> map_of (lease_peers s') (p_job p) = Some (p_peer p)"
proof -
  have ok: "store_ok (store s)" using session_reach_inv [OF reach] by (simp add: session_inv_def tinv_def)
  obtain res where r: "r = Inr res" "py_eq (jget ''goal'' res) (p_goal p)"
    and old: "\<And>l. lease_at s (p_job p) = Some l \<Longrightarrow> lease_state l = L_armed \<and> handoff_state l = H_pending"
    and commit: "s_prepare_commit now p s = (s', Inr c)"
    using c by (auto simp: s_prepare_goal_def split: sum.splits if_splits option.splits)
  define n where "n = \<lparr>nl_job_id = p_job p, nl_thread_id = p_thread p, nl_objective = dumps_sorted (p_goal p),
      nl_goal_created_at = 0, nl_goal_updated_at = 0,
      nl_deadline_at = now + of_int (p_timeout p) + of_int (p_grace p) + 60,
      nl_wake_mode = M_session, nl_turn_id = Some (p_turn p), nl_call_id = Some (p_call p)\<rparr>"
  obtain s1 r1 where cr: "st_create now n s = (s1, r1)" by fastforce
  obtain l where r1: "r1 = Inr l"
    using commit cr by (cases r1) (simp_all add: s_prepare_commit_def n_def [symmetric])
  have l: "lease_at s1 (p_job p) = Some l" "thread_id l = p_thread p" "handoff_state l = H_pending" "store_ok (store s1)"
    using cr ok
    by (cases rule: st_create_cases;
        use r1 ok old in \<open>simp add: n_def db_get_insert lease_of_new_def lease_of_row_def row_of_new_def wake_lease.truncate_def\<close>)+
  have m: "wake_mode l = M_session" "turn_id l = Some (p_turn p)" "call_id l = Some (p_call p)"
    using commit cr r1 by (auto simp: s_prepare_commit_def n_def [symmetric] split: if_splits)
  obtain s2 r2 where u: "st_update now (p_job p) [F_state L_armed] s1 = (s2, r2)" by fastforce
  obtain l2 where r2: "r2 = Inr l2"
    using commit cr r1 m u by (cases r2) (simp_all add: s_prepare_commit_def n_def [symmetric])
  from u l(4) show ?thesis
  proof (cases rule: session_update_cases)
    case (stored l3)
    then show ?thesis
      using commit cr r1 m u r2 l r
      by (auto simp: s_prepare_commit_def n_def [symmetric] Let_def schedule_deadline_def spawn_def db_get_put update_conv')
  qed (use r2 in simp)
qed

theorem registration_binds_witness:
  "\<exists>s p s' c l. run_session (take 6 armed_run) boot_session = Some s \<and> session_tasks s 0 = Some (SP_goal p)
     \<and> s_prepare_goal 6 p no_goal s = (s', Inr c) \<and> lease_at s' (p_job p) = Some l \<and> lease_state l = L_armed
     \<and> map_of (lease_peers s') (p_job p) = Some (p_peer p)"
proof -
  obtain s p s' c where s: "run_session (take 6 armed_run) boot_session = Some s" "session_tasks s 0 = Some (SP_goal p)"
    "s_prepare_goal 6 p no_goal s = (s', Inr c)"
  proof -
    obtain s where s: "run_session (take 6 armed_run) boot_session = Some s"
      "(case session_tasks s 0 of
          Some (SP_goal p) \<Rightarrow> (case s_prepare_goal 6 p no_goal s of (s', Inr c) \<Rightarrow> Some (look s', p_job p) | _ \<Rightarrow> None)
        | _ \<Rightarrow> None) = Some ((Some (L_armed, H_pending, D_pending), []), job_a)"
      using armed_ends by (auto simp del: run_session.simps)
    obtain p where p: "session_tasks s 0 = Some (SP_goal p)"
      "(case s_prepare_goal 6 p no_goal s of (s', Inr c) \<Rightarrow> Some (look s', p_job p) | _ \<Rightarrow> None) =
         Some ((Some (L_armed, H_pending, D_pending), []), job_a)"
      using s(2) by (cases "session_tasks s 0"; cases "the (session_tasks s 0)") simp_all
    obtain s' r where r: "s_prepare_goal 6 p no_goal s = (s', r)" by fastforce
    show ?thesis using that [OF s(1) p(1)] p(2) r by (cases r) auto
  qed
  from registration_binds [OF session_demo_reach [OF s(1)] s(3)] show ?thesis using s by blast
qed

section \<open>Cancelling a wake\<close>

text \<open>
  A cancellation that comes too late says it was in time: while the wake of a job is under
  way, \<open>cancel_wakeup\<close> answers \<open>wakeup_cancelled: true\<close> and changes nothing, so the wake
  goes on.
\<close>

theorem late_cancel_reports_success:
  assumes reach: "session_reach s" and l: "lease_at s j = Some l" "wake_mode l = M_session" "is_live l"
      "delivery_state l = D_activating"
    and req: "check_job_id (jget ''job_id'' req) = Inr j" "check_thread_id (jget ''thread_id'' req) = Inr (thread_id l)"
  shows "session_control now ''cancel_wakeup'' req s =
    (s, Inr (reply_with [(''ok'', JBool True), (''wakeup_cancelled'', JBool True), (''job_cancelled'', JBool False)]))"
proof -
  have t: "tinv s" using session_reach_inv [OF reach] by (simp add: session_inv_def)
  then have ok: "store_ok (store s)" by (simp add: tinv_def)
  have live: "db_live_for_thread (store s) (thread_id l) = Some l"
    using l(1,3) db_get_key [OF l(1)] ok by (auto simp: db_live_for_thread_iff)
  have "s_abandon now (thread_id l) r s = (s, Inr ())" for r
    using live l(4) by (cases rule: s_abandon_effect [OF t, of "thread_id l" now r]) auto
  moreover have "lease_state l \<in> {L_preparing, L_armed, L_terminal, L_abandoned}"
    using l(3) by (auto simp: is_live_def live_state_def)
  ultimately show ?thesis using l(1,2) req by (auto simp: session_control_def)
qed

theorem late_cancel_reports_success_witness:
  "\<exists>s s' v. run_session latest_run boot_session = Some s \<and> sstep wake_reply s = Some s'
     \<and> session_control 21 ''cancel_wakeup'' cancel_request s' = (s', Inr (reply_with v))
     \<and> (''wakeup_cancelled'', JBool True) \<in> set v"
proof -
  obtain s s' l where s: "run_session latest_run boot_session = Some s" "sstep wake_reply s = Some s'"
    "lease_at s' job_a = Some l" "wake_mode l = M_session" "is_live l" "delivery_state l = D_activating"
    and th: "thread_id l = thread_a"
    using waking_lease by blast
  have r: "session_reach s'" using session_reach.step [OF session_demo_reach [OF s(1)] s(2)] .
  have req: "check_job_id (jget ''job_id'' cancel_request) = Inr job_a" "check_thread_id (jget ''thread_id'' cancel_request) = Inr thread_a"
    by code_simp+
  from late_cancel_reports_success [OF r s(3-6) req(1) req(2) [folded th], of 21] show ?thesis using s(1,2) by auto
qed

text \<open>
  C38. A cancellation reaches further than its job: \<open>cancel_wakeup\<close> for a job whose wake was
  already abandoned abandons whatever wake the thread has now, even that of a Goal job, although
  session control is refused for Goal leases.
\<close>

theorem stale_cancel_hits_other_job:
  assumes reach: "session_reach s" and l: "lease_at s j = Some l" "wake_mode l = M_session" "lease_state l = L_abandoned"
    and g: "db_live_for_thread (store s) (thread_id l) = Some g" "delivery_state g \<noteq> D_activating"
    and req: "check_job_id (jget ''job_id'' req) = Inr j" "check_thread_id (jget ''thread_id'' req) = Inr (thread_id l)"
  shows "job_id g \<noteq> j \<and> (\<exists>s' v g'. session_control now ''cancel_wakeup'' req s = (s', Inr (reply_with v))
    \<and> (''wakeup_cancelled'', JBool True) \<in> set v
    \<and> lease_at s' (job_id g) = Some g' \<and> lease_state g' = L_abandoned \<and> delivery_state g' = D_abandoned)"
proof -
  have t: "tinv s" using session_reach_inv [OF reach] by (simp add: session_inv_def)
  then have ok: "store_ok (store s)" by (simp add: tinv_def)
  have "is_live g" "lease_at s (job_id g) = Some g" using live_lease [OF ok g(1)] by simp_all
  then have ne: "job_id g \<noteq> j" using l(1,3) by (auto simp: is_live_def live_state_def)
  let ?r = "''Session wakeup explicitly cancelled''"
  show ?thesis
  proof (cases rule: s_abandon_effect [OF t, of "thread_id l" now ?r, case_names none kept gone])
    case (gone m s')
    then have "m = g" using g(1) by simp
    have "session_control now ''cancel_wakeup'' req s = (s', Inr (reply_with [(''ok'', JBool True),
        (''wakeup_cancelled'', JBool True), (''job_cancelled'', JBool False)]))"
      using gone(3) l req by (simp add: session_control_def)
    then show ?thesis using ne gone(5) \<open>m = g\<close> by (auto simp: abandon_fields_def)
  qed (use g in simp_all)
qed

theorem stale_cancel_hits_other_job_witness:
  "\<exists>s s' v g'. run_session goal_run boot_session = Some s
     \<and> map_option wake_mode (db_live_for_thread (store s) thread_a) = Some M_goal
     \<and> session_control 13 ''cancel_wakeup'' cancel_request s = (s', Inr (reply_with v))
     \<and> lease_at s' job_b = Some g' \<and> lease_state g' = L_abandoned"
proof -
  obtain s g where s: "run_session goal_run boot_session = Some s"
    "look s = (Some (L_abandoned, H_pending, D_abandoned), [])" "identity s = Some (M_session, thread_a)"
    "db_live_for_thread (store s) thread_a = Some g" "job_id g = job_b" "wake_mode g = M_goal" "delivery_state g = D_pending"
    using goal_ends by auto
  obtain l where l: "lease_at s job_a = Some l" "wake_mode l = M_session" "lease_state l = L_abandoned" "thread_id l = thread_a"
    using s(2,3) by (auto simp: look_def identity_def)
  have req: "check_job_id (jget ''job_id'' cancel_request) = Inr job_a" "check_thread_id (jget ''thread_id'' cancel_request) = Inr thread_a"
    by code_simp+
  from stale_cancel_hits_other_job [OF session_demo_reach [OF s(1)] l(1-3), unfolded l(4), OF s(4) _ req, of 13]
  show ?thesis using s by auto
qed

section \<open>Timeouts\<close>

lemma failed_over:
  assumes t: "tinv s" and l: "lease_at s j = Some cur" "wake_mode cur = M_session" and f: "session_failed now j r s = (s', Inr ())"
  shows "over s' j"
proof (cases "lease_state cur \<in> {L_armed, L_terminal}")
  case False
  then have "\<not> is_live cur" using t l by (auto simp: tinv_def no_prep_def is_live_def live_state_def)
  then show ?thesis using False l f by (auto simp: session_failed_def over_def)
next
  case True
  obtain s1 r1 where u: "st_update now j (failed_fields r) s = (s1, r1)" by fastforce
  have ok: "store_ok (store s)" using t by (simp add: tinv_def)
  from u ok show ?thesis
  proof (cases rule: session_update_cases)
    case (stored m)
    then have "s' = pop_lease_peer j s1" using f True l u by (auto simp: session_failed_def)
    then show ?thesis using stored l by (simp add: over_def pop_lease_peer_def db_get_put)
  qed (use f True l u in \<open>auto simp: session_failed_def\<close>)
qed

text \<open>
  A stuck handoff blocks nobody: while a handoff waits for an answer over its connection
  the timeout of the transfer can end it; then the coroutine is gone, the connection's lock is
  free, the lease is over and the client gets the error.
\<close>

theorem handoff_timeout_frees:
  assumes reach: "session_reach s" and t: "session_tasks s tid = Some pc" "serving pc = Some (l, p)" "holds pc = Some p"
    and h: "tasks s tid = None"
  shows "\<exists>s'. sstep (S_timeout now tid) s = Some s' \<and> session_tasks s' tid = None \<and> activity_lock s' p = None
    \<and> over s' (job_id l) \<and> (tid, error_response (TimeoutError [])) \<in> set (responses s')"
proof -
  note inv = session_reach_inv [OF reach]
  have b: "beside pc None" using session_begin(2) [OF inv t(1)] h by (simp add: at_ok_def)
  have d: "\<not> is_D_start pc" using b by (cases pc) simp_all
  have sv: "serve tid l p s" using begin_serve(1) [OF inv t d] .
  obtain cur where cur: "lease_at s (job_id l) = Some cur" "wake_mode cur = M_session" using sv by (auto simp: serve_def)
  have run: "running tid {} {p} s" "activity_lock s p = Some tid" using sv by (simp_all add: serve_def)
  have "\<exists>g. session_timeout now pc s = Some (in_transfer now l p g (s, Inl (TimeoutError []))) \<and> s_answers pc"
    using b t(2,3) by (cases pc) auto
  then obtain g where g: "session_timeout now pc s = Some (in_transfer now l p g (s, Inl (TimeoutError [])))" "s_answers pc"
    by blast
  define s1 where "s1 = leave p (if g then pop_turn l s else s)"
  have run1: "running tid {} {} s1"
    using running_leave [of tid "{}" "{p}" "if g then pop_turn l s else s" p] run by (simp add: s1_def pop_turn_def)
  have st1: "lease_at s1 = lease_at s" "session_tasks s1 = session_tasks s" "activity_lock s1 p = None"
    by (simp_all add: s1_def leave_def pop_turn_def)
  obtain s2 r2 where f: "session_failed now (job_id l) (''handoff failed: '' @ exc_str (TimeoutError [])) s1 = (s2, r2)"
    by fastforce
  note fr = session_failed_run [OF run1 _ cur(2) _ f]
  have r2: "r2 = Inr ()" "activity_lock s2 p = None" using fr(2,3) cur(1) st1 by simp_all
  have over: "over s2 (job_id l)"
    using failed_over [of s1 "job_id l" cur now _ s2] f r2 run1 cur st1 by (auto simp: running_def)
  have "in_transfer now l p g (s, Inl (TimeoutError [])) = (s2, Inl (TimeoutError []))"
    using f r2 by (simp add: in_transfer_def handoff_raise_def s1_def Let_def)
  then have "sstep (S_timeout now tid) s = Some (s_settle tid True (s2, Inl (TimeoutError [])))"
    using t(1) g by simp
  then show ?thesis using r2 over by (auto simp: s_settle_def settle_def over_def)
qed

theorem handoff_timeout_frees_witness:
  "\<exists>s s' pc l. run_session asked_run boot_session = Some s \<and> session_tasks s 2 = Some pc \<and> serving pc = Some (l, 7)
     \<and> sstep (S_timeout 30 2) s = Some s' \<and> activity_lock s' 7 = None \<and> over s' (job_id l)"
proof -
  obtain s pc l where s: "run_session asked_run boot_session = Some s" "session_tasks s 2 = Some pc"
    "serving pc = Some (l, 7)" "holds pc = Some 7" "tasks s 2 = None"
    using asked_task by blast
  from handoff_timeout_frees [OF session_demo_reach [OF s(1)] s(2-5), of 30] show ?thesis using s by blast
qed

section \<open>The Goal a session is bound to\<close>

lemma dumps_permuted:
  assumes "mset kvs = mset kvs'" "distinct (map fst kvs)"
  shows "dumps_sorted (JObj kvs) = dumps_sorted (JObj kvs')"
proof -
  let ?f = "\<lambda>(k, v). (k, dumps_sorted v)"
  let ?xs = "sort_key fst (map ?f kvs)" and ?ys = "sort_key fst (map ?f kvs')"
  have k: "map fst (map ?f zs) = map fst zs" for zs by (simp add: case_prod_beta)
  have m: "mset (map fst kvs) = mset (map fst kvs')" using assms(1) by (metis mset_map)
  then have d: "distinct (map fst (map ?f kvs))" "distinct (map fst (map ?f kvs'))"
    using assms(2) k mset_eq_imp_distinct_iff by metis+
  have s: "set (map ?f kvs) = set (map ?f kvs')" using assms(1) by (metis mset_map set_mset_mset)
  have "?xs = ?ys"
  proof (rule map_sorted_distinct_set_unique [where f = fst])
    have e: "distinct (map fst zs) = (distinct zs \<and> inj_on fst (set zs))" for zs :: "(string \<times> string) list"
      by (rule distinct_map)
    show "inj_on fst (set ?xs \<union> set ?ys)" using d(1) [unfolded e] s by simp
    show "distinct (map fst ?xs)" "distinct (map fst ?ys)" using d [unfolded e] by (simp_all only: e set_sort distinct_sort)
  qed (use s in simp_all)
  then show ?thesis by (simp only: dumps_sorted.simps)
qed

text \<open>
  The Goal is recognised however the App Server orders its fields: a lease bound to a Goal
  accepts any reply that holds the same fields in another order.
\<close>

theorem goal_recognised_in_any_order:
  assumes "mset kvs' = mset kvs" "distinct (map fst kvs)" and "objective lease = dumps_sorted (JObj kvs)"
  shows "check_goal lease (JObj [(''goal'', JObj kvs')]) = Inr ()"
proof -
  have "dumps_sorted (JObj kvs') = dumps_sorted (JObj kvs)" using dumps_permuted [OF assms(1) [symmetric] assms(2)] by simp
  then show ?thesis using assms(3) by (simp add: check_goal_def jfield_def)
qed

theorem goal_recognised_in_any_order_witness:
  "dumps_sorted (JObj [(''b'', JInt 2), (''a'', JInt 1)]) = [CHR 0x7B, CHR 0x22, CHR ''a'', CHR 0x22] @ '': 1, '' @
       [CHR 0x22, CHR ''b'', CHR 0x22] @ '': 2'' @ [CHR 0x7D]
   \<and> (\<exists>lease. check_goal lease (JObj [(''goal'', JObj [(''a'', JInt 1), (''b'', JInt 2)])]) = Inr ())"
proof -
  let ?lease = "(lease_of_new (sample_new ''j'' ''t''))\<lparr>objective := dumps_sorted (JObj [(''b'', JInt 2), (''a'', JInt 1)])\<rparr>"
  have "check_goal ?lease (JObj [(''goal'', JObj [(''a'', JInt 1), (''b'', JInt 2)])]) = Inr ()"
    by (rule goal_recognised_in_any_order [of _ "[(''b'', JInt 2), (''a'', JInt 1)]"]) simp_all
  moreover have "dumps_sorted (JObj [(''b'', JInt 2), (''a'', JInt 1)]) = [CHR 0x7B, CHR 0x22, CHR ''a'', CHR 0x22] @ '': 1, '' @
       [CHR 0x22, CHR ''b'', CHR 0x22] @ '': 2'' @ [CHR 0x7D]"
    by code_simp
  ultimately show ?thesis by blast
qed

end
