(* ===== verification/Secret_Input.thy ===== *)
theory Secret_Input
  imports Py_Text
begin

text \<open>
  One-time private stdin handles (\<open>secret_input.py\<close>): the staging directory, the
  creation, pruning and consumption of handles, and the sealed two-secret bundle. The part
  of the file system and of the descriptor table the module works on is an explicit state;
  what the kernel decides (short writes, refused opens, supported seals) is a parameter.
\<close>

section \<open>Files and descriptors\<close>

datatype file_kind = Regular | Directory | Symlink | Special

record inode =
  ikind :: file_kind
  iuid :: int
  imode :: nat
  inlink :: nat
  imtime :: clock
  idata :: string

text \<open>What is found at the path of a directory that should be private.\<close>

datatype dir_node = Absent | Real_dir int nat | Link_to_dir | Not_a_dir

datatype fd_target = File nat | Memfd string nat | Pipe_end

text \<open>
  The state: the two private directories, the entries of the secrets directory with their
  inodes, and the open descriptors of the process; a memory file carries its content and
  its seals.
\<close>

record secret_fs =
  state_node :: dir_node
  secrets_node :: dir_node
  entries :: "(string \<times> nat) list"
  inodes :: "nat \<rightharpoonup> inode"
  fds :: "nat \<rightharpoonup> fd_target"
  next_ino :: nat
  next_fd :: nat

text \<open>
  The kernel's side: the user's id, the result of the \<open>n\<close>-th \<open>write\<close> of a loop,
  whether a file may be opened for reading, whether \<open>memfd_create\<close> exists and succeeds, and the seals
  in force after \<open>F_ADD_SEALS\<close> (\<open>None\<close> where the call raises).
\<close>

record kernel =
  my_uid :: int
  write_result :: "nat \<Rightarrow> int"
  may_open :: "inode \<Rightarrow> bool"
  has_memfd :: bool
  memfd_ok :: bool
  seals_after :: "nat \<Rightarrow> nat option"

definition lookup_entry :: "string \<Rightarrow> secret_fs \<Rightarrow> nat option" where
  "lookup_entry n fs = map_of (entries fs) n"

definition unlink_entry :: "string \<Rightarrow> secret_fs \<Rightarrow> secret_fs" where
  "unlink_entry n fs =
     (case lookup_entry n fs of
        None \<Rightarrow> fs
      | Some i \<Rightarrow>
          fs\<lparr>entries := filter (\<lambda>(k, _). k \<noteq> n) (entries fs),
             inodes := (case inodes fs i of
                          None \<Rightarrow> inodes fs
                        | Some nd \<Rightarrow> (inodes fs)(i \<mapsto> nd\<lparr>inlink := inlink nd - 1\<rparr>))\<rparr>)"

definition close_fd :: "nat \<Rightarrow> secret_fs \<Rightarrow> secret_fs" where
  "close_fd fd fs = fs\<lparr>fds := (fds fs)(fd := None)\<rparr>"

definition open_fd :: "fd_target \<Rightarrow> secret_fs \<Rightarrow> secret_fs \<times> nat" where
  "open_fd t fs = (fs\<lparr>fds := (fds fs)(next_fd fs \<mapsto> t), next_fd := Suc (next_fd fs)\<rparr>, next_fd fs)"

text \<open>The modes \<open>0700\<close> and \<open>0600\<close>.\<close>

definition mode_0700 :: nat where
  "mode_0700 = 448"

definition mode_0600 :: nat where
  "mode_0600 = 384"

section \<open>Handles and roles\<close>

definition role_char :: "char \<Rightarrow> bool" where
  "role_char c \<longleftrightarrow> c \<in> set ''abcdefghijklmnopqrstuvwxyz0123456789_''"

text \<open>\<open>[a-z][a-z0-9_]{0,31}\<close>.\<close>

definition role_ok :: "string \<Rightarrow> bool" where
  "role_ok r \<longleftrightarrow> r \<noteq> [] \<and> length r \<le> 32 \<and> hd r \<in> set ''abcdefghijklmnopqrstuvwxyz''
     \<and> list_all role_char (tl r)"

text \<open>A dict in insertion order; its values were checked to be strings by the caller's type.\<close>

type_synonym secret_pair = "(string \<times> string) list"

definition validate_secret_pair :: "secret_pair option \<Rightarrow> pyexc + secret_pair option" where
  "validate_secret_pair v =
     (case v of
        None \<Rightarrow> Inr None
      | Some kvs \<Rightarrow>
          if length kvs \<noteq> 2 then Inl (ValueError ''secret stdin pair requires exactly two named handles'')
          else if list_ex (\<lambda>(r, h). \<not> role_ok r \<or> \<not> hex_handle 32 h) kvs
          then Inl (ValueError ''secret stdin pair contains an invalid role or handle'')
          else if length (remdups (map snd kvs)) \<noteq> 2
          then Inl (ValueError ''secret stdin pair handles must be distinct'')
          else Inr (Some kvs))"

section \<open>The staging directory\<close>

definition ensure_private_dir :: "kernel \<Rightarrow> dir_node \<Rightarrow> pyexc + dir_node" where
  "ensure_private_dir k d =
     (case d of
        Absent \<Rightarrow> Inr (Real_dir (my_uid k) mode_0700)
      | Not_a_dir \<Rightarrow> Inl (OSError ''File exists'')
      | Link_to_dir \<Rightarrow> Inl (RuntimeError ''longrun secret storage is not a real directory'')
      | Real_dir u m \<Rightarrow>
          if u \<noteq> my_uid k
          then Inl (RuntimeError ''longrun secret storage is not owned by the current user'')
          else Inr (Real_dir u mode_0700))"

definition secret_dir :: "kernel \<Rightarrow> secret_fs \<Rightarrow> (secret_fs, unit) outcome" where
  "secret_dir k fs =
     (case ensure_private_dir k (state_node fs) of
        Inl e \<Rightarrow> (fs, Inl e)
      | Inr d \<Rightarrow>
          let fs = fs\<lparr>state_node := d\<rparr> in
          (case ensure_private_dir k (secrets_node fs) of
             Inl e \<Rightarrow> (fs, Inl e)
           | Inr d' \<Rightarrow> (fs\<lparr>secrets_node := d'\<rparr>, Inr ())))"

definition entry_name :: "string \<Rightarrow> string" where
  "entry_name sid = sid @ ''.stdin''"

definition secret_path :: "kernel \<Rightarrow> string \<Rightarrow> secret_fs \<Rightarrow> (secret_fs, string) outcome" where
  "secret_path k sid fs =
     (if \<not> hex_handle 32 sid then (fs, Inl (ValueError ''invalid one-time stdin handle''))
      else and_then (secret_dir k fs) (\<lambda>_ fs. (fs, Inr (entry_name sid))))"

definition ends_with :: "string \<Rightarrow> string \<Rightarrow> bool" where
  "ends_with s p \<longleftrightarrow> starts_with (rev s) (rev p)"

definition expired_entry :: "kernel \<Rightarrow> clock \<Rightarrow> secret_fs \<Rightarrow> string \<Rightarrow> bool" where
  "expired_entry k cutoff fs n \<longleftrightarrow> ends_with n ''.stdin'' \<and>
     (case lookup_entry n fs of
        None \<Rightarrow> False
      | Some i \<Rightarrow> (case inodes fs i of
                    None \<Rightarrow> False
                  | Some nd \<Rightarrow> iuid nd = my_uid k \<and> imtime nd \<le> cutoff))"

definition is_directory_entry :: "string \<Rightarrow> secret_fs \<Rightarrow> bool" where
  "is_directory_entry n fs \<longleftrightarrow> Option.bind (lookup_entry n fs) (\<lambda>i. map_option ikind (inodes fs i)) = Some Directory"

text \<open>The loop over the names of the glob; unlinking a directory raises.\<close>

fun prune_entries :: "kernel \<Rightarrow> clock \<Rightarrow> string list \<Rightarrow> secret_fs \<Rightarrow> (secret_fs, unit) outcome" where
  "prune_entries k cutoff [] fs = (fs, Inr ())"
| "prune_entries k cutoff (n # ns) fs =
     (if expired_entry k cutoff fs n
      then (if is_directory_entry n fs then (fs, Inl (OSError ''Is a directory''))
            else prune_entries k cutoff ns (unlink_entry n fs))
      else prune_entries k cutoff ns fs)"

definition prune_expired :: "kernel \<Rightarrow> clock \<Rightarrow> int \<Rightarrow> secret_fs \<Rightarrow> (secret_fs, unit) outcome" where
  "prune_expired k now ttl fs = prune_entries k (now - of_int ttl) (map fst (entries fs)) fs"

section \<open>Creation\<close>

text \<open>
  The write loop, also of the bundle: \<open>n\<close> counts the calls, \<open>out\<close> is what the file
  holds so far. The result is the content and whether the loop raised.
\<close>

function write_all :: "(nat \<Rightarrow> int) \<Rightarrow> nat \<Rightarrow> string \<Rightarrow> string \<Rightarrow> string \<times> bool" where
  "write_all wr n view out =
     (if view = [] then (out, True)
      else if wr n \<le> 0 then (out, False)
      else write_all wr (Suc n) (drop (nat (wr n)) view) (out @ take (nat (wr n)) view))"
  by pat_completeness auto

termination write_all
  by (relation "measure (\<lambda>(wr, n, view, out). length view)") auto

declare write_all.simps [simp del]

definition create_one_time_secret ::
  "kernel \<Rightarrow> clock \<Rightarrow> int \<Rightarrow> int \<Rightarrow> string \<Rightarrow> nat \<Rightarrow> string \<Rightarrow> secret_fs \<Rightarrow> (secret_fs, string) outcome" where
  "create_one_time_secret k now ttl max_bytes fresh_id created_mode payload fs =
     (if payload = [] then (fs, Inl (ValueError ''secret stdin payload must not be empty''))
      else if int (length payload) > max_bytes
      then (fs, Inl (ValueError (''secret stdin payload exceeds '' @ int_str max_bytes @ '' bytes'')))
      else
        and_then (secret_dir k fs)
          (\<lambda>_ fs. and_then (prune_expired k now ttl fs) (\<lambda>_ fs.
             let name = entry_name fresh_id in
             if lookup_entry name fs \<noteq> None then (fs, Inl (OSError ''File exists''))
             else
               (case write_all (write_result k) 0 payload [] of (content, ok) \<Rightarrow>
                  let i = next_ino fs;
                      nd = \<lparr>ikind = Regular, iuid = my_uid k, imode = created_mode, inlink = 1,
                            imtime = now, idata = content\<rparr>;
                      fs = fs\<lparr>entries := entries fs @ [(name, i)], inodes := (inodes fs)(i \<mapsto> nd),
                              next_ino := Suc i\<rparr>
                  in if \<not> ok
                     then (unlink_entry name fs, Inl (OSError ''short write while staging secret stdin''))
                     else if created_mode \<noteq> mode_0600
                     then (unlink_entry name fs, Inl (RuntimeError ''secret stdin file permissions are not 0600''))
                     else (fs, Inr fresh_id)))))"

section \<open>Consumption\<close>

text \<open>
  \<open>claim_one_time_secret\<close> asks the kernel four times: it opens the entry, checks the open
  file by \<open>fstat\<close>, looks the name up again by \<open>lstat\<close>, and unlinks it. Another process may run
  in between, so the four parts are functions of their own.
\<close>

definition claim_open :: "kernel \<Rightarrow> string \<Rightarrow> secret_fs \<Rightarrow> (secret_fs, nat) outcome" where
  "claim_open k name fs =
     (case lookup_entry name fs of
        None \<Rightarrow> (fs, Inl (ValueError ''one-time stdin handle was not found or was already consumed''))
      | Some i \<Rightarrow>
          (case inodes fs i of
             None \<Rightarrow> (fs, Inl (ValueError ''one-time stdin handle was not found or was already consumed''))
           | Some nd \<Rightarrow>
               if ikind nd = Symlink \<or> \<not> may_open k nd
               then (fs, Inl (ValueError ''one-time stdin handle is not a safe regular file''))
               else (case open_fd (File i) fs of (fs, fd) \<Rightarrow> (fs, Inr fd))))"

text \<open>The checks on \<open>fstat\<close> of the open file, in their order.\<close>

definition inode_refused :: "kernel \<Rightarrow> clock \<Rightarrow> int \<Rightarrow> int \<Rightarrow> inode \<Rightarrow> pyexc option" where
  "inode_refused k now ttl max_bytes nd =
     (let age = now - imtime nd in
      if ikind nd \<noteq> Regular then Some (ValueError ''one-time stdin handle is not a regular file'')
      else if iuid nd \<noteq> my_uid k then Some (ValueError ''one-time stdin handle has the wrong owner'')
      else if imode nd \<noteq> mode_0600 then Some (ValueError ''one-time stdin handle permissions must be 0600'')
      else if inlink nd \<noteq> 1 then Some (ValueError ''one-time stdin handle must have exactly one link'')
      else if length (idata nd) = 0 \<or> int (length (idata nd)) > max_bytes
      then Some (ValueError ''one-time stdin payload has an invalid size'')
      else if age < - 5 \<or> age > of_int ttl then Some (ValueError ''one-time stdin handle has expired'')
      else None)"

text \<open>The result is the inode that was checked.\<close>

definition claim_fstat ::
  "kernel \<Rightarrow> clock \<Rightarrow> int \<Rightarrow> int \<Rightarrow> nat \<Rightarrow> secret_fs \<Rightarrow> pyexc + nat" where
  "claim_fstat k now ttl max_bytes fd fs =
     (case fds fs fd of
        Some (File i) \<Rightarrow>
          (case inodes fs i of
             None \<Rightarrow> Inl (OSError ''fstat'')
           | Some nd \<Rightarrow> (case inode_refused k now ttl max_bytes nd of Some e \<Rightarrow> Inl e | None \<Rightarrow> Inr i))
      | _ \<Rightarrow> Inl (OSError ''Bad file descriptor''))"

definition claim_lstat :: "string \<Rightarrow> nat \<Rightarrow> secret_fs \<Rightarrow> pyexc option" where
  "claim_lstat name i fs =
     (case lookup_entry name fs of
        None \<Rightarrow> Some (FileNotFoundError name)
      | Some i' \<Rightarrow>
          if i' \<noteq> i then Some (ValueError ''one-time stdin handle changed during validation'')
          else None)"

definition claim_check ::
  "kernel \<Rightarrow> clock \<Rightarrow> int \<Rightarrow> int \<Rightarrow> string \<Rightarrow> nat \<Rightarrow> secret_fs \<Rightarrow> pyexc option" where
  "claim_check k now ttl max_bytes name fd fs =
     (case claim_fstat k now ttl max_bytes fd fs of Inl e \<Rightarrow> Some e | Inr i \<Rightarrow> claim_lstat name i fs)"

definition claim_unlink :: "string \<Rightarrow> nat \<Rightarrow> secret_fs \<Rightarrow> (secret_fs, nat) outcome" where
  "claim_unlink name fd fs =
     (if lookup_entry name fs = None then (close_fd fd fs, Inl (FileNotFoundError name))
      else (unlink_entry name fs, Inr fd))"

definition claim_one_time_secret ::
  "kernel \<Rightarrow> clock \<Rightarrow> int \<Rightarrow> int \<Rightarrow> string \<Rightarrow> secret_fs \<Rightarrow> (secret_fs, nat) outcome" where
  "claim_one_time_secret k now ttl max_bytes sid fs =
     and_then (secret_path k sid fs)
       (\<lambda>name fs. and_then (claim_open k name fs)
          (\<lambda>fd fs.
             (case claim_check k now ttl max_bytes name fd fs of
                Some e \<Rightarrow> (close_fd fd fs, Inl e)
              | None \<Rightarrow> claim_unlink name fd fs)))"

section \<open>The two-secret bundle\<close>

text \<open>The read loop on a descriptor at its start: chunks of at most 8192 bytes.\<close>

function read_loop :: "nat \<Rightarrow> string \<Rightarrow> string \<Rightarrow> pyexc + string" where
  "read_loop max_bytes got rest =
     (let chunk = take (min 8192 (max_bytes + 1 - length got)) rest in
      if chunk = [] then Inr got
      else if length got + length chunk > max_bytes
      then Inl (ValueError ''secret stdin pair exceeds size limit'')
      else read_loop max_bytes (got @ chunk) (drop (length chunk) rest))"
  by pat_completeness auto

termination read_loop
  by (relation "measure (\<lambda>(m, got, rest). length rest)") auto

declare read_loop.simps [simp del]

text \<open>\<open>base64.b64encode\<close>.\<close>

definition b64_char :: "int \<Rightarrow> char" where
  "b64_char n = ''ABCDEFGHIJKLMNOPQRSTUVWXYZabcdefghijklmnopqrstuvwxyz0123456789+/'' ! nat n"

definition byte :: "char \<Rightarrow> int" where
  "byte c = of_char c"

fun b64encode :: "string \<Rightarrow> string" where
  "b64encode [] = []"
| "b64encode [a] =
     [b64_char (byte a div 4), b64_char (byte a mod 4 * 16), CHR ''='', CHR ''='']"
| "b64encode [a, b] =
     [b64_char (byte a div 4), b64_char (byte a mod 4 * 16 + byte b div 16),
      b64_char (byte b mod 16 * 4), CHR ''='']"
| "b64encode (a # b # c # rest) =
     b64_char (byte a div 4) # b64_char (byte a mod 4 * 16 + byte b div 16)
       # b64_char (byte b mod 16 * 4 + byte c div 64) # b64_char (byte c mod 64) # b64encode rest"

text \<open>
  The payload: \<open>json.dumps\<close> with sorted keys and no spaces. Roles and base64 text need no
  escapes.
\<close>

definition quoted :: "string \<Rightarrow> string" where
  "quoted s = [CHR 0x22] @ s @ [CHR 0x22]"

fun str_less :: "string \<Rightarrow> string \<Rightarrow> bool" where
  "str_less _ [] = False"
| "str_less [] (_ # _) = True"
| "str_less (a # s) (b # t) =
     ((of_char a :: nat) < of_char b \<or> a = b \<and> str_less s t)"

definition dump_fields :: "secret_pair \<Rightarrow> string" where
  "dump_fields kvs =
     (let sorted = (case kvs of [x, y] \<Rightarrow> if str_less (fst y) (fst x) then [y, x] else [x, y] | _ \<Rightarrow> kvs) in
      ''{'' @ concat (case sorted of
                        [] \<Rightarrow> []
                      | z # zs \<Rightarrow> (quoted (fst z) @ '':'' @ quoted (snd z))
                                 # map (\<lambda>z. '','' @ quoted (fst z) @ '':'' @ quoted (snd z)) zs) @ ''}'')"

definition dump_payload :: "secret_pair \<Rightarrow> string" where
  "dump_payload kvs =
     ''{'' @ quoted ''encoding'' @ '':'' @ quoted ''base64'' @ '','' @ quoted ''schemaVersion'' @ '':1,''
       @ quoted ''secrets'' @ '':'' @ dump_fields kvs @ ''}'' @ [CHR 0x0A]"

text \<open>The loop over the roles: claim, read, close, encode.\<close>

definition read_secret :: "nat \<Rightarrow> nat \<Rightarrow> secret_fs \<Rightarrow> pyexc + string" where
  "read_secret max_bytes fd fs =
     (case fds fs fd of
        Some (File i) \<Rightarrow> (case inodes fs i of None \<Rightarrow> Inl (OSError ''read'') | Some nd \<Rightarrow> read_loop max_bytes [] (idata nd))
      | _ \<Rightarrow> Inl (OSError ''Bad file descriptor''))"

fun claim_fields ::
  "kernel \<Rightarrow> clock \<Rightarrow> int \<Rightarrow> nat \<Rightarrow> nat \<Rightarrow> secret_pair \<Rightarrow> secret_fs \<Rightarrow> (secret_fs, secret_pair) outcome" where
  "claim_fields k now ttl max_bytes sofar [] fs = (fs, Inr [])"
| "claim_fields k now ttl max_bytes sofar ((role, handle) # others) fs =
     and_then (claim_one_time_secret k now ttl (int max_bytes) handle fs)
       (\<lambda>fd fs.
          case read_secret max_bytes fd fs of
            Inl e \<Rightarrow> (close_fd fd fs, Inl e)
          | Inr data \<Rightarrow>
              if data = [] \<or> sofar + length data > max_bytes
              then (close_fd fd fs, Inl (ValueError ''secret stdin pair exceeds size limit''))
              else and_then (claim_fields k now ttl max_bytes (sofar + length data) others (close_fd fd fs))
                     (\<lambda>kvs fs. (fs, Inr ((role, b64encode data) # kvs))))"

definition secret_seals :: nat where
  "secret_seals = 15"

definition unassembled :: pyexc where
  "unassembled = ValueError ''secret stdin pair could not be assembled''"

text \<open>
  The assembly: \<open>seals & 15 = 15\<close> is a statement on the four low bits of the seals in
  force.
\<close>

definition assemble_pair ::
  "kernel \<Rightarrow> clock \<Rightarrow> int \<Rightarrow> nat \<Rightarrow> secret_pair \<Rightarrow> nat \<Rightarrow> secret_fs \<Rightarrow> (secret_fs, nat) outcome" where
  "assemble_pair k now ttl max_bytes kvs mfd fs =
     and_then (claim_fields k now ttl max_bytes 0 kvs fs)
       (\<lambda>fields fs.
          let payload = dump_payload fields in
          if length payload > max_bytes
          then (fs, Inl (ValueError ''secret stdin pair exceeds encoded size limit''))
          else (case write_all (write_result k) 0 payload [] of (content, ok) \<Rightarrow>
                  if \<not> ok then (fs, Inl (OSError ''short secret stdin write''))
                  else (case seals_after k secret_seals of
                          None \<Rightarrow> (fs, Inl (OSError ''fcntl''))
                        | Some seals \<Rightarrow>
                            if seals mod 16 \<noteq> secret_seals
                            then (fs, Inl (ValueError ''secret stdin seals were not applied''))
                            else (fs\<lparr>fds := (fds fs)(mfd \<mapsto> Memfd content seals)\<rparr>, Inr mfd))))"

definition claim_secret_pair ::
  "kernel \<Rightarrow> clock \<Rightarrow> int \<Rightarrow> nat \<Rightarrow> secret_pair \<Rightarrow> secret_fs \<Rightarrow> (secret_fs, nat) outcome" where
  "claim_secret_pair k now ttl max_bytes handles fs =
     (case validate_secret_pair (Some handles) of
        Inl e \<Rightarrow> (fs, Inl e)
      | Inr None \<Rightarrow> (fs, Inl (ValueError ''memory-backed secret stdin is unavailable''))
      | Inr (Some kvs) \<Rightarrow>
          if \<not> has_memfd k then (fs, Inl (ValueError ''memory-backed secret stdin is unavailable''))
          else if \<not> memfd_ok k then (fs, Inl unassembled)
          else
            (case open_fd (Memfd [] 0) fs of (fs, mfd) \<Rightarrow>
               (case assemble_pair k now ttl max_bytes kvs mfd fs of
                  (fs, Inr fd) \<Rightarrow> (fs, Inr fd)
                | (fs, Inl _) \<Rightarrow> (close_fd mfd fs, Inl unassembled))))"

section \<open>The staging command\<close>

definition read_int_env :: "string \<Rightarrow> string option \<Rightarrow> int \<Rightarrow> int \<Rightarrow> int \<Rightarrow> pyexc + int" where
  "read_int_env name raw default_value minimum maximum =
     (case raw of
        None \<Rightarrow> Inr default_value
      | Some r \<Rightarrow>
          if r = [] then Inr default_value
          else (case int10 r of
                  None \<Rightarrow> Inl (RuntimeError (name @ '' must be an integer''))
                | Some v \<Rightarrow>
                    if \<not> (minimum \<le> v \<and> v \<le> maximum)
                    then Inl (RuntimeError (name @ '' must be between '' @ int_str minimum @ '' and '' @ int_str maximum))
                    else Inr v))"

definition secret_main ::
  "kernel \<Rightarrow> clock \<Rightarrow> string option \<Rightarrow> string option \<Rightarrow> bool \<Rightarrow> bool \<Rightarrow> string \<Rightarrow> string \<Rightarrow>
   string \<Rightarrow> nat \<Rightarrow> secret_fs \<Rightarrow> (secret_fs, string) outcome" where
  "secret_main k now env_ttl env_max no_newline confirm typed again fresh_id created_mode fs =
     (case read_int_env ''LONGRUN_SECRET_TTL_SEC'' env_ttl 300 30 3600 of
        Inl e \<Rightarrow> (fs, Inl e)
      | Inr ttl \<Rightarrow>
     (case read_int_env ''LONGRUN_MAX_STDIN_SECRET_BYTES'' env_max (64 * 1024) 1 (1024 * 1024) of
        Inl e \<Rightarrow> (fs, Inl e)
      | Inr max_bytes \<Rightarrow>
          if confirm \<and> typed \<noteq> again then (fs, Inl (SystemExit ''secret values did not match''))
          else create_one_time_secret k now ttl max_bytes fresh_id created_mode
                 (typed @ (if no_newline then [] else [CHR 0x0A])) fs))"

end
