(* ===== verification/Secret_Claims.thy ===== *)
theory Secret_Claims
  imports Secret_Input
begin

text \<open>
  Properties of the one-time handles: what is staged is what is read, a handle is consumed
  at most once even by racing processes, a refusal leaks no descriptor, and a bundle is
  sealed and decodes to the two secrets.
\<close>

section \<open>Loops\<close>

lemma write_all_ok:
  assumes "\<And>n. wr n > 0"
  shows "write_all wr n view out = (out @ view, True)"
  using assms
proof (induction wr n view out rule: write_all.induct)
  case (1 wr n view out)
  have "\<not> wr n \<le> 0" using "1.prems" [of n] by simp
  then show ?case using 1 by (simp add: write_all.simps [of wr n view out])
qed

lemma write_all_content: "write_all wr n view out = (c, True) \<Longrightarrow> c = out @ view"
  by (induction wr n view out rule: write_all.induct)
    (subst (asm) (2) write_all.simps, auto split: if_splits)

lemma read_loop_eq:
  "length got \<le> m \<Longrightarrow> read_loop m got rest =
     (if length got + length rest > m then Inl (ValueError ''secret stdin pair exceeds size limit'')
      else Inr (got @ rest))"
proof (induction m got rest rule: read_loop.induct)
  case (1 m got rest)
  define c where "c = take (min 8192 (m + 1 - length got)) rest"
  have step: "read_loop m got rest =
      (if c = [] then Inr got
       else if length got + length c > m then Inl (ValueError ''secret stdin pair exceeds size limit'')
       else read_loop m (got @ c) (drop (length c) rest))"
    unfolding read_loop.simps [of m got rest] Let_def c_def [symmetric] ..
  have rest: "c @ drop (length c) rest = rest" "length c + length (drop (length c) rest) = length rest"
    by (simp_all add: c_def min_def)
  show ?case
  proof (cases "c = [] \<or> length got + length c > m")
    case True
    then show ?thesis
    proof
      assume c: "c = []"
      moreover have "min 8192 (m + 1 - length got) \<noteq> 0" using "1.prems" by simp
      ultimately have "rest = []" unfolding c_def take_eq_Nil by blast
      then show ?thesis using c step "1.prems" by simp
    next
      assume c: "length got + length c > m"
      then have "c \<noteq> []" "length got + length rest > m" using "1.prems" rest(2) by auto
      then show ?thesis using c step by simp
    qed
  next
    case False
    then have "read_loop m (got @ c) (drop (length c) rest) =
        (if length (got @ c) + length (drop (length c) rest) > m
         then Inl (ValueError ''secret stdin pair exceeds size limit'') else Inr ((got @ c) @ drop (length c) rest))"
      using 1(1) [OF c_def] by auto
    then show ?thesis using False step rest by auto
  qed
qed

section \<open>Base64\<close>

text \<open>The decoder a consumer of the bundle uses, for text the encoder produced.\<close>

definition b64_value :: "char \<Rightarrow> int" where
  "b64_value c = int (length (takeWhile (\<lambda>d. d \<noteq> c)
     ''ABCDEFGHIJKLMNOPQRSTUVWXYZabcdefghijklmnopqrstuvwxyz0123456789+/''))"

fun b64decode :: "string \<Rightarrow> string" where
  "b64decode (p # q # r # s # rest) =
     (let a = b64_value p; b = b64_value q; c = b64_value r; d = b64_value s in
      if r = CHR ''='' then [char_of (a * 4 + b div 16)]
      else if s = CHR ''='' then [char_of (a * 4 + b div 16), char_of (b mod 16 * 16 + c div 4)]
      else char_of (a * 4 + b div 16) # char_of (b mod 16 * 16 + c div 4)
             # char_of (c mod 4 * 64 + d) # b64decode rest)"
| "b64decode _ = []"

lemma b64_table: "\<forall>n \<in> {0..<64}. b64_value (b64_char n) = n \<and> b64_char n \<noteq> CHR ''=''"
  by code_simp

lemma b64_char_value:
  assumes "0 \<le> n" "n < 64"
  shows "b64_value (b64_char n) = n" "b64_char n \<noteq> CHR ''=''"
  using b64_table assms by auto

lemma char_of_byte: "char_of (byte c) = c"
  by (simp add: byte_def)

lemma byte_bounds: "0 \<le> byte c" "byte c < 256"
proof -
  have "byte c = of_char (char_of (byte c))" by (simp add: char_of_byte byte_def)
  also have "\<dots> = byte c mod 256" by (rule of_char_of)
  finally have "byte c = byte c mod 256" .
  then show "0 \<le> byte c" "byte c < 256" by (metis pos_mod_sign zero_less_numeral, metis pos_mod_bound zero_less_numeral)
qed

lemma glue:
  assumes "0 \<le> y" "y < (n::int)"
  shows "(x * n + y) div n = x" "(x * n + y) mod n = y"
  using assms by (simp_all add: div_pos_pos_trivial mod_pos_pos_trivial)

lemma split_int:
  assumes "0 \<le> x" "x < (256::int)"
  shows "0 \<le> x div 4" "x div 4 < 64" "0 \<le> x mod 4" "x div 4 * 4 + x mod 4 = x"
    "0 \<le> x div 16" "x div 16 < 16" "0 \<le> x mod 16" "x div 16 * 16 + x mod 16 = x"
    "0 \<le> x div 64" "x div 64 < 4" "0 \<le> x mod 64" "x mod 64 < 64" "x div 64 * 64 + x mod 64 = x"
    "x mod 4 < 4" "x mod 16 < 16"
  using assms by presburger+

lemmas split_byte = split_int [OF byte_bounds]

text \<open>The sextets of three bytes are in range and give the bytes back.\<close>

lemma sextet_range:
  assumes "0 \<le> x" "x < k" "0 \<le> y" "y < (n::int)"
  shows "0 \<le> x * n + y" "x * n + y < k * n"
proof -
  have "x * n \<le> (k - 1) * n" using assms by (intro mult_right_mono) auto
  then show "x * n + y < k * n" using assms by (simp add: left_diff_distrib)
  show "0 \<le> x * n + y" using assms by (intro add_nonneg_nonneg mult_nonneg_nonneg) auto
qed

lemma sextets:
  shows "0 \<le> byte a mod 4 * 16 + byte b div 16" "byte a mod 4 * 16 + byte b div 16 < 64"
    and "0 \<le> byte b mod 16 * 4 + byte c div 64" "byte b mod 16 * 4 + byte c div 64 < 64"
    and "byte a div 4 * 4 + (byte a mod 4 * 16 + byte b div 16) div 16 = byte a"
    and "(byte a mod 4 * 16 + byte b div 16) mod 16 * 16 + (byte b mod 16 * 4 + byte c div 64) div 4 = byte b"
    and "(byte b mod 16 * 4 + byte c div 64) mod 4 * 64 + byte c mod 64 = byte c"
proof -
  note A = split_byte(3,14) [of a] split_byte(5,6) [of b] and B = split_byte(7,15) [of b] split_byte(9,10) [of c]
  show "0 \<le> byte a mod 4 * 16 + byte b div 16" "0 \<le> byte b mod 16 * 4 + byte c div 64"
    using sextet_range(1) [OF A] sextet_range(1) [OF B] .
  show "byte a mod 4 * 16 + byte b div 16 < 64" using sextet_range(2) [OF A] by linarith
  show "byte b mod 16 * 4 + byte c div 64 < 64" using sextet_range(2) [OF B] by linarith
  show "byte a div 4 * 4 + (byte a mod 4 * 16 + byte b div 16) div 16 = byte a"
    by (simp only: glue(1) [OF A(3,4)] split_byte(4))
  show "(byte a mod 4 * 16 + byte b div 16) mod 16 * 16 + (byte b mod 16 * 4 + byte c div 64) div 4 = byte b"
    by (simp only: glue(2) [OF A(3,4)] glue(1) [OF B(3,4)] split_byte(8))
  show "(byte b mod 16 * 4 + byte c div 64) mod 4 * 64 + byte c mod 64 = byte c"
    by (simp only: glue(2) [OF B(3,4)] split_byte(13))
qed

lemma b64decode_four:
  assumes "0 \<le> w" "w < 64" "0 \<le> x" "x < 64" "0 \<le> y" "y < 64" "0 \<le> z" "z < 64"
  shows "b64decode (b64_char w # b64_char x # b64_char y # b64_char z # rest) =
    char_of (w * 4 + x div 16) # char_of (x mod 16 * 16 + y div 4) # char_of (y mod 4 * 64 + z) # b64decode rest"
    and "b64decode [b64_char w, b64_char x, b64_char y, CHR ''=''] =
      [char_of (w * 4 + x div 16), char_of (x mod 16 * 16 + y div 4)]"
    and "b64decode [b64_char w, b64_char x, CHR ''='', CHR ''=''] = [char_of (w * 4 + x div 16)]"
  by (simp_all only: b64decode.simps Let_def b64_char_value [OF assms(1,2)] b64_char_value [OF assms(3,4)]
      b64_char_value [OF assms(5,6)] b64_char_value [OF assms(7,8)] if_False simp_thms if_True)

text \<open>
  Base64 preserves the secret: decoding what the encoder produced gives the bytes back,
  for every byte sequence.
\<close>

theorem b64_roundtrip: "b64decode (b64encode s) = s"
proof (induction s rule: b64encode.induct)
  case 1
  then show ?case by simp
next
  case (2 a)
  have r: "0 \<le> byte a mod 4 * 16" "byte a mod 4 * 16 < 64" "(byte a mod 4 * 16) div 16 = byte a mod 4"
    using split_byte(3,14) [of a] by linarith+
  show ?case
    by (simp only: b64encode.simps b64decode_four(3) [OF split_byte(1,2) r(1,2) r(1,2) r(1,2)] r(3) split_byte(4) char_of_byte)
next
  case (3 a b)
  have r: "0 \<le> byte b mod 16 * 4" "byte b mod 16 * 4 < 64" "(byte b mod 16 * 4) div 4 = byte b mod 16"
    using split_byte(7,15) [of b] by linarith+
  have g: "(byte a mod 4 * 16 + byte b div 16) mod 16 * 16 + byte b mod 16 = byte b"
    by (simp only: glue(2) [OF split_byte(5,6)] split_byte(8))
  show ?case
    by (simp only: b64encode.simps b64decode_four(2) [OF split_byte(1,2) sextets(1,2) r(1,2) r(1,2)] r(3) g sextets(5) char_of_byte)
next
  case (4 a b c rest)
  show ?case
    by (simp only: b64encode.simps b64decode_four(1) [OF split_byte(1,2) sextets(1-4) split_byte(11,12)]
        sextets(5-7) char_of_byte 4)
qed

section \<open>Directory entries\<close>

lemma lookup_unlink: "lookup_entry n (unlink_entry m fs) = (if n = m then None else lookup_entry n fs)"
proof -
  have "map_of (filter (\<lambda>(k, _). k \<noteq> m) xs) n = (if n = m then None else map_of xs n)" for xs :: "(string \<times> nat) list"
    by (induction xs) auto
  then show ?thesis
    by (auto simp: unlink_entry_def lookup_entry_def split: option.splits)
qed

lemma unlink_frame [simp]:
  "fds (unlink_entry n fs) = fds fs" "next_fd (unlink_entry n fs) = next_fd fs"
  "state_node (unlink_entry n fs) = state_node fs" "secrets_node (unlink_entry n fs) = secrets_node fs"
  "next_ino (unlink_entry n fs) = next_ino fs"
  by (auto simp: unlink_entry_def split: option.splits)

lemma inodes_unlink:
  "map_option idata (inodes (unlink_entry n fs) i) = map_option idata (inodes fs i)"
  by (auto simp: unlink_entry_def split: option.splits)

lemma entry_name_inject [simp]: "entry_name a = entry_name b \<longleftrightarrow> a = b"
  by (simp add: entry_name_def)

lemma lookup_frame [simp]:
  "lookup_entry n (fs\<lparr>fds := f\<rparr>) = lookup_entry n fs" "lookup_entry n (fs\<lparr>next_fd := k\<rparr>) = lookup_entry n fs"
  "lookup_entry n (fs\<lparr>state_node := d\<rparr>) = lookup_entry n fs" "lookup_entry n (fs\<lparr>secrets_node := d\<rparr>) = lookup_entry n fs"
  by (simp_all add: lookup_entry_def)

text \<open>The bytes staged under a handle.\<close>

definition stored :: "string \<Rightarrow> secret_fs \<Rightarrow> string option" where
  "stored sid fs = Option.bind (lookup_entry (entry_name sid) fs) (\<lambda>i. map_option idata (inodes fs i))"

definition fd_fresh :: "secret_fs \<Rightarrow> bool" where
  "fd_fresh fs \<longleftrightarrow> (\<forall>fd \<ge> next_fd fs. fds fs fd = None)"

text \<open>The storage directories can be prepared: absent, or owned by the user.\<close>

definition dirs_ok :: "kernel \<Rightarrow> secret_fs \<Rightarrow> bool" where
  "dirs_ok k fs \<longleftrightarrow> (\<forall>d \<in> {state_node fs, secrets_node fs}. case d of
     Absent \<Rightarrow> True | Real_dir u _ \<Rightarrow> u = my_uid k | _ \<Rightarrow> False)"

lemma secret_dir_ok:
  "dirs_ok k fs \<Longrightarrow> secret_dir k fs =
     (fs\<lparr>state_node := Real_dir (my_uid k) mode_0700, secrets_node := Real_dir (my_uid k) mode_0700\<rparr>, Inr ())"
  by (auto simp: dirs_ok_def secret_dir_def ensure_private_dir_def Let_def split: dir_node.splits)

text \<open>Preparing the directories touches neither entries nor descriptors.\<close>

lemma secret_dir_frame:
  assumes "secret_dir k fs = (fs', r)"
  shows "entries fs' = entries fs" "inodes fs' = inodes fs" "fds fs' = fds fs" "next_fd fs' = next_fd fs"
    "next_ino fs' = next_ino fs"
  using assms by (auto simp: secret_dir_def Let_def split: sum.splits)

section \<open>Consuming one handle\<close>

text \<open>What a file must be for its handle to be accepted.\<close>

definition acceptable :: "kernel \<Rightarrow> clock \<Rightarrow> int \<Rightarrow> int \<Rightarrow> inode \<Rightarrow> bool" where
  "acceptable k now ttl max_bytes nd \<longleftrightarrow> ikind nd = Regular \<and> may_open k nd \<and> iuid nd = my_uid k
     \<and> imode nd = mode_0600 \<and> inlink nd = 1 \<and> idata nd \<noteq> [] \<and> int (length (idata nd)) \<le> max_bytes
     \<and> imtime nd - 5 \<le> now \<and> now \<le> imtime nd + of_int ttl"

lemma inode_refused_None:
  "ikind nd \<noteq> Symlink \<and> may_open k nd \<and> inode_refused k now ttl max_bytes nd = None \<longleftrightarrow>
     acceptable k now ttl max_bytes nd"
  by (auto simp: inode_refused_def acceptable_def Let_def)

text \<open>One step of consumption, on the state with prepared directories.\<close>

definition accepts :: "kernel \<Rightarrow> clock \<Rightarrow> int \<Rightarrow> int \<Rightarrow> string \<Rightarrow> secret_fs \<Rightarrow> bool" where
  "accepts k now ttl max_bytes sid fs \<longleftrightarrow>
     (\<exists>i nd. lookup_entry (entry_name sid) fs = Some i \<and> inodes fs i = Some nd \<and> acceptable k now ttl max_bytes nd)"

lemma claim_from_open:
  assumes fresh: "fd_fresh fs"
  shows "and_then (claim_open k (entry_name sid) fs)
          (\<lambda>fd fs. (case claim_check k now ttl mx (entry_name sid) fd fs of
                Some e \<Rightarrow> (close_fd fd fs, Inl e) | None \<Rightarrow> claim_unlink (entry_name sid) fd fs)) = (fs', r) \<Longrightarrow>
     (case r of
        Inr fd \<Rightarrow> accepts k now ttl mx sid fs \<and> fd = next_fd fs \<and>
          (\<exists>i. lookup_entry (entry_name sid) fs = Some i \<and>
             fs' = unlink_entry (entry_name sid) (fs\<lparr>fds := (fds fs)(next_fd fs \<mapsto> File i), next_fd := Suc (next_fd fs)\<rparr>))
      | Inl e \<Rightarrow> \<not> accepts k now ttl mx sid fs \<and> entries fs' = entries fs \<and> inodes fs' = inodes fs \<and> fds fs' = fds fs
          \<and> next_fd fs \<le> next_fd fs' \<and> state_node fs' = state_node fs \<and> secrets_node fs' = secrets_node fs)"
proof -
  assume claim: "and_then (claim_open k (entry_name sid) fs)
          (\<lambda>fd fs. (case claim_check k now ttl mx (entry_name sid) fd fs of
                Some e \<Rightarrow> (close_fd fd fs, Inl e) | None \<Rightarrow> claim_unlink (entry_name sid) fd fs)) = (fs', r)"
  have none: "(fds fs)(next_fd fs := None) = fds fs" using fresh by (auto simp: fd_fresh_def fun_eq_iff)
  show ?thesis
  proof (cases "\<exists>i nd. lookup_entry (entry_name sid) fs = Some i \<and> inodes fs i = Some nd
      \<and> ikind nd \<noteq> Symlink \<and> may_open k nd")
    case False
    then have "\<not> accepts k now ttl mx sid fs" by (auto simp: accepts_def acceptable_def)
    moreover have "\<exists>e. r = Inl e \<and> fs' = fs"
      using claim False by (auto simp: claim_open_def split: option.splits if_splits)
    ultimately show ?thesis by auto
  next
    case True
    then obtain i nd where i: "lookup_entry (entry_name sid) fs = Some i" "inodes fs i = Some nd"
      "ikind nd \<noteq> Symlink" "may_open k nd" by blast
    let ?o = "fs\<lparr>fds := (fds fs)(next_fd fs \<mapsto> File i), next_fd := Suc (next_fd fs)\<rparr>"
    have open_eq: "claim_open k (entry_name sid) fs = (?o, Inr (next_fd fs))"
      using i by (simp add: claim_open_def open_fd_def)
    have acc: "accepts k now ttl mx sid fs \<longleftrightarrow> inode_refused k now ttl mx nd = None"
      using i inode_refused_None [of nd k now ttl mx] by (auto simp: accepts_def)
    show ?thesis
      using claim i none acc
      by (cases "inode_refused k now ttl mx nd")
        (auto simp: open_eq claim_check_def claim_fstat_def claim_lstat_def claim_unlink_def close_fd_def split: sum.splits)
  qed
qed

text \<open>
  A handle is accepted exactly when its file is a regular file of the user with mode
  0600 and one link, not empty, within the size limit and not older than the time to live
  (nor from more than five seconds ahead); then its entry is gone and the returned
  descriptor is open on that file. A refused claim leaves entries, files and descriptors as
  they were: no descriptor leaks.
\<close>

theorem claim_outcome:
  assumes fresh: "fd_fresh fs" and dirs: "dirs_ok k fs"
    and claim: "claim_one_time_secret k now ttl mx sid fs = (fs', r)"
  shows "case r of
      Inr fd \<Rightarrow> hex_handle 32 sid \<and> accepts k now ttl mx sid fs \<and> lookup_entry (entry_name sid) fs' = None
        \<and> (\<exists>i. lookup_entry (entry_name sid) fs = Some i \<and> fds fs fd = None \<and> fds fs' = (fds fs)(fd \<mapsto> File i))
    | Inl e \<Rightarrow> \<not> (hex_handle 32 sid \<and> accepts k now ttl mx sid fs) \<and> entries fs' = entries fs
        \<and> inodes fs' = inodes fs \<and> fds fs' = fds fs"
proof (cases "hex_handle 32 sid")
  case False
  then show ?thesis using claim by (auto simp: claim_one_time_secret_def secret_path_def)
next
  case True
  let ?p = "fs\<lparr>state_node := Real_dir (my_uid k) mode_0700, secrets_node := Real_dir (my_uid k) mode_0700\<rparr>"
  have "fd_fresh ?p" using fresh by (simp add: fd_fresh_def)
  moreover have acc: "accepts k now ttl mx sid ?p = accepts k now ttl mx sid fs" by (simp add: accepts_def)
  moreover have "fds fs (next_fd fs) = None" using fresh by (simp add: fd_fresh_def)
  ultimately show ?thesis
    using claim True secret_dir_ok [OF dirs] claim_from_open [of ?p k sid now ttl mx fs' r]
    by (auto simp: claim_one_time_secret_def secret_path_def lookup_unlink split: sum.splits)
qed

section \<open>Staging\<close>

text \<open>Pruning touches entries and links only.\<close>

lemma prune_entries_frame:
  "fds (fst (prune_entries k c ns fs)) = fds fs \<and> next_fd (fst (prune_entries k c ns fs)) = next_fd fs
   \<and> next_ino (fst (prune_entries k c ns fs)) = next_ino fs \<and> state_node (fst (prune_entries k c ns fs)) = state_node fs
   \<and> secrets_node (fst (prune_entries k c ns fs)) = secrets_node fs"
  by (induction ns arbitrary: fs) auto

lemma prune_frame:
  assumes "prune_expired k now ttl fs = (fs', r)"
  shows "fds fs' = fds fs" "next_fd fs' = next_fd fs" "next_ino fs' = next_ino fs" "state_node fs' = state_node fs"
    "secrets_node fs' = secrets_node fs"
  using assms prune_entries_frame [of k "now - of_int ttl" "map fst (entries fs)" fs] by (simp_all add: prune_expired_def)

text \<open>What a successful creation leaves behind.\<close>

lemma create_result:
  assumes c: "create_one_time_secret k now ttl mx fresh_id md payload fs = (fs', Inr sid)"
  shows "sid = fresh_id" "md = mode_0600" "payload \<noteq> []" "int (length payload) \<le> mx" "fds fs' = fds fs" "next_fd fs' = next_fd fs"
    "lookup_entry (entry_name sid) fs' = Some (next_ino fs)"
    "inodes fs' (next_ino fs) = Some \<lparr>ikind = Regular, iuid = my_uid k, imode = mode_0600, inlink = 1, imtime = now, idata = payload\<rparr>"
    "\<exists>fs1. secret_dir k fs = (fs1, Inr ()) \<and> state_node fs' = state_node fs1 \<and> secrets_node fs' = secrets_node fs1"
proof -
  have payload: "payload \<noteq> []" "int (length payload) \<le> mx"
    using c by (auto simp: create_one_time_secret_def split: if_splits)
  obtain fs1 where d: "secret_dir k fs = (fs1, Inr ())"
    using c payload by (auto simp: create_one_time_secret_def and_then_def split: prod.splits sum.splits)
  note F = secret_dir_frame [OF d]
  obtain fs2 where p: "prune_expired k now ttl fs1 = (fs2, Inr ())"
    using c payload d by (auto simp: create_one_time_secret_def and_then_def split: prod.splits sum.splits)
  note P = prune_frame [OF p]
  obtain content ok where w: "write_all (write_result k) 0 payload [] = (content, ok)" by fastforce
  have free: "lookup_entry (entry_name fresh_id) fs2 = None" and ok: "ok" and md: "md = mode_0600" and sid: "sid = fresh_id"
    using c payload d w p by (auto simp: create_one_time_secret_def Let_def split: if_splits)
  have fs': "fs' = fs2\<lparr>entries := entries fs2 @ [(entry_name fresh_id, next_ino fs2)],
      inodes := (inodes fs2)(next_ino fs2 \<mapsto> \<lparr>ikind = Regular, iuid = my_uid k, imode = mode_0600, inlink = 1, imtime = now, idata = content\<rparr>),
      next_ino := Suc (next_ino fs2)\<rparr>"
    using c payload d w p free ok md sid by (auto simp add: create_one_time_secret_def Let_def)
  have "content = payload" using w ok write_all_content by fastforce
  then show "inodes fs' (next_ino fs) = Some \<lparr>ikind = Regular, iuid = my_uid k, imode = mode_0600, inlink = 1, imtime = now, idata = payload\<rparr>"
    using F P by (simp add: fs')
  show "lookup_entry (entry_name sid) fs' = Some (next_ino fs)"
    using free F P sid by (simp add: fs' lookup_entry_def map_add_def)
  show "\<exists>fs1. secret_dir k fs = (fs1, Inr ()) \<and> state_node fs' = state_node fs1 \<and> secrets_node fs' = secrets_node fs1"
    using d P by (simp add: fs')
  show "fds fs' = fds fs" "next_fd fs' = next_fd fs" using F P by (simp_all add: fs')
  show "sid = fresh_id" "md = mode_0600" "payload \<noteq> []" "int (length payload) \<le> mx" by (rule sid md payload)+
qed

text \<open>
  What is staged is what is read, once: a handle created now and claimed within its
  time to live gives a descriptor on exactly the staged bytes, and a second claim of the
  same handle is refused as consumed.
\<close>

theorem stage_then_claim:
  assumes c: "create_one_time_secret k now ttl mx fresh_id md payload fs = (fs1, Inr sid)"
    and id: "hex_handle 32 fresh_id" and fresh: "fd_fresh fs"
    and opens: "\<And>nd. ikind nd = Regular \<Longrightarrow> iuid nd = my_uid k \<Longrightarrow> imode nd = mode_0600 \<Longrightarrow> may_open k nd"
    and time: "now \<le> later" "later \<le> now + of_int ttl"
  shows "\<exists>fs2 fd. claim_one_time_secret k later ttl mx sid fs1 = (fs2, Inr fd)
    \<and> read_secret (nat mx) fd fs2 = Inr payload
    \<and> (\<exists>fs3. claim_one_time_secret k later ttl mx sid fs2 =
          (fs3, Inl (ValueError ''one-time stdin handle was not found or was already consumed'')))"
proof -
  note R = create_result [OF c]
  have node: "ensure_private_dir k d = Inr d' \<Longrightarrow> d' = Real_dir (my_uid k) mode_0700" for d d'
    by (auto simp: ensure_private_dir_def split: dir_node.splits if_splits)
  obtain fs0 where d: "secret_dir k fs = (fs0, Inr ())" "state_node fs1 = state_node fs0" "secrets_node fs1 = secrets_node fs0"
    using R(9) by blast
  have "state_node fs0 = Real_dir (my_uid k) mode_0700" "secrets_node fs0 = Real_dir (my_uid k) mode_0700"
    using d(1) by (auto simp: secret_dir_def Let_def dest!: node split: sum.splits)
  then have dirs: "dirs_ok k fs1" using d(2,3) by (simp add: dirs_ok_def)
  have fresh1: "fd_fresh fs1" using fresh R(5,6) by (simp add: fd_fresh_def)
  have acc: "accepts k later ttl mx sid fs1"
    using R time opens by (auto simp: accepts_def acceptable_def)
  have hex: "hex_handle 32 sid" using id R(1) by simp
  obtain fs2 r where cl: "claim_one_time_secret k later ttl mx sid fs1 = (fs2, r)" by fastforce
  let ?p = "fs1\<lparr>state_node := Real_dir (my_uid k) mode_0700, secrets_node := Real_dir (my_uid k) mode_0700\<rparr>"
  have freshp: "fd_fresh ?p" using fresh1 by (simp add: fd_fresh_def)
  have accp: "accepts k later ttl mx sid ?p" using acc by (simp add: accepts_def)
  have parts: "claim_one_time_secret k later ttl mx sid fs1 = and_then (claim_open k (entry_name sid) ?p)
      (\<lambda>fd fs. (case claim_check k later ttl mx (entry_name sid) fd fs of
          Some e \<Rightarrow> (close_fd fd fs, Inl e) | None \<Rightarrow> claim_unlink (entry_name sid) fd fs))"
    using hex secret_dir_ok [OF dirs] by (simp add: claim_one_time_secret_def secret_path_def)
  obtain fd where r: "r = Inr fd" and fs2: "fs2 = unlink_entry (entry_name sid)
      (?p\<lparr>fds := (fds ?p)(next_fd ?p \<mapsto> File (next_ino fs)), next_fd := Suc (next_fd ?p)\<rparr>)" and fd: "fd = next_fd ?p"
    using claim_from_open [OF freshp, of k sid later ttl mx fs2 r] cl parts accp R(7) by (auto split: sum.splits)
  have data: "map_option idata (inodes fs2 (next_ino fs)) = Some payload"
    unfolding fs2 inodes_unlink using R(8) by simp
  have "read_secret (nat mx) fd fs2 = Inr payload"
    using data R(4) fd fs2 by (auto simp: read_secret_def read_loop_eq)
  moreover have "dirs_ok k fs2" by (simp add: fs2 dirs_ok_def)
  then have "\<exists>fs3. claim_one_time_secret k later ttl mx sid fs2 =
      (fs3, Inl (ValueError ''one-time stdin handle was not found or was already consumed''))"
    using secret_dir_ok R(1) id
    by (simp add: claim_one_time_secret_def secret_path_def claim_open_def fs2 lookup_unlink)
  ultimately show ?thesis using cl r by blast
qed


text \<open>A concrete user, with empty storage and one open descriptor.\<close>

definition demo_kernel :: kernel where
  "demo_kernel = \<lparr>my_uid = 1000, write_result = (\<lambda>_. 3), may_open = (\<lambda>_. True), has_memfd = True,
     memfd_ok = True, seals_after = Some\<rparr>"

definition demo_fs :: secret_fs where
  "demo_fs = \<lparr>state_node = Absent, secrets_node = Absent, entries = [], inodes = (\<lambda>_. None),
     fds = (\<lambda>_. None)(0 \<mapsto> File 0), next_ino = 1, next_fd = 3\<rparr>"

definition demo_sid :: string where
  "demo_sid = ''0123456789abcdef0123456789abcdef''"

definition demo_staged :: secret_fs where
  "demo_staged = fst (create_one_time_secret demo_kernel 100 300 65536 demo_sid mode_0600 ''hunter2'' demo_fs)"

lemma demo_staged_ok:
  "create_one_time_secret demo_kernel 100 300 65536 demo_sid mode_0600 ''hunter2'' demo_fs = (demo_staged, Inr demo_sid)"
proof -
  have "snd (create_one_time_secret demo_kernel 100 300 65536 demo_sid mode_0600 ''hunter2'' demo_fs) = Inr demo_sid"
    by code_simp
  then show ?thesis by (metis demo_staged_def prod.collapse)
qed

lemma demo_fresh: "fd_fresh demo_fs" "fd_fresh demo_staged"
proof -
  show f: "fd_fresh demo_fs" by (simp add: fd_fresh_def demo_fs_def)
  then show "fd_fresh demo_staged"
    using create_result(5,6) [OF demo_staged_ok] by (simp add: fd_fresh_def)
qed

lemma demo_dirs: "dirs_ok demo_kernel demo_staged"
  by code_simp

theorem claim_outcome_witness:
  "\<exists>fs' fd. claim_one_time_secret demo_kernel 200 300 65536 demo_sid demo_staged = (fs', Inr fd)
     \<and> accepts demo_kernel 200 300 65536 demo_sid demo_staged \<and> lookup_entry (entry_name demo_sid) fs' = None"
proof -
  obtain fs' r where c: "claim_one_time_secret demo_kernel 200 300 65536 demo_sid demo_staged = (fs', r)" by fastforce
  have "\<not> isl (snd (claim_one_time_secret demo_kernel 200 300 65536 demo_sid demo_staged))" by code_simp
  then obtain fd where "r = Inr fd" using c by (cases r) auto
  then show ?thesis using claim_outcome [OF demo_fresh(2) demo_dirs c] c by auto
qed

theorem stage_then_claim_witness:
  "\<exists>fs2 fd. claim_one_time_secret demo_kernel 200 300 65536 demo_sid demo_staged = (fs2, Inr fd)
     \<and> read_secret 65536 fd fs2 = Inr ''hunter2''"
proof -
  have "hex_handle 32 demo_sid" by code_simp
  then show ?thesis
    using stage_then_claim [OF demo_staged_ok _ demo_fresh(1), of 200] by (auto simp: demo_kernel_def)
qed

section \<open>Pruning\<close>

lemma expired_unlink:
  assumes "n \<noteq> m"
  shows "expired_entry k t (unlink_entry m fs) n = expired_entry k t fs n"
proof -
  have "inodes (unlink_entry m fs) = inodes fs \<or> (\<exists>i nd. inodes fs i = Some nd
      \<and> inodes (unlink_entry m fs) = (inodes fs)(i \<mapsto> nd\<lparr>inlink := inlink nd - 1\<rparr>))"
    by (auto simp: unlink_entry_def split: option.splits)
  then show ?thesis
    using assms by (auto simp: expired_entry_def lookup_unlink split: option.splits if_splits)
qed

text \<open>
  Pruning removes exactly the expired staging files: afterwards an entry is gone when
  it was a \<open>.stdin\<close> file of the user as old as the time to live, and every other entry,
  other users' files included, is still there. It fails only on an expired directory.
\<close>

theorem prune_exact:
  assumes "prune_expired k now ttl fs = (fs', r)"
  shows "case r of
      Inr _ \<Rightarrow> lookup_entry n fs' = (if expired_entry k (now - of_int ttl) fs n then None else lookup_entry n fs)
    | Inl _ \<Rightarrow> \<exists>m. expired_entry k (now - of_int ttl) fs m \<and> is_directory_entry m fs"
proof -
  let ?e = "expired_entry k (now - of_int ttl)"
  have gone: "lookup_entry m fs = None \<Longrightarrow> lookup_entry m (fst (prune_entries k c ns fs)) = None" for m c ns fs
    by (induction ns arbitrary: fs) (auto simp: lookup_unlink)
  have loop: "case snd (prune_entries k (now - of_int ttl) ns fs) of
      Inr _ \<Rightarrow> lookup_entry n (fst (prune_entries k (now - of_int ttl) ns fs)) = (if n \<in> set ns \<and> ?e fs n then None else lookup_entry n fs)
    | Inl _ \<Rightarrow> \<exists>m. ?e fs m \<and> is_directory_entry m fs" for ns fs
  proof (induction ns arbitrary: fs)
    case (Cons m ns)
    show ?case
    proof (cases "?e fs m \<and> \<not> is_directory_entry m fs")
      case True
      have e: "?e (unlink_entry m fs) q \<Longrightarrow> ?e fs q \<and> q \<noteq> m" for q
        using expired_unlink [of q m k "now - of_int ttl" fs] by (cases "q = m") (auto simp: expired_entry_def lookup_unlink)
      have "map_option ikind (inodes (unlink_entry m fs) i) = map_option ikind (inodes fs i)" for i
        by (auto simp: unlink_entry_def split: option.splits)
      then have d: "is_directory_entry q (unlink_entry m fs) \<Longrightarrow> is_directory_entry q fs" for q
        by (simp add: is_directory_entry_def lookup_unlink split: if_splits)
      show ?thesis
        using True Cons.IH [of "unlink_entry m fs"] e d gone [of m "unlink_entry m fs" "now - of_int ttl" ns] expired_unlink [of n m]
        by (cases "n = m") (auto simp: lookup_unlink split: sum.splits)
    next
      case False
      then show ?thesis using Cons.IH [of fs] by (auto split: sum.splits)
    qed
  qed simp
  have "?e fs n \<Longrightarrow> n \<in> set (map fst (entries fs))"
    by (auto simp: expired_entry_def lookup_entry_def dest!: map_of_SomeD split: option.splits intro: rev_image_eqI)
  then show ?thesis using loop [of fs "map fst (entries fs)"] assms unfolding prune_expired_def by (auto split: sum.splits)
qed

section \<open>Racing consumers\<close>

text \<open>
  Several processes consume the same handle, each in its four parts, while others prune
  and stage. A process is where its last part left it.
\<close>

datatype claim_pc = Opened nat | Statted nat nat | Checked nat | Won nat | Lost

datatype race_event =
    Try_open nat
  | Try_fstat nat clock
  | Try_lstat nat
  | Try_unlink nat
  | Prune clock
  | Stage clock string nat string

record claim_race =
  rfs :: secret_fs
  procs :: "nat \<rightharpoonup> claim_pc"

definition at_pc :: "claim_race \<Rightarrow> nat \<Rightarrow> (secret_fs, claim_pc) outcome \<Rightarrow> claim_race" where
  "at_pc r p m = \<lparr>rfs = fst m, procs = (procs r)(p \<mapsto> (case snd m of Inl _ \<Rightarrow> Lost | Inr pc \<Rightarrow> pc))\<rparr>"

fun race_step :: "kernel \<Rightarrow> int \<Rightarrow> int \<Rightarrow> string \<Rightarrow> race_event \<Rightarrow> claim_race \<Rightarrow> claim_race" where
  "race_step k ttl mx sid (Try_open p) r =
     (if procs r p \<noteq> None then r
      else at_pc r p (and_then (secret_path k sid (rfs r)) (\<lambda>name fs. and_then (claim_open k name fs) (\<lambda>fd fs. (fs, Inr (Opened fd))))))"
| "race_step k ttl mx sid (Try_fstat p now) r =
     (case procs r p of
        Some (Opened fd) \<Rightarrow>
          at_pc r p (case claim_fstat k now ttl mx fd (rfs r) of
                       Inl e \<Rightarrow> (close_fd fd (rfs r), Inl e) | Inr i \<Rightarrow> (rfs r, Inr (Statted fd i)))
      | _ \<Rightarrow> r)"
| "race_step k ttl mx sid (Try_lstat p) r =
     (case procs r p of
        Some (Statted fd i) \<Rightarrow>
          at_pc r p (case claim_lstat (entry_name sid) i (rfs r) of
                       Some e \<Rightarrow> (close_fd fd (rfs r), Inl e) | None \<Rightarrow> (rfs r, Inr (Checked fd)))
      | _ \<Rightarrow> r)"
| "race_step k ttl mx sid (Try_unlink p) r =
     (case procs r p of
        Some (Checked fd) \<Rightarrow> at_pc r p (and_then (claim_unlink (entry_name sid) fd (rfs r)) (\<lambda>fd fs. (fs, Inr (Won fd))))
      | _ \<Rightarrow> r)"
| "race_step k ttl mx sid (Prune now) r = r\<lparr>rfs := fst (prune_expired k now ttl (rfs r))\<rparr>"
| "race_step k ttl mx sid (Stage now nid md payload) r =
     r\<lparr>rfs := fst (create_one_time_secret k now ttl mx nid md payload (rfs r))\<rparr>"

text \<open>The descriptor a process holds.\<close>

fun holds_fd :: "claim_pc option \<Rightarrow> nat option" where
  "holds_fd (Some (Opened fd)) = Some fd"
| "holds_fd (Some (Statted fd i)) = Some fd"
| "holds_fd (Some (Checked fd)) = Some fd"
| "holds_fd (Some (Won fd)) = Some fd"
| "holds_fd _ = None"

text \<open>
  The invariant of a race for the file with inode \<open>i\<close> and content \<open>d\<close>: the name
  leads there or nowhere, every process in the race holds a descriptor of its own on it, and
  a winner has removed the name and is alone.
\<close>

definition file_inv :: "nat \<Rightarrow> string \<Rightarrow> string \<Rightarrow> secret_fs \<Rightarrow> bool" where
  "file_inv i d sid fs \<longleftrightarrow> i < next_ino fs \<and> map_option idata (inodes fs i) = Some d \<and> fd_fresh fs
     \<and> lookup_entry (entry_name sid) fs \<in> {None, Some i}"

definition race_inv :: "nat \<Rightarrow> string \<Rightarrow> string \<Rightarrow> claim_race \<Rightarrow> bool" where
  "race_inv i d sid r \<longleftrightarrow> file_inv i d sid (rfs r)
     \<and> (\<forall>p fd. holds_fd (procs r p) = Some fd \<longrightarrow> fds (rfs r) fd = Some (File i))
     \<and> (\<forall>p q fd. holds_fd (procs r p) = Some fd \<and> holds_fd (procs r q) = Some fd \<longrightarrow> p = q)
     \<and> (\<forall>p fd. procs r p = Some (Won fd) \<longrightarrow> lookup_entry (entry_name sid) (rfs r) = None
         \<and> (\<forall>q fd'. procs r q = Some (Won fd') \<longrightarrow> q = p))"


text \<open>
  An operation is quiet for a handle when it changes no descriptor and no existing content,
  and at most removes the handle's name.
\<close>

definition quiet :: "string \<Rightarrow> secret_fs \<Rightarrow> secret_fs \<Rightarrow> bool" where
  "quiet sid fs fs' \<longleftrightarrow> fds fs' = fds fs \<and> next_fd fs' = next_fd fs \<and> next_ino fs \<le> next_ino fs'
     \<and> lookup_entry (entry_name sid) fs' \<in> {None, lookup_entry (entry_name sid) fs}
     \<and> (\<forall>i < next_ino fs. map_option idata (inodes fs' i) = map_option idata (inodes fs i))"

lemma quiet_trans: "quiet sid a b \<Longrightarrow> quiet sid b c \<Longrightarrow> quiet sid a c"
  by (auto simp: quiet_def)

lemma quiet_refl [simp]: "quiet sid fs fs"
  by (simp add: quiet_def)

lemma quiet_unlink [simp]: "quiet sid fs (unlink_entry n fs)"
  by (simp add: quiet_def lookup_unlink inodes_unlink)

lemma quiet_dir: "secret_dir k fs = (fs', r) \<Longrightarrow> quiet sid fs fs'"
  using secret_dir_frame [of k fs fs' r] by (simp add: quiet_def lookup_entry_def)

lemma quiet_prune [simp]: "quiet sid fs (fst (prune_expired k now ttl fs))"
proof -
  have "quiet sid fs (fst (prune_entries k c ns fs))" for c ns
  proof (induction ns arbitrary: fs)
    case (Cons a ns)
    then show ?case using quiet_trans [OF quiet_unlink Cons.IH] by simp
  qed simp
  then show ?thesis by (simp add: prune_expired_def)
qed

lemma quiet_new_entry:
  "nid \<noteq> sid \<Longrightarrow> quiet sid fs (fs\<lparr>entries := entries fs @ [(entry_name nid, next_ino fs)],
     inodes := (inodes fs)(next_ino fs \<mapsto> nd), next_ino := Suc (next_ino fs)\<rparr>)"
  by (auto simp: quiet_def lookup_entry_def map_add_def split: option.splits)

lemma quiet_create:
  assumes "nid \<noteq> sid"
  shows "quiet sid fs (fst (create_one_time_secret k now ttl mx nid md payload fs))"
proof -
  obtain fs1 r1 where d: "secret_dir k fs = (fs1, r1)" by fastforce
  obtain content ok where w: "write_all (write_result k) 0 payload [] = (content, ok)" by fastforce
  obtain fs2 r2 where p: "prune_expired k now ttl fs1 = (fs2, r2)" by fastforce
  have q: "quiet sid fs fs2"
    using quiet_trans [OF quiet_dir [OF d] quiet_prune [of sid fs1 k now ttl]] p by simp
  let ?nd = "\<lparr>ikind = Regular, iuid = my_uid k, imode = md, inlink = 1, imtime = now, idata = content\<rparr>"
  note q' = quiet_trans [OF q quiet_new_entry [OF assms, of _ ?nd]]
  show ?thesis
    using d w p q quiet_dir [OF d, of sid] q' quiet_trans [OF q' quiet_unlink]
    by (cases r1; cases r2) (auto simp: create_one_time_secret_def Let_def)
qed

lemma quiet_file_inv: "file_inv i d sid fs \<Longrightarrow> quiet sid fs fs' \<Longrightarrow> file_inv i d sid fs'"
  by (auto simp: file_inv_def quiet_def fd_fresh_def)

lemma quiet_race_inv:
  assumes "race_inv i d sid r" "quiet sid (rfs r) fs'"
  shows "race_inv i d sid (r\<lparr>rfs := fs'\<rparr>)"
  using assms quiet_file_inv [of i d sid "rfs r" fs'] by (auto simp: race_inv_def quiet_def)

text \<open>One process moves on: what its new place and the new state have to satisfy.\<close>

lemma race_inv_move:
  assumes inv: "race_inv i d sid r" and fi: "file_inv i d sid fs'"
    and others: "\<And>q fd. q \<noteq> p \<Longrightarrow> holds_fd (procs r q) = Some fd \<Longrightarrow> fds fs' fd = Some (File i)"
    and own: "\<And>fd. holds_fd (Some pc) = Some fd \<Longrightarrow> fds fs' fd = Some (File i) \<and> (\<forall>q. q \<noteq> p \<longrightarrow> holds_fd (procs r q) \<noteq> Some fd)"
    and gone: "lookup_entry (entry_name sid) (rfs r) = None \<Longrightarrow> lookup_entry (entry_name sid) fs' = None"
    and won: "\<And>fd. pc = Won fd \<Longrightarrow> lookup_entry (entry_name sid) (rfs r) \<noteq> None \<and> lookup_entry (entry_name sid) fs' = None"
  shows "race_inv i d sid \<lparr>rfs = fs', procs = (procs r)(p \<mapsto> pc)\<rparr>"
proof -
  have H: "\<And>q q' fd. holds_fd (procs r q) = Some fd \<Longrightarrow> holds_fd (procs r q') = Some fd \<Longrightarrow> q = q'"
    and W: "\<And>q fd. procs r q = Some (Won fd) \<Longrightarrow> lookup_entry (entry_name sid) (rfs r) = None
      \<and> (\<forall>q' fd'. procs r q' = Some (Won fd') \<longrightarrow> q' = q)"
    using inv by (auto simp: race_inv_def)
  show ?thesis
    unfolding race_inv_def claim_race.simps
  proof (intro conjI allI impI)
    show "file_inv i d sid fs'" by (rule fi)
    fix q fd
    show "holds_fd (((procs r)(p \<mapsto> pc)) q) = Some fd \<Longrightarrow> fds fs' fd = Some (File i)"
      using others own by (cases "q = p") auto
    fix q'
    show "holds_fd (((procs r)(p \<mapsto> pc)) q) = Some fd \<and> holds_fd (((procs r)(p \<mapsto> pc)) q') = Some fd \<Longrightarrow> q = q'"
      by (metis H own fun_upd_other fun_upd_same)
  next
    fix q fd
    show "((procs r)(p \<mapsto> pc)) q = Some (Won fd) \<Longrightarrow> lookup_entry (entry_name sid) fs' = None"
      using gone won W by (cases "q = p") auto
    fix q' fd'
    show "((procs r)(p \<mapsto> pc)) q = Some (Won fd) \<Longrightarrow> ((procs r)(p \<mapsto> pc)) q' = Some (Won fd') \<Longrightarrow> q' = q"
      by (metis W fun_upd_other fun_upd_same option.inject won)
  qed
qed

lemma race_inv_lost:
  assumes inv: "race_inv i d sid r" and q: "quiet sid (rfs r) fs'" and p: "holds_fd (procs r p) \<in> {None, Some fd}"
  shows "race_inv i d sid \<lparr>rfs = fs', procs = (procs r)(p \<mapsto> Lost)\<rparr>"
    and "holds_fd (procs r p) = Some fd \<Longrightarrow> race_inv i d sid \<lparr>rfs = close_fd fd fs', procs = (procs r)(p \<mapsto> Lost)\<rparr>"
proof -
  have F: "file_inv i d sid fs'" using inv q quiet_file_inv by (auto simp: race_inv_def)
  have O: "holds_fd (procs r q) = Some fd' \<Longrightarrow> fds fs' fd' = Some (File i)" for q fd'
    using inv q by (auto simp: race_inv_def quiet_def)
  have L: "lookup_entry (entry_name sid) (rfs r) = None \<Longrightarrow> lookup_entry (entry_name sid) fs' = None"
    using q by (simp add: quiet_def)
  show "race_inv i d sid \<lparr>rfs = fs', procs = (procs r)(p \<mapsto> Lost)\<rparr>"
    by (rule race_inv_move [OF inv F]) (use O L in auto)
  assume h: "holds_fd (procs r p) = Some fd"
  have F': "file_inv i d sid (close_fd fd fs')" using F by (auto simp: close_fd_def file_inv_def fd_fresh_def)
  have "holds_fd (procs r q) = Some fd' \<Longrightarrow> q \<noteq> p \<Longrightarrow> fd' \<noteq> fd" for q fd'
    using inv h by (auto simp: race_inv_def)
  then show "race_inv i d sid \<lparr>rfs = close_fd fd fs', procs = (procs r)(p \<mapsto> Lost)\<rparr>"
    by (intro race_inv_move [OF inv F']) (use O L in \<open>auto simp: close_fd_def\<close>)
qed

lemma race_inv_open:
  assumes inv: "race_inv i d sid r" and p: "procs r p = None"
  shows "race_inv i d sid (race_step k ttl mx sid (Try_open p) r)"
proof -
  obtain fs1 r1 where d: "secret_path k sid (rfs r) = (fs1, r1)" by fastforce
  have q: "quiet sid (rfs r) fs1"
    using d quiet_dir by (auto simp: secret_path_def and_then_def split: if_splits sum.splits prod.splits)
  note inv1 = quiet_race_inv [OF inv q]
  obtain fs2 r2 where o: "claim_open k (entry_name sid) fs1 = (fs2, r2)" by fastforce
  show ?thesis
  proof (cases "\<exists>e. r1 = Inl e \<or> r2 = Inl e")
    case True
    have "fs2 = fs1" if "r2 = Inl e" for e
      using o that by (auto simp: claim_open_def open_fd_def split: option.splits if_splits)
    moreover have "r1 = Inr n \<Longrightarrow> n = entry_name sid" for n
      using d by (auto simp: secret_path_def and_then_def split: if_splits sum.splits prod.splits)
    ultimately have "race_step k ttl mx sid (Try_open p) r = \<lparr>rfs = fs1, procs = (procs r)(p \<mapsto> Lost)\<rparr>"
      using True d o p by (cases r1; cases r2) (auto simp: at_pc_def)
    then show ?thesis using race_inv_lost(1) [OF inv q, of p 0] p by simp
  next
    case False
    then obtain n fd where r: "r1 = Inr n" "r2 = Inr fd" by (metis sum.exhaust)
    have n: "n = entry_name sid"
      using d r by (auto simp: secret_path_def and_then_def split: if_splits sum.splits prod.splits)
    obtain j where j: "lookup_entry (entry_name sid) fs1 = Some j" "fd = next_fd fs1"
      "fs2 = fs1\<lparr>fds := (fds fs1)(next_fd fs1 \<mapsto> File j), next_fd := Suc (next_fd fs1)\<rparr>"
      using o r by (auto simp: claim_open_def open_fd_def split: option.splits if_splits)
    have F: "file_inv i d sid fs1" using inv1 by (simp add: race_inv_def)
    then have ij: "j = i" and free: "fds fs1 (next_fd fs1) = None" using j by (auto simp: file_inv_def fd_fresh_def)
    have "file_inv i d sid fs2" using F by (auto simp: j(3) file_inv_def fd_fresh_def)
    moreover have "race_step k ttl mx sid (Try_open p) r = \<lparr>rfs = fs2, procs = (procs r)(p \<mapsto> Opened fd)\<rparr>"
      using d o r n p by (simp add: at_pc_def)
    moreover have "holds_fd (procs r q) = Some fd' \<Longrightarrow> fds fs1 fd' = Some (File i)" for q fd'
      using inv1 by (simp add: race_inv_def)
    moreover have "lookup_entry (entry_name sid) (rfs r) \<noteq> None" using q j(1) by (metis insertE option.distinct(1) quiet_def singletonD)
    ultimately show ?thesis
      using race_inv_move [OF inv, of fs2 p "Opened fd"] free by (force simp: j ij)
  qed
qed


text \<open>The two checks change nothing, or close the descriptor.\<close>

lemma race_inv_check:
  assumes inv: "race_inv i d sid r" and p: "holds_fd (procs r p) = Some fd" and pc: "holds_fd (Some pc) = Some fd" "\<And>f. pc \<noteq> Won f"
  shows "race_inv i d sid \<lparr>rfs = rfs r, procs = (procs r)(p \<mapsto> pc)\<rparr>"
    "race_inv i d sid \<lparr>rfs = close_fd fd (rfs r), procs = (procs r)(p \<mapsto> Lost)\<rparr>"
proof -
  have own: "fds (rfs r) fd = Some (File i) \<and> (\<forall>q. q \<noteq> p \<longrightarrow> holds_fd (procs r q) \<noteq> Some fd)"
    using inv p by (metis race_inv_def)
  show "race_inv i d sid \<lparr>rfs = rfs r, procs = (procs r)(p \<mapsto> pc)\<rparr>"
    by (rule race_inv_move [OF inv]) (use inv own pc in \<open>auto simp: race_inv_def\<close>)
  show "race_inv i d sid \<lparr>rfs = close_fd fd (rfs r), procs = (procs r)(p \<mapsto> Lost)\<rparr>"
    using race_inv_lost(2) [OF inv quiet_refl, of p fd] p by simp
qed

lemma race_inv_fstat:
  assumes inv: "race_inv i d sid r" and p: "procs r p = Some (Opened fd)"
  shows "race_inv i d sid (race_step k ttl mx sid (Try_fstat p now) r)"
  using race_inv_check [OF inv, of p fd "Statted fd _"] p by (simp add: at_pc_def split: sum.splits)

lemma race_inv_lstat:
  assumes inv: "race_inv i d sid r" and p: "procs r p = Some (Statted fd j)"
  shows "race_inv i d sid (race_step k ttl mx sid (Try_lstat p) r)"
  using race_inv_check [OF inv, of p fd "Checked fd"] p by (simp add: at_pc_def split: option.splits)

lemma race_inv_unlink:
  assumes inv: "race_inv i d sid r" and p: "procs r p = Some (Checked fd)"
  shows "race_inv i d sid (race_step k ttl mx sid (Try_unlink p) r)"
proof (cases "lookup_entry (entry_name sid) (rfs r) = None")
  case True
  then show ?thesis
    using race_inv_lost(2) [OF inv quiet_refl, of p fd] p by (simp add: at_pc_def claim_unlink_def)
next
  case False
  have own: "fds (rfs r) fd = Some (File i) \<and> (\<forall>q. q \<noteq> p \<longrightarrow> holds_fd (procs r q) \<noteq> Some fd)"
    using inv p by (metis holds_fd.simps(3) race_inv_def)
  have "file_inv i d sid (unlink_entry (entry_name sid) (rfs r))"
    using quiet_file_inv [OF _ quiet_unlink] inv by (simp add: race_inv_def)
  then have "race_inv i d sid \<lparr>rfs = unlink_entry (entry_name sid) (rfs r), procs = (procs r)(p \<mapsto> Won fd)\<rparr>"
    by (rule race_inv_move [OF inv]) (use inv own False in \<open>auto simp: race_inv_def lookup_unlink\<close>)
  then show ?thesis using p False by (auto simp: at_pc_def claim_unlink_def)
qed

lemma race_step_inv:
  assumes inv: "race_inv i d sid r" and other: "\<And>now nid md payload. e = Stage now nid md payload \<Longrightarrow> nid \<noteq> sid"
  shows "race_inv i d sid (race_step k ttl mx sid e r)"
proof (cases e)
  case (Try_open p)
  then show ?thesis using inv race_inv_open by (cases "procs r p") auto
next
  case (Try_fstat p now)
  then show ?thesis using inv race_inv_fstat [OF inv] by (simp split: option.splits claim_pc.splits)
next
  case (Try_lstat p)
  then show ?thesis using inv race_inv_lstat [OF inv] by (simp split: option.splits claim_pc.splits)
next
  case (Try_unlink p)
  then show ?thesis using inv race_inv_unlink [OF inv] by (simp split: option.splits claim_pc.splits)
next
  case (Prune now)
  then show ?thesis using quiet_race_inv [OF inv quiet_prune] by simp
next
  case (Stage now nid md payload)
  then show ?thesis using quiet_race_inv [OF inv quiet_create] other by simp
qed

definition race_run :: "kernel \<Rightarrow> int \<Rightarrow> int \<Rightarrow> string \<Rightarrow> race_event list \<Rightarrow> secret_fs \<Rightarrow> claim_race" where
  "race_run k ttl mx sid es fs = fold (race_step k ttl mx sid) es \<lparr>rfs = fs, procs = (\<lambda>_. None)\<rparr>"

lemma race_run_inv:
  assumes es: "\<And>now md payload. Stage now sid md payload \<notin> set es" and start: "file_inv i d sid fs"
  shows "race_inv i d sid (race_run k ttl mx sid es fs)"
proof -
  have "race_inv i d sid r \<Longrightarrow> race_inv i d sid (fold (race_step k ttl mx sid) es r)" for r
    using es
  proof (induction es arbitrary: r)
    case (Cons e es)
    have "race_inv i d sid (race_step k ttl mx sid e r)"
      using race_step_inv [OF Cons.prems(1)] Cons.prems(2) by (metis list.set_intros(1))
    then show ?case using Cons.IH Cons.prems(2) by simp
  qed simp
  moreover have "race_inv i d sid \<lparr>rfs = fs, procs = (\<lambda>_. None)\<rparr>" using start by (simp add: race_inv_def)
  ultimately show ?thesis by (simp add: race_run_def)
qed

text \<open>
  C3. A handle is consumed at most once: whatever the order in which any number of
  processes run the four parts of their claims, interleaved with pruning and with the
  staging of other handles, at most one process wins, and the descriptor it holds is open on
  the bytes that were staged.
\<close>

theorem claim_exclusive:
  assumes "create_one_time_secret k now ttl mx sid md payload fs = (fs1, Inr sid')" and "fd_fresh fs"
    and "\<And>now md payload. Stage now sid md payload \<notin> set es"
    and "procs (race_run k ttl mx sid es fs1) p = Some (Won fd)"
  shows "read_secret (nat mx) fd (rfs (race_run k ttl mx sid es fs1)) = Inr payload
    \<and> (\<forall>q fd'. procs (race_run k ttl mx sid es fs1) q = Some (Won fd') \<longrightarrow> q = p)"
proof -
  note R = create_result [OF assms(1)]
  have "next_ino fs < next_ino fs1"
    using assms(1) secret_dir_frame(5) prune_frame(3)
    by (auto simp: create_one_time_secret_def Let_def and_then_def split: if_splits prod.splits sum.splits)
  then have "file_inv (next_ino fs) payload sid fs1"
    using R assms(2) by (simp add: file_inv_def fd_fresh_def)
  from race_run_inv [OF assms(3) this]
  have inv: "race_inv (next_ino fs) payload sid (race_run k ttl mx sid es fs1)" .
  then have one: "\<forall>q fd'. procs (race_run k ttl mx sid es fs1) q = Some (Won fd') \<longrightarrow> q = p"
    using assms(4) by (metis race_inv_def)
  have "fds (rfs (race_run k ttl mx sid es fs1)) fd = Some (File (next_ino fs))"
    using inv assms(4) by (metis holds_fd.simps(4) race_inv_def)
  moreover have "map_option idata (inodes (rfs (race_run k ttl mx sid es fs1)) (next_ino fs)) = Some payload"
    using inv by (simp add: race_inv_def file_inv_def)
  ultimately have "read_secret (nat mx) fd (rfs (race_run k ttl mx sid es fs1)) = Inr payload"
    using R(4) by (auto simp: read_secret_def read_loop_eq)
  then show ?thesis using one by blast
qed

definition demo_race :: "race_event list" where
  "demo_race = [Try_open 1, Try_open 2, Try_fstat 1 150, Try_fstat 2 150, Try_lstat 2, Try_lstat 1, Try_unlink 2, Prune 200, Try_unlink 1, Try_open 3]"

theorem claim_exclusive_witness:
  "\<exists>fd. procs (race_run demo_kernel 300 65536 demo_sid demo_race demo_staged) 2 = Some (Won fd)
     \<and> read_secret 65536 fd (rfs (race_run demo_kernel 300 65536 demo_sid demo_race demo_staged)) = Inr ''hunter2''
     \<and> procs (race_run demo_kernel 300 65536 demo_sid demo_race demo_staged) 1 = Some Lost"
proof -
  have w: "procs (race_run demo_kernel 300 65536 demo_sid demo_race demo_staged) 2 = Some (Won 4)"
    and l: "procs (race_run demo_kernel 300 65536 demo_sid demo_race demo_staged) 1 = Some Lost"
    by code_simp+
  show ?thesis
    using claim_exclusive [OF demo_staged_ok demo_fresh(1) _ w] w l by (auto simp: demo_race_def)
qed


section \<open>The bundle\<close>

text \<open>
  A claim that was accepted, read and closed leaves the descriptors as they were, has taken
  exactly its own entry away, and keeps the conditions of the next claim.
\<close>

lemma claim_cases:
  assumes fresh: "fd_fresh fs" and dirs: "dirs_ok k fs"
    and c: "claim_one_time_secret k now ttl mx sid fs = (fs', r)"
  obtains (refused) e where "r = Inl e" "fds fs' = fds fs" "fd_fresh fs'" "dirs_ok k fs'"
  | (taken) i where "r = Inr (next_fd fs)" "lookup_entry (entry_name sid) fs = Some i" "accepts k now ttl mx sid fs"
      "fs' = unlink_entry (entry_name sid) (fs\<lparr>state_node := Real_dir (my_uid k) mode_0700,
         secrets_node := Real_dir (my_uid k) mode_0700, fds := (fds fs)(next_fd fs \<mapsto> File i), next_fd := Suc (next_fd fs)\<rparr>)"
proof (cases "hex_handle 32 sid")
  case False
  then show ?thesis using c fresh dirs refused by (auto simp: claim_one_time_secret_def secret_path_def)
next
  case True
  let ?p = "fs\<lparr>state_node := Real_dir (my_uid k) mode_0700, secrets_node := Real_dir (my_uid k) mode_0700\<rparr>"
  have fp: "fd_fresh ?p" using fresh by (simp add: fd_fresh_def)
  have acc: "accepts k now ttl mx sid ?p = accepts k now ttl mx sid fs" by (simp add: accepts_def)
  have parts: "claim_one_time_secret k now ttl mx sid fs = and_then (claim_open k (entry_name sid) ?p)
      (\<lambda>fd fs. (case claim_check k now ttl mx (entry_name sid) fd fs of
          Some e \<Rightarrow> (close_fd fd fs, Inl e) | None \<Rightarrow> claim_unlink (entry_name sid) fd fs))"
    using True secret_dir_ok [OF dirs] by (simp add: claim_one_time_secret_def secret_path_def)
  note C = claim_from_open [OF fp, of k sid now ttl mx fs' r, folded parts, OF c]
  show ?thesis
  proof (cases r)
    case (Inl e)
    then have "fds fs' = fds fs" "next_fd fs \<le> next_fd fs'" "dirs_ok k fs'" using C by (auto simp: dirs_ok_def)
    then show ?thesis using refused [OF Inl] fresh by (simp add: fd_fresh_def)
  next
    case (Inr fd)
    then show ?thesis using C taken acc by auto
  qed
qed

lemma claim_effect:
  assumes fresh: "fd_fresh fs" and dirs: "dirs_ok k fs"
    and c: "claim_one_time_secret k now ttl mx sid fs = (fs', r)"
  shows "fd_fresh fs'" "dirs_ok k fs'"
    and "r = Inl e \<Longrightarrow> fds fs' = fds fs"
    and "r = Inr fd \<Longrightarrow> fds (close_fd fd fs') = fds fs"
    and "r = Inr fd \<Longrightarrow> lookup_entry n fs' = (if n = entry_name sid then None else lookup_entry n fs)"
    and "r = Inr fd \<Longrightarrow> map_option idata (inodes fs' i) = map_option idata (inodes fs i)"
    and "r = Inr fd \<Longrightarrow> read_secret mb fd fs' = read_loop mb [] (the (stored sid fs)) \<and> stored sid fs \<noteq> None"
proof -
  have free: "(fds fs)(next_fd fs := None) = fds fs" using fresh by (simp add: fd_fresh_def fun_eq_iff)
  have "fd_fresh fs' \<and> dirs_ok k fs' \<and> (\<forall>e. r = Inl e \<longrightarrow> fds fs' = fds fs) \<and> (\<forall>fd. r = Inr fd \<longrightarrow>
      fds (close_fd fd fs') = fds fs \<and> lookup_entry n fs' = (if n = entry_name sid then None else lookup_entry n fs)
      \<and> map_option idata (inodes fs' i) = map_option idata (inodes fs i)
      \<and> read_secret mb fd fs' = read_loop mb [] (the (stored sid fs)) \<and> stored sid fs \<noteq> None)"
    using fresh dirs c
  proof (cases rule: claim_cases)
    case (taken i)
    obtain nd where nd: "inodes fs i = Some nd" using taken(2,3) by (auto simp: accepts_def)
    have "map_option idata (inodes fs' j) = map_option idata (inodes fs j)" for j
      unfolding taken(4) inodes_unlink by simp
    moreover from this [of i] have "read_secret mb (next_fd fs) fs' = read_loop mb [] (the (stored sid fs)) \<and> stored sid fs \<noteq> None"
      using nd taken(2) by (auto simp: read_secret_def stored_def taken(4))
    ultimately show ?thesis
      using fresh free taken(1) by (auto simp: taken(4) fd_fresh_def dirs_ok_def close_fd_def lookup_unlink)
  qed auto
  then show "fd_fresh fs'" "dirs_ok k fs'" "r = Inl e \<Longrightarrow> fds fs' = fds fs" "r = Inr fd \<Longrightarrow> fds (close_fd fd fs') = fds fs"
    "r = Inr fd \<Longrightarrow> lookup_entry n fs' = (if n = entry_name sid then None else lookup_entry n fs)"
    "r = Inr fd \<Longrightarrow> map_option idata (inodes fs' i) = map_option idata (inodes fs i)"
    "r = Inr fd \<Longrightarrow> read_secret mb fd fs' = read_loop mb [] (the (stored sid fs)) \<and> stored sid fs \<noteq> None"
    by blast+
qed

text \<open>The conditions on a state in which claims run.\<close>

definition claimable :: "kernel \<Rightarrow> secret_fs \<Rightarrow> bool" where
  "claimable k fs \<longleftrightarrow> fd_fresh fs \<and> dirs_ok k fs"

lemma claimable_close: "claimable k fs \<Longrightarrow> claimable k (close_fd fd fs)"
  by (auto simp: claimable_def fd_fresh_def dirs_ok_def close_fd_def)

lemma claim_fields_effect:
  assumes "claimable k fs" "claim_fields k now ttl mb sofar hs fs = (fs', r)" "distinct (map snd hs)"
  shows "fds fs' = fds fs \<and> (case r of Inl _ \<Rightarrow> True | Inr kvs \<Rightarrow>
      (\<forall>sid \<in> set (map snd hs). stored sid fs \<noteq> None \<and> lookup_entry (entry_name sid) fs' = None)
      \<and> kvs = map (\<lambda>(role, sid). (role, b64encode (the (stored sid fs)))) hs
      \<and> sofar + sum_list (map (\<lambda>(_, sid). length (the (stored sid fs))) hs) \<le> max sofar mb
      \<and> (\<forall>n. n \<notin> set (map (entry_name \<circ> snd) hs) \<longrightarrow> lookup_entry n fs' = lookup_entry n fs))"
  using assms
proof (induction k now ttl mb sofar hs fs arbitrary: fs' r rule: claim_fields.induct)
  case (1 k now ttl mb sofar fs)
  then show ?case by auto
next
  case (2 k now ttl mb sofar role sid others fs)
  obtain fs1 r1 where c: "claim_one_time_secret k now ttl (int mb) sid fs = (fs1, r1)" by fastforce
  have fr: "fd_fresh fs" "dirs_ok k fs" using "2.prems"(1) by (simp_all add: claimable_def)
  note E = claim_effect [OF fr c]
  show ?case
  proof (cases r1)
    case (Inl e)
    then show ?thesis using "2.prems"(2) c E(3) by auto
  next
    case (Inr fd)
    let ?d = "the (stored sid fs)" and ?s = "close_fd fd fs1"
    have cl: "claimable k ?s" using E(1,2) by (intro claimable_close) (simp add: claimable_def)
    have rd: "read_secret mb fd fs1 = read_loop mb [] ?d" "stored sid fs \<noteq> None" using E(7) Inr by auto
    show ?thesis
    proof (cases "length ?d > mb \<or> ?d = [] \<or> sofar + length ?d > mb")
      case True
      then have "fs' = ?s \<and> isl r"
        using "2.prems"(2) c Inr rd by (auto simp: read_loop_eq split: if_splits)
      then show ?thesis using E(4) [OF Inr] by (cases r) auto
    next
      case False
      then have run: "claim_fields k now ttl mb sofar ((role, sid) # others) fs =
          and_then (claim_fields k now ttl mb (sofar + length ?d) others ?s) (\<lambda>kvs fs. (fs, Inr ((role, b64encode ?d) # kvs)))"
        using c Inr rd by (simp add: read_loop_eq)
      obtain fs2 r2 where rec: "claim_fields k now ttl mb (sofar + length ?d) others ?s = (fs2, r2)" by fastforce
      have st: "stored s ?s = stored s fs" if "s \<in> set (map snd others)" for s
      proof -
        have "s \<noteq> sid" using that "2.prems"(3) by auto
        then show ?thesis using E(5) [OF Inr] E(6) [OF Inr] by (auto simp: stored_def close_fd_def Option.bind_eq_Some_conv lookup_entry_def cong: Option.bind_cong)
      qed
      have IH: "fds fs2 = fds ?s \<and> (case r2 of Inl _ \<Rightarrow> True | Inr kvs \<Rightarrow>
          (\<forall>s \<in> set (map snd others). stored s ?s \<noteq> None \<and> lookup_entry (entry_name s) fs2 = None)
          \<and> kvs = map (\<lambda>(role, s). (role, b64encode (the (stored s ?s)))) others
          \<and> sofar + length ?d + sum_list (map (\<lambda>(_, s). length (the (stored s ?s))) others) \<le> max (sofar + length ?d) mb
          \<and> (\<forall>n. n \<notin> set (map (entry_name \<circ> snd) others) \<longrightarrow> lookup_entry n fs2 = lookup_entry n ?s))"
      proof (rule "2.IH" [OF _ _ cl rec])
        show "read_secret mb fd fs1 = Inr ?d" using rd(1) False by (simp add: read_loop_eq)
        show "\<not> (?d = [] \<or> mb < sofar + length ?d)" "distinct (map snd others)" using False "2.prems"(3) by auto
      qed
      show ?thesis
      proof (cases r2)
        case (Inl e)
        then show ?thesis using "2.prems"(2) run rec IH E(4) \<open>r1 = Inr fd\<close> by simp
      next
        case (Inr kvs)
        have res: "fs' = fs2" "r = Inr ((role, b64encode ?d) # kvs)" using "2.prems"(2) run rec Inr by simp_all
        have m: "map (\<lambda>(role, s). (role, b64encode (the (stored s ?s)))) others = map (\<lambda>(role, s). (role, b64encode (the (stored s fs)))) others"
          "map (\<lambda>(_, s). length (the (stored s ?s))) others = map (\<lambda>(_, s). length (the (stored s fs))) others"
          using st by force+
        have gone: "lookup_entry (entry_name sid) fs2 = None"
        proof -
          have "entry_name sid \<notin> set (map (entry_name \<circ> snd) others)"
            using "2.prems"(3) by (auto simp: image_iff)
          then show ?thesis using IH Inr E(5) [OF \<open>r1 = Inr fd\<close>] by (simp add: close_fd_def)
        qed
        have keep: "lookup_entry n fs2 = lookup_entry n fs" if "n \<notin> set (map (entry_name \<circ> snd) ((role, sid) # others))" for n
          using IH Inr that E(5) [OF \<open>r1 = Inr fd\<close>] by (auto simp: close_fd_def)
        have all: "\<forall>s \<in> set (map snd ((role, sid) # others)). stored s fs \<noteq> None \<and> lookup_entry (entry_name s) fs2 = None"
          using IH Inr gone rd(2) st by simp
        have "fds fs2 = fds fs" using IH E(4) [OF \<open>r1 = Inr fd\<close>] by simp
        moreover have "kvs = map (\<lambda>(role, s). (role, b64encode (the (stored s fs)))) others
            \<and> sofar + (length ?d + sum_list (map (\<lambda>(_, s). length (the (stored s fs))) others)) \<le> max sofar mb"
          using IH Inr m False by (auto simp: add.assoc)
        ultimately show ?thesis unfolding res using all keep by simp
      qed
    qed
  qed
qed


lemma claim_next_fd:
  assumes "fd_fresh fs" "dirs_ok k fs" "claim_one_time_secret k now ttl mx sid fs = (fs', r)"
  shows "next_fd fs \<le> next_fd fs'"
proof -
  obtain fs1 r1 where d: "secret_path k sid fs = (fs1, r1)" by fastforce
  have "next_fd fs1 = next_fd fs"
    using d secret_dir_frame(4) by (auto simp: secret_path_def and_then_def split: if_splits prod.splits sum.splits)
  then show ?thesis
    using assms(3) d
    by (auto simp: claim_one_time_secret_def claim_open_def open_fd_def claim_unlink_def close_fd_def and_then_def
        split: sum.splits option.splits if_splits prod.splits)
qed

lemma claim_fields_frame:
  "claimable k fs \<Longrightarrow> claimable k (fst (claim_fields k now ttl mb sofar hs fs))
     \<and> next_fd fs \<le> next_fd (fst (claim_fields k now ttl mb sofar hs fs))"
proof (induction k now ttl mb sofar hs fs rule: claim_fields.induct)
  case (2 k now ttl mb sofar role sid others fs)
  obtain fs1 r1 where c: "claim_one_time_secret k now ttl (int mb) sid fs = (fs1, r1)" by fastforce
  have c1: "claimable k fs1" using "2.prems" claim_effect(1,2) [OF _ _ c] by (simp add: claimable_def)
  have n: "next_fd fs \<le> next_fd fs1" using "2.prems" claim_next_fd [OF _ _ c] by (simp add: claimable_def)
  show ?case
  proof (cases r1)
    case (Inr fd)
    show ?thesis
    proof (cases "\<exists>data. read_secret mb fd fs1 = Inr data \<and> \<not> (data = [] \<or> mb < sofar + length data)")
      case True
      then obtain data where d: "read_secret mb fd fs1 = Inr data" "\<not> (data = [] \<or> mb < sofar + length data)" by blast
      let ?rec = "claim_fields k now ttl mb (sofar + length data) others (close_fd fd fs1)"
      have "claimable k (fst ?rec) \<and> next_fd (close_fd fd fs1) \<le> next_fd (fst ?rec)"
        using "2.IH" [OF d] claimable_close [OF c1] by blast
      then show ?thesis
        using c Inr d n by (cases ?rec) (auto simp: and_then_def close_fd_def split: sum.splits)
    next
      case False
      then show ?thesis using c Inr n claimable_close [OF c1] by (auto simp: close_fd_def split: sum.splits)
    qed
  qed (use c c1 n in auto)
qed simp

lemma pair_fresh:
  assumes ok: "claimable k fs" and c: "claim_secret_pair k now ttl mb handles fs = (fs', Inr fd)"
  shows "fd_fresh fs'"
proof -
  let ?m = "next_fd fs"
  let ?o = "fs\<lparr>fds := (fds fs)(?m \<mapsto> Memfd [] 0), next_fd := Suc ?m\<rparr>"
  have co: "claimable k ?o" using ok by (auto simp: claimable_def fd_fresh_def dirs_ok_def)
  obtain kvs where a: "assemble_pair k now ttl mb kvs ?m ?o = (fs', Inr fd)"
    using c by (auto simp: claim_secret_pair_def open_fd_def split: sum.splits option.splits if_splits prod.splits)
  obtain fs1 r1 where f: "claim_fields k now ttl mb 0 kvs ?o = (fs1, r1)" by fastforce
  have "fd_fresh fs1" "?m < next_fd fs1"
    using claim_fields_frame [OF co, of now ttl mb 0 kvs] f by (simp_all add: claimable_def)
  then show ?thesis
    using a f by (cases r1) (auto simp: assemble_pair_def Let_def fd_fresh_def split: if_splits option.splits prod.splits)
qed

lemma validate_pair_cases:
  assumes "validate_secret_pair (Some hs) = Inr v"
  shows "v = Some hs \<and> (\<exists>ra a rb b. hs = [(ra, a), (rb, b)] \<and> a \<noteq> b \<and> role_ok ra \<and> role_ok rb)"
proof -
  have "length hs = 2" and v: "v = Some hs" and ok: "\<not> list_ex (\<lambda>(r, h). \<not> role_ok r \<or> \<not> hex_handle 32 h) hs"
    and d: "length (remdups (map snd hs)) = 2"
    using assms by (auto simp: validate_secret_pair_def split: if_splits)
  then obtain x y where hs: "hs = [x, y]" by (auto simp: length_Suc_conv numeral_2_eq_2)
  have "snd x \<noteq> snd y" using d hs by auto
  moreover have "role_ok (fst x)" "role_ok (fst y)" using ok hs by auto
  ultimately show ?thesis using v hs by (metis prod.collapse)
qed

text \<open>What a bundle leaves behind, on success and on failure.\<close>

lemma pair_effect:
  assumes ok: "claimable k fs" and c: "claim_secret_pair k now ttl mb handles fs = (fs', r)"
  shows "case r of
      Inr fd \<Rightarrow> (\<exists>ra a rb b sa sb seals. handles = [(ra, a), (rb, b)] \<and> a \<noteq> b
        \<and> stored a fs = Some sa \<and> stored b fs = Some sb \<and> fds fs fd = None
        \<and> fds fs' = (fds fs)(fd \<mapsto> Memfd (dump_payload [(ra, b64encode sa), (rb, b64encode sb)]) seals)
        \<and> seals mod 16 = secret_seals
        \<and> lookup_entry (entry_name a) fs' = None \<and> lookup_entry (entry_name b) fs' = None)
    | Inl e \<Rightarrow> fds fs' = fds fs \<and> e \<in> ValueError ` {''secret stdin pair requires exactly two named handles'',
        ''secret stdin pair contains an invalid role or handle'', ''secret stdin pair handles must be distinct'',
        ''memory-backed secret stdin is unavailable'', ''secret stdin pair could not be assembled''}"
proof (cases "validate_secret_pair (Some handles)")
  case (Inl e)
  then have "e \<in> ValueError ` {''secret stdin pair requires exactly two named handles'',
        ''secret stdin pair contains an invalid role or handle'', ''secret stdin pair handles must be distinct''}"
    by (auto simp: validate_secret_pair_def split: if_splits)
  then show ?thesis using c Inl by (auto simp: claim_secret_pair_def)
next
  case (Inr v)
  note V = validate_pair_cases [OF Inr]
  then obtain ra a rb b where hs: "handles = [(ra, a), (rb, b)]" "a \<noteq> b" by blast
  show ?thesis
  proof (cases "has_memfd k \<and> memfd_ok k")
    case False
    then show ?thesis using c Inr V by (auto simp: claim_secret_pair_def unassembled_def split: if_splits)
  next
    case True
    let ?m = "next_fd fs"
    let ?o = "fs\<lparr>fds := (fds fs)(?m \<mapsto> Memfd [] 0), next_fd := Suc ?m\<rparr>"
    have free: "fds fs ?m = None" and restored: "(fds fs)(?m := None) = fds fs"
      using ok by (auto simp: claimable_def fd_fresh_def fun_eq_iff)
    have co: "claimable k ?o" using ok by (auto simp: claimable_def fd_fresh_def dirs_ok_def)
    obtain fs1 r1 where fields: "claim_fields k now ttl mb 0 handles ?o = (fs1, r1)" by fastforce
    have st: "stored s ?o = stored s fs" for s by (simp add: stored_def)
    note E = claim_fields_effect [OF co fields]
    have run: "claim_secret_pair k now ttl mb handles fs =
        (case assemble_pair k now ttl mb handles ?m ?o of (fs, Inr fd) \<Rightarrow> (fs, Inr fd) | (fs, Inl _) \<Rightarrow> (close_fd ?m fs, Inl unassembled))"
      using Inr V True by (simp add: claim_secret_pair_def open_fd_def)
    have bad: ?thesis if "assemble_pair k now ttl mb handles ?m ?o = (fs1, Inl e)" for e
      using that run c E hs restored by (auto simp: close_fd_def unassembled_def)
    show ?thesis
    proof (cases r1)
      case (Inl e)
      then show ?thesis using bad [of e] fields by (simp add: assemble_pair_def)
    next
      case (Inr kvs)
      obtain content ok where w: "write_all (write_result k) 0 (dump_payload kvs) [] = (content, ok)" by fastforce
      have kvs: "kvs = [(ra, b64encode (the (stored a fs))), (rb, b64encode (the (stored b fs)))]"
        and some: "stored a fs \<noteq> None" "stored b fs \<noteq> None"
        and gone: "lookup_entry (entry_name a) fs1 = None" "lookup_entry (entry_name b) fs1 = None"
        and fds1: "fds fs1 = (fds fs)(?m \<mapsto> Memfd [] 0)"
        using E Inr hs st by auto
      show ?thesis
      proof (cases "\<exists>e. assemble_pair k now ttl mb handles ?m ?o = (fs1, Inl e)")
        case True
        then show ?thesis using bad by blast
      next
        case False
        then obtain seals where s: "ok" "seals_after k secret_seals = Some seals" "seals mod 16 = secret_seals"
          and as: "assemble_pair k now ttl mb handles ?m ?o = (fs1\<lparr>fds := (fds fs1)(?m \<mapsto> Memfd content seals)\<rparr>, Inr ?m)"
          using fields Inr w by (auto simp: assemble_pair_def Let_def split: if_splits option.splits)
        have "content = dump_payload kvs" using w s(1) write_all_content by fastforce
        then show ?thesis using run c as s kvs some gone fds1 hs free by auto
      qed
    qed
  qed
qed

text \<open>
  C31. A successful bundle is one new descriptor, sealed against writing, growing, shrinking
  and further sealing, whose content is the canonical JSON of the two staged secrets in
  base64 under their roles; both handles are consumed. A failure leaves the descriptors as
  they were and its message is one of five fixed texts, so it carries nothing of a secret.
\<close>

theorem pair_outcome:
  assumes ok: "claimable k fs" and c: "claim_secret_pair k now ttl mb handles fs = (fs', r)"
  shows "case r of
      Inr fd \<Rightarrow> (\<exists>ra a rb b sa sb seals. handles = [(ra, a), (rb, b)] \<and> a \<noteq> b
        \<and> stored a fs = Some sa \<and> stored b fs = Some sb \<and> fds fs fd = None
        \<and> fds fs' = (fds fs)(fd \<mapsto> Memfd (dump_payload [(ra, b64encode sa), (rb, b64encode sb)]) seals)
        \<and> seals mod 16 = secret_seals
        \<and> lookup_entry (entry_name a) fs' = None \<and> lookup_entry (entry_name b) fs' = None)
    | Inl e \<Rightarrow> fds fs' = fds fs \<and> e \<in> ValueError ` {''secret stdin pair requires exactly two named handles'',
        ''secret stdin pair contains an invalid role or handle'', ''secret stdin pair handles must be distinct'',
        ''memory-backed secret stdin is unavailable'', ''secret stdin pair could not be assembled''}"
  by (rule pair_effect [OF assms])

definition demo_sid2 :: string where
  "demo_sid2 = ''ffffffffffffffffffffffffffffffff''"

definition demo_two :: secret_fs where
  "demo_two = fst (create_one_time_secret demo_kernel 120 300 65536 demo_sid2 mode_0600 ''pw'' demo_staged)"

lemma demo_two_ok: "claimable demo_kernel demo_two"
proof -
  have "snd (create_one_time_secret demo_kernel 120 300 65536 demo_sid2 mode_0600 ''pw'' demo_staged) = Inr demo_sid2"
    by code_simp
  then have c: "create_one_time_secret demo_kernel 120 300 65536 demo_sid2 mode_0600 ''pw'' demo_staged = (demo_two, Inr demo_sid2)"
    by (metis demo_two_def prod.collapse)
  have "dirs_ok demo_kernel demo_two" by code_simp
  then show ?thesis using create_result(5,6) [OF c] demo_fresh(2) by (simp add: claimable_def fd_fresh_def)
qed

theorem pair_outcome_witness:
  "\<exists>fs' fd seals. claim_secret_pair demo_kernel 200 300 150 [(''user'', demo_sid), (''token'', demo_sid2)] demo_two = (fs', Inr fd)
     \<and> fds fs' fd = Some (Memfd (dump_payload [(''user'', b64encode ''hunter2''), (''token'', b64encode ''pw'')]) seals)"
proof -
  obtain fs' r where c: "claim_secret_pair demo_kernel 200 300 150 [(''user'', demo_sid), (''token'', demo_sid2)] demo_two = (fs', r)"
    by fastforce
  have "\<not> isl (snd (claim_secret_pair demo_kernel 200 300 150 [(''user'', demo_sid), (''token'', demo_sid2)] demo_two))"
    by code_simp
  then obtain fd where r: "r = Inr fd" using c by (cases r) auto
  have "stored demo_sid demo_two = Some ''hunter2''" "stored demo_sid2 demo_two = Some ''pw''" by code_simp+
  then have "\<exists>seals. fds fs' fd = Some (Memfd (dump_payload [(''user'', b64encode ''hunter2''), (''token'', b64encode ''pw'')]) seals)"
    using pair_outcome [OF demo_two_ok c] unfolding r sum.case by (elim exE conjE) (simp only: list.inject prod.inject fun_upd_same, blast)
  then show ?thesis using c r by blast
qed

end
