(* ===== verification/Py_Utf8.thy ===== *)
theory Py_Utf8
  imports Py_Text
begin

text \<open>
  Python text as a sequence of code points, its UTF-8 encoding, and the incremental UTF-8
  decoder with \<open>errors="replace"\<close> that turns a subprocess's output into text. A byte is an
  integer between 0 and 255.
\<close>

type_synonym utext = "int list"
type_synonym bytes = "int list"

section \<open>Encoding\<close>

definition utf8_char :: "int \<Rightarrow> bytes" where
  "utf8_char c =
     (if c < 0x80 then [c]
      else if c < 0x800 then [0xC0 + c div 0x40, 0x80 + c mod 0x40]
      else if c < 0x10000 then [0xE0 + c div 0x1000, 0x80 + c div 0x40 mod 0x40, 0x80 + c mod 0x40]
      else [0xF0 + c div 0x40000, 0x80 + c div 0x1000 mod 0x40, 0x80 + c div 0x40 mod 0x40, 0x80 + c mod 0x40])"

definition surrogate :: "int \<Rightarrow> bool" where
  "surrogate c \<longleftrightarrow> 0xD800 \<le> c \<and> c < 0xE000"

text \<open>\<open>text.encode("utf-8", errors="replace")\<close>: a lone surrogate becomes \<open>?\<close>.\<close>

definition utf8_encode :: "utext \<Rightarrow> bytes" where
  "utf8_encode t = concat (map (\<lambda>c. if surrogate c then [0x3F] else utf8_char c) t)"

definition scalar :: "int \<Rightarrow> bool" where
  "scalar c \<longleftrightarrow> 0 \<le> c \<and> c < 0x110000 \<and> \<not> surrogate c"

section \<open>Decoding\<close>

text \<open>
  Between bytes the decoder is idle, or inside a sequence: \<open>Need n acc lo hi\<close> awaits
  \<open>n\<close> more bytes, the next one between \<open>lo\<close> and \<open>hi\<close>. A byte that does not fit
  ends the sequence with one replacement character and is read afresh.
\<close>

datatype utf8_state = Idle | Need nat int int int

definition replacement :: int where
  "replacement = 0xFFFD"

definition utf8_first :: "int \<Rightarrow> utf8_state \<times> utext" where
  "utf8_first b =
     (if b < 0x80 then (Idle, [b])
      else if b < 0xC2 then (Idle, [replacement])
      else if b < 0xE0 then (Need 1 (b - 0xC0) 0x80 0xBF, [])
      else if b < 0xF0 then (Need 2 (b - 0xE0) (if b = 0xE0 then 0xA0 else 0x80) (if b = 0xED then 0x9F else 0xBF), [])
      else if b < 0xF5 then (Need 3 (b - 0xF0) (if b = 0xF0 then 0x90 else 0x80) (if b = 0xF4 then 0x8F else 0xBF), [])
      else (Idle, [replacement]))"

fun utf8_step :: "utf8_state \<Rightarrow> int \<Rightarrow> utf8_state \<times> utext" where
  "utf8_step Idle b = utf8_first b"
| "utf8_step (Need n acc lo hi) b =
     (if lo \<le> b \<and> b \<le> hi
      then (if n \<le> 1 then (Idle, [acc * 0x40 + (b - 0x80)])
            else (Need (n - 1) (acc * 0x40 + (b - 0x80)) 0x80 0xBF, []))
      else (case utf8_first b of (s, t) \<Rightarrow> (s, replacement # t)))"

text \<open>\<open>decoder.decode(chunk, final=False)\<close>.\<close>

fun utf8_feed :: "utf8_state \<Rightarrow> bytes \<Rightarrow> utf8_state \<times> utext" where
  "utf8_feed s [] = (s, [])"
| "utf8_feed s (b # bs) =
     (case utf8_step s b of (s', t) \<Rightarrow> (case utf8_feed s' bs of (s'', t') \<Rightarrow> (s'', t @ t')))"

text \<open>\<open>decoder.decode(b"", final=True)\<close>.\<close>

fun utf8_final :: "utf8_state \<Rightarrow> utext" where
  "utf8_final Idle = []"
| "utf8_final (Need _ _ _ _) = [replacement]"

text \<open>\<open>data.decode("utf-8", errors="replace")\<close>.\<close>

definition utf8_decode :: "bytes \<Rightarrow> utext" where
  "utf8_decode bs = (case utf8_feed Idle bs of (s, t) \<Rightarrow> t @ utf8_final s)"

text \<open>A text as the byte string that carries it in JSON values.\<close>

definition text_str :: "utext \<Rightarrow> string" where
  "text_str t = map char_of (utf8_encode t)"

section \<open>Chunks\<close>

lemma utf8_feed_append:
  "utf8_feed s (a @ b) = (case utf8_feed s a of (s', t) \<Rightarrow> (case utf8_feed s' b of (s'', t') \<Rightarrow> (s'', t @ t')))"
  by (induction a arbitrary: s) (auto split: prod.splits)

lemma utf8_first_length: "length (snd (utf8_first b)) \<le> 1"
  by (simp add: utf8_first_def)

text \<open>A chunk gives at most one character per byte, and one more for a sequence left open.\<close>

definition opened :: "utf8_state \<Rightarrow> nat" where
  "opened s = (case s of Idle \<Rightarrow> 0 | _ \<Rightarrow> 1)"

lemma utf8_step_length: "length (snd (utf8_step s b)) + opened (fst (utf8_step s b)) \<le> 1 + opened s"
  by (cases s) (auto simp: utf8_first_def opened_def)

lemma utf8_feed_length: "length (snd (utf8_feed s bs)) + opened (fst (utf8_feed s bs)) \<le> length bs + opened s"
proof (induction bs arbitrary: s)
  case (Cons b bs)
  obtain s' t where s: "utf8_step s b = (s', t)" by fastforce
  obtain s'' t' where f: "utf8_feed s' bs = (s'', t')" by fastforce
  show ?case using utf8_step_length [of s b] Cons.IH [of s'] by (simp add: s f)
qed simp

lemma utf8_feed_ascii: "\<forall>b \<in> set bs. b < 0x80 \<Longrightarrow> utf8_feed Idle bs = (Idle, bs)"
  by (induction bs) (auto simp: utf8_first_def)

section \<open>Round trip\<close>

lemma digits64: "((c::int) div 0x1000 * 0x40 + c div 0x40 mod 0x40) * 0x40 + c mod 0x40 = c"
proof -
  have "c div 0x1000 = c div 0x40 div 0x40" by (simp add: div_mult2_eq [symmetric])
  then have "c div 0x1000 * 0x40 + c div 0x40 mod 0x40 = c div 0x40" by presburger
  then show ?thesis by presburger
qed

lemma two_bytes:
  assumes "a * 0x40 + b = (c::int)" "0 \<le> b" "b < 0x40" "0x80 \<le> c" "c < 0x800"
  shows "utf8_feed Idle [0xC0 + a, 0x80 + b] = (Idle, [c])"
proof -
  have "2 \<le> a" "a < 0x20" using assms by linarith+
  then show ?thesis using assms by (simp add: utf8_first_def)
qed

lemma three_bytes:
  assumes "(a * 0x40 + b) * 0x40 + d = (c::int)" "0 \<le> b" "b < 0x40" "0 \<le> d" "d < 0x40"
    "0x800 \<le> c" "c < 0x10000" "scalar c"
  shows "utf8_feed Idle [0xE0 + a, 0x80 + b, 0x80 + d] = (Idle, [c])"
proof -
  have s: "c < 0xD800 \<or> 0xE000 \<le> c" using assms(8) by (auto simp: scalar_def surrogate_def)
  have c: "4096 * a + 64 * b + d = c" using assms(1) by simp
  have a: "0 \<le> a" "a < 0x10" using c assms(2-7) by linarith+
  have "a = 0 \<longrightarrow> 0x20 \<le> b" using c assms(2-7) by linarith
  moreover have "a = 0xD \<longrightarrow> b < 0x20" using c assms(2-7) s by linarith
  ultimately show ?thesis using assms(1-7) a by (auto simp: utf8_first_def)
qed

lemma four_bytes:
  assumes "((a * 0x40 + b) * 0x40 + d) * 0x40 + e = (c::int)" "0 \<le> b" "b < 0x40" "0 \<le> d" "d < 0x40"
    "0 \<le> e" "e < 0x40" "0x10000 \<le> c" "scalar c"
  shows "utf8_feed Idle [0xF0 + a, 0x80 + b, 0x80 + d, 0x80 + e] = (Idle, [c])"
proof -
  have s: "c < 0x110000" using assms(9) by (simp add: scalar_def)
  have c: "262144 * a + 4096 * b + 64 * d + e = c" using assms(1) by simp
  have a: "0 \<le> a" "a < 5" using c assms(2-8) s by linarith+
  have "a = 0 \<longrightarrow> 0x10 \<le> b" using c assms(2-8) by linarith
  moreover have "a = 4 \<longrightarrow> b < 0x10" using c assms(2-8) s by linarith
  ultimately show ?thesis using assms(1-8) a by (auto simp: utf8_first_def)
qed

lemma utf8_char_decodes:
  assumes "scalar c"
  shows "utf8_feed Idle (utf8_char c) = (Idle, [c])"
proof -
  have r: "0 \<le> x mod 0x40" "x mod 0x40 < 0x40" for x :: int by simp_all
  consider "c < 0x80" | "0x80 \<le> c" "c < 0x800" | "0x800 \<le> c" "c < 0x10000" | "0x10000 \<le> c" by linarith
  then show ?thesis
  proof cases
    case 1
    then show ?thesis by (simp add: utf8_char_def utf8_first_def)
  next
    case 2
    then have "utf8_char c = [0xC0 + c div 0x40, 0x80 + c mod 0x40]" by (simp only: utf8_char_def if_True not_less if_not_P)
    then show ?thesis using two_bytes [OF div_mult_mod_eq r 2] by simp
  next
    case 3
    then have "utf8_char c = [0xE0 + c div 0x1000, 0x80 + c div 0x40 mod 0x40, 0x80 + c mod 0x40]"
      unfolding utf8_char_def by (simp only: if_True not_less if_not_P split: if_split)
    then show ?thesis using three_bytes [OF digits64 r r 3 assms] by (simp only:)
  next
    case 4
    have "c div 0x40 div 0x1000 = c div 0x40000" "c div 0x40 div 0x40 = c div 0x1000" by (simp_all add: div_mult2_eq [symmetric])
    with digits64 [of "c div 0x40"]
    have "(c div 0x40000 * 0x40 + c div 0x1000 mod 0x40) * 0x40 + c div 0x40 mod 0x40 = c div 0x40" by simp
    then have c: "((c div 0x40000 * 0x40 + c div 0x1000 mod 0x40) * 0x40 + c div 0x40 mod 0x40) * 0x40 + c mod 0x40 = c"
      using div_mult_mod_eq [where a = c and b = "0x40"] by (simp only:)
    have "utf8_char c = [0xF0 + c div 0x40000, 0x80 + c div 0x1000 mod 0x40, 0x80 + c div 0x40 mod 0x40, 0x80 + c mod 0x40]"
      using 4 by (simp add: utf8_char_def)
    then show ?thesis using four_bytes [OF c r r r 4 assms] by (simp only:)
  qed
qed

lemma utf8_encode_feed:
  "\<forall>c \<in> set t. scalar c \<Longrightarrow> utf8_feed Idle (utf8_encode t) = (Idle, t)"
proof (induction t)
  case (Cons c t)
  have "utf8_encode (c # t) = utf8_char c @ utf8_encode t"
    using Cons.prems by (simp add: utf8_encode_def scalar_def)
  then show ?case using Cons utf8_char_decodes [of c] by (simp add: utf8_feed_append)
qed (simp add: utf8_encode_def)

lemma utf8_roundtrip: "\<forall>c \<in> set t. scalar c \<Longrightarrow> utf8_decode (utf8_encode t) = t"
  by (simp add: utf8_decode_def utf8_encode_feed)

end
