(* ===== verification/Job_Guards.thy ===== *)
theory Job_Guards
  imports Secret_Input Py_Utf8
begin

text \<open>
  What \<open>server.py\<close> accepts before it starts anything: the configuration read from the
  environment, the working directory, the command line, the match texts and the secret
  handles, together with the environment a command gets and the redacted command line that
  is stored. The host (environment variables, path resolution, command lookup) is a
  parameter.
\<close>

section \<open>Paths\<close>

text \<open>A \<open>pathlib\<close> path: whether it is absolute, and its parts.\<close>

record path =
  absolute :: bool
  parts :: "string list"

definition parse_path :: "string \<Rightarrow> path" where
  "parse_path s = \<lparr>absolute = starts_with s ''/'', parts = filter (\<lambda>p. p \<noteq> [] \<and> p \<noteq> ''.'') (split_on (CHR ''/'') s)\<rparr>"

fun join_with :: "string \<Rightarrow> string list \<Rightarrow> string" where
  "join_with sep [] = []"
| "join_with sep [x] = x"
| "join_with sep (x # y # xs) = x @ sep @ join_with sep (y # xs)"

definition path_str :: "path \<Rightarrow> string" where
  "path_str p = (if absolute p then ''/'' @ join_with ''/'' (parts p)
                 else if parts p = [] then ''.'' else join_with ''/'' (parts p))"

definition path_name :: "path \<Rightarrow> string" where
  "path_name p = (if parts p = [] then [] else last (parts p))"

definition path_join :: "path \<Rightarrow> path \<Rightarrow> path" where
  "path_join a b = (if absolute b then b else a\<lparr>parts := parts a @ parts b\<rparr>)"

text \<open>The host: its answers may be exceptions.\<close>

record host =
  env_var :: "string \<Rightarrow> string option"
  expanduser :: "path \<Rightarrow> pyexc + path"
  resolve_strict :: "path \<Rightarrow> pyexc + path"
  resolve_lax :: "path \<Rightarrow> path"
  is_directory :: "path \<Rightarrow> bool"
  which :: "string \<Rightarrow> string option"

section \<open>Configuration\<close>

definition server_int_env :: "host \<Rightarrow> string \<Rightarrow> int \<Rightarrow> int \<Rightarrow> int \<Rightarrow> pyexc + int" where
  "server_int_env h name default_value minimum maximum =
     (case env_var h name of
        None \<Rightarrow> Inr default_value
      | Some raw \<Rightarrow>
          if raw = [] then Inr default_value
          else (case int10 raw of
                  None \<Rightarrow> Inl (RuntimeError (name @ '' must be an integer, got '' @ py_repr raw))
                | Some v \<Rightarrow>
                    if \<not> (minimum \<le> v \<and> v \<le> maximum)
                    then Inl (RuntimeError (name @ '' must be between '' @ int_str minimum @ '' and ''
                                 @ int_str maximum @ '', got '' @ int_str v))
                    else Inr v))"

definition server_bool_env :: "host \<Rightarrow> string \<Rightarrow> bool \<Rightarrow> pyexc + bool" where
  "server_bool_env h name default_value =
     (case env_var h name of
        None \<Rightarrow> Inr default_value
      | Some raw \<Rightarrow>
          if raw = [] then Inr default_value
          else let normalized = lower (strip raw) in
            if normalized \<in> {''1'', ''true'', ''yes'', ''on''} then Inr True
            else if normalized \<in> {''0'', ''false'', ''no'', ''off''} then Inr False
            else Inl (RuntimeError (name @ '' must be a boolean value, got '' @ py_repr raw)))"

fun load_roots :: "host \<Rightarrow> string list \<Rightarrow> pyexc + path list" where
  "load_roots h [] = Inr []"
| "load_roots h (p # ps) =
     (let part = strip p in
      if part = [] then load_roots h ps
      else bindr (expanduser h (parse_path part))
        (\<lambda>base. if \<not> absolute base
                then Inl (RuntimeError (''LONGRUN_ALLOWED_ROOTS contains a relative path: '' @ py_repr part))
                else bindr (resolve_strict h base) (\<lambda>r. bindr (load_roots h ps) (\<lambda>rs. Inr (r # rs)))))"

definition load_allowed_roots :: "host \<Rightarrow> pyexc + path list" where
  "load_allowed_roots h =
     (let raw = (case env_var h ''LONGRUN_ALLOWED_ROOTS'' of None \<Rightarrow> [] | Some r \<Rightarrow> r) in
      if raw = [] then Inl (RuntimeError ''LONGRUN_ALLOWED_ROOTS must contain at least one absolute trusted root'')
      else bindr (load_roots h (split_on (CHR '':'') raw))
        (\<lambda>roots. if roots = [] then Inl (RuntimeError ''LONGRUN_ALLOWED_ROOTS resolved to an empty list'') else Inr roots))"

definition secret_env_parts :: "string list" where
  "secret_env_parts = [''api_key'', ''apikey'', ''auth'', ''bearer'', ''credential'', ''cookie'', ''password'',
     ''passwd'', ''private_key'', ''secret'', ''session'', ''token'']"

definition default_forward_env_names :: "string list" where
  "default_forward_env_names = [''HOME'', ''USER'', ''LOGNAME'', ''PATH'', ''SHELL'', ''LANG'', ''LC_ALL'', ''LC_CTYPE'',
     ''TMPDIR'', ''TZ'', ''XDG_CACHE_HOME'', ''XDG_CONFIG_HOME'', ''XDG_DATA_HOME'', ''XDG_STATE_HOME'']"

definition is_sensitive_env_name :: "string \<Rightarrow> bool" where
  "is_sensitive_env_name name = list_ex (\<lambda>part. contains part (lower name)) secret_env_parts"

definition env_name_start :: "char \<Rightarrow> bool" where
  "env_name_start c \<longleftrightarrow> c \<in> set ''ABCDEFGHIJKLMNOPQRSTUVWXYZabcdefghijklmnopqrstuvwxyz_''"

definition env_name_ok :: "string \<Rightarrow> bool" where
  "env_name_ok s \<longleftrightarrow> s \<noteq> [] \<and> env_name_start (hd s) \<and> list_all (\<lambda>c. env_name_start c \<or> c \<in> set ''0123456789'') (tl s)"

fun forward_names :: "string list \<Rightarrow> string list \<Rightarrow> pyexc + string list" where
  "forward_names names [] = Inr names"
| "forward_names names (n # ns) =
     (if n = [] then forward_names names ns
      else if \<not> env_name_ok n then Inl (RuntimeError (''LONGRUN_FORWARD_ENV_NAMES contains an invalid name: '' @ py_repr n))
      else if is_sensitive_env_name n then Inl (RuntimeError (''LONGRUN_FORWARD_ENV_NAMES contains a sensitive name: '' @ py_repr n))
      else forward_names (if n \<in> set names then names else names @ [n]) ns)"

definition load_forward_env_names :: "host \<Rightarrow> pyexc + string list" where
  "load_forward_env_names h =
     (let raw = env_var h ''LONGRUN_FORWARD_ENV_NAMES'' in
      forward_names [] (if raw = None \<or> raw = Some [] then default_forward_env_names
                        else map strip (split_on (CHR '','') (the raw))))"

record server_config =
  max_log_size :: int
  max_timeout_sec :: int
  heartbeat_initial_sec :: int
  heartbeat_interval_sec :: int
  max_active_jobs :: int
  secret_ttl_sec :: int
  max_stdin_secret_bytes :: int
  allowed_roots :: "path list"
  forward_env_names :: "string list"
  allow_shell :: bool
  bridge_socket :: string

definition load_config :: "host \<Rightarrow> pyexc + server_config" where
  "load_config h =
     bindr (server_int_env h ''LONGRUN_MAX_LOG_BYTES'' (128 * 1024 * 1024) (1 * 1024 * 1024) (2 * 1024 * 1024 * 1024)) (\<lambda>max_log.
     bindr (server_int_env h ''LONGRUN_MAX_TIMEOUT_SEC'' (12 * 60 * 60) 60 (7 * 24 * 60 * 60)) (\<lambda>max_timeout.
     bindr (server_int_env h ''LONGRUN_HEARTBEAT_INITIAL_SEC'' 0 0 (24 * 60 * 60)) (\<lambda>initial.
     bindr (server_int_env h ''LONGRUN_HEARTBEAT_INTERVAL_SEC'' (15 * 60) 1 (24 * 60 * 60)) (\<lambda>interval.
     bindr (server_int_env h ''LONGRUN_MAX_ACTIVE_JOBS'' 4 1 64) (\<lambda>max_active.
     bindr (server_int_env h ''LONGRUN_SECRET_TTL_SEC'' 300 30 3600) (\<lambda>ttl.
     bindr (server_int_env h ''LONGRUN_MAX_STDIN_SECRET_BYTES'' (64 * 1024) 1 (1024 * 1024)) (\<lambda>max_secret.
     bindr (load_allowed_roots h) (\<lambda>roots.
     bindr (load_forward_env_names h) (\<lambda>names.
     bindr (server_bool_env h ''LONGRUN_ALLOW_SHELL'' False) (\<lambda>shell.
     bindr (server_bool_env h ''LONGRUN_DEBUG_STDIO'' False) (\<lambda>_.
       Inr \<lparr>max_log_size = max_log, max_timeout_sec = max_timeout, heartbeat_initial_sec = initial,
            heartbeat_interval_sec = interval, max_active_jobs = max_active, secret_ttl_sec = ttl,
            max_stdin_secret_bytes = max_secret, allowed_roots = roots, forward_env_names = names,
            allow_shell = shell,
            bridge_socket = strip (case env_var h ''LONGRUN_BRIDGE_SOCKET'' of None \<Rightarrow> [] | Some s \<Rightarrow> s)\<rparr>)))))))))))"

section \<open>Working directory\<close>

definition is_within :: "path \<Rightarrow> path \<Rightarrow> bool" where
  "is_within p base \<longleftrightarrow> absolute p = absolute base \<and> take (length (parts base)) (parts p) = parts base"

definition resolve_cwd :: "host \<Rightarrow> server_config \<Rightarrow> string \<Rightarrow> pyexc + path" where
  "resolve_cwd h cfg cwd =
     bindr (expanduser h (parse_path cwd))
       (\<lambda>candidate.
          if \<not> absolute candidate then Inl (ValueError ''cwd must be an absolute path'')
          else
            (case resolve_strict h candidate of
               Inl (FileNotFoundError _) \<Rightarrow> Inl (ValueError (''cwd does not exist: '' @ path_str candidate))
             | Inl e \<Rightarrow> Inl e
             | Inr resolved \<Rightarrow>
                 if \<not> is_directory h resolved then Inl (ValueError (''cwd is not a directory: '' @ path_str resolved))
                 else if \<not> list_ex (is_within resolved) (allowed_roots cfg)
                 then Inl (ValueError (''cwd '' @ path_str resolved @ '' is outside LONGRUN_ALLOWED_ROOTS (''
                        @ join_with '':'' (map path_str (allowed_roots cfg))
                        @ ''); this check is a routing guard, not a sandbox''))
                 else Inr resolved))"

section \<open>Command line\<close>

definition shell_executables :: "string list" where
  "shell_executables = [''bash'', ''cmd'', ''cmd.exe'', ''dash'', ''fish'', ''powershell'', ''pwsh'', ''sh'', ''zsh'']"

definition elevation_executables :: "string list" where
  "elevation_executables = [''doas'', ''pkexec'', ''su'', ''sudo'']"

fun validate_items :: "nat \<Rightarrow> int \<Rightarrow> string list \<Rightarrow> pyexc + string list" where
  "validate_items index size_sofar [] = Inr []"
| "validate_items index size_sofar (item # items) =
     (if item = [] then Inl (ValueError (''argv['' @ int_str (int index) @ ''] is empty''))
      else if CHR 0x00 \<in> set item then Inl (ValueError (''argv['' @ int_str (int index) @ ''] contains a NUL byte''))
      else let size_sofar = size_sofar + int (length item) in
        if size_sofar > 1024 * 1024 then Inl (ValueError ''combined argv length exceeds 1 MiB'')
        else bindr (validate_items (Suc index) size_sofar items) (\<lambda>vs. Inr (item # vs)))"

text \<open>The names an executable goes by: as written, and as the file it resolves to.\<close>

definition executable_names :: "host \<Rightarrow> path \<Rightarrow> string \<Rightarrow> string list" where
  "executable_names h cwd arg0 =
     (let executable_path =
            (if CHR ''/'' \<in> set arg0 then Some (path_join cwd (parse_path arg0))
             else map_option parse_path (which h arg0))
      in lower (path_name (parse_path arg0)) #
         (case executable_path of
            None \<Rightarrow> []
          | Some p \<Rightarrow> (case resolve_strict h p of Inl _ \<Rightarrow> [] | Inr r \<Rightarrow> [lower (path_name r)])))"

definition first_sorted :: "string list \<Rightarrow> string" where
  "first_sorted xs = (case xs of [] \<Rightarrow> [] | x # ys \<Rightarrow> fold (\<lambda>y m. if str_less y m then y else m) ys x)"

definition validate_argv :: "host \<Rightarrow> server_config \<Rightarrow> string list \<Rightarrow> path \<Rightarrow> pyexc + string list" where
  "validate_argv h cfg argv cwd =
     (if argv = [] then Inl (ValueError ''argv must contain at least one element'')
      else if length argv > 256 then Inl (ValueError ''argv contains more than 256 elements'')
      else bindr (validate_items 0 0 argv)
        (\<lambda>validated.
           let names = executable_names h cwd (hd validated);
               blocked_elevation = filter (\<lambda>n. n \<in> set elevation_executables) names;
               blocked_shell = filter (\<lambda>n. n \<in> set shell_executables) names
           in if blocked_elevation \<noteq> []
              then Inl (ValueError (''privilege-elevation command is disabled: '' @ first_sorted blocked_elevation))
              else if \<not> allow_shell cfg \<and> blocked_shell \<noteq> []
              then Inl (ValueError (''shell execution is disabled: '' @ first_sorted blocked_shell))
              else Inr validated))"

section \<open>Redaction and environment\<close>

definition secret_flag_parts :: "string list" where
  "secret_flag_parts = [''password'', ''passwd'', ''token'', ''secret'', ''api-key'', ''apikey'', ''auth'']"

definition names_secret :: "string \<Rightarrow> bool" where
  "names_secret s = list_ex (\<lambda>part. contains part s) secret_flag_parts"

definition before_eq :: "string \<Rightarrow> string" where
  "before_eq arg = takeWhile (\<lambda>c. c \<noteq> CHR ''='') arg"

fun redact_from :: "bool \<Rightarrow> string list \<Rightarrow> string list" where
  "redact_from redact_next [] = []"
| "redact_from redact_next (arg # args) =
     (if redact_next then ''<redacted>'' # redact_from False args
      else if CHR ''='' \<in> set arg \<and> names_secret (lower (before_eq arg))
      then (before_eq arg @ ''=<redacted>'') # redact_from False args
      else arg # redact_from (starts_with (lower arg) ''-'' \<and> names_secret (lower arg)) args)"

definition redact_argv :: "string list \<Rightarrow> string list" where
  "redact_argv argv = redact_from False argv"

definition build_process_env :: "host \<Rightarrow> server_config \<Rightarrow> path \<Rightarrow> (string \<times> string) list" where
  "build_process_env h cfg cwd =
     filter (\<lambda>(n, _). n \<noteq> ''PWD'') (concat (map (\<lambda>n. case env_var h n of None \<Rightarrow> [] | Some v \<Rightarrow> [(n, v)]) (forward_env_names cfg)))
       @ [(''PWD'', path_str cwd)]"

section \<open>Match texts and secret handles\<close>

definition validate_match_text :: "utext option \<Rightarrow> string \<Rightarrow> pyexc + utext option" where
  "validate_match_text v field_name =
     (case v of
        None \<Rightarrow> Inr None
      | Some t \<Rightarrow> if t = [] then Inr None
                 else if length t > 4096 then Inl (ValueError (field_name @ '' exceeds 4096 characters''))
                 else Inr (Some t))"

definition validate_stdin_secret_id :: "string option \<Rightarrow> pyexc + string option" where
  "validate_stdin_secret_id v =
     (case v of
        None \<Rightarrow> Inr None
      | Some s \<Rightarrow> if s = [] then Inr None
                 else if \<not> hex_handle 32 s
                 then Inl (ValueError ''stdin_secret_id must be a 32-character lowercase hexadecimal handle'')
                 else Inr (Some s))"

definition validate_secret_inputs ::
  "string option \<Rightarrow> secret_pair option \<Rightarrow> utext option \<Rightarrow> utext option \<Rightarrow> pyexc + (string option \<times> secret_pair option)" where
  "validate_secret_inputs scalar_id pair succ fail =
     bindr (validate_stdin_secret_id scalar_id) (\<lambda>scalar_id.
     bindr (validate_secret_pair pair) (\<lambda>pair.
       if scalar_id \<noteq> None \<and> pair \<noteq> None
       then Inl (ValueError ''stdin_secret_id and stdin_secret_ids are mutually exclusive'')
       else if (scalar_id \<noteq> None \<or> pair \<noteq> None) \<and> (succ \<notin> {None, Some []} \<or> fail \<notin> {None, Some []})
       then Inl (ValueError ''success_contains and failure_contains are unavailable with secret stdin'')
       else Inr (scalar_id, pair)))"

end
