(* ===== verification/Job_Output.thy ===== *)
theory Job_Output
  imports Py_Utf8
begin

text \<open>
  Captured output of a job (\<open>server.py\<close>): the tracker that counts, keeps a tail and
  looks for the success and failure texts, the loop that drains the subprocess's stream into
  the bounded log, the bounded tail, the loop that waits under the time limits, and the
  result state.
\<close>

section \<open>The tracker\<close>

text \<open>\<open>xs[-n:]\<close> for a positive \<open>n\<close>.\<close>

definition last_n :: "nat \<Rightarrow> 'a list \<Rightarrow> 'a list" where
  "last_n n xs = drop (length xs - n) xs"

definition max_memory_tail_chars :: nat where
  "max_memory_tail_chars = 64 * 1024"

record output_tracker =
  max_log_bytes :: int
  success_contains :: "utext option"
  failure_contains :: "utext option"
  last_output_at :: clock
  suppress_output :: bool
  bytes_seen :: int
  bytes_written :: int
  log_truncated :: bool
  tail_text :: utext
  scan_text :: utext
  success_match :: "utext option"
  failure_match :: "utext option"
  heartbeat_reports_completed :: int
  heartbeat_error :: "string option"

definition new_tracker :: "int \<Rightarrow> utext option \<Rightarrow> utext option \<Rightarrow> clock \<Rightarrow> bool \<Rightarrow> output_tracker" where
  "new_tracker mx succ fail started suppress =
     \<lparr>max_log_bytes = mx, success_contains = succ, failure_contains = fail, last_output_at = started,
      suppress_output = suppress, bytes_seen = 0, bytes_written = 0, log_truncated = False,
      tail_text = [], scan_text = [], success_match = None, failure_match = None,
      heartbeat_reports_completed = 0, heartbeat_error = None\<rparr>"

text \<open>\<open>needle in haystack\<close>.\<close>

fun is_prefix :: "'a list \<Rightarrow> 'a list \<Rightarrow> bool" where
  "is_prefix [] _ = True"
| "is_prefix (_ # _) [] = False"
| "is_prefix (p # ps) (x # xs) = (p = x \<and> is_prefix ps xs)"

fun occurs_in :: "'a list \<Rightarrow> 'a list \<Rightarrow> bool" where
  "occurs_in p [] = (p = [])"
| "occurs_in p (x # xs) = (is_prefix p (x # xs) \<or> occurs_in p xs)"

text \<open>One match field: the wanted text, the match so far, the text scanned.\<close>

definition scan_match :: "utext option \<Rightarrow> utext option \<Rightarrow> utext \<Rightarrow> utext option" where
  "scan_match wanted found scan =
     (case wanted of
        None \<Rightarrow> found
      | Some w \<Rightarrow> if w \<noteq> [] \<and> found = None \<and> occurs_in w scan then Some w else found)"

definition feed_text :: "clock \<Rightarrow> utext \<Rightarrow> nat \<Rightarrow> output_tracker \<Rightarrow> output_tracker" where
  "feed_text now t raw_byte_count tr =
     (let tr = tr\<lparr>last_output_at := now, bytes_seen := bytes_seen tr + int raw_byte_count\<rparr> in
      if suppress_output tr then tr
      else if t = [] then tr
      else
        let tr = tr\<lparr>tail_text := last_n max_memory_tail_chars (tail_text tr @ t),
                    scan_text := last_n max_memory_tail_chars (scan_text tr @ t)\<rparr>;
            tr = tr\<lparr>success_match := scan_match (success_contains tr) (success_match tr) (scan_text tr)\<rparr>
        in tr\<lparr>failure_match := scan_match (failure_contains tr) (failure_match tr) (scan_text tr)\<rparr>)"

section \<open>Draining the stream\<close>

text \<open>The state of the loop: the bytes in the log file, the decoder, the tracker.\<close>

record drain =
  dlog :: bytes
  decoder :: utf8_state
  tracker :: output_tracker

definition drain_chunk :: "clock \<times> bytes \<Rightarrow> drain \<Rightarrow> drain" where
  "drain_chunk ch d =
     (case ch of (now, chunk) \<Rightarrow>
      if suppress_output (tracker d) then d\<lparr>tracker := feed_text now [] (length chunk) (tracker d)\<rparr>
      else
        (case utf8_feed (decoder d) chunk of (s, t) \<Rightarrow>
           let tr = feed_text now t (length chunk) (tracker d);
               remaining = max_log_bytes tr - bytes_written tr;
               part = take (nat remaining) chunk;
               d = (if remaining > 0
                    then d\<lparr>dlog := dlog d @ part, tracker := tr\<lparr>bytes_written := bytes_written tr + int (length part)\<rparr>\<rparr>
                    else d\<lparr>tracker := tr\<rparr>);
               d = d\<lparr>decoder := s\<rparr>
           in if int (length chunk) > max remaining 0 then d\<lparr>tracker := (tracker d)\<lparr>log_truncated := True\<rparr>\<rparr> else d))"

text \<open>
  The whole loop, on the non-empty chunks the stream gives before its end with the clock at
  each; \<open>fin\<close> is the clock at the end.
\<close>

definition drain_finish :: "clock \<Rightarrow> drain \<Rightarrow> drain" where
  "drain_finish fin d =
     (let final_text = (if suppress_output (tracker d) then [] else utf8_final (decoder d)) in
      if final_text \<noteq> [] then d\<lparr>tracker := feed_text fin final_text 0 (tracker d)\<rparr> else d)"

definition drain_output :: "(clock \<times> bytes) list \<Rightarrow> clock \<Rightarrow> output_tracker \<Rightarrow> drain" where
  "drain_output chunks fin tr = drain_finish fin (fold drain_chunk chunks \<lparr>dlog = [], decoder = Idle, tracker = tr\<rparr>)"

section \<open>The bounded tail\<close>

text \<open>\<open>str.splitlines()\<close>: the line boundaries of Python text.\<close>

definition line_break :: "int \<Rightarrow> bool" where
  "line_break c \<longleftrightarrow> c \<in> {0x0A, 0x0B, 0x0C, 0x0D, 0x1C, 0x1D, 0x1E, 0x85, 0x2028, 0x2029}"

fun splitlines_from :: "utext \<Rightarrow> utext \<Rightarrow> utext list" where
  "splitlines_from cur [] = (if cur = [] then [] else [cur])"
| "splitlines_from cur [c] = (if line_break c then [cur] else [cur @ [c]])"
| "splitlines_from cur (c # d # cs) =
     (if c = 0x0D \<and> d = 0x0A then cur # splitlines_from [] cs
      else if line_break c then cur # splitlines_from [] (d # cs)
      else splitlines_from (cur @ [c]) (d # cs))"

definition splitlines :: "utext \<Rightarrow> utext list" where
  "splitlines t = splitlines_from [] t"

fun join_lines :: "utext list \<Rightarrow> utext" where
  "join_lines [] = []"
| "join_lines [l] = l"
| "join_lines (l # k # ls) = l @ [0x0A] @ join_lines (k # ls)"

definition after_newline :: "utext \<Rightarrow> utext" where
  "after_newline t = (if 0x0A \<in> set t then tl (dropWhile (\<lambda>c. c \<noteq> 0x0A) t) else t)"

definition limit_tail :: "utext \<Rightarrow> nat \<Rightarrow> nat \<Rightarrow> utext" where
  "limit_tail t max_lines max_bytes =
     (let encoded = utf8_encode t;
          t = (if length encoded > max_bytes then after_newline (utf8_decode (last_n max_bytes encoded)) else t)
      in if max_lines = 0 then [] else join_lines (last_n max_lines (splitlines t)))"

section \<open>Waiting under limits\<close>

datatype stop_reason = Timed_out | Inactive_timeout

text \<open>
  What one turn of the loop observes: whether the process has exited, the clock, the
  tracker's last output and byte count, how a progress report would end, and the clock after it.
\<close>

datatype report_outcome = Reported | Report_raised string | Report_cancelled

record observation =
  exited :: bool
  o_now :: clock
  o_last_output :: clock
  o_bytes_seen :: int
  o_report :: report_outcome
  o_after :: clock

text \<open>The loop's own state; a sleep or a report ends a turn.\<close>

record wait_state =
  next_heartbeat :: "clock option"
  reports :: int
  report_error :: "string option"

datatype turn = Returned "stop_reason option" | Slept clock | Reporting | Cancelled

text \<open>\<open>while next_heartbeat <= time.monotonic(): next_heartbeat += interval\<close>, for the interval of at least one second that the configuration guarantees.\<close>

function bump :: "int \<Rightarrow> clock \<Rightarrow> clock \<Rightarrow> clock" where
  "bump interval nxt now = (if interval < 1 \<or> now < nxt then nxt else bump interval (nxt + of_int interval) now)"
  by pat_completeness auto

termination bump
proof (relation "measure (\<lambda>(interval, nxt, now). nat (\<lfloor>now - nxt\<rfloor> + 1))")
  fix interval :: int and nxt now :: clock
  assume a: "\<not> (interval < 1 \<or> now < nxt)"
  then have "now - (nxt + of_int interval) \<le> now - nxt - 1" by (simp add: le_diff_eq)
  then have "\<lfloor>now - (nxt + of_int interval)\<rfloor> \<le> \<lfloor>now - nxt\<rfloor> - 1" by (metis floor_diff_one floor_mono)
  moreover have "0 \<le> \<lfloor>now - nxt\<rfloor>" using a by simp
  ultimately show "((interval, nxt + of_int interval, now), interval, nxt, now)
      \<in> measure (\<lambda>(interval, nxt, now). nat (\<lfloor>now - nxt\<rfloor> + 1))" by simp
qed simp

declare bump.simps [simp del]

definition sleep_for :: "clock \<Rightarrow> clock \<Rightarrow> clock" where
  "sleep_for next_deadline now = max (1 / 20) (min 1 (next_deadline - now))"

definition wait_turn ::
  "int \<Rightarrow> clock \<Rightarrow> int \<Rightarrow> int \<Rightarrow> observation \<Rightarrow> wait_state \<Rightarrow> wait_state \<times> turn" where
  "wait_turn interval started timeout_sec no_output_timeout_sec ob w =
     (let deadline = started + of_int timeout_sec; now = o_now ob in
      if exited ob then (w, Returned None)
      else if now \<ge> deadline then (w, Returned (Some Timed_out))
      else if no_output_timeout_sec > 0 \<and> now - o_last_output ob \<ge> of_int no_output_timeout_sec
      then (w, Returned (Some Inactive_timeout))
      else if (case next_heartbeat w of None \<Rightarrow> False | Some h \<Rightarrow> now \<ge> h)
      then (case o_report ob of
              Reported \<Rightarrow> (w\<lparr>reports := reports w + 1,
                              next_heartbeat := map_option (\<lambda>h. bump interval (h + of_int interval) (o_after ob)) (next_heartbeat w)\<rparr>, Reporting)
            | Report_cancelled \<Rightarrow> (w, Cancelled)
            | Report_raised e \<Rightarrow> (w\<lparr>report_error := Some e, next_heartbeat := None\<rparr>, Reporting))
      else
        let d1 = (if no_output_timeout_sec > 0 then min deadline (o_last_output ob + of_int no_output_timeout_sec) else deadline);
            d2 = (case next_heartbeat w of None \<Rightarrow> d1 | Some h \<Rightarrow> min d1 h)
        in (w, Slept (sleep_for d2 now)))"

text \<open>The loop on a sequence of observations; \<open>None\<close> when they run out before it ends.\<close>

fun wait_with_limits ::
  "int \<Rightarrow> clock \<Rightarrow> int \<Rightarrow> int \<Rightarrow> observation list \<Rightarrow> wait_state \<Rightarrow> (wait_state \<times> turn) option" where
  "wait_with_limits interval started timeout_sec no_output [] w = None"
| "wait_with_limits interval started timeout_sec no_output (ob # obs) w =
     (case wait_turn interval started timeout_sec no_output ob w of
        (w', Returned r) \<Rightarrow> Some (w', Returned r)
      | (w', Cancelled) \<Rightarrow> Some (w', Cancelled)
      | (w', _) \<Rightarrow> wait_with_limits interval started timeout_sec no_output obs w')"

definition wait_start :: "int \<Rightarrow> clock \<Rightarrow> bool \<Rightarrow> wait_state" where
  "wait_start heartbeat_initial started reporter =
     \<lparr>next_heartbeat = (if reporter \<and> heartbeat_initial > 0 then Some (started + of_int heartbeat_initial) else None),
      reports = 0, report_error = None\<rparr>"

section \<open>The result\<close>

datatype run_state = Succeeded | Failed | Run_timed_out | Run_inactive_timeout | Success_condition_not_met
  | Spawn_error | Cancelled_job

definition result_state :: "stop_reason option \<Rightarrow> int option \<Rightarrow> output_tracker \<Rightarrow> run_state" where
  "result_state stop exit_code tr =
     (if stop = Some Timed_out then Run_timed_out
      else if stop = Some Inactive_timeout then Run_inactive_timeout
      else if exit_code \<noteq> Some 0 \<or> failure_match tr \<noteq> None then Failed
      else if success_contains tr \<noteq> None \<and> success_match tr = None then Success_condition_not_met
      else Succeeded)"

end
