(* ===== verification/Job_Store.thy ===== *)
theory Job_Store
  imports Job_Guards Job_Output
begin

text \<open>
  The job metadata kept by \<open>server.py\<close>: one JSON file per job below the jobs directory,
  with the tail and log files beside it, and the operations that read, reserve, update,
  recover, report and cancel jobs.
\<close>

section \<open>State\<close>

datatype meta_file = Meta json | Unreadable pyexc

datatype signal_sent = Kill_group int | Kill_process int | Terminate_process int | Cancel_task string

text \<open>The files, the running background tasks of this server, and the signals sent so far.\<close>

record server_state =
  metas :: "(string \<times> meta_file) list"
  tails :: "(string \<times> utext) list"
  logs :: "(string \<times> bytes) list"
  background :: "string list"
  signals :: "signal_sent list"

text \<open>
  The processes of the host at the time of a call: start ticks by process id, process
  groups, which signals are permitted; this server's identity; the clock as text and as
  seconds, the parser of such text, and the text of floats and containers.
\<close>

record proc_host =
  proc_start_ticks :: "int \<Rightarrow> string option"
  group_of :: "int \<Rightarrow> int option"
  can_signal :: "int \<Rightarrow> bool"
  server_pid :: int
  server_start_ticks :: "string option"
  utc_now :: string
  epoch_now :: clock
  parse_utc :: "string \<Rightarrow> clock option"
  render :: "json \<Rightarrow> string"
  jobs_dir :: string

definition meta_get :: "string \<Rightarrow> server_state \<Rightarrow> meta_file option" where
  "meta_get job_id st = map_of (metas st) job_id"

text \<open>\<open>_atomic_write_json\<close>: the file is replaced as a whole.\<close>

fun file_put :: "string \<Rightarrow> 'a \<Rightarrow> (string \<times> 'a) list \<Rightarrow> (string \<times> 'a) list" where
  "file_put k v [] = [(k, v)]"
| "file_put k v ((k', v') # fs) = (if k' = k then (k, v) # fs else (k', v') # file_put k v fs)"

definition meta_put :: "string \<Rightarrow> jfields \<Rightarrow> server_state \<Rightarrow> server_state" where
  "meta_put job_id kvs st = st\<lparr>metas := file_put job_id (Meta (JObj kvs)) (metas st)\<rparr>"

text \<open>\<open>str(v)\<close>.\<close>

fun py_str :: "proc_host \<Rightarrow> json \<Rightarrow> string" where
  "py_str ph (JStr s) = s"
| "py_str ph JNull = ''None''"
| "py_str ph (JBool b) = (if b then ''True'' else ''False'')"
| "py_str ph (JInt i) = int_str i"
| "py_str ph v = render ph v"

section \<open>Reading\<close>

definition job_id_ok :: "string \<Rightarrow> bool" where
  "job_id_ok job_id \<longleftrightarrow> hex_handle 12 job_id \<or> hex_handle 32 job_id"

definition job_file :: "proc_host \<Rightarrow> string \<Rightarrow> string \<Rightarrow> string" where
  "job_file ph job_id suffix = jobs_dir ph @ ''/'' @ job_id @ suffix"

definition metadata_path :: "proc_host \<Rightarrow> string \<Rightarrow> pyexc + string" where
  "metadata_path ph job_id =
     (if \<not> job_id_ok job_id then Inl (ValueError ''invalid job_id'') else Inr (job_file ph job_id ''.json''))"

definition read_job_metadata :: "host \<Rightarrow> server_config \<Rightarrow> string \<Rightarrow> server_state \<Rightarrow> pyexc + jfields" where
  "read_job_metadata h cfg job_id st =
     (if \<not> job_id_ok job_id then Inl (ValueError ''invalid job_id'')
      else
        (case meta_get job_id st of
           None \<Rightarrow> Inl (FileNotFoundError (''no job metadata found for '' @ job_id))
         | Some (Unreadable e) \<Rightarrow> Inl e
         | Some (Meta (JObj kvs)) \<Rightarrow>
             if jfield ''job_id'' kvs \<noteq> JStr job_id then Inl (ValueError (''invalid metadata for job '' @ job_id))
             else (case jfield ''cwd'' kvs of
                     JStr cwd \<Rightarrow>
                       bindr (expanduser h (parse_path cwd))
                         (\<lambda>p. if \<not> list_ex (is_within (resolve_lax h p)) (allowed_roots cfg)
                              then Inl (PermissionError (''job '' @ job_id @ '' is outside the currently allowed roots''))
                              else Inr kvs)
                   | _ \<Rightarrow> Inr kvs)
         | Some (Meta _) \<Rightarrow> Inl (ValueError (''invalid metadata for job '' @ job_id))))"

section \<open>Status\<close>

definition terminal_job_states :: "string list" where
  "terminal_job_states = [''succeeded'', ''failed'', ''timed_out'', ''inactive_timeout'', ''success_condition_not_met'',
     ''spawn_error'', ''cancelled'', ''orphaned_recovered'']"

definition active_job_states :: "string list" where
  "active_job_states = [''queued'', ''starting'', ''running'']"

record job_status =
  js_job_id :: string
  js_state :: string
  js_terminal :: bool
  js_automatic_wakeup :: bool
  js_wake_delivery :: "string option"
  js_wake_mode :: "string option"
  js_handoff_state :: "string option"
  js_wake_error :: "string option"
  js_recommended_check_after_sec :: "int option"
  js_exit_code :: "int option"
  js_duration_sec :: clock
  js_started_at_utc :: string
  js_finished_at_utc :: "string option"
  js_command_display :: string
  js_cwd :: string
  js_log_path :: string
  js_metadata_path :: string
  js_output_bytes_seen :: int
  js_output_bytes_logged :: int
  js_log_truncated :: bool
  js_stdin_secret_supplied :: bool
  js_output_suppressed :: bool
  js_success_match :: "string option"
  js_failure_match :: "string option"
  js_error :: "string option"
  js_tail :: utext

definition as_str :: "json \<Rightarrow> string option" where
  "as_str v = (case v of JStr s \<Rightarrow> Some s | _ \<Rightarrow> None)"

definition some_str :: "proc_host \<Rightarrow> json \<Rightarrow> string option" where
  "some_str ph v = (if v = JNull then None else Some (py_str ph v))"

definition str_or :: "proc_host \<Rightarrow> string \<Rightarrow> string \<Rightarrow> jfields \<Rightarrow> string" where
  "str_or ph k d kvs = py_str ph (jget_default k (JStr d) (JObj kvs))"

text \<open>\<open>int(v)\<close> for the values the counters can have.\<close>

definition to_int :: "json \<Rightarrow> pyexc + int" where
  "to_int v =
     (case v of
        JInt i \<Rightarrow> Inr i
      | JBool b \<Rightarrow> Inr (of_bool b)
      | JFloat m k \<Rightarrow> Inr (if m < 0 then - ((- m) div 10 ^ k) else m div 10 ^ k)
      | JStr s \<Rightarrow> (case int10 s of None \<Rightarrow> Inl (ValueError ''invalid literal for int()'') | Some i \<Rightarrow> Inr i)
      | _ \<Rightarrow> Inl (RuntimeError ''int() argument''))"

definition round3 :: "clock \<Rightarrow> clock" where
  "round3 x = of_int \<lfloor>x * 1000 + 1 / 2\<rfloor> / 1000"

definition elapsed_from_payload :: "proc_host \<Rightarrow> jfields \<Rightarrow> clock" where
  "elapsed_from_payload ph kvs =
     (case number_of (jfield ''duration_sec'' kvs) of
        Some (m, k) \<Rightarrow> round3 (of_int m / 10 ^ k)
      | None \<Rightarrow>
          (case jfield ''started_at_utc'' kvs of
             JStr s \<Rightarrow> (case parse_utc ph s of None \<Rightarrow> 0 | Some t \<Rightarrow> round3 (max 0 (epoch_now ph - t)))
           | _ \<Rightarrow> 0))"

definition status_tail :: "string \<Rightarrow> bool \<Rightarrow> nat \<Rightarrow> nat \<Rightarrow> jfields \<Rightarrow> server_state \<Rightarrow> (string \<Rightarrow> utext) \<Rightarrow> utext" where
  "status_tail job_id terminal tail_lines tail_bytes kvs st text_of =
     (if terminal \<and> tail_lines > 0
      then (case map_of (tails st) job_id of
              Some t \<Rightarrow> limit_tail t tail_lines tail_bytes
            | None \<Rightarrow> (case jfield ''tail'' kvs of JStr s \<Rightarrow> limit_tail (text_of s) tail_lines tail_bytes | _ \<Rightarrow> []))
      else [])"

text \<open>A string of a JSON value as text.\<close>

definition str_text :: "string \<Rightarrow> utext" where
  "str_text s = utf8_decode (map of_char s)"

definition job_status_from_payload ::
  "proc_host \<Rightarrow> nat \<Rightarrow> nat \<Rightarrow> jfields \<Rightarrow> server_state \<Rightarrow> pyexc + job_status" where
  "job_status_from_payload ph tail_lines tail_bytes kvs st =
     (let job_id = py_str ph (jfield ''job_id'' kvs);
          state = str_or ph ''state'' ''spawn_error'' kvs;
          terminal = (state \<in> set terminal_job_states);
          wakeup = truthy (jget_default ''automatic_wakeup'' (JBool False) (JObj kvs))
      in bindr (metadata_path ph job_id) (\<lambda>mpath.
         bindr (to_int (jget_default ''output_bytes_seen'' (JInt 0) (JObj kvs))) (\<lambda>seen.
         bindr (to_int (jget_default ''output_bytes_logged'' (JInt 0) (JObj kvs))) (\<lambda>logged.
           if state \<notin> set terminal_job_states \<union> set active_job_states then Inl (ValueError ''JobStatusResult.state'')
           else Inr \<lparr>js_job_id = job_id, js_state = state, js_terminal = terminal, js_automatic_wakeup = wakeup,
             js_wake_delivery = as_str (jfield ''wake_delivery'' kvs), js_wake_mode = as_str (jfield ''wake_mode'' kvs),
             js_handoff_state = as_str (jfield ''handoff_state'' kvs), js_wake_error = as_str (jfield ''wake_error'' kvs),
             js_recommended_check_after_sec = (if terminal \<or> wakeup then None else Some 600),
             js_exit_code = (if isinstance_int (jfield ''exit_code'' kvs) then Some (int_of_json (jfield ''exit_code'' kvs)) else None),
             js_duration_sec = elapsed_from_payload ph kvs, js_started_at_utc = str_or ph ''started_at_utc'' [] kvs,
             js_finished_at_utc = as_str (jfield ''finished_at_utc'' kvs),
             js_command_display = str_or ph ''command_display'' ''<pending validation>'' kvs,
             js_cwd = str_or ph ''cwd'' [] kvs, js_log_path = str_or ph ''log_path'' (job_file ph job_id ''.log'') kvs,
             js_metadata_path = mpath, js_output_bytes_seen = seen, js_output_bytes_logged = logged,
             js_log_truncated = truthy (jget_default ''log_truncated'' (JBool False) (JObj kvs)),
             js_stdin_secret_supplied = truthy (jget_default ''stdin_secret_supplied'' (JBool False) (JObj kvs)),
             js_output_suppressed = truthy (jget_default ''output_suppressed'' (JBool False) (JObj kvs)),
             js_success_match = some_str ph (jfield ''success_match'' kvs),
             js_failure_match = some_str ph (jfield ''failure_match'' kvs),
             js_error = some_str ph (jfield ''error'' kvs),
             js_tail = status_tail job_id terminal tail_lines tail_bytes kvs st str_text\<rparr>))))"

section \<open>Identity of processes\<close>

definition pid_matches :: "proc_host \<Rightarrow> json \<Rightarrow> json \<Rightarrow> bool" where
  "pid_matches ph pid ticks \<longleftrightarrow>
     isinstance_int pid \<and> is_str ticks \<and> proc_start_ticks ph (int_of_json pid) = Some (str_of_json ticks)"

definition active_payload :: "jfields \<Rightarrow> bool" where
  "active_payload kvs \<longleftrightarrow> jfield ''state'' kvs \<in> JStr ` set active_job_states"

definition owner_alive :: "proc_host \<Rightarrow> jfields \<Rightarrow> bool" where
  "owner_alive ph kvs = pid_matches ph (jfield ''server_pid'' kvs) (jfield ''server_start_ticks'' kvs)"

text \<open>A state that is a list or a dict cannot be looked up in a set.\<close>

fun state_error :: "meta_file \<Rightarrow> pyexc option" where
  "state_error (Meta (JObj kvs)) =
     (case jfield ''state'' kvs of
        JArr _ \<Rightarrow> Some (TypeError (''unhashable type: '' @ py_repr ''list''))
      | JObj _ \<Rightarrow> Some (TypeError (''unhashable type: '' @ py_repr ''dict''))
      | _ \<Rightarrow> None)"
| "state_error _ = None"

definition state_errors :: "server_state \<Rightarrow> pyexc list" where
  "state_errors st = List.map_filter (\<lambda>(_, f). state_error f) (metas st)"

section \<open>Reservation and update\<close>

fun counts_active :: "proc_host \<Rightarrow> meta_file \<Rightarrow> bool" where
  "counts_active ph (Meta (JObj kvs)) = (active_payload kvs \<and> owner_alive ph kvs)"
| "counts_active ph _ = False"

definition active_job_count :: "proc_host \<Rightarrow> server_state \<Rightarrow> int" where
  "active_job_count ph st = int (length (filter (\<lambda>(_, f). counts_active ph f) (metas st)))"

definition opt_str :: "string option \<Rightarrow> json" where
  "opt_str x = (case x of None \<Rightarrow> JNull | Some s \<Rightarrow> JStr s)"

definition reserved_metadata :: "proc_host \<Rightarrow> string \<Rightarrow> string \<Rightarrow> jfields" where
  "reserved_metadata ph job_id cwd =
     [(''job_id'', JStr job_id), (''state'', JStr ''queued''), (''started_at_utc'', JStr (utc_now ph)),
      (''server_pid'', JInt (server_pid ph)), (''server_start_ticks'', opt_str (server_start_ticks ph)),
      (''command_display'', JStr ''<pending validation>''), (''cwd'', JStr cwd),
      (''log_path'', JStr (job_file ph job_id ''.log''))]"

definition reserve_job ::
  "proc_host \<Rightarrow> server_config \<Rightarrow> string \<Rightarrow> string \<Rightarrow> server_state \<Rightarrow> (server_state, unit) outcome" where
  "reserve_job ph cfg job_id cwd st =
     (case state_errors st of
        e # _ \<Rightarrow> (st, Inl e)
      | [] \<Rightarrow>
          let active = active_job_count ph st in
          if active \<ge> max_active_jobs cfg
          then (st, Inl (RuntimeError (''active job limit reached ('' @ int_str active @ ''/'' @ int_str (max_active_jobs cfg) @ '')'')))
          else if \<not> job_id_ok job_id then (st, Inl (ValueError ''invalid job_id''))
          else (meta_put job_id (reserved_metadata ph job_id cwd) st, Inr ()))"

definition blank_metadata :: "proc_host \<Rightarrow> string \<Rightarrow> jfields" where
  "blank_metadata ph job_id = [(''job_id'', JStr job_id), (''started_at_utc'', JStr (utc_now ph)), (''cwd'', JStr [])]"

definition current_payload :: "proc_host \<Rightarrow> string \<Rightarrow> server_state \<Rightarrow> jfields" where
  "current_payload ph job_id st =
     (case meta_get job_id st of Some (Meta (JObj kvs)) \<Rightarrow> kvs | _ \<Rightarrow> blank_metadata ph job_id)"

definition update_job_metadata ::
  "proc_host \<Rightarrow> string \<Rightarrow> jfields \<Rightarrow> server_state \<Rightarrow> (server_state, unit) outcome" where
  "update_job_metadata ph job_id new st =
     (if \<not> job_id_ok job_id then (st, Inl (ValueError ''invalid job_id''))
      else (meta_put job_id (dict_update new (current_payload ph job_id st)) st, Inr ()))"

section \<open>Recovery of orphaned jobs\<close>

text \<open>A process is signalled only when its recorded identity still matches.\<close>

definition kill_command_group :: "proc_host \<Rightarrow> jfields \<Rightarrow> signal_sent list" where
  "kill_command_group ph kvs =
     (let pgid = jfield ''command_pgid'' kvs in
      if pid_matches ph pgid (jfield ''command_start_ticks'' kvs)
         \<and> group_of ph (int_of_json pgid) = Some (int_of_json pgid) \<and> can_signal ph (int_of_json pgid)
      then [Kill_group (int_of_json pgid)] else [])"

definition kill_supervisor :: "proc_host \<Rightarrow> jfields \<Rightarrow> signal_sent list" where
  "kill_supervisor ph kvs =
     (let pid = jfield ''pid'' kvs in
      if pid_matches ph pid (jfield ''process_start_ticks'' kvs) \<and> can_signal ph (int_of_json pid)
      then [Kill_process (int_of_json pid)] else [])"

definition orphaned :: "proc_host \<Rightarrow> jfields \<Rightarrow> bool" where
  "orphaned ph kvs \<longleftrightarrow> active_payload kvs \<and> \<not> owner_alive ph kvs"

definition recovered_metadata :: "proc_host \<Rightarrow> jfields \<Rightarrow> jfields" where
  "recovered_metadata ph kvs =
     dict_update
       [(''state'', JStr ''orphaned_recovered''), (''finished_at_utc'', JStr (utc_now ph)),
        (''recovery_terminated_command_group'', JBool (kill_command_group ph kvs \<noteq> [])),
        (''recovery_terminated_supervisor'', JBool (kill_supervisor ph kvs \<noteq> [])),
        (''error'', JStr ''the owning MCP server exited before recording a terminal result'')] kvs"

fun recover_file :: "proc_host \<Rightarrow> meta_file \<Rightarrow> meta_file \<times> signal_sent list \<times> int" where
  "recover_file ph (Meta (JObj kvs)) =
     (if orphaned ph kvs
      then (Meta (JObj (recovered_metadata ph kvs)), kill_command_group ph kvs @ kill_supervisor ph kvs, 1)
      else (Meta (JObj kvs), [], 0))"
| "recover_file ph f = (f, [], 0)"

text \<open>The loop over the files; an exception ends it, what was done stays.\<close>

fun recover_files ::
  "proc_host \<Rightarrow> (string \<times> meta_file) list \<Rightarrow> ((string \<times> meta_file) list \<times> signal_sent list, int) outcome" where
  "recover_files ph [] = (([], []), Inr 0)"
| "recover_files ph ((n, f) # fs) =
     (case state_error f of
        Some e \<Rightarrow> (((n, f) # fs, []), Inl e)
      | None \<Rightarrow>
          (case (recover_file ph f, recover_files ph fs) of
             ((f', sent, c), ((fs', sent'), r)) \<Rightarrow> (((n, f') # fs', sent @ sent'), map_sum id ((+) c) r)))"

definition recover_orphaned_jobs :: "proc_host \<Rightarrow> server_state \<Rightarrow> (server_state, int) outcome" where
  "recover_orphaned_jobs ph st =
     (case recover_files ph (metas st) of
        ((fs, sent), r) \<Rightarrow> (st\<lparr>metas := fs, signals := signals st @ sent\<rparr>, r))"


section \<open>Requests on known jobs\<close>

record cancel_result =
  cr_job_id :: string
  cr_state :: string
  cr_requested :: bool
  cr_terminal :: bool

definition cancel_job ::
  "host \<Rightarrow> proc_host \<Rightarrow> server_config \<Rightarrow> string \<Rightarrow> server_state \<Rightarrow> (server_state, cancel_result) outcome" where
  "cancel_job h ph cfg job_id st =
     (case read_job_metadata h cfg job_id st of
        Inl e \<Rightarrow> (st, Inl e)
      | Inr kvs \<Rightarrow>
          let state = str_or ph ''state'' ''spawn_error'' kvs in
          if state \<in> set terminal_job_states
          then (st, Inr \<lparr>cr_job_id = job_id, cr_state = state, cr_requested = False, cr_terminal = True\<rparr>)
          else
            let kvs = dict_set ''cancel_requested_at_utc'' (JStr (utc_now ph)) kvs;
                st = meta_put job_id kvs st;
                pid = jfield ''pid'' kvs;
                sent = (if job_id \<in> set (background st) then [Cancel_task job_id]
                        else if pid_matches ph pid (jfield ''process_start_ticks'' kvs) \<and> can_signal ph (int_of_json pid)
                        then [Terminate_process (int_of_json pid)] else []);
                st = st\<lparr>signals := signals st @ sent\<rparr>
            in if state \<notin> set active_job_states then (st, Inl (ValueError ''CancelJobResult.state''))
               else (st, Inr \<lparr>cr_job_id = job_id, cr_state = state, cr_requested = True, cr_terminal = False\<rparr>))"

text \<open>
  \<open>get_job\<close>: for a session wakeup the bridge is asked first; its reply (or the
  \<open>BridgeError\<close>) is an argument, \<open>None\<close> where the bridge is not asked.
\<close>

definition wake_settled :: "json \<Rightarrow> bool" where
  "wake_settled v \<longleftrightarrow> v \<in> {JStr ''abandoned'', JStr ''needs_manual_recovery''}"

definition refresh_wake ::
  "proc_host \<Rightarrow> string \<Rightarrow> pyexc + json \<Rightarrow> server_state \<Rightarrow> (server_state, unit) outcome" where
  "refresh_wake ph job_id reply st =
     (case reply of
        Inl (BridgeError _) \<Rightarrow> (st, Inr ())
      | Inl e \<Rightarrow> (st, Inl e)
      | Inr wake \<Rightarrow>
          update_job_metadata ph job_id
            ((''wake_delivery'', jget ''delivery_state'' wake)
             # (if wake_settled (jget ''delivery_state'' wake)
                then [(''automatic_wakeup'', JBool False), (''wake_error'', jget ''error'' wake)] else [])) st)"

definition get_job ::
  "host \<Rightarrow> proc_host \<Rightarrow> server_config \<Rightarrow> pyexc + json \<Rightarrow> string \<Rightarrow> nat \<Rightarrow> nat \<Rightarrow> server_state \<Rightarrow> (server_state, job_status) outcome" where
  "get_job h ph cfg reply job_id tail_lines tail_bytes st =
     (case read_job_metadata h cfg job_id st of
        Inl e \<Rightarrow> (st, Inl e)
      | Inr kvs \<Rightarrow>
          and_then (if jfield ''wake_mode'' kvs = JStr ''session'' \<and> bridge_socket cfg \<noteq> []
                    then refresh_wake ph job_id reply st else (st, Inr ()))
            (\<lambda>_ st. (st, bindr (read_job_metadata h cfg job_id st)
                           (\<lambda>kvs. job_status_from_payload ph tail_lines tail_bytes kvs st))))"

definition cancel_wakeup ::
  "host \<Rightarrow> proc_host \<Rightarrow> server_config \<Rightarrow> string option \<Rightarrow> pyexc + json \<Rightarrow> string \<Rightarrow> server_state \<Rightarrow> (server_state, bool) outcome" where
  "cancel_wakeup h ph cfg thread_id reply job_id st =
     (case read_job_metadata h cfg job_id st of
        Inl e \<Rightarrow> (st, Inl e)
      | Inr kvs \<Rightarrow>
          if bridge_socket cfg = [] \<or> thread_id = None \<or> jfield ''wake_thread_id'' kvs \<noteq> opt_str thread_id
          then (st, Inl (RuntimeError ''cancelling a wakeup requires its originating thread and bridge''))
          else if jfield ''wake_mode'' kvs \<noteq> JStr ''session''
          then (st, Inl (RuntimeError ''Goal wakeups follow the existing Goal pause/cancel controls''))
          else
            (case reply of
               Inl e \<Rightarrow> (st, Inl e)
             | Inr r \<Rightarrow>
                 let cancelled = (jget ''wakeup_cancelled'' r = JBool True) in
                 if cancelled
                 then and_then (update_job_metadata ph job_id
                        [(''automatic_wakeup'', JBool False), (''wake_delivery'', JStr ''cancelled_by_user'')] st)
                        (\<lambda>_ st. (st, Inr True))
                 else (st, Inr False)))"

record log_tail =
  lt_job_id :: string
  lt_source :: string
  lt_tail :: utext

definition read_log_tail ::
  "host \<Rightarrow> proc_host \<Rightarrow> server_config \<Rightarrow> string \<Rightarrow> nat \<Rightarrow> nat \<Rightarrow> server_state \<Rightarrow> pyexc + log_tail" where
  "read_log_tail h ph cfg job_id tail_lines tail_bytes st =
     bindr (read_job_metadata h cfg job_id st)
       (\<lambda>kvs.
          if truthy (jget_default ''output_suppressed'' (JBool False) (JObj kvs))
          then Inr \<lparr>lt_job_id = job_id, lt_source = job_file ph job_id ''.log'', lt_tail = []\<rparr>
          else
            (case map_of (tails st) job_id of
               Some t \<Rightarrow> Inr \<lparr>lt_job_id = job_id, lt_source = job_file ph job_id ''.tail.txt'', lt_tail = limit_tail t tail_lines tail_bytes\<rparr>
             | None \<Rightarrow>
                 (case map_of (logs st) job_id of
                    None \<Rightarrow> Inl (FileNotFoundError (''no log found for job '' @ job_id))
                  | Some b \<Rightarrow> Inr \<lparr>lt_job_id = job_id, lt_source = job_file ph job_id ''.log'',
                                  lt_tail = limit_tail (utf8_decode (last_n tail_bytes b)) tail_lines tail_bytes\<rparr>)))"

text \<open>
  The callback of a finished background task: \<open>None\<close> for a result, else its exception. A
  file that holds no JSON object makes the callback itself raise, which leaves the file.
\<close>

definition background_error :: "proc_host \<Rightarrow> pyexc \<Rightarrow> jfields" where
  "background_error ph e =
     [(''state'', JStr ''spawn_error''), (''finished_at_utc'', JStr (utc_now ph)),
      (''error'', JStr (''background task error: '' @ exc_name e @ '': '' @ exc_str e))]"

definition consume_background_result ::
  "proc_host \<Rightarrow> string \<Rightarrow> pyexc option \<Rightarrow> server_state \<Rightarrow> server_state" where
  "consume_background_result ph job_id result st =
     (let st = st\<lparr>background := filter (\<lambda>j. j \<noteq> job_id) (background st)\<rparr> in
      case result of
        None \<Rightarrow> st
      | Some CancelledError \<Rightarrow> st
      | Some e \<Rightarrow>
          (case meta_get job_id st of
             Some (Meta v) \<Rightarrow>
               if is_dict v then meta_put job_id (dict_update (background_error ph e) (current_payload ph job_id st)) st
               else st
           | _ \<Rightarrow> meta_put job_id (dict_update (background_error ph e) (blank_metadata ph job_id)) st))"

end
