(* ===== verification/Job_Run.thy ===== *)
theory Job_Run
  imports Job_Store
begin

text \<open>
  Running one job (\<open>server.py\<close>): \<open>_execute_job\<close> with its early exits, the background
  wrapper, the wake registration with the bridge, and the two tools that start jobs. What
  the host answers during a run is an argument, in the order the code asks.
\<close>

section \<open>Requests, the world, the state\<close>

record run_request =
  rq_argv :: "string list"
  rq_cwd :: string
  rq_timeout_sec :: int
  rq_no_output_timeout_sec :: int
  rq_grace_period_sec :: int
  rq_success_contains :: "utext option"
  rq_failure_contains :: "utext option"
  rq_tail_lines :: nat
  rq_tail_bytes :: nat
  rq_reports :: bool
  rq_secret_id :: "string option"
  rq_secret_ids :: "secret_pair option"

text \<open>
  The answers of the host during a run: the kernel and clock for secret input, the outcome
  of \<open>os.pipe\<close>, of the subprocess creation and of the supervisor's first line, the
  processes and clock text once the command runs, what the loop observes, the output chunks,
  an exception that interrupts the supervised phase (with the progress reports sent by
  then, and whether the reader had to be cancelled), an exception that interrupts the
  terminating of the process after a failure (a second cancellation, mostly), the exit codes,
  the duration, the digest of the command line, and what other handlers do to the files in
  the meantime.
\<close>

record run_world =
  w_kernel :: kernel
  w_time :: clock
  w_started :: clock
  w_pipe :: "pyexc option"
  w_spawn :: "pyexc + int"
  w_stdout :: bool
  w_pgid :: "pyexc + int"
  w_later :: proc_host
  w_observations :: "observation list"
  w_chunks :: "(clock \<times> bytes) list"
  w_chunks_end :: clock
  w_interrupt :: "pyexc option"
  w_terminate :: "pyexc option"
  w_reader_cancelled :: bool
  w_reports_sent :: int
  w_report_error :: "string option"
  w_exit_code :: int
  w_terminated_code :: "int option"
  w_duration :: clock
  w_digest :: "string list \<Rightarrow> string"
  w_meanwhile :: "server_state \<Rightarrow> server_state"

text \<open>The server's files, the secret storage with the descriptors, and whether the ready event is set.\<close>

record job_world =
  store :: server_state
  sfs :: secret_fs
  ready :: bool
  latest_log :: string

section \<open>Results\<close>

definition run_state_str :: "run_state \<Rightarrow> string" where
  "run_state_str s =
     (case s of Succeeded \<Rightarrow> ''succeeded'' | Failed \<Rightarrow> ''failed'' | Run_timed_out \<Rightarrow> ''timed_out''
      | Run_inactive_timeout \<Rightarrow> ''inactive_timeout'' | Success_condition_not_met \<Rightarrow> ''success_condition_not_met''
      | Spawn_error \<Rightarrow> ''spawn_error'' | Cancelled_job \<Rightarrow> ''cancelled'')"

record run_result =
  rr_job_id :: string
  rr_state :: run_state
  rr_exit_code :: "int option"
  rr_duration :: clock
  rr_started_at :: string
  rr_finished_at :: string
  rr_command_display :: string
  rr_cwd :: string
  rr_log_path :: string
  rr_metadata_path :: string
  rr_bytes_seen :: int
  rr_bytes_logged :: int
  rr_log_truncated :: bool
  rr_secret_supplied :: bool
  rr_suppressed :: bool
  rr_success_match :: "utext option"
  rr_failure_match :: "utext option"
  rr_error :: "string option"
  rr_tail :: utext

definition opt_int :: "int option \<Rightarrow> json" where
  "opt_int x = (case x of None \<Rightarrow> JNull | Some i \<Rightarrow> JInt i)"

definition opt_text :: "utext option \<Rightarrow> json" where
  "opt_text x = (case x of None \<Rightarrow> JNull | Some t \<Rightarrow> JStr (text_str t))"

definition duration_json :: "clock \<Rightarrow> json" where
  "duration_json d = JFloat \<lfloor>d * 1000 + 1 / 2\<rfloor> 3"

text \<open>\<open>result.model_dump()\<close>.\<close>

definition model_dump :: "run_result \<Rightarrow> jfields" where
  "model_dump r =
     [(''job_id'', JStr (rr_job_id r)), (''state'', JStr (run_state_str (rr_state r))), (''exit_code'', opt_int (rr_exit_code r)),
      (''duration_sec'', duration_json (rr_duration r)), (''started_at_utc'', JStr (rr_started_at r)),
      (''finished_at_utc'', JStr (rr_finished_at r)), (''command_display'', JStr (rr_command_display r)),
      (''cwd'', JStr (rr_cwd r)), (''log_path'', JStr (rr_log_path r)), (''metadata_path'', JStr (rr_metadata_path r)),
      (''output_bytes_seen'', JInt (rr_bytes_seen r)), (''output_bytes_logged'', JInt (rr_bytes_logged r)),
      (''log_truncated'', JBool (rr_log_truncated r)), (''stdin_secret_supplied'', JBool (rr_secret_supplied r)),
      (''output_suppressed'', JBool (rr_suppressed r)), (''success_match'', opt_text (rr_success_match r)),
      (''failure_match'', opt_text (rr_failure_match r)), (''error'', opt_str (rr_error r)),
      (''tail'', JStr (text_str (rr_tail r)))]"

text \<open>A result of a run that ended before any output: state \<open>spawn_error\<close>.\<close>

definition spawn_error_result ::
  "proc_host \<Rightarrow> run_world \<Rightarrow> string \<Rightarrow> string \<Rightarrow> string \<Rightarrow> int option \<Rightarrow> bool \<Rightarrow> string \<Rightarrow> run_result" where
  "spawn_error_result ph w job_id display cwd code secret msg =
     \<lparr>rr_job_id = job_id, rr_state = Spawn_error, rr_exit_code = code, rr_duration = w_duration w,
      rr_started_at = utc_now ph, rr_finished_at = utc_now (w_later w), rr_command_display = display, rr_cwd = cwd,
      rr_log_path = job_file ph job_id ''.log'', rr_metadata_path = job_file ph job_id ''.json'', rr_bytes_seen = 0,
      rr_bytes_logged = 0, rr_log_truncated = False, rr_secret_supplied = secret, rr_suppressed = secret,
      rr_success_match = None, rr_failure_match = None, rr_error = Some msg, rr_tail = []\<rparr>"

definition settle_job :: "string \<Rightarrow> jfields \<Rightarrow> run_result \<Rightarrow> job_world \<Rightarrow> (job_world, run_result) outcome" where
  "settle_job job_id wake r jw =
     (jw\<lparr>store := meta_put job_id (dict_update wake (model_dump r)) (store jw), ready := True\<rparr>, Inr r)"

section \<open>Before the command runs\<close>

text \<open>\<open>shlex.join\<close>.\<close>

definition shell_safe :: "char \<Rightarrow> bool" where
  "shell_safe c \<longleftrightarrow> c \<in> set ''ABCDEFGHIJKLMNOPQRSTUVWXYZabcdefghijklmnopqrstuvwxyz0123456789_@%+=:,./-''"

definition shlex_quote :: "string \<Rightarrow> string" where
  "shlex_quote s =
     (if s = [] then [CHR 0x27, CHR 0x27]
      else if list_all shell_safe s then s
      else [CHR 0x27] @ concat (map (\<lambda>c. if c = CHR 0x27 then [CHR 0x27, CHR 0x22, CHR 0x27, CHR 0x22, CHR 0x27] else [c]) s) @ [CHR 0x27])"

definition command_display :: "string list \<Rightarrow> string" where
  "command_display argv = join_with '' '' (map shlex_quote (redact_argv argv))"

record validated_job =
  v_cwd :: path
  v_argv :: "string list"
  v_success :: "utext option"
  v_failure :: "utext option"
  v_secret :: "string option"
  v_pair :: "secret_pair option"
  v_env :: "(string \<times> string) list"

definition validate_request :: "host \<Rightarrow> server_config \<Rightarrow> run_request \<Rightarrow> pyexc + validated_job" where
  "validate_request h cfg rq =
     bindr (resolve_cwd h cfg (rq_cwd rq)) (\<lambda>cwd.
     bindr (validate_argv h cfg (rq_argv rq) cwd) (\<lambda>argv.
     bindr (if rq_timeout_sec rq > max_timeout_sec cfg
            then Inl (ValueError (''timeout_sec exceeds configured maximum '' @ int_str (max_timeout_sec cfg))) else Inr ()) (\<lambda>_.
     bindr (validate_match_text (rq_success_contains rq) ''success_contains'') (\<lambda>succ.
     bindr (validate_match_text (rq_failure_contains rq) ''failure_contains'') (\<lambda>fail.
     bindr (validate_secret_inputs (rq_secret_id rq) (rq_secret_ids rq) succ fail) (\<lambda>(sid, pair).
       Inr \<lparr>v_cwd = cwd, v_argv = argv, v_success = succ, v_failure = fail, v_secret = sid, v_pair = pair,
            v_env = build_process_env h cfg cwd\<rparr>))))))"

definition secret_supplied :: "run_request \<Rightarrow> bool" where
  "secret_supplied rq \<longleftrightarrow> rq_secret_id rq \<notin> {None, Some []} \<or> rq_secret_ids rq \<noteq> None"

definition initial_metadata ::
  "proc_host \<Rightarrow> server_config \<Rightarrow> run_world \<Rightarrow> string \<Rightarrow> run_request \<Rightarrow> validated_job \<Rightarrow> jfields \<Rightarrow> jfields" where
  "initial_metadata ph cfg w job_id rq v wake =
     dict_update wake
       [(''job_id'', JStr job_id), (''state'', JStr ''starting''), (''started_at_utc'', JStr (utc_now ph)),
        (''server_pid'', JInt (server_pid ph)), (''server_start_ticks'', opt_str (server_start_ticks ph)),
        (''argv_sha256'', JStr (w_digest w (v_argv v))), (''command_display'', JStr (command_display (v_argv v))),
        (''cwd'', JStr (path_str (v_cwd v))), (''log_path'', JStr (job_file ph job_id ''.log'')),
        (''timeout_sec'', JInt (rq_timeout_sec rq)), (''no_output_timeout_sec'', JInt (rq_no_output_timeout_sec rq)),
        (''heartbeat_initial_sec'', JInt (heartbeat_initial_sec cfg)), (''heartbeat_interval_sec'', JInt (heartbeat_interval_sec cfg)),
        (''forwarded_env_names'', JArr (map JStr (filter (\<lambda>n. n \<in> fst ` set (v_env v)) (forward_env_names cfg)))),
        (''stdin_secret_supplied'', JBool (secret_supplied rq)), (''output_suppressed'', JBool (secret_supplied rq))]"

text \<open>The secret's descriptor, if the job has one.\<close>

definition claim_job_secret ::
  "server_config \<Rightarrow> run_world \<Rightarrow> validated_job \<Rightarrow> secret_fs \<Rightarrow> (secret_fs, nat option) outcome" where
  "claim_job_secret cfg w v fs =
     (case v_pair v of
        Some kvs \<Rightarrow> and_then (claim_secret_pair (w_kernel w) (w_time w) (secret_ttl_sec cfg) (nat (max_stdin_secret_bytes cfg)) kvs fs)
                     (\<lambda>fd fs. (fs, Inr (Some fd)))
      | None \<Rightarrow>
          (case v_secret v of
             None \<Rightarrow> (fs, Inr None)
           | Some sid \<Rightarrow> and_then (claim_one_time_secret (w_kernel w) (w_time w) (secret_ttl_sec cfg) (max_stdin_secret_bytes cfg) sid fs)
                          (\<lambda>fd fs. (fs, Inr (Some fd)))))"

definition close_opt :: "nat option \<Rightarrow> secret_fs \<Rightarrow> secret_fs" where
  "close_opt fd fs = (case fd of None \<Rightarrow> fs | Some f \<Rightarrow> close_fd f fs)"

text \<open>
  From the pipe to the supervisor's first line: the result is the pid and the command's
  group, or where the run ended. Every descriptor opened here is closed on the way, except
  the status pipe's read end when the creation of the subprocess is cancelled.
\<close>

datatype launch = Launched int int | Pipe_failed pyexc | Spawn_failed pyexc | No_stdout | Startup_failed pyexc

definition launch_job :: "run_world \<Rightarrow> nat option \<Rightarrow> secret_fs \<Rightarrow> secret_fs \<times> launch" where
  "launch_job w sfd fs =
     (case w_pipe w of
        Some e \<Rightarrow> (close_opt sfd fs, Pipe_failed e)
      | None \<Rightarrow>
          (case open_fd Pipe_end fs of (fs, rfd) \<Rightarrow>
          (case open_fd Pipe_end fs of (fs, wfd) \<Rightarrow>
             let fs = close_opt sfd (close_fd wfd fs) in
             (case w_spawn w of
                Inl e \<Rightarrow> (if e = CancelledError then fs else close_fd rfd fs, Spawn_failed e)
              | Inr pid \<Rightarrow>
                  if \<not> w_stdout w then (close_fd rfd fs, No_stdout)
                  else (case w_pgid w of
                          Inl e \<Rightarrow> (close_fd rfd fs, Startup_failed e)
                        | Inr pgid \<Rightarrow> (close_fd rfd fs, Launched pid pgid))))))"


section \<open>While the command runs\<close>

definition running_metadata :: "proc_host \<Rightarrow> int \<Rightarrow> int \<Rightarrow> jfields \<Rightarrow> jfields" where
  "running_metadata later pid pgid initial =
     dict_update
       [(''state'', JStr ''running''), (''pid'', JInt pid), (''process_start_ticks'', opt_str (proc_start_ticks later pid)),
        (''command_pgid'', JInt pgid), (''command_start_ticks'', opt_str (proc_start_ticks later pgid))] initial"

datatype phase = Phase_done wait_state "stop_reason option" | Phase_cancelled | Phase_raised pyexc | Phase_running

definition supervise :: "server_config \<Rightarrow> run_world \<Rightarrow> run_request \<Rightarrow> phase" where
  "supervise cfg w rq =
     (case w_interrupt w of
        Some e \<Rightarrow> if e = CancelledError then Phase_cancelled else Phase_raised e
      | None \<Rightarrow>
          (case wait_with_limits (heartbeat_interval_sec cfg) (w_started w) (rq_timeout_sec rq) (rq_no_output_timeout_sec rq)
                  (w_observations w) (wait_start (heartbeat_initial_sec cfg) (w_started w) (rq_reports rq)) of
             Some (ws, Returned stop) \<Rightarrow> Phase_done ws stop
           | Some (ws, _) \<Rightarrow> Phase_cancelled
           | None \<Rightarrow> Phase_running))"

definition job_output :: "server_config \<Rightarrow> run_world \<Rightarrow> run_request \<Rightarrow> validated_job \<Rightarrow> drain" where
  "job_output cfg w rq v =
     (let tr = new_tracker (max_log_size cfg) (v_success v) (v_failure v) (w_started w) (secret_supplied rq) in
      if w_reader_cancelled w then fold drain_chunk (w_chunks w) \<lparr>dlog = [], decoder = Idle, tracker = tr\<rparr>
      else drain_output (w_chunks w) (w_chunks_end w) tr)"

definition put_tail :: "string \<Rightarrow> utext \<Rightarrow> server_state \<Rightarrow> server_state" where
  "put_tail job_id t st = st\<lparr>tails := file_put job_id t (tails st)\<rparr>"

definition put_log :: "string \<Rightarrow> bytes \<Rightarrow> server_state \<Rightarrow> server_state" where
  "put_log job_id b st = st\<lparr>logs := file_put job_id b (logs st)\<rparr>"

definition cancelled_metadata :: "proc_host \<Rightarrow> run_world \<Rightarrow> string \<Rightarrow> output_tracker \<Rightarrow> jfields \<Rightarrow> jfields \<Rightarrow> jfields" where
  "cancelled_metadata ph w job_id tr initial wake =
     dict_update wake
       (dict_update
          [(''state'', JStr ''cancelled''), (''finished_at_utc'', JStr (utc_now (w_later w))), (''duration_sec'', duration_json (w_duration w)),
           (''exit_code'', opt_int (w_terminated_code w)), (''output_bytes_seen'', JInt (bytes_seen tr)),
           (''output_bytes_logged'', JInt (bytes_written tr)), (''log_truncated'', JBool (log_truncated tr)),
           (''heartbeat_reports_completed'', JInt (w_reports_sent w)), (''heartbeat_error'', opt_str (w_report_error w)),
           (''tail_path'', JStr (job_file ph job_id ''.tail.txt''))] initial)"

definition startup_cancelled_metadata :: "run_world \<Rightarrow> jfields \<Rightarrow> jfields \<Rightarrow> jfields" where
  "startup_cancelled_metadata w initial wake =
     dict_update wake
       (dict_update
          [(''state'', JStr ''cancelled''), (''finished_at_utc'', JStr (utc_now (w_later w))), (''duration_sec'', duration_json (w_duration w)),
           (''exit_code'', opt_int (w_terminated_code w)), (''error'', JStr ''cancelled while waiting for supervisor startup'')] initial)"

text \<open>The result of a command that produced output, with its tracker.\<close>

definition output_result ::
  "proc_host \<Rightarrow> run_world \<Rightarrow> string \<Rightarrow> run_request \<Rightarrow> validated_job \<Rightarrow> output_tracker \<Rightarrow> run_state \<Rightarrow> int option \<Rightarrow> string option \<Rightarrow> run_result" where
  "output_result ph w job_id rq v tr state code err =
     (spawn_error_result ph w job_id (command_display (v_argv v)) (path_str (v_cwd v)) code (secret_supplied rq) [])
       \<lparr>rr_state := state, rr_bytes_seen := bytes_seen tr, rr_bytes_logged := bytes_written tr, rr_log_truncated := log_truncated tr,
        rr_success_match := success_match tr, rr_failure_match := failure_match tr, rr_error := err,
        rr_tail := limit_tail (tail_text tr) (rq_tail_lines rq) (rq_tail_bytes rq)\<rparr>"

definition kept_wake_keys :: "string list" where
  "kept_wake_keys = [''automatic_wakeup'', ''wake_delivery'', ''wake_mode'', ''handoff_state'', ''wake_error'']"

text \<open>The last write, under the lock: what others recorded in the meantime is kept.\<close>

definition final_metadata ::
  "proc_host \<Rightarrow> string \<Rightarrow> run_result \<Rightarrow> wait_state \<Rightarrow> jfields \<Rightarrow> jfields \<Rightarrow> json \<Rightarrow> jfields" where
  "final_metadata ph job_id r ws initial wake current =
     (let base = dict_update
            ([(''pid'', jfield ''pid'' initial), (''process_start_ticks'', jfield ''process_start_ticks'' initial),
              (''command_pgid'', jfield ''command_pgid'' initial), (''command_start_ticks'', jfield ''command_start_ticks'' initial),
              (''server_pid'', JInt (server_pid ph)), (''server_start_ticks'', opt_str (server_start_ticks ph)),
              (''argv_sha256'', jfield ''argv_sha256'' initial), (''tail_path'', JStr (job_file ph job_id ''.tail.txt'')),
              (''forwarded_env_names'', jfield ''forwarded_env_names'' initial),
              (''heartbeat_reports_completed'', JInt (reports ws)), (''heartbeat_error'', opt_str (report_error ws))] @ wake) (model_dump r);
          cancelled = truthy (jget ''cancel_requested_at_utc'' current);
          base = (if cancelled then dict_set ''cancel_requested_at_utc'' (jget ''cancel_requested_at_utc'' current) base else base)
      in dict_update (map (\<lambda>k. (k, jget k current)) (filter (\<lambda>k. jhas k current) kept_wake_keys)) base)"

definition finish_job ::
  "proc_host \<Rightarrow> run_world \<Rightarrow> string \<Rightarrow> run_request \<Rightarrow> validated_job \<Rightarrow> output_tracker \<Rightarrow> wait_state \<Rightarrow> stop_reason option \<Rightarrow>
   jfields \<Rightarrow> jfields \<Rightarrow> server_state \<Rightarrow> server_state \<times> run_result" where
  "finish_job ph w job_id rq v tr ws stop initial wake st =
     (let st = put_tail job_id (tail_text tr) st;
          current = (case meta_get job_id st of Some (Meta j) \<Rightarrow> j | _ \<Rightarrow> JObj []);
          cancelled = truthy (jget ''cancel_requested_at_utc'' current);
          state = (if cancelled then Cancelled_job else result_state stop (Some (w_exit_code w)) tr);
          r = output_result ph w job_id rq v tr state (Some (w_exit_code w)) None
      in (meta_put job_id (final_metadata ph job_id r ws initial wake current) st, r))"

section \<open>The whole job\<close>

text \<open>
  \<open>await _terminate_process\<close> after a failure, then the rest of that branch; an exception out of
  it skips the rest. A cancellation scope does not keep a second cancellation of the task out.
\<close>

definition terminated ::
  "run_world \<Rightarrow> job_world \<Rightarrow> job_world \<times> (pyexc + run_result) option \<Rightarrow> job_world \<times> (pyexc + run_result) option" where
  "terminated w jw rest = (case w_terminate w of Some e \<Rightarrow> (jw, Some (Inl e)) | None \<Rightarrow> rest)"

definition settle_some :: "string \<Rightarrow> jfields \<Rightarrow> run_result \<Rightarrow> job_world \<Rightarrow> job_world \<times> (pyexc + run_result) option" where
  "settle_some job_id wake r jw = (case settle_job job_id wake r jw of (jw, x) \<Rightarrow> (jw, Some x))"

definition run_launched ::
  "proc_host \<Rightarrow> server_config \<Rightarrow> run_world \<Rightarrow> string \<Rightarrow> run_request \<Rightarrow> validated_job \<Rightarrow> jfields \<Rightarrow> int \<Rightarrow> int \<Rightarrow> jfields \<Rightarrow>
   job_world \<Rightarrow> job_world \<times> (pyexc + run_result) option" where
  "run_launched ph cfg w job_id rq v wake pid pgid initial jw =
     (let initial = running_metadata (w_later w) pid pgid initial;
          jw = jw\<lparr>store := meta_put job_id initial (store jw), ready := True\<rparr>;
          d = job_output cfg w rq v; tr = tracker d;
          jw = jw\<lparr>store := w_meanwhile w (put_log job_id (dlog d) (store jw))\<rparr>
      in case supervise cfg w rq of
           Phase_running \<Rightarrow> (jw, None)
         | Phase_cancelled \<Rightarrow> terminated w jw
             (jw\<lparr>store := meta_put job_id (cancelled_metadata ph w job_id tr initial wake) (put_tail job_id (tail_text tr) (store jw))\<rparr>,
              Some (Inl CancelledError))
         | Phase_raised e \<Rightarrow> terminated w jw
             (let r = output_result ph w job_id rq v tr Spawn_error (w_terminated_code w)
                       (Some (''runtime error: '' @ exc_name e @ '': '' @ exc_str e))
              in settle_some job_id wake r (jw\<lparr>store := put_tail job_id (tail_text tr) (store jw)\<rparr>))
         | Phase_done ws stop \<Rightarrow>
             (case finish_job ph w job_id rq v tr ws stop initial wake (store jw) of (st, r) \<Rightarrow> (jw\<lparr>store := st\<rparr>, Some (Inr r))))"

text \<open>How the run goes on from each outcome of the launch.\<close>

definition after_launch ::
  "proc_host \<Rightarrow> server_config \<Rightarrow> run_world \<Rightarrow> string \<Rightarrow> run_request \<Rightarrow> validated_job \<Rightarrow> jfields \<Rightarrow> jfields \<Rightarrow> launch \<Rightarrow>
   job_world \<Rightarrow> job_world \<times> (pyexc + run_result) option" where
  "after_launch ph cfg w job_id rq v wake initial l jw =
     (let failed = (\<lambda>code msg. spawn_error_result ph w job_id (command_display (v_argv v)) (path_str (v_cwd v)) code (secret_supplied rq) msg) in
      case l of
        Pipe_failed e \<Rightarrow> (jw, Some (Inl e))
      | Spawn_failed e \<Rightarrow>
          if e = CancelledError then (jw, Some (Inl CancelledError))
          else settle_some job_id wake (failed None (''spawn error: '' @ exc_name e @ '': '' @ exc_str e)) jw
      | No_stdout \<Rightarrow> terminated w jw (jw, Some (Inl (RuntimeError ''subprocess stdout pipe was not created'')))
      | Startup_failed e \<Rightarrow>
          terminated w jw
         (if e = CancelledError
          then (jw\<lparr>store := meta_put job_id (startup_cancelled_metadata w initial wake) (store jw), ready := True\<rparr>, Some (Inl CancelledError))
          else settle_some job_id wake
                 (failed (w_terminated_code w) (''supervisor startup error: '' @ exc_name e @ '': '' @ exc_str e)) jw)
      | Launched pid pgid \<Rightarrow> run_launched ph cfg w job_id rq v wake pid pgid initial jw)"

definition execute_job ::
  "host \<Rightarrow> proc_host \<Rightarrow> server_config \<Rightarrow> run_world \<Rightarrow> string \<Rightarrow> run_request \<Rightarrow> jfields \<Rightarrow>
   job_world \<Rightarrow> job_world \<times> (pyexc + run_result) option" where
  "execute_job h ph cfg w job_id rq wake jw =
     (case validate_request h cfg rq of
        Inl e \<Rightarrow>
          settle_some job_id wake
            (spawn_error_result ph w job_id ''<rejected command>'' (rq_cwd rq) None (secret_supplied rq) (''validation error: '' @ exc_str e)) jw
      | Inr v \<Rightarrow>
          let initial = initial_metadata ph cfg w job_id rq v wake;
              jw = jw\<lparr>store := meta_put job_id initial (store jw), latest_log := job_file ph job_id ''.log'' @ [CHR 0x0A]\<rparr>
          in (case claim_job_secret cfg w v (sfs jw) of
                (fs, Inl e) \<Rightarrow>
                  settle_some job_id wake
                    (spawn_error_result ph w job_id (command_display (v_argv v)) (path_str (v_cwd v)) None True
                       (''secret stdin error: '' @ exc_str e)) (jw\<lparr>sfs := fs\<rparr>)
              | (fs, Inr sfd) \<Rightarrow>
                  (case launch_job w sfd fs of (fs, l) \<Rightarrow> after_launch ph cfg w job_id rq v wake initial l (jw\<lparr>sfs := fs\<rparr>))))"

section \<open>Wake registration\<close>

datatype wake_policy = Policy_auto | Policy_goal | Policy_session | Policy_none

definition policy_str :: "wake_policy \<Rightarrow> string" where
  "policy_str p = (case p of Policy_auto \<Rightarrow> ''auto'' | Policy_goal \<Rightarrow> ''goal'' | Policy_session \<Rightarrow> ''session'' | Policy_none \<Rightarrow> ''none'')"

record wake_registration =
  reg_socket :: string
  reg_thread :: string
  reg_mode :: string

text \<open>The request metadata of the calling context; \<open>None\<close> without a usable context.\<close>

definition thread_id_from_context :: "json option \<Rightarrow> string option" where
  "thread_id_from_context meta = (case meta of None \<Rightarrow> None | Some m \<Rightarrow> if is_dict m then as_str (jget ''threadId'' m) else None)"

text \<open>
  A request to the bridge: the answer is given by \<open>ask\<close>, and every request is recorded
  in the order it is sent.
\<close>

type_synonym bridge_ask = "json \<Rightarrow> pyexc + json"

definition request :: "bridge_ask \<Rightarrow> json \<Rightarrow> json list \<Rightarrow> (json list, json) outcome" where
  "request ask q sent = (sent @ [q], ask q)"

definition abort_request_of :: "string \<Rightarrow> string \<Rightarrow> json" where
  "abort_request_of job_id thread_id =
     JObj [(''action'', JStr ''abort''), (''job_id'', JStr job_id), (''thread_id'', JStr thread_id)]"

definition prepare_request_of :: "string \<Rightarrow> string \<Rightarrow> int \<Rightarrow> int \<Rightarrow> wake_policy \<Rightarrow> json \<Rightarrow> json" where
  "prepare_request_of job_id thread_id timeout_sec grace policy call_id =
     JObj [(''action'', JStr ''prepare''), (''job_id'', JStr job_id), (''thread_id'', JStr thread_id),
           (''timeout_sec'', JInt timeout_sec), (''grace_period_sec'', JInt grace),
           (''wake_policy'', JStr (policy_str policy)), (''call_id'', call_id)]"

text \<open>The two requests inside the \<open>try\<close>.\<close>

definition ask_prepare ::
  "bridge_ask \<Rightarrow> string \<Rightarrow> string \<Rightarrow> int \<Rightarrow> int \<Rightarrow> wake_policy \<Rightarrow> json \<Rightarrow> json list \<Rightarrow> (json list, json) outcome" where
  "ask_prepare ask job_id thread_id timeout_sec grace policy call_id sent =
     and_then
       (if policy = Policy_session
        then and_then (request ask (JObj [(''action'', JStr ''health'')]) sent)
               (\<lambda>health sent. if jget ''session_wakeup_supported'' health \<noteq> JBool True
                  then (sent, Inl (BridgeError ''bridge does not support session handoff; restart with the updated codex-longrun launcher''))
                  else (sent, Inr ()))
        else (sent, Inr ()))
       (\<lambda>_ sent. request ask (prepare_request_of job_id thread_id timeout_sec grace policy call_id) sent)"

definition check_prepared :: "server_config \<Rightarrow> string \<Rightarrow> wake_policy \<Rightarrow> json \<Rightarrow> pyexc + (wake_registration option \<times> string option)" where
  "check_prepared cfg thread_id policy response =
     (if jget ''automatic_wakeup'' response \<noteq> JBool True then Inl (RuntimeError ''Bridge did not confirm automatic wakeup'')
      else let mode = jget_default ''wake_mode'' (JStr ''goal'') response in
        if mode \<notin> {JStr ''session'', JStr ''goal''} \<or> policy = Policy_session \<and> mode \<noteq> JStr ''session''
        then Inl (RuntimeError ''Bridge returned an incompatible wake mode'')
        else Inr (Some \<lparr>reg_socket = bridge_socket cfg, reg_thread = thread_id, reg_mode = str_of_json mode\<rparr>, Some ''armed''))"

definition prepare_wake_registration ::
  "server_config \<Rightarrow> bridge_ask \<Rightarrow> json option \<Rightarrow> wake_policy \<Rightarrow> string \<Rightarrow> int \<Rightarrow> int \<Rightarrow> json list \<Rightarrow>
   (json list, wake_registration option \<times> string option) outcome" where
  "prepare_wake_registration cfg ask meta policy job_id timeout_sec grace sent =
     (if policy = Policy_none then (sent, Inr (None, None))
      else
        (case thread_id_from_context meta of
           Some thread_id \<Rightarrow>
             if bridge_socket cfg = []
             then (sent, if policy \<in> {Policy_goal, Policy_session}
                         then Inl (RuntimeError (policy_str policy @ '' wakeup requested but bridge socket is unavailable''))
                         else Inr (None, Some ''bridge_unavailable''))
             else
               (case ask_prepare ask job_id thread_id timeout_sec grace policy (jget ''callId'' (the meta)) sent of
                  (sent, Inl (BridgeError m)) \<Rightarrow>
                    (case request ask (abort_request_of job_id thread_id) sent of
                       (sent, Inl (BridgeError _)) \<Rightarrow> (sent, Inl (RuntimeError (''Automatic wakeup setup failed: '' @ m)))
                     | (sent, Inl e) \<Rightarrow> (sent, Inl e)
                     | (sent, Inr _) \<Rightarrow> (sent, Inl (RuntimeError (''Automatic wakeup setup failed: '' @ m))))
                | (sent, Inl e) \<Rightarrow> (sent, Inl e)
                | (sent, Inr response) \<Rightarrow> (sent, check_prepared cfg thread_id policy response))
         | None \<Rightarrow>
             (sent, if policy \<in> {Policy_goal, Policy_session}
                    then Inl (RuntimeError (policy_str policy @ '' wakeup requested but ''
                           @ (if bridge_socket cfg = [] then ''bridge socket'' else ''trusted Codex thread metadata'') @ '' is unavailable''))
                    else Inr (None, Some ''bridge_unavailable''))))"

definition abort_wake_registration ::
  "proc_host \<Rightarrow> bridge_ask \<Rightarrow> string \<Rightarrow> wake_registration \<Rightarrow> server_state \<Rightarrow> (server_state, unit) outcome" where
  "abort_wake_registration ph ask job_id reg st =
     (case ask (abort_request_of job_id (reg_thread reg)) of
        Inr _ \<Rightarrow> (st, Inr ())
      | Inl (BridgeError _) \<Rightarrow> update_job_metadata ph job_id [(''wake_delivery'', JStr ''abort_failed'')] st
      | Inl e \<Rightarrow> (st, Inl e))"

definition deliver_terminal_wakeup ::
  "host \<Rightarrow> proc_host \<Rightarrow> server_config \<Rightarrow> bridge_ask \<Rightarrow> string \<Rightarrow> wake_registration \<Rightarrow> server_state \<Rightarrow> (server_state, unit) outcome" where
  "deliver_terminal_wakeup h ph cfg ask job_id reg st =
     (case read_job_metadata h cfg job_id st of
        Inl _ \<Rightarrow> (st, Inr ())
      | Inr kvs \<Rightarrow>
          let state = str_or ph ''state'' [] kvs in
          if state \<notin> set terminal_job_states then (st, Inr ())
          else
            (case ask (JObj [(''action'', JStr ''terminal''), (''job_id'', JStr job_id), (''thread_id'', JStr (reg_thread reg)),
                             (''terminal_state'', JStr state)]) of
               Inr response \<Rightarrow>
                 let delivery = jget ''delivery_state'' response in
                 update_job_metadata ph job_id
                   ((''wake_delivery'', JStr (case delivery of JStr d \<Rightarrow> d | _ \<Rightarrow> ''accepted''))
                    # (if wake_settled delivery then [(''automatic_wakeup'', JBool False)] else [])) st
             | Inl (BridgeError m) \<Rightarrow>
                 update_job_metadata ph job_id
                   [(''wake_delivery'', JStr ''delivery_failed''), (''wake_error'', JStr (''BridgeError: '' @ m))] st
             | Inl e \<Rightarrow> (st, Inl e)))"

definition session_handoff ::
  "host \<Rightarrow> proc_host \<Rightarrow> server_config \<Rightarrow> bridge_ask \<Rightarrow> string \<Rightarrow> wake_registration \<Rightarrow> server_state \<Rightarrow> (server_state, unit) outcome" where
  "session_handoff h ph cfg ask job_id reg st =
     (let attempt =
            (case read_job_metadata h cfg job_id st of
               Inl e \<Rightarrow> Inl e
             | Inr kvs \<Rightarrow>
                 bindr (ask (JObj [(''action'', JStr ''handoff''), (''job_id'', JStr job_id), (''thread_id'', JStr (reg_thread reg)),
                                   (''job_state'', JStr (str_or ph ''state'' ''spawn_error'' kvs))]))
                   (\<lambda>response. if jget ''handoff'' response \<noteq> JStr ''complete''
                      then Inl (BridgeError ''bridge did not confirm session handoff'') else Inr ()))
      in case attempt of
           Inr _ \<Rightarrow> update_job_metadata ph job_id [(''handoff_state'', JStr ''complete'')] st
         | Inl e \<Rightarrow>
             if e = CancelledError then (st, Inl e)
             else and_then (abort_wake_registration ph ask job_id reg st)
               (\<lambda>_ st. and_then (update_job_metadata ph job_id
                    [(''handoff_state'', JStr ''failed''), (''automatic_wakeup'', JBool False),
                     (''wake_error'', JStr (''session handoff failed: '' @ exc_name e @ '': '' @ exc_str e))] st)
                  (\<lambda>_ st. (st, Inl (RuntimeError (''Job '' @ job_id @ '' was already started but session handoff failed: '' @ exc_str e
                     @ ''. Do not launch a duplicate; inspect this job with get_job.''))))))"

section \<open>The background task and the tools\<close>

text \<open>
  \<open>_run_background_job\<close>: the job, its error path, and the terminal event in the
  \<open>finally\<close>. A job still running leaves the task where it is.
\<close>

definition run_background_job ::
  "host \<Rightarrow> proc_host \<Rightarrow> server_config \<Rightarrow> run_world \<Rightarrow> bridge_ask \<Rightarrow> string \<Rightarrow> run_request \<Rightarrow> wake_registration option \<Rightarrow>
   jfields \<Rightarrow> job_world \<Rightarrow> job_world \<times> (pyexc + run_result) option" where
  "run_background_job h ph cfg w ask job_id rq reg wake jw =
     (case execute_job h ph cfg w job_id rq wake jw of
        (jw, None) \<Rightarrow> (jw, None)
      | (jw, Some x) \<Rightarrow>
          let jw = (case x of
                      Inl e \<Rightarrow>
                        if e = CancelledError then jw
                        else jw\<lparr>store := fst (update_job_metadata (w_later w) job_id (background_error (w_later w) e @ wake) (store jw))\<rparr>
                    | Inr _ \<Rightarrow> jw)
          in (case reg of
                None \<Rightarrow> (jw, Some x)
              | Some r \<Rightarrow>
                  (case deliver_terminal_wakeup h (w_later w) cfg ask job_id r (store jw) of
                     (st, Inr _) \<Rightarrow> (jw\<lparr>store := st\<rparr>, Some x)
                   | (st, Inl e) \<Rightarrow> (jw\<lparr>store := st\<rparr>, Some (Inl e)))))"

definition wake_metadata_of :: "wake_policy \<Rightarrow> wake_registration option \<Rightarrow> string option \<Rightarrow> jfields" where
  "wake_metadata_of policy reg delivery =
     [(''automatic_wakeup'', JBool (reg \<noteq> None)), (''wake_policy'', JStr (policy_str policy))]
     @ (case delivery of None \<Rightarrow> [] | Some d \<Rightarrow> [(''wake_delivery'', JStr d)])
     @ (case reg of None \<Rightarrow> [] | Some r \<Rightarrow> [(''wake_thread_id'', JStr (reg_thread r)), (''wake_mode'', JStr (reg_mode r))])"

text \<open>
  \<open>start_job\<close> up to the creation of the background task: validation (whose failure is
  left for the task to report), reservation, wake registration. The result is what the task
  is started with: the registration, the wake metadata and the validated secret handles.
\<close>

definition start_reserved ::
  "proc_host \<Rightarrow> server_config \<Rightarrow> bridge_ask \<Rightarrow> json option \<Rightarrow> wake_policy \<Rightarrow> string \<Rightarrow> run_request \<Rightarrow> path \<Rightarrow>
   server_state \<times> json list \<Rightarrow> (server_state \<times> json list, wake_registration option \<times> jfields) outcome" where
  "start_reserved ph cfg ask meta policy job_id rq cwd s =
     (case s of (st, sent) \<Rightarrow>
      case reserve_job ph cfg job_id (path_str cwd) st of
        (st, Inl e) \<Rightarrow> ((st, sent), Inl e)
      | (st, Inr _) \<Rightarrow>
          (case prepare_wake_registration cfg ask meta policy job_id (rq_timeout_sec rq) (rq_grace_period_sec rq) sent of
             (sent, Inl e) \<Rightarrow>
               ((if e = CancelledError then st
                 else fst (update_job_metadata ph job_id
                        [(''state'', JStr ''spawn_error''), (''finished_at_utc'', JStr (utc_now ph)), (''automatic_wakeup'', JBool False),
                         (''wake_policy'', JStr (policy_str policy)), (''wake_delivery'', JStr ''setup_failed''),
                         (''error'', JStr (''Automatic wakeup setup failed before command start: '' @ exc_str e))] st), sent), Inl e)
           | (sent, Inr (reg, delivery)) \<Rightarrow>
               let wake = wake_metadata_of policy reg delivery in
               ((fst (update_job_metadata ph job_id wake st), sent), Inr (reg, wake))))"

definition start_job ::
  "host \<Rightarrow> proc_host \<Rightarrow> server_config \<Rightarrow> bridge_ask \<Rightarrow> json option \<Rightarrow> wake_policy \<Rightarrow> string \<Rightarrow> run_request \<Rightarrow>
   server_state \<times> json list \<Rightarrow> (server_state \<times> json list, run_request \<times> wake_registration option \<times> jfields) outcome" where
  "start_job h ph cfg ask meta policy job_id rq s =
     (case validate_request h cfg rq of
        Inl _ \<Rightarrow>
          (let wake = wake_metadata_of policy None None in
           (((fst s)\<lparr>background := job_id # background (fst s)\<rparr>, snd s), Inr (rq, None, wake)))
      | Inr v \<Rightarrow>
          and_then (start_reserved ph cfg ask meta policy job_id rq (v_cwd v) s)
            (\<lambda>(reg, wake) s.
               (((fst s)\<lparr>background := job_id # background (fst s)\<rparr>, snd s),
                Inr (rq\<lparr>rq_secret_id := v_secret v, rq_secret_ids := v_pair v\<rparr>, reg, wake))))"

text \<open>What \<open>start_job\<close> does once the task is ready (or three seconds have passed).\<close>

definition start_reply ::
  "host \<Rightarrow> proc_host \<Rightarrow> server_config \<Rightarrow> bridge_ask \<Rightarrow> string \<Rightarrow> run_request \<Rightarrow> wake_registration option \<Rightarrow>
   server_state \<Rightarrow> (server_state, job_status) outcome" where
  "start_reply h ph cfg ask job_id rq reg st =
     and_then (case reg of
                 Some r \<Rightarrow> if reg_mode r = ''session'' then session_handoff h ph cfg ask job_id r st else (st, Inr ())
               | None \<Rightarrow> (st, Inr ()))
       (\<lambda>_ st. (st, bindr (read_job_metadata h cfg job_id st)
                      (\<lambda>kvs. job_status_from_payload ph (rq_tail_lines rq) (rq_tail_bytes rq) kvs st)))"

definition run_and_wait ::
  "host \<Rightarrow> proc_host \<Rightarrow> server_config \<Rightarrow> run_world \<Rightarrow> string \<Rightarrow> run_request \<Rightarrow> job_world \<Rightarrow> job_world \<times> (pyexc + run_result) option" where
  "run_and_wait h ph cfg w job_id rq jw =
     (case resolve_cwd h cfg (rq_cwd rq) of
        Inl (ValueError _) \<Rightarrow> execute_job h ph cfg w job_id rq [] jw
      | Inl e \<Rightarrow> (jw, Some (Inl e))
      | Inr p \<Rightarrow>
          (case reserve_job ph cfg job_id (path_str p) (store jw) of
             (st, Inl (ValueError _)) \<Rightarrow> execute_job h ph cfg w job_id rq [] (jw\<lparr>store := st\<rparr>)
           | (st, Inl e) \<Rightarrow> (jw\<lparr>store := st\<rparr>, Some (Inl e))
           | (st, Inr _) \<Rightarrow> execute_job h ph cfg w job_id rq [] (jw\<lparr>store := st\<rparr>)))"

end
