(* ===== verification/Job_Guards_Claims.thy ===== *)
theory Job_Guards_Claims
  imports Job_Guards
begin

text \<open>
  Properties of the guards: the configuration stays within its bounds, a command only runs
  below an allowed root and never under a blocked name, it sees no sensitive variable, and
  the stored command line does not depend on the secret values in it.
\<close>

section \<open>Configuration\<close>

lemma server_int_env_range:
  "server_int_env h n d lo hi = Inr v \<Longrightarrow> lo \<le> d \<Longrightarrow> d \<le> hi \<Longrightarrow> lo \<le> v \<and> v \<le> hi"
  by (auto simp: server_int_env_def split: option.splits if_splits)

lemma load_roots_absolute:
  assumes "\<And>p r. resolve_strict h p = Inr r \<Longrightarrow> absolute r"
  shows "load_roots h ps = Inr rs \<Longrightarrow> list_all absolute rs"
  using assms by (induction ps arbitrary: rs) (auto simp: Let_def bindr_Inr split: if_splits)

lemma forward_names_safe:
  "forward_names names ns = Inr out \<Longrightarrow> distinct names \<Longrightarrow> list_all (\<lambda>n. env_name_ok n \<and> \<not> is_sensitive_env_name n) names \<Longrightarrow>
   distinct out \<and> list_all (\<lambda>n. env_name_ok n \<and> \<not> is_sensitive_env_name n) out"
  by (induction names ns rule: forward_names.induct) (auto split: if_splits)

lemma load_config_parts:
  assumes "load_config h = Inr c"
  shows "server_int_env h ''LONGRUN_MAX_LOG_BYTES'' (128 * 1024 * 1024) (1 * 1024 * 1024) (2 * 1024 * 1024 * 1024) = Inr (max_log_size c)"
    "server_int_env h ''LONGRUN_MAX_TIMEOUT_SEC'' (12 * 60 * 60) 60 (7 * 24 * 60 * 60) = Inr (max_timeout_sec c)"
    "server_int_env h ''LONGRUN_HEARTBEAT_INITIAL_SEC'' 0 0 (24 * 60 * 60) = Inr (heartbeat_initial_sec c)"
    "server_int_env h ''LONGRUN_HEARTBEAT_INTERVAL_SEC'' (15 * 60) 1 (24 * 60 * 60) = Inr (heartbeat_interval_sec c)"
    "server_int_env h ''LONGRUN_MAX_ACTIVE_JOBS'' 4 1 64 = Inr (max_active_jobs c)"
    "server_int_env h ''LONGRUN_SECRET_TTL_SEC'' 300 30 3600 = Inr (secret_ttl_sec c)"
    "server_int_env h ''LONGRUN_MAX_STDIN_SECRET_BYTES'' (64 * 1024) 1 (1024 * 1024) = Inr (max_stdin_secret_bytes c)"
    "load_allowed_roots h = Inr (allowed_roots c)" "load_forward_env_names h = Inr (forward_env_names c)"
  using assms unfolding load_config_def by (auto simp only: bindr_Inr sum.inject server_config.simps)

text \<open>
  A configuration that loads is within its documented bounds, whatever the environment
  says: every limit is in its range, there is at least one root and all roots are absolute,
  and the forwarded names are distinct identifiers none of which is sensitive.
\<close>

theorem config_bounds:
  assumes "load_config h = Inr c" and "\<And>p r. resolve_strict h p = Inr r \<Longrightarrow> absolute r"
  shows "1048576 \<le> max_log_size c \<and> max_log_size c \<le> 2147483648
    \<and> 60 \<le> max_timeout_sec c \<and> max_timeout_sec c \<le> 604800
    \<and> 0 \<le> heartbeat_initial_sec c \<and> heartbeat_initial_sec c \<le> 86400
    \<and> 1 \<le> heartbeat_interval_sec c \<and> heartbeat_interval_sec c \<le> 86400
    \<and> 1 \<le> max_active_jobs c \<and> max_active_jobs c \<le> 64
    \<and> 30 \<le> secret_ttl_sec c \<and> secret_ttl_sec c \<le> 3600
    \<and> 1 \<le> max_stdin_secret_bytes c \<and> max_stdin_secret_bytes c \<le> 1048576
    \<and> allowed_roots c \<noteq> [] \<and> list_all absolute (allowed_roots c)
    \<and> distinct (forward_env_names c) \<and> list_all (\<lambda>n. env_name_ok n \<and> \<not> is_sensitive_env_name n) (forward_env_names c)"
proof -
  note P = load_config_parts [OF assms(1)]
  have "allowed_roots c \<noteq> [] \<and> list_all absolute (allowed_roots c)"
    using P(8) load_roots_absolute [OF assms(2)] by (auto simp: load_allowed_roots_def Let_def bindr_Inr split: if_splits)
  moreover have "distinct (forward_env_names c) \<and> list_all (\<lambda>n. env_name_ok n \<and> \<not> is_sensitive_env_name n) (forward_env_names c)"
    using P(9) forward_names_safe [of "[]"] by (simp add: load_forward_env_names_def Let_def)
  ultimately show ?thesis
    using P(1-7) [THEN server_int_env_range] by simp
qed

section \<open>Working directory and command line\<close>

text \<open>
  A working directory is accepted exactly when it expands to an absolute path that
  resolves to a directory whose parts extend the parts of an allowed root; the resolved
  directory is what the job uses. A sibling that merely shares a prefix of a root's name is
  outside.
\<close>

theorem cwd_accepted:
  "resolve_cwd h cfg cwd = Inr p \<longleftrightarrow>
     (\<exists>c. expanduser h (parse_path cwd) = Inr c \<and> absolute c \<and> resolve_strict h c = Inr p \<and> is_directory h p
        \<and> (\<exists>base \<in> set (allowed_roots cfg). \<exists>below. absolute p = absolute base \<and> parts p = parts base @ below))"
proof -
  have w: "is_within p base \<longleftrightarrow> absolute p = absolute base \<and> (\<exists>below. parts p = parts base @ below)" for base
    by (metis append_eq_conv_conj append_take_drop_id is_within_def)
  have r: "(case x of Inl (FileNotFoundError _) \<Rightarrow> Inl e | Inl e' \<Rightarrow> Inl e' | Inr q \<Rightarrow> k q) = Inr p \<longleftrightarrow>
      (\<exists>q. x = Inr q \<and> k q = Inr p)" for x :: "pyexc + path" and e and k :: "path \<Rightarrow> pyexc + path"
    by (cases x) (auto split: pyexc.splits)
  have i: "(if b then Inl e else x) = Inr p \<longleftrightarrow> \<not> b \<and> x = Inr p" for b e and x :: "pyexc + path" by simp
  have W: "list_ex (is_within p) (allowed_roots cfg) \<longleftrightarrow>
      (\<exists>base \<in> set (allowed_roots cfg). \<exists>below. absolute p = absolute base \<and> parts p = parts base @ below)"
    by (simp add: list_ex_iff w)
  show ?thesis
    unfolding resolve_cwd_def bindr_Inr i r W [symmetric] by auto
qed

definition argv_size :: "string list \<Rightarrow> int" where
  "argv_size argv = sum_list (map (\<lambda>a. int (length a)) argv)"

lemma argv_size_nonneg: "0 \<le> argv_size argv"
  by (induction argv) (auto simp: argv_size_def)

lemma validate_items_Inr:
  "validate_items i n items = Inr vs \<longleftrightarrow>
     vs = items \<and> list_all (\<lambda>a. a \<noteq> [] \<and> CHR 0x00 \<notin> set a) items \<and> (items = [] \<or> n + argv_size items \<le> 1048576)"
proof (induction items arbitrary: i n vs)
  case (Cons a items)
  have "(items = [] \<or> n + int (length a) + argv_size items \<le> 1048576) \<and> n + int (length a) \<le> 1048576 \<longleftrightarrow>
      n + argv_size (a # items) \<le> 1048576"
    using argv_size_nonneg [of items] by (auto simp: argv_size_def)
  then show ?case by (auto simp: Let_def bindr_Inr Cons)
qed auto

text \<open>
  C14. A command line is accepted exactly when it has between 1 and 256 elements, all
  non-empty and without NUL, of at most 1 MiB together, and the executable, as written and
  as the file it resolves to, is no privilege-elevation command and, unless shells are
  allowed, no shell. It is then used as it was given.
\<close>

theorem argv_accepted:
  "validate_argv h cfg argv cwd = Inr out \<longleftrightarrow>
     out = argv \<and> argv \<noteq> [] \<and> length argv \<le> 256 \<and> list_all (\<lambda>a. a \<noteq> [] \<and> CHR 0x00 \<notin> set a) argv
     \<and> argv_size argv \<le> 1048576
     \<and> set (executable_names h cwd (hd argv)) \<inter> set elevation_executables = {}
     \<and> (allow_shell cfg \<or> set (executable_names h cwd (hd argv)) \<inter> set shell_executables = {})"
proof -
  have f: "filter (\<lambda>n. n \<in> B) xs = [] \<longleftrightarrow> set xs \<inter> B = {}" for xs :: "string list" and B
    by (auto simp: filter_empty_conv)
  show ?thesis
    unfolding validate_argv_def
    by (simp add: bindr_Inr validate_items_Inr Let_def f split: if_splits) (auto simp: f)
qed

section \<open>Environment and redaction\<close>

text \<open>
  A command sees only variables that are forwarded by name with the server's own
  values, none of them sensitive, and \<open>PWD\<close> set to its working directory, each once.
\<close>

theorem process_env_safe:
  assumes "load_config h = Inr c"
  shows "distinct (map fst (build_process_env h c cwd))
    \<and> map_of (build_process_env h c cwd) n =
       (if n = ''PWD'' then Some (path_str cwd) else if n \<in> set (forward_env_names c) then env_var h n else None)
    \<and> (n \<in> set (forward_env_names c) \<longrightarrow> \<not> is_sensitive_env_name n)"
proof -
  let ?vars = "\<lambda>ns. concat (map (\<lambda>n. case env_var h n of None \<Rightarrow> [] | Some v \<Rightarrow> [(n, v)]) ns)"
  have safe: "distinct (forward_env_names c)" "list_all (\<lambda>n. env_name_ok n \<and> \<not> is_sensitive_env_name n) (forward_env_names c)"
    using load_config_parts(9) [OF assms] forward_names_safe [of "[]"] by (simp_all add: load_forward_env_names_def Let_def)
  have look: "map_of (filter (\<lambda>(m, _). m \<noteq> ''PWD'') (?vars ns)) n = (if n \<noteq> ''PWD'' \<and> n \<in> set ns then env_var h n else None)" for ns
    by (induction ns) (auto split: option.splits)
  have sub: "fst ` set (?vars ns) \<subseteq> set ns" for ns by (induction ns) (auto split: option.splits)
  have "distinct ns \<Longrightarrow> distinct (map fst (filter (\<lambda>(m, _). m \<noteq> ''PWD'') (?vars ns)))" for ns
    using sub by (induction ns) (force split: option.splits)+
  then have "distinct (map fst (build_process_env h c cwd))"
    using safe(1) by (auto simp: build_process_env_def)
  moreover have "map_of (build_process_env h c cwd) n =
      (if n = ''PWD'' then Some (path_str cwd) else if n \<in> set (forward_env_names c) then env_var h n else None)"
    unfolding build_process_env_def map_of_append map_add_def look by (auto split: option.splits)
  moreover have "n \<in> set (forward_env_names c) \<longrightarrow> \<not> is_sensitive_env_name n" using safe(2) by (auto simp: list_all_iff)
  ultimately show ?thesis by blast
qed

text \<open>The values the redaction hides: what follows a secret flag, and what follows the equals sign of a secret name.\<close>

inductive same_but_secrets :: "bool \<Rightarrow> string list \<Rightarrow> string list \<Rightarrow> bool" where
  same_nil: "same_but_secrets b [] []"
| same_value: "same_but_secrets False xs ys \<Longrightarrow> same_but_secrets True (v # xs) (w # ys)"
| same_assignment: "CHR ''='' \<notin> set n \<Longrightarrow> names_secret (lower n) \<Longrightarrow> same_but_secrets False xs ys \<Longrightarrow>
    same_but_secrets False ((n @ ''='' @ v) # xs) ((n @ ''='' @ w) # ys)"
| same_plain: "same_but_secrets (starts_with (lower a) ''-'' \<and> names_secret (lower a)) xs ys \<Longrightarrow>
    \<not> (CHR ''='' \<in> set a \<and> names_secret (lower (before_eq a))) \<Longrightarrow> same_but_secrets False (a # xs) (a # ys)"

lemma before_eq_assignment [simp]: "CHR ''='' \<notin> set n \<Longrightarrow> before_eq (n @ CHR ''='' # v) = n"
  unfolding before_eq_def by (subst takeWhile_append2) auto

text \<open>
  C15. The stored command line does not depend on the secrets in it: two command lines
  that differ only in the values after secret flags (\<open>--token v\<close>) and in the values of
  secret assignments (\<open>--password=v\<close>, \<open>API-KEY=v\<close>) are redacted to the same text.
\<close>

theorem redaction_hides_secrets:
  assumes "same_but_secrets False xs ys"
  shows "redact_argv xs = redact_argv ys"
proof -
  have "same_but_secrets b xs ys \<Longrightarrow> redact_from b xs = redact_from b ys" for b xs ys
    by (induction b xs ys rule: same_but_secrets.induct) auto
  then show ?thesis using assms by (simp add: redact_argv_def)
qed


section \<open>A concrete host\<close>

definition demo_host :: host where
  "demo_host = \<lparr>env_var = map_of [(''LONGRUN_ALLOWED_ROOTS'', ''/srv/work: /opt''), (''LONGRUN_MAX_ACTIVE_JOBS'', ''8''),
       (''PATH'', ''/usr/bin''), (''HOME'', ''/home/me''), (''AWS_SECRET'', ''x'')],
     expanduser = Inr, resolve_strict = (\<lambda>p. Inr (p\<lparr>absolute := True\<rparr>)),
     resolve_lax = (\<lambda>p. p\<lparr>absolute := True\<rparr>), is_directory = (\<lambda>_. True),
     which = (\<lambda>n. Some (''/usr/bin/'' @ n))\<rparr>"

definition demo_config :: server_config where
  "demo_config = \<lparr>max_log_size = 134217728, max_timeout_sec = 43200, heartbeat_initial_sec = 0,
     heartbeat_interval_sec = 900, max_active_jobs = 8, secret_ttl_sec = 300, max_stdin_secret_bytes = 65536,
     allowed_roots = [parse_path ''/srv/work'', parse_path ''/opt''], forward_env_names = default_forward_env_names,
     allow_shell = False, bridge_socket = []\<rparr>"

lemma demo_config_loads: "load_config demo_host = Inr demo_config"
  by code_simp

theorem config_bounds_witness:
  "load_config demo_host = Inr demo_config \<and> max_active_jobs demo_config \<le> 64 \<and> list_all absolute (allowed_roots demo_config)"
proof -
  have "absolute r" if "resolve_strict demo_host p = Inr r" for p r using that by (auto simp: demo_host_def)
  then show ?thesis using config_bounds [OF demo_config_loads] demo_config_loads by blast
qed

theorem process_env_safe_witness:
  "map_of (build_process_env demo_host demo_config (parse_path ''/opt'')) ''PWD'' = Some ''/opt''
   \<and> map_of (build_process_env demo_host demo_config (parse_path ''/opt'')) ''AWS_SECRET'' = None
   \<and> map_of (build_process_env demo_host demo_config (parse_path ''/opt'')) ''HOME'' = Some ''/home/me''"
proof -
  have "path_str (parse_path ''/opt'') = ''/opt''" "''AWS_SECRET'' \<notin> set (forward_env_names demo_config)"
    "''HOME'' \<in> set (forward_env_names demo_config)" "env_var demo_host ''HOME'' = Some ''/home/me''"
    by code_simp+
  then show ?thesis
    using process_env_safe [OF demo_config_loads, of "parse_path ''/opt''"] by auto
qed

theorem redaction_hides_secrets_witness:
  "redact_argv [''deploy'', ''--token'', ''abc'', ''DB_PASSWORD=x''] = redact_argv [''deploy'', ''--token'', ''zzz'', ''DB_PASSWORD=yy'']
   \<and> redact_argv [''deploy'', ''--token'', ''abc'', ''DB_PASSWORD=x''] = [''deploy'', ''--token'', ''<redacted>'', ''DB_PASSWORD=<redacted>'']"
proof -
  have s: "names_secret (lower ''DB_PASSWORD'')" "(starts_with (lower ''--token'') ''-'' \<and> names_secret (lower ''--token'')) = True"
    "(starts_with (lower ''deploy'') ''-'' \<and> names_secret (lower ''deploy'')) = False"
    by code_simp+
  have "same_but_secrets False [''DB_PASSWORD'' @ ''='' @ ''x''] [''DB_PASSWORD'' @ ''='' @ ''yy'']"
    by (rule same_assignment) (simp_all add: s same_nil)
  then have "same_but_secrets True [''abc'', ''DB_PASSWORD=x''] [''zzz'', ''DB_PASSWORD=yy'']"
    by (intro same_value) simp
  then have "same_but_secrets False [''--token'', ''abc'', ''DB_PASSWORD=x''] [''--token'', ''zzz'', ''DB_PASSWORD=yy'']"
    by (intro same_plain) (simp_all only: s, simp)
  then have "same_but_secrets False [''deploy'', ''--token'', ''abc'', ''DB_PASSWORD=x''] [''deploy'', ''--token'', ''zzz'', ''DB_PASSWORD=yy'']"
    by (intro same_plain) (simp_all only: s, simp)
  moreover have "redact_argv [''deploy'', ''--token'', ''abc'', ''DB_PASSWORD=x''] = [''deploy'', ''--token'', ''<redacted>'', ''DB_PASSWORD=<redacted>'']"
    by code_simp
  ultimately show ?thesis using redaction_hides_secrets by blast
qed

end
