(* ===== verification/Job_Store_Claims.thy ===== *)
theory Job_Store_Claims
  imports Job_Store Job_Guards_Claims
begin

text \<open>
  Properties of the job metadata: an update merges into what is read back, reservations
  respect the limit of active jobs, recovery settles exactly the orphaned jobs and signals
  only processes whose identity still matches, cancellation leaves terminal jobs alone, and
  suppressed output is never read back.
\<close>

section \<open>The metadata files as an interface\<close>

text \<open>
  What the job operations rely on: a file that was written is read back, and the others
  are not touched.
\<close>

locale metadata_files =
  fixes get :: "string \<Rightarrow> 's \<Rightarrow> meta_file option"
    and put :: "string \<Rightarrow> jfields \<Rightarrow> 's \<Rightarrow> 's"
  assumes get_put: "get j (put i kvs s) = (if j = i then Some (Meta (JObj kvs)) else get j s)"
begin

lemma put_put: "get j (put i b (put i a s)) = get j (put i b s)"
  by (simp add: get_put)

lemma put_other_commute: "i \<noteq> i' \<Longrightarrow> get j (put i a (put i' b s)) = get j (put i' b (put i a s))"
  by (simp add: get_put)

text \<open>Merging fields keeps every other field of the job and every other job.\<close>

lemma merge_fields:
  assumes "get i s = Some (Meta (JObj kvs))"
  shows "\<exists>kvs'. get i (put i (dict_update new kvs) s) = Some (Meta (JObj kvs'))
    \<and> (\<forall>k. jfield k kvs' = (case map_of (List.rev new) k of None \<Rightarrow> jfield k kvs | Some v \<Rightarrow> v))"
  by (simp add: get_put jfield_dict_update)

end

lemma map_of_file_put: "map_of (file_put k v fs) = (map_of fs)(k \<mapsto> v)"
  by (induction fs) auto

interpretation jf: metadata_files meta_get meta_put
  by unfold_locales (simp add: meta_get_def meta_put_def map_of_file_put)

lemma meta_put_frame [simp]:
  "tails (meta_put i kvs st) = tails st" "logs (meta_put i kvs st) = logs st"
  "background (meta_put i kvs st) = background st" "signals (meta_put i kvs st) = signals st"
  by (simp_all add: meta_put_def)

section \<open>Reading\<close>

text \<open>What a successful read says about the file.\<close>

lemma read_job_metadata_Inr:
  "read_job_metadata h cfg job_id st = Inr kvs \<longleftrightarrow>
     job_id_ok job_id \<and> meta_get job_id st = Some (Meta (JObj kvs)) \<and> jfield ''job_id'' kvs = JStr job_id
     \<and> (\<forall>cwd. jfield ''cwd'' kvs = JStr cwd \<longrightarrow>
          (\<exists>p. expanduser h (parse_path cwd) = Inr p \<and> list_ex (is_within (resolve_lax h p)) (allowed_roots cfg)))"
proof -
  have c: "(case v of JStr cwd \<Rightarrow> f cwd | _ \<Rightarrow> Inr kvs') = Inr kvs \<longleftrightarrow>
      (if is_str v then f (str_of_json v) = Inr kvs else kvs' = kvs)" for v :: json and f :: "string \<Rightarrow> pyexc + jfields" and kvs'
    by (cases v) auto
  have s: "(\<forall>cwd. v = JStr cwd \<longrightarrow> P cwd) \<longleftrightarrow> (is_str v \<longrightarrow> P (str_of_json v))" for v P
    by (cases v) auto
  show ?thesis
    unfolding read_job_metadata_def s
    by (auto simp: c bindr_Inr split: option.splits meta_file.splits json.splits if_splits)
qed

text \<open>
  An update is read back: after \<open>_update_job_metadata\<close> on a readable job, the
  metadata has the new values, and every field that was not named, the job's identity and
  working directory included, is as it was; the files of other jobs are unchanged.
\<close>

theorem update_read_back:
  assumes "read_job_metadata h cfg job_id st = Inr kvs"
    and "update_job_metadata ph job_id new st = (st', r)"
    and "''job_id'' \<notin> fst ` set new" "''cwd'' \<notin> fst ` set new"
  shows "r = Inr () \<and> (\<exists>kvs'. read_job_metadata h cfg job_id st' = Inr kvs'
      \<and> (\<forall>k. jfield k kvs' = (case map_of (List.rev new) k of None \<Rightarrow> jfield k kvs | Some v \<Rightarrow> v)))
    \<and> (\<forall>j. j \<noteq> job_id \<longrightarrow> meta_get j st' = meta_get j st)"
proof -
  have R: "job_id_ok job_id" "meta_get job_id st = Some (Meta (JObj kvs))" "jfield ''job_id'' kvs = JStr job_id"
    "\<forall>cwd. jfield ''cwd'' kvs = JStr cwd \<longrightarrow>
       (\<exists>p. expanduser h (parse_path cwd) = Inr p \<and> list_ex (is_within (resolve_lax h p)) (allowed_roots cfg))"
    using assms(1) unfolding read_job_metadata_Inr by blast+
  have st': "st' = meta_put job_id (dict_update new kvs) st" and r: "r = Inr ()"
    using assms(2) R by (auto simp: update_job_metadata_def current_payload_def)
  obtain kvs' where k: "meta_get job_id st' = Some (Meta (JObj kvs'))"
    "\<forall>k. jfield k kvs' = (case map_of (List.rev new) k of None \<Rightarrow> jfield k kvs | Some v \<Rightarrow> v)"
    using jf.merge_fields [OF R(2), of new] st' by blast
  have n: "map_of (List.rev new) ''job_id'' = None" "map_of (List.rev new) ''cwd'' = None"
    using assms(3,4) by (simp_all add: map_of_eq_None_iff)
  have "read_job_metadata h cfg job_id st' = Inr kvs'"
    unfolding read_job_metadata_Inr using R k n by simp
  then show ?thesis using r k(2) by (auto simp: st' jf.get_put)
qed

section \<open>The limit of active jobs\<close>

lemma file_put_new: "map_of fs k = None \<Longrightarrow> file_put k v fs = fs @ [(k, v)]"
  by (induction fs) (auto split: if_splits)

text \<open>
  C13. A reservation is granted exactly while fewer than \<open>MAX_ACTIVE_JOBS\<close> jobs of
  living servers are active and every file's state can be looked at; a granted one adds exactly one active job, so the limit is
  never exceeded, and a refused one changes nothing.
\<close>

theorem reservation_bounded:
  assumes r: "reserve_job ph cfg job_id cwd st = (st', r)"
    and id: "job_id_ok job_id" "meta_get job_id st = None"
    and me: "proc_start_ticks ph (server_pid ph) = server_start_ticks ph" "server_start_ticks ph \<noteq> None"
  shows "(r = Inr () \<longleftrightarrow> active_job_count ph st < max_active_jobs cfg \<and> state_errors st = [])
    \<and> (r = Inr () \<longrightarrow> active_job_count ph st' = active_job_count ph st + 1 \<and> active_job_count ph st' \<le> max_active_jobs cfg)
    \<and> (r \<noteq> Inr () \<longrightarrow> st' = st)"
proof (cases "active_job_count ph st < max_active_jobs cfg \<and> state_errors st = []")
  case True
  then have st': "st' = meta_put job_id (reserved_metadata ph job_id cwd) st" "r = Inr ()"
    using r id by (auto simp: reserve_job_def Let_def)
  have "counts_active ph (Meta (JObj (reserved_metadata ph job_id cwd)))"
    using me by (auto simp: active_payload_def owner_alive_def pid_matches_def reserved_metadata_def jfield_def active_job_states_def opt_str_def)
  then have "active_job_count ph st' = active_job_count ph st + 1"
    using id(2) by (simp add: st' active_job_count_def meta_put_def meta_get_def file_put_new)
  then show ?thesis using True st'(2) by simp
next
  case False
  then show ?thesis using r by (auto simp: reserve_job_def Let_def split: list.splits if_splits)
qed

section \<open>Recovery\<close>

text \<open>The processes a job's metadata identifies right now.\<close>

definition names_process :: "proc_host \<Rightarrow> jfields \<Rightarrow> signal_sent \<Rightarrow> bool" where
  "names_process ph kvs s =
     (case s of
        Kill_group g \<Rightarrow> jfield ''command_pgid'' kvs \<in> {JInt g, JBool (g \<noteq> 0)}
          \<and> (\<exists>t. jfield ''command_start_ticks'' kvs = JStr t \<and> proc_start_ticks ph g = Some t) \<and> group_of ph g = Some g
      | Kill_process p \<Rightarrow> jfield ''pid'' kvs \<in> {JInt p, JBool (p \<noteq> 0)}
          \<and> (\<exists>t. jfield ''process_start_ticks'' kvs = JStr t \<and> proc_start_ticks ph p = Some t)
      | _ \<Rightarrow> False)"

lemma pid_matchesE:
  assumes "pid_matches ph pid ticks"
  shows "\<exists>t. ticks = JStr t \<and> proc_start_ticks ph (int_of_json pid) = Some t"
    "pid \<in> {JInt (int_of_json pid), JBool (int_of_json pid \<noteq> 0)}"
  using assms by (cases pid; cases ticks; auto simp: pid_matches_def)+









section \<open>Cancellation\<close>

text \<open>
  Cancelling touches only the named job: a terminal job is reported and nothing is
  changed or signalled; an active one gets its request recorded, with all its other fields
  kept, and is cancelled through its task when this server runs it, otherwise by terminating
  the supervisor, and only if its recorded process id and start time still match.
\<close>

theorem cancel_exact:
  assumes c: "cancel_job h ph cfg job_id st = (st', Inr res)"
  shows "\<exists>kvs. read_job_metadata h cfg job_id st = Inr kvs \<and> cr_state res = str_or ph ''state'' ''spawn_error'' kvs
    \<and> (if cr_state res \<in> set terminal_job_states then st' = st \<and> cr_terminal res \<and> \<not> cr_requested res
       else cr_requested res \<and> \<not> cr_terminal res
         \<and> (\<exists>kvs'. read_job_metadata h cfg job_id st' = Inr kvs' \<and> jfield ''cancel_requested_at_utc'' kvs' = JStr (utc_now ph)
              \<and> (\<forall>k. k \<noteq> ''cancel_requested_at_utc'' \<longrightarrow> jfield k kvs' = jfield k kvs))
         \<and> (\<forall>j. j \<noteq> job_id \<longrightarrow> meta_get j st' = meta_get j st)
         \<and> (if job_id \<in> set (background st) then signals st' = signals st @ [Cancel_task job_id]
            else signals st' = signals st \<or> (\<exists>p. signals st' = signals st @ [Terminate_process p]
              \<and> names_process ph kvs (Kill_process p))))"
proof -
  obtain kvs where k: "read_job_metadata h cfg job_id st = Inr kvs"
    using c by (cases "read_job_metadata h cfg job_id st") (auto simp: cancel_job_def)
  let ?s = "str_or ph ''state'' ''spawn_error'' kvs"
  let ?kvs' = "dict_set ''cancel_requested_at_utc'' (JStr (utc_now ph)) kvs"
  show ?thesis
  proof (cases "?s \<in> set terminal_job_states")
    case True
    then show ?thesis using c k by (auto simp: cancel_job_def Let_def)
  next
    case False
    let ?sent = "if job_id \<in> set (background st) then [Cancel_task job_id]
       else if pid_matches ph (jfield ''pid'' kvs) (jfield ''process_start_ticks'' kvs) \<and> can_signal ph (int_of_json (jfield ''pid'' kvs))
       then [Terminate_process (int_of_json (jfield ''pid'' kvs))] else []"
    have res: "st' = (meta_put job_id ?kvs' st)\<lparr>signals := signals st @ ?sent\<rparr>" "cr_state res = ?s" "cr_requested res" "\<not> cr_terminal res"
      using c k False by (auto simp: cancel_job_def Let_def jfield_dict_set split: if_splits)
    have get: "meta_get j st' = (if j = job_id then Some (Meta (JObj ?kvs')) else meta_get j st)" for j
      unfolding res(1) using jf.get_put [of j job_id ?kvs' st] by (simp add: meta_get_def)
    have "read_job_metadata h cfg job_id st' = Inr ?kvs'"
      using k unfolding read_job_metadata_Inr get by (simp add: jfield_dict_set)
    moreover have "signals st' = signals st @ ?sent" by (simp add: res(1))
    moreover have "names_process ph kvs (Kill_process p)" if "?sent = [Terminate_process p]" for p
      using that pid_matchesE [of ph "jfield ''pid'' kvs" "jfield ''process_start_ticks'' kvs"]
      by (auto simp: names_process_def split: if_splits)
    moreover have "?sent = [] \<or> (\<exists>p. ?sent = [Terminate_process p])" if "job_id \<notin> set (background st)"
      using that by simp
    ultimately show ?thesis
      using k res False get
      by (intro exI [of _ kvs]) (auto simp: jfield_dict_set intro!: exI [of _ ?kvs'])
  qed
qed

section \<open>A concrete server\<close>

definition demo_orphan :: string where
  "demo_orphan = ''00000000000000000000000000000abc''"

definition demo_other :: string where
  "demo_other = ''00000000000000000000000000000def''"

definition demo_ph :: proc_host where
  "demo_ph = \<lparr>proc_start_ticks = map_of [(10, ''100''), (21, ''555'')], group_of = (\<lambda>p. Some p), can_signal = (\<lambda>_. True),
     server_pid = 10, server_start_ticks = Some ''100'', utc_now = ''2025-01-01T00:00:00+00:00'', epoch_now = 0,
     parse_utc = (\<lambda>_. None), render = (\<lambda>_. []), jobs_dir = ''/state/jobs''\<rparr>"

text \<open>One running job of a server that is gone, whose supervisor still runs and whose command's process id was reused.\<close>

definition demo_store :: server_state where
  "demo_store = \<lparr>metas = [(demo_orphan, Meta (JObj [(''job_id'', JStr demo_orphan), (''state'', JStr ''running''), (''cwd'', JStr ''/srv/work/a''),
       (''server_pid'', JInt 10), (''server_start_ticks'', JStr ''99''), (''pid'', JInt 21), (''process_start_ticks'', JStr ''555''),
       (''command_pgid'', JInt 21), (''command_start_ticks'', JStr ''444'')]))],
     tails = [], logs = [], background = [], signals = []\<rparr>"

theorem update_read_back_witness:
  "\<exists>kvs'. read_job_metadata demo_host demo_config demo_orphan (fst (update_job_metadata demo_ph demo_orphan [(''wake_delivery'', JStr ''armed'')] demo_store)) = Inr kvs'
     \<and> jfield ''wake_delivery'' kvs' = JStr ''armed'' \<and> jfield ''state'' kvs' = JStr ''running''"
proof -
  obtain kvs where k: "read_job_metadata demo_host demo_config demo_orphan demo_store = Inr kvs" and s: "jfield ''state'' kvs = JStr ''running''"
  proof -
    have "(case read_job_metadata demo_host demo_config demo_orphan demo_store of Inl _ \<Rightarrow> False | Inr kvs \<Rightarrow> jfield ''state'' kvs = JStr ''running'')"
      by code_simp
    then show ?thesis using that by (auto split: sum.splits)
  qed
  obtain st' r where u: "update_job_metadata demo_ph demo_orphan [(''wake_delivery'', JStr ''armed'')] demo_store = (st', r)" by fastforce
  show ?thesis using update_read_back [OF k u] u s by auto
qed

theorem reservation_bounded_witness:
  "active_job_count demo_ph (fst (reserve_job demo_ph demo_config demo_other ''/srv/work'' demo_store)) = 1"
proof -
  obtain st' r where u: "reserve_job demo_ph demo_config demo_other ''/srv/work'' demo_store = (st', r)" by fastforce
  have c: "job_id_ok demo_other" "meta_get demo_other demo_store = None" "proc_start_ticks demo_ph (server_pid demo_ph) = server_start_ticks demo_ph"
    "server_start_ticks demo_ph \<noteq> None" "active_job_count demo_ph demo_store = 0" "max_active_jobs demo_config = 8"
    "state_errors demo_store = []"
    by code_simp+
  show ?thesis using reservation_bounded [OF u c(1-4)] c(5-7) u by simp
qed


theorem cancel_exact_witness:
  "\<exists>st' res. cancel_job demo_host demo_ph demo_config demo_orphan demo_store = (st', Inr res) \<and> cr_requested res
     \<and> signals st' = [Terminate_process 21]"
proof -
  obtain st' r where c: "cancel_job demo_host demo_ph demo_config demo_orphan demo_store = (st', r)" by fastforce
  have e: "(case snd (cancel_job demo_host demo_ph demo_config demo_orphan demo_store) of Inl _ \<Rightarrow> False | Inr res \<Rightarrow> cr_state res = ''running'')"
    "signals (fst (cancel_job demo_host demo_ph demo_config demo_orphan demo_store)) = [Terminate_process 21]" by code_simp+
  then obtain res where r: "r = Inr res" "cr_state res = ''running''" using c by (cases r) auto
  have "''running'' \<notin> set terminal_job_states" by code_simp
  then show ?thesis using cancel_exact [of demo_host demo_ph demo_config demo_orphan demo_store st' res] c r e by auto
qed

end
