(* ===== verification/Job_Output_Claims.thy ===== *)
theory Job_Output_Claims
  imports Job_Output
begin

text \<open>
  Properties of the captured output: it does not matter how the stream is cut into chunks,
  suppressed output leaves nothing behind, the wanted texts are found when the chunks leave
  room for them and can be missed otherwise, the tail is bounded, and the waiting loop ends.
\<close>

section \<open>Lists\<close>

lemma length_last_n [simp]: "length (last_n n xs) = min n (length xs)"
  by (simp add: last_n_def)

lemma last_n_append: "last_n n (last_n n xs @ ys) = last_n n (xs @ ys)"
proof (cases "length xs \<le> n")
  case True
  then show ?thesis by (simp add: last_n_def)
next
  case False
  then have "last_n n xs @ ys = drop (length xs - n) (xs @ ys)" by (simp add: last_n_def)
  then show ?thesis using False by (simp add: last_n_def add.commute)
qed

lemma last_n_Nil [simp]: "last_n n [] = []"
  by (simp add: last_n_def)

lemma is_prefix_iff: "is_prefix p xs \<longleftrightarrow> (\<exists>b. xs = p @ b)"
  by (induction p xs rule: is_prefix.induct) auto

lemma occurs_in_iff: "occurs_in p xs \<longleftrightarrow> (\<exists>a b. xs = a @ p @ b)"
proof (induction xs)
  case (Cons x xs)
  have "(\<exists>a b. x # xs = a @ p @ b) \<longleftrightarrow> (\<exists>b. x # xs = p @ b) \<or> (\<exists>a b. xs = a @ p @ b)"
    by (metis append_Cons append_Nil list.exhaust list.inject)
  then show ?case using Cons by (simp add: is_prefix_iff)
qed auto

lemma occurs_in_set: "occurs_in p xs \<Longrightarrow> set p \<subseteq> set xs"
  by (auto simp: occurs_in_iff)

text \<open>A new occurrence lies within the last characters, when the new text leaves room.\<close>

lemma occurs_in_window:
  assumes room: "length t + length p \<le> n + 1"
  shows "occurs_in p (xs @ t) \<longleftrightarrow> occurs_in p xs \<or> occurs_in p (last_n n (xs @ t))"
proof
  assume "occurs_in p (xs @ t)"
  then obtain a b where ab: "xs @ t = a @ p @ b" by (auto simp: occurs_in_iff)
  show "occurs_in p xs \<or> occurs_in p (last_n n (xs @ t))"
  proof (cases "length t \<le> length b")
    case True
    have "xs = a @ p @ take (length xs - (length a + length p)) b"
      using arg_cong [OF ab, of "take (length xs)"] arg_cong [OF ab, of length] True by simp
    then show ?thesis by (auto simp: occurs_in_iff)
  next
    case False
    have "length (xs @ t) - n \<le> length a" using arg_cong [OF ab, of length] False room by simp
    then have "last_n n (xs @ t) = drop (length (xs @ t) - n) a @ p @ b" by (simp add: last_n_def ab)
    then show ?thesis by (auto simp: occurs_in_iff)
  qed
next
  assume "occurs_in p xs \<or> occurs_in p (last_n n (xs @ t))"
  then show "occurs_in p (xs @ t)"
  proof
    assume "occurs_in p xs"
    then show ?thesis by (metis append.assoc occurs_in_iff)
  next
    assume "occurs_in p (last_n n (xs @ t))"
    then obtain a b where "drop (length (xs @ t) - n) (xs @ t) = a @ p @ b" by (auto simp: occurs_in_iff last_n_def)
    then have "xs @ t = (take (length (xs @ t) - n) (xs @ t) @ a) @ p @ b" by (metis append_take_drop_id append.assoc)
    then show ?thesis unfolding occurs_in_iff by blast
  qed
qed

section \<open>Draining\<close>

text \<open>The state after the stream's bytes \<open>str\<close>, when output is kept.\<close>

definition drained :: "int \<Rightarrow> utext option \<Rightarrow> utext option \<Rightarrow> bytes \<Rightarrow> drain \<Rightarrow> bool" where
  "drained mx sc fc str d \<longleftrightarrow>
     dlog d = take (nat mx) str \<and> decoder d = fst (utf8_feed Idle str)
     \<and> suppress_output (tracker d) = False \<and> max_log_bytes (tracker d) = mx
     \<and> success_contains (tracker d) = sc \<and> failure_contains (tracker d) = fc
     \<and> bytes_seen (tracker d) = int (length str) \<and> bytes_written (tracker d) = int (min (nat mx) (length str))
     \<and> log_truncated (tracker d) = (nat mx < length str)
     \<and> tail_text (tracker d) = last_n max_memory_tail_chars (snd (utf8_feed Idle str))
     \<and> scan_text (tracker d) = last_n max_memory_tail_chars (snd (utf8_feed Idle str))"

lemma feed_text_frame [simp]:
  "max_log_bytes (feed_text now t n tr) = max_log_bytes tr" "success_contains (feed_text now t n tr) = success_contains tr"
  "failure_contains (feed_text now t n tr) = failure_contains tr" "suppress_output (feed_text now t n tr) = suppress_output tr"
  "bytes_written (feed_text now t n tr) = bytes_written tr" "log_truncated (feed_text now t n tr) = log_truncated tr"
  "bytes_seen (feed_text now t n tr) = bytes_seen tr + int n"
  by (simp_all add: feed_text_def Let_def)

lemma feed_text_kept:
  assumes "\<not> suppress_output tr"
  shows "tail_text (feed_text now t n tr) = (if t = [] then tail_text tr else last_n max_memory_tail_chars (tail_text tr @ t))"
    "scan_text (feed_text now t n tr) = (if t = [] then scan_text tr else last_n max_memory_tail_chars (scan_text tr @ t))"
    "success_match (feed_text now t n tr) = (if t = [] then success_match tr
       else scan_match (success_contains tr) (success_match tr) (last_n max_memory_tail_chars (scan_text tr @ t)))"
    "failure_match (feed_text now t n tr) = (if t = [] then failure_match tr
       else scan_match (failure_contains tr) (failure_match tr) (last_n max_memory_tail_chars (scan_text tr @ t)))"
  using assms by (simp_all add: feed_text_def Let_def)

lemma tail_after:
  "(if t = [] then last_n n xs else last_n n (last_n n xs @ t)) = last_n n (xs @ t)"
  by (simp add: last_n_append)

lemma drain_chunk_parts:
  assumes keep: "\<not> suppress_output (tracker d)"
  shows "dlog (drain_chunk (now, c) d) = dlog d @ take (nat (max_log_bytes (tracker d) - bytes_written (tracker d))) c"
    "decoder (drain_chunk (now, c) d) = fst (utf8_feed (decoder d) c)"
    "\<exists>bw lt. tracker (drain_chunk (now, c) d) = (feed_text now (snd (utf8_feed (decoder d) c)) (length c) (tracker d))\<lparr>bytes_written := bw, log_truncated := lt\<rparr>
       \<and> bw = bytes_written (tracker d) + int (length (take (nat (max_log_bytes (tracker d) - bytes_written (tracker d))) c))
       \<and> lt = (log_truncated (tracker d) \<or> int (length c) > max (max_log_bytes (tracker d) - bytes_written (tracker d)) 0)"
  using keep by (auto simp: drain_chunk_def Let_def split: prod.splits)

lemma drain_chunk_drained:
  assumes d: "drained mx sc fc str d"
  shows "drained mx sc fc (str @ c) (drain_chunk (now, c) d)"
proof -
  have keep: "\<not> suppress_output (tracker d)" using d by (simp add: drained_def)
  obtain s t where f: "utf8_feed Idle str = (s, t)" by fastforce
  obtain s' t' where f': "utf8_feed s c = (s', t')" by fastforce
  have all: "utf8_feed Idle (str @ c) = (s', t @ t')" by (simp add: utf8_feed_append f f')
  note P = drain_chunk_parts [OF keep, of now c]
  have dec: "decoder d = s" using d f by (simp add: drained_def)
  have w: "nat (mx - int (min (nat mx) (length str))) = nat mx - length str" by auto
  let ?rem = "mx - int (min (nat mx) (length str))"
  obtain bw lt where tr: "tracker (drain_chunk (now, c) d) = (feed_text now t' (length c) (tracker d))\<lparr>bytes_written := bw, log_truncated := lt\<rparr>"
    and bw: "bw = int (min (nat mx) (length str)) + int (length (take (nat ?rem) c))"
    and lt: "lt = (nat mx < length str \<or> int (length c) > max ?rem 0)"
    using P(3) d dec f' by (auto simp: drained_def)
  have "bw = int (min (nat mx) (length (str @ c)))" unfolding bw w by auto
  moreover have "lt = (nat mx < length (str @ c))"
    unfolding lt by (cases "c = []"; cases "nat mx \<le> length str")
      (auto simp: min_def length_greater_0_conv [symmetric] simp del: length_greater_0_conv)
  moreover have "dlog (drain_chunk (now, c) d) = take (nat mx) (str @ c)"
    using P(1) d w by (simp add: drained_def)
  moreover have "tail_text (tracker d) = last_n max_memory_tail_chars t" "scan_text (tracker d) = last_n max_memory_tail_chars t"
    using d f by (simp_all add: drained_def)
  ultimately show ?thesis
    using d P(2) dec f' unfolding drained_def all by (simp add: tr feed_text_kept [OF keep] last_n_append)
qed

lemma drain_fold:
  "drained mx sc fc str d \<Longrightarrow> drained mx sc fc (str @ concat (map snd cs)) (fold drain_chunk cs d)"
proof (induction cs arbitrary: str d)
  case (Cons ch cs)
  show ?case using Cons.IH [OF drain_chunk_drained [OF Cons.prems, of "snd ch" "fst ch"]] by simp
qed simp

lemma drained_start: "drained mx sc fc [] \<lparr>dlog = [], decoder = Idle, tracker = new_tracker mx sc fc t0 False\<rparr>"
  by (simp add: drained_def new_tracker_def)

text \<open>
  C12. How the stream is cut into chunks does not matter: after all of them the log holds
  the first \<open>max_log_bytes\<close> bytes of the stream, the counters are the numbers of bytes seen
  and logged, \<open>log_truncated\<close> says whether bytes were left out, and the tail is the last
  65536 characters of the decoded stream.
\<close>

theorem drain_whole_stream:
  "let d = drain_output chunks fin (new_tracker mx sc fc t0 False); str = concat (map snd chunks) in
     dlog d = take (nat mx) str \<and> bytes_seen (tracker d) = int (length str)
     \<and> bytes_written (tracker d) = int (length (dlog d)) \<and> log_truncated (tracker d) = (dlog d \<noteq> str)
     \<and> tail_text (tracker d) = last_n max_memory_tail_chars (utf8_decode str)"
proof -
  let ?str = "concat (map snd chunks)"
  define d where "d = fold drain_chunk chunks \<lparr>dlog = [], decoder = Idle, tracker = new_tracker mx sc fc t0 False\<rparr>"
  have D: "drained mx sc fc ?str d" using drain_fold [OF drained_start] by (simp add: d_def)
  obtain s t where f: "utf8_feed Idle ?str = (s, t)" by fastforce
  have tr: "(nat mx < length ?str) = (take (nat mx) ?str \<noteq> ?str)"
    by (simp add: take_all_iff not_le)
  have "tail_text (tracker (drain_finish fin d)) = last_n max_memory_tail_chars (t @ utf8_final s)"
    using D f by (simp add: drain_finish_def Let_def drained_def feed_text_kept last_n_append)
  then have "tail_text (tracker (drain_finish fin d)) = last_n max_memory_tail_chars (utf8_decode ?str)"
    by (simp add: utf8_decode_def f)
  moreover have "dlog (drain_finish fin d) = take (nat mx) ?str" "bytes_seen (tracker (drain_finish fin d)) = int (length ?str)"
    "bytes_written (tracker (drain_finish fin d)) = int (length (take (nat mx) ?str))"
    "log_truncated (tracker (drain_finish fin d)) = (take (nat mx) ?str \<noteq> ?str)"
    using D tr by (simp_all add: drain_finish_def Let_def drained_def min.commute)
  ultimately show ?thesis by (simp add: drain_output_def d_def [symmetric] Let_def)
qed

text \<open>Suppressed output is only counted.\<close>

lemma suppressed_fold:
  "\<exists>t. fold drain_chunk chunks \<lparr>dlog = [], decoder = Idle, tracker = new_tracker mx sc fc t0 True\<rparr> =
     \<lparr>dlog = [], decoder = Idle, tracker = (new_tracker mx sc fc t0 True)
        \<lparr>bytes_seen := int (length (concat (map snd chunks))), last_output_at := t\<rparr>\<rparr>"
proof -
  define d where "d n t = \<lparr>dlog = [], decoder = Idle, tracker = (new_tracker mx sc fc t0 True)\<lparr>bytes_seen := n, last_output_at := t\<rparr>\<rparr>" for n t
  have step: "drain_chunk ch (d n t) = d (n + int (length (snd ch))) (fst ch)" for ch n t
    by (simp add: d_def drain_chunk_def feed_text_def new_tracker_def split: prod.splits)
  have "\<exists>t'. fold drain_chunk chunks (d n t) = d (n + int (length (concat (map snd chunks)))) t'" for n t
  proof (induction chunks arbitrary: n t)
    case Nil
    show ?case by (intro exI [of _ t]) simp
  next
    case (Cons ch chunks)
    show ?case using Cons.IH [of "n + int (length (snd ch))" "fst ch"] by (simp add: step add.assoc)
  qed
  from this [of 0 t0] obtain t' where "fold drain_chunk chunks (d 0 t0) = d (int (length (concat (map snd chunks)))) t'"
    by auto
  moreover have "d 0 t0 = \<lparr>dlog = [], decoder = Idle, tracker = new_tracker mx sc fc t0 True\<rparr>"
    by (simp add: d_def new_tracker_def)
  ultimately show ?thesis by (metis d_def)
qed

text \<open>
  With secret input nothing of the output is kept: the log file stays empty, and of
  the tracker only the byte count and the time of the last output change.
\<close>

theorem drain_suppressed:
  "\<exists>t. drain_output chunks fin (new_tracker mx sc fc t0 True) =
     \<lparr>dlog = [], decoder = Idle, tracker = (new_tracker mx sc fc t0 True)
        \<lparr>bytes_seen := int (length (concat (map snd chunks))), last_output_at := t\<rparr>\<rparr>"
proof -
  obtain t where "fold drain_chunk chunks \<lparr>dlog = [], decoder = Idle, tracker = new_tracker mx sc fc t0 True\<rparr> =
     \<lparr>dlog = [], decoder = Idle, tracker = (new_tracker mx sc fc t0 True)
        \<lparr>bytes_seen := int (length (concat (map snd chunks))), last_output_at := t\<rparr>\<rparr>"
    using suppressed_fold by blast
  then show ?thesis by (auto simp: drain_output_def drain_finish_def new_tracker_def)
qed

section \<open>Wanted texts\<close>

definition found_in :: "utext option \<Rightarrow> utext \<Rightarrow> utext option" where
  "found_in wanted t = (case wanted of None \<Rightarrow> None | Some w \<Rightarrow> if w \<noteq> [] \<and> occurs_in w t then Some w else None)"

text \<open>A chunk leaves room for a wanted text when the two together fit the scan window.\<close>

definition leaves_room :: "utext option \<Rightarrow> nat \<Rightarrow> bool" where
  "leaves_room wanted n \<longleftrightarrow> (case wanted of None \<Rightarrow> True | Some w \<Rightarrow> n + length w \<le> max_memory_tail_chars)"

lemma scan_match_found:
  assumes "leaves_room wanted n" "length t \<le> n + 1"
  shows "scan_match wanted (found_in wanted xs) (last_n max_memory_tail_chars (xs @ t)) = found_in wanted (xs @ t)"
proof (cases wanted)
  case (Some w)
  have "length t + length w \<le> max_memory_tail_chars + 1" using assms Some by (simp add: leaves_room_def)
  then show ?thesis
    using occurs_in_window [of t w max_memory_tail_chars xs] Some by (simp add: scan_match_def found_in_def)
qed (simp add: scan_match_def found_in_def)

lemma scan_match_found':
  assumes "leaves_room wanted n" "length t \<le> n + 1"
  shows "(if t = [] then found_in wanted xs
    else scan_match wanted (found_in wanted xs) (last_n max_memory_tail_chars (last_n max_memory_tail_chars xs @ t))) = found_in wanted (xs @ t)"
  using scan_match_found [OF assms] by (simp add: last_n_append)

definition matched :: "utext option \<Rightarrow> utext option \<Rightarrow> utext \<Rightarrow> output_tracker \<Rightarrow> bool" where
  "matched sc fc t tr \<longleftrightarrow> success_match tr = found_in sc t \<and> failure_match tr = found_in fc t"

lemma drain_chunk_matched:
  assumes d: "drained mx sc fc str d" and m: "matched sc fc (snd (utf8_feed Idle str)) (tracker d)"
    and room: "leaves_room sc (length c)" "leaves_room fc (length c)"
  shows "matched sc fc (snd (utf8_feed Idle (str @ c))) (tracker (drain_chunk (now, c) d))"
proof -
  obtain s t where f: "utf8_feed Idle str = (s, t)" by fastforce
  obtain s' t' where f': "utf8_feed s c = (s', t')" by fastforce
  have "length t' \<le> length c + opened s" using utf8_feed_length [of s c] f' by simp
  then have len: "length t' \<le> length c + 1" by (cases s) (auto simp: opened_def)
  have keep: "\<not> suppress_output (tracker d)" and dec: "decoder d = s"
    and sc: "success_contains (tracker d) = sc" "failure_contains (tracker d) = fc"
    and scan: "scan_text (tracker d) = last_n max_memory_tail_chars t"
    using d f by (simp_all add: drained_def)
  obtain bw lt where tr: "tracker (drain_chunk (now, c) d) =
      (feed_text now t' (length c) (tracker d))\<lparr>bytes_written := bw, log_truncated := lt\<rparr>"
    using drain_chunk_parts(3) [OF keep, of now c] dec f' by auto
  have m': "success_match (tracker d) = found_in sc t" "failure_match (tracker d) = found_in fc t"
    using m f by (simp_all add: matched_def)
  have "success_match (tracker (drain_chunk (now, c) d)) = found_in sc (t @ t')"
    "failure_match (tracker (drain_chunk (now, c) d)) = found_in fc (t @ t')"
    unfolding scan_match_found' [OF room(1) len, symmetric] scan_match_found' [OF room(2) len, symmetric]
    by (simp_all add: tr feed_text_kept [OF keep] m' scan sc)
  then show ?thesis by (simp add: matched_def utf8_feed_append f f')
qed

lemma drain_fold_matched:
  assumes "drained mx sc fc str d" "matched sc fc (snd (utf8_feed Idle str)) (tracker d)"
    and "\<forall>c \<in> set (map snd cs). leaves_room sc (length c) \<and> leaves_room fc (length c)"
  shows "matched sc fc (snd (utf8_feed Idle (str @ concat (map snd cs)))) (tracker (fold drain_chunk cs d))"
  using assms
proof (induction cs arbitrary: str d)
  case (Cons ch cs)
  have "matched sc fc (snd (utf8_feed Idle (str @ snd ch))) (tracker (drain_chunk ch d))"
    using drain_chunk_matched [OF Cons.prems(1,2), of "snd ch" "fst ch"] Cons.prems(3) by simp
  with Cons.IH [OF drain_chunk_drained [OF Cons.prems(1), of "snd ch" "fst ch"]] Cons.prems(3)
  show ?case by simp
qed simp

text \<open>
  When every chunk leaves room for the wanted texts in the 65536 characters that are
  scanned, a wanted text is reported exactly when it occurs in the decoded stream, wherever
  the chunks cut it.
\<close>

theorem match_complete:
  assumes "\<forall>c \<in> set (map snd chunks). leaves_room sc (length c) \<and> leaves_room fc (length c)"
    and "leaves_room sc 0" "leaves_room fc 0"
  shows "let d = drain_output chunks fin (new_tracker mx sc fc t0 False); t = utf8_decode (concat (map snd chunks)) in
    success_match (tracker d) = found_in sc t \<and> failure_match (tracker d) = found_in fc t"
proof -
  let ?str = "concat (map snd chunks)"
  define d where "d = fold drain_chunk chunks \<lparr>dlog = [], decoder = Idle, tracker = new_tracker mx sc fc t0 False\<rparr>"
  have D: "drained mx sc fc ?str d" using drain_fold [OF drained_start] by (simp add: d_def)
  have start: "matched sc fc [] (new_tracker mx sc fc t0 False)"
    by (auto simp: matched_def new_tracker_def found_in_def split: option.splits)
  have M: "matched sc fc (snd (utf8_feed Idle ?str)) (tracker d)"
    using drain_fold_matched [OF drained_start _ assms(1)] start by (simp add: d_def)
  obtain s t where f: "utf8_feed Idle ?str = (s, t)" by fastforce
  have len: "length (utf8_final s) \<le> 0 + 1" by (cases s) simp_all
  have keep: "\<not> suppress_output (tracker d)" and dec: "decoder d = s"
    and sc: "success_contains (tracker d) = sc" "failure_contains (tracker d) = fc"
    and scan: "scan_text (tracker d) = last_n max_memory_tail_chars t"
    using D f by (simp_all add: drained_def)
  have m: "success_match (tracker d) = found_in sc t" "failure_match (tracker d) = found_in fc t"
    using M f by (simp_all add: matched_def)
  have "matched sc fc (t @ utf8_final s) (tracker (drain_finish fin d))"
    unfolding matched_def scan_match_found' [OF assms(2) len, symmetric] scan_match_found' [OF assms(3) len, symmetric]
    by (simp add: drain_finish_def Let_def keep dec feed_text_kept [OF keep] sc scan m)
  then show ?thesis by (simp add: drain_output_def d_def [symmetric] matched_def utf8_decode_def f Let_def)
qed

theorem match_complete_witness:
  "success_match (tracker (drain_output [(0, [0x44, 0x4F]), (1, [0x4E, 0x45, 0x0A])] 2
     (new_tracker 100 (Some [0x44, 0x4F, 0x4E, 0x45]) None 0 False))) = Some [0x44, 0x4F, 0x4E, 0x45]"
proof -
  have "utf8_decode [0x44, 0x4F, 0x4E, 0x45, 0x0A] = [0x44, 0x4F, 0x4E, 0x45, 0x0A]" by code_simp
  then show ?thesis
    using match_complete [of "[(0, [0x44, 0x4F]), (1, [0x4E, 0x45, 0x0A])]" "Some [0x44, 0x4F, 0x4E, 0x45]" None 2 100 0]
    by (simp add: leaves_room_def max_memory_tail_chars_def found_in_def Let_def)
qed

text \<open>A chunk that fills the window, after a chunk with one character.\<close>

lemma window_filled:
  assumes n: "Suc n = max_memory_tail_chars" and d: "d = drain_output [(0, [0x45]), (0, 0x52 # replicate n 0x20)] 0
      (new_tracker 1000000 None (Some [0x45, 0x52]) 0 False)"
  shows "failure_match (tracker d) = None" "success_contains (tracker d) = None"
proof -
  let ?c = "(0x52::int) # replicate n 0x20"
  note [simp del] = utf8_feed.simps(2)
  have f1: "utf8_feed Idle [0x45] = (Idle, [0x45])" and f2: "utf8_feed Idle ?c = (Idle, ?c)"
    by (rule utf8_feed_ascii, simp)+
  let ?sc = "None :: utext option" and ?fc = "Some [0x45, 0x52] :: utext option"
  let ?d0 = "\<lparr>dlog = [], decoder = Idle, tracker = new_tracker 1000000 ?sc ?fc 0 False\<rparr>"
  let ?d1 = "drain_chunk (0, [0x45]) ?d0" and ?d2 = "drain_chunk (0, ?c) (drain_chunk (0, [0x45]) ?d0)"
  have D1: "drained 1000000 ?sc ?fc [0x45] ?d1" using drain_chunk_drained [OF drained_start] by fastforce
  have D2: "drained 1000000 ?sc ?fc ([0x45] @ ?c) ?d2" by (rule drain_chunk_drained [OF D1])
  have keep: "\<not> suppress_output (tracker ?d0)" "\<not> suppress_output (tracker ?d1)"
    by (simp add: new_tracker_def) (use D1 in \<open>unfold drained_def, blast\<close>)
  have win: "last_n max_memory_tail_chars ([0x45] @ ?c) = ?c" "last_n max_memory_tail_chars [0x45::int] = [0x45]"
    using n by (simp_all add: last_n_def)
  have none: "\<not> occurs_in [0x45, 0x52] ?c" using occurs_in_set [of "[0x45, 0x52]" ?c] by auto
  have "failure_match (tracker ?d1) = None"
    using drain_chunk_parts(3) [OF keep(1), of 0 "[0x45]"] f1 feed_text_kept(4) [OF keep(1)] win(2)
    by (auto simp: new_tracker_def scan_match_def)
  moreover have "scan_text (tracker ?d1) = [0x45]" "decoder ?d1 = Idle" "failure_contains (tracker ?d1) = Some [0x45, 0x52]"
    using D1 f1 win(2) by (simp_all add: drained_def)
  ultimately have "failure_match (tracker ?d2) = None"
    using drain_chunk_parts(3) [OF keep(2), of 0 ?c] f2 feed_text_kept(4) [OF keep(2)] win(1) none
    by (auto simp: scan_match_def)
  moreover have "decoder ?d2 = Idle" using drain_chunk_parts(2) [OF keep(2), of 0 ?c] f2 \<open>decoder ?d1 = Idle\<close> by simp
  then have "drain_finish 0 ?d2 = ?d2" by (simp add: drain_finish_def)
  moreover have "success_contains (tracker ?d2) = None" using D2 by (simp add: drained_def)
  ultimately show "failure_match (tracker d) = None" "success_contains (tracker d) = None"
    unfolding d drain_output_def by (simp_all del: append_Cons)
qed

text \<open>
  C35. A chunk of the full 65536 bytes pushes everything before it out of the scanned
  characters: a failure text cut by the boundary before such a chunk is not seen, and a
  command that exits with 0 is reported as succeeded although its output contains the text.
\<close>

theorem boundary_match_missed:
  "\<exists>chunks d. d = drain_output chunks 0 (new_tracker 1000000 None (Some [0x45, 0x52]) 0 False)
     \<and> list_all (\<lambda>(_, c). length c \<le> 64 * 1024) chunks
     \<and> occurs_in [0x45, 0x52] (utf8_decode (concat (map snd chunks)))
     \<and> result_state None (Some 0) (tracker d) = Succeeded"
proof -
  obtain n where n: "Suc n = max_memory_tail_chars" using that [of 65535] by (simp add: max_memory_tail_chars_def)
  let ?cs = "[(0, [0x45]), (0, 0x52 # replicate n 0x20)]"
  have f: "utf8_feed Idle (0x45 # 0x52 # replicate n 0x20) = (Idle, 0x45 # 0x52 # replicate n 0x20)"
    by (rule utf8_feed_ascii) simp
  have "utf8_decode (concat (map snd ?cs)) = 0x45 # 0x52 # replicate n 0x20"
    using f by (simp add: utf8_decode_def del: utf8_feed.simps)
  then have "occurs_in [0x45, 0x52] (utf8_decode (concat (map snd ?cs)))" by simp
  moreover have "list_all (\<lambda>(_, c). length c \<le> 64 * 1024) ?cs" using n by (simp add: max_memory_tail_chars_def)
  ultimately show ?thesis using window_filled [OF n refl] by (intro exI [of _ ?cs]) (simp add: result_state_def)
qed


section \<open>The waiting loop\<close>

lemma bump_ge: "nxt \<le> bump interval nxt now"
proof (induction interval nxt now rule: bump.induct)
  case (1 interval nxt now)
  show ?case
  proof (cases "interval < 1 \<or> now < nxt")
    case True
    then show ?thesis by (simp add: bump.simps [of interval nxt now])
  next
    case False
    have "nxt \<le> nxt + of_int interval" using False by simp
    then show ?thesis using 1 False by (simp add: bump.simps [of interval nxt now])
  qed
qed

text \<open>
  The observations are honest when the clock respects the turns: a sleep takes at least its
  time, a report does not end before it starts.
\<close>

fun honest :: "int \<Rightarrow> clock \<Rightarrow> int \<Rightarrow> int \<Rightarrow> observation list \<Rightarrow> wait_state \<Rightarrow> bool" where
  "honest interval started timeout no_output (ob # ob' # obs) w =
     (case wait_turn interval started timeout no_output ob w of
        (w', Slept dt) \<Rightarrow> o_now ob + dt \<le> o_now ob' \<and> honest interval started timeout no_output (ob' # obs) w'
      | (w', Reporting) \<Rightarrow> o_now ob \<le> o_now ob' \<and> honest interval started timeout no_output (ob' # obs) w'
      | _ \<Rightarrow> True)"
| "honest _ _ _ _ _ _ = True"

text \<open>How many more turns the loop can take.\<close>

definition turns_left :: "clock \<Rightarrow> clock \<Rightarrow> wait_state \<Rightarrow> nat" where
  "turns_left deadline now w = nat \<lceil>20 * (deadline - now)\<rceil>
     + (case next_heartbeat w of None \<Rightarrow> 0 | Some h \<Rightarrow> nat \<lceil>deadline - h\<rceil> + 1)"

lemma ceiling_step:
  assumes "x + 1 \<le> (y::rat)" "0 < y"
  shows "nat \<lceil>x\<rceil> < nat \<lceil>y\<rceil>"
proof -
  have "\<lceil>x\<rceil> + 1 \<le> \<lceil>y\<rceil>" using assms(1) by (metis ceiling_add_one ceiling_mono)
  moreover have "0 < \<lceil>y\<rceil>" using assms(2) by simp
  ultimately show ?thesis by simp
qed

lemma sleep_at_least: "1 / 20 \<le> sleep_for d now"
  by (simp add: sleep_for_def)

lemma slept_turn:
  assumes t: "wait_turn interval started timeout no_output ob w = (w', Slept dt)" and n: "o_now ob + dt \<le> now'"
  shows "turns_left (started + of_int timeout) now' w' < turns_left (started + of_int timeout) (o_now ob) w"
proof -
  have w: "w' = w" and now: "o_now ob < started + of_int timeout" and dt: "1 / 20 \<le> dt"
    using t sleep_at_least by (auto simp: wait_turn_def Let_def split: if_splits report_outcome.splits)
  have "20 * (started + of_int timeout - now') + 1 \<le> 20 * (started + of_int timeout - o_now ob)" using n dt by simp
  from ceiling_step [OF this] now show ?thesis by (simp add: turns_left_def w)
qed

lemma reporting_turn:
  assumes t: "wait_turn interval started timeout no_output ob w = (w', Reporting)" and n: "o_now ob \<le> now'" and i: "1 \<le> interval"
  shows "turns_left (started + of_int timeout) now' w' < turns_left (started + of_int timeout) (o_now ob) w"
proof -
  let ?D = "started + of_int timeout"
  obtain h where h: "next_heartbeat w = Some h" "h \<le> o_now ob" and now: "o_now ob < ?D"
    using t by (auto simp: wait_turn_def Let_def split: if_splits report_outcome.splits option.splits)
  have less: "nat \<lceil>20 * (?D - now')\<rceil> \<le> nat \<lceil>20 * (?D - o_now ob)\<rceil>" using n by (intro nat_mono ceiling_mono) simp
  have "next_heartbeat w' = None \<or> next_heartbeat w' = Some (bump interval (h + of_int interval) (o_after ob))"
    using t h by (auto simp: wait_turn_def Let_def split: if_splits report_outcome.splits)
  then show ?thesis
  proof
    assume "next_heartbeat w' = None"
    then show ?thesis using less h by (simp add: turns_left_def)
  next
    let ?h = "bump interval (h + of_int interval) (o_after ob)"
    assume w: "next_heartbeat w' = Some ?h"
    have "h + 1 \<le> ?h" using bump_ge [of "h + of_int interval" interval "o_after ob"] i by (simp add: order_trans [of "h + 1" "h + of_int interval"])
    then have "?D - ?h + 1 \<le> ?D - h" by simp
    from ceiling_step [OF this] have "nat \<lceil>?D - ?h\<rceil> < nat \<lceil>?D - h\<rceil>" using h now by simp
    then show ?thesis using less unfolding turns_left_def w h(1) option.case by linarith
  qed
qed

lemma wait_ends:
  assumes i: "1 \<le> interval"
  shows "honest interval started timeout no_output obs w \<Longrightarrow> obs \<noteq> [] \<Longrightarrow>
    turns_left (started + of_int timeout) (o_now (hd obs)) w < length obs \<Longrightarrow>
    wait_with_limits interval started timeout no_output obs w \<noteq> None"
proof (induction obs arbitrary: w)
  case (Cons ob obs)
  obtain w' r where t: "wait_turn interval started timeout no_output ob w = (w', r)" by fastforce
  show ?case
  proof (cases "\<exists>x. r = Returned x \<or> r = Cancelled")
    case True
    then show ?thesis using t by auto
  next
    case False
    then have r: "(\<exists>dt. r = Slept dt) \<or> r = Reporting" by (cases r) auto
    have "0 < turns_left (started + of_int timeout) (o_now ob) w"
      using r slept_turn [of interval started timeout no_output ob w w'] reporting_turn [OF _ order_refl i] t
      by (metis gr_zeroI not_less_zero order_refl)
    then obtain ob' rest where obs: "obs = ob' # rest" using Cons.prems(3) by (cases obs) auto
    have "turns_left (started + of_int timeout) (o_now ob') w' < turns_left (started + of_int timeout) (o_now ob) w"
      and h: "honest interval started timeout no_output obs w'"
      using r slept_turn [of interval started timeout no_output ob w w'] reporting_turn [OF _ _ i, of started timeout no_output ob w w'] t Cons.prems(1) obs
      by auto
    then have "wait_with_limits interval started timeout no_output obs w' \<noteq> None"
      using Cons.IH [OF h] Cons.prems(3) obs by simp
    then show ?thesis using t r by auto
  qed
qed simp

text \<open>
  C34. The waiting loop ends: whatever the process, its output and the progress reports do,
  if the clock respects the sleeps, the loop has returned a verdict (or was cancelled)
  after at most \<open>21 * timeout_sec + 2\<close> turns.
\<close>

theorem wait_terminates:
  assumes "1 \<le> interval" "0 \<le> heartbeat_initial" "0 \<le> timeout"
    and "honest interval started timeout no_output obs (wait_start heartbeat_initial started reporter)"
    and "obs \<noteq> []" "started \<le> o_now (hd obs)" "21 * timeout + 2 \<le> int (length obs)"
  shows "\<exists>w r. wait_with_limits interval started timeout no_output obs (wait_start heartbeat_initial started reporter) = Some (w, r)
    \<and> (\<forall>dt. r \<noteq> Slept dt) \<and> r \<noteq> Reporting"
proof -
  let ?w = "wait_start heartbeat_initial started reporter"
  have "\<lceil>20 * (started + of_int timeout - o_now (hd obs))\<rceil> \<le> \<lceil>of_int (20 * timeout) :: rat\<rceil>"
    using assms(6) by (intro ceiling_mono) simp
  then have a: "\<lceil>20 * (started + of_int timeout - o_now (hd obs))\<rceil> \<le> 20 * timeout" by (simp only: ceiling_of_int)
  have b: "(case next_heartbeat ?w of None \<Rightarrow> 0 | Some h \<Rightarrow> nat \<lceil>started + of_int timeout - h\<rceil> + 1) \<le> nat timeout + 1"
  proof -
    have "\<lceil>started + of_int timeout - (started + of_int heartbeat_initial)\<rceil> \<le> \<lceil>of_int timeout :: rat\<rceil>"
      using assms(2) by (intro ceiling_mono) auto
    then have "nat \<lceil>started + of_int timeout - (started + of_int heartbeat_initial)\<rceil> \<le> nat timeout" by (simp only: ceiling_of_int nat_mono)
    then show ?thesis by (simp add: wait_start_def)
  qed
  have "turns_left (started + of_int timeout) (o_now (hd obs)) ?w < length obs"
    using a b assms(3,7) unfolding turns_left_def by linarith
  then have "wait_with_limits interval started timeout no_output obs ?w \<noteq> None"
    using wait_ends assms(1,4,5) by blast
  moreover have "wait_with_limits interval started timeout no_output obs w = Some (w', r) \<Longrightarrow> (\<forall>dt. r \<noteq> Slept dt) \<and> r \<noteq> Reporting" for w w' r
    by (induction obs arbitrary: w) (auto split: prod.splits turn.splits)
  ultimately show ?thesis by fastforce
qed


definition demo_observations :: "observation list" where
  "demo_observations = map (\<lambda>i. \<lparr>exited = False, o_now = of_nat i, o_last_output = 0, o_bytes_seen = 0,
     o_report = Reported, o_after = of_nat i\<rparr>) [0..<23]"

theorem wait_terminates_witness:
  "\<exists>w r. wait_with_limits 900 0 1 0 demo_observations (wait_start 0 0 False) = Some (w, r)"
proof -
  have "honest 900 0 1 0 demo_observations (wait_start 0 0 False)"
    "demo_observations \<noteq> []" "0 \<le> o_now (hd demo_observations)" "length demo_observations = 23"
    by code_simp+
  then show ?thesis using wait_terminates [of 900 0 1 0 0 demo_observations False] by auto
qed

section \<open>The bounded tail\<close>

lemma length_utf8_char: "length (utf8_char c) \<le> 4" "utf8_char c \<noteq> []"
  by (simp_all add: utf8_char_def)

lemma utf8_char_tail:
  assumes "scalar c" "b \<in> set (tl (utf8_char c))"
  shows "0x80 \<le> b \<and> b < 0xC0"
  using assms by (auto simp: utf8_char_def split: if_splits)

lemma encode_Cons: "utf8_encode (c # t) = utf8_encode [c] @ utf8_encode t"
  by (simp add: utf8_encode_def)

lemma encode_append: "utf8_encode (s @ t) = utf8_encode s @ utf8_encode t"
  by (simp add: utf8_encode_def)

lemma encode_one: "scalar c \<Longrightarrow> utf8_encode [c] = utf8_char c"
  by (simp add: utf8_encode_def scalar_def)

lemma continuation_feed:
  "\<forall>b \<in> set bs. 0x80 \<le> b \<and> b < 0xC0 \<Longrightarrow> utf8_feed Idle bs = (Idle, replicate (length bs) replacement)"
  by (induction bs) (auto simp: utf8_first_def)

text \<open>A suffix of encoded text: at most three bytes of a cut character, then whole characters.\<close>

lemma cut_suffix:
  "\<forall>c \<in> set t. scalar c \<Longrightarrow> n \<le> length (utf8_encode t) \<Longrightarrow>
   \<exists>cut rest. drop n (utf8_encode t) = cut @ utf8_encode rest \<and> length cut \<le> 3
     \<and> (\<forall>b \<in> set cut. 0x80 \<le> b \<and> b < 0xC0) \<and> (\<forall>c \<in> set rest. scalar c)"
proof (induction t arbitrary: n)
  case Nil
  then show ?case by (intro exI [of _ "[]"]) (simp add: utf8_encode_def)
next
  case (Cons c t)
  have c: "scalar c" "utf8_encode [c] = utf8_char c" using Cons.prems(1) encode_one by auto
  consider "n = 0" | "0 < n" "n < length (utf8_char c)" | "length (utf8_char c) \<le> n" by linarith
  then show ?case
  proof cases
    case 1
    then show ?thesis using Cons.prems(1) by (intro exI [of _ "[]"] exI [of _ "c # t"]) simp
  next
    case 2
    have "set (drop n (utf8_char c)) \<subseteq> set (tl (utf8_char c))"
      using 2 by (metis Suc_pred drop_Suc set_drop_subset)
    moreover have "length (drop n (utf8_char c)) \<le> 3" using 2 length_utf8_char(1) [of c] by simp
    ultimately show ?thesis
      using 2 Cons.prems(1) c utf8_char_tail [OF c(1)] encode_Cons [of c t]
      by (intro exI [of _ "drop n (utf8_char c)"] exI [of _ t]) auto
  next
    case 3
    have "drop n (utf8_encode (c # t)) = drop (n - length (utf8_char c)) (utf8_encode t)"
      using 3 c encode_Cons [of c t] by simp
    moreover have "n - length (utf8_char c) \<le> length (utf8_encode t)" using Cons.prems(2) c encode_Cons [of c t] by simp
    ultimately show ?thesis using Cons.IH [of "n - length (utf8_char c)"] Cons.prems(1) by simp
  qed
qed

lemma cut_decode:
  assumes "\<forall>c \<in> set t. scalar c" "length (utf8_encode t) > n"
  shows "length (utf8_encode (utf8_decode (last_n n (utf8_encode t)))) \<le> n + 6"
proof -
  obtain cut rest where cut: "last_n n (utf8_encode t) = cut @ utf8_encode rest" "length cut \<le> 3"
      "\<forall>b \<in> set cut. 0x80 \<le> b \<and> b < 0xC0" "\<forall>c \<in> set rest. scalar c"
    using cut_suffix [OF assms(1), of "length (utf8_encode t) - n"] unfolding last_n_def by auto
  have "utf8_decode (cut @ utf8_encode rest) = replicate (length cut) replacement @ rest"
    by (simp add: utf8_decode_def utf8_feed_append continuation_feed [OF cut(3)] utf8_encode_feed [OF cut(4)])
  moreover have "length (utf8_encode (replicate k replacement)) = 3 * k" for k
    by (induction k) (simp_all add: utf8_encode_def surrogate_def replacement_def utf8_char_def)
  moreover have "n = length cut + length (utf8_encode rest)"
    using arg_cong [OF cut(1), of length] assms(2) by simp
  ultimately show ?thesis using cut(1,2) by (simp add: encode_append)
qed

lemma after_newline_le: "length (utf8_encode (after_newline t)) \<le> length (utf8_encode t)"
proof -
  have "\<exists>a. t = a @ after_newline t"
  proof (cases "0x0A \<in> set t")
    case True
    then have "dropWhile (\<lambda>c. c \<noteq> 0x0A) t = 0x0A # after_newline t"
      by (metis (mono_tags, lifting) after_newline_def dropWhile_eq_Nil_conv hd_Cons_tl hd_dropWhile)
    then have "t = (takeWhile (\<lambda>c. c \<noteq> 0x0A) t @ [0x0A]) @ after_newline t"
      by (metis append.assoc append_Cons append_Nil takeWhile_dropWhile_id)
    then show ?thesis by blast
  qed (simp add: after_newline_def)
  then obtain a where "t = a @ after_newline t" by blast
  then show ?thesis by (metis encode_append le_add2 length_append)
qed

definition lines_size :: "utext list \<Rightarrow> nat" where
  "lines_size ls = sum_list (map (\<lambda>l. length (utf8_encode l) + 1) ls)"

lemma encode_char_pos: "1 \<le> length (utf8_encode [c])"
  using length_utf8_char(2) [of c] by (simp add: utf8_encode_def Suc_leI)

lemma splitlines_size: "lines_size (splitlines_from cur t) \<le> length (utf8_encode cur) + length (utf8_encode t) + 1"
proof (induction cur t rule: splitlines_from.induct)
  case (1 cur)
  then show ?case by (simp add: lines_size_def utf8_encode_def)
next
  case (2 cur c)
  then show ?case using encode_char_pos [of c] by (simp add: lines_size_def encode_append)
next
  case (3 cur c d cs)
  have e: "length (utf8_encode (c # d # cs)) = length (utf8_encode [c]) + length (utf8_encode [d]) + length (utf8_encode cs)"
    "length (utf8_encode (d # cs)) = length (utf8_encode [d]) + length (utf8_encode cs)"
    by (metis encode_Cons length_append add.assoc)+
  have z: "length (utf8_encode []) = 0" by (simp add: utf8_encode_def)
  consider "c = 0x0D \<and> d = 0x0A" | "\<not> (c = 0x0D \<and> d = 0x0A)" "line_break c" | "\<not> (c = 0x0D \<and> d = 0x0A)" "\<not> line_break c" by blast
  then show ?case
  proof cases
    case 1
    then show ?thesis using 3(1) z e encode_char_pos [of c] encode_char_pos [of d] by (simp add: lines_size_def)
  next
    case 2
    then show ?thesis using 3(2) z e encode_char_pos [of c] by (auto simp: lines_size_def)
  next
    case c: 3
    then show ?thesis using 3(3) e by (auto simp: encode_append)
  qed
qed

lemma join_size: "length (utf8_encode (join_lines ls)) \<le> lines_size ls - 1"
proof (induction ls rule: join_lines.induct)
  case (3 l k ls)
  have "1 \<le> lines_size (k # ls)" by (simp add: lines_size_def)
  moreover have "length (utf8_encode (0x0A # t)) = Suc (length (utf8_encode t))" for t
    by (simp add: utf8_encode_def surrogate_def utf8_char_def)
  ultimately show ?case using 3 by (simp add: encode_append lines_size_def)
qed (simp_all add: lines_size_def utf8_encode_def)

lemma last_lines_size: "lines_size (last_n n ls) \<le> lines_size ls"
proof -
  have "lines_size ls = lines_size (take (length ls - n) ls) + lines_size (last_n n ls)"
    unfolding lines_size_def last_n_def by (metis append_take_drop_id map_append sum_list_append)
  then show ?thesis by simp
qed

text \<open>
  The returned tail is bounded: it consists of at most \<open>max_lines\<close> lines, and its
  UTF-8 encoding is at most \<open>max_bytes + 6\<close> bytes long. The six bytes are needed: a
  character cut by the byte limit is decoded to up to three replacement characters of three
  bytes each.
\<close>

theorem tail_bounded:
  assumes "\<forall>c \<in> set t. scalar c"
  shows "length (utf8_encode (limit_tail t max_lines max_bytes)) \<le> max_bytes + 6
    \<and> (\<exists>ls. limit_tail t max_lines max_bytes = join_lines ls \<and> length ls \<le> max_lines)"
proof -
  define t' where "t' = (if length (utf8_encode t) > max_bytes then after_newline (utf8_decode (last_n max_bytes (utf8_encode t))) else t)"
  have r: "limit_tail t max_lines max_bytes = (if max_lines = 0 then [] else join_lines (last_n max_lines (splitlines t')))"
    by (simp add: limit_tail_def t'_def Let_def)
  have "length (utf8_encode t') \<le> max_bytes + 6"
    using cut_decode [OF assms, of max_bytes] after_newline_le [of "utf8_decode (last_n max_bytes (utf8_encode t))"]
    by (auto simp: t'_def)
  moreover have "lines_size (splitlines t') \<le> length (utf8_encode t') + 1"
    using splitlines_size [of "[]" t'] by (simp add: splitlines_def utf8_encode_def)
  ultimately have "length (utf8_encode (limit_tail t max_lines max_bytes)) \<le> max_bytes + 6"
    using join_size [of "last_n max_lines (splitlines t')"] last_lines_size [of max_lines "splitlines t'"]
    by (auto simp: r utf8_encode_def)
  moreover have "\<exists>ls. limit_tail t max_lines max_bytes = join_lines ls \<and> length ls \<le> max_lines"
    unfolding r by (cases "max_lines = 0") (auto intro: exI [of _ "[]"] exI [of _ "last_n max_lines (splitlines t')"])
  ultimately show ?thesis by blast
qed

theorem tail_bounded_witness:
  "length (utf8_encode (limit_tail [0x1F600, 0x61] 80 4)) = 10 \<and> length (utf8_encode (limit_tail [0x1F600, 0x61] 80 4)) \<le> 4 + 6"
proof -
  have "length (utf8_encode (limit_tail [0x1F600, 0x61] 80 4)) = 10" by code_simp
  then show ?thesis using tail_bounded [of "[0x1F600, 0x61]" 80 4] by (simp add: scalar_def surrogate_def)
qed

end
