(* ===== verification/Job_Run_Claims.thy ===== *)
theory Job_Run_Claims
  imports Job_Run Job_Store_Claims Secret_Claims Job_Output_Claims
begin

text \<open>
  Properties of a run: it leaves a terminal record and no open descriptor, the last write
  keeps what others recorded, a job with secret input stores nothing that depends on its
  output, and a cancellation while the subprocess is being created or terminated is the one way
  to leave an active record behind.
\<close>

section \<open>Fields of the records\<close>

lemma jfield_dump: "jfield ''state'' (model_dump r) = JStr (run_state_str (rr_state r))"
  by (simp add: model_dump_def jfield_def)

lemma run_state_terminal: "run_state_str s \<in> set terminal_job_states"
  by (cases s) (simp_all add: run_state_str_def terminal_job_states_def)

lemma jfield_update_other:
  "k \<notin> fst ` set new \<Longrightarrow> jfield k (dict_update new kvs) = jfield k kvs"
  by (simp add: jfield_dict_update map_of_eq_None_iff [THEN iffD2])

text \<open>A job is settled when its metadata is a JSON object with a terminal state.\<close>

definition settled_job :: "string \<Rightarrow> server_state \<Rightarrow> bool" where
  "settled_job job_id st \<longleftrightarrow> (\<exists>kvs. meta_get job_id st = Some (Meta (JObj kvs))
     \<and> jfield ''state'' kvs \<in> JStr ` set terminal_job_states)"

lemma settled_put: "jfield ''state'' kvs \<in> JStr ` set terminal_job_states \<Longrightarrow> settled_job job_id (meta_put job_id kvs st)"
  by (simp add: settled_job_def jf.get_put)

lemma settled_dump:
  "''state'' \<notin> fst ` set wake \<Longrightarrow> settled_job job_id (meta_put job_id (dict_update wake (model_dump r)) st)"
  using run_state_terminal by (simp add: settled_put jfield_update_other jfield_dump)

lemma settled_update:
  assumes "settled_job job_id st" "''state'' \<notin> fst ` set new"
  shows "settled_job job_id (fst (update_job_metadata ph job_id new st))"
  using assms by (auto simp: update_job_metadata_def current_payload_def settled_job_def jf.get_put jfield_update_other)

text \<open>Delivering the terminal event touches the wake fields only.\<close>

lemma settled_deliver:
  assumes "settled_job job_id st"
  shows "settled_job job_id (fst (deliver_terminal_wakeup h ph cfg ask job_id reg st))"
proof -
  have u: "settled_job job_id (fst (update_job_metadata ph job_id new st))" if "''state'' \<notin> fst ` set new" for new
    using settled_update [OF assms that] .
  show ?thesis
    unfolding deliver_terminal_wakeup_def Let_def
    using assms u
    by (auto split: sum.splits pyexc.splits intro!: u)
qed

lemma final_state:
  assumes "''state'' \<notin> fst ` set wake"
  shows "jfield ''state'' (final_metadata ph job_id r ws initial wake current) = JStr (run_state_str (rr_state r))"
proof -
  have "''state'' \<notin> fst ` set (map (\<lambda>k. (k, jget k current)) (filter (\<lambda>k. jhas k current) kept_wake_keys))"
    by (auto simp: kept_wake_keys_def)
  then show ?thesis
    using assms by (auto simp: final_metadata_def Let_def jfield_update_other jfield_dict_set jfield_dump)
qed

lemma cancelled_state:
  assumes "''state'' \<notin> fst ` set wake"
  shows "jfield ''state'' (cancelled_metadata ph w job_id tr initial wake) = JStr ''cancelled''"
    "jfield ''state'' (startup_cancelled_metadata w initial wake) = JStr ''cancelled''"
  unfolding cancelled_metadata_def startup_cancelled_metadata_def jfield_update_other [OF assms]
  by (simp_all add: jfield_dict_update)

lemma cancelled_terminal: "JStr ''cancelled'' \<in> JStr ` set terminal_job_states"
  by (simp add: terminal_job_states_def)

lemma settled_launched:
  assumes "run_launched ph cfg w job_id rq v wake pid pgid initial jw = (jw', Some x)" "''state'' \<notin> fst ` set wake"
    and end_ok: "w_terminate w \<noteq> Some CancelledError"
  shows "(settled_job job_id (store jw') \<or> (\<exists>e. x = Inl e \<and> e \<noteq> CancelledError)) \<and> sfs jw' = sfs jw"
proof (cases "supervise cfg w rq")
  case (Phase_done ws stop)
  then show ?thesis
    using assms run_state_terminal
    by (auto simp: run_launched_def Let_def finish_job_def settled_put final_state)
next
  case Phase_cancelled
  then show ?thesis
    using assms cancelled_terminal
    by (cases "w_terminate w") (auto simp: run_launched_def terminated_def Let_def cancelled_state intro!: settled_put)
next
  case (Phase_raised e)
  then show ?thesis
    using assms
    by (cases "w_terminate w") (auto simp: run_launched_def terminated_def Let_def settle_some_def settle_job_def intro: settled_dump)
next
  case Phase_running
  then show ?thesis using assms by (simp add: run_launched_def Let_def)
qed

section \<open>Descriptors\<close>

text \<open>A claimed secret is one descriptor; closing it gives the table back.\<close>

lemma claim_job_secret_effect:
  assumes c: "claimable (w_kernel w) fs" and r: "claim_job_secret cfg w v fs = (fs', r)"
  shows "case r of Inl _ \<Rightarrow> fds fs' = fds fs
    | Inr fd \<Rightarrow> fds (close_opt fd fs') = fds fs \<and> (\<forall>f. fd = Some f \<longrightarrow> fds fs f = None)"
proof (cases "v_pair v")
  case (Some kvs)
  obtain fs1 r1 where p: "claim_secret_pair (w_kernel w) (w_time w) (secret_ttl_sec cfg) (nat (max_stdin_secret_bytes cfg)) kvs fs = (fs1, r1)"
    by fastforce
  note E = pair_effect [OF c p]
  show ?thesis
  proof (cases r1)
    case (Inl e)
    then show ?thesis using r p Some E by (auto simp: claim_job_secret_def)
  next
    case (Inr fd)
    then obtain m where "fds fs fd = None" "fds fs1 = (fds fs)(fd \<mapsto> m)" using E by auto
    then show ?thesis using r p Some Inr by (auto simp: claim_job_secret_def close_opt_def close_fd_def fun_eq_iff)
  qed
next
  case None
  show ?thesis
  proof (cases "v_secret v")
    case None
    then show ?thesis using r \<open>v_pair v = None\<close> by (auto simp: claim_job_secret_def close_opt_def)
  next
    case (Some sid)
    obtain fs1 r1 where p: "claim_one_time_secret (w_kernel w) (w_time w) (secret_ttl_sec cfg) (max_stdin_secret_bytes cfg) sid fs = (fs1, r1)"
      by fastforce
    have f: "fd_fresh fs" "dirs_ok (w_kernel w) fs" using c by (simp_all add: claimable_def)
    show ?thesis
      using f p
    proof (cases rule: claim_cases)
      case (refused e)
      then show ?thesis using r p Some None by (auto simp: claim_job_secret_def)
    next
      case (taken i)
      have "fds fs (next_fd fs) = None" using f by (simp add: fd_fresh_def)
      moreover have "fds (close_fd (next_fd fs) fs1) = fds fs" using claim_effect(4) [OF f p taken(1)] .
      ultimately show ?thesis using r p Some None taken(1) by (auto simp: claim_job_secret_def close_opt_def)
    qed
  qed
qed

lemma claim_job_secret_fresh:
  assumes c: "claimable (w_kernel w) fs" and r: "claim_job_secret cfg w v fs = (fs', Inr fd)"
  shows "fd_fresh fs'"
proof (cases "v_pair v")
  case (Some kvs)
  then show ?thesis
    using r pair_fresh [OF c] by (auto simp: claim_job_secret_def and_then_def split: prod.splits sum.splits)
next
  case None
  have f: "fd_fresh fs" "dirs_ok (w_kernel w) fs" using c by (simp_all add: claimable_def)
  show ?thesis
    using r None f claim_effect(1) [OF f]
    by (auto simp: claim_job_secret_def and_then_def split: option.splits prod.splits sum.splits)
qed

text \<open>Every way through the launch, but the cancelled creation, closes what it opened.\<close>

lemma launch_closes:
  assumes f: "fd_fresh fs" and l: "launch_job w sfd fs = (fs', l)" and s: "w_spawn w \<noteq> Inl CancelledError"
  shows "fds fs' = fds (close_opt sfd fs)"
proof -
  have n: "fds fs (next_fd fs) = None" "fds fs (Suc (next_fd fs)) = None" using f by (simp_all add: fd_fresh_def)
  then have "((fds fs)(next_fd fs := None))(Suc (next_fd fs) := None) = fds fs" by auto
  then show ?thesis
    using l s n
    by (cases sfd; cases "w_spawn w")
      (auto simp: launch_job_def open_fd_def close_fd_def close_opt_def Let_def fun_eq_iff
        split: option.splits sum.splits pyexc.splits if_splits)
qed

section \<open>Every run is settled\<close>

lemma execute_settles:
  assumes run: "execute_job h ph cfg w job_id rq wake jw = (jw', Some x)"
    and spawn: "w_spawn w \<noteq> Inl CancelledError" and end_ok: "w_terminate w \<noteq> Some CancelledError"
    and wake: "''state'' \<notin> fst ` set wake" and c: "claimable (w_kernel w) (sfs jw)"
  shows "fds (sfs jw') = fds (sfs jw) \<and> (settled_job job_id (store jw') \<or> (\<exists>e. x = Inl e \<and> e \<noteq> CancelledError) \<or> w_pipe w = Some CancelledError)"
proof (cases "validate_request h cfg rq")
  case (Inl e)
  then show ?thesis using run wake by (auto simp: execute_job_def settle_some_def settle_job_def Let_def intro: settled_dump)
next
  case (Inr v)
  define initial where "initial = initial_metadata ph cfg w job_id rq v wake"
  obtain fs r where cl: "claim_job_secret cfg w v (sfs jw) = (fs, r)" by fastforce
  note CE = claim_job_secret_effect [OF c cl]
  show ?thesis
  proof (cases r)
    case (Inl e)
    then show ?thesis using run wake \<open>validate_request h cfg rq = Inr v\<close> cl CE by (auto simp: execute_job_def settle_some_def settle_job_def Let_def intro: settled_dump)
  next
    case (Inr sfd)
    obtain fs' l where la: "launch_job w sfd fs = (fs', l)" by fastforce
    have fresh: "fd_fresh fs" using claim_job_secret_fresh [OF c] cl Inr by blast
    have fd: "fds fs' = fds (sfs jw)" using launch_closes [OF fresh la spawn] CE Inr by simp
    let ?jw = "jw\<lparr>store := meta_put job_id initial (store jw), latest_log := job_file ph job_id ''.log'' @ [CHR 0x0A], sfs := fs'\<rparr>"
    have v: "validate_request h cfg rq = Inr v" by fact
    have D: "after_launch ph cfg w job_id rq v wake initial l ?jw = (jw', Some x)"
      using run cl Inr la by (simp add: execute_job_def Let_def v initial_def [symmetric])
    show ?thesis
    proof (cases l)
      case (Launched pid pgid)
      then have "run_launched ph cfg w job_id rq v wake pid pgid initial ?jw = (jw', Some x)" using D by (simp add: after_launch_def Let_def)
      then show ?thesis using settled_launched [OF _ wake end_ok] fd by fastforce
    next
      case (Pipe_failed e)
      then show ?thesis using D fd la by (auto simp: after_launch_def launch_job_def Let_def split: option.splits prod.splits sum.splits pyexc.splits if_splits)
    next
      case (Spawn_failed e)
      then have "e \<noteq> CancelledError" using la spawn by (auto simp: launch_job_def Let_def split: option.splits prod.splits sum.splits pyexc.splits if_splits)
      then show ?thesis using D fd Spawn_failed wake by (auto simp: after_launch_def Let_def settle_some_def settle_job_def intro: settled_dump)
    next
      case No_stdout
      then show ?thesis using D fd end_ok by (auto simp: after_launch_def terminated_def Let_def split: option.splits)
    next
      case (Startup_failed e)
      then show ?thesis using D fd wake cancelled_terminal end_ok
        by (cases "w_terminate w") (auto simp: after_launch_def terminated_def Let_def settle_some_def settle_job_def cancelled_state settled_put intro: settled_dump split: if_splits)
    qed
  qed
qed


lemma dict_update_append: "dict_update (a @ b) kvs = dict_update b (dict_update a kvs)"
  by (simp add: dict_update_def)

lemma settled_background_error:
  assumes "''state'' \<notin> fst ` set wake" "job_id_ok job_id"
  shows "settled_job job_id (fst (update_job_metadata ph job_id (background_error ph e @ wake) st))"
proof -
  have "jfield ''state'' (dict_update (background_error ph e) kvs) = JStr ''spawn_error''" for kvs
    by (simp add: background_error_def jfield_dict_update)
  then show ?thesis
    using assms
    by (simp add: update_job_metadata_def dict_update_append jfield_update_other settled_put terminal_job_states_def)
qed

text \<open>
  C4. A background job that has begun and ends is settled: whichever way it goes (rejected
  request, refused secret, failed pipe, spawn or startup, timeout, cancellation, exception,
  normal end), the metadata ends in a terminal state, whatever the bridge answers, and every
  descriptor opened on the way is closed; only a cancellation that hits the task while it
  creates the subprocess, or while it waits for the end of one it has given up, is excepted.
\<close>

theorem background_job_settles:
  assumes run: "run_background_job h ph cfg w ask job_id rq reg wake jw = (jw', Some x)"
    and id: "job_id_ok job_id" and spawn: "w_spawn w \<noteq> Inl CancelledError" and end_ok: "w_terminate w \<noteq> Some CancelledError"
    and pipe: "w_pipe w \<noteq> Some CancelledError"
    and wake: "''state'' \<notin> fst ` set wake" and c: "claimable (w_kernel w) (sfs jw)"
  shows "fds (sfs jw') = fds (sfs jw)
    \<and> (\<exists>kvs. meta_get job_id (store jw') = Some (Meta (JObj kvs)) \<and> jfield ''state'' kvs \<in> JStr ` set terminal_job_states)"
proof -
  obtain jw1 x1 where e: "execute_job h ph cfg w job_id rq wake jw = (jw1, Some x1)"
    using run by (cases "execute_job h ph cfg w job_id rq wake jw") (auto simp: run_background_job_def split: option.splits)
  note E = execute_settles [OF e spawn end_ok wake c]
  define jw2 where "jw2 = (case x1 of
      Inl e \<Rightarrow> if e = CancelledError then jw1
        else jw1\<lparr>store := fst (update_job_metadata (w_later w) job_id (background_error (w_later w) e @ wake) (store jw1))\<rparr>
    | Inr _ \<Rightarrow> jw1)"
  have s2: "settled_job job_id (store jw2)"
    using E pipe settled_background_error [OF wake id] by (auto simp: jw2_def split: sum.splits)
  have f2: "sfs jw2 = sfs jw1" by (auto simp: jw2_def split: sum.splits)
  have "settled_job job_id (store jw') \<and> sfs jw' = sfs jw2"
  proof (cases reg)
    case None
    then show ?thesis using run e s2 by (simp add: run_background_job_def Let_def jw2_def [symmetric])
  next
    case (Some r)
    obtain st y where d: "deliver_terminal_wakeup h (w_later w) cfg ask job_id r (store jw2) = (st, y)" by fastforce
    have "settled_job job_id st" using settled_deliver [OF s2] d by (metis fst_conv)
    moreover have "jw' = jw2\<lparr>store := st\<rparr>"
      using run e d Some by (cases y) (auto simp: run_background_job_def Let_def jw2_def [symmetric])
    ultimately show ?thesis by simp
  qed
  then show ?thesis using E f2 by (simp add: settled_job_def)
qed

section \<open>A cancelled creation\<close>

text \<open>
  C39. When the task is cancelled while the subprocess is being created, the job is left
  behind: its metadata still says \<open>starting\<close>, so it counts as active as long as the
  server lives, no terminal event is delivered, and the read end of the status pipe stays
  open.
\<close>

theorem cancelled_spawn_stays_active:
  assumes v: "validate_request h cfg rq = Inr v" "v_secret v = None" "v_pair v = None"
    and w: "w_pipe w = None" "w_spawn w = Inl CancelledError"
    and wake: "{''state'', ''server_pid'', ''server_start_ticks''} \<inter> fst ` set wake = {}"
    and me: "proc_start_ticks ph (server_pid ph) = server_start_ticks ph" "server_start_ticks ph \<noteq> None"
  shows "\<exists>jw' kvs. run_background_job h ph cfg w ask job_id rq reg wake jw = (jw', Some (Inl CancelledError))
    \<and> meta_get job_id (store jw') = Some (Meta (JObj kvs)) \<and> jfield ''state'' kvs = JStr ''starting''
    \<and> counts_active ph (Meta (JObj kvs)) \<and> fds (sfs jw') (next_fd (sfs jw)) = Some Pipe_end"
proof -
  define initial where "initial = initial_metadata ph cfg w job_id rq v wake"
  have n: "''state'' \<notin> fst ` set wake" "''server_pid'' \<notin> fst ` set wake" "''server_start_ticks'' \<notin> fst ` set wake"
    using wake by blast+
  have i: "jfield ''state'' initial = JStr ''starting''" "jfield ''server_pid'' initial = JInt (server_pid ph)"
    "jfield ''server_start_ticks'' initial = opt_str (server_start_ticks ph)"
    unfolding initial_def initial_metadata_def by (simp_all add: jfield_update_other n) (simp_all add: jfield_def)
  obtain jw1 where e: "execute_job h ph cfg w job_id rq wake jw = (jw1, Some (Inl CancelledError))"
    and g: "meta_get job_id (store jw1) = Some (Meta (JObj initial))" "fds (sfs jw1) (next_fd (sfs jw)) = Some Pipe_end"
    using v w by (simp add: execute_job_def after_launch_def claim_job_secret_def launch_job_def open_fd_def close_fd_def close_opt_def
        Let_def jf.get_put initial_def)
  have "deliver_terminal_wakeup h (w_later w) cfg ask job_id r (store jw1) = (store jw1, Inr ())" for r
  proof (cases "read_job_metadata h cfg job_id (store jw1)")
    case (Inr kvs)
    then have "kvs = initial" using g(1) by (simp add: read_job_metadata_Inr)
    then have "str_or (w_later w) ''state'' [] kvs = ''starting''" using i(1) by (simp add: str_or_def jget_default_def jfield_def split: option.splits)
    moreover have "''starting'' \<notin> set terminal_job_states" by (simp add: terminal_job_states_def)
    ultimately show ?thesis using Inr by (simp add: deliver_terminal_wakeup_def)
  qed (simp add: deliver_terminal_wakeup_def)
  then have "run_background_job h ph cfg w ask job_id rq reg wake jw = (jw1, Some (Inl CancelledError))"
    using e by (cases reg) (simp_all add: run_background_job_def)
  moreover have "counts_active ph (Meta (JObj initial))"
    using i me by (auto simp: active_payload_def active_job_states_def owner_alive_def pid_matches_def opt_str_def)
  ultimately show ?thesis using g i(1) by blast
qed

text \<open>
  A cancellation while a process is being ended leaves the job behind, too: when the task is
  cancelled, or fails, while its command runs, and is cancelled again while it waits for the
  supervisor to end, the record still says \<open>running\<close>, unless another handler has written
  it meanwhile, and so counts as active.
\<close>

theorem cancelled_termination_stays_active:
  assumes v: "validate_request h cfg rq = Inr v" "v_secret v = None" "v_pair v = None"
    and w: "w_pipe w = None" "w_spawn w = Inr pid" "w_stdout w" "w_pgid w = Inr pgid"
    and cut: "w_interrupt w = Some e" "w_terminate w = Some CancelledError"
    and wake: "{''state'', ''server_pid'', ''server_start_ticks''} \<inter> fst ` set wake = {}"
    and quiet: "\<And>st. meta_get job_id (w_meanwhile w st) = meta_get job_id st"
    and me: "proc_start_ticks ph (server_pid ph) = server_start_ticks ph" "server_start_ticks ph \<noteq> None"
  shows "\<exists>jw' kvs. execute_job h ph cfg w job_id rq wake jw = (jw', Some (Inl CancelledError))
    \<and> meta_get job_id (store jw') = Some (Meta (JObj kvs)) \<and> jfield ''state'' kvs = JStr ''running''
    \<and> counts_active ph (Meta (JObj kvs))"
proof -
  define initial where "initial = running_metadata (w_later w) pid pgid (initial_metadata ph cfg w job_id rq v wake)"
  have "''state'' \<notin> fst ` set wake" "''server_pid'' \<notin> fst ` set wake" "''server_start_ticks'' \<notin> fst ` set wake"
    using wake by blast+
  then have m: "map_of (List.rev wake) ''state'' = None" "map_of (List.rev wake) ''server_pid'' = None"
    "map_of (List.rev wake) ''server_start_ticks'' = None" by (simp_all add: map_of_eq_None_iff)
  have i: "jfield ''state'' initial = JStr ''running''" "jfield ''server_pid'' initial = JInt (server_pid ph)"
    "jfield ''server_start_ticks'' initial = opt_str (server_start_ticks ph)"
    unfolding initial_def running_metadata_def initial_metadata_def
    by (simp_all add: jfield_dict_update m) (simp_all add: jfield_def)
  have sup: "supervise cfg w rq = Phase_cancelled \<or> supervise cfg w rq = Phase_raised e" using cut(1) by (simp add: supervise_def)
  have log: "meta_get job_id (put_log job_id b st) = meta_get job_id st" for b st by (simp add: put_log_def meta_get_def)
  obtain jw1 where e: "execute_job h ph cfg w job_id rq wake jw = (jw1, Some (Inl CancelledError))"
    and g: "meta_get job_id (store jw1) = Some (Meta (JObj initial))"
    using v w sup cut(2)
    by (auto simp: execute_job_def after_launch_def claim_job_secret_def launch_job_def open_fd_def close_fd_def close_opt_def
        run_launched_def terminated_def Let_def quiet log jf.get_put initial_def)
  moreover have "counts_active ph (Meta (JObj initial))"
    using i me by (auto simp: active_payload_def active_job_states_def owner_alive_def pid_matches_def opt_str_def)
  ultimately show ?thesis using i(1) by blast
qed


section \<open>The last write\<close>

lemma kept_fields:
  assumes k: "k \<in> set kept_wake_keys" "jhas k current"
  shows "jfield k (final_metadata ph job_id r ws initial wake current) = jget k current"
proof -
  have m: "map_of (List.rev (map (\<lambda>k. (k, jget k current)) ks)) k = (if k \<in> set ks then Some (jget k current) else None)" for ks
    by (induction ks) (auto simp: map_add_def)
  have "k \<in> set (filter (\<lambda>k. jhas k current) kept_wake_keys)" using k by simp
  then show ?thesis
    unfolding final_metadata_def Let_def jfield_dict_update m by simp
qed

text \<open>
  The last write of a job keeps what other handlers recorded while it ran: a requested
  cancellation makes the result \<open>cancelled\<close> and nothing else does, the recorded wake fields
  (a revoked or delivered wakeup, the handoff) win over the ones the job started with, and
  the stored state is the returned one.
\<close>

theorem finish_keeps_updates:
  assumes f: "finish_job ph w job_id rq v tr ws stop initial wake st = (st', r)" and wake: "''state'' \<notin> fst ` set wake"
    and cur: "meta_get job_id st = Some (Meta (JObj cur))"
  shows "(rr_state r = Cancelled_job \<longleftrightarrow> truthy (jfield ''cancel_requested_at_utc'' cur))
    \<and> (\<exists>kvs. meta_get job_id st' = Some (Meta (JObj kvs)) \<and> jfield ''state'' kvs = JStr (run_state_str (rr_state r))
        \<and> (\<forall>k \<in> set kept_wake_keys. jhas k (JObj cur) \<longrightarrow> jfield k kvs = jfield k cur))"
proof -
  let ?st = "put_tail job_id (tail_text tr) st"
  have g: "meta_get job_id ?st = Some (Meta (JObj cur))" using cur by (simp add: put_tail_def meta_get_def)
  have r: "r = output_result ph w job_id rq v tr
      (if truthy (jfield ''cancel_requested_at_utc'' cur) then Cancelled_job else result_state stop (Some (w_exit_code w)) tr) (Some (w_exit_code w)) None"
    and st': "st' = meta_put job_id (final_metadata ph job_id r ws initial wake (JObj cur)) ?st"
    using f g by (auto simp: finish_job_def Let_def)
  have "result_state stop (Some (w_exit_code w)) tr \<noteq> Cancelled_job" by (simp add: result_state_def)
  then have "rr_state r = Cancelled_job \<longleftrightarrow> truthy (jfield ''cancel_requested_at_utc'' cur)"
    by (simp add: r output_result_def spawn_error_result_def)
  moreover have "\<forall>k \<in> set kept_wake_keys. jhas k (JObj cur) \<longrightarrow>
      jfield k (final_metadata ph job_id r ws initial wake (JObj cur)) = jfield k cur"
    using kept_fields [of _ "JObj cur" ph job_id r ws initial wake] by simp
  ultimately show ?thesis using final_state [OF wake, of ph job_id r ws initial "JObj cur"] by (simp add: st' jf.get_put)
qed

section \<open>Secret input\<close>

text \<open>With suppressed output a run depends on the output through its length only.\<close>

definition suppressed_drain :: "server_config \<Rightarrow> run_world \<Rightarrow> validated_job \<Rightarrow> int \<Rightarrow> clock \<Rightarrow> drain" where
  "suppressed_drain cfg w v n t = \<lparr>dlog = [], decoder = Idle, tracker =
     (new_tracker (max_log_size cfg) (v_success v) (v_failure v) (w_started w) True)\<lparr>bytes_seen := n, last_output_at := t\<rparr>\<rparr>"

lemma job_output_suppressed:
  assumes "secret_supplied rq"
  shows "\<exists>t. job_output cfg w rq v = suppressed_drain cfg w v (int (length (concat (map snd (w_chunks w))))) t"
proof -
  obtain t where t: "fold drain_chunk (w_chunks w) \<lparr>dlog = [], decoder = Idle,
      tracker = new_tracker (max_log_size cfg) (v_success v) (v_failure v) (w_started w) True\<rparr> =
      suppressed_drain cfg w v (int (length (concat (map snd (w_chunks w))))) t"
    using suppressed_fold [of "w_chunks w"] unfolding suppressed_drain_def by blast
  moreover have "drain_finish fin (suppressed_drain cfg w v n t) = suppressed_drain cfg w v n t" for fin n
    by (simp add: drain_finish_def suppressed_drain_def new_tracker_def)
  ultimately show ?thesis using assms by (auto simp: job_output_def Let_def drain_output_def)
qed

lemma run_launched_suppressed:
  assumes s: "secret_supplied rq" and len: "length (concat (map snd cs)) = length (concat (map snd (w_chunks w)))"
  shows "run_launched ph cfg (w\<lparr>w_chunks := cs\<rparr>) job_id rq v wake pid pgid initial jw =
    run_launched ph cfg w job_id rq v wake pid pgid initial jw"
proof -
  let ?w = "w\<lparr>w_chunks := cs\<rparr>" and ?n = "int (length (concat (map snd (w_chunks w))))"
  obtain t where t: "job_output cfg w rq v = suppressed_drain cfg w v ?n t" using job_output_suppressed [OF s] by blast
  obtain t' where t': "job_output cfg ?w rq v = suppressed_drain cfg w v ?n t'"
    using job_output_suppressed [OF s, of cfg ?w v] len by (auto simp: suppressed_drain_def)
  have tr: "tail_text (tracker (suppressed_drain cfg w v n t)) = []" "bytes_seen (tracker (suppressed_drain cfg w v n t)) = n"
    "bytes_written (tracker (suppressed_drain cfg w v n t)) = 0" "log_truncated (tracker (suppressed_drain cfg w v n t)) = False"
    "success_match (tracker (suppressed_drain cfg w v n t)) = None" "failure_match (tracker (suppressed_drain cfg w v n t)) = None"
    "success_contains (tracker (suppressed_drain cfg w v n t)) = v_success v" "dlog (suppressed_drain cfg w v n t) = []" for n t
    by (simp_all add: suppressed_drain_def new_tracker_def)
  have sup: "supervise cfg ?w rq = supervise cfg w rq" by (simp add: supervise_def cong: option.case_cong)
  show ?thesis
    unfolding run_launched_def Let_def t t' sup
    by (cases "supervise cfg w rq")
      (simp_all add: tr terminated_def cancelled_metadata_def output_result_def spawn_error_result_def finish_job_def result_state_def Let_def
        put_log_def put_tail_def)
qed

text \<open>
  C7. A job with secret input reveals nothing of its output: two runs whose outputs have
  the same length, in whatever chunks, leave the same files and give the same result.
\<close>

theorem secret_output_hidden:
  assumes s: "secret_supplied rq" and len: "length (concat (map snd cs)) = length (concat (map snd (w_chunks w)))"
  shows "execute_job h ph cfg (w\<lparr>w_chunks := cs\<rparr>) job_id rq wake jw = execute_job h ph cfg w job_id rq wake jw"
proof -
  let ?w = "w\<lparr>w_chunks := cs\<rparr>"
  have sel: "w_kernel ?w = w_kernel w" "w_time ?w = w_time w" "w_pipe ?w = w_pipe w" "w_spawn ?w = w_spawn w" "w_stdout ?w = w_stdout w"
    "w_pgid ?w = w_pgid w" "w_digest ?w = w_digest w" "w_duration ?w = w_duration w" "w_later ?w = w_later w"
    "w_terminated_code ?w = w_terminated_code w" "terminated ?w = terminated w"
    by (simp_all add: terminated_def fun_eq_iff)
  have same: "claim_job_secret cfg ?w v fs = claim_job_secret cfg w v fs" "launch_job ?w sfd fs = launch_job w sfd fs"
    "initial_metadata ph cfg ?w job_id rq v wake = initial_metadata ph cfg w job_id rq v wake"
    "spawn_error_result ph ?w job_id d c code b m = spawn_error_result ph w job_id d c code b m"
    "startup_cancelled_metadata ?w i wake = startup_cancelled_metadata w i wake" for v fs sfd d c code b m i
    unfolding claim_job_secret_def launch_job_def initial_metadata_def spawn_error_result_def startup_cancelled_metadata_def sel
    by (rule refl)+
  have after: "after_launch ph cfg ?w job_id rq v wake i l jw = after_launch ph cfg w job_id rq v wake i l jw" for v i l jw
    unfolding after_launch_def same run_launched_suppressed [OF assms] sel by (rule refl)
  show ?thesis unfolding execute_job_def same after by (rule refl)
qed


section \<open>A concrete run\<close>

definition demo_run_request :: run_request where
  "demo_run_request = \<lparr>rq_argv = [''make'', ''all''], rq_cwd = ''/srv/work/a'', rq_timeout_sec = 60, rq_no_output_timeout_sec = 0,
     rq_grace_period_sec = 10, rq_success_contains = None, rq_failure_contains = None, rq_tail_lines = 3, rq_tail_bytes = 10,
     rq_reports = False, rq_secret_id = None, rq_secret_ids = None\<rparr>"

definition demo_run :: run_world where
  "demo_run = \<lparr>w_kernel = demo_kernel, w_time = 0, w_started = 0, w_pipe = None, w_spawn = Inr 21, w_stdout = True, w_pgid = Inr 21,
     w_later = demo_ph, w_observations = [\<lparr>exited = True, o_now = 1, o_last_output = 0, o_bytes_seen = 0, o_report = Reported, o_after = 1\<rparr>],
     w_chunks = [], w_chunks_end = 1, w_interrupt = None, w_terminate = None, w_reader_cancelled = False, w_reports_sent = 0, w_report_error = None,
     w_exit_code = 0, w_terminated_code = None, w_duration = 1, w_digest = (\<lambda>_. ''d1''), w_meanwhile = (\<lambda>st. st)\<rparr>"

definition demo_jobs :: job_world where
  "demo_jobs = \<lparr>store = demo_store, sfs = demo_fs, ready = False, latest_log = []\<rparr>"

definition demo_ask :: bridge_ask where
  "demo_ask _ = Inr (JObj [(''delivery_state'', JStr ''waiting'')])"

definition demo_reg :: "wake_registration option" where
  "demo_reg = Some \<lparr>reg_socket = ''s'', reg_thread = ''t'', reg_mode = ''goal''\<rparr>"

lemma demo_jobs_claimable: "claimable (w_kernel demo_run) (sfs demo_jobs)"
proof -
  have "dirs_ok demo_kernel demo_fs" by code_simp
  then show ?thesis using demo_fresh(1) by (simp add: claimable_def demo_run_def demo_jobs_def)
qed

theorem background_job_settles_witness:
  "\<exists>jw' x kvs. run_background_job demo_host demo_ph demo_config demo_run demo_ask demo_other demo_run_request demo_reg [] demo_jobs = (jw', Some x)
     \<and> meta_get demo_other (store jw') = Some (Meta (JObj kvs)) \<and> jfield ''state'' kvs \<in> JStr ` set terminal_job_states"
proof -
  have "snd (run_background_job demo_host demo_ph demo_config demo_run demo_ask demo_other demo_run_request demo_reg [] demo_jobs) \<noteq> None"
    by code_simp
  then obtain jw' x where r: "run_background_job demo_host demo_ph demo_config demo_run demo_ask demo_other demo_run_request demo_reg [] demo_jobs = (jw', Some x)"
    by (metis not_None_eq prod.collapse)
  have "job_id_ok demo_other" by code_simp
  from background_job_settles [OF r this _ _ _ _ demo_jobs_claimable] r show ?thesis by (auto simp: demo_run_def)
qed

theorem cancelled_spawn_stays_active_witness:
  "\<exists>jw' kvs. run_background_job demo_host demo_ph demo_config (demo_run\<lparr>w_spawn := Inl CancelledError\<rparr>) demo_ask demo_other demo_run_request
       demo_reg [] demo_jobs = (jw', Some (Inl CancelledError))
     \<and> meta_get demo_other (store jw') = Some (Meta (JObj kvs)) \<and> jfield ''state'' kvs = JStr ''starting'' \<and> counts_active demo_ph (Meta (JObj kvs))"
proof -
  have "(case validate_request demo_host demo_config demo_run_request of Inl _ \<Rightarrow> False | Inr v \<Rightarrow> v_secret v = None \<and> v_pair v = None)"
    by code_simp
  then obtain v where v: "validate_request demo_host demo_config demo_run_request = Inr v" "v_secret v = None" "v_pair v = None"
    by (auto split: sum.splits)
  have me: "proc_start_ticks demo_ph (server_pid demo_ph) = server_start_ticks demo_ph" "server_start_ticks demo_ph \<noteq> None" by code_simp+
  show ?thesis
    using cancelled_spawn_stays_active [OF v, of "demo_run\<lparr>w_spawn := Inl CancelledError\<rparr>" "[]" demo_ph demo_ask demo_other demo_reg demo_jobs] me
    by (fastforce simp: demo_run_def)
qed

theorem finish_keeps_updates_witness:
  "rr_state (snd (finish_job demo_ph demo_run demo_orphan demo_run_request
      \<lparr>v_cwd = parse_path ''/opt'', v_argv = [''make''], v_success = None, v_failure = None, v_secret = None, v_pair = None, v_env = []\<rparr>
      (new_tracker 100 None None 0 False) (wait_start 0 0 False) None [] []
      (fst (cancel_job demo_host demo_ph demo_config demo_orphan demo_store)))) = Cancelled_job"
proof -
  let ?st = "fst (cancel_job demo_host demo_ph demo_config demo_orphan demo_store)"
  let ?v = "\<lparr>v_cwd = parse_path ''/opt'', v_argv = [''make''], v_success = None, v_failure = None, v_secret = None, v_pair = None, v_env = []\<rparr>"
  obtain st' r where f: "finish_job demo_ph demo_run demo_orphan demo_run_request ?v (new_tracker 100 None None 0 False) (wait_start 0 0 False) None [] [] ?st = (st', r)"
    by fastforce
  have "(case meta_get demo_orphan ?st of Some (Meta (JObj cur)) \<Rightarrow> truthy (jfield ''cancel_requested_at_utc'' cur) | _ \<Rightarrow> False)"
    by code_simp
  then obtain cur where "meta_get demo_orphan ?st = Some (Meta (JObj cur))" "truthy (jfield ''cancel_requested_at_utc'' cur)"
    by (auto split: option.splits meta_file.splits json.splits)
  then show ?thesis using finish_keeps_updates [OF f] f by auto
qed

theorem secret_output_hidden_witness:
  "execute_job demo_host demo_ph demo_config (demo_run\<lparr>w_chunks := [(0, [0x70]), (1, [0x77])]\<rparr>) demo_other (demo_run_request\<lparr>rq_secret_id := Some demo_sid\<rparr>) [] demo_jobs
   = execute_job demo_host demo_ph demo_config (demo_run\<lparr>w_chunks := [(0, [0x6F, 0x6B])]\<rparr>) demo_other (demo_run_request\<lparr>rq_secret_id := Some demo_sid\<rparr>) [] demo_jobs"
proof -
  have "secret_supplied (demo_run_request\<lparr>rq_secret_id := Some demo_sid\<rparr>)" by (simp add: secret_supplied_def demo_sid_def)
  from secret_output_hidden [OF this, of "[(0, [0x70]), (1, [0x77])]" "demo_run\<lparr>w_chunks := [(0, [0x6F, 0x6B])]\<rparr>"]
  show ?thesis by simp
qed

end
