(* ===== verification/App_Client.thy ===== *)
theory App_Client
  imports Goal_Bridge
begin

text \<open>
  The JSON-RPC client of the App Server (\<open>app_server_client.py\<close>, class
  \<open>AppServerClient\<close>): concurrent calls, the loop that reads the connection, and the end of
  the connection. A call is a coroutine cut at its awaits: it is sending its message or
  waits for its future; \<open>app_step\<close> runs one segment per event.
\<close>

section \<open>State\<close>

datatype reply_future = Waiting | Answered json | Call_failed pyexc

text \<open>\<open>str(v)\<close> in a message.\<close>

definition json_str :: "json \<Rightarrow> string" where
  "json_str v = (case v of JStr t \<Rightarrow> t | _ \<Rightarrow> json_repr v)"

datatype app_msg = App_call int string json | App_notify string json | App_refuse json string

datatype call_pc = Sending string json | Awaiting string

text \<open>Where a \<open>close\<close> waits: for the connection to be closed, or for the cancelled reader to end.\<close>

datatype close_pc = Closing_connection | Joining_reader

text \<open>
  \<open>reader_task\<close> says whether \<open>_reader_task\<close> is set, \<open>reading\<close> whether that task runs.
  \<open>pending\<close> are the ids in \<open>_pending\<close>; a future outlives its entry there, it belongs to
  the call. \<open>returned\<close> records what each call returned or raised, \<open>notified\<close> what was
  given to the notification handler.
\<close>

record app_client =
  has_connection :: bool
  reader_task :: bool
  reading :: bool
  closers :: "(nat \<times> close_pc) list"
  next_id :: int
  pending :: "int set"
  futures :: "int \<rightharpoonup> reply_future"
  app_calls :: "int \<rightharpoonup> call_pc"
  closed_event :: bool
  app_sent :: "app_msg list"
  returned :: "(int \<times> (pyexc + json)) list"
  notified :: "(string \<times> json) list"

definition fresh_client :: app_client where
  "fresh_client = \<lparr>has_connection = False, reader_task = False, reading = False, closers = [], next_id = 1, pending = {}, futures = Map.empty,
     app_calls = Map.empty, closed_event = False, app_sent = [], returned = [], notified = []\<rparr>"

section \<open>Calls\<close>

text \<open>\<open>call\<close> up to its send; without a connection it raises and takes no id.\<close>

definition call_begin :: "string \<Rightarrow> json \<Rightarrow> app_client \<Rightarrow> (app_client, int) outcome" where
  "call_begin meth params s =
     (if \<not> has_connection s then (s, Inl (AppServerError ''Codex App Server is not connected''))
      else
        let i = next_id s in
        (s\<lparr>next_id := i + 1, futures := (futures s)(i \<mapsto> Waiting), pending := insert i (pending s),
           app_calls := (app_calls s)(i \<mapsto> Sending meth params)\<rparr>, Inr i))"

definition return_call :: "int \<Rightarrow> pyexc + json \<Rightarrow> app_client \<Rightarrow> app_client" where
  "return_call i res s = s\<lparr>app_calls := (app_calls s)(i := None), returned := returned s @ [(i, res)]\<rparr>"

definition call_meth :: "call_pc \<Rightarrow> string" where
  "call_meth pc = (case pc of Sending meth params \<Rightarrow> meth | Awaiting meth \<Rightarrow> meth)"

fun is_app_error :: "pyexc \<Rightarrow> bool" where
  "is_app_error (AppServerError m) = True"
| "is_app_error _ = False"

text \<open>The \<open>except\<close> clauses; a cancellation passes them.\<close>

definition call_raises :: "string \<Rightarrow> int \<Rightarrow> pyexc \<Rightarrow> app_client \<Rightarrow> app_client" where
  "call_raises meth i e s =
     (case e of
        CancelledError \<Rightarrow> return_call i (Inl e) s
      | TimeoutError _ \<Rightarrow>
          return_call i (Inl (AppServerError (''Codex App Server request timed out: '' @ meth)))
            (s\<lparr>pending := pending s - {i}\<rparr>)
      | _ \<Rightarrow>
          return_call i (Inl (if is_app_error e then e
                              else AppServerError (''Codex App Server request failed: '' @ meth @ '': '' @ exc_str e)))
            (s\<lparr>pending := pending s - {i}\<rparr>))"

definition call_response :: "string \<Rightarrow> json \<Rightarrow> pyexc + json" where
  "call_response meth m =
     (if jhas ''error'' m then Inl (AppServerError (meth @ '': '' @ json_str (jget ''error'' m)))
      else Inr (jget ''result'' m))"

text \<open>The future has a result: \<open>wait_for\<close> returns or raises.\<close>

definition call_wakes :: "int \<Rightarrow> app_client \<Rightarrow> app_client option" where
  "call_wakes i s =
     (case (app_calls s i, futures s i) of
        (Some (Awaiting meth), Some (Answered m)) \<Rightarrow> Some (return_call i (call_response meth m) s)
      | (Some (Awaiting meth), Some (Call_failed e)) \<Rightarrow> Some (call_raises meth i e s)
      | _ \<Rightarrow> None)"

section \<open>The reader\<close>

definition fail_future :: "pyexc \<Rightarrow> reply_future \<Rightarrow> reply_future" where
  "fail_future e fut = (if fut = Waiting then Call_failed e else fut)"

definition fail_pending :: "pyexc \<Rightarrow> app_client \<Rightarrow> app_client" where
  "fail_pending e s =
     s\<lparr>futures := (\<lambda>i. if i \<in> pending s then map_option (fail_future e) (futures s i) else futures s i),
       pending := {}\<rparr>"

text \<open>The \<open>except\<close> and \<open>finally\<close> of \<open>_read_loop\<close>.\<close>

definition reader_stops :: "pyexc \<Rightarrow> app_client \<Rightarrow> app_client" where
  "reader_stops e s =
     (let s = s\<lparr>reading := False, closed_event := True\<rparr> in
      if e = CancelledError then s
      else fail_pending (AppServerError (''Codex App Server reader stopped: '' @ exc_str e)) s)"

text \<open>\<open>isinstance(id, int)\<close> and the lookup of \<open>_pending\<close>: a bool is an \<open>int\<close> and equal to one.\<close>

definition response_for :: "json \<Rightarrow> int option" where
  "response_for m =
     (if isinstance_int (jget ''id'' m) \<and> \<not> jhas ''method'' m then Some (int_of_json (jget ''id'' m)) else None)"

definition settle_future :: "int \<Rightarrow> json \<Rightarrow> app_client \<Rightarrow> app_client" where
  "settle_future i m s =
     (if i \<in> pending s
      then s\<lparr>pending := pending s - {i},
             futures := (futures s)(i := map_option (\<lambda>fut. if fut = Waiting then Answered m else fut) (futures s i))\<rparr>
      else s)"

text \<open>
  One message: \<open>loaded\<close> is what \<open>json.loads\<close> gives, \<open>handled\<close> what the awaited
  handler or send raises, if one is awaited; \<open>handler\<close> says whether there is one.
\<close>

definition read_message :: "bool \<Rightarrow> pyexc + json \<Rightarrow> pyexc + unit \<Rightarrow> app_client \<Rightarrow> app_client" where
  "read_message handler loaded handled s =
     (case loaded of
        Inl e \<Rightarrow> reader_stops e s
      | Inr m \<Rightarrow>
          if \<not> is_dict m then s
          else
            (case response_for m of
               Some i \<Rightarrow> settle_future i m s
             | None \<Rightarrow>
                 let params = jget_default ''params'' (JObj []) m in
                 (case jget ''method'' m of
                    JStr meth \<Rightarrow>
                      if \<not> is_dict params then s
                      else if jget ''id'' m \<noteq> JNull
                      then (if \<not> has_connection s then s
                            else (case handled of
                                    Inl e \<Rightarrow> reader_stops e s
                                  | Inr _ \<Rightarrow> s\<lparr>app_sent := app_sent s @ [App_refuse (jget ''id'' m) meth]\<rparr>))
                      else if handler
                      then (let s = s\<lparr>notified := notified s @ [(meth, params)]\<rparr> in
                            case handled of Inl e \<Rightarrow> reader_stops e s | Inr _ \<Rightarrow> s)
                      else s
                  | _ \<Rightarrow> s)))"

text \<open>
  \<open>close\<close> is cut at its two awaits. The cancelled reader reads no further message; a reader that
  has ended by itself is not waited for. Then what still waits fails.
\<close>

definition drop_closer :: "nat \<Rightarrow> app_client \<Rightarrow> app_client" where
  "drop_closer c s = s\<lparr>closers := filter (\<lambda>(c', _). c' \<noteq> c) (closers s)\<rparr>"

definition close_fail :: "nat \<Rightarrow> app_client \<Rightarrow> app_client" where
  "close_fail c s =
     fail_pending (AppServerError ''Codex App Server connection closed'') (drop_closer c s)"

definition close_reader :: "nat \<Rightarrow> app_client \<Rightarrow> app_client" where
  "close_reader c s =
     (if reader_task s \<and> reading s
      then s\<lparr>reader_task := False, reading := False, closed_event := True, closers := (c, Joining_reader) # closers (drop_closer c s)\<rparr>
      else close_fail c (s\<lparr>reader_task := False\<rparr>))"

definition close_client :: "nat \<Rightarrow> app_client \<Rightarrow> app_client" where
  "close_client c s =
     (if has_connection s then s\<lparr>has_connection := False, closers := (c, Closing_connection) # closers s\<rparr>
      else close_reader c s)"

section \<open>The event loop\<close>

text \<open>
  The events: a connection, a call, the end of its send, its wake-up, its timeout, its
  cancellation; a message, the end of the connection with or without an error; a \<open>close\<close>, the
  end of its closing the connection (with or without an exception) and of the reader it waits
  for; and a notification sent by the bridge. An owner does not connect again before a close
  is over.
\<close>

datatype app_event =
    A_connect
  | A_call string json
  | A_sent int "pyexc + unit"
  | A_wake int
  | A_timeout int
  | A_cancel int
  | A_message bool "pyexc + json" "pyexc + unit"
  | A_eof "pyexc option"
  | A_close nat
  | A_closed nat "pyexc + unit"
  | A_joined nat
  | A_notify string json

fun app_step :: "app_event \<Rightarrow> app_client \<Rightarrow> app_client option" where
  "app_step A_connect s =
     (if has_connection s \<or> reading s \<or> closers s \<noteq> [] then None
      else Some (s\<lparr>has_connection := True, reader_task := True, reading := True, closed_event := False\<rparr>))"
| "app_step (A_call meth params) s = Some (fst (call_begin meth params s))"
| "app_step (A_sent i r) s =
     (case app_calls s i of
        Some (Sending meth params) \<Rightarrow>
          Some (case r of
                  Inl e \<Rightarrow> call_raises meth i e s
                | Inr _ \<Rightarrow> s\<lparr>app_calls := (app_calls s)(i \<mapsto> Awaiting meth), app_sent := app_sent s @ [App_call i meth params]\<rparr>)
      | _ \<Rightarrow> None)"
| "app_step (A_wake i) s = call_wakes i s"
| "app_step (A_timeout i) s =
     (case (app_calls s i, futures s i) of
        (Some (Awaiting meth), Some Waiting) \<Rightarrow>
          Some (call_raises meth i (TimeoutError []) (s\<lparr>futures := (futures s)(i \<mapsto> Call_failed CancelledError)\<rparr>))
      | _ \<Rightarrow> None)"
| "app_step (A_cancel i) s =
     (case app_calls s i of
        None \<Rightarrow> None
      | Some pc \<Rightarrow> Some (call_raises (call_meth pc) i CancelledError
                        (s\<lparr>futures := (futures s)(i := map_option (fail_future CancelledError) (futures s i))\<rparr>)))"
| "app_step (A_message handler m handled) s = (if reading s then Some (read_message handler m handled s) else None)"
| "app_step (A_eof e) s =
     (if \<not> reading s then None
      else Some (case e of None \<Rightarrow> s\<lparr>reading := False, closed_event := True\<rparr> | Some e \<Rightarrow> reader_stops e s))"
| "app_step (A_close c) s = (if map_of (closers s) c \<noteq> None then None else Some (close_client c s))"
| "app_step (A_closed c r) s =
     (if map_of (closers s) c \<noteq> Some Closing_connection then None
      else Some (case r of Inl e \<Rightarrow> drop_closer c s | Inr _ \<Rightarrow> close_reader c s))"
| "app_step (A_joined c) s = (if map_of (closers s) c \<noteq> Some Joining_reader then None else Some (close_fail c s))"
| "app_step (A_notify meth params) s =
     (if has_connection s then Some (s\<lparr>app_sent := app_sent s @ [App_notify meth params]\<rparr>) else None)"

inductive app_reach :: "app_client \<Rightarrow> bool" where
  fresh: "app_reach fresh_client"
| step: "app_reach s \<Longrightarrow> app_step ev s = Some s' \<Longrightarrow> app_reach s'"

fun run_app :: "app_event list \<Rightarrow> app_client \<Rightarrow> app_client option" where
  "run_app [] s = Some s"
| "run_app (ev # evs) s = (case app_step ev s of None \<Rightarrow> None | Some s' \<Rightarrow> run_app evs s')"

end
