(* ===== verification/Tui_Proxy.thy ===== *)
theory Tui_Proxy
  imports Session_Bridge Job_Guards App_Client
begin

text \<open>
  The proxy between a terminal client and the App Server (\<open>tui_proxy.py\<close>): relaying,
  the replies to the control calls of the session bridge (class \<open>Peer\<close>), and the
  protection of large histories (\<open>_handle_full_read\<close>). One state is one connection,
  the locals of \<open>_handle_client\<close>. The two loops handle one frame per step; an
  intercepted read is a coroutine cut at its awaits, and \<open>tstep\<close> runs one segment per
  event. What the session bridge makes of events and of the user's messages is the theory
  \<open>Session_Bridge\<close>; here those are recorded.
\<close>

section \<open>Options\<close>

definition valid_modes :: "string list" where
  "valid_modes = [''auto'', ''omit'', ''off'']"

record proxy_options =
  legacy_history_mode :: string
  history_threshold_bytes :: int
  history_tail_turns :: int
  helper_max_message_bytes :: int

definition proxy_options_checked :: "proxy_options \<Rightarrow> pyexc + proxy_options" where
  "proxy_options_checked o' =
     (if legacy_history_mode o' \<notin> set valid_modes
      then Inl (ValueError (''unsupported Legacy history mode: '' @ legacy_history_mode o'))
      else if history_threshold_bytes o' \<le> 0 then Inl (ValueError ''history threshold must be positive'')
      else if history_tail_turns o' \<le> 0 then Inl (ValueError ''history tail size must be positive'')
      else Inr o')"

section \<open>Frames\<close>

text \<open>
  A frame is relayed as its text; \<open>loaded\<close> is what \<open>json.loads\<close> makes of it, \<open>None\<close>
  when it raises one of the errors that are caught.
\<close>

datatype frame = Frame (frame_text: string) (loaded: "json option")

definition decode_object :: "frame \<Rightarrow> json option" where
  "decode_object f = (case loaded f of None \<Rightarrow> None | Some v \<Rightarrow> if is_dict v then Some v else None)"

text \<open>A bool is not an id, though it is an \<open>int\<close>.\<close>

definition json_id :: "json \<Rightarrow> json option" where
  "json_id m = (case jget ''id'' m of JInt i \<Rightarrow> Some (JInt i) | JStr t \<Rightarrow> Some (JStr t) | _ \<Rightarrow> None)"

definition thread_from_result :: "json \<Rightarrow> jfields option" where
  "thread_from_result res = (case jget ''thread'' res of JObj th \<Rightarrow> Some th | _ \<Rightarrow> None)"

definition proxy_thread_id :: "jfields \<Rightarrow> string option" where
  "proxy_thread_id th =
     (case jfield ''id'' th of JStr v \<Rightarrow> if v = [] then None else Some v | _ \<Rightarrow> None)"

definition history_mode :: "jfields \<Rightarrow> string option" where
  "history_mode th =
     (case jget_default ''historyMode'' (jfield ''history_mode'' th) (JObj th) of
        JStr v \<Rightarrow> Some (lower v) | _ \<Rightarrow> None)"

definition rollout_path :: "host \<Rightarrow> jfields \<Rightarrow> pyexc + path option" where
  "rollout_path h th =
     (let v = jget_default ''path'' (jfield ''rolloutPath'' th) (JObj th);
          v = (if is_dict v then jget_default ''path'' (jget ''value'' v) v else v) in
      case v of
        JStr t \<Rightarrow>
          if t = [] then Inr None
          else bindr (expanduser h (parse_path t))
                 (\<lambda>candidate. Inr (if absolute candidate then Some candidate else None))
      | _ \<Rightarrow> Inr None)"

text \<open>\<open>path.stat()\<close>: whether the file is regular, and its size.\<close>

type_synonym stat_fun = "path \<Rightarrow> pyexc + (bool \<times> int)"

fun is_os_error :: "pyexc \<Rightarrow> bool" where
  "is_os_error (OSError _) = True"
| "is_os_error (FileNotFoundError _) = True"
| "is_os_error (PermissionError _) = True"
| "is_os_error (TimeoutError _) = True"
| "is_os_error _ = False"

definition rollout_size :: "host \<Rightarrow> stat_fun \<Rightarrow> jfields \<Rightarrow> pyexc + int option" where
  "rollout_size h stat th =
     bindr (rollout_path h th)
       (\<lambda>p. case p of
              None \<Rightarrow> Inr None
            | Some p \<Rightarrow>
                (case stat p of
                   Inl e \<Rightarrow> if is_os_error e then Inr None else Inl e
                 | Inr (regular, n) \<Rightarrow> Inr (if regular then Some n else None)))"

section \<open>Results\<close>

definition dict_pop :: "string \<Rightarrow> jfields \<Rightarrow> jfields" where
  "dict_pop k kvs = filter (\<lambda>(k', _). k' \<noteq> k) kvs"

text \<open>A result whose \<open>thread\<close> was changed in place.\<close>

definition map_thread :: "(jfields \<Rightarrow> jfields) \<Rightarrow> json \<Rightarrow> json" where
  "map_thread f res =
     (case res of
        JObj kvs \<Rightarrow>
          (case jfield ''thread'' kvs of
             JObj th \<Rightarrow> JObj (dict_set ''thread'' (JObj (f th)) kvs) | _ \<Rightarrow> res)
      | _ \<Rightarrow> res)"

definition without_turns :: "json \<Rightarrow> json" where
  "without_turns = map_thread (dict_pop ''turns'')"

definition with_turns :: "json list \<Rightarrow> json \<Rightarrow> json" where
  "with_turns turns = map_thread (dict_set ''turns'' (JArr turns))"

text \<open>\<open>json.dumps(v, separators=(",", ":"), ensure_ascii=True)\<close>.\<close>

function dumps_compact :: "json \<Rightarrow> string" where
  "dumps_compact JNull = ''null''"
| "dumps_compact (JBool b) = (if b then ''true'' else ''false'')"
| "dumps_compact (JInt i) = int_str i"
| "dumps_compact (JFloat m k) = float_repr m k"
| "dumps_compact (JStr s) = dumps_str s"
| "dumps_compact (JArr xs) = ''['' @ join '','' (map dumps_compact xs) @ '']''"
| "dumps_compact (JObj kvs) =
     ''{'' @ join '','' (map (\<lambda>(k, v). dumps_str k @ '':'' @ dumps_compact v) kvs) @ ''}''"
  by pat_completeness auto

termination dumps_compact
  by (relation "measure size") (auto dest: size_elem size_obj_elem)

definition history_reply :: "json \<Rightarrow> json list \<Rightarrow> json \<Rightarrow> json" where
  "history_reply rid turns summary = JObj [(''id'', rid), (''result'', with_turns turns summary)]"

definition error_reply :: "json \<Rightarrow> json" where
  "error_reply rid =
     JObj [(''id'', rid), (''error'', JObj [(''code'', JInt (- 32001)),
       (''message'', JStr ''Legacy history could not be read safely'')])]"

section \<open>A connection\<close>

text \<open>The parameters of one \<open>_handle_full_read\<close>.\<close>

record history_read =
  rd_id :: json
  rd_thread :: string
  rd_raw :: frame

text \<open>
  Where an intercepted read is suspended: at the lock of its thread (with the message), in a
  send before the \<open>try\<close>, in \<open>_new_helper\<close> or a call of the helper, in a send, or in the
  helper's \<open>close\<close>. The flag says whether there is a helper, the values are the summary and
  the message sent.
\<close>

datatype read_pc =
    F_lock string json frame
  | F_plain string frame
  | F_connect history_read
  | F_summary history_read
  | F_forward history_read json bool
  | F_connect_tail history_read json
  | F_tail history_read json
  | F_reply history_read json json bool
  | F_fallback history_read json bool
  | F_close string

text \<open>What went to the App Server and to the client; an entry of a read has its task.\<close>

datatype app_out = Relay frame | Read_relay nat frame | Control_call string string json

datatype tui_out = Relayed frame | Reply nat json

record tui_conn =
  summaries :: "string \<rightharpoonup> json"
  pending_summary_reads :: "json \<rightharpoonup> string"
  tail_cache :: "string \<rightharpoonup> json list"
  history_locks :: "string \<rightharpoonup> nat"
  reads :: "nat \<rightharpoonup> read_pc"
  next_read :: nat
  internal_requests :: "string \<rightharpoonup> reply_future"
  internal_ids :: "string list"
  to_app :: "app_out list"
  to_tui :: "tui_out list"
  to_session :: "frame list"
  shown :: "(string \<times> json) list"
  ended :: bool

definition fresh_conn :: tui_conn where
  "fresh_conn = \<lparr>summaries = Map.empty, pending_summary_reads = Map.empty, tail_cache = Map.empty,
     history_locks = Map.empty, reads = Map.empty, next_read = 0, internal_requests = Map.empty,
     internal_ids = [], to_app = [], to_tui = [], to_session = [], shown = [], ended = False\<rparr>"

definition relay :: "frame \<Rightarrow> tui_conn \<Rightarrow> (tui_conn, unit) outcome" where
  "relay f s = (s\<lparr>to_app := to_app s @ [Relay f]\<rparr>, Inr ())"

section \<open>From the client\<close>

text \<open>
  One round of \<open>client_to_upstream\<close>. A message that changes a session goes through the
  session bridge.
\<close>

definition client_frame :: "proxy_options \<Rightarrow> bool \<Rightarrow> frame \<Rightarrow> tui_conn \<Rightarrow> (tui_conn, unit) outcome" where
  "client_frame opts session f s =
     (case decode_object f of
        None \<Rightarrow> relay f s
      | Some m \<Rightarrow>
          (case (if session then str_in (jget ''method'' m) control_methods else Inr False) of
             Inl e \<Rightarrow> (s, Inl e)
           | Inr True \<Rightarrow> (s\<lparr>to_session := to_session s @ [f]\<rparr>, Inr ())
           | Inr False \<Rightarrow>
               if jget ''method'' m \<noteq> JStr ''thread/read'' then relay f s
               else
                 (case (json_id m, jget ''params'' m) of
                    (Some rid, JObj params) \<Rightarrow>
                      (case jfield ''threadId'' params of
                         JStr thr \<Rightarrow>
                           if thr = [] then relay f s
                           else if jfield ''includeTurns'' params \<noteq> JBool True
                           then relay f (s\<lparr>pending_summary_reads := (pending_summary_reads s)(rid \<mapsto> thr)\<rparr>)
                           else if legacy_history_mode opts = ''off'' then relay f s
                           else (s\<lparr>reads := (reads s)(next_read s \<mapsto> F_lock thr m f),
                                   next_read := Suc (next_read s)\<rparr>, Inr ())
                       | _ \<Rightarrow> relay f s)
                  | _ \<Rightarrow> relay f s)))"

section \<open>From the App Server\<close>

text \<open>A key of a dict must be hashable.\<close>

fun hashable :: "json \<Rightarrow> pyexc + unit" where
  "hashable (JArr _) = Inl (TypeError (''unhashable type: '' @ py_repr ''list''))"
| "hashable (JObj _) = Inl (TypeError (''unhashable type: '' @ py_repr ''dict''))"
| "hashable _ = Inr ()"

text \<open>The keys of \<open>internal_requests\<close> are texts. The result says whether the frame is done with.\<close>

definition internal_reply :: "json \<Rightarrow> tui_conn \<Rightarrow> (tui_conn, bool) outcome" where
  "internal_reply m s =
     (case hashable (jget ''id'' m) of
        Inl e \<Rightarrow> (s, Inl e)
      | Inr _ \<Rightarrow>
          (case jget ''id'' m of
             JStr k \<Rightarrow>
               (case internal_requests s k of
                  Some fut \<Rightarrow>
                    (if fut = Waiting
                     then s\<lparr>internal_requests := (internal_requests s)(k \<mapsto> Answered m)\<rparr> else s, Inr True)
                | None \<Rightarrow> (s, Inr (k \<in> set (internal_ids s))))
           | _ \<Rightarrow> (s, Inr False)))"

definition cache_summary :: "json \<Rightarrow> tui_conn \<Rightarrow> tui_conn" where
  "cache_summary m s =
     (let rid = json_id m;
          expected = (case rid of None \<Rightarrow> None | Some r \<Rightarrow> pending_summary_reads s r);
          s = (case rid of None \<Rightarrow> s
               | Some r \<Rightarrow> s\<lparr>pending_summary_reads := (pending_summary_reads s)(r := None)\<rparr>);
          result = jget ''result'' m in
      case thread_from_result result of
        None \<Rightarrow> s
      | Some th \<Rightarrow>
          (case (case proxy_thread_id th of Some t \<Rightarrow> Some t | None \<Rightarrow> expected) of
             None \<Rightarrow> s
           | Some t \<Rightarrow> s\<lparr>summaries := (summaries s)(t \<mapsto> without_turns result)\<rparr>))"

text \<open>A turn that started or completed: the cached tail of its thread is stale.\<close>

definition drop_tail :: "json \<Rightarrow> tui_conn \<Rightarrow> (tui_conn, unit) outcome" where
  "drop_tail m s =
     (case str_in (jget ''method'' m) [''turn/started'', ''turn/completed''] of
        Inl e \<Rightarrow> (s, Inl e)
      | Inr b \<Rightarrow>
          (if b \<and> is_dict (jget ''params'' m) \<and> is_str (jget ''threadId'' (jget ''params'' m))
           then s\<lparr>tail_cache := (tail_cache s)(str_of_json (jget ''threadId'' (jget ''params'' m)) := None)\<rparr>
           else s, Inr ()))"

text \<open>One round of \<open>upstream_to_client\<close>; \<open>observed\<close> is what \<open>observe\<close> returned or raised.\<close>

definition app_frame :: "bool \<Rightarrow> pyexc + unit \<Rightarrow> frame \<Rightarrow> tui_conn \<Rightarrow> (tui_conn, unit) outcome" where
  "app_frame session observed f s =
     (case decode_object f of
        None \<Rightarrow> (s\<lparr>to_tui := to_tui s @ [Relayed f]\<rparr>, Inr ())
      | Some m \<Rightarrow>
          and_then (if jhas ''method'' m then (s, Inr False) else internal_reply m s)
            (\<lambda>internal s.
               if internal then (s, Inr ())
               else
                 and_then (if session \<and> is_str (jget ''method'' m) \<and> is_dict (jget ''params'' m)
                           then (s\<lparr>shown := shown s @ [(str_of_json (jget ''method'' m), jget ''params'' m)]\<rparr>, observed)
                           else (s, Inr ()))
                   (\<lambda>_ s. and_then (drop_tail m s)
                      (\<lambda>_ s. let s = (if jhas ''method'' m then s else cache_summary m s) in
                              (s\<lparr>to_tui := to_tui s @ [Relayed f]\<rparr>, Inr ())))))"

section \<open>Control calls\<close>

definition remember_id :: "string \<Rightarrow> string list \<Rightarrow> string list" where
  "remember_id k ids =
     (let ids = (if k \<in> set ids then ids else ids @ [k]) in if length ids > 256 then tl ids else ids)"

text \<open>\<open>Peer.call\<close> up to its send, and after its future has a result.\<close>

definition call_start :: "string \<Rightarrow> string \<Rightarrow> json \<Rightarrow> tui_conn \<Rightarrow> tui_conn" where
  "call_start k meth params s =
     s\<lparr>internal_requests := (internal_requests s)(k \<mapsto> Waiting), internal_ids := remember_id k (internal_ids s),
       to_app := to_app s @ [Control_call k meth params]\<rparr>"

definition call_result :: "string \<Rightarrow> reply_future \<Rightarrow> pyexc + json" where
  "call_result meth fut =
     (case fut of
        Waiting \<Rightarrow> Inl (TimeoutError [])
      | Call_failed e \<Rightarrow> Inl e
      | Answered m \<Rightarrow>
          if jhas ''error'' m then Inl (AppServerError (meth @ '': '' @ json_str (jget ''error'' m)))
          else Inr (jget ''result'' m))"

definition call_end :: "string \<Rightarrow> tui_conn \<Rightarrow> tui_conn" where
  "call_end k s = s\<lparr>internal_requests := (internal_requests s)(k := None)\<rparr>"

section \<open>Intercepted reads\<close>

definition park :: "nat \<Rightarrow> read_pc \<Rightarrow> tui_conn \<Rightarrow> tui_conn" where
  "park t pc s = s\<lparr>reads := (reads s)(t \<mapsto> pc)\<rparr>"

definition end_read :: "nat \<Rightarrow> string \<Rightarrow> tui_conn \<Rightarrow> tui_conn" where
  "end_read t thr s = s\<lparr>reads := (reads s)(t := None), history_locks := (history_locks s)(thr := None)\<rparr>"

text \<open>The \<open>finally\<close>: a helper is closed, then the lock is released.\<close>

definition leave_read :: "nat \<Rightarrow> string \<Rightarrow> bool \<Rightarrow> tui_conn \<Rightarrow> tui_conn" where
  "leave_read t thr helper s = (if helper then park t (F_close thr) s else end_read t thr s)"

text \<open>The \<open>except Exception\<close>; a cancellation passes.\<close>

definition read_failed ::
  "nat \<Rightarrow> history_read \<Rightarrow> json option \<Rightarrow> bool \<Rightarrow> pyexc \<Rightarrow> tui_conn \<Rightarrow> tui_conn" where
  "read_failed t rd summary helper e s =
     (if e = CancelledError then leave_read t (rd_thread rd) helper s
      else
        (case summary of
           Some smm \<Rightarrow>
             (case thread_from_result smm of
                Some _ \<Rightarrow> park t (F_fallback rd (history_reply (rd_id rd) [] smm) helper) s
              | None \<Rightarrow> park t (F_fallback rd (error_reply (rd_id rd)) helper) s)
         | None \<Rightarrow> park t (F_fallback rd (error_reply (rd_id rd)) helper) s))"

definition read_reply ::
  "proxy_options \<Rightarrow> nat \<Rightarrow> history_read \<Rightarrow> json \<Rightarrow> json list \<Rightarrow> bool \<Rightarrow> tui_conn \<Rightarrow> tui_conn" where
  "read_reply opts t rd smm turns helper s =
     (case thread_from_result smm of
        None \<Rightarrow> read_failed t rd (Some smm) helper (AssertionError []) s
      | Some _ \<Rightarrow>
          let full = history_reply (rd_id rd) turns smm in
          park t (F_reply rd smm
                    (if int (length (dumps_compact full)) > helper_max_message_bytes opts
                     then history_reply (rd_id rd) [] smm else full) helper) s)"

text \<open>From the summary on: relay the request, ask for the tail, or answer.\<close>

definition read_decide ::
  "host \<Rightarrow> proxy_options \<Rightarrow> stat_fun \<Rightarrow> nat \<Rightarrow> history_read \<Rightarrow> json \<Rightarrow> bool \<Rightarrow> tui_conn \<Rightarrow> tui_conn" where
  "read_decide h opts stat t rd smm helper s =
     (case thread_from_result smm of
        None \<Rightarrow> read_failed t rd (Some smm) helper (AssertionError []) s
      | Some th \<Rightarrow>
          if history_mode th \<noteq> Some ''legacy'' then park t (F_forward rd smm helper) s
          else
            (case rollout_size h stat th of
               Inl e \<Rightarrow> read_failed t rd (Some smm) helper e s
             | Inr sz \<Rightarrow>
                 let mode = legacy_history_mode opts;
                     large = (case sz of None \<Rightarrow> True | Some n \<Rightarrow> n \<ge> history_threshold_bytes opts) in
                 if \<not> (mode = ''omit'' \<or> mode = ''auto'' \<and> large) then park t (F_forward rd smm helper) s
                 else if mode = ''auto''
                 then (case tail_cache s (rd_thread rd) of
                         Some turns \<Rightarrow> read_reply opts t rd smm turns helper s
                       | None \<Rightarrow> if helper then park t (F_tail rd smm) s
                                else park t (F_connect_tail rd smm) s)
                 else read_reply opts t rd smm [] helper s))"

definition read_start ::
  "host \<Rightarrow> proxy_options \<Rightarrow> stat_fun \<Rightarrow> nat \<Rightarrow> string \<Rightarrow> json \<Rightarrow> frame \<Rightarrow> tui_conn \<Rightarrow> tui_conn" where
  "read_start h opts stat t thr m f s =
     (let s = s\<lparr>history_locks := (history_locks s)(thr \<mapsto> t)\<rparr> in
      case (json_id m, jget ''params'' m) of
        (Some rid, JObj params) \<Rightarrow>
          (case jfield ''threadId'' params of
             JStr requested \<Rightarrow>
               let rd = \<lparr>rd_id = rid, rd_thread = requested, rd_raw = f\<rparr> in
               (case summaries s requested of
                  None \<Rightarrow> park t (F_connect rd) s
                | Some smm \<Rightarrow> read_decide h opts stat t rd smm False s)
           | _ \<Rightarrow> park t (F_plain thr f) s)
      | _ \<Rightarrow> park t (F_plain thr f) s)"

definition read_summary ::
  "host \<Rightarrow> proxy_options \<Rightarrow> stat_fun \<Rightarrow> nat \<Rightarrow> history_read \<Rightarrow> pyexc + json \<Rightarrow> tui_conn \<Rightarrow> tui_conn" where
  "read_summary h opts stat t rd reply s =
     (case reply of
        Inl e \<Rightarrow> read_failed t rd None True e s
      | Inr res \<Rightarrow>
          (case thread_from_result res of
             None \<Rightarrow> read_failed t rd None True (AppServerError ''thread/read returned no thread summary'') s
           | Some _ \<Rightarrow>
               let smm = without_turns res in
               read_decide h opts stat t rd smm True (s\<lparr>summaries := (summaries s)(rd_thread rd \<mapsto> smm)\<rparr>)))"

text \<open>Whatever goes wrong with the tail, the turns are empty; either way they are cached.\<close>

definition tail_turns :: "pyexc + json \<Rightarrow> json list" where
  "tail_turns reply =
     (case reply of
        Inl _ \<Rightarrow> []
      | Inr page \<Rightarrow> (case jget ''data'' page of JArr newest_first \<Rightarrow> List.rev newest_first | _ \<Rightarrow> []))"

definition read_tail ::
  "proxy_options \<Rightarrow> nat \<Rightarrow> history_read \<Rightarrow> json \<Rightarrow> pyexc + json \<Rightarrow> tui_conn \<Rightarrow> tui_conn" where
  "read_tail opts t rd smm reply s =
     (if reply = Inl CancelledError then leave_read t (rd_thread rd) True s
      else let turns = tail_turns reply in
        read_reply opts t rd smm turns True (s\<lparr>tail_cache := (tail_cache s)(rd_thread rd \<mapsto> turns)\<rparr>))"

text \<open>A read that awaits a helper, a send or a close gets its result.\<close>

fun read_got ::
  "host \<Rightarrow> proxy_options \<Rightarrow> stat_fun \<Rightarrow> nat \<Rightarrow> read_pc \<Rightarrow> pyexc + json \<Rightarrow> tui_conn \<Rightarrow> tui_conn option" where
  "read_got h opts stat t (F_lock thr m f) r s = None"
| "read_got h opts stat t (F_plain thr f) r s =
     Some (end_read t thr (case r of Inl _ \<Rightarrow> s | Inr _ \<Rightarrow> s\<lparr>to_app := to_app s @ [Read_relay t f]\<rparr>))"
| "read_got h opts stat t (F_connect rd) r s =
     Some (case r of Inl e \<Rightarrow> read_failed t rd None False e s | Inr _ \<Rightarrow> park t (F_summary rd) s)"
| "read_got h opts stat t (F_summary rd) r s = Some (read_summary h opts stat t rd r s)"
| "read_got h opts stat t (F_forward rd smm helper) r s =
     Some (case r of
             Inl e \<Rightarrow> read_failed t rd (Some smm) helper e s
           | Inr _ \<Rightarrow> leave_read t (rd_thread rd) helper (s\<lparr>to_app := to_app s @ [Read_relay t (rd_raw rd)]\<rparr>))"
| "read_got h opts stat t (F_connect_tail rd smm) r s =
     Some (case r of Inl e \<Rightarrow> read_failed t rd (Some smm) False e s | Inr _ \<Rightarrow> park t (F_tail rd smm) s)"
| "read_got h opts stat t (F_tail rd smm) r s = Some (read_tail opts t rd smm r s)"
| "read_got h opts stat t (F_reply rd smm reply helper) r s =
     Some (case r of
             Inl e \<Rightarrow> read_failed t rd (Some smm) helper e s
           | Inr _ \<Rightarrow> leave_read t (rd_thread rd) helper (s\<lparr>to_tui := to_tui s @ [Reply t reply]\<rparr>))"
| "read_got h opts stat t (F_fallback rd reply helper) r s =
     Some (leave_read t (rd_thread rd) helper
             (case r of Inl _ \<Rightarrow> s | Inr _ \<Rightarrow> s\<lparr>to_tui := to_tui s @ [Reply t reply]\<rparr>))"
| "read_got h opts stat t (F_close thr) r s = Some (end_read t thr s)"

section \<open>The event loop\<close>

text \<open>The end: the waiting control calls fail, the intercepted reads are cancelled.\<close>

definition fail_waiting :: "reply_future \<Rightarrow> reply_future" where
  "fail_waiting fut = (if fut = Waiting then Call_failed (AppServerError ''owning TUI connection closed'') else fut)"

definition conn_end :: "tui_conn \<Rightarrow> tui_conn" where
  "conn_end s = s\<lparr>internal_requests := map_option fail_waiting \<circ> internal_requests s,
     reads := Map.empty, history_locks := Map.empty, ended := True\<rparr>"

text \<open>
  The events: a frame of the client, one of the App Server, a read that gets its lock, one
  that gets a result, a control call that starts, fails and ends, the end of a connection.
  An exception in one of the loops ends the connection.
\<close>

datatype tui_event =
    E_client frame
  | E_app "pyexc + unit" frame
  | E_lock stat_fun nat
  | E_got stat_fun nat "pyexc + json"
  | E_call string string json
  | E_call_failed string pyexc
  | E_call_end string
  | E_end

definition or_end :: "(tui_conn, unit) outcome \<Rightarrow> tui_conn" where
  "or_end res = (case res of (s, Inr _) \<Rightarrow> s | (s, Inl _) \<Rightarrow> conn_end s)"

fun tui_step :: "host \<Rightarrow> proxy_options \<Rightarrow> bool \<Rightarrow> tui_event \<Rightarrow> tui_conn \<Rightarrow> tui_conn option" where
  "tui_step h opts session (E_client f) s = Some (or_end (client_frame opts session f s))"
| "tui_step h opts session (E_app observed f) s = Some (or_end (app_frame session observed f s))"
| "tui_step h opts session (E_lock stat t) s =
     (case reads s t of
        Some (F_lock thr m f) \<Rightarrow>
          if history_locks s thr = None then Some (read_start h opts stat t thr m f s) else None
      | _ \<Rightarrow> None)"
| "tui_step h opts session (E_got stat t r) s =
     (case reads s t of None \<Rightarrow> None | Some pc \<Rightarrow> read_got h opts stat t pc r s)"
| "tui_step h opts session (E_call k meth params) s =
     (if internal_requests s k = None then Some (call_start k meth params s) else None)"
| "tui_step h opts session (E_call_failed k e) s =
     (if internal_requests s k = Some Waiting
      then Some (s\<lparr>internal_requests := (internal_requests s)(k \<mapsto> Call_failed e)\<rparr>) else None)"
| "tui_step h opts session (E_call_end k) s =
     (if internal_requests s k = None then None else Some (call_end k s))"
| "tui_step h opts session E_end s = Some (conn_end s)"

definition tstep :: "host \<Rightarrow> proxy_options \<Rightarrow> bool \<Rightarrow> tui_event \<Rightarrow> tui_conn \<Rightarrow> tui_conn option" where
  "tstep h opts session ev s = (if ended s then None else tui_step h opts session ev s)"

inductive tui_reach :: "host \<Rightarrow> proxy_options \<Rightarrow> bool \<Rightarrow> tui_conn \<Rightarrow> bool"
  for h opts session where
  fresh: "tui_reach h opts session fresh_conn"
| step: "tui_reach h opts session s \<Longrightarrow> tstep h opts session ev s = Some s' \<Longrightarrow> tui_reach h opts session s'"

fun run_tui :: "host \<Rightarrow> proxy_options \<Rightarrow> bool \<Rightarrow> tui_event list \<Rightarrow> tui_conn \<Rightarrow> tui_conn option" where
  "run_tui h opts session [] s = Some s"
| "run_tui h opts session (ev # evs) s =
     (case tstep h opts session ev s of None \<Rightarrow> None | Some s' \<Rightarrow> run_tui h opts session evs s')"

end
