(* ===== verification/Tui_Proxy_Inv.thy ===== *)
theory Tui_Proxy_Inv
  imports Tui_Proxy
begin

text \<open>
  What holds in every reachable state of a proxied connection, and the proof that every
  step keeps it: the locks belong to the reads that hold them, a read under way has not
  been answered, cached summaries have a thread without turns, and whatever is sent or
  about to be sent fits its request.
\<close>

section \<open>Well-formed values\<close>

definition summary_ok :: "json \<Rightarrow> bool" where
  "summary_ok smm \<longleftrightarrow> (\<exists>th. thread_from_result smm = Some th \<and> map_of th ''turns'' = None)"

text \<open>A request is relayed whole for these threads only.\<close>

definition may_relay :: "host \<Rightarrow> proxy_options \<Rightarrow> json \<Rightarrow> bool" where
  "may_relay h opts smm \<longleftrightarrow>
     (\<exists>th. thread_from_result smm = Some th \<and>
        (history_mode th \<noteq> Some ''legacy'' \<or>
         legacy_history_mode opts = ''auto'' \<and>
         (\<exists>stat n. rollout_size h stat th = Inr (Some n) \<and> n < history_threshold_bytes opts)))"

definition request_ok :: "history_read \<Rightarrow> bool" where
  "request_ok rd \<longleftrightarrow> (\<exists>m params. decode_object (rd_raw rd) = Some m \<and> json_id m = Some (rd_id rd)
     \<and> jget ''params'' m = JObj params \<and> jfield ''threadId'' params = JStr (rd_thread rd))"

text \<open>The answers to a request.\<close>

definition reply_for :: "proxy_options \<Rightarrow> json \<Rightarrow> json \<Rightarrow> bool" where
  "reply_for opts rid reply \<longleftrightarrow>
     reply = error_reply rid \<or>
     (\<exists>smm turns. summary_ok smm \<and> reply = history_reply rid turns smm \<and>
        (turns = [] \<or> int (length (dumps_compact reply)) \<le> helper_max_message_bytes opts))"

section \<open>Program points\<close>

fun read_thread :: "read_pc \<Rightarrow> string" where
  "read_thread (F_lock thr m f) = thr"
| "read_thread (F_plain thr f) = thr"
| "read_thread (F_connect rd) = rd_thread rd"
| "read_thread (F_summary rd) = rd_thread rd"
| "read_thread (F_forward rd smm helper) = rd_thread rd"
| "read_thread (F_connect_tail rd smm) = rd_thread rd"
| "read_thread (F_tail rd smm) = rd_thread rd"
| "read_thread (F_reply rd smm reply helper) = rd_thread rd"
| "read_thread (F_fallback rd reply helper) = rd_thread rd"
| "read_thread (F_close thr) = thr"

fun has_lock :: "read_pc \<Rightarrow> bool" where
  "has_lock (F_lock thr m f) = False"
| "has_lock _ = True"

fun unanswered :: "read_pc \<Rightarrow> bool" where
  "unanswered (F_close thr) = False"
| "unanswered _ = True"

fun pc_ok :: "host \<Rightarrow> proxy_options \<Rightarrow> read_pc \<Rightarrow> bool" where
  "pc_ok h opts (F_lock thr m f) =
     (\<exists>rid. request_ok \<lparr>rd_id = rid, rd_thread = thr, rd_raw = f\<rparr> \<and> decode_object f = Some m)"
| "pc_ok h opts (F_plain thr f) = False"
| "pc_ok h opts (F_connect rd) = request_ok rd"
| "pc_ok h opts (F_summary rd) = request_ok rd"
| "pc_ok h opts (F_forward rd smm helper) = (request_ok rd \<and> summary_ok smm \<and> may_relay h opts smm)"
| "pc_ok h opts (F_connect_tail rd smm) = (request_ok rd \<and> summary_ok smm)"
| "pc_ok h opts (F_tail rd smm) = (request_ok rd \<and> summary_ok smm)"
| "pc_ok h opts (F_reply rd smm reply helper) =
     (request_ok rd \<and> summary_ok smm \<and> reply_for opts (rd_id rd) reply)"
| "pc_ok h opts (F_fallback rd reply helper) = (request_ok rd \<and> reply_for opts (rd_id rd) reply)"
| "pc_ok h opts (F_close thr) = True"

fun app_read :: "app_out \<Rightarrow> nat option" where
  "app_read (Read_relay t f) = Some t"
| "app_read _ = None"

fun tui_read :: "tui_out \<Rightarrow> nat option" where
  "tui_read (Reply t r) = Some t"
| "tui_read (Relayed f) = None"

text \<open>How often a read was relayed or answered.\<close>

definition answers :: "tui_conn \<Rightarrow> nat \<Rightarrow> nat" where
  "answers s t = length (filter (\<lambda>x. app_read x = Some t) (to_app s))
               + length (filter (\<lambda>x. tui_read x = Some t) (to_tui s))"

section \<open>The invariant\<close>

definition caches_ok :: "proxy_options \<Rightarrow> tui_conn \<Rightarrow> bool" where
  "caches_ok opts s \<longleftrightarrow>
     (\<forall>thr smm. summaries s thr = Some smm \<longrightarrow> summary_ok smm) \<and>
     (\<forall>t r. Reply t r \<in> set (to_tui s) \<longrightarrow> (\<exists>rid. reply_for opts rid r)) \<and>
     (\<forall>t. answers s t \<le> 1) \<and> (\<forall>t \<ge> next_read s. answers s t = 0)"

text \<open>All of it but for one read \<open>t\<close>, which has the lock of the thread \<open>thr\<close>.\<close>

definition serving_read :: "host \<Rightarrow> proxy_options \<Rightarrow> nat \<Rightarrow> string \<Rightarrow> tui_conn \<Rightarrow> bool" where
  "serving_read h opts t thr s \<longleftrightarrow>
     caches_ok opts s \<and> t < next_read s \<and> legacy_history_mode opts \<noteq> ''off'' \<and>
     (\<forall>t' pc. t' \<noteq> t \<longrightarrow> reads s t' = Some pc \<longrightarrow>
        t' < next_read s \<and> pc_ok h opts pc \<and> (unanswered pc \<longrightarrow> answers s t' = 0)) \<and>
     (\<forall>thr' t'. history_locks s thr' = Some t' \<longleftrightarrow>
        (if t' = t then thr' = thr
         else \<exists>pc. reads s t' = Some pc \<and> has_lock pc \<and> read_thread pc = thr'))"

definition tui_inv :: "host \<Rightarrow> proxy_options \<Rightarrow> tui_conn \<Rightarrow> bool" where
  "tui_inv h opts s \<longleftrightarrow>
     caches_ok opts s \<and>
     (\<forall>t pc. reads s t = Some pc \<longrightarrow> t < next_read s \<and> legacy_history_mode opts \<noteq> ''off'' \<and>
        pc_ok h opts pc \<and> (unanswered pc \<longrightarrow> answers s t = 0)) \<and>
     (\<forall>thr t. history_locks s thr = Some t \<longleftrightarrow>
        (\<exists>pc. reads s t = Some pc \<and> has_lock pc \<and> read_thread pc = thr))"

lemma tui_invD:
  assumes "tui_inv h opts s"
  shows "caches_ok opts s"
    and "reads s t = Some pc \<Longrightarrow> t < next_read s \<and> legacy_history_mode opts \<noteq> ''off'' \<and>
           pc_ok h opts pc \<and> (unanswered pc \<longrightarrow> answers s t = 0)"
    and "history_locks s thr = Some t \<longleftrightarrow> (\<exists>pc. reads s t = Some pc \<and> has_lock pc \<and> read_thread pc = thr)"
  using assms by (simp_all add: tui_inv_def)

lemma serving_readI:
  assumes "tui_inv h opts s" "reads s t = Some pc" "has_lock pc"
  shows "serving_read h opts t (read_thread pc) s"
  unfolding serving_read_def
  using tui_invD(1,2) [OF assms(1)] tui_invD(3) [OF assms(1)] assms(2,3) by auto

lemma answers_frame [simp]:
  "answers (s\<lparr>reads := v\<rparr>) t = answers s t" "answers (s\<lparr>history_locks := w\<rparr>) t = answers s t"
  "answers (s\<lparr>summaries := x\<rparr>) t = answers s t" "answers (s\<lparr>tail_cache := y\<rparr>) t = answers s t"
  "answers (s\<lparr>next_read := n\<rparr>) t = answers s t" "answers (s\<lparr>pending_summary_reads := z\<rparr>) t = answers s t"
  "answers (s\<lparr>internal_requests := i\<rparr>) t = answers s t" "answers (s\<lparr>internal_ids := k\<rparr>) t = answers s t"
  "answers (s\<lparr>shown := q\<rparr>) t = answers s t" "answers (s\<lparr>to_session := j\<rparr>) t = answers s t"
  "answers (s\<lparr>ended := b\<rparr>) t = answers s t"
  "answers (s\<lparr>to_app := to_app s @ [a]\<rparr>) t = answers s t + of_bool (app_read a = Some t)"
  "answers (s\<lparr>to_tui := to_tui s @ [c]\<rparr>) t = answers s t + of_bool (tui_read c = Some t)"
  by (simp_all add: answers_def)

lemma caches_ok_frame [simp]:
  "caches_ok opts (s\<lparr>reads := v\<rparr>) = caches_ok opts s" "caches_ok opts (s\<lparr>history_locks := w\<rparr>) = caches_ok opts s"
  "caches_ok opts (s\<lparr>tail_cache := y\<rparr>) = caches_ok opts s"
  by (simp_all add: caches_ok_def)

lemma park_inv:
  assumes b: "serving_read h opts t thr s" and pc: "pc_ok h opts pc" "has_lock pc" "read_thread pc = thr"
    "unanswered pc \<Longrightarrow> answers s t = 0"
  shows "tui_inv h opts (park t pc s)"
proof -
  have c: "caches_ok opts s" "t < next_read s" "legacy_history_mode opts \<noteq> ''off''"
    using b by (simp_all add: serving_read_def)
  have r: "t' < next_read s \<and> pc_ok h opts q \<and> (unanswered q \<longrightarrow> answers s t' = 0)"
    if "t' \<noteq> t" "reads s t' = Some q" for t' q using b that by (simp add: serving_read_def)
  have l: "history_locks s thr' = Some t' \<longleftrightarrow>
      (if t' = t then thr' = thr else \<exists>q. reads s t' = Some q \<and> has_lock q \<and> read_thread q = thr')" for thr' t'
    using b by (simp add: serving_read_def)
  show ?thesis unfolding tui_inv_def park_def
  proof (intro conjI allI impI)
    fix thr' t'
    show "(history_locks (s\<lparr>reads := (reads s)(t \<mapsto> pc)\<rparr>) thr' = Some t') =
        (\<exists>q. reads (s\<lparr>reads := (reads s)(t \<mapsto> pc)\<rparr>) t' = Some q \<and> has_lock q \<and> read_thread q = thr')"
      using l [of thr' t'] pc(2,3) by auto
  qed (use c r pc in \<open>auto split: if_splits\<close>)
qed

lemma end_read_inv:
  assumes b: "serving_read h opts t thr s"
  shows "tui_inv h opts (end_read t thr s)"
proof -
  have c: "caches_ok opts s" "legacy_history_mode opts \<noteq> ''off''"
    using b by (simp_all add: serving_read_def)
  have r: "t' < next_read s \<and> pc_ok h opts q \<and> (unanswered q \<longrightarrow> answers s t' = 0)"
    if "t' \<noteq> t" "reads s t' = Some q" for t' q using b that by (simp add: serving_read_def)
  have l: "history_locks s thr' = Some t' \<longleftrightarrow>
      (if t' = t then thr' = thr else \<exists>q. reads s t' = Some q \<and> has_lock q \<and> read_thread q = thr')" for thr' t'
    using b by (simp add: serving_read_def)
  let ?s = "s\<lparr>reads := (reads s)(t := None), history_locks := (history_locks s)(thr := None)\<rparr>"
  show ?thesis unfolding tui_inv_def end_read_def
  proof (intro conjI allI impI)
    fix thr' t'
    have "history_locks s thr = Some t" using l [of thr t] by simp
    then show "(history_locks ?s thr' = Some t') =
        (\<exists>q. reads ?s t' = Some q \<and> has_lock q \<and> read_thread q = thr')"
      using l [of thr' t'] by auto
  qed (use c r in \<open>auto split: if_splits\<close>)
qed

lemma leave_read_inv: "serving_read h opts t thr s \<Longrightarrow> tui_inv h opts (leave_read t thr helper s)"
  by (auto simp: leave_read_def intro: end_read_inv park_inv)

section \<open>Reads\<close>

lemma reply_for_intros [simp, intro]:
  "reply_for opts rid (error_reply rid)"
  "summary_ok smm \<Longrightarrow> reply_for opts rid (history_reply rid [] smm)"
  "summary_ok smm \<Longrightarrow> \<not> int (length (dumps_compact (history_reply rid turns smm))) > helper_max_message_bytes opts
     \<Longrightarrow> reply_for opts rid (history_reply rid turns smm)"
  by (fastforce simp: reply_for_def)+

lemma summary_okD: "summary_ok smm \<Longrightarrow> \<exists>th. thread_from_result smm = Some th"
  by (auto simp: summary_ok_def)

lemma read_failed_inv:
  assumes "serving_read h opts t (rd_thread rd) s" "request_ok rd" "answers s t = 0"
    "\<And>smm. summary = Some smm \<Longrightarrow> summary_ok smm"
  shows "tui_inv h opts (read_failed t rd summary helper e s)"
  using assms unfolding read_failed_def
  by (auto split: option.splits intro!: leave_read_inv park_inv)

lemma read_reply_inv:
  assumes "serving_read h opts t (rd_thread rd) s" "request_ok rd" "answers s t = 0" "summary_ok smm"
  shows "tui_inv h opts (read_reply opts t rd smm turns helper s)"
  using assms unfolding read_reply_def
  by (auto simp: Let_def split: option.splits intro!: read_failed_inv park_inv)

lemma read_decide_inv:
  assumes "serving_read h opts t (rd_thread rd) s" "request_ok rd" "answers s t = 0" "summary_ok smm"
    and mode: "legacy_history_mode opts \<in> set valid_modes"
  shows "tui_inv h opts (read_decide h opts stat t rd smm helper s)"
proof -
  obtain th where th: "thread_from_result smm = Some th" using summary_okD [OF assms(4)] by blast
  have modes: "legacy_history_mode opts = ''auto'' \<or> legacy_history_mode opts = ''omit''"
    using mode assms(1) by (auto simp: valid_modes_def serving_read_def)
  have relay: "tui_inv h opts (park t (F_forward rd smm helper) s)" if "may_relay h opts smm"
    using assms(1-4) that by (auto intro: park_inv)
  have tail: "tui_inv h opts (park t (F_tail rd smm) s)" "tui_inv h opts (park t (F_connect_tail rd smm) s)"
    using assms(1-4) by (auto intro: park_inv)
  note reply = read_reply_inv [OF assms(1-4)]
  note failed = read_failed_inv [OF assms(1-3)]
  show ?thesis
  proof (cases "history_mode th = Some ''legacy''")
    case False
    then have "may_relay h opts smm" using th by (auto simp: may_relay_def)
    then show ?thesis using th False relay by (simp add: read_decide_def)
  next
    case True
    show ?thesis
    proof (cases "rollout_size h stat th")
      case (Inl e)
      then show ?thesis using th True failed [of "Some smm"] assms(4) by (simp add: read_decide_def)
    next
      case (Inr sz)
      have "may_relay h opts smm" if "legacy_history_mode opts = ''auto''" "sz = Some n" "n < history_threshold_bytes opts" for n
        using that th Inr by (auto simp: may_relay_def)
      then show ?thesis using th True Inr modes reply relay tail
        by (auto simp: read_decide_def Let_def not_le split: option.splits)
    qed
  qed
qed

lemma read_start_inv:
  assumes inv: "tui_inv h opts s" and pc: "reads s t = Some (F_lock thr m f)" and free: "history_locks s thr = None"
    and mode: "legacy_history_mode opts \<in> set valid_modes"
  shows "tui_inv h opts (read_start h opts stat t thr m f s)"
proof -
  let ?s = "s\<lparr>history_locks := (history_locks s)(thr \<mapsto> t)\<rparr>"
  have i: "t < next_read s" "legacy_history_mode opts \<noteq> ''off''" "answers s t = 0" "pc_ok h opts (F_lock thr m f)"
    using inv pc by (fastforce simp: tui_inv_def)+
  obtain rid params where m: "request_ok \<lparr>rd_id = rid, rd_thread = thr, rd_raw = f\<rparr>" "json_id m = Some rid"
    "jget ''params'' m = JObj params" "jfield ''threadId'' params = JStr thr"
    using i(4) by (auto simp: request_ok_def)
  have nolock: "history_locks s thr' \<noteq> Some t" for thr' using inv pc by (auto simp: tui_inv_def)
  have busy: "serving_read h opts t thr ?s"
    using inv i(1,2) nolock free unfolding tui_inv_def serving_read_def caches_ok_def
    by (simp split: if_splits) (metis option.distinct(1) option.inject)
  have ok: "summary_ok smm" if "summaries s thr = Some smm" for smm
    using inv that by (auto simp: tui_inv_def caches_ok_def)
  let ?rd = "\<lparr>rd_id = rid, rd_thread = thr, rd_raw = f\<rparr>"
  have "tui_inv h opts (park t (F_connect ?rd) ?s)" using busy m(1) i(3) by (auto intro: park_inv)
  moreover have "tui_inv h opts (read_decide h opts stat t ?rd smm False ?s)" if "summaries s thr = Some smm" for smm
    using busy m(1) i(3) ok [OF that] mode by (intro read_decide_inv) auto
  ultimately show ?thesis using m by (simp add: read_start_def Let_def split: option.splits)
qed

lemma map_of_dict_pop [simp]: "map_of (dict_pop k kvs) = (map_of kvs)(k := None)"
  unfolding dict_pop_def by (induction kvs) (auto simp: fun_eq_iff)

lemma thread_of_map_thread:
  "thread_from_result res = Some th \<Longrightarrow> thread_from_result (map_thread f res) = Some (f th)"
  by (cases res) (auto simp: thread_from_result_def map_thread_def jfield_dict_set split: json.splits)

lemma without_turns_ok: "thread_from_result res = Some th \<Longrightarrow> summary_ok (without_turns res)"
  by (simp add: summary_ok_def without_turns_def thread_of_map_thread)

lemma serving_read_put:
  assumes "serving_read h opts t thr s"
  shows "serving_read h opts t thr (s\<lparr>tail_cache := v\<rparr>)"
    and "summary_ok smm \<Longrightarrow> serving_read h opts t thr (s\<lparr>summaries := (summaries s)(k \<mapsto> smm)\<rparr>)"
  using assms by (auto simp: serving_read_def caches_ok_def)

text \<open>Sending the answer of the read that is served.\<close>

lemma serving_read_sent:
  assumes "serving_read h opts t thr s" "answers s t = 0"
  shows "serving_read h opts t thr (s\<lparr>to_app := to_app s @ [Read_relay t f]\<rparr>)"
    and "reply_for opts rid reply \<Longrightarrow> serving_read h opts t thr (s\<lparr>to_tui := to_tui s @ [Reply t reply]\<rparr>)"
  using assms by (auto simp: serving_read_def caches_ok_def)

lemma read_got_inv:
  assumes inv: "tui_inv h opts s" and pc: "reads s t = Some pc" and g: "read_got h opts stat t pc r s = Some s'"
    and mode: "legacy_history_mode opts \<in> set valid_modes"
  shows "tui_inv h opts s'"
proof -
  have ok: "pc_ok h opts pc" and fresh: "unanswered pc \<Longrightarrow> answers s t = 0"
    using inv pc by (auto simp: tui_inv_def)
  have lock: "has_lock pc" using g by (cases pc) auto
  note busy = serving_readI [OF inv pc lock]
  note put = serving_read_put [OF busy] and sent = serving_read_sent [OF busy fresh]
  show ?thesis
  proof (cases pc)
    case (F_connect rd)
    then show ?thesis using g ok busy fresh by (auto split: sum.splits intro: read_failed_inv park_inv)
  next
    case (F_summary rd)
    then show ?thesis using g ok busy fresh put(2) mode
      by (auto simp: read_summary_def Let_def without_turns_ok split: sum.splits option.splits
          intro!: read_failed_inv read_decide_inv)
  next
    case (F_forward rd smm helper)
    then show ?thesis using g ok busy fresh sent(1) by (auto split: sum.splits intro!: read_failed_inv leave_read_inv)
  next
    case (F_connect_tail rd smm)
    then show ?thesis using g ok busy fresh by (auto split: sum.splits intro!: read_failed_inv park_inv)
  next
    case (F_tail rd smm)
    then show ?thesis using g ok busy fresh put(1)
      by (auto simp: read_tail_def Let_def intro!: leave_read_inv read_reply_inv)
  next
    case (F_reply rd smm reply helper)
    then show ?thesis using g ok busy fresh sent(2) by (auto split: sum.splits intro!: read_failed_inv leave_read_inv)
  next
    case (F_fallback rd reply helper)
    then show ?thesis using g ok busy fresh sent(2) by (auto split: sum.splits intro!: leave_read_inv)
  next
    case (F_close thr)
    then show ?thesis using g busy by (auto intro: end_read_inv)
  qed (use g ok in auto)
qed

section \<open>Frames\<close>

text \<open>Changes that concern neither reads nor what the invariant says of the caches.\<close>

definition same_reads :: "tui_conn \<Rightarrow> tui_conn \<Rightarrow> bool" where
  "same_reads s s' \<longleftrightarrow> reads s' = reads s \<and> next_read s' = next_read s \<and> history_locks s' = history_locks s \<and>
     answers s' = answers s \<and> (\<forall>t r. Reply t r \<in> set (to_tui s') \<longrightarrow> Reply t r \<in> set (to_tui s)) \<and>
     (\<forall>thr smm. summaries s' thr = Some smm \<longrightarrow> summaries s thr = Some smm \<or> summary_ok smm)"

lemma same_reads_inv: "tui_inv h opts s \<Longrightarrow> same_reads s s' \<Longrightarrow> tui_inv h opts s'"
  unfolding tui_inv_def
proof (elim conjE, intro conjI)
  assume "caches_ok opts s" "same_reads s s'"
  then show "caches_ok opts s'" unfolding caches_ok_def same_reads_def by (intro conjI) (simp_all, blast+)
qed (simp_all add: same_reads_def)

lemma same_reads_refl [simp]: "same_reads s s"
  by (simp add: same_reads_def)

lemma same_reads_trans: "same_reads s s' \<Longrightarrow> same_reads s' s'' \<Longrightarrow> same_reads s s''"
  unfolding same_reads_def by metis

lemma fun_answers [simp]: "answers (s\<lparr>to_tui := to_tui s @ [Relayed f]\<rparr>) = answers s"
  "answers (s\<lparr>to_app := to_app s @ [Relay f]\<rparr>) = answers s"
  "answers (s\<lparr>to_app := to_app s @ [Control_call k m p]\<rparr>) = answers s"
  by (simp_all add: fun_eq_iff)

lemma conn_end_inv: "tui_inv h opts s \<Longrightarrow> tui_inv h opts (conn_end s)"
  by (auto simp: tui_inv_def caches_ok_def conn_end_def answers_def)

lemma or_end_inv: "tui_inv h opts (fst res) \<Longrightarrow> tui_inv h opts (or_end res)"
  by (cases res) (auto simp: or_end_def conn_end_inv split: sum.splits)

lemma relay_same: "same_reads s (fst (relay f s))"
  by (simp add: relay_def same_reads_def)

lemma client_frame_inv:
  assumes inv: "tui_inv h opts s"
  shows "tui_inv h opts (fst (client_frame opts session f s))"
proof -
  note same = same_reads_inv [OF inv]
  have r: "tui_inv h opts (fst (relay f s))" by (rule same [OF relay_same])
  have p: "tui_inv h opts (fst (relay f (s\<lparr>pending_summary_reads := v\<rparr>)))" for v
    by (rule same) (simp add: relay_def same_reads_def fun_eq_iff answers_def)
  have q: "tui_inv h opts (s\<lparr>to_session := v\<rparr>)" for v by (rule same) (simp add: same_reads_def fun_eq_iff)
  have n: "tui_inv h opts (s\<lparr>reads := (reads s)(next_read s \<mapsto> F_lock thr m f), next_read := Suc (next_read s)\<rparr>)"
    if "decode_object f = Some m" "json_id m = Some rid" "jget ''params'' m = JObj params"
      "jfield ''threadId'' params = JStr thr" "legacy_history_mode opts \<noteq> ''off''" for m rid params thr
  proof -
    have "pc_ok h opts (F_lock thr m f)" using that by (auto simp: request_ok_def)
    moreover have "reads s (next_read s) = None"
      using inv by (cases "reads s (next_read s)") (auto simp: tui_inv_def)
    ultimately show ?thesis using inv that(5)
      unfolding tui_inv_def caches_ok_def by (auto simp: less_Suc_eq)
  qed
  show ?thesis
    unfolding client_frame_def using r p q n inv
    by (auto simp: Let_def split: option.splits sum.splits bool.splits json.splits if_splits)
qed

lemma internal_reply_same: "same_reads s (fst (internal_reply m s))"
  by (auto simp: internal_reply_def same_reads_def fun_eq_iff split: sum.splits json.splits option.splits)

lemma drop_tail_same: "same_reads s (fst (drop_tail m s))"
  by (auto simp: drop_tail_def same_reads_def fun_eq_iff split: sum.splits)

lemma cache_summary_same: "same_reads s (cache_summary m s)"
  by (auto simp: cache_summary_def same_reads_def fun_eq_iff Let_def without_turns_ok split: option.splits)

lemma same_reads_then:
  assumes "same_reads s (fst res)" "\<And>a s'. same_reads s s' \<Longrightarrow> same_reads s (fst (g a s'))"
  shows "same_reads s (fst (and_then res g))"
  using assms by (cases res) (auto simp: and_then_def split: sum.splits)

lemma app_frame_same: "same_reads s (fst (app_frame session observed f s))"
proof (cases "decode_object f")
  case None
  then show ?thesis by (simp add: app_frame_def same_reads_def)
next
  case (Some m)
  have shown: "same_reads s s' \<Longrightarrow> same_reads s (s'\<lparr>shown := v\<rparr>)" for s' v
    by (simp add: same_reads_def fun_eq_iff)
  have sent: "same_reads s s' \<Longrightarrow> same_reads s (s'\<lparr>to_tui := to_tui s' @ [Relayed f]\<rparr>)" for s'
    by (simp add: same_reads_def)
  have drop: "same_reads s s' \<Longrightarrow> same_reads s (fst (drop_tail m s'))" for s'
    using same_reads_trans drop_tail_same by blast
  have cache: "same_reads s s' \<Longrightarrow> same_reads s (cache_summary m s')" for s'
    using same_reads_trans cache_summary_same by blast
  show ?thesis unfolding app_frame_def Some option.case Let_def
    by (intro same_reads_then) (simp_all add: internal_reply_same shown sent drop cache same_reads_then)
qed

section \<open>Every step\<close>

theorem tui_step_inv:
  assumes inv: "tui_inv h opts s" and mode: "legacy_history_mode opts \<in> set valid_modes"
    and st: "tstep h opts session ev s = Some s'"
  shows "tui_inv h opts s'"
proof -
  have st: "tui_step h opts session ev s = Some s'" using st by (simp add: tstep_def split: if_splits)
  note same = same_reads_inv [OF inv]
  show ?thesis
  proof (cases ev)
    case (E_client f)
    then show ?thesis using st client_frame_inv [OF inv] by (auto intro: or_end_inv)
  next
    case (E_app obs f)
    then show ?thesis using st same [OF app_frame_same] by (auto intro: or_end_inv)
  next
    case (E_lock stat t)
    then show ?thesis using st read_start_inv [OF inv _ _ mode] by (auto split: option.splits read_pc.splits if_splits)
  next
    case (E_got stat t r)
    then show ?thesis using st read_got_inv [OF inv _ _ mode] by (auto split: option.splits)
  next
    case (E_call k m p)
    then show ?thesis using st
      by (auto simp: call_start_def same_reads_def fun_eq_iff answers_def split: if_splits intro!: same)
  next
    case (E_call_failed k e)
    then show ?thesis using st by (auto simp: same_reads_def fun_eq_iff split: if_splits intro!: same)
  next
    case (E_call_end k)
    then show ?thesis using st by (auto simp: call_end_def same_reads_def fun_eq_iff split: if_splits intro!: same)
  next
    case E_end
    then show ?thesis using st conn_end_inv [OF inv] by auto
  qed
qed

lemma fresh_inv: "tui_inv h opts fresh_conn"
  by (simp add: tui_inv_def caches_ok_def fresh_conn_def answers_def)

lemma tui_reach_inv:
  assumes "tui_reach h opts session s" "legacy_history_mode opts \<in> set valid_modes"
  shows "tui_inv h opts s"
  using assms by induction (auto intro: fresh_inv tui_step_inv)

end
