(* ===== verification/Tui_Proxy_Claims.thy ===== *)
theory Tui_Proxy_Claims
  imports Tui_Proxy_Inv
begin

text \<open>
  The properties of a proxied connection: what an intercepted read is answered with, that
  it is answered once, what is never relayed, and that replies to the bridge's own calls
  stay hidden from the terminal client.
\<close>

section \<open>What a step sends\<close>

text \<open>Until a send has succeeded a read sends nothing and concerns no other read.\<close>

lemma leave_read_frame [frame_simps]:
  "to_app (leave_read t thr b s) = to_app s" "to_tui (leave_read t thr b s) = to_tui s"
  "summaries (leave_read t thr b s) = summaries s"
  "t' \<noteq> t \<Longrightarrow> reads (leave_read t thr b s) t' = reads s t'" "ended (leave_read t thr b s) = ended s"
  by (simp_all add: leave_read_def park_def end_read_def)

lemma read_failed_frame [frame_simps]:
  "to_app (read_failed t rd smm b e s) = to_app s" "to_tui (read_failed t rd smm b e s) = to_tui s"
  "summaries (read_failed t rd smm b e s) = summaries s"
  "t' \<noteq> t \<Longrightarrow> reads (read_failed t rd smm b e s) t' = reads s t'" "ended (read_failed t rd smm b e s) = ended s"
  by (simp_all add: read_failed_def park_def frame_simps split: option.splits)

lemma read_reply_frame [frame_simps]:
  "to_app (read_reply opts t rd smm turns b s) = to_app s" "to_tui (read_reply opts t rd smm turns b s) = to_tui s"
  "summaries (read_reply opts t rd smm turns b s) = summaries s"
  "t' \<noteq> t \<Longrightarrow> reads (read_reply opts t rd smm turns b s) t' = reads s t'"
  "ended (read_reply opts t rd smm turns b s) = ended s"
  by (simp_all add: read_reply_def park_def Let_def frame_simps split: option.splits)

lemma read_decide_frame [frame_simps]:
  "to_app (read_decide h opts stat t rd smm b s) = to_app s" "to_tui (read_decide h opts stat t rd smm b s) = to_tui s"
  "summaries (read_decide h opts stat t rd smm b s) = summaries s"
  "t' \<noteq> t \<Longrightarrow> reads (read_decide h opts stat t rd smm b s) t' = reads s t'"
  "ended (read_decide h opts stat t rd smm b s) = ended s"
  by (simp_all add: read_decide_def park_def Let_def frame_simps split: option.splits sum.splits)

lemma read_start_frame [frame_simps]:
  "to_app (read_start h opts stat t thr m f s) = to_app s" "to_tui (read_start h opts stat t thr m f s) = to_tui s"
  "summaries (read_start h opts stat t thr m f s) = summaries s"
  "t' \<noteq> t \<Longrightarrow> reads (read_start h opts stat t thr m f s) t' = reads s t'"
  "ended (read_start h opts stat t thr m f s) = ended s"
  by (simp_all add: read_start_def park_def Let_def frame_simps split: option.splits json.splits)

text \<open>The log of a connection grows by at most one entry; those of reads come from a send that succeeded.\<close>

definition grows :: "'a list \<Rightarrow> 'a set \<Rightarrow> 'a list \<Rightarrow> bool" where
  "grows xs A ys \<longleftrightarrow> ys = xs \<or> (\<exists>a \<in> A. ys = xs @ [a])"

lemma grows_refl [simp]: "grows xs A xs"
  by (simp add: grows_def)

lemma grows_append [simp]: "grows xs A (xs @ [a]) \<longleftrightarrow> a \<in> A"
  by (auto simp: grows_def)

lemma or_end_frame [simp]:
  "to_app (or_end res) = to_app (fst res)" "to_tui (or_end res) = to_tui (fst res)"
  "summaries (or_end res) = summaries (fst res)"
  by (cases res; auto simp: or_end_def conn_end_def split: sum.splits)+

lemma client_frame_sends:
  "grows (to_app s) (range Relay) (to_app (fst (client_frame opts session f s)))"
  "to_tui (fst (client_frame opts session f s)) = to_tui s"
  "summaries (fst (client_frame opts session f s)) = summaries s"
  by (auto simp: client_frame_def relay_def split: option.splits sum.splits bool.splits json.splits)

lemma app_frame_sends:
  "to_app (fst (app_frame session observed f s)) = to_app s"
  "grows (to_tui s) {Relayed f} (to_tui (fst (app_frame session observed f s)))"
proof -
  have internal: "to_app (fst (internal_reply m s)) = to_app s" "to_tui (fst (internal_reply m s)) = to_tui s" for m s
    by (auto simp: internal_reply_def split: sum.splits json.splits option.splits)
  have drop: "to_app (fst (drop_tail m s)) = to_app s" "to_tui (fst (drop_tail m s)) = to_tui s" for m s
    by (auto simp: drop_tail_def split: sum.splits)
  have cache: "to_app (cache_summary m s) = to_app s" "to_tui (cache_summary m s) = to_tui s" for m s
    by (auto simp: cache_summary_def Let_def split: option.splits)
  let ?P = "\<lambda>s'. to_app s' = to_app s \<and> to_tui s' = to_tui s"
  let ?Q = "\<lambda>s'. to_app s' = to_app s \<and> grows (to_tui s) {Relayed f} (to_tui s')"
  have last: "?Q (fst (and_then (drop_tail m s') (\<lambda>_ s. let s = (if jhas ''method'' m then s else cache_summary m s) in
                 (s\<lparr>to_tui := to_tui s @ [Relayed f]\<rparr>, Inr ()))))" if "?P s'" for m s'
    using that drop [of m s'] cache [of m]
    by (cases "drop_tail m s'") (auto simp: and_then_def Let_def split: sum.splits)
  have mid: "?Q (fst (and_then (if session \<and> is_str (jget ''method'' m) \<and> is_dict (jget ''params'' m)
                then (s'\<lparr>shown := v\<rparr>, observed) else (s', Inr ())) 
             (\<lambda>_ s. and_then (drop_tail m s) (\<lambda>_ s. let s = (if jhas ''method'' m then s else cache_summary m s) in
                 (s\<lparr>to_tui := to_tui s @ [Relayed f]\<rparr>, Inr ())))))" if "?P s'" for m s' v
    using that last [of s' m] last [of "s'\<lparr>shown := v\<rparr>" m] by (cases observed) auto
  have "?Q (fst (app_frame session observed f s))"
  proof (cases "decode_object f")
    case None
    then show ?thesis by (simp add: app_frame_def)
  next
    case (Some m)
    obtain s' r where i: "(if jhas ''method'' m then (s, Inr False) else internal_reply m s) = (s', r)" by fastforce
    then have "?P s'" using internal [of m s] by (auto split: if_splits)
    then show ?thesis unfolding app_frame_def Some option.case i using mid [of s' m]
      by (cases r) auto
  qed
  then show "to_app (fst (app_frame session observed f s)) = to_app s"
    "grows (to_tui s) {Relayed f} (to_tui (fst (app_frame session observed f s)))" by simp_all
qed

lemma step_sends:
  assumes inv: "tui_inv h opts s" and st: "tstep h opts session ev s = Some s'"
  shows "grows (to_app s) (range Relay \<union> {Control_call k m p | k m p. True} \<union>
             {Read_relay t (rd_raw rd) | t rd smm b. reads s t = Some (F_forward rd smm b)}) (to_app s')"
    and "grows (to_tui s) (range Relayed \<union>
             {Reply t r | t r rd smm b. reads s t = Some (F_reply rd smm r b) \<or> reads s t = Some (F_fallback rd r b)}) (to_tui s')"
proof -
  have st: "tui_step h opts session ev s = Some s'" using st by (simp add: tstep_def split: if_splits)
  let ?A = "range Relay \<union> {Control_call k m p | k m p. True} \<union>
             {Read_relay t (rd_raw rd) | t rd smm b. reads s t = Some (F_forward rd smm b)}"
  let ?T = "range Relayed \<union>
             {Reply t r | t r rd smm b. reads s t = Some (F_reply rd smm r b) \<or> reads s t = Some (F_fallback rd r b)}"
  have mono: "grows xs A ys \<Longrightarrow> A \<subseteq> B \<Longrightarrow> grows xs B ys" for xs ys and A B :: "'z set" by (auto simp: grows_def)
  have "grows (to_app s) ?A (to_app s') \<and> grows (to_tui s) ?T (to_tui s')"
  proof (cases ev)
    case (E_client f)
    have "grows (to_app s) ?A (to_app (fst (client_frame opts session f s)))"
      by (rule mono [OF client_frame_sends(1)]) auto
    then show ?thesis using st E_client client_frame_sends(2) by (auto simp: or_end_frame)
  next
    case (E_app obs f)
    have "grows (to_tui s) ?T (to_tui (fst (app_frame session obs f s)))"
      by (rule mono [OF app_frame_sends(2)]) auto
    then show ?thesis using st E_app app_frame_sends(1) by (auto simp: or_end_frame)
  next
    case (E_lock stat t)
    then show ?thesis using st by (auto simp: frame_simps split: option.splits read_pc.splits if_splits)
  next
    case (E_got stat t r)
    then obtain pc where pc: "reads s t = Some pc" "read_got h opts stat t pc r s = Some s'"
      using st by (auto split: option.splits)
    have "pc_ok h opts pc" using tui_invD(2) [OF inv pc(1)] by simp
    then show ?thesis using pc
      by (cases pc) (auto simp: frame_simps park_def end_read_def read_summary_def read_tail_def Let_def
          split: sum.splits option.splits)
  qed (use st in \<open>auto simp: call_start_def call_end_def conn_end_def split: if_splits\<close>)
  then show "grows (to_app s) ?A (to_app s')" "grows (to_tui s) ?T (to_tui s')" by auto
qed

section \<open>Runs\<close>

definition proxy_demo_host :: host where
  "proxy_demo_host = \<lparr>env_var = \<lambda>_. None, expanduser = Inr, resolve_strict = Inr, resolve_lax = id,
     is_directory = \<lambda>_. True, which = \<lambda>_. None\<rparr>"

definition proxy_demo_opts :: "string \<Rightarrow> proxy_options" where
  "proxy_demo_opts mode = \<lparr>legacy_history_mode = mode, history_threshold_bytes = 1000, history_tail_turns = 5,
     helper_max_message_bytes = 500\<rparr>"

definition no_file :: stat_fun where
  "no_file p = Inl (FileNotFoundError [])"

definition json_frame :: "jfields \<Rightarrow> frame" where
  "json_frame kvs = Frame (dumps_compact (JObj kvs)) (Some (JObj kvs))"

definition old_thread :: json where
  "old_thread = JObj [(''thread'', JObj [(''id'', JStr ''T''), (''historyMode'', JStr ''legacy'')])]"

definition summary_frame :: frame where
  "summary_frame = json_frame [(''id'', JInt 1), (''result'', old_thread)]"

definition full_read :: "int \<Rightarrow> frame" where
  "full_read i = json_frame [(''id'', JInt i), (''method'', JStr ''thread/read''),
     (''params'', JObj [(''threadId'', JStr ''T''), (''includeTurns'', JBool True)])]"

definition turn_page :: "string \<Rightarrow> json" where
  "turn_page t = JObj [(''data'', JArr [JStr t, JStr ''t0''])]"

definition turn_completed :: frame where
  "turn_completed = json_frame [(''method'', JStr ''turn/completed''), (''params'', JObj [(''threadId'', JStr ''T'')])]"

definition sent_ok :: "nat \<Rightarrow> tui_event" where
  "sent_ok t = E_got no_file t (Inr JNull)"

definition asked :: "tui_event list" where
  "asked = [E_app (Inr ()) summary_frame, E_client (full_read 2)]"

definition tail_asked :: "tui_event list" where
  "tail_asked = asked @ [E_lock no_file 0, sent_ok 0]"

abbreviation proxy_demo_run :: "string \<Rightarrow> tui_event list \<Rightarrow> tui_conn option" where
  "proxy_demo_run mode evs \<equiv> run_tui proxy_demo_host (proxy_demo_opts mode) True evs fresh_conn"

lemma run_tui_append: "run_tui h opts session (xs @ ys) s =
    (case run_tui h opts session xs s of None \<Rightarrow> None | Some s' \<Rightarrow> run_tui h opts session ys s')"
  by (induction xs arbitrary: s) (auto split: option.splits)

lemma run_tui_reach:
  "tui_reach h opts session s \<Longrightarrow> run_tui h opts session evs s = Some s' \<Longrightarrow> tui_reach h opts session s'"
  by (induction evs arbitrary: s) (auto split: option.splits intro: tui_reach.step)

lemmas proxy_demo_reach = run_tui_reach [OF tui_reach.fresh]

lemma proxy_demo_mode [simp]: "legacy_history_mode (proxy_demo_opts mode) = mode"
  by (simp add: proxy_demo_opts_def)

section \<open>Answers\<close>

text \<open>The file system does not cancel the coroutine that asks it.\<close>

fun event_stat :: "tui_event \<Rightarrow> stat_fun option" where
  "event_stat (E_lock stat t) = Some stat"
| "event_stat (E_got stat t r) = Some stat"
| "event_stat _ = None"

definition under_way :: "tui_conn \<Rightarrow> nat \<Rightarrow> bool" where
  "under_way s t \<longleftrightarrow> (\<exists>pc. reads s t = Some pc \<and> unanswered pc)"

lemma park_under_way [simp]: "unanswered pc \<Longrightarrow> under_way (park t pc s) t"
  by (simp add: under_way_def park_def)

lemma read_failed_under_way: "e \<noteq> CancelledError \<Longrightarrow> under_way (read_failed t rd smm b e s) t"
  by (simp add: read_failed_def split: option.splits)

lemma read_reply_under_way: "under_way (read_reply opts t rd smm turns b s) t"
  by (simp add: read_reply_def Let_def read_failed_under_way split: option.splits)

lemma read_decide_under_way:
  assumes "\<And>th. rollout_size h stat th \<noteq> Inl CancelledError"
  shows "under_way (read_decide h opts stat t rd smm b s) t"
proof (cases "thread_from_result smm")
  case None
  then show ?thesis by (simp add: read_decide_def read_failed_under_way)
next
  case (Some th)
  show ?thesis
  proof (cases "rollout_size h stat th")
    case (Inl e)
    then have "e \<noteq> CancelledError" using assms [of th] by auto
    then show ?thesis using Some Inl by (simp add: read_decide_def read_failed_under_way)
  next
    case (Inr sz)
    then show ?thesis using Some
      by (simp add: read_decide_def Let_def read_reply_under_way split: option.splits)
  qed
qed

lemma read_start_under_way:
  "(\<And>th. rollout_size h stat th \<noteq> Inl CancelledError) \<Longrightarrow> under_way (read_start h opts stat t thr m f s) t"
  by (auto simp: read_start_def Let_def read_decide_under_way split: option.splits json.splits)

text \<open>
  C8. Every read is answered, and once: an intercepted \<open>thread/read\<close> is never relayed or
  answered more than once, and when it is no longer under way it was relayed or answered
  exactly once; excepted are a cancellation and a client that takes not even the fallback.
\<close>

theorem read_answered_once:
  assumes reach: "tui_reach h opts session s" and mode: "legacy_history_mode opts \<in> set valid_modes"
    and t: "reads s t = Some pc" "unanswered pc" and st: "tstep h opts session ev s = Some s'"
    and fs: "\<And>stat th. event_stat ev = Some stat \<Longrightarrow> rollout_size h stat th \<noteq> Inl CancelledError"
  shows "answers s' t \<le> 1 \<and>
    (answers s' t = 1 \<or> under_way s' t \<or> ended s' \<or>
     (\<exists>stat e. ev = E_got stat t (Inl e) \<and> (e = CancelledError \<or> (\<exists>rd reply b. pc = F_fallback rd reply b))))"
    (is "_ \<and> ?exact")
proof
  note inv = tui_reach_inv [OF reach mode] and inv' = tui_reach_inv [OF tui_reach.step [OF reach st] mode]
  show "answers s' t \<le> 1" using tui_invD(1) [OF inv'] by (simp add: caches_ok_def)
  have zero: "answers s t = 0" and lt: "t < next_read s" and ok: "pc_ok h opts pc"
    using tui_invD(2) [OF inv t(1)] t(2) by simp_all
  have st': "tui_step h opts session ev s = Some s'" using st by (simp add: tstep_def split: if_splits)
  have kept: "?exact" if "reads s' t = reads s t" using that t by (auto simp: under_way_def)
  show ?exact
  proof (cases ev)
    case (E_client f)
    have "reads (fst (client_frame opts session f s)) t = reads s t"
      using lt by (auto simp: client_frame_def relay_def split: option.splits sum.splits bool.splits json.splits)
    then show ?thesis using st' E_client kept by (auto simp: or_end_def conn_end_def split: prod.splits sum.splits)
  next
    case (E_app obs f)
    have "reads (fst (app_frame session obs f s)) t = reads s t" using app_frame_same by (simp add: same_reads_def)
    then show ?thesis using st' E_app kept by (auto simp: or_end_def conn_end_def split: prod.splits sum.splits)
  next
    case (E_lock stat t')
    show ?thesis
    proof (cases "t' = t")
      case True
      then show ?thesis using st' E_lock t fs read_start_under_way [of h stat]
        by (auto split: read_pc.splits if_splits)
    next
      case False
      then have "reads s' t = reads s t" using st' E_lock
        by (auto simp: frame_simps split: option.splits read_pc.splits if_splits)
      then show ?thesis by (rule kept)
    qed
  next
    case (E_got stat t' r)
    then obtain pc' where pc': "reads s t' = Some pc'" "read_got h opts stat t' pc' r s = Some s'"
      using st' by (auto split: option.splits)
    show ?thesis
    proof (cases "t' = t")
      case False
      then have "reads s' t = reads s t" using pc'(2)
        by (cases pc') (auto simp: frame_simps park_def end_read_def read_summary_def read_tail_def Let_def
            split: sum.splits option.splits)
      then show ?thesis by (rule kept)
    next
      case True
      have g: "read_got h opts stat t pc r s = Some s'" using pc' t(1) True by simp
      have leave: "answers (leave_read t thr b s0) t = answers s0 t" for thr b s0
        by (simp add: answers_def frame_simps)
      have fs: "\<And>th. rollout_size h stat th \<noteq> Inl CancelledError" using fs E_got by simp
      show ?thesis
      proof (cases r)
        case (Inl e)
        then show ?thesis using g t(2) ok zero E_got True leave
          by (cases "e = CancelledError")
            (cases pc; auto simp: read_summary_def read_tail_def Let_def read_failed_under_way read_reply_under_way)+
      next
        case (Inr v)
        then show ?thesis using g t(2) ok zero read_decide_under_way [OF fs] leave
          by (cases pc) (auto simp: read_summary_def read_tail_def Let_def read_failed_under_way read_reply_under_way
              split: option.splits)
      qed
    qed
  next
    case E_end
    then show ?thesis using st' by (auto simp: conn_end_def)
  qed (use st' kept in \<open>auto simp: call_start_def call_end_def split: if_splits\<close>)
qed

lemma forwarded: "map_option (\<lambda>s. (reads s 0, legacy_history_mode (proxy_demo_opts ''auto''), answers s 0,
      map_option (\<lambda>s'. (answers s' 0, reads s' 0)) (tstep proxy_demo_host (proxy_demo_opts ''auto'') True (sent_ok 0) s)))
    (proxy_demo_run ''auto'' (tail_asked @ [E_got no_file 0 (Inr (turn_page ''t1''))])) =
    Some (Some (F_reply \<lparr>rd_id = JInt 2, rd_thread = ''T'', rd_raw = full_read 2\<rparr> old_thread
        (history_reply (JInt 2) [JStr ''t0'', JStr ''t1''] old_thread) True), ''auto'', 0,
      Some (1, Some (F_close ''T'')))"
  by code_simp

theorem read_answered_once_witness:
  "\<exists>s s'. proxy_demo_run ''auto'' (tail_asked @ [E_got no_file 0 (Inr (turn_page ''t1''))]) = Some s
     \<and> tstep proxy_demo_host (proxy_demo_opts ''auto'') True (sent_ok 0) s = Some s' \<and> answers s' 0 = 1 \<and> answers s' 0 \<le> 1"
proof -
  obtain s s' where s: "proxy_demo_run ''auto'' (tail_asked @ [E_got no_file 0 (Inr (turn_page ''t1''))]) = Some s"
    "tstep proxy_demo_host (proxy_demo_opts ''auto'') True (sent_ok 0) s = Some s'" "answers s' 0 = 1"
    and pc: "reads s 0 = Some (F_reply \<lparr>rd_id = JInt 2, rd_thread = ''T'', rd_raw = full_read 2\<rparr> old_thread
        (history_reply (JInt 2) [JStr ''t0'', JStr ''t1''] old_thread) True)"
    using forwarded by (auto simp del: run_tui.simps)
  have "rollout_size proxy_demo_host stat th \<noteq> Inl CancelledError" if "event_stat (sent_ok 0) = Some stat" for stat th
    using that by (auto simp: sent_ok_def rollout_size_def rollout_path_def proxy_demo_host_def bindr_def no_file_def
        Let_def split: json.splits option.splits)
  with read_answered_once [OF proxy_demo_reach [OF s(1)] _ pc _ s(2)] have "answers s' 0 \<le> 1"
    by (simp add: valid_modes_def)
  then show ?thesis using s by blast
qed

text \<open>
  C28. What a terminal client gets for an intercepted read fits the read and the frame limit:
  it has the id of the read's own message, and is either the fixed error or the summary of a
  thread with some turns, where turns are only there when the whole message stays within the
  limit.
\<close>

theorem replies_fit_requests:
  assumes reach: "tui_reach h opts session s" and mode: "legacy_history_mode opts \<in> set valid_modes"
    and st: "tstep h opts session ev s = Some s'" and new: "to_tui s' = to_tui s @ [Reply t r]"
  shows "\<exists>pc rd m. reads s t = Some pc \<and> (\<exists>smm b. pc = F_reply rd smm r b \<or> pc = F_fallback rd r b)
     \<and> decode_object (rd_raw rd) = Some m \<and> json_id m = Some (rd_id rd)
     \<and> (r = error_reply (rd_id rd) \<or>
        (\<exists>smm th turns. thread_from_result smm = Some th \<and> r = history_reply (rd_id rd) turns smm
           \<and> (turns = [] \<or> int (length (dumps_compact r)) \<le> helper_max_message_bytes opts)))"
proof -
  note inv = tui_reach_inv [OF reach mode]
  obtain rd smm b where pc: "reads s t = Some (F_reply rd smm r b) \<or> reads s t = Some (F_fallback rd r b)"
    using step_sends(2) [OF inv st] new by auto
  then obtain q where q: "reads s t = Some q" "q = F_reply rd smm r b \<or> q = F_fallback rd r b" by blast
  have ok: "request_ok rd" "reply_for opts (rd_id rd) r" using tui_invD(2) [OF inv q(1)] q(2) by auto
  from ok(1) obtain m where m: "decode_object (rd_raw rd) = Some m" "json_id m = Some (rd_id rd)"
    by (auto simp: request_ok_def)
  have "r = error_reply (rd_id rd) \<or>
        (\<exists>smm th turns. thread_from_result smm = Some th \<and> r = history_reply (rd_id rd) turns smm
           \<and> (turns = [] \<or> int (length (dumps_compact r)) \<le> helper_max_message_bytes opts))"
    using ok(2) unfolding reply_for_def using summary_okD by metis
  then show ?thesis using q m by blast
qed

definition tail_reply :: json where
  "tail_reply = history_reply (JInt 2) [JStr ''t0'', JStr ''t1''] old_thread"

theorem replies_fit_requests_witness:
  "\<exists>s s'. proxy_demo_run ''auto'' (tail_asked @ [E_got no_file 0 (Inr (turn_page ''t1''))]) = Some s
     \<and> tstep proxy_demo_host (proxy_demo_opts ''auto'') True (sent_ok 0) s = Some s'
     \<and> (\<exists>pc rd m. reads s 0 = Some pc \<and> (\<exists>smm b. pc = F_reply rd smm tail_reply b \<or> pc = F_fallback rd tail_reply b)
     \<and> decode_object (rd_raw rd) = Some m \<and> json_id m = Some (rd_id rd)
     \<and> (tail_reply = error_reply (rd_id rd) \<or>
        (\<exists>smm th turns. thread_from_result smm = Some th \<and> tail_reply = history_reply (rd_id rd) turns smm
           \<and> (turns = [] \<or> int (length (dumps_compact tail_reply)) \<le> helper_max_message_bytes (proxy_demo_opts ''auto'')))))"
proof -
  obtain s s' where s: "proxy_demo_run ''auto'' (tail_asked @ [E_got no_file 0 (Inr (turn_page ''t1''))]) = Some s"
    "tstep proxy_demo_host (proxy_demo_opts ''auto'') True (sent_ok 0) s = Some s'"
    and pc: "reads s 0 = Some (F_reply \<lparr>rd_id = JInt 2, rd_thread = ''T'', rd_raw = full_read 2\<rparr> old_thread tail_reply True)"
    using forwarded unfolding tail_reply_def by (auto simp del: run_tui.simps)
  have new: "to_tui s' = to_tui s @ [Reply 0 tail_reply]"
    using s(2) pc by (auto simp: tstep_def sent_ok_def leave_read_def park_def split: if_splits)
  have mode: "legacy_history_mode (proxy_demo_opts ''auto'') \<in> set valid_modes" by (simp add: valid_modes_def)
  show ?thesis
    by (intro exI [of _ s] exI [of _ s'] conjI s replies_fit_requests [OF proxy_demo_reach [OF s(1)] mode s(2) new])
qed

section \<open>What is not relayed\<close>

text \<open>What one question to the file system says of a thread that may be relayed whole.\<close>

definition small_history :: "host \<Rightarrow> proxy_options \<Rightarrow> stat_fun \<Rightarrow> json \<Rightarrow> bool" where
  "small_history h opts stat smm \<longleftrightarrow>
     (\<exists>th. thread_from_result smm = Some th \<and>
        (history_mode th \<noteq> Some ''legacy'' \<or>
         legacy_history_mode opts = ''auto'' \<and>
         (\<exists>n. rollout_size h stat th = Inr (Some n) \<and> n < history_threshold_bytes opts)))"

lemma leave_read_forward [simp]: "reads (leave_read t thr b s) t \<noteq> Some (F_forward rd smm b')"
  by (simp add: leave_read_def park_def end_read_def)

lemma park_forward [simp]: "reads (park t pc s) t = Some pc"
  by (simp add: park_def)

lemma read_failed_forward [simp]: "reads (read_failed t rd sm b e s) t \<noteq> Some (F_forward rd' smm b')"
  by (simp add: read_failed_def split: option.splits)

lemma read_reply_forward [simp]: "reads (read_reply opts t rd sm turns b s) t \<noteq> Some (F_forward rd' smm b')"
  by (simp add: read_reply_def Let_def split: option.splits)

lemma read_decide_forward:
  assumes "reads (read_decide h opts stat t rd sm b s) t = Some (F_forward rd' smm b')"
    and "legacy_history_mode opts = ''auto'' \<or> legacy_history_mode opts = ''omit''"
  shows "small_history h opts stat smm"
  using assms
  by (auto simp: read_decide_def small_history_def Let_def not_le split: option.splits if_splits sum.splits)

lemma read_start_forward:
  assumes "reads (read_start h opts stat t thr m f s) t = Some (F_forward rd smm b)"
    and "legacy_history_mode opts = ''auto'' \<or> legacy_history_mode opts = ''omit''"
  shows "small_history h opts stat smm"
  using assms by (auto simp: read_start_def Let_def read_decide_forward split: option.splits json.splits)

lemma read_got_forward:
  assumes "read_got h opts stat t pc r s = Some s'" "reads s' t = Some (F_forward rd smm b)"
    and "legacy_history_mode opts = ''auto'' \<or> legacy_history_mode opts = ''omit''"
  shows "small_history h opts stat smm"
  using assms
  by (cases pc) (auto simp: read_summary_def read_tail_def end_read_def Let_def read_decide_forward
      split: sum.splits option.splits if_splits)

text \<open>The one step that decides for the relay, and what the file system said in it.\<close>

lemma forward_decided:
  assumes "tui_inv h opts s" "legacy_history_mode opts \<in> set valid_modes" "tstep h opts session e s = Some s'"
    and old: "reads s t \<noteq> Some (F_forward rd smm b)" and new: "reads s' t = Some (F_forward rd smm b)"
  shows "\<exists>stat. (e = E_lock stat t \<or> (\<exists>r. e = E_got stat t r)) \<and> small_history h opts stat smm"
proof -
  have st: "tui_step h opts session e s = Some s'" using assms(3) by (simp add: tstep_def split: if_splits)
  have inv': "tui_inv h opts s'" by (rule tui_step_inv [OF assms(1,2,3)])
  have mode: "legacy_history_mode opts = ''auto'' \<or> legacy_history_mode opts = ''omit''"
    using assms(2) tui_invD(2) [OF inv' new] by (auto simp: valid_modes_def)
  show ?thesis
  proof (cases e)
    case (E_client f)
    have "reads (fst (client_frame opts session f s)) t \<noteq> Some (F_forward rd smm b)" using old
      by (auto simp: client_frame_def relay_def split: option.splits sum.splits bool.splits json.splits)
    then show ?thesis using st E_client new by (auto simp: or_end_def conn_end_def split: prod.splits sum.splits)
  next
    case (E_app obs f)
    have "reads (fst (app_frame session obs f s)) t = reads s t" using app_frame_same by (simp add: same_reads_def)
    then show ?thesis using st E_app new old by (auto simp: or_end_def conn_end_def split: prod.splits sum.splits)
  next
    case (E_lock stat t')
    show ?thesis
    proof (cases "t' = t")
      case True
      then show ?thesis using st E_lock new mode
        by (auto split: option.splits read_pc.splits if_splits dest: read_start_forward)
    next
      case False
      then have "reads s' t = reads s t" using st E_lock
        by (auto simp: frame_simps split: option.splits read_pc.splits if_splits)
      then show ?thesis using old new by simp
    qed
  next
    case (E_got stat t' r)
    then obtain pc where pc: "reads s t' = Some pc" "read_got h opts stat t' pc r s = Some s'"
      using st by (auto split: option.splits)
    show ?thesis
    proof (cases "t' = t")
      case True
      then show ?thesis using E_got read_got_forward [OF pc(2) [unfolded True] new mode] by auto
    next
      case False
      then have "reads s' t = reads s t" using pc(2)
        by (cases pc) (auto simp: frame_simps park_def end_read_def read_summary_def read_tail_def Let_def
            split: sum.splits option.splits)
      then show ?thesis using old new by simp
    qed
  next
    case E_end
    then show ?thesis using st new by (auto simp: conn_end_def)
  qed (use st old new in \<open>auto simp: call_start_def call_end_def split: if_splits\<close>)
qed

lemma forward_was_decided:
  assumes "run_tui h opts session evs fresh_conn = Some s" and mode: "legacy_history_mode opts \<in> set valid_modes"
    and "reads s t = Some (F_forward rd smm b)"
  shows "\<exists>evs1 e evs2 s1 s2 stat. evs = evs1 @ e # evs2 \<and> run_tui h opts session evs1 fresh_conn = Some s1
     \<and> tstep h opts session e s1 = Some s2 \<and> reads s1 t \<noteq> Some (F_forward rd smm b) \<and> reads s2 t = Some (F_forward rd smm b)
     \<and> (e = E_lock stat t \<or> (\<exists>r. e = E_got stat t r)) \<and> small_history h opts stat smm"
  using assms
proof (induction evs arbitrary: s rule: rev_induct)
  case Nil
  then show ?case by (auto simp: fresh_conn_def)
next
  case (snoc e evs)
  obtain s1 where s1: "run_tui h opts session evs fresh_conn = Some s1" "tstep h opts session e s1 = Some s"
    using snoc.prems(1) by (auto simp: run_tui_append split: option.splits)
  show ?case
  proof (cases "reads s1 t = Some (F_forward rd smm b)")
    case False
    have "tui_inv h opts s1" by (rule tui_reach_inv [OF run_tui_reach [OF tui_reach.fresh s1(1)] mode])
    from forward_decided [OF this mode s1(2) False snoc.prems(3)] show ?thesis
      using s1 False snoc.prems(3) by blast
  next
    case True
    from snoc.IH [OF s1(1) mode True] obtain evs1 e' evs2 where "evs = evs1 @ e' # evs2"
      "\<exists>s1 s2 stat. run_tui h opts session evs1 fresh_conn = Some s1
     \<and> tstep h opts session e' s1 = Some s2 \<and> reads s1 t \<noteq> Some (F_forward rd smm b) \<and> reads s2 t = Some (F_forward rd smm b)
     \<and> (e' = E_lock stat t \<or> (\<exists>r. e' = E_got stat t r)) \<and> small_history h opts stat smm" by blast
    then show ?thesis by (intro exI [of _ evs1] exI [of _ e'] exI [of _ "evs2 @ [e]"]) auto
  qed
qed

text \<open>
  C16. A large history does not reach the terminal: the message of an intercepted read is only
  relayed to the App Server when, in the step of that very read that decided for the relay, the
  thread was not a Legacy one, or, in the mode \<open>auto\<close>, what the file system said in that step
  was that its file is a regular one below the threshold.
\<close>

theorem large_history_not_relayed:
  assumes run: "run_tui h opts session evs fresh_conn = Some s" and mode: "legacy_history_mode opts \<in> set valid_modes"
    and st: "tstep h opts session ev s = Some s'" and new: "to_app s' = to_app s @ [Read_relay t f]"
  shows "\<exists>rd smm b th evs1 e evs2 s1 s2 stat. reads s t = Some (F_forward rd smm b) \<and> f = rd_raw rd
     \<and> thread_from_result smm = Some th
     \<and> evs = evs1 @ e # evs2 \<and> run_tui h opts session evs1 fresh_conn = Some s1 \<and> tstep h opts session e s1 = Some s2
     \<and> reads s1 t \<noteq> Some (F_forward rd smm b) \<and> reads s2 t = Some (F_forward rd smm b)
     \<and> (e = E_lock stat t \<or> (\<exists>r. e = E_got stat t r))
     \<and> (history_mode th \<noteq> Some ''legacy'' \<or>
        legacy_history_mode opts = ''auto'' \<and>
        (\<exists>n. rollout_size h stat th = Inr (Some n) \<and> n < history_threshold_bytes opts))"
proof -
  have inv: "tui_inv h opts s" by (rule tui_reach_inv [OF run_tui_reach [OF tui_reach.fresh run] mode])
  obtain rd smm b where pc: "reads s t = Some (F_forward rd smm b)" "f = rd_raw rd"
    using step_sends(1) [OF inv st] new by auto
  from forward_was_decided [OF run mode pc(1)] pc show ?thesis unfolding small_history_def by metis
qed

text \<open>A small file: the read is relayed, on the evidence of the question asked under the lock.\<close>

definition small_file :: stat_fun where
  "small_file p = Inr (True, 10)"

definition filed_summary :: frame where
  "filed_summary = json_frame [(''id'', JInt 1), (''result'', JObj [(''thread'',
     JObj [(''id'', JStr ''T''), (''historyMode'', JStr ''legacy''), (''path'', JStr ''/h'')])])]"

definition small_asked :: "tui_event list" where
  "small_asked = [E_app (Inr ()) filed_summary, E_client (full_read 2), E_lock small_file 0]"

lemma relayed_run: "map_option (\<lambda>s. map_option (\<lambda>s'. (to_app s, to_app s', map_option read_thread (reads s 0)))
      (tstep proxy_demo_host (proxy_demo_opts ''auto'') True (sent_ok 0) s))
    (proxy_demo_run ''auto'' small_asked) = Some (Some ([], [Read_relay 0 (full_read 2)], Some ''T''))"
  by code_simp

theorem large_history_not_relayed_witness:
  "\<exists>s s' rd smm b th evs1 e evs2 s1 s2 stat. proxy_demo_run ''auto'' small_asked = Some s
     \<and> tstep proxy_demo_host (proxy_demo_opts ''auto'') True (sent_ok 0) s = Some s' \<and> reads s 0 = Some (F_forward rd smm b)
     \<and> thread_from_result smm = Some th \<and> small_asked = evs1 @ e # evs2
     \<and> proxy_demo_run ''auto'' evs1 = Some s1 \<and> tstep proxy_demo_host (proxy_demo_opts ''auto'') True e s1 = Some s2
     \<and> reads s2 0 = Some (F_forward rd smm b) \<and> (e = E_lock stat 0 \<or> (\<exists>r. e = E_got stat 0 r))
     \<and> (history_mode th \<noteq> Some ''legacy'' \<or>
        (\<exists>n. rollout_size proxy_demo_host stat th = Inr (Some n) \<and> n < 1000))"
proof -
  obtain s s' where s: "proxy_demo_run ''auto'' small_asked = Some s"
    "tstep proxy_demo_host (proxy_demo_opts ''auto'') True (sent_ok 0) s = Some s'" "to_app s' = to_app s @ [Read_relay 0 (full_read 2)]"
    using relayed_run by (auto simp del: run_tui.simps)
  have "legacy_history_mode (proxy_demo_opts ''auto'') \<in> set valid_modes" by (simp add: valid_modes_def)
  moreover have "history_threshold_bytes (proxy_demo_opts ''auto'') = 1000" by (simp add: proxy_demo_opts_def)
  ultimately show ?thesis using s(1,2) large_history_not_relayed [OF s(1) _ s(2,3)] by metis
qed

text \<open>In the mode \<open>omit\<close>, on an App Server that only shows Legacy threads.\<close>

fun legacy_event :: "tui_event \<Rightarrow> bool" where
  "legacy_event (E_app obs f) = (\<forall>m th. decode_object f = Some m \<longrightarrow> thread_from_result (jget ''result'' m) = Some th \<longrightarrow>
     history_mode th = Some ''legacy'')"
| "legacy_event (E_got stat t (Inr v)) = (\<forall>th. thread_from_result v = Some th \<longrightarrow> history_mode th = Some ''legacy'')"
| "legacy_event _ = True"

definition legacy_summary :: "json \<Rightarrow> bool" where
  "legacy_summary smm \<longleftrightarrow> (\<exists>th. thread_from_result smm = Some th \<and> history_mode th = Some ''legacy'')"

definition hidden_inv :: "tui_conn \<Rightarrow> bool" where
  "hidden_inv s \<longleftrightarrow> (\<forall>thr smm. summaries s thr = Some smm \<longrightarrow> legacy_summary smm)
     \<and> (\<forall>t rd smm b. reads s t \<noteq> Some (F_forward rd smm b))"

lemma history_mode_pop [simp]: "history_mode (dict_pop ''turns'' th) = history_mode th"
  by (simp add: history_mode_def jget_default_def jfield_def)

lemma without_turns_legacy:
  "thread_from_result v = Some th \<Longrightarrow> history_mode th = Some ''legacy'' \<Longrightarrow> legacy_summary (without_turns v)"
  by (simp add: legacy_summary_def without_turns_def thread_of_map_thread)

lemma park_hidden:
  "hidden_inv s \<Longrightarrow> (\<And>rd smm b. pc \<noteq> F_forward rd smm b) \<Longrightarrow> hidden_inv (park t pc s)"
  by (auto simp: hidden_inv_def park_def)

lemma end_read_hidden: "hidden_inv s \<Longrightarrow> hidden_inv (end_read t thr s)"
  by (auto simp: hidden_inv_def end_read_def)

lemma leave_read_hidden: "hidden_inv s \<Longrightarrow> hidden_inv (leave_read t thr b s)"
  by (auto simp: leave_read_def intro: park_hidden end_read_hidden)

lemma read_failed_hidden: "hidden_inv s \<Longrightarrow> hidden_inv (read_failed t rd smm b e s)"
  by (auto simp: read_failed_def split: option.splits intro: park_hidden leave_read_hidden)

lemma read_reply_hidden: "hidden_inv s \<Longrightarrow> hidden_inv (read_reply opts t rd smm turns b s)"
  by (auto simp: read_reply_def Let_def split: option.splits intro: park_hidden read_failed_hidden)

lemma read_decide_hidden:
  assumes "hidden_inv s" "legacy_summary smm" "legacy_history_mode opts = ''omit''"
  shows "hidden_inv (read_decide h opts stat t rd smm b s)"
  using assms
  by (auto simp: read_decide_def legacy_summary_def split: sum.splits intro: read_failed_hidden read_reply_hidden)

lemma hidden_frame [simp]:
  "hidden_inv (s\<lparr>history_locks := v\<rparr>) = hidden_inv s" "hidden_inv (s\<lparr>tail_cache := w\<rparr>) = hidden_inv s"
  "hidden_inv (s\<lparr>to_app := x\<rparr>) = hidden_inv s" "hidden_inv (s\<lparr>to_tui := y\<rparr>) = hidden_inv s"
  by (simp_all add: hidden_inv_def)

lemma read_start_hidden:
  assumes i: "hidden_inv s" and m: "legacy_history_mode opts = ''omit''"
  shows "hidden_inv (read_start h opts stat t thr m f s)"
proof -
  have "legacy_summary smm" if "summaries s k = Some smm" for k smm using i that by (simp add: hidden_inv_def)
  then show ?thesis using i m
    by (auto simp: read_start_def Let_def split: option.splits json.splits intro!: park_hidden read_decide_hidden)
qed

lemma read_got_hidden:
  assumes i: "hidden_inv s" and m: "legacy_history_mode opts = ''omit''"
    and g: "read_got h opts stat t pc r s = Some s'" and leg: "legacy_event (E_got stat t r)"
  shows "hidden_inv s'"
proof -
  have put: "hidden_inv (s\<lparr>summaries := (summaries s)(k \<mapsto> smm)\<rparr>)" if "legacy_summary smm" for k smm
    using i that by (auto simp: hidden_inv_def)
  note rules = i park_hidden end_read_hidden leave_read_hidden read_failed_hidden read_reply_hidden
  show ?thesis
  proof (cases pc)
    case (F_summary rd)
    then show ?thesis using g m leg put without_turns_legacy
      by (auto simp: read_summary_def Let_def split: sum.splits option.splits intro!: read_decide_hidden read_failed_hidden i)
  qed (use g in \<open>auto simp: read_tail_def Let_def split: sum.splits intro!: rules\<close>)
qed

lemma client_frame_hidden: "hidden_inv s \<Longrightarrow> hidden_inv (fst (client_frame opts session f s))"
  unfolding client_frame_def relay_def hidden_inv_def
  by (auto split: option.splits sum.splits bool.splits json.splits)

lemma hidden_then:
  assumes "hidden_inv (fst res)" "\<And>a s'. hidden_inv s' \<Longrightarrow> hidden_inv (fst (g a s'))"
  shows "hidden_inv (fst (and_then res g))"
  using assms by (cases res) (auto simp: and_then_def split: sum.splits)

lemma app_frame_hidden:
  assumes i: "hidden_inv s" and leg: "legacy_event (E_app obs f)"
  shows "hidden_inv (fst (app_frame session obs f s))"
proof -
  have shown: "hidden_inv (s'\<lparr>shown := v\<rparr>)" if "hidden_inv s'" for s' v using that by (simp add: hidden_inv_def)
  have internal: "hidden_inv (fst (internal_reply m s))" for m using i
    by (auto simp: internal_reply_def hidden_inv_def split: sum.splits json.splits option.splits)
  have drop: "hidden_inv (fst (drop_tail m s'))" if "hidden_inv s'" for m s' using that
    by (auto simp: drop_tail_def hidden_inv_def split: sum.splits)
  have cache: "hidden_inv (cache_summary m s')" if "hidden_inv s'" "decode_object f = Some m" for m s'
    using that leg without_turns_legacy
    by (auto simp: cache_summary_def hidden_inv_def Let_def split: option.splits)
  show ?thesis
  proof (cases "decode_object f")
    case None
    then show ?thesis using i by (simp add: app_frame_def)
  next
    case (Some m)
    let ?relay = "\<lambda>s. let s = (if jhas ''method'' m then s else cache_summary m s) in
                    (s\<lparr>to_tui := to_tui s @ [Relayed f]\<rparr>, Inr ()) :: (tui_conn, unit) outcome"
    have relay: "hidden_inv (fst (and_then (drop_tail m s') (\<lambda>_. ?relay)))" if "hidden_inv s'" for s'
      by (rule hidden_then) (use that drop cache Some in \<open>simp_all add: Let_def\<close>)
    have rest: "hidden_inv (fst (and_then (if session \<and> is_str (jget ''method'' m) \<and> is_dict (jget ''params'' m)
        then (s'\<lparr>shown := v\<rparr>, obs) else (s', Inr ())) (\<lambda>_ s. and_then (drop_tail m s) (\<lambda>_. ?relay))))"
      if "hidden_inv s'" for s' v
      by (rule hidden_then) (use that relay shown in simp_all)
    show ?thesis unfolding app_frame_def Some option.case
      by (rule hidden_then) (use i internal rest in simp_all)
  qed
qed

lemma conn_end_hidden: "hidden_inv s \<Longrightarrow> hidden_inv (conn_end s)"
  by (simp add: conn_end_def hidden_inv_def)

lemma step_hidden:
  assumes i: "hidden_inv s" and m: "legacy_history_mode opts = ''omit''" and leg: "legacy_event ev"
    and st: "tstep h opts session ev s = Some s'"
  shows "hidden_inv s'"
proof -
  have st: "tui_step h opts session ev s = Some s'" using st by (simp add: tstep_def split: if_splits)
  have oe: "hidden_inv (or_end res)" if "hidden_inv (fst res)" for res
    using that by (cases res) (auto simp: or_end_def conn_end_hidden split: sum.splits)
  show ?thesis
  proof (cases ev)
    case (E_lock stat t)
    then show ?thesis using st read_start_hidden [OF i m] by (auto split: option.splits read_pc.splits if_splits)
  next
    case (E_got stat t r)
    then show ?thesis using st read_got_hidden [OF i m] leg by (auto split: option.splits)
  next
    case (E_client f)
    then show ?thesis using st oe [OF client_frame_hidden [OF i]] by auto
  next
    case (E_app obs f)
    then show ?thesis using st oe [OF app_frame_hidden [OF i]] leg by auto
  qed (use st i conn_end_hidden [OF i] in \<open>auto simp: call_start_def call_end_def hidden_inv_def split: if_splits\<close>)
qed

text \<open>
  The mode \<open>omit\<close> keeps its word: on an App Server whose threads are all Legacy ones no
  full read of the client is ever relayed, over any run.
\<close>

theorem omit_relays_no_history:
  assumes run: "run_tui h opts session evs fresh_conn = Some s" and mode: "legacy_history_mode opts = ''omit''"
    and legacy: "\<forall>ev \<in> set evs. legacy_event ev"
  shows "Read_relay t f \<notin> set (to_app s)"
proof -
  have modes: "legacy_history_mode opts \<in> set valid_modes" using mode by (simp add: valid_modes_def)
  have "Read_relay t f \<notin> set (to_app s)"
    if "run_tui h opts session evs s0 = Some s" "tui_reach h opts session s0" "hidden_inv s0"
      "Read_relay t f \<notin> set (to_app s0)" "\<forall>ev \<in> set evs. legacy_event ev" for s0
    using that
  proof (induction evs arbitrary: s0)
    case (Cons ev evs)
    then obtain s1 where s1: "tstep h opts session ev s0 = Some s1" "run_tui h opts session evs s1 = Some s"
      by (auto split: option.splits)
    have hid: "hidden_inv s1" by (rule step_hidden [OF Cons.prems(3) mode _ s1(1)]) (use Cons.prems(5) in auto)
    have "Read_relay t f \<notin> set (to_app s1)"
      using step_sends(1) [OF tui_reach_inv [OF Cons.prems(2) modes] s1(1)] Cons.prems(3,4)
      by (auto simp: grows_def hidden_inv_def)
    then show ?case using Cons.IH [OF s1(2) tui_reach.step [OF Cons.prems(2) s1(1)] hid] Cons.prems(5) by simp
  qed simp
  then show ?thesis using run legacy tui_reach.fresh by (simp add: hidden_inv_def fresh_conn_def)
qed

definition omit_run :: "tui_event list" where
  "omit_run = asked @ [E_lock no_file 0, sent_ok 0]"

lemma omit_runs: "map_option to_tui (proxy_demo_run ''omit'' omit_run) =
    Some [Relayed summary_frame, Reply 0 (history_reply (JInt 2) [] old_thread)]"
  by code_simp

theorem omit_relays_no_history_witness:
  "\<exists>s. proxy_demo_run ''omit'' omit_run = Some s \<and> Reply 0 (history_reply (JInt 2) [] old_thread) \<in> set (to_tui s)
     \<and> Read_relay 0 (full_read 2) \<notin> set (to_app s)"
proof -
  obtain s where s: "proxy_demo_run ''omit'' omit_run = Some s" "Reply 0 (history_reply (JInt 2) [] old_thread) \<in> set (to_tui s)"
    using omit_runs by (auto simp del: run_tui.simps)
  have "legacy_event ev" if "ev \<in> set omit_run" for ev
    using that by (auto simp: omit_run_def asked_def sent_ok_def summary_frame_def json_frame_def old_thread_def
        decode_object_def thread_from_result_def history_mode_def jget_default_def jfield_def lower_def lower_char_def
        split: json.splits)
  then show ?thesis using omit_relays_no_history [OF s(1)] s by auto
qed

section \<open>Control calls\<close>

lemma internal_ids_frame [frame_simps]:
  "internal_ids (leave_read t thr b s) = internal_ids s" "internal_ids (read_failed t rd smm b e s) = internal_ids s"
  "internal_ids (read_reply opts t rd j turns b s) = internal_ids s"
  "internal_ids (read_decide h opts stat t rd j b s) = internal_ids s"
  "internal_ids (read_start h opts stat t thr m f s) = internal_ids s"
  by (simp_all add: leave_read_def read_failed_def read_reply_def read_decide_def read_start_def park_def end_read_def
      Let_def split: option.splits sum.splits json.splits)

lemma internal_ids_frames:
  "internal_ids (fst (client_frame opts session f s)) = internal_ids s"
  "internal_ids (fst (app_frame session obs f s)) = internal_ids s"
proof -
  show "internal_ids (fst (client_frame opts session f s)) = internal_ids s"
    by (auto simp: client_frame_def relay_def split: option.splits sum.splits bool.splits json.splits)
  have then_ids: "internal_ids (fst (and_then res g)) = k"
    if "internal_ids (fst res) = k" "\<And>a s'. internal_ids s' = k \<Longrightarrow> internal_ids (fst (g a s')) = k"
    for res :: "(tui_conn, 'p) outcome" and g :: "'p \<Rightarrow> tui_conn \<Rightarrow> (tui_conn, 'q) outcome" and k
    using that by (cases res) (auto simp: and_then_def split: sum.splits)
  have internal: "internal_ids (fst (internal_reply m s)) = internal_ids s" for m s
    by (auto simp: internal_reply_def split: sum.splits json.splits option.splits)
  have drop: "internal_ids (fst (drop_tail m s)) = internal_ids s" for m s
    by (auto simp: drop_tail_def split: sum.splits)
  have cache: "internal_ids (cache_summary m s) = internal_ids s" for m s
    by (auto simp: cache_summary_def Let_def split: option.splits)
  show "internal_ids (fst (app_frame session obs f s)) = internal_ids s"
  proof (cases "decode_object f")
    case (Some m)
    obtain s1 r where i: "(if jhas ''method'' m then (s, Inr False) else internal_reply m s) = (s1, r)" by fastforce
    then have s1: "internal_ids s1 = internal_ids s" using internal [of m s] by (auto split: if_splits)
    obtain s2 q where q: "(if session \<and> is_str (jget ''method'' m) \<and> is_dict (jget ''params'' m)
        then (s1\<lparr>shown := shown s1 @ [(str_of_json (jget ''method'' m), jget ''params'' m)]\<rparr>, obs)
        else (s1, Inr ())) = (s2, q)" by fastforce
    then have s2: "internal_ids s2 = internal_ids s" using s1 by (auto split: if_splits)
    obtain s3 u where u: "drop_tail m s2 = (s3, u)" by fastforce
    then have s3: "internal_ids s3 = internal_ids s" using s2 drop [of m s2] by simp
    show ?thesis unfolding app_frame_def Some option.case i using s1 s2 s3 q u
      by (cases r; cases q; cases u) (simp_all add: Let_def cache)
  qed (simp add: app_frame_def)
qed

fun is_call :: "tui_event \<Rightarrow> bool" where
  "is_call (E_call k m p) = True"
| "is_call _ = False"

lemma step_internal_ids:
  assumes st: "tstep h opts session ev s = Some s'"
  shows "internal_ids s' = internal_ids s \<or> is_call ev \<and> (\<exists>k. internal_ids s' = remember_id k (internal_ids s))"
proof -
  have st: "tui_step h opts session ev s = Some s'" using st by (simp add: tstep_def split: if_splits)
  have oe: "internal_ids (or_end res) = internal_ids (fst res)" for res
    by (cases res) (auto simp: or_end_def conn_end_def split: sum.splits)
  show ?thesis
  proof (cases ev)
    case (E_got stat t r)
    then obtain pc where "reads s t = Some pc" "read_got h opts stat t pc r s = Some s'"
      using st by (auto split: option.splits)
    then have "internal_ids s' = internal_ids s"
      by (cases pc) (auto simp: frame_simps park_def end_read_def read_summary_def read_tail_def Let_def
          split: sum.splits option.splits)
    then show ?thesis by blast
  next
    case (E_call k m p)
    then show ?thesis using st by (auto simp: call_start_def split: if_splits)
  qed (use st in \<open>auto simp: oe internal_ids_frames frame_simps call_end_def conn_end_def
         split: option.splits read_pc.splits if_splits\<close>)
qed

text \<open>The newest ids are remembered: \<open>k\<close> is followed by at most \<open>n\<close> newer ones.\<close>

definition recent :: "nat \<Rightarrow> string \<Rightarrow> string list \<Rightarrow> bool" where
  "recent n k ids \<longleftrightarrow> (\<exists>xs ys. ids = xs @ k # ys \<and> length ys \<le> n)"

lemma recent_remember: "recent n k ids \<Longrightarrow> n < 255 \<Longrightarrow> recent (Suc n) k (remember_id j ids)"
proof -
  assume "recent n k ids" "n < 255"
  then obtain xs ys where ids: "ids = xs @ k # ys" "length ys \<le> n" by (auto simp: recent_def)
  let ?ys = "if j \<in> set ids then ys else ys @ [j]"
  have new: "(if j \<in> set ids then ids else ids @ [j]) = xs @ k # ?ys" using ids by simp
  have len: "length ?ys \<le> Suc n" using ids(2) by simp
  show "recent (Suc n) k (remember_id j ids)"
  proof (cases xs)
    case Nil
    have short: "\<not> length (k # ?ys) > 256" using len \<open>n < 255\<close> by simp
    have "remember_id j ids = k # ?ys" unfolding remember_id_def new Let_def Nil using short by (simp only: append_Nil if_False)
    then show ?thesis unfolding recent_def using len by (intro exI [of _ "[]"] exI [of _ ?ys]) simp
  next
    case (Cons x zs)
    have "remember_id j ids = xs @ k # ?ys \<or> remember_id j ids = zs @ k # ?ys"
      unfolding remember_id_def new Let_def Cons by simp
    then show ?thesis unfolding recent_def using len by blast
  qed
qed

lemma recent_mono: "recent n k ids \<Longrightarrow> n \<le> m \<Longrightarrow> recent m k ids"
  unfolding recent_def by (elim exE conjE, intro exI conjI, assumption, rule order_trans)

lemma run_recent:
  "run_tui h opts session evs s = Some s' \<Longrightarrow> recent n k (internal_ids s) \<Longrightarrow> n + length (filter is_call evs) < 256 \<Longrightarrow>
     recent (n + length (filter is_call evs)) k (internal_ids s')"
proof (induction evs arbitrary: s n)
  case (Cons ev evs)
  then obtain s1 where s1: "tstep h opts session ev s = Some s1" "run_tui h opts session evs s1 = Some s'"
    by (auto split: option.splits)
  show ?case
  proof (cases "is_call ev")
    case True
    then have n: "n < 255" using Cons.prems(3) by simp
    have "recent (Suc n) k (internal_ids s1)"
      using step_internal_ids [OF s1(1)] Cons.prems(2) n
      by (auto intro: recent_remember recent_mono [of n])
    from Cons.IH [OF s1(2) this] show ?thesis using Cons.prems(3) True by simp
  next
    case False
    then have "recent n k (internal_ids s1)" using step_internal_ids [OF s1(1)] Cons.prems(2) by auto
    from Cons.IH [OF s1(2) this] show ?thesis using Cons.prems(3) False by simp
  qed
qed simp

lemma remember_new: "k \<notin> set ids \<Longrightarrow> recent 0 k (remember_id k ids)"
  unfolding recent_def remember_id_def Let_def
  by (cases ids) auto

text \<open>
  C17. The bridge's own conversation stays hidden from the terminal: a reply to a control call,
  on time or however late, is not relayed as long as fewer than 256 newer control calls were
  made on the connection.
\<close>

theorem control_reply_hidden:
  assumes c: "tstep h opts session (E_call k meth params) s = Some s1" and new: "k \<notin> set (internal_ids s)"
    and run: "run_tui h opts session evs s1 = Some s2" and few: "length (filter is_call evs) < 256"
    and m: "decode_object f = Some m" "\<not> jhas ''method'' m" "jget ''id'' m = JStr k"
    and st: "tstep h opts session (E_app obs f) s2 = Some s3"
  shows "to_tui s3 = to_tui s2 \<and> summaries s3 = summaries s2"
proof -
  have "internal_ids s1 = remember_id k (internal_ids s)"
    using c by (auto simp: tstep_def call_start_def split: if_splits)
  then have "recent 0 k (internal_ids s1)" using remember_new [OF new] by simp
  from run_recent [OF run this] few have "k \<in> set (internal_ids s2)" by (auto simp: recent_def)
  then have "\<exists>s'. internal_reply m s2 = (s', Inr True) \<and> to_tui s' = to_tui s2 \<and> summaries s' = summaries s2"
    using m(3) by (auto simp: internal_reply_def split: option.splits)
  then show ?thesis using st m by (auto simp: tstep_def app_frame_def or_end_def split: if_splits)
qed

definition late_reply :: frame where
  "late_reply = json_frame [(''id'', JStr ''c1''), (''result'', JNull)]"

lemma late_runs: "map_option (\<lambda>s. (to_tui s, internal_requests s ''c1'')) (proxy_demo_run ''auto''
    [E_call ''c1'' ''thread/goal/get'' JNull, E_call_end ''c1'', E_call ''c2'' ''thread/goal/get'' JNull, E_app (Inr ()) late_reply]) =
    Some ([], None)"
  by code_simp

theorem control_reply_hidden_witness:
  "\<exists>s1 s2 s3. tstep proxy_demo_host (proxy_demo_opts ''auto'') True (E_call ''c1'' ''thread/goal/get'' JNull) fresh_conn = Some s1
     \<and> run_tui proxy_demo_host (proxy_demo_opts ''auto'') True [E_call_end ''c1'', E_call ''c2'' ''thread/goal/get'' JNull] s1 = Some s2
     \<and> internal_requests s3 ''c1'' = None
     \<and> tstep proxy_demo_host (proxy_demo_opts ''auto'') True (E_app (Inr ()) late_reply) s2 = Some s3 \<and> to_tui s3 = to_tui s2"
proof -
  have run: "run_tui h opts session (e # es) s = Some s' \<Longrightarrow>
      \<exists>s1. tstep h opts session e s = Some s1 \<and> run_tui h opts session es s1 = Some s'" for h opts session e es s s'
    by (auto split: option.splits)
  let ?evs = "[E_call_end ''c1'', E_call ''c2'' ''thread/goal/get'' JNull]"
  obtain s3 where s3: "proxy_demo_run ''auto'' (E_call ''c1'' ''thread/goal/get'' JNull # ?evs @ [E_app (Inr ()) late_reply]) = Some s3"
    "internal_requests s3 ''c1'' = None"
    using late_runs by (auto simp del: run_tui.simps)
  obtain s1 where s1: "tstep proxy_demo_host (proxy_demo_opts ''auto'') True (E_call ''c1'' ''thread/goal/get'' JNull) fresh_conn = Some s1"
    "run_tui proxy_demo_host (proxy_demo_opts ''auto'') True (?evs @ [E_app (Inr ()) late_reply]) s1 = Some s3"
    using run [OF s3(1)] by blast
  then obtain s2 where s2: "run_tui proxy_demo_host (proxy_demo_opts ''auto'') True ?evs s1 = Some s2"
    "run_tui proxy_demo_host (proxy_demo_opts ''auto'') True [E_app (Inr ()) late_reply] s2 = Some s3"
    by (auto simp only: run_tui_append split: option.splits)
  then have last: "tstep proxy_demo_host (proxy_demo_opts ''auto'') True (E_app (Inr ()) late_reply) s2 = Some s3"
    using run [OF s2(2)] by auto
  have "to_tui s3 = to_tui s2 \<and> summaries s3 = summaries s2"
    by (rule control_reply_hidden [OF s1(1) _ s2(1) _ _ _ _ last, where m = "JObj [(''id'', JStr ''c1''), (''result'', JNull)]"])
      (simp_all add: fresh_conn_def late_reply_def json_frame_def decode_object_def jfield_def)
  then show ?thesis using s1(1) s2(1) s3(2) last by blast
qed

section \<open>The visible tail\<close>

text \<open>A Legacy thread that is protected in the mode \<open>auto\<close>, whatever the file system says.\<close>

definition protected :: "host \<Rightarrow> proxy_options \<Rightarrow> stat_fun \<Rightarrow> json \<Rightarrow> bool" where
  "protected h opts stat smm \<longleftrightarrow>
     legacy_history_mode opts = ''auto'' \<and>
     (\<exists>th sz. thread_from_result smm = Some th \<and> history_mode th = Some ''legacy'' \<and>
        rollout_size h stat th = Inr sz \<and> (\<forall>n. sz = Some n \<longrightarrow> history_threshold_bytes opts \<le> n))"

lemma decide_protected:
  "protected h opts stat smm \<Longrightarrow> read_decide h opts stat t rd smm b s =
     (case tail_cache s (rd_thread rd) of
        Some turns \<Rightarrow> read_reply opts t rd smm turns b s
      | None \<Rightarrow> if b then park t (F_tail rd smm) s else park t (F_connect_tail rd smm) s)"
  by (auto simp: protected_def read_decide_def Let_def split: option.splits)

definition fitting :: "proxy_options \<Rightarrow> json \<Rightarrow> json list \<Rightarrow> json \<Rightarrow> json" where
  "fitting opts rid turns smm =
     (if int (length (dumps_compact (history_reply rid turns smm))) > helper_max_message_bytes opts
      then history_reply rid [] smm else history_reply rid turns smm)"

lemma reply_fitting:
  "thread_from_result smm = Some th \<Longrightarrow> read_reply opts t rd smm turns b s =
     park t (F_reply rd smm (fitting opts (rd_id rd) turns smm) b) s"
  by (simp add: read_reply_def fitting_def Let_def)

text \<open>
  C29. A large history is served from its tail: when the lock is free, the helper connects and
  the App Server lists some turns, the client gets the summary with these turns, oldest first
  (without turns when they would not fit), nothing is relayed, and the lock is free again.
\<close>

theorem tail_served:
  assumes reach: "tui_reach h opts session s" and live: "\<not> ended s"
    and t: "reads s t = Some (F_lock thr m f)" "history_locks s thr = None"
    and smm: "summaries s thr = Some smm" "tail_cache s thr = None" "protected h opts stat smm"
    and id: "json_id m = Some rid" and page: "jget ''data'' page = JArr newest_first"
  shows "\<exists>s'. run_tui h opts session [E_lock stat t, E_got stat t (Inr helper), E_got stat t (Inr page),
            E_got stat t (Inr done_send), E_got stat t (Inr done_close)] s = Some s'
     \<and> to_tui s' = to_tui s @ [Reply t (fitting opts rid (List.rev newest_first) smm)] \<and> to_app s' = to_app s
     \<and> tail_cache s' thr = Some (List.rev newest_first) \<and> reads s' t = None \<and> history_locks s' thr = None"
proof -
  have mode: "legacy_history_mode opts \<in> set valid_modes" using smm(3) by (simp add: protected_def valid_modes_def)
  note inv = tui_reach_inv [OF reach mode]
  obtain th where th: "thread_from_result smm = Some th" using smm(3) by (auto simp: protected_def)
  have "pc_ok h opts (F_lock thr m f)" using tui_invD(2) [OF inv t(1)] by simp
  then obtain params where params: "jget ''params'' m = JObj params" "jfield ''threadId'' params = JStr thr"
    using id by (auto simp: request_ok_def)
  let ?rd = "\<lparr>rd_id = rid, rd_thread = thr, rd_raw = f\<rparr>"
  let ?s = "s\<lparr>history_locks := (history_locks s)(thr \<mapsto> t)\<rparr>"
  have start: "read_start h opts stat t thr m f s = park t (F_connect_tail ?rd smm) ?s"
    using id params smm by (simp add: read_start_def Let_def decide_protected)
  then show ?thesis using live t smm th page
    by (simp add: tstep_def park_def read_tail_def tail_turns_def Let_def reply_fitting leave_read_def end_read_def)
qed

lemma asked_state: "map_option (\<lambda>s. (ended s, reads s 0, history_locks s ''T'', summaries s ''T'', tail_cache s ''T''))
    (proxy_demo_run ''auto'' asked) =
    Some (False, Some (F_lock ''T'' (the (loaded (full_read 2))) (full_read 2)), None, Some old_thread, None)"
  by code_simp

lemma old_protected: "protected proxy_demo_host (proxy_demo_opts ''auto'') no_file old_thread"
  by (simp add: protected_def thread_from_result_def old_thread_def jfield_def history_mode_def jget_default_def
      lower_def lower_char_def rollout_size_def rollout_path_def Let_def)

theorem tail_served_witness:
  "\<exists>s s'. proxy_demo_run ''auto'' asked = Some s
     \<and> run_tui proxy_demo_host (proxy_demo_opts ''auto'') True [E_lock no_file 0, sent_ok 0, E_got no_file 0 (Inr (turn_page ''t1'')),
            sent_ok 0, sent_ok 0] s = Some s'
     \<and> to_tui s' = to_tui s @ [Reply 0 (fitting (proxy_demo_opts ''auto'') (JInt 2) [JStr ''t0'', JStr ''t1''] old_thread)]"
proof -
  obtain s where s: "proxy_demo_run ''auto'' asked = Some s" "\<not> ended s"
    "reads s 0 = Some (F_lock ''T'' (the (loaded (full_read 2))) (full_read 2))" "history_locks s ''T'' = None"
    "summaries s ''T'' = Some old_thread" "tail_cache s ''T'' = None"
    using asked_state by (auto simp del: run_tui.simps)
  have "json_id (the (loaded (full_read 2))) = Some (JInt 2)"
    by (simp add: full_read_def json_frame_def json_id_def jfield_def)
  moreover have "jget ''data'' (turn_page ''t1'') = JArr [JStr ''t1'', JStr ''t0'']"
    by (simp add: turn_page_def jfield_def)
  ultimately show ?thesis
    using tail_served [OF proxy_demo_reach [OF s(1)] s(2-6) old_protected, of "JInt 2" "turn_page ''t1''"] s(1)
    unfolding sent_ok_def by fastforce
qed

text \<open>
  C36. A stale tail is kept: when a turn completes while a read waits for the tail of its
  thread, the proxy drops the cached tail, which is not there yet, and then caches the answer
  that was asked for before. From then on a read of the protected thread is answered from
  it, without asking.
\<close>

theorem stale_tail_cached:
  assumes t: "reads s t = Some (F_tail rd smm)" "thread_from_result smm = Some th" and live: "\<not> ended s"
    and f: "decode_object f = Some m" "jget ''method'' m = JStr ''turn/completed''"
      "jget ''params'' m = JObj params" "jfield ''threadId'' params = JStr (rd_thread rd)"
    and page: "jget ''data'' page = JArr newest_first"
  shows "\<exists>s1 s2. tstep h opts session (E_app (Inr ()) f) s = Some s1 \<and> tail_cache s1 (rd_thread rd) = None
     \<and> tstep h opts session (E_got stat t (Inr page)) s1 = Some s2
     \<and> tail_cache s2 (rd_thread rd) = Some (List.rev newest_first)
     \<and> (protected h opts stat smm \<longrightarrow> rd_thread rd' = rd_thread rd \<longrightarrow>
          read_decide h opts stat t' rd' smm b s2 =
            park t' (F_reply rd' smm (fitting opts (rd_id rd') (List.rev newest_first) smm) b) s2)"
proof -
  have meth: "jhas ''method'' m" using f(2) by (cases m) (auto simp: jfield_def split: option.splits)
  let ?s = "if session then s\<lparr>shown := shown s @ [(''turn/completed'', JObj params)]\<rparr> else s"
  let ?s1 = "?s\<lparr>tail_cache := (tail_cache s)(rd_thread rd := None), to_tui := to_tui s @ [Relayed f]\<rparr>"
  have drop: "drop_tail m s0 = (s0\<lparr>tail_cache := (tail_cache s0)(rd_thread rd := None)\<rparr>, Inr ())" for s0
    using f by (simp add: drop_tail_def)
  have s1: "tstep h opts session (E_app (Inr ()) f) s = Some ?s1"
    using live f meth drop by (simp add: tstep_def app_frame_def or_end_def Let_def)
  let ?s2 = "read_tail opts t rd smm (Inr page) ?s1"
  have s2: "tstep h opts session (E_got stat t (Inr page)) ?s1 = Some ?s2"
    using t(1) live by (simp add: tstep_def)
  have tail: "tail_cache ?s2 (rd_thread rd) = Some (List.rev newest_first)"
    using page t(2) by (simp add: read_tail_def tail_turns_def Let_def reply_fitting park_def)
  have "read_decide h opts stat t' rd' smm b ?s2 =
            park t' (F_reply rd' smm (fitting opts (rd_id rd') (List.rev newest_first) smm) b) ?s2"
    if "protected h opts stat smm" "rd_thread rd' = rd_thread rd"
    using that tail t(2) by (simp add: decide_protected reply_fitting)
  then show ?thesis using s1 s2 tail by (intro exI [of _ ?s1] exI [of _ ?s2]) simp
qed

text \<open>Turn \<open>t1\<close> completes while the tail is on its way; the next read does not show it.\<close>

lemma stale_runs: "map_option (\<lambda>s. (ended s, reads s 0,
      map_option to_tui (run_tui proxy_demo_host (proxy_demo_opts ''auto'') True
        [E_app (Inr ()) turn_completed, E_got no_file 0 (Inr (JObj [(''data'', JArr [JStr ''t0''])])), sent_ok 0, sent_ok 0,
         E_client (full_read 3), E_lock no_file 1, sent_ok 1] s)))
    (proxy_demo_run ''auto'' tail_asked) =
    Some (False, Some (F_tail \<lparr>rd_id = JInt 2, rd_thread = ''T'', rd_raw = full_read 2\<rparr> old_thread),
      Some [Relayed summary_frame, Relayed turn_completed, Reply 0 (history_reply (JInt 2) [JStr ''t0''] old_thread),
            Reply 1 (history_reply (JInt 3) [JStr ''t0''] old_thread)])"
  by code_simp

theorem stale_tail_cached_witness:
  "\<exists>s s1 s2. proxy_demo_run ''auto'' tail_asked = Some s
     \<and> tstep proxy_demo_host (proxy_demo_opts ''auto'') True (E_app (Inr ()) turn_completed) s = Some s1
     \<and> tstep proxy_demo_host (proxy_demo_opts ''auto'') True (E_got no_file 0 (Inr (JObj [(''data'', JArr [JStr ''t0''])]))) s1 = Some s2
     \<and> tail_cache s1 ''T'' = None \<and> tail_cache s2 ''T'' = Some [JStr ''t0'']"
proof -
  obtain s where s: "proxy_demo_run ''auto'' tail_asked = Some s" "\<not> ended s"
    "reads s 0 = Some (F_tail \<lparr>rd_id = JInt 2, rd_thread = ''T'', rd_raw = full_read 2\<rparr> old_thread)"
    using stale_runs by (auto simp del: run_tui.simps)
  have th: "thread_from_result old_thread = Some [(''id'', JStr ''T''), (''historyMode'', JStr ''legacy'')]"
    by (simp add: thread_from_result_def old_thread_def jfield_def)
  have f: "decode_object turn_completed = Some (the (loaded turn_completed))"
    "jget ''method'' (the (loaded turn_completed)) = JStr ''turn/completed''"
    "jget ''params'' (the (loaded turn_completed)) = JObj [(''threadId'', JStr ''T'')]"
    "jfield ''threadId'' [(''threadId'', JStr ''T'')] = JStr ''T''"
    "jget ''data'' (JObj [(''data'', JArr [JStr ''t0''])]) = JArr [JStr ''t0'']"
    by (simp_all add: turn_completed_def json_frame_def decode_object_def jfield_def)
  from stale_tail_cached [OF s(3) th s(2) f(1-3) _ f(5)] f(4) show ?thesis using s(1) by fastforce
qed

end
