(* ===== verification/App_Client_Claims.thy ===== *)
theory App_Client_Claims
  imports App_Client
begin

text \<open>
  The properties of the App Server client: which message a call returns, what a call can
  raise, and that no call waits on a connection that broke.
\<close>

section \<open>The invariant\<close>

text \<open>What a call may have returned, given the messages \<open>R\<close> that were read.\<close>

definition result_ok :: "json set \<Rightarrow> int \<Rightarrow> pyexc + json \<Rightarrow> bool" where
  "result_ok R i res \<longleftrightarrow>
     (\<exists>m. m \<in> R \<and> response_for m = Some i \<and> \<not> jhas ''error'' m \<and> res = Inr (jget ''result'' m)) \<or>
     (\<exists>e. res = Inl e \<and> (is_app_error e \<or> e = CancelledError))"

fun future_ok :: "json set \<Rightarrow> int \<Rightarrow> reply_future \<Rightarrow> bool" where
  "future_ok R i (Answered m) \<longleftrightarrow> m \<in> R \<and> response_for m = Some i"
| "future_ok R i _ \<longleftrightarrow> True"

definition app_inv :: "json set \<Rightarrow> app_client \<Rightarrow> bool" where
  "app_inv R s \<longleftrightarrow>
     (\<forall>i fut. futures s i = Some fut \<longrightarrow> i < next_id s \<and> future_ok R i fut) \<and>
     (\<forall>i pc. app_calls s i = Some pc \<longrightarrow> (\<exists>fut. futures s i = Some fut \<and> (fut = Waiting \<longrightarrow> i \<in> pending s)) \<and>
        i \<notin> fst ` set (returned s)) \<and>
     (\<forall>i res. (i, res) \<in> set (returned s) \<longrightarrow> i < next_id s \<and> result_ok R i res) \<and>
     distinct (map fst (returned s))"

lemma app_invD:
  assumes "app_inv R s"
  shows "futures s i = Some fut \<Longrightarrow> i < next_id s \<and> future_ok R i fut"
    and "app_calls s i = Some pc \<Longrightarrow> (\<exists>fut. futures s i = Some fut \<and> (fut = Waiting \<longrightarrow> i \<in> pending s)) \<and>
           i \<notin> fst ` set (returned s)"
    and "(i, res) \<in> set (returned s) \<Longrightarrow> i < next_id s \<and> result_ok R i res"
    and "distinct (map fst (returned s))"
  using assms by (auto simp: app_inv_def)

lemma future_ok_mono: "future_ok R i fut \<Longrightarrow> R \<subseteq> R' \<Longrightarrow> future_ok R' i fut"
  by (cases fut) auto

lemma app_invI:
  assumes "\<And>i fut. futures s i = Some fut \<Longrightarrow> i < next_id s \<and> future_ok R i fut"
    and "\<And>i pc. app_calls s i = Some pc \<Longrightarrow> \<exists>fut. futures s i = Some fut \<and> (fut = Waiting \<longrightarrow> i \<in> pending s)"
    and "\<And>i pc. app_calls s i = Some pc \<Longrightarrow> i \<notin> fst ` set (returned s)"
    and "\<And>i res. (i, res) \<in> set (returned s) \<Longrightarrow> i < next_id s \<and> result_ok R i res"
    and "distinct (map fst (returned s))"
  shows "app_inv R s"
  unfolding app_inv_def using assms by blast

lemma app_inv_frame [simp]:
  "app_inv R (s\<lparr>reading := a\<rparr>) = app_inv R s" "app_inv R (s\<lparr>has_connection := b\<rparr>) = app_inv R s"
  "app_inv R (s\<lparr>closed_event := c\<rparr>) = app_inv R s" "app_inv R (s\<lparr>app_sent := d\<rparr>) = app_inv R s"
  "app_inv R (s\<lparr>notified := e\<rparr>) = app_inv R s" "app_inv R (s\<lparr>reader_task := f\<rparr>) = app_inv R s"
  "app_inv R (s\<lparr>closers := g\<rparr>) = app_inv R s"
  by (simp_all add: app_inv_def)

lemma result_ok_mono: "result_ok R i res \<Longrightarrow> R \<subseteq> R' \<Longrightarrow> result_ok R' i res"
  by (auto simp: result_ok_def)

lemma app_inv_mono:
  assumes inv: "app_inv R s" and sub: "R \<subseteq> R'"
  shows "app_inv R' s"
proof (rule app_invI)
  show "i < next_id s \<and> future_ok R' i fut" if "futures s i = Some fut" for i fut
    using app_invD(1) [OF inv that] future_ok_mono [OF _ sub] by blast
  show "i < next_id s \<and> result_ok R' i res" if "(i, res) \<in> set (returned s)" for i res
    using app_invD(3) [OF inv that] result_ok_mono [OF _ sub] by blast
qed (use app_invD(2,4) [OF inv] in blast)+

text \<open>Changes of futures and pending ids that settle or fail some of them.\<close>

lemma futures_inv:
  assumes inv: "app_inv R s"
    and s': "app_calls s' = app_calls s" "returned s' = returned s" "next_id s' = next_id s"
    and f: "\<And>i fut'. futures s' i = Some fut' \<Longrightarrow> \<exists>fut. futures s i = Some fut \<and> (future_ok R i fut \<longrightarrow> future_ok R i fut')"
    and d: "\<And>i. futures s i \<noteq> None \<Longrightarrow> futures s' i \<noteq> None"
    and w: "\<And>i. futures s' i = Some Waiting \<Longrightarrow> i \<in> pending s' \<or> futures s i = Some Waiting \<and> i \<notin> pending s"
  shows "app_inv R s'"
proof -
  have "i < next_id s \<and> future_ok R i fut'" if "futures s' i = Some fut'" for i fut'
    using f [OF that] app_invD(1) [OF inv] by blast
  moreover have "\<exists>fut'. futures s' i = Some fut' \<and> (fut' = Waiting \<longrightarrow> i \<in> pending s')" if pc: "app_calls s i = Some pc" for i pc
  proof -
    obtain fut where fut: "futures s i = Some fut" "fut = Waiting \<longrightarrow> i \<in> pending s"
      using app_invD(2) [OF inv pc] by blast
    then obtain fut' where "futures s' i = Some fut'" using d [of i] by auto
    then show ?thesis using w [of i] fut by auto
  qed
  ultimately show ?thesis using inv unfolding app_inv_def s' by auto
qed

lemma drop_pending_inv:
  assumes inv: "app_inv R s" and pc: "app_calls s i = Some pc" and res: "result_ok R i res"
    and keep: "\<And>j. j \<noteq> i \<Longrightarrow> j \<in> pending s \<Longrightarrow> j \<in> P"
  shows "app_inv R (return_call i res (s\<lparr>pending := P\<rparr>))"
proof -
  have i: "i < next_id s" "i \<notin> fst ` set (returned s)" using app_invD(1,2) [OF inv] pc by blast+
  have calls: "\<exists>fut. futures s j = Some fut \<and> (fut = Waiting \<longrightarrow> j \<in> P)" "j \<notin> fst ` set (returned s)"
    if "j \<noteq> i" "app_calls s j = Some q" for j q
    using app_invD(2) [OF inv that(2)] keep [OF that(1)] by blast+
  show ?thesis
    by (rule app_invI)
      (use app_invD(1,3,4) [OF inv] i res calls in \<open>auto simp: return_call_def split: if_splits\<close>)
qed

lemma return_call_inv:
  "app_inv R s \<Longrightarrow> app_calls s i = Some pc \<Longrightarrow> result_ok R i res \<Longrightarrow> app_inv R (return_call i res s)"
  using drop_pending_inv [of R s i pc res "pending s"] by (simp add: return_call_def)

lemma call_raises_inv:
  assumes inv: "app_inv R s" and pc: "app_calls s i = Some pc"
  shows "app_inv R (call_raises meth i e s)"
proof -
  have drop: "app_inv R (return_call i (Inl e') (s\<lparr>pending := pending s - {i}\<rparr>))" if "is_app_error e'" for e'
    by (rule drop_pending_inv [OF inv pc]) (use that in \<open>simp_all add: result_ok_def\<close>)
  have keep: "app_inv R (return_call i (Inl CancelledError) s)"
    by (rule return_call_inv [OF inv pc]) (simp add: result_ok_def)
  show ?thesis using drop keep by (cases e) (simp_all add: call_raises_def)
qed

lemma call_wakes_inv:
  assumes inv: "app_inv R s" and w: "call_wakes i s = Some s'"
  shows "app_inv R s'"
proof -
  obtain meth fut where pc: "app_calls s i = Some (Awaiting meth)" and fut: "futures s i = Some fut"
    and s': "(\<exists>m. fut = Answered m \<and> s' = return_call i (call_response meth m) s) \<or>
             (\<exists>e. fut = Call_failed e \<and> s' = call_raises meth i e s)"
    using w by (auto simp: call_wakes_def split: option.splits call_pc.splits reply_future.splits)
  from s' show ?thesis
  proof (elim disjE exE conjE)
    fix m
    assume m: "fut = Answered m" "s' = return_call i (call_response meth m) s"
    have "future_ok R i fut" using app_invD(1) [OF inv fut] by simp
    then have "result_ok R i (call_response meth m)" using m(1) by (auto simp: result_ok_def call_response_def)
    then show ?thesis using return_call_inv [OF inv pc] m(2) by simp
  qed (use call_raises_inv [OF inv pc] in simp)
qed

lemma fail_pending_inv: "app_inv R s \<Longrightarrow> app_inv R (fail_pending e s)"
  by (rule futures_inv [of R s]) (auto simp: fail_pending_def fail_future_def split: if_splits)

lemma reader_stops_inv: "app_inv R s \<Longrightarrow> app_inv R (reader_stops e s)"
  unfolding reader_stops_def Let_def
  by (auto intro!: fail_pending_inv)

lemma settle_future_inv:
  assumes inv: "app_inv R s" and m: "m \<in> R" "response_for m = Some i"
  shows "app_inv R (settle_future i m s)"
proof (cases "i \<in> pending s")
  case True
  then show ?thesis using m
    by (intro futures_inv [OF inv]) (auto simp: settle_future_def split: if_splits)
qed (use inv in \<open>simp add: settle_future_def\<close>)

lemma read_message_inv:
  assumes "app_inv R s" "\<And>m. loaded = Inr m \<Longrightarrow> m \<in> R"
  shows "app_inv R (read_message handler loaded handled s)"
proof -
  have frame: "app_inv R (s\<lparr>app_sent := x\<rparr>)" "app_inv R (s\<lparr>notified := y\<rparr>)" for x y
    using assms(1) by (simp_all add: app_inv_def)
  show ?thesis unfolding read_message_def Let_def
    using assms frame by (auto split: sum.splits option.splits json.splits intro: reader_stops_inv settle_future_inv)
qed

lemma call_begin_inv:
  assumes inv: "app_inv R s"
  shows "app_inv R (fst (call_begin meth params s))"
proof (cases "has_connection s")
  case True
  let ?i = "next_id s"
  let ?s = "s\<lparr>next_id := ?i + 1, futures := (futures s)(?i \<mapsto> Waiting), pending := insert ?i (pending s),
           app_calls := (app_calls s)(?i \<mapsto> Sending meth params)\<rparr>"
  have new: "?i \<notin> fst ` set (returned s)" using app_invD(3) [OF inv] by fastforce
  have fut: "i < ?i \<and> future_ok R i fut" if "futures s i = Some fut" for i fut using app_invD(1) [OF inv that] .
  have ret: "i < ?i \<and> result_ok R i res" if "(i, res) \<in> set (returned s)" for i res using app_invD(3) [OF inv that] .
  have "app_inv R ?s"
  proof (rule app_invI)
    show "j < next_id ?s \<and> future_ok R j fut" if "futures ?s j = Some fut" for j fut
      using that fut [of j fut] by (auto split: if_splits)
    show "\<exists>fut. futures ?s j = Some fut \<and> (fut = Waiting \<longrightarrow> j \<in> pending ?s)" if "app_calls ?s j = Some pc" for j pc
      using that app_invD(2) [OF inv, of j pc] by (auto split: if_splits)
    show "j \<notin> fst ` set (returned ?s)" if "app_calls ?s j = Some pc" for j pc
      using that new app_invD(2) [OF inv, of j pc] by (auto split: if_splits)
    show "j < next_id ?s \<and> result_ok R j res" if "(j, res) \<in> set (returned ?s)" for j res
      using that ret [of j res] by simp
  qed (use app_invD(4) [OF inv] in simp)
  then show ?thesis using True by (simp add: call_begin_def Let_def)
qed (use inv in \<open>simp add: call_begin_def\<close>)

fun received :: "app_event \<Rightarrow> json set" where
  "received (A_message handler (Inr m) handled) = {m}"
| "received _ = {}"

lemma app_step_inv:
  assumes inv: "app_inv R s" and st: "app_step ev s = Some s'"
  shows "app_inv (R \<union> received ev) s'"
proof -
  have inv': "app_inv (R \<union> received ev) s" using app_inv_mono [OF inv] by blast
  have fut: "app_inv (R \<union> received ev) (s\<lparr>futures := (futures s)(i := v)\<rparr>)"
    if "futures s i \<noteq> None" "v = Some (Call_failed e)" for i v e
    by (rule futures_inv [OF inv']) (use that in \<open>auto split: if_splits\<close>)
  have close: "app_inv R' (close_reader c t)" if "app_inv R' t" for R' c t
    using that by (auto simp: close_reader_def close_fail_def drop_closer_def intro!: fail_pending_inv)
  show ?thesis
  proof (cases ev)
    case (A_call meth params)
    then show ?thesis using st call_begin_inv [OF inv'] by auto
  next
    case (A_sent i r)
    then obtain meth params where pc: "app_calls s i = Some (Sending meth params)"
      using st by (auto split: option.splits call_pc.splits)
    show ?thesis
    proof (cases r)
      case (Inl e)
      then show ?thesis using st A_sent pc call_raises_inv [OF inv' pc] by auto
    next
      case (Inr u)
      then have s': "s' = s\<lparr>app_calls := (app_calls s)(i \<mapsto> Awaiting meth), app_sent := app_sent s @ [App_call i meth params]\<rparr>"
        using st A_sent pc by simp
      show ?thesis unfolding s' app_inv_def
        using inv' app_invD(2) [OF inv' pc] by (simp add: app_inv_def)
    qed
  next
    case (A_wake i)
    then show ?thesis using st call_wakes_inv [OF inv'] by auto
  next
    case (A_timeout i)
    then obtain meth where pc: "app_calls s i = Some (Awaiting meth)" "futures s i = Some Waiting"
      and s': "s' = call_raises meth i (TimeoutError []) (s\<lparr>futures := (futures s)(i \<mapsto> Call_failed CancelledError)\<rparr>)"
      using st by (auto split: option.splits call_pc.splits reply_future.splits)
    show ?thesis unfolding s' by (rule call_raises_inv [OF fut]) (use pc in auto)
  next
    case (A_cancel i)
    then obtain pc where pc: "app_calls s i = Some pc"
      and s': "s' = call_raises (call_meth pc) i CancelledError
                      (s\<lparr>futures := (futures s)(i := map_option (fail_future CancelledError) (futures s i))\<rparr>)"
      using st by (auto split: option.splits)
    have "app_inv (R \<union> received ev) (s\<lparr>futures := (futures s)(i := map_option (fail_future CancelledError) (futures s i))\<rparr>)"
      by (rule futures_inv [OF inv']) (auto simp: fail_future_def split: if_splits)
    then show ?thesis unfolding s' by (rule call_raises_inv) (use pc in auto)
  next
    case (A_message handler m handled)
    then show ?thesis using st read_message_inv [OF inv', of m handler handled] by (cases m) (auto split: if_splits)
  next
    case (A_eof e)
    then show ?thesis using st inv' reader_stops_inv [OF inv'] by (auto split: if_splits option.splits)
  next
    case (A_close c)
    then show ?thesis using st close [OF inv'] inv' by (auto simp: close_client_def split: if_splits)
  next
    case (A_closed c r)
    then show ?thesis using st close [OF inv'] inv' by (auto simp: drop_closer_def split: if_splits sum.splits)
  next
    case (A_joined c)
    then show ?thesis using st inv' by (auto simp: close_fail_def drop_closer_def intro!: fail_pending_inv split: if_splits)
  qed (use st inv' in \<open>auto split: if_splits\<close>)
qed

lemma fresh_app_inv: "app_inv R fresh_client"
  by (simp add: app_inv_def fresh_client_def)

lemma run_app_inv:
  "run_app evs s = Some s' \<Longrightarrow> app_inv R s \<Longrightarrow> app_inv (R \<union> (\<Union>ev \<in> set evs. received ev)) s'"
proof (induction evs arbitrary: s R)
  case (Cons ev evs)
  then obtain s1 where s1: "app_step ev s = Some s1" "run_app evs s1 = Some s'" by (auto split: option.splits)
  from Cons.IH [OF s1(2) app_step_inv [OF Cons.prems(2) s1(1)]] show ?case by (simp add: Un_assoc)
qed simp

lemma run_app_reach: "app_reach s \<Longrightarrow> run_app evs s = Some s' \<Longrightarrow> app_reach s'"
  by (induction evs arbitrary: s) (auto split: option.splits intro: app_reach.step)

lemma app_reach_inv: "app_reach s \<Longrightarrow> app_inv UNIV s"
  by (induction rule: app_reach.induct) (auto intro: fresh_app_inv dest: app_step_inv)

section \<open>Properties\<close>

text \<open>
  C9. A call returns its own reply: over any run, however calls, replies, timeouts,
  cancellations and breakdowns interleave, a value returned by the call with an id is the
  result of a message that was read with this very id, without a method and without an error,
  and no call returns twice.
\<close>

theorem call_returns_own_reply:
  assumes "run_app evs fresh_client = Some s"
  shows "distinct (map fst (returned s)) \<and>
    ((i, Inr v) \<in> set (returned s) \<longrightarrow>
       (\<exists>handler m handled. A_message handler (Inr m) handled \<in> set evs \<and> isinstance_int (jget ''id'' m)
          \<and> int_of_json (jget ''id'' m) = i \<and> \<not> jhas ''method'' m \<and> \<not> jhas ''error'' m \<and> v = jget ''result'' m))"
proof -
  have inv: "app_inv (\<Union>ev \<in> set evs. received ev) s" using run_app_inv [OF assms fresh_app_inv, of "{}"] by simp
  have rec: "\<exists>handler handled. A_message handler (Inr m) handled \<in> set evs"
    if m: "m \<in> (\<Union>ev \<in> set evs. received ev)" for m
  proof -
    obtain ev where "ev \<in> set evs" "m \<in> received ev" using m by blast
    then show ?thesis by (cases ev rule: received.cases) auto
  qed
  have "\<exists>m. m \<in> (\<Union>ev \<in> set evs. received ev) \<and> response_for m = Some i \<and> \<not> jhas ''error'' m \<and> v = jget ''result'' m"
    if "(i, Inr v) \<in> set (returned s)"
    using app_invD(3) [OF inv that] by (auto simp: result_ok_def)
  then show ?thesis using app_invD(4) [OF inv] rec by (fastforce simp: response_for_def split: if_splits)
qed

definition ok_message :: "int \<Rightarrow> string \<Rightarrow> json" where
  "ok_message i r = JObj [(''id'', JInt i), (''result'', JStr r)]"

definition crossed :: "app_event list" where
  "crossed = [A_connect, A_call ''a'' JNull, A_call ''b'' JNull, A_sent 1 (Inr ()), A_sent 2 (Inr ()),
     A_message False (Inr (ok_message 2 ''two'')) (Inr ()), A_message False (Inr (ok_message 1 ''one'')) (Inr ()),
     A_wake 1, A_wake 2]"

lemma crossed_run: "map_option returned (run_app crossed fresh_client) = Some [(1, Inr (JStr ''one'')), (2, Inr (JStr ''two''))]"
  by code_simp

theorem call_returns_own_reply_witness:
  "\<exists>s m handler handled. run_app crossed fresh_client = Some s \<and> (2, Inr (JStr ''two'')) \<in> set (returned s)
     \<and> A_message handler (Inr m) handled \<in> set crossed \<and> int_of_json (jget ''id'' m) = 2 \<and> JStr ''two'' = jget ''result'' m"
proof -
  obtain s where s: "run_app crossed fresh_client = Some s" "(2, Inr (JStr ''two'')) \<in> set (returned s)"
    using crossed_run by auto
  from call_returns_own_reply [OF s(1), of 2 "JStr ''two''"] s show ?thesis by blast
qed

text \<open>
  The bridges are told the truth about their calls: what a call ends with is a value, an
  \<open>AppServerError\<close> or its own cancellation; every other exception is wrapped. These are the
  replies the models of the bridges are given.
\<close>

theorem call_ends_as_modelled:
  assumes "app_reach s" and "(i, res) \<in> set (returned s)"
  shows "(\<exists>r. res = rpc_result r) \<or> res = Inl CancelledError"
proof -
  have "result_ok UNIV i res" using app_invD(3) [OF app_reach_inv [OF assms(1)] assms(2)] by simp
  then consider v where "res = Inr v" | m where "res = Inl (AppServerError m)" | "res = Inl CancelledError"
    unfolding result_ok_def by (metis is_app_error.elims(2))
  then show ?thesis
  proof cases
    case 1
    then show ?thesis by (intro disjI1 exI [of _ "Inr v"]) simp
  next
    case 2
    then show ?thesis by (intro disjI1 exI [of _ "Inl m"]) simp
  qed simp
qed

definition broken :: "app_event list" where
  "broken = [A_connect, A_call ''a'' JNull, A_sent 1 (Inr ()), A_message False (Inl (ValueError ''bad'')) (Inr ())]"

lemma broken_run: "map_option (\<lambda>s. (app_calls s 1, map_option returned (app_step (A_wake 1) s))) (run_app broken fresh_client) =
    Some (Some (Awaiting ''a''), Some [(1, Inl (AppServerError ''Codex App Server reader stopped: bad''))])"
  by code_simp

theorem call_ends_as_modelled_witness:
  "\<exists>s r. run_app (broken @ [A_wake 1]) fresh_client = Some s
     \<and> (1, Inl (AppServerError ''Codex App Server reader stopped: bad'')) \<in> set (returned s)
     \<and> (Inl (AppServerError ''Codex App Server reader stopped: bad'') :: pyexc + json) = rpc_result r"
proof -
  have "map_option returned (run_app (broken @ [A_wake 1]) fresh_client) =
      Some [(1, Inl (AppServerError ''Codex App Server reader stopped: bad''))]" by code_simp
  then obtain s where s: "run_app (broken @ [A_wake 1]) fresh_client = Some s"
    "(1, Inl (AppServerError ''Codex App Server reader stopped: bad'')) \<in> set (returned s)" by auto
  from call_ends_as_modelled [OF run_app_reach [OF app_reach.fresh s(1)] s(2)] show ?thesis using s by auto
qed

text \<open>
  The steps on which a connection breaks down, with the state they lead to: the reader fails (a
  message that is not JSON, a handler that raises, a lost connection), or a \<open>close\<close> comes to its
  end; and what the calls that wait are told.
\<close>

fun breakdown :: "app_event \<Rightarrow> app_client \<Rightarrow> string option" where
  "breakdown (A_joined c) s' = Some ''Codex App Server connection closed''"
| "breakdown (A_close c) s' = (if map_of (closers s') c = None then Some ''Codex App Server connection closed'' else None)"
| "breakdown (A_closed c (Inr _)) s' = (if map_of (closers s') c = None then Some ''Codex App Server connection closed'' else None)"
| "breakdown (A_eof (Some e)) s' = (if e = CancelledError then None else Some (''Codex App Server reader stopped: '' @ exc_str e))"
| "breakdown (A_message handler (Inl e) handled) s' =
     (if e = CancelledError then None else Some (''Codex App Server reader stopped: '' @ exc_str e))"
| "breakdown (A_message handler (Inr m) (Inl e)) s' =
     (if e = CancelledError \<or> reading s' then None else Some (''Codex App Server reader stopped: '' @ exc_str e))"
| "breakdown _ s' = None"

lemma close_reader_fails:
  assumes "map_of (closers (close_reader c s)) c = None"
  shows "close_reader c s = close_fail c (s\<lparr>reader_task := False\<rparr>)"
proof (cases "reader_task s \<and> reading s")
  case True
  then have "closers (close_reader c s) = (c, Joining_reader) # closers (drop_closer c s)" by (simp add: close_reader_def)
  then show ?thesis using assms by simp
qed (simp only: close_reader_def if_False)

lemma close_client_fails:
  assumes "map_of (closers (close_client c s)) c = None"
  shows "close_client c s = close_fail c (s\<lparr>reader_task := False\<rparr>)"
proof (cases "has_connection s")
  case True
  then have "closers (close_client c s) = (c, Closing_connection) # closers s" by (simp add: close_client_def)
  then show ?thesis using assms by simp
next
  case False
  then have "close_client c s = close_reader c s" by (simp only: close_client_def if_False)
  then show ?thesis using assms close_reader_fails by simp
qed

lemma reader_stops_fails:
  "e \<noteq> CancelledError \<Longrightarrow> reader_stops e s = fail_pending (AppServerError (''Codex App Server reader stopped: '' @ exc_str e))
     (s\<lparr>reading := False, closed_event := True\<rparr>)"
  by (simp add: reader_stops_def Let_def)

lemma handler_stops:
  assumes "reading s" "\<not> reading (read_message handler (Inr m) (Inl e) s)"
  shows "\<exists>t. read_message handler (Inr m) (Inl e) s = reader_stops e t \<and> futures t = futures s
    \<and> pending t = pending s \<and> app_calls t = app_calls s"
  using assms
  by (auto simp: read_message_def settle_future_def Let_def split: if_splits option.splits json.splits)

text \<open>Each of these steps fails what waits, on a state with the same calls.\<close>

lemma breakdown_fails:
  assumes st: "app_step ev s = Some s'" and b: "breakdown ev s' = Some msg"
  shows "\<exists>t. futures t = futures s \<and> pending t = pending s \<and> app_calls t = app_calls s \<and> s' = fail_pending (AppServerError msg) t"
proof -
  have closed: ?thesis if "s' = close_fail c u" "futures u = futures s" "pending u = pending s" "app_calls u = app_calls s"
    "msg = ''Codex App Server connection closed''" for c u
    using that by (intro exI [of _ "drop_closer c u"]) (simp add: close_fail_def drop_closer_def)
  have stopped: ?thesis if "s' = reader_stops e u" "futures u = futures s" "pending u = pending s" "app_calls u = app_calls s"
    "e \<noteq> CancelledError" "msg = ''Codex App Server reader stopped: '' @ exc_str e" for e u
    using that by (intro exI [of _ "u\<lparr>reading := False, closed_event := True\<rparr>"]) (simp add: reader_stops_fails)
  show ?thesis
  proof (cases ev)
    case (A_close c)
    then have "s' = close_client c s" "map_of (closers s') c = None" "msg = ''Codex App Server connection closed''"
      using st b by (simp_all split: if_splits)
    then show ?thesis using close_client_fails closed [of c "s\<lparr>reader_task := False\<rparr>"] by simp
  next
    case (A_closed c r)
    then have "s' = close_reader c s" "map_of (closers s') c = None" "msg = ''Codex App Server connection closed''"
      using st b by (cases r; simp split: if_splits)+
    then show ?thesis using close_reader_fails closed [of c "s\<lparr>reader_task := False\<rparr>"] by simp
  next
    case (A_joined c)
    then show ?thesis using st b closed [of c s] by (simp split: if_splits)
  next
    case (A_eof e)
    then show ?thesis using st b stopped [of _ s] by (cases e) (auto split: if_splits)
  next
    case (A_message handler loaded handled)
    show ?thesis
    proof (cases loaded)
      case (Inl e)
      then show ?thesis using st b stopped [of e s] A_message by (auto simp: read_message_def split: if_splits)
    next
      case (Inr m)
      then obtain e where e: "handled = Inl e" "e \<noteq> CancelledError" "\<not> reading s'" "msg = ''Codex App Server reader stopped: '' @ exc_str e"
        using b A_message by (cases handled) (auto split: if_splits)
      then show ?thesis using st A_message Inr handler_stops [of s handler m e] stopped [of e] by (auto split: if_splits)
    qed
  qed (use b in simp_all)
qed

text \<open>
  C27. No call waits on a broken connection: when the reader fails or a \<open>close\<close> comes to its end,
  every call that waits can go on at once. It returns the reply it already had; a call without
  one raises an error, for a call that was still waiting the one of the breakdown.
\<close>

theorem breakdown_frees_calls:
  assumes reach: "app_reach s" and st: "app_step ev s = Some s'" and b: "breakdown ev s' = Some msg"
    and call: "app_calls s' i = Some (Awaiting meth)"
  shows "\<exists>s'' res. app_step (A_wake i) s' = Some s'' \<and> returned s'' = returned s' @ [(i, res)] \<and> app_calls s'' i = None
    \<and> (case futures s i of
         Some (Answered m) \<Rightarrow> res = call_response meth m
       | Some Waiting \<Rightarrow> res = Inl (AppServerError msg)
       | Some (Call_failed e) \<Rightarrow> (\<exists>e'. res = Inl e' \<and> (is_app_error e' \<or> e' = CancelledError))
       | None \<Rightarrow> False)"
proof -
  obtain t where t: "futures t = futures s" "pending t = pending s" "app_calls t = app_calls s" "s' = fail_pending (AppServerError msg) t"
    using breakdown_fails [OF st b] by blast
  have "app_calls s i = Some (Awaiting meth)" using call t by (simp add: fail_pending_def)
  then obtain fut where fut: "futures s i = Some fut" "fut = Waiting \<longrightarrow> i \<in> pending s"
    using app_invD(2) [OF app_reach_inv [OF reach]] by blast
  show ?thesis
  proof (cases fut)
    case Waiting
    then have "futures s' i = Some (Call_failed (AppServerError msg))" using fut t by (simp add: fail_pending_def fail_future_def)
    then show ?thesis using call fut Waiting by (simp add: call_wakes_def call_raises_def return_call_def)
  next
    case (Answered m)
    then have "futures s' i = Some (Answered m)" using fut t by (simp add: fail_pending_def fail_future_def)
    then show ?thesis using call fut Answered by (simp add: call_wakes_def return_call_def)
  next
    case (Call_failed e)
    then have f: "futures s' i = Some (Call_failed e)" using fut t by (simp add: fail_pending_def fail_future_def)
    have "\<exists>e'. returned (call_raises meth i e s') = returned s' @ [(i, Inl e')] \<and> (is_app_error e' \<or> e' = CancelledError)
        \<and> app_calls (call_raises meth i e s') i = None"
      by (cases e) (simp_all add: call_raises_def return_call_def)
    then show ?thesis using call fut f Call_failed by (auto simp: call_wakes_def)
  qed
qed

theorem breakdown_frees_calls_witness:
  "\<exists>s s' s''. run_app (butlast broken) fresh_client = Some s \<and> app_step (last broken) s = Some s'
     \<and> app_step (A_wake 1) s' = Some s''
     \<and> returned s'' = returned s' @ [(1, Inl (AppServerError ''Codex App Server reader stopped: bad''))]"
proof -
  have "map_option (\<lambda>s. (futures s 1, map_option (\<lambda>s'. app_calls s' 1) (app_step (last broken) s))) (run_app (butlast broken) fresh_client) =
      Some (Some Waiting, Some (Some (Awaiting ''a'')))" by code_simp
  then obtain s s' where s: "run_app (butlast broken) fresh_client = Some s" "app_step (last broken) s = Some s'"
    "app_calls s' 1 = Some (Awaiting ''a'')" "futures s 1 = Some Waiting" by (auto simp del: app_step.simps run_app.simps)
  have "breakdown (last broken) s' = Some ''Codex App Server reader stopped: bad''" by (simp add: broken_def)
  then show ?thesis using breakdown_frees_calls [OF run_app_reach [OF app_reach.fresh s(1)] s(2) _ s(3)] s by auto
qed

end
