(* ===== verification/Supervisor.thy ===== *)
theory Supervisor
  imports Job_Guards "HOL-Library.Word"
begin

text \<open>
  The two process supervisors: \<open>job_exec.py\<close>, which runs the command of a job, and
  \<open>parent_guard.py\<close>, which runs the daemons of the launcher. Both fork, prepare the
  child, and then turn a loop until the child has exited. What the kernel answers in one
  turn of the loop is a record; the system calls a turn makes are a list.
\<close>

unbundle bit_operations_syntax

section \<open>Exit codes\<close>

text \<open>The macros of \<open>wait(2)\<close> on Linux.\<close>

definition wtermsig :: "32 word \<Rightarrow> 32 word" where
  "wtermsig s = s AND 0x7F"

definition wifexited :: "32 word \<Rightarrow> bool" where
  "wifexited s \<longleftrightarrow> wtermsig s = 0"

definition wexitstatus :: "32 word \<Rightarrow> 32 word" where
  "wexitstatus s = drop_bit 8 (s AND 0xFF00)"

definition wifsignaled :: "32 word \<Rightarrow> bool" where
  "wifsignaled s \<longleftrightarrow> wtermsig s \<noteq> 0 \<and> wtermsig s \<noteq> 0x7F"

definition exit_code :: "32 word \<Rightarrow> int" where
  "exit_code s =
     (if wifexited s then uint (wexitstatus s)
      else if wifsignaled s then 128 + uint (wtermsig s)
      else 1)"

section \<open>Arguments\<close>

record job_exec_args =
  expected_parent :: int
  job_grace :: int
  status_fd :: int
  secret_fd :: int
  job_command :: "string list"

text \<open>\<open>int(sys.argv[i])\<close>.\<close>

definition int_arg :: "string \<Rightarrow> string \<Rightarrow> pyexc + int" where
  "int_arg what raw = (case int10 raw of None \<Rightarrow> Inl (SystemExit (what @ '' must be an integer'')) | Some n \<Rightarrow> Inr n)"

definition job_exec_args_of :: "string list \<Rightarrow> pyexc + job_exec_args" where
  "job_exec_args_of argv =
     (case argv of
        _ # parent # grace # status # secret # c # cs \<Rightarrow>
          bindr (int_arg ''parent PID'' parent) (\<lambda>parent.
          bindr (int_arg ''grace period'' grace) (\<lambda>grace.
          if \<not> (1 \<le> grace \<and> grace \<le> 120) then Inl (SystemExit ''grace period must be between 1 and 120 seconds'')
          else bindr (int_arg ''status fd'' status) (\<lambda>status.
          if status < 3 then Inl (SystemExit ''status fd must not be a standard stream'')
          else bindr (int_arg ''secret stdin fd'' secret) (\<lambda>secret.
          if secret \<noteq> - 1 \<and> secret < 3 then Inl (SystemExit ''secret stdin fd must be -1 or not a standard stream'')
          else if secret = status then Inl (SystemExit ''secret stdin fd must differ from status fd'')
          else Inr \<lparr>expected_parent = parent, job_grace = grace, status_fd = status, secret_fd = secret,
                    job_command = c # cs\<rparr>))))
      | _ \<Rightarrow> Inl (SystemExit (''usage: python -m codex_mcp_longrun.job_exec '' @
               ''PARENT_PID GRACE_SECONDS STATUS_FD STDIN_SECRET_FD COMMAND [ARG ...]'')))"

text \<open>The checks of \<open>parent_guard\<close> on the values \<open>argparse\<close> has read.\<close>

record guard_args =
  guard_parent :: int
  parent_fd :: "int option"
  guard_grace :: int
  exec_only :: bool
  guard_command :: "string list"

definition guard_args_checked :: "guard_args \<Rightarrow> pyexc + guard_args" where
  "guard_args_checked a =
     (let command = (case guard_command a of c # cs \<Rightarrow> if c = ''--'' then cs else c # cs | [] \<Rightarrow> []) in
      if guard_parent a \<le> 1 then Inl (SystemExit ''--parent-pid must identify a live launcher process'')
      else if \<not> (1 \<le> guard_grace a \<and> guard_grace a \<le> 30)
      then Inl (SystemExit ''--grace-seconds must be between 1 and 30'')
      else if exec_only a \<and> parent_fd a \<noteq> None
      then Inl (SystemExit ''--exec-only cannot be combined with --parent-fd'')
      else if \<not> exec_only a \<and> (case parent_fd a of None \<Rightarrow> True | Some fd \<Rightarrow> fd < 3)
      then Inl (SystemExit ''supervisor mode requires --parent-fd outside standard streams'')
      else if command = [] then Inl (SystemExit ''a command is required after --'')
      else Inr (a\<lparr>guard_command := command\<rparr>))"

section \<open>The child\<close>

text \<open>
  A descriptor table maps a descriptor to the file it is open on; \<open>pipe_log\<close> records what
  was written. \<open>dup2\<close> and \<open>close\<close> act as the system calls do.
\<close>

record 'f child =
  fds :: "int \<rightharpoonup> 'f"
  written :: "(int \<times> string) list"
  own_session :: bool

definition c_close :: "int \<Rightarrow> 'f child \<Rightarrow> 'f child" where
  "c_close fd c = c\<lparr>fds := (fds c)(fd := None)\<rparr>"

definition c_dup2 :: "int \<Rightarrow> int \<Rightarrow> 'f child \<Rightarrow> 'f child" where
  "c_dup2 fd fd2 c = c\<lparr>fds := (fds c)(fd2 := fds c fd)\<rparr>"

text \<open>The child of \<open>job_exec\<close> up to its \<open>execvpe\<close>; \<open>pid\<close> is its own.\<close>

definition job_child :: "job_exec_args \<Rightarrow> int \<Rightarrow> 'f child \<Rightarrow> 'f child" where
  "job_child a pid c =
     (let c = c\<lparr>own_session := True\<rparr>;
          c = c\<lparr>written := written c @ [(status_fd a, int_str pid @ [CHR 0x0A])]\<rparr>;
          c = c_close (status_fd a) c in
      if secret_fd a \<ge> 0
      then (let c = c_dup2 (secret_fd a) 0 c in if secret_fd a \<noteq> 0 then c_close (secret_fd a) c else c)
      else c)"

text \<open>What the supervisor itself keeps open, after the fork.\<close>

definition job_parent :: "job_exec_args \<Rightarrow> 'f child \<Rightarrow> 'f child" where
  "job_parent a c = (let c = c_close (status_fd a) c in if secret_fd a \<ge> 0 then c_close (secret_fd a) c else c)"

section \<open>Parent death\<close>

text \<open>
  Arming the signal: \<open>prctl\<close> may fail with an error; a parent that was gone before is
  noticed by reading the parent's process id again.
\<close>

definition arm_parent_death :: "bool \<Rightarrow> string option \<Rightarrow> int \<Rightarrow> int \<Rightarrow> pyexc + unit" where
  "arm_parent_death linux prctl_error ppid parent_pid =
     (if \<not> linux then Inl (RuntimeError ''parent-death supervision requires Linux or WSL'')
      else (case prctl_error of
              Some e \<Rightarrow> Inl (OSError e)
            | None \<Rightarrow> if ppid \<noteq> parent_pid then Inl (SystemExit ''143'') else Inr ()))"

section \<open>One turn of the loop\<close>

datatype death_signal = SIGTERM | SIGKILL

datatype kill_result = Delivered | No_process | Refused string

datatype sysop = Killpg death_signal | Sleep rat | Waitpid

text \<open>
  What the kernel answers in a turn: the exit status if the child is a zombie, whether a
  termination signal was handled before the first and before the second look at the flag,
  how many bytes the launcher's pipe gave if it was readable, two readings of the
  monotonic clock, and what becomes of a signal to the group.
\<close>

record guard_obs =
  zombie :: "32 word option"
  signalled :: bool
  parent_read :: "nat option"
  signalled_late :: bool
  clock_first :: clock
  clock_now :: clock
  killpg :: "death_signal \<Rightarrow> kill_result"

record guard =
  requested :: bool
  started_at :: "clock option"

definition fresh_guard :: guard where
  "fresh_guard = \<lparr>requested = False, started_at = None\<rparr>"

datatype guard_end = Running | Child_ended int | Raised pyexc

text \<open>\<open>_signal_command_group\<close>: a group that is gone is no error.\<close>

definition signal_group :: "guard_obs \<Rightarrow> death_signal \<Rightarrow> guard_end" where
  "signal_group ob sig = (case killpg ob sig of Refused e \<Rightarrow> Raised (PermissionError e) | _ \<Rightarrow> Running)"

text \<open>The child is a zombie: its group is swept, then it is reaped.\<close>

definition sweep :: "guard_obs \<Rightarrow> 32 word \<Rightarrow> sysop list \<times> guard_end" where
  "sweep ob status =
     (case signal_group ob SIGTERM of
        Raised e \<Rightarrow> ([Killpg SIGTERM], Raised e)
      | _ \<Rightarrow>
          (case signal_group ob SIGKILL of
             Raised e \<Rightarrow> ([Killpg SIGTERM, Sleep (1 / 10), Killpg SIGKILL], Raised e)
           | _ \<Rightarrow> ([Killpg SIGTERM, Sleep (1 / 10), Killpg SIGKILL, Waitpid], Child_ended (exit_code status))))"

definition started :: "guard_obs \<Rightarrow> guard \<Rightarrow> clock" where
  "started ob g = (case started_at g of None \<Rightarrow> clock_first ob | Some t \<Rightarrow> t)"

definition signal_to_send :: "int \<Rightarrow> guard_obs \<Rightarrow> clock \<Rightarrow> death_signal" where
  "signal_to_send grace ob t0 = (if clock_now ob - t0 \<ge> of_int grace then SIGKILL else SIGTERM)"

text \<open>\<open>parent_guard._supervise\<close>: end of file on the pipe counts as a termination signal.\<close>

definition guard_turn :: "int \<Rightarrow> guard_obs \<Rightarrow> guard \<Rightarrow> guard \<times> sysop list \<times> guard_end" where
  "guard_turn grace ob g =
     (case zombie ob of
        Some status \<Rightarrow> (g, sweep ob status)
      | None \<Rightarrow>
          let req = requested g \<or> signalled ob;
              req = req \<or> parent_read ob = Some 0 \<or> signalled_late ob in
          if \<not> req then (g\<lparr>requested := req\<rparr>, [], Running)
          else
            (let t0 = started ob g; sig = signal_to_send grace ob t0;
                 g' = g\<lparr>requested := req, started_at := Some t0\<rparr> in
             case signal_group ob sig of
               Raised e \<Rightarrow> (g', [Killpg sig], Raised e)
             | _ \<Rightarrow> (g', [Killpg sig, Sleep (1 / 20)], Running)))"

text \<open>\<open>job_exec._supervise\<close>.\<close>

definition job_turn :: "int \<Rightarrow> guard_obs \<Rightarrow> guard \<Rightarrow> guard \<times> sysop list \<times> guard_end" where
  "job_turn grace ob g =
     (case zombie ob of
        Some status \<Rightarrow> (g, sweep ob status)
      | None \<Rightarrow>
          let req = requested g \<or> signalled ob in
          if \<not> req then (g\<lparr>requested := req\<rparr>, [Sleep (1 / 20)], Running)
          else
            (let t0 = started ob g; g' = g\<lparr>requested := req, started_at := Some t0\<rparr> in
             if clock_now ob - t0 \<ge> of_int grace
             then (case signal_group ob SIGKILL of
                     Raised e \<Rightarrow> (g', [Killpg SIGKILL], Raised e)
                   | _ \<Rightarrow> (g', [Killpg SIGKILL, Sleep (1 / 20)], Running))
             else (case signal_group ob SIGTERM of
                     Raised e \<Rightarrow> (g', [Killpg SIGTERM], Raised e)
                   | _ \<Rightarrow> (g', [Killpg SIGTERM, Sleep (1 / 20)], Running))))"

section \<open>The loops\<close>

text \<open>The loop on the answers of its turns; it is still running when they are used up.\<close>

fun turns_of ::
  "(guard_obs \<Rightarrow> guard \<Rightarrow> guard \<times> sysop list \<times> guard_end) \<Rightarrow> guard_obs list \<Rightarrow> guard \<Rightarrow> sysop list \<times> guard_end" where
  "turns_of turn [] g = ([], Running)"
| "turns_of turn (ob # obs) g =
     (case turn ob g of
        (g', ops, Running) \<Rightarrow> (case turns_of turn obs g' of (ops', res) \<Rightarrow> (ops @ ops', res))
      | (g', ops, res) \<Rightarrow> (ops, res))"

text \<open>A termination signal before the fork: the guard starts nothing. 15 is SIGTERM.\<close>

definition guard_supervise :: "int \<Rightarrow> bool \<Rightarrow> guard_obs list \<Rightarrow> sysop list \<times> guard_end" where
  "guard_supervise grace early obs =
     (if early then ([], Child_ended (128 + 15)) else turns_of (guard_turn grace) obs fresh_guard)"

definition job_supervise :: "int \<Rightarrow> guard_obs list \<Rightarrow> sysop list \<times> guard_end" where
  "job_supervise grace obs = turns_of (job_turn grace) obs fresh_guard"

end
