(* ===== verification/Supervisor_Claims.thy ===== *)
theory Supervisor_Claims
  imports Supervisor
begin

text \<open>
  The properties of the two supervisors: exit codes, what they pass on to the command, what
  they signal and when, and that both implementations of the loop agree.
\<close>

section \<open>Exit codes\<close>

lemma wtermsig_eq: "wtermsig s = take_bit 7 s"
  by (simp add: wtermsig_def take_bit_eq_mask mask_eq_exp_minus_1)

lemma wexitstatus_eq: "wexitstatus s = take_bit 8 (drop_bit 8 s)"
proof -
  have mask: "(0xFF00 :: 32 word) = push_bit 8 (mask 8)" by (simp add: mask_eq_exp_minus_1 push_bit_eq_mult)
  show ?thesis unfolding wexitstatus_def mask
    by (rule bit_eqI) (auto simp: bit_simps)
qed

lemma exit_code_word: "exit_code s =
    (if take_bit 7 s = 0 then uint (take_bit 8 (drop_bit 8 s))
     else if take_bit 7 s = 0x7F then 1 else 128 + uint (take_bit 7 s))"
  by (simp add: exit_code_def wifexited_def wifsignaled_def wtermsig_eq wexitstatus_eq)

lemma uint_take_bit_small: "m \<le> 32 \<Longrightarrow> 0 \<le> uint (take_bit m (s :: 32 word)) \<and> uint (take_bit m s) < 2 ^ m"
  by (simp add: unsigned_take_bit_eq)

text \<open>
  The supervisors pass the end of the command on: a command that exits with code \<open>n\<close> makes
  them exit with \<open>n\<close>, one killed by signal \<open>k\<close> with \<open>128 + k\<close> (with or without a core
  dump), and whatever the kernel reports the code fits the eight bits a process can exit with.
\<close>

theorem exit_code_passed_on:
  fixes s :: "32 word" and n k :: nat
  shows "0 \<le> exit_code s \<and> exit_code s \<le> 255
    \<and> (n < 256 \<longrightarrow> exit_code (push_bit 8 (of_nat n)) = int n)
    \<and> (0 < k \<longrightarrow> k < 127 \<longrightarrow> exit_code (of_nat k) = 128 + int k \<and> exit_code (of_nat k OR 0x80) = 128 + int k)"
proof (intro conjI impI)
  show "0 \<le> exit_code s" "exit_code s \<le> 255"
    using uint_take_bit_small [of 8 "drop_bit 8 s"] uint_take_bit_small [of 7 s]
    by (simp_all add: exit_code_word)
next
  assume n: "n < 256"
  have "take_bit 7 (push_bit 8 (of_nat n) :: 32 word) = 0"
    by (rule bit_eqI) (simp add: bit_simps)
  moreover have "take_bit 8 (drop_bit 8 (push_bit 8 (of_nat n) :: 32 word)) = take_bit 8 (of_nat n)"
    by (rule bit_eqI) (auto simp: bit_simps)
  moreover have "uint (take_bit 8 (of_nat n) :: 32 word) = int n"
    using n by (simp add: unsigned_take_bit_eq uint_nat take_bit_nat_eq_self unat_of_nat of_nat_take_bit)
  ultimately show "exit_code (push_bit 8 (of_nat n)) = int n" by (simp add: exit_code_word)
next
  assume k: "0 < k" "k < 127"
  have u: "uint (take_bit 7 (of_nat k) :: 32 word) = int k"
    using k by (simp add: unsigned_take_bit_eq uint_nat take_bit_nat_eq_self unat_of_nat of_nat_take_bit)
  then have "take_bit 7 (of_nat k :: 32 word) \<noteq> 0" "take_bit 7 (of_nat k :: 32 word) \<noteq> 0x7F"
    using k by (auto simp: word_uint_eq_iff)
  then show e: "exit_code (of_nat k) = 128 + int k" using u by (simp add: exit_code_word)
  have flag: "(0x80 :: 32 word) = push_bit 7 1" by (simp add: push_bit_eq_mult)
  have "take_bit 7 (of_nat k OR 0x80 :: 32 word) = take_bit 7 (of_nat k)"
    unfolding flag by (rule bit_eqI) (auto simp: bit_simps)
  then show "exit_code (of_nat k OR 0x80) = 128 + int k" using e by (simp add: exit_code_word split: if_splits)
qed

theorem exit_code_passed_on_witness:
  "exit_code 0x300 = 3 \<and> exit_code 9 = 137 \<and> exit_code 0x8B = 139"
proof -
  have "push_bit 8 (of_nat 3) = (0x300 :: 32 word)" "of_nat 9 = (9 :: 32 word)" "of_nat 11 OR 0x80 = (0x8B :: 32 word)"
    by (simp_all add: push_bit_eq_mult)
  then show ?thesis using exit_code_passed_on [of 0 3 9] exit_code_passed_on [of 0 3 11] by simp
qed

section \<open>What the command inherits\<close>

lemma job_exec_args_bounds:
  "job_exec_args_of argv = Inr a \<Longrightarrow> 1 \<le> job_grace a \<and> job_grace a \<le> 120 \<and> 3 \<le> status_fd a
     \<and> (secret_fd a = - 1 \<or> 3 \<le> secret_fd a) \<and> secret_fd a \<noteq> status_fd a \<and> job_command a \<noteq> []"
  by (auto simp: job_exec_args_of_def bindr_Inr split: list.splits if_splits)

text \<open>
  The command of a job gets the secret as its standard input and in no other way, and it
  cannot write to the status pipe: for arguments that \<open>job_exec\<close> accepts, the descriptors of
  the command are those that were passed on but for the status pipe and the secret's own
  number, with the secret on 0; the supervisor keeps neither; the pipe carries one line, the
  command's process id.
\<close>

theorem command_descriptors:
  assumes "job_exec_args_of argv = Inr a"
  shows "fds (job_child a pid c) fd =
      (if fd = status_fd a \<or> 0 \<le> secret_fd a \<and> fd = secret_fd a then None
       else if fd = 0 \<and> 0 \<le> secret_fd a then fds c (secret_fd a) else fds c fd)
    \<and> written (job_child a pid c) = written c @ [(status_fd a, int_str pid @ [CHR 0x0A])]
    \<and> fds (job_parent a c) fd = (if fd = status_fd a \<or> 0 \<le> secret_fd a \<and> fd = secret_fd a then None else fds c fd)"
  using job_exec_args_bounds [OF assms]
  by (auto simp: job_child_def job_parent_def c_close_def c_dup2_def Let_def)

definition demo_argv :: "string list" where
  "demo_argv = [''job_exec'', ''100'', ''5'', ''7'', ''9'', ''make'']"

lemma demo_args: "job_exec_args_of demo_argv =
    Inr \<lparr>expected_parent = 100, job_grace = 5, status_fd = 7, secret_fd = 9, job_command = [''make'']\<rparr>"
  by code_simp

theorem command_descriptors_witness:
  "\<exists>a. job_exec_args_of demo_argv = Inr a \<and> 0 \<le> secret_fd a \<and>
     fds (job_child a 42 \<lparr>fds = [0 \<mapsto> ''tty'', 7 \<mapsto> ''pipe'', 9 \<mapsto> ''secret''], written = [], own_session = False\<rparr>) 0 = Some ''secret'' \<and>
     fds (job_child a 42 \<lparr>fds = [0 \<mapsto> ''tty'', 7 \<mapsto> ''pipe'', 9 \<mapsto> ''secret''], written = [], own_session = False\<rparr>) 9 = None"
  using demo_args command_descriptors [OF demo_args, of 42 "\<lparr>fds = [0 \<mapsto> ''tty'', 7 \<mapsto> ''pipe'', 9 \<mapsto> ''secret''], written = [], own_session = False\<rparr>" 0]
    command_descriptors [OF demo_args, of 42 "\<lparr>fds = [0 \<mapsto> ''tty'', 7 \<mapsto> ''pipe'', 9 \<mapsto> ''secret''], written = [], own_session = False\<rparr>" 9]
  by simp

section \<open>Signals\<close>

text \<open>What one turn can do: nothing, one signal, or the sweep of a zombie.\<close>

lemma sweep_cases:
  "sweep ob status = (ops, res) \<Longrightarrow>
     res = Child_ended (exit_code status) \<and> ops = [Killpg SIGTERM, Sleep (1 / 10), Killpg SIGKILL, Waitpid] \<or>
     (\<exists>e. res = Raised e) \<and> Waitpid \<notin> set ops"
  by (auto simp: sweep_def signal_group_def split: kill_result.splits)

definition is_turn :: "int \<Rightarrow> (guard_obs \<Rightarrow> guard \<Rightarrow> guard \<times> sysop list \<times> guard_end) \<Rightarrow> bool" where
  "is_turn grace turn \<longleftrightarrow> turn = guard_turn grace \<or> turn = job_turn grace"

lemma turn_zombie: "is_turn grace turn \<Longrightarrow> zombie ob = Some status \<Longrightarrow> turn ob g = (g, sweep ob status)"
  by (auto simp: is_turn_def guard_turn_def job_turn_def)

lemma turn_alive:
  "is_turn grace turn \<Longrightarrow> zombie ob = None \<Longrightarrow> turn ob g = (g', ops, res) \<Longrightarrow>
     Waitpid \<notin> set ops \<and> (\<forall>code. res \<noteq> Child_ended code)"
  by (auto simp: is_turn_def guard_turn_def job_turn_def signal_group_def Let_def
      split: kill_result.splits if_splits)

text \<open>
  C18. A process id is never signalled after it was given back: both supervisors reap the
  command as the last thing they do, after its group was swept by both signals, and return
  the code of the status they saw; as long as they have not returned they have not reaped.
\<close>

theorem reaped_last:
  assumes turn: "is_turn grace turn" and run: "turns_of turn obs g = (ops, res)"
  shows "(\<forall>code. res = Child_ended code \<longrightarrow>
      (\<exists>pre ob status. ops = pre @ [Killpg SIGTERM, Sleep (1 / 10), Killpg SIGKILL, Waitpid] \<and> Waitpid \<notin> set pre
         \<and> ob \<in> set obs \<and> zombie ob = Some status \<and> code = exit_code status))
    \<and> ((\<forall>code. res \<noteq> Child_ended code) \<longrightarrow> Waitpid \<notin> set ops)"
  using run
proof (induction obs arbitrary: g ops)
  case (Cons ob obs)
  obtain g' ops1 res1 where t: "turn ob g = (g', ops1, res1)" by (cases "turn ob g") auto
  show ?case
  proof (cases "zombie ob")
    case (Some status)
    then have sw: "sweep ob status = (ops1, res1)" using turn_zombie [OF turn Some, of g] t by simp
    have "res1 \<noteq> Running" using sweep_cases [OF sw] by auto
    then have eq: "ops = ops1" "res = res1" using Cons.prems t by (auto split: guard_end.splits)
    show ?thesis using sweep_cases [OF sw] Some unfolding eq by (auto intro!: exI [of _ "[]"])
  next
    case None
    note alive = turn_alive [OF turn None t]
    show ?thesis
    proof (cases res1)
      case Running
      then obtain ops2 where r: "turns_of turn obs g' = (ops2, res)" "ops = ops1 @ ops2"
        using Cons.prems t by (auto split: prod.splits)
      have pre: "\<exists>pre' ob status. ops = pre' @ tail \<and> Waitpid \<notin> set pre' \<and> ob \<in> set (ob0 # obs) \<and> Q ob status"
        if "ops2 = pre @ tail" "Waitpid \<notin> set pre" "ob \<in> set obs" "Q ob status" for pre tail ob status Q ob0
        using that alive r(2) by (intro exI [of _ "ops1 @ pre"] exI [of _ ob] exI [of _ status]) auto
      show ?thesis using Cons.IH [OF r(1)] alive r(2) pre by fastforce
    qed (use Cons.prems t alive in auto)
  qed
qed auto

definition kernel_says :: "32 word option \<Rightarrow> bool \<Rightarrow> clock \<Rightarrow> guard_obs" where
  "kernel_says z sig now = \<lparr>zombie = z, signalled = sig, parent_read = None, signalled_late = False,
     clock_first = now, clock_now = now, killpg = \<lambda>_. Delivered\<rparr>"

lemma supervised_run: "turns_of (job_turn 5) [kernel_says None False 0, kernel_says None True 1, kernel_says (Some 0x300) False 2] fresh_guard =
    ([Sleep (1 / 20), Killpg SIGTERM, Sleep (1 / 20), Killpg SIGTERM, Sleep (1 / 10), Killpg SIGKILL, Waitpid], Child_ended (exit_code 0x300))"
  by (simp add: job_turn_def kernel_says_def fresh_guard_def Let_def started_def signal_group_def sweep_def)

theorem reaped_last_witness:
  "\<exists>ops pre. turns_of (job_turn 5) [kernel_says None False 0, kernel_says None True 1, kernel_says (Some 0x300) False 2] fresh_guard
       = (ops, Child_ended (exit_code 0x300)) \<and> ops = pre @ [Killpg SIGTERM, Sleep (1 / 10), Killpg SIGKILL, Waitpid]
     \<and> Waitpid \<notin> set pre"
  using reaped_last [OF _ supervised_run, of 5] supervised_run unfolding is_turn_def by blast

text \<open>The signals among the system calls.\<close>

fun group_signals :: "sysop list \<Rightarrow> death_signal list" where
  "group_signals [] = []"
| "group_signals (Killpg sig # ops) = sig # group_signals ops"
| "group_signals (_ # ops) = group_signals ops"

lemma group_signals_append [simp]: "group_signals (xs @ ys) = group_signals xs @ group_signals ys"
  by (induction xs rule: group_signals.induct) auto

text \<open>A turn in which the command runs on and may be signalled.\<close>

definition running_turn :: "guard_obs \<Rightarrow> bool" where
  "running_turn ob \<longleftrightarrow> zombie ob = None \<and> (\<forall>sig e. killpg ob sig \<noteq> Refused e)"

lemma running_signal [simp]: "running_turn ob \<Longrightarrow> signal_group ob sig = Running"
  by (cases "killpg ob sig") (auto simp: running_turn_def signal_group_def)

lemma turn_requested:
  "is_turn grace turn \<Longrightarrow> running_turn ob \<Longrightarrow> requested g \<Longrightarrow>
     turn ob g = (g\<lparr>started_at := Some (started ob g)\<rparr>, [Killpg (signal_to_send grace ob (started ob g)), Sleep (1 / 20)], Running)"
  by (cases g) (auto simp: is_turn_def guard_turn_def job_turn_def running_turn_def signal_to_send_def Let_def
      signal_group_def split: kill_result.splits)

lemma requested_run:
  "is_turn grace turn \<Longrightarrow> \<forall>ob \<in> set obs. running_turn ob \<Longrightarrow> requested g \<Longrightarrow> started_at g = Some t0 \<Longrightarrow>
     \<exists>ops. turns_of turn obs g = (ops, Running) \<and> group_signals ops = map (\<lambda>ob. signal_to_send grace ob t0) obs"
proof (induction obs arbitrary: g)
  case (Cons ob obs)
  have t: "turn ob g = (g\<lparr>started_at := Some t0\<rparr>, [Killpg (signal_to_send grace ob t0), Sleep (1 / 20)], Running)"
    using turn_requested [of grace turn ob g] Cons.prems by (simp add: started_def)
  obtain ops where "turns_of turn obs (g\<lparr>started_at := Some t0\<rparr>) = (ops, Running)"
    "group_signals ops = map (\<lambda>ob. signal_to_send grace ob t0) obs"
    using Cons.IH [of "g\<lparr>started_at := Some t0\<rparr>"] Cons.prems by auto
  then show ?case using t by simp
qed simp

text \<open>
  A command does not outlive its launcher or a termination request: from the turn on in
  which a termination signal was handled, or the guard read the end of the launcher's pipe,
  every turn signals the command's group until the command has exited, with SIGTERM during the
  grace period and with SIGKILL after it.
\<close>

theorem termination_escalates:
  assumes turn: "is_turn grace turn" and obs: "\<forall>ob' \<in> set (ob # obs). running_turn ob'"
    and asked: "signalled ob \<or> turn = guard_turn grace \<and> parent_read ob = Some 0"
  shows "\<exists>ops. turns_of turn (ob # obs) fresh_guard = (ops, Running) \<and>
    group_signals ops = map (\<lambda>ob'. if clock_now ob' - clock_first ob \<ge> of_int grace then SIGKILL else SIGTERM) (ob # obs)"
proof -
  have r: "running_turn ob" using obs by simp
  have t: "turn ob fresh_guard = (\<lparr>requested = True, started_at = Some (clock_first ob)\<rparr>,
      [Killpg (signal_to_send grace ob (clock_first ob)), Sleep (1 / 20)], Running)"
    using turn asked r
    by (auto simp: is_turn_def guard_turn_def job_turn_def fresh_guard_def started_def signal_to_send_def Let_def
        running_turn_def signal_group_def split: kill_result.splits)
  obtain ops where "turns_of turn obs \<lparr>requested = True, started_at = Some (clock_first ob)\<rparr> = (ops, Running)"
    "group_signals ops = map (\<lambda>ob'. signal_to_send grace ob' (clock_first ob)) obs"
    using requested_run [OF turn, of obs "\<lparr>requested = True, started_at = Some (clock_first ob)\<rparr>"] obs by auto
  then show ?thesis using t by (simp add: signal_to_send_def)
qed

theorem termination_escalates_witness:
  "\<exists>ops. turns_of (guard_turn 2) [(kernel_says None False 1)\<lparr>parent_read := Some 0\<rparr>, kernel_says None False 2, kernel_says None False 3] fresh_guard
      = (ops, Running) \<and> group_signals ops = [SIGTERM, SIGTERM, SIGKILL]"
  using termination_escalates [of 2 "guard_turn 2" "(kernel_says None False 1)\<lparr>parent_read := Some 0\<rparr>"
      "[kernel_says None False 2, kernel_says None False 3]"]
  by (simp add: is_turn_def running_turn_def kernel_says_def)

fun is_sleep :: "sysop \<Rightarrow> bool" where
  "is_sleep (Sleep d) = True"
| "is_sleep _ = False"

text \<open>
  The two loops agree: on the same answers of the kernel, with no news from a launcher's
  pipe, \<open>job_exec\<close> and \<open>parent_guard\<close> signal and reap alike and return the same code; they
  only differ in where they wait.
\<close>

theorem loops_agree:
  assumes "\<forall>ob \<in> set obs. parent_read ob \<noteq> Some 0 \<and> \<not> signalled_late ob"
  shows "map_prod (filter (\<lambda>op. \<not> is_sleep op)) id (guard_supervise grace False obs) =
         map_prod (filter (\<lambda>op. \<not> is_sleep op)) id (job_supervise grace obs)"
proof -
  have turn: "fst (guard_turn grace ob g) = fst (job_turn grace ob g) \<and>
      map_prod (filter (\<lambda>op. \<not> is_sleep op)) id (snd (guard_turn grace ob g)) =
      map_prod (filter (\<lambda>op. \<not> is_sleep op)) id (snd (job_turn grace ob g))"
    if "parent_read ob \<noteq> Some 0 \<and> \<not> signalled_late ob" for ob g
    using that by (auto simp: guard_turn_def job_turn_def signal_to_send_def Let_def split: option.splits guard_end.splits)
  have "map_prod (filter (\<lambda>op. \<not> is_sleep op)) id (turns_of (guard_turn grace) obs g) =
        map_prod (filter (\<lambda>op. \<not> is_sleep op)) id (turns_of (job_turn grace) obs g)" for g
    using assms
  proof (induction obs arbitrary: g)
    case (Cons ob obs)
    obtain g1 ops1 r1 where a: "guard_turn grace ob g = (g1, ops1, r1)" by (cases "guard_turn grace ob g") auto
    obtain g2 ops2 r2 where b: "job_turn grace ob g = (g2, ops2, r2)" by (cases "job_turn grace ob g") auto
    have eq: "g2 = g1" "r2 = r1" "filter (\<lambda>op. \<not> is_sleep op) ops2 = filter (\<lambda>op. \<not> is_sleep op) ops1"
      using turn [of ob g] Cons.prems a b by auto
    show ?case using Cons.IH [of g1] Cons.prems a b eq
      by (cases r1; cases "turns_of (guard_turn grace) obs g1"; cases "turns_of (job_turn grace) obs g1") auto
  qed simp
  then show ?thesis by (simp add: guard_supervise_def job_supervise_def)
qed

theorem loops_agree_witness:
  "map_prod (filter (\<lambda>op. \<not> is_sleep op)) id (guard_supervise 5 False [kernel_says None True 1, kernel_says (Some 9) False 2]) =
   map_prod (filter (\<lambda>op. \<not> is_sleep op)) id (job_supervise 5 [kernel_says None True 1, kernel_says (Some 9) False 2])"
  by (rule loops_agree) (simp add: kernel_says_def)

end
