(* ===== verification/Launcher.thy ===== *)
theory Launcher
  imports Job_Guards "HOL-Library.Word"
begin

text \<open>
  The launcher (\<open>launcher.py\<close>): its options, the working directory of Codex, the private
  runtime directory, and the life of the processes it starts. The host answers path
  questions as in \<open>Job_Guards\<close>; what becomes of each process is a parameter, the resources
  the launcher holds are its state.
\<close>

unbundle bit_operations_syntax

section \<open>Options\<close>

record launcher_options =
  lo_mode :: string
  lo_threshold_mib :: int
  lo_tail_turns :: int
  lo_timeout_sec :: rat

text \<open>The checks of \<open>_parse_args\<close> on the values \<open>argparse\<close> has read.\<close>

definition launcher_options_checked :: "launcher_options \<Rightarrow> pyexc + launcher_options" where
  "launcher_options_checked k =
     (if \<not> (1 \<le> lo_threshold_mib k \<and> lo_threshold_mib k \<le> 127)
      then Inl (SystemExit ''--longrun-history-threshold-mib must be between 1 and 127'')
      else if \<not> (1 \<le> lo_tail_turns k \<and> lo_tail_turns k \<le> 20)
      then Inl (SystemExit ''--longrun-history-tail-turns must be between 1 and 20'')
      else if \<not> (5 \<le> lo_timeout_sec k \<and> lo_timeout_sec k \<le> 600)
      then Inl (SystemExit ''--longrun-history-timeout-sec must be between 5 and 600'')
      else Inr k)"

section \<open>The working directory\<close>

text \<open>The value of the last \<open>-C\<close>, \<open>--cd\<close> or \<open>--cd=\<close> before \<open>--\<close>.\<close>

fun requested_cwd :: "string option \<Rightarrow> string list \<Rightarrow> pyexc + string option" where
  "requested_cwd req [] = Inr req"
| "requested_cwd req (a # as) =
     (if a = ''--'' then Inr req
      else if a = ''-C'' \<or> a = ''--cd''
      then (case as of
              [] \<Rightarrow> Inl (RuntimeError (a @ '' requires a working-directory argument''))
            | v # as' \<Rightarrow> requested_cwd (Some v) as')
      else requested_cwd (if starts_with a ''--cd='' then Some (drop 5 a) else req) as)"

definition resolve_codex_cwd :: "host \<Rightarrow> string list \<Rightarrow> path \<Rightarrow> pyexc + path" where
  "resolve_codex_cwd h codex_args invocation =
     bindr (expanduser h invocation) (\<lambda>b0.
     let base = resolve_lax h b0 in
     bindr (requested_cwd None codex_args) (\<lambda>requested.
     bindr (case requested of None \<Rightarrow> Inr base | Some r \<Rightarrow> expanduser h (parse_path r)) (\<lambda>c0.
     let candidate = (if absolute c0 then c0 else path_join base c0) in
     (case resolve_strict h candidate of
        Inl e \<Rightarrow> (case e of
                    OSError m \<Rightarrow> Inl (RuntimeError (''Codex working directory does not exist: '' @ path_str candidate))
                  | FileNotFoundError m \<Rightarrow> Inl (RuntimeError (''Codex working directory does not exist: '' @ path_str candidate))
                  | PermissionError m \<Rightarrow> Inl (RuntimeError (''Codex working directory does not exist: '' @ path_str candidate))
                  | _ \<Rightarrow> Inl e)
      | Inr resolved \<Rightarrow>
          if is_directory h resolved then Inr resolved
          else Inl (RuntimeError (''Codex working directory is not a directory: '' @ path_str resolved))))))"

section \<open>The runtime directory\<close>

record dir_info =
  dir_uid :: int
  dir_mode :: "16 word"

definition tmp_path :: path where
  "tmp_path = parse_path ''/tmp''"

definition runtime_parent :: "host \<Rightarrow> (path \<Rightarrow> bool) \<Rightarrow> (path \<Rightarrow> dir_info) \<Rightarrow> int \<Rightarrow> pyexc + path" where
  "runtime_parent h exists_path info uid =
     (let configured = env_var h ''XDG_RUNTIME_DIR'';
          given = (configured \<noteq> None \<and> configured \<noteq> Some []) in
      bindr (if given then expanduser h (parse_path (the configured)) else Inr tmp_path) (\<lambda>c0.
      let candidate = resolve_lax h c0; fallback = resolve_lax h tmp_path in
      if \<not> is_directory h candidate
      then (if given \<and> \<not> exists_path candidate \<and> is_directory h fallback then Inr fallback
            else Inl (RuntimeError (''runtime parent does not exist: '' @ path_str candidate)))
      else if given \<and> (dir_uid (info candidate) \<noteq> uid \<or> dir_mode (info candidate) AND 0x3F \<noteq> 0)
      then Inl (RuntimeError (''XDG_RUNTIME_DIR is not private and same-user owned: '' @ path_str candidate))
      else Inr candidate))"

text \<open>
  \<open>mkdtemp\<close> under each parent: the first that works, made private by \<open>chmod\<close>. With the result
  comes the directory that was made, which stays when \<open>chmod\<close> fails.
\<close>

fun make_first ::
  "(path \<Rightarrow> string + path) \<Rightarrow> (path \<Rightarrow> pyexc option) \<Rightarrow> string option \<Rightarrow> path list \<Rightarrow>
   path option \<times> (pyexc + path)" where
  "make_first mkdtemp chmod err [] =
     (None, Inl (RuntimeError (''cannot create a private runtime directory: '' @
        (case err of None \<Rightarrow> ''None'' | Some e \<Rightarrow> e))))"
| "make_first mkdtemp chmod err (p # ps) =
     (case mkdtemp p of
        Inl e \<Rightarrow> make_first mkdtemp chmod (Some e) ps
      | Inr d \<Rightarrow> (Some d, case chmod d of Some e \<Rightarrow> Inl e | None \<Rightarrow> Inr d))"

definition make_runtime_dir ::
  "host \<Rightarrow> (path \<Rightarrow> bool) \<Rightarrow> (path \<Rightarrow> dir_info) \<Rightarrow> int \<Rightarrow> (path \<Rightarrow> string + path) \<Rightarrow> (path \<Rightarrow> pyexc option) \<Rightarrow>
   path option \<times> (pyexc + path)" where
  "make_runtime_dir h exists_path info uid mkdtemp chmod =
     (case runtime_parent h exists_path info uid of
        Inl e \<Rightarrow> (None, Inl e)
      | Inr preferred \<Rightarrow>
          let fallback = resolve_lax h tmp_path in
          make_first mkdtemp chmod None (preferred # (if fallback \<noteq> preferred then [fallback] else [])))"

section \<open>Waiting for a socket\<close>

text \<open>
  The loop on what it sees: the clock, whether the socket is there, the exit code of the
  process. \<open>None\<close>: still waiting when the observations are used up.
\<close>

definition startup_timeout_sec :: rat where
  "startup_timeout_sec = 20"

fun wait_for_socket :: "string \<Rightarrow> path \<Rightarrow> clock \<Rightarrow> (clock \<times> bool \<times> int option) list \<Rightarrow> (pyexc + unit) option" where
  "wait_for_socket label p deadline [] = None"
| "wait_for_socket label p deadline ((now, there, code) # seen) =
     (if \<not> now < deadline
      then Some (Inl (RuntimeError (label @ '' did not create '' @ path_str p @ '' within 20 seconds'')))
      else if there then Some (Inr ())
      else (case code of
              Some c \<Rightarrow> Some (Inl (RuntimeError (label @ '' exited during startup with code '' @ int_str c)))
            | None \<Rightarrow> wait_for_socket label p deadline seen))"

section \<open>The processes\<close>

datatype daemon = App_server | Coordinator_process | Tui_process

text \<open>
  What the launcher holds: the runtime directory, processes that may run, both ends of the
  pipes of the guards, and the signals it sent.
\<close>

record launcher =
  runtime_dir :: "path option"
  daemons_running :: "daemon set"
  guard_fds :: "daemon set"
  parent_fds :: "daemon set"
  daemon_signals :: "(daemon \<times> string) list"

definition fresh_launch :: launcher where
  "fresh_launch = \<lparr>runtime_dir = None, daemons_running = {}, guard_fds = {}, parent_fds = {}, daemon_signals = []\<rparr>"

text \<open>\<open>_spawn_supervised_daemon\<close>: the parent's end of the pipe is closed in any case.\<close>

definition spawn_daemon :: "pyexc option \<Rightarrow> pyexc option \<Rightarrow> daemon \<Rightarrow> launcher \<Rightarrow> (launcher, unit) outcome" where
  "spawn_daemon pipe_error spawn_error d w =
     (case pipe_error of
        Some e \<Rightarrow> (w, Inl e)
      | None \<Rightarrow>
          let w = w\<lparr>guard_fds := insert d (guard_fds w), parent_fds := insert d (parent_fds w)\<rparr>;
              res = (case spawn_error of
                       Some e \<Rightarrow> (w\<lparr>guard_fds := guard_fds w - {d}\<rparr>, Inl e)
                     | None \<Rightarrow> (w\<lparr>daemons_running := insert d (daemons_running w)\<rparr>, Inr ())) in
          (case res of (w, r) \<Rightarrow> (w\<lparr>parent_fds := parent_fds w - {d}\<rparr>, r)))"

text \<open>
  \<open>_terminate\<close>: five seconds after \<open>SIGTERM\<close> a process is killed. An exception that ends the
  wait (a second interrupt) leaves a process that was told to end and may still run.
\<close>

definition terminate_daemon :: "pyexc option \<Rightarrow> bool \<Rightarrow> daemon \<Rightarrow> launcher \<Rightarrow> (launcher, unit) outcome" where
  "terminate_daemon err stubborn d w =
     (if d \<notin> daemons_running w then (w, Inr ())
      else
        (case err of
           Some e \<Rightarrow> (w\<lparr>daemon_signals := daemon_signals w @ [(d, ''SIGTERM'')]\<rparr>, Inl e)
         | None \<Rightarrow>
             (w\<lparr>daemons_running := daemons_running w - {d},
                daemon_signals := daemon_signals w @ (d, ''SIGTERM'') # (if stubborn then [(d, ''SIGKILL'')] else [])\<rparr>,
              Inr ())))"

text \<open>
  How the steps of \<open>_run\<close> end; \<open>finished\<close> are the processes that end first, with their codes,
  \<open>cleanup_error\<close> says which waits of the cleanup are interrupted, \<open>rmtree_ok\<close> whether
  \<open>rmtree\<close>, which ignores errors, removes the directory.
\<close>

record launch_outcomes =
  app_pipe :: "pyexc option"
  app_spawn :: "pyexc option"
  app_ready :: "pyexc + unit"
  proxy_pipe :: "pyexc option"
  proxy_spawn :: "pyexc option"
  bridge_ready :: "pyexc + unit"
  tui_ready :: "pyexc + unit"
  tui_spawn :: "pyexc option"
  waited :: "pyexc + unit"
  finished :: "daemon \<Rightarrow> int option"
  ignores_sigterm :: "daemon \<Rightarrow> bool"
  cleanup_error :: "daemon \<Rightarrow> pyexc option"
  rmtree_ok :: bool

definition lift_ready :: "pyexc + unit \<Rightarrow> launcher \<Rightarrow> (launcher, unit) outcome" where
  "lift_ready r w = (w, r)"

text \<open>The body of the \<open>try\<close>.\<close>

definition launch_body :: "launch_outcomes \<Rightarrow> launcher \<Rightarrow> (launcher, int) outcome" where
  "launch_body ow w =
     and_then (spawn_daemon (app_pipe ow) (app_spawn ow) App_server w) (\<lambda>_ w.
     and_then (lift_ready (app_ready ow) w) (\<lambda>_ w.
     and_then (spawn_daemon (proxy_pipe ow) (proxy_spawn ow) Coordinator_process w) (\<lambda>_ w.
     and_then (lift_ready (bridge_ready ow) w) (\<lambda>_ w.
     and_then (lift_ready (tui_ready ow) w) (\<lambda>_ w.
     and_then (case tui_spawn ow of Some e \<Rightarrow> (w, Inl e) | None \<Rightarrow> (w\<lparr>daemons_running := insert Tui_process (daemons_running w)\<rparr>, Inr ())) (\<lambda>_ w.
     and_then (lift_ready (waited ow) w) (\<lambda>_ w.
     let w = w\<lparr>daemons_running := {d \<in> daemons_running w. finished ow d = None}\<rparr> in
     (w, case finished ow Tui_process of
           Some code \<Rightarrow> Inr code
         | None \<Rightarrow>
             (case finished ow Coordinator_process of
                Some code \<Rightarrow> Inl (RuntimeError (''TUI compatibility proxy exited unexpectedly with code '' @ int_str code))
              | None \<Rightarrow> Inl (RuntimeError (''Codex App Server exited unexpectedly with code ''
                          @ int_str (case finished ow App_server of None \<Rightarrow> 0 | Some code \<Rightarrow> code))))))))))))"

text \<open>The \<open>finally\<close>: an exception in it skips the rest and replaces the result.\<close>

definition remove_runtime_dir :: "launch_outcomes \<Rightarrow> launcher \<Rightarrow> launcher" where
  "remove_runtime_dir ow w = (if rmtree_ok ow then w\<lparr>runtime_dir := None\<rparr> else w)"

definition launch_cleanup :: "launch_outcomes \<Rightarrow> launcher \<Rightarrow> (launcher, unit) outcome" where
  "launch_cleanup ow w =
     (let terminate = (\<lambda>d. terminate_daemon (cleanup_error ow d) (ignores_sigterm ow d) d) in
      and_then (terminate Tui_process w) (\<lambda>_ w.
      and_then (terminate Coordinator_process w) (\<lambda>_ w.
      and_then (terminate App_server w) (\<lambda>_ w.
        (remove_runtime_dir ow (w\<lparr>guard_fds := {}\<rparr>), Inr ())))))"

definition socket_paths :: "path \<Rightarrow> path list" where
  "socket_paths d = map (\<lambda>n. path_join d (parse_path n)) [''app.sock'', ''bridge.sock'', ''tui.sock'']"

definition launch_run ::
  "host \<Rightarrow> (path \<Rightarrow> bool) \<Rightarrow> (path \<Rightarrow> dir_info) \<Rightarrow> int \<Rightarrow> (path \<Rightarrow> string + path) \<Rightarrow> (path \<Rightarrow> pyexc option) \<Rightarrow>
   path \<Rightarrow> string list \<Rightarrow> launch_outcomes \<Rightarrow> launcher \<Rightarrow> (launcher, int) outcome" where
  "launch_run h exists_path info uid mkdtemp chmod invocation codex_args ow w =
     (case which h ''codex'' of
        None \<Rightarrow> (w, Inl (RuntimeError ''codex executable was not found in PATH''))
      | Some codex \<Rightarrow>
          (case resolve_codex_cwd h codex_args invocation of
             Inl e \<Rightarrow> (w, Inl e)
           | Inr cwd \<Rightarrow>
               (case make_runtime_dir h exists_path info uid mkdtemp chmod of
                  (made, Inl e) \<Rightarrow> (w\<lparr>runtime_dir := made\<rparr>, Inl e)
                | (made, Inr d) \<Rightarrow>
                    let w = w\<lparr>runtime_dir := made\<rparr> in
                    if list_ex (\<lambda>p. length (path_str p) \<ge> 100) (socket_paths d)
                    then (remove_runtime_dir ow w, Inl (RuntimeError ''runtime path is too long for Unix-domain sockets''))
                    else
                      (case launch_body ow w of
                         (w, r) \<Rightarrow> and_then (launch_cleanup ow w) (\<lambda>_ w. (w, r))))))"

end
