(* ===== verification/Launcher_Claims.thy ===== *)
theory Launcher_Claims
  imports Launcher
begin

text \<open>
  The properties of the launcher: it leaves nothing behind, and its sockets are in a
  private place.
\<close>

section \<open>Cleaning up\<close>

text \<open>The parents' ends of the guard pipes are closed after every step.\<close>

lemma spawn_parent_fds: "parent_fds w = {} \<Longrightarrow> parent_fds (fst (spawn_daemon p e d w)) = {}"
  by (auto simp: spawn_daemon_def Let_def split: option.splits)

lemma launch_then:
  assumes "parent_fds (fst res) = {}" "\<And>a w. parent_fds w = {} \<Longrightarrow> parent_fds (fst (g a w)) = {}"
  shows "parent_fds (fst (and_then res g)) = {}"
  using assms by (cases res) (auto simp: and_then_def split: sum.splits)

lemma body_parent_fds: "parent_fds w = {} \<Longrightarrow> parent_fds (fst (launch_body ow w)) = {}"
  unfolding launch_body_def Let_def
  by (intro launch_then) (auto simp: spawn_parent_fds lift_ready_def split: option.splits)

lemma daemons: "(UNIV :: daemon set) = {App_server, Coordinator_process, Tui_process}"
  using daemon.exhaust by blast

lemma no_daemon_left: "A - {Tui_process} - {Coordinator_process} - {App_server} = {}" for A :: "daemon set"
  using daemons by blast

text \<open>What an interrupted cleanup has done: it told one process to end, which may still run.\<close>

definition interrupted :: "launch_outcomes \<Rightarrow> pyexc \<Rightarrow> launcher \<Rightarrow> bool" where
  "interrupted ow e w \<longleftrightarrow>
     (\<exists>d. cleanup_error ow d = Some e \<and> d \<in> daemons_running w \<and> (d, ''SIGTERM'') \<in> set (daemon_signals w))"

lemma terminate_cases:
  assumes "terminate_daemon (cleanup_error ow d) b d w = (w', r)"
  shows "parent_fds w' = parent_fds w \<and>
    (case r of Inl e \<Rightarrow> interrupted ow e w' | Inr _ \<Rightarrow> daemons_running w' = daemons_running w - {d})"
  using assms by (fastforce simp: terminate_daemon_def interrupted_def split: if_splits option.splits)

lemma remove_runtime_dir_frame [simp]:
  "parent_fds (remove_runtime_dir ow w) = parent_fds w" "daemons_running (remove_runtime_dir ow w) = daemons_running w"
  "guard_fds (remove_runtime_dir ow w) = guard_fds w" "rmtree_ok ow \<Longrightarrow> runtime_dir (remove_runtime_dir ow w) = None"
  by (simp_all add: remove_runtime_dir_def)

lemma cleanup_cases:
  assumes "launch_cleanup ow w = (w', r)"
  shows "parent_fds w' = parent_fds w \<and>
    (case r of Inl e \<Rightarrow> interrupted ow e w'
     | Inr _ \<Rightarrow> daemons_running w' = {} \<and> guard_fds w' = {} \<and> (rmtree_ok ow \<longrightarrow> runtime_dir w' = None))"
proof -
  let ?stop = "\<lambda>d w. terminate_daemon (cleanup_error ow d) (ignores_sigterm ow d) d w"
  obtain w1 r1 w2 r2 w3 r3 where t: "?stop Tui_process w = (w1, r1)" "?stop Coordinator_process w1 = (w2, r2)"
    "?stop App_server w2 = (w3, r3)" by (meson surj_pair)
  note cases = terminate_cases [OF t(1)] terminate_cases [OF t(2)] terminate_cases [OF t(3)]
  show ?thesis using assms cases t no_daemon_left [of "daemons_running w"]
    by (cases r1; cases r2; cases r3) (auto simp: launch_cleanup_def and_then_def)
qed

lemma body_result:
  "launch_body ow w = (w', Inr code) \<Longrightarrow> finished ow Tui_process = Some code \<and> app_spawn ow = None \<and> proxy_spawn ow = None
     \<and> app_ready ow = Inr () \<and> bridge_ready ow = Inr () \<and> tui_ready ow = Inr () \<and> tui_spawn ow = None"
  by (auto simp: launch_body_def lift_ready_def and_then_def spawn_daemon_def Let_def split: prod.splits sum.splits option.splits)

lemma make_first_failed:
  "make_first mkdtemp chmod err ps = (made, Inl e) \<Longrightarrow> made = None \<or> (\<exists>d. made = Some d \<and> chmod d = Some e)"
  by (induction ps arbitrary: err) (auto split: sum.splits option.splits)

lemma launch_run_cases:
  assumes "launch_run h exists_path info uid mkdtemp chmod invocation codex_args ow fresh_launch = (w, r)"
  obtains (early) e made where "r = Inl e" "w = fresh_launch\<lparr>runtime_dir := made\<rparr>"
      "made = None \<or> \<not> rmtree_ok ow \<or> (\<exists>d. made = Some d \<and> chmod d = Some e)"
  | (run) made where "and_then (launch_cleanup ow (fst (launch_body ow (fresh_launch\<lparr>runtime_dir := made\<rparr>))))
      (\<lambda>_ w. (w, snd (launch_body ow (fresh_launch\<lparr>runtime_dir := made\<rparr>)))) = (w, r)"
proof (cases "which h ''codex'' = None \<or> (\<exists>e. resolve_codex_cwd h codex_args invocation = Inl e)")
  case True
  then show thesis using assms early [of _ None] by (auto simp: launch_run_def fresh_launch_def split: option.splits)
next
  case False
  then obtain c cwd where c: "which h ''codex'' = Some c" "resolve_codex_cwd h codex_args invocation = Inr cwd"
    by (metis not_Some_eq sum.exhaust)
  obtain made res where m: "make_runtime_dir h exists_path info uid mkdtemp chmod = (made, res)" by fastforce
  show thesis
  proof (cases res)
    case (Inl e)
    then have "made = None \<or> (\<exists>d. made = Some d \<and> chmod d = Some e)" using m
      by (auto simp: make_runtime_dir_def Let_def split: sum.splits if_splits option.splits dest: make_first_failed)
    then show thesis using assms c m Inl early [of e made] by (auto simp: launch_run_def)
  next
    case (Inr d)
    show thesis
    proof (cases "list_ex (\<lambda>p. length (path_str p) \<ge> 100) (socket_paths d)")
      case True
      then show thesis using assms c m Inr early [of _ "if rmtree_ok ow then None else made"]
        by (auto simp: launch_run_def Let_def remove_runtime_dir_def split: if_splits)
    next
      case False
      then show thesis using assms c m Inr by (intro run [of made]) (simp add: launch_run_def split: prod.splits)
    qed
  qed
qed

text \<open>
  C19. The launcher leaves nothing behind: however far it got and whatever failed on the way,
  when it ends the parents' ends of the guards' pipes are closed, and no process it started is
  running, the other ends are closed too and the runtime directory is gone, unless
  \<open>rmtree\<close> could not remove it or \<open>chmod\<close> raised on the fresh directory; or else the cleanup itself was
  interrupted, by the exception the launcher ends with, while it waited for a process it had
  told to end. It ends with a code only if everything came up, the TUI has exited with that
  code and the cleanup has run to its end.
\<close>

theorem launcher_cleans_up:
  assumes "launch_run h exists_path info uid mkdtemp chmod invocation codex_args ow fresh_launch = (w, r)"
  shows "parent_fds w = {}
    \<and> (daemons_running w = {} \<and> guard_fds w = {}
         \<and> (runtime_dir w = None \<or> \<not> rmtree_ok ow \<or> (\<exists>d e. runtime_dir w = Some d \<and> chmod d = Some e \<and> r = Inl e))
       \<or> (\<exists>d e. cleanup_error ow d = Some e \<and> r = Inl e \<and> d \<in> daemons_running w
            \<and> (d, ''SIGTERM'') \<in> set (daemon_signals w)))
    \<and> (\<forall>code. r = Inr code \<longrightarrow> finished ow Tui_process = Some code \<and> app_ready ow = Inr ()
         \<and> bridge_ready ow = Inr () \<and> tui_ready ow = Inr () \<and> daemons_running w = {} \<and> guard_fds w = {})"
  using assms
proof (cases rule: launch_run_cases)
  case (early e made)
  then show ?thesis by (auto simp: fresh_launch_def)
next
  case (run made)
  obtain w1 r1 where b: "launch_body ow (fresh_launch\<lparr>runtime_dir := made\<rparr>) = (w1, r1)" by fastforce
  obtain w2 r2 where c: "launch_cleanup ow w1 = (w2, r2)" by fastforce
  have "parent_fds (fst (launch_body ow (fresh_launch\<lparr>runtime_dir := made\<rparr>))) = {}"
    by (rule body_parent_fds) (simp add: fresh_launch_def)
  then have "parent_fds w1 = {}" using b by simp
  then show ?thesis using run b c cleanup_cases [OF c] body_result [of ow "fresh_launch\<lparr>runtime_dir := made\<rparr>"]
    by (cases r2) (auto simp: and_then_def interrupted_def)
qed

definition plain_host :: "string option \<Rightarrow> host" where
  "plain_host xdg = \<lparr>env_var = \<lambda>n. if n = ''XDG_RUNTIME_DIR'' then xdg else None, expanduser = Inr, resolve_strict = Inr,
     resolve_lax = id, is_directory = \<lambda>_. True, which = \<lambda>_. Some ''/usr/bin/codex''\<rparr>"

definition private_dir :: "path \<Rightarrow> dir_info" where
  "private_dir p = \<lparr>dir_uid = 1000, dir_mode = 0x1C0\<rparr>"

definition mkdtemp_ok :: "path \<Rightarrow> string + path" where
  "mkdtemp_ok p = Inr (path_join p (parse_path ''codex-longrun-x''))"

definition bridge_fails :: launch_outcomes where
  "bridge_fails = \<lparr>app_pipe = None, app_spawn = None, app_ready = Inr (), proxy_pipe = None, proxy_spawn = None,
     bridge_ready = Inl (RuntimeError ''no bridge''), tui_ready = Inr (), tui_spawn = None, waited = Inr (),
     finished = \<lambda>_. None, ignores_sigterm = \<lambda>_. True, cleanup_error = \<lambda>_. None, rmtree_ok = True\<rparr>"

definition chmod_ok :: "path \<Rightarrow> pyexc option" where
  "chmod_ok p = None"

lemma failing_run: "map_prod daemon_signals id (launch_run (plain_host (Some ''/run/user/1000'')) (\<lambda>_. True) private_dir 1000 mkdtemp_ok chmod_ok
      (parse_path ''/work'') [''resume''] bridge_fails fresh_launch) =
    ([(Coordinator_process, ''SIGTERM''), (Coordinator_process, ''SIGKILL''), (App_server, ''SIGTERM''), (App_server, ''SIGKILL'')],
     Inl (RuntimeError ''no bridge''))"
proof -
  have dir: "make_runtime_dir (plain_host (Some ''/run/user/1000'')) (\<lambda>_. True) private_dir 1000 mkdtemp_ok chmod_ok =
      (Some (path_join (parse_path ''/run/user/1000'') (parse_path ''codex-longrun-x'')),
       Inr (path_join (parse_path ''/run/user/1000'') (parse_path ''codex-longrun-x'')))"
    by (simp add: make_runtime_dir_def runtime_parent_def plain_host_def private_dir_def mkdtemp_ok_def chmod_ok_def Let_def)
  have cwd: "resolve_codex_cwd (plain_host (Some ''/run/user/1000'')) [''resume''] (parse_path ''/work'') = Inr (parse_path ''/work'')"
    by code_simp
  have short: "\<not> list_ex (\<lambda>p. length (path_str p) \<ge> 100)
      (socket_paths (path_join (parse_path ''/run/user/1000'') (parse_path ''codex-longrun-x'')))"
    by code_simp
  show ?thesis unfolding launch_run_def dir cwd using short
    by (simp add: plain_host_def Let_def launch_body_def lift_ready_def spawn_daemon_def bridge_fails_def launch_cleanup_def
        terminate_daemon_def remove_runtime_dir_def and_then_def fresh_launch_def)
qed

theorem launcher_cleans_up_witness:
  "\<exists>w. launch_run (plain_host (Some ''/run/user/1000'')) (\<lambda>_. True) private_dir 1000 mkdtemp_ok chmod_ok
      (parse_path ''/work'') [''resume''] bridge_fails fresh_launch = (w, Inl (RuntimeError ''no bridge''))
     \<and> daemon_signals w \<noteq> [] \<and> daemons_running w = {} \<and> guard_fds w = {} \<and> runtime_dir w = None"
proof -
  obtain w r where w: "launch_run (plain_host (Some ''/run/user/1000'')) (\<lambda>_. True) private_dir 1000 mkdtemp_ok chmod_ok
      (parse_path ''/work'') [''resume''] bridge_fails fresh_launch = (w, r)" by fastforce
  then have "daemon_signals w \<noteq> []" "r = Inl (RuntimeError ''no bridge'')" using failing_run by auto
  then show ?thesis using launcher_cleans_up [OF w] w by (auto simp: bridge_fails_def chmod_ok_def)
qed

section \<open>The runtime directory\<close>

lemma make_first_made:
  "make_first mkdtemp chmod err ps = (Some d, r) \<Longrightarrow> \<exists>p \<in> set ps. mkdtemp p = Inr d"
  by (induction ps arbitrary: err) (auto split: sum.splits)

text \<open>
  The sockets are in a private place: the runtime directory is a fresh one made under the
  system's \<open>/tmp\<close>, or under the directory named by \<open>XDG_RUNTIME_DIR\<close>, and then that one is a
  directory of the user that nobody else can enter.
\<close>

theorem runtime_dir_private:
  assumes "make_runtime_dir h exists_path info uid mkdtemp chmod = (Some d, r)"
  shows "\<exists>p. mkdtemp p = Inr d \<and>
    (p = resolve_lax h tmp_path \<or>
     (\<exists>v c. env_var h ''XDG_RUNTIME_DIR'' = Some v \<and> expanduser h (parse_path v) = Inr c \<and> p = resolve_lax h c
        \<and> is_directory h p \<and> dir_uid (info p) = uid \<and> dir_mode (info p) AND 0x3F = 0))"
proof -
  obtain preferred where pref: "runtime_parent h exists_path info uid = Inr preferred"
    and "make_first mkdtemp chmod None (preferred # (if resolve_lax h tmp_path \<noteq> preferred then [resolve_lax h tmp_path] else [])) = (Some d, r)"
    using assms by (auto simp: make_runtime_dir_def Let_def split: sum.splits)
  from make_first_made [OF this(2)]
  obtain p where p: "mkdtemp p = Inr d" "p = preferred \<or> p = resolve_lax h tmp_path" by (auto split: if_splits)
  show ?thesis
  proof (cases "p = resolve_lax h tmp_path")
    case False
    then have "preferred = p" "p \<noteq> resolve_lax h tmp_path" using p(2) by auto
    then show ?thesis using pref p(1)
      by (auto simp: runtime_parent_def bindr_Inr Let_def split: if_splits)
  qed (use p in blast)
qed

theorem runtime_dir_private_witness:
  "\<exists>d p. make_runtime_dir (plain_host (Some ''/run/user/1000'')) (\<lambda>_. True) private_dir 1000 mkdtemp_ok chmod_ok = (Some d, Inr d)
     \<and> mkdtemp_ok p = Inr d \<and> (p = tmp_path \<or> dir_uid (private_dir p) = 1000)"
proof -
  have "make_runtime_dir (plain_host (Some ''/run/user/1000'')) (\<lambda>_. True) private_dir 1000 mkdtemp_ok chmod_ok =
      (Some (path_join (parse_path ''/run/user/1000'') (parse_path ''codex-longrun-x'')),
       Inr (path_join (parse_path ''/run/user/1000'') (parse_path ''codex-longrun-x'')))"
    by (simp add: make_runtime_dir_def runtime_parent_def plain_host_def private_dir_def mkdtemp_ok_def chmod_ok_def Let_def)
  from runtime_dir_private [OF this] this show ?thesis by (auto simp: plain_host_def)
qed

end
