(* ===== verification/Config_Edit.thy ===== *)
theory Config_Edit
  imports Job_Guards Py_Dumps
begin

text \<open>
  The scripts that edit the configuration of Codex: \<open>configure-codex.py\<close>,
  \<open>upgrade-codex.py\<close> and \<open>enroll-project.py\<close>. They edit the text line by line and write it
  through a temporary file. What a text means (\<open>tomllib.loads\<close>) is the parameter
  \<open>loads\<close>, a table is a \<open>JObj\<close>; the host answers path questions as in \<open>Job_Guards\<close>.
\<close>

section \<open>Lines\<close>

text \<open>\<open>str.isspace\<close> and \<open>\s\<close>, and the line boundaries of \<open>str.splitlines\<close>.\<close>

definition py_space :: "char \<Rightarrow> bool" where
  "py_space c \<longleftrightarrow> c \<in> set [CHR 0x09, CHR 0x0A, CHR 0x0B, CHR 0x0C, CHR 0x0D, CHR 0x1C, CHR 0x1D, CHR 0x1E, CHR 0x1F, CHR 0x20,
     CHR 0x85, CHR 0xA0]"

definition text_break :: "char \<Rightarrow> bool" where
  "text_break c \<longleftrightarrow> c \<in> set [CHR 0x0A, CHR 0x0B, CHR 0x0C, CHR 0x0D, CHR 0x1C, CHR 0x1D, CHR 0x1E, CHR 0x85]"

abbreviation LF :: char where "LF \<equiv> CHR 0x0A"
abbreviation CR :: char where "CR \<equiv> CHR 0x0D"

definition onto_first :: "char \<Rightarrow> string list \<Rightarrow> string list" where
  "onto_first c ls = (case ls of [] \<Rightarrow> [[c]] | l # ls' \<Rightarrow> (c # l) # ls')"

text \<open>\<open>splitlines(keepends=True)\<close>.\<close>

fun keep_lines :: "string \<Rightarrow> string list" where
  "keep_lines [] = []"
| "keep_lines [c] = [[c]]"
| "keep_lines (c # d # s) =
     (if c = CR \<and> d = LF then [c, d] # keep_lines s
      else if text_break c then [c] # keep_lines (d # s)
      else onto_first c (keep_lines (d # s)))"

text \<open>What reading a file in text mode makes of its line ends.\<close>

fun universal_newlines :: "string \<Rightarrow> string" where
  "universal_newlines [] = []"
| "universal_newlines [c] = [if c = CR then LF else c]"
| "universal_newlines (c # d # s) =
     (if c = CR \<and> d = LF then LF # universal_newlines s
      else (if c = CR then LF else c) # universal_newlines (d # s))"

definition rstrip_chars :: "(char \<Rightarrow> bool) \<Rightarrow> string \<Rightarrow> string" where
  "rstrip_chars P s = List.rev (dropWhile P (List.rev s))"

definition rstrip_newlines :: "string \<Rightarrow> string" where
  "rstrip_newlines = rstrip_chars (\<lambda>c. c = CR \<or> c = LF)"

definition lstrip :: "string \<Rightarrow> string" where
  "lstrip = dropWhile py_space"

text \<open>\<open>\s*(?:#.*)?$\<close> on the rest of a line.\<close>

definition blank_or_comment :: "string \<Rightarrow> bool" where
  "blank_or_comment s = (case lstrip s of [] \<Rightarrow> True | c # _ \<Rightarrow> c = CHR ''#'')"

definition is_header :: "string \<Rightarrow> string \<Rightarrow> bool" where
  "is_header section_name line =
     (let l = lstrip line; h = ''['' @ section_name @ '']'' in
      starts_with l h \<and> blank_or_comment (drop (length h) l))"

definition opens_table :: "string \<Rightarrow> bool" where
  "opens_table line = starts_with (lstrip line) ''[''"

text \<open>\<open>^\s*KEY\s*=\<close>.\<close>

definition is_assignment :: "string \<Rightarrow> string \<Rightarrow> bool" where
  "is_assignment key line =
     (let l = lstrip line in starts_with l key \<and> starts_with (lstrip (drop (length key) l)) ''='')"

section \<open>upgrade-codex.py: editing\<close>

datatype setting = Text string | Texts "string list"

definition render_value :: "setting \<Rightarrow> string" where
  "render_value v = (case v of Text s \<Rightarrow> dumps_str s | Texts ss \<Rightarrow> ''['' @ join '', '' (map dumps_str ss) @ '']'')"

definition section_bounds :: "string list \<Rightarrow> string \<Rightarrow> pyexc + (nat \<times> nat)" where
  "section_bounds lines section_name =
     (case filter (\<lambda>i. is_header section_name (rstrip_newlines (lines ! i))) [0..<length lines] of
        [start] \<Rightarrow> Inr (start, Suc start + length (takeWhile (\<lambda>l. \<not> opens_table l) (drop (Suc start) lines)))
      | matches \<Rightarrow> Inl (SystemExit (''expected exactly one ['' @ section_name @ ''] section, found '' @ int_str (length matches))))"

definition set_assignment :: "string \<Rightarrow> string \<Rightarrow> string \<Rightarrow> setting \<Rightarrow> bool \<Rightarrow> pyexc + string" where
  "set_assignment original section_name key v preserve =
     (let lines = keep_lines original in
      bindr (section_bounds lines section_name) (\<lambda>(start, stop).
      let matches = filter (\<lambda>i. is_assignment key (lines ! i)) [Suc start..<stop];
          rendered = key @ '' = '' @ render_value v @ [LF] in
      if length matches > 1
      then Inl (SystemExit (''expected at most one '' @ key @ '' assignment in ['' @ section_name @ ''], found ''
                  @ int_str (length matches)))
      else if matches \<noteq> [] \<and> preserve then Inr original
      else (case matches of
              i # _ \<Rightarrow>
                let newline = (if ends_with (lines ! i) [CR, LF] then [CR, LF] else [LF]);
                    newline = (if \<not> ends_with (lines ! i) [LF] \<and> \<not> ends_with (lines ! i) [CR] then [] else newline) in
                Inr (concat (lines[i := rstrip_chars (\<lambda>c. c = LF) rendered @ newline]))
            | [] \<Rightarrow> Inr (concat (take stop lines @ [rendered] @ drop stop lines)))))"

definition tool_section :: "string \<Rightarrow> string \<Rightarrow> string" where
  "tool_section server_name tool = ''mcp_servers.'' @ server_name @ ''.tools.'' @ tool"

definition ensure_tool_section :: "string \<Rightarrow> string \<Rightarrow> string \<Rightarrow> string \<Rightarrow> string" where
  "ensure_tool_section original server_name tool approval =
     (if list_ex (is_header (tool_section server_name tool)) (split_on LF original) then original
      else rstrip_chars py_space original @ [LF, LF] @ ''['' @ tool_section server_name tool @ '']'' @ [LF]
             @ ''approval_mode = '' @ dumps_str approval @ [LF])"

definition default_tools :: "string list" where
  "default_tools = [''health'', ''start_job'', ''get_job'', ''cancel_wakeup'', ''cancel_job'', ''run_and_wait'', ''read_log_tail'']"

definition tool_approvals :: "(string \<times> string) list" where
  "tool_approvals = [(''start_job'', ''prompt''), (''get_job'', ''auto''), (''cancel_wakeup'', ''prompt''),
     (''cancel_job'', ''prompt''), (''run_and_wait'', ''prompt''), (''read_log_tail'', ''prompt'')]"

definition env_defaults :: "(string \<times> string) list" where
  "env_defaults = [(''LONGRUN_MAX_ACTIVE_JOBS'', ''4''), (''LONGRUN_SECRET_TTL_SEC'', ''300''),
     (''LONGRUN_MAX_STDIN_SECRET_BYTES'', ''65536'')]"

fun set_env_defaults :: "string \<Rightarrow> (string \<times> string) list \<Rightarrow> string \<Rightarrow> pyexc + string" where
  "set_env_defaults section_name [] t = Inr t"
| "set_env_defaults section_name ((k, v) # kvs) t =
     bindr (set_assignment t section_name k (Text v) True) (set_env_defaults section_name kvs)"

text \<open>All the edits of \<open>main\<close>.\<close>

definition upgrade_edit :: "string \<Rightarrow> string list \<Rightarrow> bool \<Rightarrow> string \<Rightarrow> pyexc + string" where
  "upgrade_edit server_name env_vars reset original =
     (let server = ''mcp_servers.'' @ server_name; env = server @ ''.env'' in
      bindr (set_assignment original server ''enabled_tools'' (Texts default_tools) False) (\<lambda>t.
      bindr (set_assignment t server ''env_vars'' (Texts env_vars) False) (\<lambda>t.
      bindr (set_assignment t env ''LONGRUN_HEARTBEAT_INITIAL_SEC'' (Text ''0'') (\<not> reset)) (\<lambda>t.
      bindr (set_env_defaults env env_defaults t) (\<lambda>t.
      Inr (fold (\<lambda>(tool, approval) t. ensure_tool_section t server_name tool approval) tool_approvals t))))))"

section \<open>What an upgrade may change\<close>

text \<open>\<open>d[k]\<close>; \<open>None\<close> stands for the \<open>KeyError\<close> or \<open>TypeError\<close>.\<close>

definition subscript :: "string \<Rightarrow> json \<Rightarrow> json option" where
  "subscript k v = (case v of JObj kvs \<Rightarrow> map_of kvs k | _ \<Rightarrow> None)"

definition at_key :: "string \<Rightarrow> (json \<Rightarrow> json) \<Rightarrow> json \<Rightarrow> json" where
  "at_key k f v = (case v of JObj kvs \<Rightarrow> JObj (dict_set k (f (jfield k kvs)) kvs) | _ \<Rightarrow> v)"

definition setdefault :: "string \<Rightarrow> json \<Rightarrow> json \<Rightarrow> json" where
  "setdefault k d v = (if jhas k v then v else at_key k (\<lambda>_. d) v)"

definition upgraded_env :: "bool \<Rightarrow> json \<Rightarrow> json" where
  "upgraded_env reset env =
     (let env = (if \<not> jhas ''LONGRUN_HEARTBEAT_INITIAL_SEC'' env \<or> reset
                 then at_key ''LONGRUN_HEARTBEAT_INITIAL_SEC'' (\<lambda>_. JStr ''0'') env else env) in
      fold (\<lambda>(k, v). setdefault k (JStr v)) env_defaults env)"

definition upgraded_server :: "string list \<Rightarrow> bool \<Rightarrow> json \<Rightarrow> json" where
  "upgraded_server env_vars reset server =
     (let server = at_key ''enabled_tools'' (\<lambda>_. JArr (map JStr default_tools)) server;
          server = at_key ''env_vars'' (\<lambda>_. JArr (map JStr env_vars)) server;
          server = at_key ''env'' (upgraded_env reset) server;
          server = setdefault ''tools'' (JObj []) server in
      at_key ''tools'' (fold (\<lambda>(tool, approval). setdefault tool (JObj [(''approval_mode'', JStr approval)])) tool_approvals) server)"

definition upgraded :: "string \<Rightarrow> string list \<Rightarrow> bool \<Rightarrow> json \<Rightarrow> json" where
  "upgraded server_name env_vars reset parsed =
     at_key ''mcp_servers'' (at_key server_name (upgraded_server env_vars reset)) parsed"

section \<open>Writing the file\<close>

text \<open>
  The configuration file, its backups, the temporary file beside it, and the mode that the
  umask gives to a new file.
\<close>

record config_fs =
  config_text :: string
  config_mode :: int
  backups_mode :: "int option"
  backups :: "string \<rightharpoonup> string \<times> int"
  temp_file :: "(string \<times> int) option"
  umask_mode :: int

datatype write_step = Mkdir_backups | Chmod_backups | Copy_backup | Chmod_backup | Make_temp | Write_temp
  | Chmod_temp | Replace_config | Unlink_temp | Read_back

definition syscall :: "pyexc option \<Rightarrow> ('s \<Rightarrow> 's) \<Rightarrow> ('s \<Rightarrow> 's) \<Rightarrow> 's \<Rightarrow> ('s, unit) outcome" where
  "syscall failure torn f s = (case failure of Some e \<Rightarrow> (torn s, Inl e) | None \<Rightarrow> (f s, Inr ()))"

text \<open>
  Any step may fail; a failing copy or write leaves a part of the text, a backup then in the
  mode of a new file. Up to the
  removal of the temporary file this is the end of \<open>configure-codex.py\<close>, too.
\<close>

definition replace_config ::
  "string \<Rightarrow> (write_step \<Rightarrow> pyexc option) \<Rightarrow> string \<Rightarrow> string \<Rightarrow> config_fs \<Rightarrow> (config_fs, unit) outcome" where
  "replace_config backup_name fails part updated s =
     and_then (syscall (fails Mkdir_backups) id
       (\<lambda>s. s\<lparr>backups_mode := (case backups_mode s of None \<Rightarrow> Some 0x1C0 | Some m \<Rightarrow> Some m)\<rparr>) s) (\<lambda>_ s.
     and_then (syscall (fails Chmod_backups) id (\<lambda>s. s\<lparr>backups_mode := Some 0x1C0\<rparr>) s) (\<lambda>_ s.
     and_then (syscall (fails Copy_backup) (\<lambda>s. s\<lparr>backups := (backups s)(backup_name \<mapsto> (part, umask_mode s))\<rparr>)
       (\<lambda>s. s\<lparr>backups := (backups s)(backup_name \<mapsto> (config_text s, config_mode s))\<rparr>) s) (\<lambda>_ s.
     and_then (syscall (fails Chmod_backup) id
       (\<lambda>s. s\<lparr>backups := (backups s)(backup_name := map_option (\<lambda>(t, _). (t, 0x180)) (backups s backup_name))\<rparr>) s) (\<lambda>_ s.
     and_then (syscall (fails Make_temp) id (\<lambda>s. s\<lparr>temp_file := Some ([], 0x180)\<rparr>) s) (\<lambda>_ s.
     case (and_then (syscall (fails Write_temp) (\<lambda>s. s\<lparr>temp_file := Some (part, 0x180)\<rparr>)
             (\<lambda>s. s\<lparr>temp_file := Some (updated, 0x180)\<rparr>) s) (\<lambda>_ s.
           and_then (syscall (fails Chmod_temp) id
             (\<lambda>s. s\<lparr>temp_file := map_option (\<lambda>(t, _). (t, config_mode s)) (temp_file s)\<rparr>) s) (\<lambda>_ s.
           syscall (fails Replace_config) id
             (\<lambda>s. case temp_file s of
                    None \<Rightarrow> s
                  | Some (t, m) \<Rightarrow> s\<lparr>config_text := t, config_mode := m, temp_file := None\<rparr>) s))) of
       (s, r) \<Rightarrow> and_then (syscall (fails Unlink_temp) id (\<lambda>s. s\<lparr>temp_file := None\<rparr>) s) (\<lambda>_ s. (s, r)))))))"

definition write_config ::
  "string \<Rightarrow> (write_step \<Rightarrow> pyexc option) \<Rightarrow> string \<Rightarrow> string \<Rightarrow> config_fs \<Rightarrow> (config_fs, string) outcome" where
  "write_config backup_name fails part updated s =
     and_then (replace_config backup_name fails part updated s) (\<lambda>_ s.
     and_then (syscall (fails Read_back) id id s) (\<lambda>_ s.
     if universal_newlines (config_text s) \<noteq> updated
     then (s, Inl (RuntimeError ''config verification failed after atomic replacement''))
     else (s, Inr backup_name)))"

section \<open>upgrade-codex.py\<close>

datatype script_end = Unchanged | Dry_run | Updated string

text \<open>\<open>found\<close>: the configuration path resolved, and whether it is a regular file.\<close>

definition read_config :: "pyexc + bool \<Rightarrow> (string \<Rightarrow> pyexc + json) \<Rightarrow> config_fs \<Rightarrow> pyexc + (string \<times> json)" where
  "read_config found loads s =
     bindr found (\<lambda>is_file.
     if \<not> is_file then Inl (SystemExit ''config is not a regular file'')
     else let original = universal_newlines (config_text s) in
          bindr (loads original) (\<lambda>parsed. Inr (original, parsed)))"

fun str_items :: "json list \<Rightarrow> string list option" where
  "str_items [] = Some []"
| "str_items (v # vs) = (case v of JStr t \<Rightarrow> map_option ((#) t) (str_items vs) | _ \<Rightarrow> None)"

text \<open>The \<open>env_vars\<close> to write, after the checks on the parsed configuration.\<close>

definition upgrade_checked :: "string \<Rightarrow> json \<Rightarrow> pyexc + string list" where
  "upgrade_checked server_name parsed =
     (case Option.bind (subscript ''mcp_servers'' parsed) (subscript server_name) of
        None \<Rightarrow> Inl (SystemExit (''mcp_servers.'' @ server_name @ '' is not a configured STDIO server''))
      | Some server \<Rightarrow>
          (case subscript ''env'' server of
             None \<Rightarrow> Inl (SystemExit (''mcp_servers.'' @ server_name @ '' is not a configured STDIO server''))
           | Some env \<Rightarrow>
               if \<not> is_dict server \<or> \<not> is_dict env
               then Inl (SystemExit (''mcp_servers.'' @ server_name @ '' has an invalid structure''))
               else (case jget_default ''env_vars'' (JArr []) server of
                       JArr vs \<Rightarrow>
                         (case str_items vs of
                            None \<Rightarrow> Inl (SystemExit (''mcp_servers.'' @ server_name @ ''.env_vars must be a string array''))
                          | Some ss \<Rightarrow> Inr (if ''LONGRUN_BRIDGE_SOCKET'' \<in> set ss then ss
                                           else ss @ [''LONGRUN_BRIDGE_SOCKET'']))
                     | _ \<Rightarrow> Inl (SystemExit (''mcp_servers.'' @ server_name @ ''.env_vars must be a string array'')))))"

definition tools_ok :: "string \<Rightarrow> json \<Rightarrow> bool" where
  "tools_ok server_name parsed =
     (case Option.bind (Option.bind (subscript ''mcp_servers'' parsed) (subscript server_name)) (subscript ''tools'') of
        None \<Rightarrow> True | Some v \<Rightarrow> is_dict v)"

definition upgrade_run ::
  "(string \<Rightarrow> pyexc + json) \<Rightarrow> pyexc + bool \<Rightarrow> string \<Rightarrow> bool \<Rightarrow> bool \<Rightarrow> string \<Rightarrow> (write_step \<Rightarrow> pyexc option) \<Rightarrow>
   string \<Rightarrow> config_fs \<Rightarrow> (config_fs, script_end) outcome" where
  "upgrade_run loads found server_name reset dry_run backup_name fails part s =
     (case bindr (read_config found loads s) (\<lambda>(original, parsed).
           bindr (upgrade_checked server_name parsed) (\<lambda>env_vars.
           bindr (upgrade_edit server_name env_vars reset original) (\<lambda>updated.
           bindr (loads updated) (\<lambda>updated_parsed.
           if \<not> tools_ok server_name parsed then Inl (AttributeError ''setdefault'')
           else if \<not> py_eq updated_parsed (upgraded server_name env_vars reset parsed)
           then Inl (SystemExit ''refusing update because fields outside the documented longrun upgrade would change'')
           else Inr (original, updated))))) of
        Inl e \<Rightarrow> (s, Inl e)
      | Inr (original, updated) \<Rightarrow>
          if updated = original then (s, Inr Unchanged)
          else if dry_run then (s, Inr Dry_run)
          else and_then (write_config backup_name fails part updated s) (\<lambda>b s. (s, Inr (Updated b))))"

section \<open>enroll-project.py\<close>

definition resolve_project_root :: "host \<Rightarrow> path \<Rightarrow> string \<Rightarrow> pyexc + path" where
  "resolve_project_root h home raw =
     bindr (expanduser h (parse_path raw)) (\<lambda>candidate.
     if \<not> absolute candidate then Inl (SystemExit (''allowed root must be absolute: '' @ path_str candidate))
     else (case resolve_strict h candidate of
             Inl (FileNotFoundError _) \<Rightarrow> Inl (SystemExit (''allowed root does not exist: '' @ path_str candidate))
           | Inl e \<Rightarrow> Inl e
           | Inr resolved \<Rightarrow>
               if \<not> is_directory h resolved
               then Inl (SystemExit (''allowed root is not a directory: '' @ path_str resolved))
               else if resolved \<in> {parse_path ''/'', home}
               then Inl (SystemExit (''refusing broad allowed root: '' @ path_str resolved))
               else Inr resolved))"

fun resolve_roots :: "host \<Rightarrow> path \<Rightarrow> string list \<Rightarrow> pyexc + path list" where
  "resolve_roots h home [] = Inr []"
| "resolve_roots h home (raw # raws) =
     bindr (resolve_project_root h home raw) (\<lambda>r. bindr (resolve_roots h home raws) (\<lambda>rs. Inr (r # rs)))"

text \<open>\<open>if root not in roots: roots.append(root)\<close>, over a list.\<close>

definition add_new :: "'a list \<Rightarrow> 'a list \<Rightarrow> 'a list" where
  "add_new xs ys = fold (\<lambda>y acc. if y \<in> set acc then acc else acc @ [y]) ys xs"

definition setting_name :: string where
  "setting_name = ''LONGRUN_ALLOWED_ROOTS''"

definition configured_roots :: "host \<Rightarrow> path \<Rightarrow> string \<Rightarrow> json \<Rightarrow> pyexc + path list" where
  "configured_roots h home server_name parsed =
     (case Option.bind (Option.bind (Option.bind (subscript ''mcp_servers'' parsed) (subscript server_name)) (subscript ''env''))
             (subscript setting_name) of
        None \<Rightarrow> Inl (SystemExit (''mcp_servers.'' @ server_name @ ''.env.'' @ setting_name @
                  '' is missing; configure the server before enrolling another project''))
      | Some (JStr raw) \<Rightarrow>
          bindr (resolve_roots h home (filter (\<lambda>r. r \<noteq> []) (split_on (CHR '':'') raw))) (\<lambda>roots.
          if roots = [] then Inl (SystemExit (''mcp_servers.'' @ server_name @ ''.env.'' @ setting_name @ '' is empty''))
          else Inr (add_new [] roots))
      | Some _ \<Rightarrow> Inl (SystemExit (''mcp_servers.'' @ server_name @ ''.env.'' @ setting_name @ '' must be a string'')))"

text \<open>After an opening quote: what follows the closing one.\<close>

fun after_quoted :: "string \<Rightarrow> string option" where
  "after_quoted [] = None"
| "after_quoted [c] = (if c = CHR 0x22 then Some [] else None)"
| "after_quoted (c # d # s) =
     (if c = CHR 0x22 then Some (d # s)
      else if c = CHR 0x5C then (if d = LF then None else after_quoted s)
      else after_quoted (d # s))"

definition after_literal :: "string \<Rightarrow> string option" where
  "after_literal s = (case dropWhile (\<lambda>c. c \<noteq> CHR 0x27) s of [] \<Rightarrow> None | _ # r \<Rightarrow> Some r)"

text \<open>The two groups of \<open>assignment_pattern\<close>.\<close>

definition setting_match :: "string \<Rightarrow> (string \<times> string) option" where
  "setting_match line =
     (let indent = takeWhile py_space line; l = lstrip line;
          r = lstrip (drop (length setting_name) l) in
      if \<not> starts_with l setting_name \<or> \<not> starts_with r ''='' then None
      else
        (case (case lstrip (drop 1 r) of
                 [] \<Rightarrow> None
               | q # t \<Rightarrow> if q = CHR 0x22 then after_quoted t else if q = CHR 0x27 then after_literal t else None) of
           None \<Rightarrow> None
         | Some rest \<Rightarrow> if blank_or_comment rest then Some (indent, rest) else None))"

text \<open>\<open>json.dumps(s, ensure_ascii=False)\<close>.\<close>

definition dumps_raw_char :: "char \<Rightarrow> string" where
  "dumps_raw_char c = (if (of_char c :: nat) \<ge> 127 then [c] else dumps_char c)"

definition dumps_raw :: "string \<Rightarrow> string" where
  "dumps_raw s = [CHR 0x22] @ concat (map dumps_raw_char s) @ [CHR 0x22]"

definition replace_setting :: "string \<Rightarrow> string \<Rightarrow> string \<Rightarrow> pyexc + string" where
  "replace_setting original server_name v =
     (let lines = keep_lines original; section_name = ''mcp_servers.'' @ server_name @ ''.env'' in
      bindr (section_bounds lines section_name) (\<lambda>(start, stop).
      (case filter (\<lambda>i. setting_match (rstrip_newlines (lines ! i)) \<noteq> None) [Suc start..<stop] of
         [i] \<Rightarrow>
           (case the (setting_match (rstrip_newlines (lines ! i))) of
              (indent, rest) \<Rightarrow>
                let newline = (if ends_with (lines ! i) [CR, LF] then [CR, LF] else [LF]);
                    newline = (if \<not> ends_with (lines ! i) [LF] \<and> \<not> ends_with (lines ! i) [CR] then [] else newline) in
                Inr (concat (lines[i := indent @ setting_name @ '' = '' @ dumps_raw v @ rest @ newline])))
       | matches \<Rightarrow> Inl (SystemExit (''expected exactly one '' @ setting_name @ '' assignment in ['' @ section_name
                          @ ''], found '' @ int_str (length matches))))))"

definition enrolled :: "string \<Rightarrow> string \<Rightarrow> json \<Rightarrow> json" where
  "enrolled server_name joined parsed =
     at_key ''mcp_servers'' (at_key server_name (at_key ''env'' (at_key setting_name (\<lambda>_. JStr joined)))) parsed"

definition join_roots :: "path list \<Rightarrow> string" where
  "join_roots roots = join '':'' (map path_str roots)"

definition enroll_run ::
  "host \<Rightarrow> path \<Rightarrow> (string \<Rightarrow> pyexc + json) \<Rightarrow> pyexc + bool \<Rightarrow> string \<Rightarrow> string list \<Rightarrow> bool \<Rightarrow> string \<Rightarrow>
   (write_step \<Rightarrow> pyexc option) \<Rightarrow> string \<Rightarrow> config_fs \<Rightarrow> (config_fs, script_end \<times> path list) outcome" where
  "enroll_run h home loads found server_name raws dry_run backup_name fails part s =
     (case bindr (read_config found loads s) (\<lambda>(original, parsed).
           bindr (configured_roots h home server_name parsed) (\<lambda>current.
           bindr (resolve_roots h home raws) (\<lambda>requested.
           Inr (original, parsed, current, add_new current requested)))) of
        Inl e \<Rightarrow> (s, Inl e)
      | Inr (original, parsed, current, roots) \<Rightarrow>
          if roots = current then (s, Inr (Unchanged, current))
          else
            (case bindr (replace_setting original server_name (join_roots roots)) (\<lambda>updated.
                  bindr (loads updated) (\<lambda>updated_parsed.
                  if \<not> py_eq updated_parsed (enrolled server_name (join_roots roots) parsed)
                  then Inl (SystemExit ''refusing update because fields other than LONGRUN_ALLOWED_ROOTS would change'')
                  else Inr updated)) of
               Inl e \<Rightarrow> (s, Inl e)
             | Inr updated \<Rightarrow>
                 if dry_run then (s, Inr (Dry_run, roots))
                 else and_then (write_config backup_name fails part updated s) (\<lambda>b s. (s, Inr (Updated b, roots)))))"

section \<open>configure-codex.py\<close>

definition safe_forwarded_env :: "string list" where
  "safe_forwarded_env = [''HOME'', ''USER'', ''LOGNAME'', ''PATH'', ''SHELL'', ''LANG'', ''LC_ALL'', ''LC_CTYPE'']"

definition absolute_existing_dir :: "host \<Rightarrow> string \<Rightarrow> string \<Rightarrow> pyexc + path" where
  "absolute_existing_dir h raw name =
     bindr (expanduser h (parse_path raw)) (\<lambda>p.
     if \<not> absolute p then Inl (SystemExit (name @ '' must be absolute: '' @ path_str p))
     else bindr (resolve_strict h p) (\<lambda>p.
     if \<not> is_directory h p then Inl (SystemExit (name @ '' is not a directory: '' @ path_str p)) else Inr p))"

definition render_block :: "host \<Rightarrow> path \<Rightarrow> path \<Rightarrow> path \<Rightarrow> path \<Rightarrow> string" where
  "render_block h command server_cwd state_dir allowed_root =
     (let forwarded = filter (\<lambda>n. env_var h n \<noteq> None) safe_forwarded_env;
          forwarded_toml = join '', '' (map dumps_raw forwarded);
          tool = (\<lambda>(name, mode). [[], ''[mcp_servers.longrun.tools.'' @ name @ '']'', ''approval_mode = '' @ quoted mode]) in
      [LF, LF] @ concat (map (\<lambda>l. l @ [LF])
       ([''# Local bounded long-running command MCP. Installed by codex-mcp-longrun.'', ''[mcp_servers.longrun]'',
         ''command = '' @ dumps_raw (path_str command), ''args = []'', ''cwd = '' @ dumps_raw (path_str server_cwd),
         ''enabled = true'', ''required = false'', ''startup_timeout_sec = 20'', ''tool_timeout_sec = 43500'',
         ''enabled_tools = ['' @ join '', '' (map quoted default_tools) @ '']'', ''default_tools_approval_mode = '' @ quoted ''prompt'',
         ''env_vars = ['' @ forwarded_toml @ (if forwarded_toml \<noteq> [] then '', '' else []) @ quoted ''LONGRUN_BRIDGE_SOCKET'' @ '']'',
         [], ''[mcp_servers.longrun.env]'', ''LONGRUN_STATE_DIR = '' @ dumps_raw (path_str state_dir),
         ''LONGRUN_ALLOWED_ROOTS = '' @ dumps_raw (path_str allowed_root),
         ''LONGRUN_MAX_LOG_BYTES = '' @ quoted ''134217728'', ''LONGRUN_MAX_TIMEOUT_SEC = '' @ quoted ''43200'',
         ''LONGRUN_HEARTBEAT_INITIAL_SEC = '' @ quoted ''0'', ''LONGRUN_HEARTBEAT_INTERVAL_SEC = '' @ quoted ''900'',
         ''LONGRUN_MAX_ACTIVE_JOBS = '' @ quoted ''4'', ''LONGRUN_SECRET_TTL_SEC = '' @ quoted ''300'',
         ''LONGRUN_MAX_STDIN_SECRET_BYTES = '' @ quoted ''65536'', ''LONGRUN_ALLOW_SHELL = '' @ quoted ''0'',
         ''LONGRUN_FORWARD_ENV_NAMES = '' @ dumps_raw (join '','' safe_forwarded_env)]
        @ concat (map tool [(''health'', ''auto''), (''read_log_tail'', ''prompt''), (''start_job'', ''prompt''), (''get_job'', ''auto''),
            (''cancel_job'', ''prompt''), (''cancel_wakeup'', ''prompt''), (''run_and_wait'', ''prompt'')]))))"

text \<open>\<open>"longrun" in parsed.get("mcp_servers", {})\<close>.\<close>

definition has_longrun :: "json \<Rightarrow> pyexc + bool" where
  "has_longrun parsed =
     (case jget_default ''mcp_servers'' (JObj []) parsed of
        JObj kvs \<Rightarrow> Inr (map_of kvs ''longrun'' \<noteq> None)
      | JArr vs \<Rightarrow> Inr (list_ex (py_eq (JStr ''longrun'')) vs)
      | JStr t \<Rightarrow> Inr (contains ''longrun'' t)
      | _ \<Rightarrow> Inl (TypeError ''argument is not iterable''))"

text \<open>
  The arguments and their checks; \<open>executable\<close> says whether the command is an executable
  file, \<open>make_state\<close> makes the state directory private and resolves it.
\<close>

definition configure_paths ::
  "host \<Rightarrow> (path \<Rightarrow> bool) \<Rightarrow> (path \<Rightarrow> pyexc + path) \<Rightarrow> string \<Rightarrow> string \<Rightarrow> string \<Rightarrow> string \<Rightarrow> pyexc + (path \<times> path \<times> path \<times> path)" where
  "configure_paths h executable make_state command server_cwd state_dir allowed_root =
     bindr (expanduser h (parse_path command)) (\<lambda>c.
     bindr (resolve_strict h c) (\<lambda>c.
     if \<not> executable c then Inl (SystemExit (''server command is not executable: '' @ path_str c))
     else bindr (absolute_existing_dir h server_cwd ''server cwd'') (\<lambda>cwd.
     bindr (absolute_existing_dir h allowed_root ''allowed root'') (\<lambda>inside.
     bindr (expanduser h (parse_path state_dir)) (\<lambda>st.
     if \<not> absolute st then Inl (SystemExit (''state dir must be absolute: '' @ path_str st))
     else bindr (make_state st) (\<lambda>st. Inr (c, cwd, st, inside)))))))"

definition configure_run ::
  "host \<Rightarrow> (path \<Rightarrow> bool) \<Rightarrow> (path \<Rightarrow> pyexc + path) \<Rightarrow> (string \<Rightarrow> pyexc + json) \<Rightarrow> pyexc + bool \<Rightarrow>
   string \<Rightarrow> string \<Rightarrow> string \<Rightarrow> string \<Rightarrow> string \<Rightarrow> (write_step \<Rightarrow> pyexc option) \<Rightarrow> string \<Rightarrow> config_fs \<Rightarrow> (config_fs, unit) outcome" where
  "configure_run h executable make_state loads found command server_cwd state_dir allowed_root backup_name fails part s =
     (case bindr found (\<lambda>is_file.
           if \<not> is_file then Inl (SystemExit ''config is not a regular file'')
           else bindr (configure_paths h executable make_state command server_cwd state_dir allowed_root) (\<lambda>(c, cwd, st, inside).
           let original = universal_newlines (config_text s) in
           bindr (loads original) (\<lambda>parsed.
           bindr (has_longrun parsed) (\<lambda>present.
           if present then Inl (SystemExit ''mcp_servers.longrun already exists; refusing to overwrite it'')
           else let updated = rstrip_chars py_space original @ render_block h c cwd st inside in
                bindr (loads updated) (\<lambda>_. Inr updated))))) of
        Inl e \<Rightarrow> (s, Inl e)
      | Inr updated \<Rightarrow> replace_config backup_name fails part updated s)"

end
