(* ===== verification/Config_Lines.thy ===== *)
theory Config_Lines
  imports Config_Edit
begin

text \<open>
  The editing of the configuration on the level of lines and tables: an assignment touches one
  table, keeps the assignments of other keys, and finds what it has written.
\<close>

section \<open>Lines\<close>

lemma starts_with_append [simp]: "starts_with (p @ a) (p @ b) = starts_with a b"
  by (simp add: starts_with_def)

lemma starts_with_self [simp]: "starts_with (p @ a) p" "starts_with p p" "starts_with s []"
  by (simp_all add: starts_with_def)

lemma starts_with_Cons [simp]: "starts_with (c # s) (d # p) \<longleftrightarrow> c = d \<and> starts_with s p"
  by (auto simp: starts_with_def)

lemma starts_with_Nil [simp]: "starts_with [] p \<longleftrightarrow> p = []"
  by (auto simp: starts_with_def)

lemma concat_onto_first [simp]: "concat (onto_first c ls) = c # concat ls"
  by (simp add: onto_first_def split: list.splits)

lemma concat_keep_lines [simp]: "concat (keep_lines t) = t"
  by (induction t rule: keep_lines.induct) auto

lemma LF_break [simp]: "text_break LF" "text_break CR"
  by (simp_all add: text_break_def)

text \<open>A line that ends in a newline and has no other boundary, and texts of such lines.\<close>

definition full_line :: "string \<Rightarrow> bool" where
  "full_line l \<longleftrightarrow> (\<exists>b. l = b @ [LF] \<and> (\<forall>c \<in> set b. \<not> text_break c))"

lemma keep_lines_full:
  assumes "\<forall>c \<in> set b. \<not> text_break c"
  shows "keep_lines (b @ LF # s) = (b @ [LF]) # keep_lines s"
  using assms
proof (induction b)
  case Nil
  then show ?case by (cases s) (auto simp: text_break_def)
next
  case (Cons c b)
  then have "\<not> text_break c" "c \<noteq> CR" by auto
  with Cons show ?case by (cases b) (auto simp: onto_first_def)
qed

lemma keep_lines_concat: "\<forall>l \<in> set ls. full_line l \<Longrightarrow> keep_lines (concat ls) = ls"
  by (induction ls) (auto simp: full_line_def keep_lines_full)

text \<open>A text without other boundaries that ends in a newline consists of such lines.\<close>

definition plain :: "string \<Rightarrow> bool" where
  "plain t \<longleftrightarrow> (\<forall>c \<in> set t. text_break c \<longrightarrow> c = LF)"

lemma plain_lines:
  assumes "plain t" "t = [] \<or> last t = LF"
  shows "\<exists>ls. t = concat ls \<and> (\<forall>l \<in> set ls. full_line l)"
  using assms
proof (induction "length t" arbitrary: t rule: less_induct)
  case less
  show ?case
  proof (cases t)
    case Nil
    then show ?thesis by (intro exI [of _ "[]"]) simp
  next
    case (Cons c0 t0)
    then have "LF \<in> set t" using less.prems(2) last_in_set [of t] by auto
    then obtain b s where t: "t = b @ LF # s" "LF \<notin> set b" by (meson split_list_first)
    have b: "full_line (b @ [LF])" using less.prems(1) t by (auto simp: plain_def full_line_def)
    have "plain s" "s = [] \<or> last s = LF" using less.prems t by (auto simp: plain_def split: if_splits)
    then obtain ls where "s = concat ls" "\<forall>l \<in> set ls. full_line l" using less.hyps [of s] t(1) by auto
    then show ?thesis using t(1) b by (intro exI [of _ "(b @ [LF]) # ls"]) auto
  qed
qed

lemma rstrip_newlines_full: "full_line (b @ [LF]) \<Longrightarrow> rstrip_newlines (b @ [LF]) = b"
  unfolding full_line_def rstrip_newlines_def rstrip_chars_def
  by (cases b rule: rev_cases) (auto simp: text_break_def)

lemma universal_newlines_plain: "plain t \<Longrightarrow> universal_newlines t = t"
  by (induction t rule: universal_newlines.induct) (auto simp: plain_def text_break_def)

lemma split_full:
  "LF \<notin> set b \<Longrightarrow> split_on LF (b @ LF # s) = b # split_on LF s"
  by (induction b) auto

lemma full_line_D: "full_line l \<Longrightarrow> l = butlast l @ [LF] \<and> LF \<notin> set (butlast l)"
  unfolding full_line_def by (metis LF_break(1) butlast_snoc)

lemma split_concat: "\<forall>l \<in> set ls. full_line l \<Longrightarrow> split_on LF (concat ls) = map butlast ls @ [[]]"
proof (induction ls)
  case (Cons l ls)
  then have "split_on LF (butlast l @ LF # concat ls) = butlast l # split_on LF (concat ls)"
    by (intro split_full) (auto dest: full_line_D)
  moreover have "concat (l # ls) = butlast l @ LF # concat ls"
    using Cons.prems full_line_D [of l] by (metis append_Cons append_Nil append_assoc concat.simps(2) list.set_intros(1))
  ultimately show ?case using Cons by (metis append_Cons list.set_intros(2) list.simps(9))
qed simp

section \<open>Tables\<close>

text \<open>The lines cut before every line that opens a table; the first piece is what comes before all.\<close>

fun tables :: "string list \<Rightarrow> string list list" where
  "tables [] = [[]]"
| "tables (l # ls) =
     (case tables ls of [] \<Rightarrow> [[l]] | c # cs \<Rightarrow> if opens_table l then [] # (l # c) # cs else (l # c) # cs)"

lemma tables_ne [simp]: "tables ls \<noteq> []"
  by (cases ls) (auto split: list.splits)

lemma tables_opened: "opens_table h \<Longrightarrow> tables (h # ls) = [] # (h # hd (tables ls)) # tl (tables ls)"
  by (cases "tables ls") simp_all

lemma tables_append_opened:
  assumes "opens_table h"
  shows "tables (A @ h # B) = tables A @ (h # hd (tables B)) # tl (tables B)"
proof (induction A)
  case Nil
  then show ?case using tables_opened [OF assms] by simp
next
  case (Cons a A)
  then show ?case by (cases "tables A") auto
qed

lemma tables_body:
  assumes "\<forall>l \<in> set body. \<not> opens_table l" "post = [] \<or> opens_table (hd post)"
  shows "hd (tables (body @ post)) = body \<and> tl (tables (body @ post)) = tl (tables post)"
  using assms(1)
proof (induction body)
  case Nil
  then show ?case using assms(2) by (cases post) (auto simp: tables_opened simp del: tables.simps(2))
next
  case (Cons l body)
  then show ?case by (cases "tables (body @ post)") auto
qed

lemma tables_lines: "c \<in> set (tables ls) \<Longrightarrow> set c \<subseteq> set ls"
proof (induction ls arbitrary: c)
  case (Cons l ls)
  then show ?case by (cases "tables ls") (force split: if_splits)+
qed simp

lemma header_opens: "is_header sec (rstrip_newlines l) \<Longrightarrow> full_line l \<Longrightarrow> opens_table l"
proof -
  assume h: "is_header sec (rstrip_newlines l)" and l: "full_line l"
  then obtain b where b: "l = b @ [LF]" "rstrip_newlines l = b" using rstrip_newlines_full by (metis full_line_def)
  then obtain r where "dropWhile py_space b = CHR ''['' # r" using h
    by (cases "dropWhile py_space b") (auto simp: is_header_def lstrip_def Let_def)
  then have "dropWhile py_space l = CHR ''['' # r @ [LF]" using b(1)
    by (metis append_Cons dropWhile_append dropWhile_eq_Nil_conv list.discI)
  then show "opens_table l" by (simp add: opens_table_def lstrip_def)
qed

section \<open>The table an assignment is made in\<close>

lemma filter_one_index:
  assumes "filter (\<lambda>i. Q (L ! i)) [0..<length L] = [s]"
  shows "\<exists>A h B. L = A @ h # B \<and> length A = s \<and> Q h \<and> (\<forall>x \<in> set A \<union> set B. \<not> Q x)"
proof -
  have s: "s < length L" "Q (L ! s)" 
    using arg_cong [OF assms, of set] by auto
  have only: "i = s" if "i < length L" "Q (L ! i)" for i
  proof -
    have "i \<in> set (filter (\<lambda>i. Q (L ! i)) [0..<length L])" using that by simp
    then show ?thesis by (simp add: assms)
  qed
  have "\<not> Q x" if "x \<in> set (take s L)" for x
    using that only s(1) by (metis in_set_conv_nth length_take min.strict_boundedE nat_neq_iff nth_take)
  moreover have "\<not> Q x" if x: "x \<in> set (drop (Suc s) L)" for x
  proof
    assume "Q x"
    obtain j where "j < length L - Suc s" "x = L ! (Suc s + j)"
      using x unfolding in_set_conv_nth by auto
    then show False using only [of "Suc s + j"] \<open>Q x\<close> s(1) by simp linarith
  qed
  ultimately show ?thesis using s id_take_nth_drop [OF s(1)]
    by (intro exI [of _ "take s L"] exI [of _ "L ! s"] exI [of _ "drop (Suc s) L"]) auto
qed

lemma filter_index_one:
  assumes "Q h" "\<forall>x \<in> set A \<union> set B. \<not> Q x"
  shows "filter (\<lambda>i. Q ((A @ h # B) ! i)) [0..<length (A @ h # B)] = [length A]"
proof -
  have split: "[0..<length (A @ h # B)] = [0..<length A] @ length A # [Suc (length A)..<length (A @ h # B)]"
    using upt_add_eq_append [of 0 "length A" "Suc (length B)"] by (simp add: upt_conv_Cons del: upt_Suc)
  have "filter (\<lambda>i. Q ((A @ h # B) ! i)) [0..<length A] = []"
    using assms(2) by (auto simp: filter_empty_conv nth_append)
  moreover have "filter (\<lambda>i. Q ((A @ h # B) ! i)) [Suc (length A)..<length (A @ h # B)] = []"
  proof -
    have "\<not> Q ((A @ h # B) ! i)" if "Suc (length A) \<le> i" "i < length (A @ h # B)" for i
    proof -
      have "(A @ h # B) ! i = B ! (i - Suc (length A))" using that by (simp add: nth_append nth_Cons')
      then show ?thesis using assms(2) that by simp
    qed
    then show ?thesis by (simp add: filter_empty_conv del: upt_Suc)
  qed
  ultimately show ?thesis unfolding split using assms(1) by simp
qed

text \<open>The lines around the one table of a section.\<close>

definition at_section :: "string \<Rightarrow> string list \<Rightarrow> string \<Rightarrow> string list \<Rightarrow> string list \<Rightarrow> bool" where
  "at_section sec A h body post \<longleftrightarrow> is_header sec (rstrip_newlines h)
     \<and> (\<forall>x \<in> set A \<union> set (body @ post). \<not> is_header sec (rstrip_newlines x))
     \<and> (\<forall>l \<in> set body. \<not> opens_table l) \<and> (post = [] \<or> opens_table (hd post))"

lemma section_bounds_at:
  assumes "at_section sec A h body post"
  shows "section_bounds (A @ h # body @ post) sec = Inr (length A, Suc (length A) + length body)"
proof -
  have "takeWhile (\<lambda>l. \<not> opens_table l) (body @ post) = body"
    using assms by (cases post) (auto simp: at_section_def takeWhile_append)
  then show ?thesis
    using filter_index_one [of "\<lambda>l. is_header sec (rstrip_newlines l)" h A "body @ post"] assms
    by (simp add: section_bounds_def at_section_def)
qed

lemma section_bounds_split:
  assumes "section_bounds L sec = Inr (start, stop)"
  shows "\<exists>A h body post. L = A @ h # body @ post \<and> at_section sec A h body post"
proof -
  obtain s where "filter (\<lambda>i. is_header sec (rstrip_newlines (L ! i))) [0..<length L] = [s]"
    using assms by (auto simp: section_bounds_def split: list.splits)
  from filter_one_index [OF this] obtain A h B where d: "L = A @ h # B" "is_header sec (rstrip_newlines h)"
    "\<forall>x \<in> set A \<union> set B. \<not> is_header sec (rstrip_newlines x)" by auto
  let ?body = "takeWhile (\<lambda>l. \<not> opens_table l) B" and ?post = "dropWhile (\<lambda>l. \<not> opens_table l) B"
  have "?post = [] \<or> opens_table (hd ?post)" using hd_dropWhile [of "\<lambda>l. \<not> opens_table l" B] by blast
  then have "at_section sec A h ?body ?post" using d by (auto simp: at_section_def dest: set_takeWhileD)
  then show ?thesis using d(1) by (intro exI [of _ A] exI [of _ h] exI [of _ ?body] exI [of _ ?post]) simp
qed

text \<open>What an assignment makes of the body of its table.\<close>

definition set_line :: "string \<Rightarrow> setting \<Rightarrow> string" where
  "set_line key v = key @ '' = '' @ render_value v @ [LF]"

definition edit_body :: "string \<Rightarrow> setting \<Rightarrow> bool \<Rightarrow> string list \<Rightarrow> string list" where
  "edit_body key v preserve body =
     (if filter (is_assignment key) body = [] then body @ [set_line key v]
      else if preserve then body
      else map (\<lambda>l. if is_assignment key l then set_line key v else l) body)"

lemma filter_shifted:
  "filter (\<lambda>i. Q ((A @ h # body @ post) ! i)) [Suc (length A)..<Suc (length A) + length body] =
   map ((+) (Suc (length A))) (filter (\<lambda>i. Q (body ! i)) [0..<length body])"
proof -
  have "[Suc (length A)..<Suc (length A) + length body] = map ((+) (Suc (length A))) [0..<length body]"
    by (rule nth_equalityI) (auto simp del: upt_Suc)
  then have "filter (\<lambda>i. Q ((A @ h # body @ post) ! i)) [Suc (length A)..<Suc (length A) + length body] =
      map ((+) (Suc (length A))) (filter (\<lambda>i. Q ((A @ h # body @ post) ! (Suc (length A) + i))) [0..<length body])"
    by (simp add: filter_map comp_def)
  also have "filter (\<lambda>i. Q ((A @ h # body @ post) ! (Suc (length A) + i))) [0..<length body] =
      filter (\<lambda>i. Q (body ! i)) [0..<length body]"
    by (rule filter_cong) (auto simp: nth_append)
  finally show ?thesis .
qed

lemma length_filter_index: "length (filter (\<lambda>i. Q (xs ! i)) [0..<length xs]) = length (filter Q xs)"
proof -
  have "filter Q xs = map ((!) xs) (filter (\<lambda>i. Q (xs ! i)) [0..<length xs])"
    using filter_map [of Q "(!) xs" "[0..<length xs]"] by (simp add: map_nth comp_def)
  then show ?thesis by simp
qed

lemma render_value_last: "\<exists>a c. render_value v = a @ [c] \<and> c \<noteq> LF \<and> \<not> py_space c"
  by (cases v) (auto simp: render_value_def dumps_str_def py_space_def)

lemma rendered_stripped:
  "rstrip_chars (\<lambda>c. c = LF) (key @ '' = '' @ render_value v @ [LF]) @ [LF] = set_line key v"
proof -
  obtain a c where a: "render_value v = a @ [c]" "c \<noteq> LF" using render_value_last by blast
  show ?thesis unfolding rstrip_chars_def set_line_def a(1) using a(2) by simp
qed

lemma set_assignment_at:
  assumes at: "at_section sec A h body post" and full: "\<forall>l \<in> set (A @ h # body @ post). full_line l"
    and key: "\<forall>c \<in> set key. \<not> text_break c" and one: "length (filter (is_assignment key) body) \<le> 1"
  shows "set_assignment (concat (A @ h # body @ post)) sec key v preserve =
    Inr (concat (A @ h # edit_body key v preserve body @ post))"
proof -
  let ?L = "A @ h # body @ post"
  let ?m = "filter (\<lambda>i. is_assignment key (body ! i)) [0..<length body]"
  have lines: "keep_lines (concat ?L) = ?L" using keep_lines_concat [OF full] .
  have bounds: "section_bounds ?L sec = Inr (length A, Suc (length A) + length body)" by (rule section_bounds_at [OF at])
  have matches: "filter (\<lambda>i. is_assignment key (?L ! i)) [Suc (length A)..<Suc (length A) + length body] = map ((+) (Suc (length A))) ?m"
    by (rule filter_shifted)
  have len: "length ?m = length (filter (is_assignment key) body)" by (rule length_filter_index)
  note def = set_assignment_def [of "concat ?L" sec key v preserve, unfolded lines bounds Let_def bindr_simps prod.case matches]
  show ?thesis
  proof (cases "filter (is_assignment key) body")
    case Nil
    then have "?m = []" using len by simp
    moreover have "take (Suc (length A) + length body) ?L = A @ h # body" "drop (Suc (length A) + length body) ?L = post" by simp_all
    ultimately show ?thesis unfolding def using Nil by (simp add: edit_body_def set_line_def)
  next
    case (Cons a as)
    then have "length ?m = 1" using one len by simp
    then obtain i where i: "?m = [i]" by (metis One_nat_def length_0_conv length_Suc_conv)
    then have "i \<in> set ?m" by simp
    then have ib: "i < length body" "is_assignment key (body ! i)" by simp_all
    have nth: "?L ! (Suc (length A) + i) = body ! i" using ib(1) by (simp add: nth_append)
    have fl: "full_line (body ! i)" using full ib(1) by auto
    then obtain b where b: "body ! i = b @ [LF]" "\<forall>c \<in> set b. \<not> text_break c" by (auto simp: full_line_def)
    then have nocr: "\<not> ends_with (body ! i) [CR, LF]" "ends_with (body ! i) [LF]"
      by (cases b rule: rev_cases; auto simp: ends_with_def)+
    obtain B1 B2 where d: "body = B1 @ body ! i # B2" "length B1 = i" "\<forall>x \<in> set B1 \<union> set B2. \<not> is_assignment key x"
      using filter_one_index [OF i] by (metis nth_append_length)
    have upd: "?L[Suc (length A) + i := x] = A @ h # body[i := x] @ post" for x using ib(1) by (simp add: list_update_append)
    have strip: "rstrip_chars (\<lambda>c. c = LF) (key @ '' = '' @ render_value v @ [LF]) @ [LF] = set_line key v"
      by (rule rendered_stripped)
    have edit: "body[i := set_line key v] = map (\<lambda>l. if is_assignment key l then set_line key v else l) body"
    proof -
      let ?f = "\<lambda>l. if is_assignment key l then set_line key v else l"
      have "map ?f B1 = B1" "map ?f B2 = B2" using d(3) by (auto intro: map_idI)
      moreover have "map ?f body = map ?f (B1 @ body ! i # B2)" using d(1) by simp
      ultimately have "map ?f body = B1 @ set_line key v # B2" using ib(2) by simp
      moreover have "body[i := set_line key v] = (B1 @ body ! i # B2)[length B1 := set_line key v]" using d(1,2) by simp
      ultimately show ?thesis by simp
    qed
    show ?thesis unfolding def i using Cons nth nocr upd edit strip
      by (simp add: edit_body_def)
  qed
qed

text \<open>The other way round: what a successful assignment tells about the text.\<close>

lemma set_assignment_cases:
  assumes "set_assignment (concat L) sec key v preserve = Inr t" and full: "\<forall>l \<in> set L. full_line l"
    and key: "\<forall>c \<in> set key. \<not> text_break c"
  shows "\<exists>A h body post. L = A @ h # body @ post \<and> at_section sec A h body post
    \<and> length (filter (is_assignment key) body) \<le> 1 \<and> t = concat (A @ h # edit_body key v preserve body @ post)"
proof -
  have lines: "keep_lines (concat L) = L" using keep_lines_concat [OF full] .
  obtain bounds where "section_bounds L sec = Inr bounds"
    using assms(1) unfolding set_assignment_def lines Let_def by (cases "section_bounds L sec") simp_all
  then obtain start stop where "section_bounds L sec = Inr (start, stop)" by (cases bounds) simp
  from section_bounds_split [OF this] obtain A h body post
    where d: "L = A @ h # body @ post" "at_section sec A h body post" by blast
  have "length (filter (is_assignment key) body) = length (filter (\<lambda>i. is_assignment key (body ! i)) [0..<length body])"
    by (rule length_filter_index [symmetric])
  then have one: "length (filter (is_assignment key) body) \<le> 1"
    using assms(1) [unfolded set_assignment_def lines Let_def, unfolded d(1) section_bounds_at [OF d(2)] bindr_simps prod.case filter_shifted]
    by (simp split: if_splits)
  then show ?thesis using set_assignment_at [OF d(2) _ key one] assms(1) full d by auto
qed

section \<open>Assignments that are there\<close>

definition chunk_is :: "string \<Rightarrow> string list \<Rightarrow> bool" where
  "chunk_is sec c \<longleftrightarrow> c \<noteq> [] \<and> is_header sec (rstrip_newlines (hd c))"

text \<open>The section has one table, with this one assignment of the key.\<close>

definition holds_setting :: "string list \<Rightarrow> string \<Rightarrow> string \<Rightarrow> string \<Rightarrow> bool" where
  "holds_setting L sec key line \<longleftrightarrow>
     (\<exists>c. filter (chunk_is sec) (tables L) = [c] \<and> filter (is_assignment key) (tl c) = [line])"

lemma tables_at:
  assumes "at_section sec A h body post" "full_line h"
  shows "tables (A @ h # body @ post) = tables A @ (h # body) # tl (tables post)
    \<and> filter (chunk_is sec) (tables (A @ h # body @ post)) = [h # body]"
proof -
  have op: "opens_table h" using header_opens assms by (auto simp: at_section_def)
  have body: "hd (tables (body @ post)) = body \<and> tl (tables (body @ post)) = tl (tables post)"
    using tables_body [of body post] assms(1) by (simp add: at_section_def)
  then have t: "tables (A @ h # body @ post) = tables A @ (h # body) # tl (tables post)"
    using tables_append_opened [OF op, of A "body @ post"] by simp
  have no: "\<not> chunk_is sec c" if "c \<in> set (tables B)" "set B \<subseteq> set A \<union> set (body @ post)" for c B
    using tables_lines [OF that(1)] that(2) assms(1) unfolding chunk_is_def at_section_def
    by (metis (no_types, lifting) hd_in_set subsetD)
  have "filter (chunk_is sec) (tables A) = []" using no [of _ A] by (auto simp: filter_empty_conv)
  moreover have "filter (chunk_is sec) (tl (tables post)) = []"
    using no [of _ post] list.set_sel(2) [OF tables_ne] by (auto simp: filter_empty_conv)
  moreover have "chunk_is sec (h # body)" using assms(1) by (simp add: chunk_is_def at_section_def)
  ultimately show ?thesis using t by simp
qed

text \<open>The shape of the pieces.\<close>

lemma tables_shape:
  "concat (tables L) = L \<and> (\<forall>l \<in> set (hd (tables L)). \<not> opens_table l)
     \<and> (\<forall>c \<in> set (tl (tables L)). c \<noteq> [] \<and> opens_table (hd c) \<and> (\<forall>l \<in> set (tl c). \<not> opens_table l))"
proof (induction L)
  case (Cons l L)
  then show ?case by (cases "tables L") auto
qed simp

lemma chunk_section:
  assumes one: "filter (chunk_is sec) (tables L) = [c]" and full: "\<forall>l \<in> set L. full_line l"
  shows "\<exists>A h body post. L = A @ h # body @ post \<and> at_section sec A h body post \<and> c = h # body"
proof -
  obtain TA TP where t: "tables L = TA @ c # TP" and none: "\<forall>x \<in> set TA \<union> set TP. \<not> chunk_is sec x" and c: "chunk_is sec c"
    using one [unfolded filter_eq_Cons_iff] by (metis UnE filter_empty_conv)
  obtain h body where hb: "c = h # body" "is_header sec (rstrip_newlines h)" using c by (cases c) (auto simp: chunk_is_def)
  have L: "L = concat TA @ h # body @ concat TP" using tables_shape [of L] t hb by simp
  have op: "opens_table h" using header_opens [OF hb(2)] full L by simp
  then have "TA \<noteq> []" using tables_shape [of L] t hb by (cases TA) auto
  then have tl: "tl (tables L) = tl TA @ c # TP" using t by simp
  have bodies: "x \<noteq> [] \<and> opens_table (hd x) \<and> (\<forall>l \<in> set (tl x). \<not> opens_table l)" if "x \<in> set (c # TP) \<union> set (tl TA)" for x
    using tables_shape [of L] that unfolding tl by auto
  have first: "\<forall>l \<in> set (hd TA). \<not> opens_table l" using tables_shape [of L] t \<open>TA \<noteq> []\<close> by simp
  have no: "\<not> is_header sec (rstrip_newlines l)" if l: "l \<in> set (concat TA) \<union> set (body @ concat TP)" for l
  proof
    assume hd: "is_header sec (rstrip_newlines l)"
    have ol: "opens_table l" using header_opens [OF hd] full l L by auto
    then have "l \<notin> set body" using bodies [of c] hb by auto
    then obtain x where x: "x \<in> set TA \<union> set TP" "l \<in> set x" using l by auto
    have "x = hd TA \<or> x \<in> set (tl TA) \<union> set TP" using x(1) \<open>TA \<noteq> []\<close> by (cases TA) auto
    then have "x \<in> set (tl TA) \<union> set TP" using first ol x(2) by blast
    then have "l \<notin> set (tl x)" using bodies [of x] ol by auto
    then have "l = hd x" using x(2) by (cases x) auto
    then have "chunk_is sec x" using hd x(2) by (auto simp: chunk_is_def)
    then show False using none x(1) by blast
  qed
  have "concat TP = [] \<or> opens_table (hd (concat TP))" using bodies by (cases TP) auto
  then have "at_section sec (concat TA) h body (concat TP)"
    unfolding at_section_def using hb no bodies [of c] by auto
  then show ?thesis using L hb(1) by blast
qed

section \<open>Keys\<close>

definition key_ok :: "string \<Rightarrow> bool" where
  "key_ok key \<longleftrightarrow> key \<noteq> [] \<and> (\<forall>c \<in> set key. \<not> py_space c \<and> c \<noteq> CHR ''['' \<and> c \<noteq> CHR ''='')"

lemma break_space: "text_break c \<Longrightarrow> py_space c"
  by (auto simp: text_break_def py_space_def Let_def)

lemma lstrip_key: "key_ok key \<Longrightarrow> lstrip (key @ s) = key @ s"
  by (cases key) (auto simp: key_ok_def lstrip_def)

lemma assignment_key: "is_assignment key l \<Longrightarrow> key_ok key \<Longrightarrow> \<exists>x. lstrip l = key @ x \<and> starts_with (lstrip x) ''=''"
  by (auto simp: is_assignment_def starts_with_def Let_def) (metis append_take_drop_id)

lemma key_prefix:
  assumes "key @ x = (key @ r) @ y" "starts_with (lstrip x) ''=''" "key_ok (key @ r)"
  shows "r = []"
  using assms by (cases r) (auto simp: key_ok_def lstrip_def)

lemma assignment_one_key:
  assumes "is_assignment key l" "is_assignment key' l" "key_ok key" "key_ok key'"
  shows "key = key'"
proof -
  obtain x y where x: "lstrip l = key @ x" "starts_with (lstrip x) ''=''" and y: "lstrip l = key' @ y" "starts_with (lstrip y) ''=''"
    using assignment_key assms by metis
  then have "(\<exists>r. key' = key @ r) \<or> (\<exists>r. key = key' @ r)" by (metis append_eq_append_conv2)
  then show ?thesis
  proof
    assume "\<exists>r. key' = key @ r"
    then obtain r where r: "key' = key @ r" by blast
    then show ?thesis using key_prefix [of key x r y] x y assms(4) by simp
  next
    assume "\<exists>r. key = key' @ r"
    then obtain r where r: "key = key' @ r" by blast
    then show ?thesis using key_prefix [of key' y r x] x y assms(3) by simp
  qed
qed

lemma set_line_assigns: "key_ok key \<Longrightarrow> is_assignment key (set_line key v)"
  unfolding is_assignment_def set_line_def by (simp add: lstrip_key) (simp add: lstrip_def py_space_def)

lemma set_line_closed: "key_ok key \<Longrightarrow> \<not> opens_table (set_line key v)"
  unfolding opens_table_def set_line_def by (simp add: lstrip_key) (cases key; simp add: key_ok_def)

lemma hex_pad_digits: "c \<in> set (hex_pad w n) \<Longrightarrow> \<exists>d. 0 \<le> d \<and> d < 16 \<and> c = hex_char d"
  by (induction w arbitrary: n) (auto, metis pos_mod_bound pos_mod_sign zero_less_numeral)

lemma hex_char_unbroken: "0 \<le> d \<Longrightarrow> d < 16 \<Longrightarrow> \<not> text_break (hex_char d)"
proof -
  have "\<forall>d \<in> set [0..15]. \<not> text_break (hex_char d)" by code_simp
  then show "0 \<le> d \<Longrightarrow> d < 16 \<Longrightarrow> \<not> text_break (hex_char d)" by simp
qed

lemma printable_unbroken: "32 \<le> (of_char c :: nat) \<Longrightarrow> (of_char c :: nat) \<le> 126 \<Longrightarrow> \<not> text_break c"
  by (auto simp: text_break_def)

lemma dumps_char_printable: "list_all (\<lambda>d. \<not> text_break d) (dumps_char c)"
proof -
  have "list_all (\<lambda>d. \<not> text_break d) (u_escape c)"
    using hex_pad_digits hex_char_unbroken by (auto simp: u_escape_def list_all_iff printable_unbroken)
  then show ?thesis by (auto simp: dumps_char_def printable_unbroken)
qed

lemma render_value_unbroken: "c \<in> set (render_value v) \<Longrightarrow> \<not> text_break c"
proof -
  have str: "\<not> text_break d" if "d \<in> set (dumps_str t)" for d t
    using that dumps_char_printable by (auto simp: dumps_str_def list_all_iff text_break_def)
  have "\<not> text_break d" if "d \<in> set (join '', '' (map dumps_str ts))" for d ts
    using that by (induction ts rule: induct_list012) (auto simp: str text_break_def dest: str)
  then show "c \<in> set (render_value v) \<Longrightarrow> \<not> text_break c"
    using str by (auto simp: render_value_def text_break_def split: setting.splits)
qed

lemma set_line_full: "key_ok key \<Longrightarrow> full_line (set_line key v)"
  unfolding full_line_def set_line_def
  by (rule exI [of _ "key @ '' = '' @ render_value v"])
    (auto simp: key_ok_def text_break_def [of "CHR '' ''"] text_break_def [of "CHR ''=''"] dest: render_value_unbroken break_space)

section \<open>Assignments keep each other\<close>

lemma edit_body_lines: "x \<in> set (edit_body key v preserve body) \<Longrightarrow> x \<in> set body \<or> x = set_line key v"
  by (auto simp: edit_body_def split: if_splits)

lemma edit_body_section:
  assumes "at_section sec A h body post" "key_ok key"
  shows "at_section sec A h (edit_body key v preserve body) post"
proof -
  have new: "\<not> opens_table (set_line key v)" "\<not> is_header sec (rstrip_newlines (set_line key v))"
    using set_line_closed set_line_full header_opens assms(2) by blast+
  then show ?thesis using assms(1) unfolding at_section_def by (auto dest!: edit_body_lines)
qed

lemma edit_body_same_key:
  assumes "key_ok key" "length (filter (is_assignment key) body) \<le> 1"
  shows "\<exists>line. filter (is_assignment key) (edit_body key v preserve body) = [line] \<and> (\<not> preserve \<longrightarrow> line = set_line key v)"
proof (cases "filter (is_assignment key) body")
  case Nil
  then show ?thesis using set_line_assigns [OF assms(1)] by (simp add: edit_body_def)
next
  case (Cons l ls)
  then have one: "filter (is_assignment key) body = [l]" using assms(2) by simp
  let ?f = "\<lambda>l. if is_assignment key l then set_line key v else l"
  have "is_assignment key \<circ> ?f = is_assignment key" using set_line_assigns [OF assms(1)] by (auto simp: fun_eq_iff)
  then have "filter (is_assignment key) (map ?f body) = map ?f [l]" unfolding filter_map one [symmetric] by simp
  moreover have "is_assignment key l" using arg_cong [OF one, of set] by auto
  ultimately show ?thesis using one by (simp add: edit_body_def)
qed

lemma edit_body_other_key:
  assumes "key_ok key" "key_ok key'" "key \<noteq> key'"
  shows "filter (is_assignment key') (edit_body key v preserve body) = filter (is_assignment key') body"
proof -
  have no: "\<not> is_assignment key' (set_line key v)" "\<And>l. is_assignment key l \<Longrightarrow> \<not> is_assignment key' l"
    using assignment_one_key set_line_assigns assms by blast+
  have "filter (is_assignment key') (map (\<lambda>l. if is_assignment key l then set_line key v else l) body) =
      filter (is_assignment key') body"
    using no by (induction body) auto
  then show ?thesis using no(1) by (simp add: edit_body_def)
qed

lemma edit_body_done:
  assumes "filter (is_assignment key) body = [line]" "preserve \<or> line = set_line key v"
  shows "edit_body key v preserve body = body"
proof -
  have "l = line" if "l \<in> set body" "is_assignment key l" for l
    using arg_cong [OF assms(1), of set] that by auto
  then have "map (\<lambda>l. if is_assignment key l then set_line key v else l) body = body" if "\<not> preserve"
    using that assms(2) by (auto intro: map_idI)
  then show ?thesis using assms(1) by (simp add: edit_body_def)
qed

text \<open>An assignment establishes its own setting, keeps those of other keys, and is not needed twice.\<close>

lemma set_assignment_effect:
  assumes set: "set_assignment (concat L) sec key v preserve = Inr t" and full: "\<forall>l \<in> set L. full_line l" and key: "key_ok key"
  shows "\<exists>L' line. t = concat L' \<and> (\<forall>l \<in> set L'. full_line l) \<and> holds_setting L' sec key line
    \<and> (\<not> preserve \<longrightarrow> line = set_line key v)
    \<and> (\<forall>sec' key' line'. key_ok key' \<longrightarrow> key' \<noteq> key \<longrightarrow> holds_setting L sec' key' line' \<longrightarrow> holds_setting L' sec' key' line')
    \<and> (L' = L \<or> (\<exists>x. last L' = set_line key x) \<or> last L' = last L)"
proof -
  have kb: "\<forall>c \<in> set key. \<not> text_break c" using key break_space by (auto simp: key_ok_def)
  obtain A h body post where L: "L = A @ h # body @ post" and at: "at_section sec A h body post"
    and one: "length (filter (is_assignment key) body) \<le> 1" and t: "t = concat (A @ h # edit_body key v preserve body @ post)"
    using set_assignment_cases [OF set full kb] by blast
  let ?L = "A @ h # edit_body key v preserve body @ post"
  have full': "\<forall>l \<in> set ?L. full_line l" using full set_line_full [OF key] unfolding L by (auto dest: edit_body_lines)
  note at' = edit_body_section [OF at key, of v preserve]
  have h: "full_line h" using full L by simp
  note T = tables_at [OF at h] and T' = tables_at [OF at' h]
  obtain line where "filter (is_assignment key) (edit_body key v preserve body) = [line]" "\<not> preserve \<longrightarrow> line = set_line key v"
    using edit_body_same_key [OF key one] by blast
  then have own: "holds_setting ?L sec key line" "\<not> preserve \<longrightarrow> line = set_line key v"
    unfolding holds_setting_def using T' [THEN conjunct2] by (auto simp del: tables.simps)
  have other: "holds_setting ?L sec' key' line'" if ok: "key_ok key'" and ne: "key' \<noteq> key" and held: "holds_setting L sec' key' line'" for sec' key' line'
  proof -
    obtain c where c: "filter (chunk_is sec') (tables L) = [c]" "filter (is_assignment key') (tl c) = [line']"
      using held by (auto simp: holds_setting_def)
    show ?thesis
    proof (cases "chunk_is sec' (h # body)")
      case True
      then have "filter (chunk_is sec') (tables A) = []" "filter (chunk_is sec') (tl (tables post)) = []" "c = h # body"
        using c(1) T L by (auto simp: append_eq_Cons_conv)
      then show ?thesis using True T' c(2) edit_body_other_key [OF key ok] ne
        by (simp add: holds_setting_def chunk_is_def)
    next
      case False
      then show ?thesis using c T T' L by (auto simp: holds_setting_def chunk_is_def)
    qed
  qed
  have "last ?L = last L \<or> last ?L = set_line key v"
  proof (cases "post = []")
    case True
    then show ?thesis using L by (auto simp: edit_body_def last_map)
  qed (simp add: L)
  then show ?thesis using t full' own other by blast
qed

lemma set_assignment_done:
  assumes held: "holds_setting L sec key line" and full: "\<forall>l \<in> set L. full_line l" and key: "key_ok key"
    and "preserve \<or> line = set_line key v"
  shows "set_assignment (concat L) sec key v preserve = Inr (concat L)"
proof -
  have kb: "\<forall>c \<in> set key. \<not> text_break c" using key break_space by (auto simp: key_ok_def)
  obtain c where c: "filter (chunk_is sec) (tables L) = [c]" "filter (is_assignment key) (tl c) = [line]"
    using held by (auto simp: holds_setting_def)
  obtain A h body post where L: "L = A @ h # body @ post" "at_section sec A h body post" "c = h # body"
    using chunk_section [OF c(1) full] by blast
  have "filter (is_assignment key) body = [line]" using c(2) L(3) by simp
  then show ?thesis using set_assignment_at [OF L(2) _ kb, of v preserve] edit_body_done [of key body line preserve v] full L(1) assms(4)
    by simp
qed

end
