(* ===== verification/Config_Claims.thy ===== *)
theory Config_Claims
  imports Config_Lines "HOL-Library.Sublist"
begin

text \<open>
  The properties of the scripts that edit the configuration: what they change, that an
  upgrade needs no second one, that the server reads back what was enrolled, and two inputs
  on which they go wrong.
\<close>

section \<open>Sections of tools\<close>

text \<open>The last line ends in something visible.\<close>

definition tidy :: "string list \<Rightarrow> bool" where
  "tidy L \<longleftrightarrow> L \<noteq> [] \<and> (\<exists>b c. last L = b @ [c, LF] \<and> \<not> py_space c)"

definition has_header :: "string \<Rightarrow> string list \<Rightarrow> bool" where
  "has_header sec L \<longleftrightarrow> (\<exists>l \<in> set L. is_header sec (butlast l))"

definition tool_lines :: "string \<Rightarrow> string \<Rightarrow> string \<Rightarrow> string list" where
  "tool_lines server_name tool approval =
     [[LF], ''['' @ tool_section server_name tool @ '']'' @ [LF], ''approval_mode = '' @ dumps_str approval @ [LF]]"

lemma header_found: "\<forall>l \<in> set L. full_line l \<Longrightarrow> list_ex (is_header sec) (split_on LF (concat L)) \<longleftrightarrow> has_header sec L"
  by (auto simp: split_concat has_header_def list_ex_iff) (auto simp: is_header_def lstrip_def)

lemma tidy_stripped:
  assumes "tidy L" shows "rstrip_chars py_space (concat L) @ [LF] = concat L"
proof -
  obtain b c where b: "last L = b @ [c, LF]" "\<not> py_space c" "L \<noteq> []" using assms by (auto simp: tidy_def)
  have "concat L = concat (butlast L) @ last L" using b(3) by (metis append_butlast_last_id concat_append concat.simps append_Nil2)
  then show ?thesis using b by (simp add: rstrip_chars_def py_space_def)
qed

lemma ensure_tool_lines:
  assumes "\<forall>l \<in> set L. full_line l" "tidy L"
  shows "ensure_tool_section (concat L) server_name tool approval =
    concat (if has_header (tool_section server_name tool) L then L else L @ tool_lines server_name tool approval)"
proof -
  have strip: "rstrip_chars py_space (concat L) @ [LF, LF] @ x = concat L @ [LF] @ x" for x
    using arg_cong [OF tidy_stripped [OF assms(2)], of "\<lambda>t. t @ [LF] @ x"] by simp
  show ?thesis unfolding ensure_tool_section_def header_found [OF assms(1)] strip by (simp add: tool_lines_def)
qed

definition unbroken :: "string \<Rightarrow> bool" where
  "unbroken s \<longleftrightarrow> (\<forall>c \<in> set s. \<not> text_break c)"

lemma dumps_str_unbroken: "unbroken (dumps_str s)"
  using render_value_unbroken [of _ "Text s"] by (auto simp: unbroken_def render_value_def)

lemma unbroken_simps [simp]:
  "unbroken (a @ b) \<longleftrightarrow> unbroken a \<and> unbroken b" "unbroken (c # a) \<longleftrightarrow> \<not> text_break c \<and> unbroken a" "unbroken []"
  by (auto simp: unbroken_def)

lemma full_line_unbroken: "full_line (b @ [LF]) \<longleftrightarrow> unbroken b"
  by (auto simp: full_line_def unbroken_def)

lemma bracket_facts [simp]:
  "\<not> text_break (CHR ''['')" "\<not> text_break (CHR '']'')" "\<not> text_break (CHR ''.'')" "\<not> py_space (CHR ''['')" "\<not> py_space (CHR '']'')"
  by (simp_all add: text_break_def py_space_def)

lemma tool_section_unbroken: "unbroken server_name \<Longrightarrow> unbroken tool \<Longrightarrow> unbroken (tool_section server_name tool)"
  by (simp add: tool_section_def text_break_def)

lemma tool_lines_full:
  assumes "unbroken server_name" "unbroken tool"
  shows "\<forall>l \<in> set (tool_lines server_name tool approval). full_line l"
proof -
  have "unbroken (''['' @ tool_section server_name tool @ '']'')" using tool_section_unbroken [OF assms] by simp
  moreover have "unbroken (''approval_mode = '' @ dumps_str approval)" using dumps_str_unbroken [of approval] by (simp add: text_break_def)
  moreover have "full_line []" if False using that by simp
  moreover have "full_line [LF]" using full_line_unbroken [of "[]"] by simp
  ultimately show ?thesis unfolding tool_lines_def
    using full_line_unbroken [of "''['' @ tool_section server_name tool @ '']''"]
      full_line_unbroken [of "''approval_mode = '' @ dumps_str approval"] by simp
qed

lemma tables_snoc: "\<not> opens_table l \<Longrightarrow> tables (L @ [l]) = butlast (tables L) @ [last (tables L) @ [l]]"
proof (induction L)
  case (Cons a L)
  then show ?case by (cases "tables L") (auto split: if_splits)
qed simp

lemma tables_tool:
  assumes "L \<noteq> []"
  shows "tables (L @ tool_lines server_name tool approval) =
    butlast (tables L) @ [last (tables L) @ [[LF]]] @ [tl (tool_lines server_name tool approval)]"
proof -
  have nl: "\<not> opens_table [LF]" by (simp add: opens_table_def lstrip_def py_space_def)
  have hd: "opens_table (''['' @ tool_section server_name tool @ '']'' @ [LF])" by (simp add: opens_table_def lstrip_def)
  have asg: "\<not> opens_table (''approval_mode = '' @ dumps_str approval @ [LF])"
    by (simp add: opens_table_def lstrip_def py_space_def)
  show ?thesis using tables_append_opened [OF hd, of "L @ [[LF]]" "[''approval_mode = '' @ dumps_str approval @ [LF]]"]
      tables_snoc [OF nl, of L] asg by (simp add: tool_lines_def)
qed

lemma last_table_ne: "L \<noteq> [] \<Longrightarrow> last (tables L) \<noteq> []"
proof -
  assume "L \<noteq> []"
  moreover have "concat (tables L) = L" "\<forall>c \<in> set (tl (tables L)). c \<noteq> []" using tables_shape [of L] by auto
  ultimately show ?thesis
    by (cases "tables L") (auto simp: last_ConsL split: if_splits)
qed

lemma holds_tool:
  assumes held: "holds_setting L sec key line" and key: "key_ok key" and "L \<noteq> []"
    and other: "\<not> is_header sec (rstrip_newlines (''['' @ tool_section server_name tool @ '']'' @ [LF]))"
  shows "holds_setting (L @ tool_lines server_name tool approval) sec key line"
proof -
  obtain c where c: "filter (chunk_is sec) (tables L) = [c]" "filter (is_assignment key) (tl c) = [line]"
    using held by (auto simp: holds_setting_def)
  let ?l = "last (tables L)"
  have l: "?l \<noteq> []" using last_table_ne [OF \<open>L \<noteq> []\<close>] .
  have t: "tables L = butlast (tables L) @ [?l]" by simp
  have same: "chunk_is sec (?l @ [[LF]]) = chunk_is sec ?l" using l by (simp add: chunk_is_def)
  have new: "\<not> chunk_is sec (tl (tool_lines server_name tool approval))" using other by (simp add: chunk_is_def tool_lines_def)
  have nl: "\<not> is_assignment key [LF]" using key by (auto simp: is_assignment_def lstrip_def py_space_def key_ok_def)
  have f: "filter (chunk_is sec) (tables (L @ tool_lines server_name tool approval)) =
      filter (chunk_is sec) (butlast (tables L)) @ (if chunk_is sec ?l then [?l @ [[LF]]] else [])"
    using tables_tool [OF \<open>L \<noteq> []\<close>] same new by simp
  have g: "filter (chunk_is sec) (butlast (tables L)) @ (if chunk_is sec ?l then [?l] else []) = [c]"
    using arg_cong [OF t, of "filter (chunk_is sec)"] unfolding c(1) filter_append by simp
  show ?thesis
  proof (cases "chunk_is sec ?l")
    case True
    then have "c = ?l" "filter (chunk_is sec) (butlast (tables L)) = []" using g by auto
    then show ?thesis using f True c(2) nl l by (auto simp: holds_setting_def)
  qed (use f g c(2) in \<open>auto simp: holds_setting_def\<close>)
qed

lemma holds_ne: "holds_setting L sec key line \<Longrightarrow> L \<noteq> []"
  by (auto simp: holds_setting_def chunk_is_def)

lemma header_self: "unbroken sec \<Longrightarrow> is_header sec (''['' @ sec @ '']'')"
  by (simp add: is_header_def lstrip_def blank_or_comment_def)

lemma has_tool_self: "unbroken server_name \<Longrightarrow> unbroken tool \<Longrightarrow> has_header (tool_section server_name tool) (L @ tool_lines server_name tool approval)"
proof -
  assume "unbroken server_name" "unbroken tool"
  then have "is_header (tool_section server_name tool) (''['' @ tool_section server_name tool @ '']'')"
    by (intro header_self tool_section_unbroken)
  moreover have "butlast (''['' @ tool_section server_name tool @ '']'' @ [LF]) = ''['' @ tool_section server_name tool @ '']''"
    by (simp add: butlast_append)
  ultimately show ?thesis unfolding has_header_def tool_lines_def
    by (intro bexI [of _ "''['' @ tool_section server_name tool @ '']'' @ [LF]"]) (simp_all only: list.set insert_iff Un_iff set_append simp_thms)
qed

lemma tool_header_other:
  assumes "unbroken server_name" "unbroken tool"
  shows "\<not> is_header (''mcp_servers.'' @ server_name) (rstrip_newlines (''['' @ tool_section server_name tool @ '']'' @ [LF]))"
    and "\<not> is_header (''mcp_servers.'' @ server_name @ ''.env'') (rstrip_newlines (''['' @ tool_section server_name tool @ '']'' @ [LF]))"
proof -
  have full: "full_line ((''['' @ tool_section server_name tool @ '']'') @ [LF])"
    using tool_section_unbroken [OF assms] unfolding full_line_unbroken by simp
  have r: "rstrip_newlines (''['' @ tool_section server_name tool @ '']'' @ [LF]) = ''['' @ tool_section server_name tool @ '']''"
    using rstrip_newlines_full [OF full] unfolding append_assoc .
  show "\<not> is_header (''mcp_servers.'' @ server_name) (rstrip_newlines (''['' @ tool_section server_name tool @ '']'' @ [LF]))"
    unfolding r by (simp add: is_header_def lstrip_def tool_section_def)
  show "\<not> is_header (''mcp_servers.'' @ server_name @ ''.env'') (rstrip_newlines (''['' @ tool_section server_name tool @ '']'' @ [LF]))"
    unfolding r by (simp add: is_header_def lstrip_def tool_section_def)
qed

section \<open>An upgrade is not needed twice\<close>

definition editable :: "string list \<Rightarrow> bool" where
  "editable L \<longleftrightarrow> (\<forall>l \<in> set L. full_line l) \<and> tidy L"

lemma set_line_tidy: "L \<noteq> [] \<Longrightarrow> last L = set_line key v \<Longrightarrow> tidy L"
proof -
  obtain a c where a: "render_value v = a @ [c]" "\<not> py_space c" using render_value_last by blast
  assume "L \<noteq> []" "last L = set_line key v"
  then show "tidy L" unfolding tidy_def using a by (auto simp: set_line_def intro!: exI [of _ "key @ '' = '' @ a"] exI [of _ c])
qed

text \<open>What later edits must keep: the settings of a section.\<close>

definition keeps :: "(string \<Rightarrow> string \<Rightarrow> bool) \<Rightarrow> string list \<Rightarrow> string list \<Rightarrow> bool" where
  "keeps P L L' \<longleftrightarrow> (\<forall>sec key line. P sec key \<longrightarrow> key_ok key \<longrightarrow> holds_setting L sec key line \<longrightarrow> holds_setting L' sec key line)"

lemma assignment_step:
  assumes "editable L" "set_assignment (concat L) sec key v preserve = Inr t" "key_ok key"
  shows "\<exists>L' line. t = concat L' \<and> editable L' \<and> holds_setting L' sec key line \<and> (\<not> preserve \<longrightarrow> line = set_line key v)
    \<and> keeps (\<lambda>_ key'. key' \<noteq> key) L L'"
proof -
  obtain L' line where L': "t = concat L'" "\<forall>l \<in> set L'. full_line l" "holds_setting L' sec key line"
      "\<not> preserve \<longrightarrow> line = set_line key v"
      "\<forall>sec' key' line'. key_ok key' \<longrightarrow> key' \<noteq> key \<longrightarrow> holds_setting L sec' key' line' \<longrightarrow> holds_setting L' sec' key' line'"
      "L' = L \<or> (\<exists>x. last L' = set_line key x) \<or> last L' = last L"
    using set_assignment_effect [OF assms(2) _ assms(3)] assms(1) unfolding editable_def by blast
  have "tidy L'" using L'(6) set_line_tidy [OF holds_ne [OF L'(3)]] assms(1) holds_ne [OF L'(3)]
    by (auto simp: editable_def tidy_def)
  then show ?thesis using L' unfolding editable_def keeps_def by blast
qed

lemma tidy_tool: "tidy (L @ tool_lines server_name tool approval)"
  unfolding tidy_def tool_lines_def
  by (auto simp: dumps_str_def py_space_def intro!: exI [of _ "''approval_mode = '' @ [CHR 0x22] @ concat (map dumps_char approval)"] exI [of _ "CHR 0x22"])

definition own_section :: "string \<Rightarrow> string \<Rightarrow> bool" where
  "own_section server_name sec \<longleftrightarrow> sec = ''mcp_servers.'' @ server_name \<or> sec = ''mcp_servers.'' @ server_name @ ''.env''"

lemma tool_step:
  assumes "editable L" "unbroken server_name" "unbroken tool"
  shows "\<exists>L'. ensure_tool_section (concat L) server_name tool approval = concat L' \<and> editable L' \<and> set L \<subseteq> set L'
    \<and> has_header (tool_section server_name tool) L' \<and> keeps (\<lambda>sec _. own_section server_name sec) L L'"
proof (cases "has_header (tool_section server_name tool) L")
  case True
  then show ?thesis using ensure_tool_lines assms(1) by (auto simp: editable_def keeps_def)
next
  case False
  let ?L = "L @ tool_lines server_name tool approval"
  have "editable ?L" using assms tool_lines_full tidy_tool by (auto simp: editable_def)
  moreover have "keeps (\<lambda>sec _. own_section server_name sec) L ?L"
    unfolding keeps_def own_section_def
  proof (intro allI impI)
    fix sec key line
    assume sec: "sec = ''mcp_servers.'' @ server_name \<or> sec = ''mcp_servers.'' @ server_name @ ''.env''" and k: "key_ok key"
      and held: "holds_setting L sec key line"
    have "\<not> is_header sec (rstrip_newlines (''['' @ tool_section server_name tool @ '']'' @ [LF]))"
      using sec tool_header_other [OF assms(2,3)] by metis
    then show "holds_setting ?L sec key line" by (rule holds_tool [OF held k holds_ne [OF held]])
  qed
  ultimately show ?thesis using False ensure_tool_lines [of L server_name tool approval] assms has_tool_self [OF assms(2,3)]
    by (intro exI [of _ ?L]) (auto simp: editable_def)
qed

abbreviation ensure_tools :: "string \<Rightarrow> (string \<times> string) list \<Rightarrow> string \<Rightarrow> string" where
  "ensure_tools server_name tools t \<equiv> fold (\<lambda>(tool, approval) t. ensure_tool_section t server_name tool approval) tools t"

lemma tools_steps:
  assumes "editable L" "unbroken server_name" "\<forall>x \<in> set tools. unbroken (fst x)"
  shows "\<exists>L'. ensure_tools server_name tools (concat L) = concat L' \<and> editable L' \<and> set L \<subseteq> set L'
    \<and> (\<forall>x \<in> set tools. has_header (tool_section server_name (fst x)) L') \<and> keeps (\<lambda>sec _. own_section server_name sec) L L'"
  using assms(1,3)
proof (induction tools arbitrary: L)
  case Nil
  then show ?case by (auto simp: keeps_def)
next
  case (Cons x tools)
  obtain tool approval where x: "x = (tool, approval)" by force
  obtain L1 where L1: "ensure_tool_section (concat L) server_name tool approval = concat L1" "editable L1" "set L \<subseteq> set L1"
      "has_header (tool_section server_name tool) L1" "keeps (\<lambda>sec _. own_section server_name sec) L L1"
    using tool_step [OF Cons.prems(1) assms(2), of tool approval] Cons.prems(2) x by auto
  obtain L2 where L2: "ensure_tools server_name tools (concat L1) = concat L2" "editable L2" "set L1 \<subseteq> set L2"
      "\<forall>x \<in> set tools. has_header (tool_section server_name (fst x)) L2" "keeps (\<lambda>sec _. own_section server_name sec) L1 L2"
    using Cons.IH [OF L1(2)] Cons.prems(2) by auto
  have "has_header (tool_section server_name tool) L2" using L1(4) L2(3) by (auto simp: has_header_def)
  then show ?case using L1 L2 x by (intro exI [of _ L2]) (auto simp: keeps_def)
qed

lemma tools_done:
  assumes "\<forall>l \<in> set L. full_line l" "\<forall>x \<in> set tools. has_header (tool_section server_name (fst x)) L"
  shows "ensure_tools server_name tools (concat L) = concat L"
  using assms(2)
  by (induction tools) (auto simp: ensure_tool_section_def header_found [OF assms(1)])

text \<open>A list of assignments, each with its section, key, value and whether an old one is kept.\<close>

fun assign_all :: "(string \<times> string \<times> setting \<times> bool) list \<Rightarrow> string \<Rightarrow> pyexc + string" where
  "assign_all [] t = Inr t"
| "assign_all ((sec, key, v, preserve) # as) t = bindr (set_assignment t sec key v preserve) (assign_all as)"

definition upgrade_assignments :: "string \<Rightarrow> string list \<Rightarrow> bool \<Rightarrow> (string \<times> string \<times> setting \<times> bool) list" where
  "upgrade_assignments server_name env_vars reset =
     (let server = ''mcp_servers.'' @ server_name; env = server @ ''.env'' in
      [(server, ''enabled_tools'', Texts default_tools, False), (server, ''env_vars'', Texts env_vars, False),
       (env, ''LONGRUN_HEARTBEAT_INITIAL_SEC'', Text ''0'', \<not> reset), (env, ''LONGRUN_MAX_ACTIVE_JOBS'', Text ''4'', True),
       (env, ''LONGRUN_SECRET_TTL_SEC'', Text ''300'', True), (env, ''LONGRUN_MAX_STDIN_SECRET_BYTES'', Text ''65536'', True)])"

lemma bindr_assoc: "bindr (bindr m f) g = bindr m (\<lambda>a. bindr (f a) g)"
  by (cases m) simp_all

lemma upgrade_edit_steps:
  "upgrade_edit server_name env_vars reset t =
     bindr (assign_all (upgrade_assignments server_name env_vars reset) t) (\<lambda>t. Inr (ensure_tools server_name tool_approvals t))"
  by (simp add: upgrade_edit_def upgrade_assignments_def Let_def env_defaults_def bindr_assoc)

lemma assignments_settle:
  assumes "editable L" "assign_all as (concat L) = Inr t" "\<forall>a \<in> set as. key_ok (fst (snd a))" "distinct (map (fst \<circ> snd) as)"
  shows "\<exists>L'. t = concat L' \<and> editable L' \<and> keeps (\<lambda>_ key. key \<notin> set (map (fst \<circ> snd) as)) L L'
    \<and> (\<forall>(sec, key, v, preserve) \<in> set as. \<exists>line. holds_setting L' sec key line \<and> (\<not> preserve \<longrightarrow> line = set_line key v))"
  using assms
proof (induction as arbitrary: L)
  case Nil
  then show ?case by (auto simp: keeps_def)
next
  case (Cons a as)
  obtain sec key v preserve where a: "a = (sec, key, v, preserve)" by (cases a)
  obtain t1 where t1: "set_assignment (concat L) sec key v preserve = Inr t1" "assign_all as t1 = Inr t"
    using Cons.prems(2) a by (auto simp: bindr_Inr)
  have key: "key_ok key" using Cons.prems(3) a by simp
  obtain L1 line where L1: "t1 = concat L1" "editable L1" "holds_setting L1 sec key line" "\<not> preserve \<longrightarrow> line = set_line key v"
      "keeps (\<lambda>_ key'. key' \<noteq> key) L L1"
    using assignment_step [OF Cons.prems(1) t1(1) key] by blast
  obtain L2 where L2: "t = concat L2" "editable L2" "keeps (\<lambda>_ key. key \<notin> set (map (fst \<circ> snd) as)) L1 L2"
      "\<forall>(sec, key, v, preserve) \<in> set as. \<exists>line. holds_setting L2 sec key line \<and> (\<not> preserve \<longrightarrow> line = set_line key v)"
    using Cons.IH [OF L1(2)] t1(2) Cons.prems(3,4) unfolding L1(1) by auto
  have "holds_setting L2 sec key line" using L2(3) L1(3) key Cons.prems(4) a unfolding keeps_def by auto
  moreover have "keeps (\<lambda>_ k. k \<notin> set (map (fst \<circ> snd) (a # as))) L L2" using L1(5) L2(3) a unfolding keeps_def by auto
  ultimately show ?case using L1(4) L2(1,2,4) a by (intro exI [of _ L2]) auto
qed

lemma assignments_done:
  assumes "\<forall>l \<in> set L. full_line l"
    "\<forall>(sec, key, v, preserve) \<in> set as. key_ok key \<and> (\<exists>line. holds_setting L sec key line \<and> (\<not> preserve \<longrightarrow> line = set_line key v))"
  shows "assign_all as (concat L) = Inr (concat L)"
  using assms(2)
proof (induction as)
  case (Cons a as)
  obtain sec key v preserve where a: "a = (sec, key, v, preserve)" by (cases a)
  then obtain line where "key_ok key" "holds_setting L sec key line" "\<not> preserve \<longrightarrow> line = set_line key v"
    using Cons.prems by auto
  then have "set_assignment (concat L) sec key v preserve = Inr (concat L)"
    using set_assignment_done [OF _ assms(1)] by blast
  then show ?case using Cons a by simp
qed simp

lemma upgrade_keys: "\<forall>a \<in> set (upgrade_assignments server_name env_vars reset).
    key_ok (fst (snd a)) \<and> own_section server_name (fst a)"
  "distinct (map (fst \<circ> snd) (upgrade_assignments server_name env_vars reset))"
  by (simp_all add: upgrade_assignments_def Let_def own_section_def key_ok_def py_space_def)

lemma upgrade_edit_again:
  assumes "editable L" "unbroken server_name" "upgrade_edit server_name env_vars reset (concat L) = Inr u"
  shows "upgrade_edit server_name env_vars reset u = Inr u"
proof -
  let ?as = "upgrade_assignments server_name env_vars reset"
  obtain t where t: "assign_all ?as (concat L) = Inr t" "u = ensure_tools server_name tool_approvals t"
    using assms(3) unfolding upgrade_edit_steps by (auto simp: bindr_Inr)
  obtain L1 where L1: "t = concat L1" "editable L1"
      "\<forall>(sec, key, v, preserve) \<in> set ?as. \<exists>line. holds_setting L1 sec key line \<and> (\<not> preserve \<longrightarrow> line = set_line key v)"
    using assignments_settle [OF assms(1) t(1)] upgrade_keys by blast
  have tools: "\<forall>x \<in> set tool_approvals. unbroken (fst x)" by (simp add: tool_approvals_def text_break_def)
  obtain L2 where L2: "u = concat L2" "editable L2" "keeps (\<lambda>sec _. own_section server_name sec) L1 L2"
      "\<forall>x \<in> set tool_approvals. has_header (tool_section server_name (fst x)) L2"
    using tools_steps [OF L1(2) assms(2) tools] t(2) L1(1) by auto
  have "\<forall>(sec, key, v, preserve) \<in> set ?as. key_ok key \<and> (\<exists>line. holds_setting L2 sec key line \<and> (\<not> preserve \<longrightarrow> line = set_line key v))"
    using L1(3) L2(3) upgrade_keys(1) [of server_name env_vars reset] unfolding keeps_def by fastforce
  then have "assign_all ?as (concat L2) = Inr (concat L2)" using assignments_done L2(2) by (auto simp: editable_def)
  moreover have "ensure_tools server_name tool_approvals (concat L2) = concat L2"
    using tools_done L2(2,4) by (auto simp: editable_def)
  ultimately show ?thesis unfolding upgrade_edit_steps L2(1) by simp
qed

text \<open>Texts that the theorems are about: ordinary line ends, and one newline at the end.\<close>

definition well_ended :: "string \<Rightarrow> bool" where
  "well_ended t \<longleftrightarrow> plain t \<and> (\<exists>u c. t = u @ [c, LF] \<and> \<not> py_space c)"

lemma well_ended_editable: "well_ended t \<Longrightarrow> \<exists>L. t = concat L \<and> editable L"
proof -
  assume t: "well_ended t"
  then obtain u c where u: "t = u @ [c, LF]" "\<not> py_space c" "plain t" by (auto simp: well_ended_def)
  then obtain L where L: "t = concat L" "\<forall>l \<in> set L. full_line l" using plain_lines [of t] by auto
  then have ne: "L \<noteq> []" using u by auto
  then obtain b where b: "last L = b @ [LF]" using L(2) by (metis full_line_def last_in_set)
  have "t = concat (butlast L) @ b @ [LF]" using L(1) b ne by (metis append_butlast_last_id concat_append concat.simps append_Nil2)
  then have e: "u @ [c] = concat (butlast L) @ b" using u(1) by simp
  have "b \<noteq> []"
  proof
    assume "b = []"
    then have "u @ [c] = concat (butlast L)" using e by simp
    then have "butlast L \<noteq> []" by auto
    then obtain b' where "last (butlast L) = b' @ [LF]" "last (butlast L) \<in> set L" using L(2) by (metis full_line_def in_set_butlastD last_in_set)
    then have "concat (butlast L) = concat (butlast (butlast L)) @ b' @ [LF]"
      using \<open>butlast L \<noteq> []\<close> by (metis append_butlast_last_id concat_append concat.simps append_Nil2)
    then have "c = LF" using \<open>u @ [c] = concat (butlast L)\<close> by simp
    then show False using u(2) by (simp add: py_space_def)
  qed
  then have "last b = c" using e by (metis last_appendR last_snoc)
  then have "last L = butlast b @ [c, LF]" using b \<open>b \<noteq> []\<close> by (metis append_butlast_last_id append_Cons append_Nil append_assoc)
  then show ?thesis using L ne u(2) unfolding editable_def tidy_def by blast
qed

section \<open>Writing\<close>

lemma write_config_result:
  assumes "write_config b fails part u s = (s', r)"
  shows "config_mode s' = config_mode s
    \<and> (config_text s' = config_text s \<or>
       config_text s' = u \<and> backups s' b = Some (config_text s, 0x180) \<and> backups_mode s' = Some 0x1C0)
    \<and> (temp_file s = None \<longrightarrow> fails Unlink_temp = None \<longrightarrow> temp_file s' = None)
    \<and> (\<forall>x. r = Inr x \<longrightarrow> config_text s' = u)"
  using assms
  by (simp add: write_config_def replace_config_def syscall_def and_then_def split: option.splits sum.splits prod.splits if_splits)
    auto

lemma replace_config_other:
  "replace_config b fails part u s = (s', r) \<Longrightarrow> b' \<noteq> b \<Longrightarrow> backups s' b' = backups s b'"
  by (auto simp: replace_config_def syscall_def and_then_def split: option.splits sum.splits prod.splits if_splits)

lemma write_config_other:
  "write_config b fails part u s = (s', r) \<Longrightarrow> b' \<noteq> b \<Longrightarrow> backups s' b' = backups s b'"
  by (auto simp: write_config_def syscall_def and_then_def split: option.splits sum.splits prod.splits if_splits
      dest: replace_config_other)

section \<open>What an upgrade changes\<close>

fun value_at :: "string list \<Rightarrow> json \<Rightarrow> json option" where
  "value_at [] v = Some v"
| "value_at (k # ks) v = (case subscript k v of None \<Rightarrow> None | Some w \<Rightarrow> value_at ks w)"

lemma subscript_at_key: "subscript k (at_key j f v) = (if k = j \<and> is_dict v then Some (f (jget j v)) else subscript k v)"
  by (cases v) (auto simp: subscript_def at_key_def)

lemma jget_at_key: "jget k (at_key j f v) = (if k = j \<and> is_dict v then f (jget j v) else jget k v)"
  by (cases v) (auto simp: at_key_def jfield_dict_set)

lemma value_at_at_key: "value_at (k # ks) (at_key j f v) = (if k = j \<and> is_dict v then value_at ks (f (jget j v)) else value_at (k # ks) v)"
  by (simp add: subscript_at_key)

lemma subscript_jget: "subscript k v = Some w \<Longrightarrow> jget k v = w \<and> is_dict v \<and> jhas k v"
  by (cases v) (auto simp: subscript_def jfield_def)

lemma at_key_dict [simp]: "is_dict (at_key k f v) = is_dict v" "is_dict (setdefault k d v) = is_dict v"
  by (cases v; simp add: at_key_def setdefault_def)+

lemma value_at_setdefaults: "k \<notin> fst ` set kvs \<Longrightarrow> value_at (k # ks) (fold (\<lambda>(j, w). setdefault j (g w)) kvs v) = value_at (k # ks) v"
proof (induction kvs arbitrary: v)
  case (Cons x kvs)
  then have "k \<noteq> fst x" "k \<notin> fst ` set kvs" by auto
  then have "value_at (k # ks) (setdefault (fst x) (g (snd x)) v) = value_at (k # ks) v"
    by (simp add: setdefault_def subscript_at_key)
  then show ?case using Cons.IH [OF \<open>k \<notin> fst ` set kvs\<close>, of "setdefault (fst x) (g (snd x)) v"] by (simp add: case_prod_beta)
qed simp

text \<open>The fields an upgrade is documented to touch.\<close>

definition upgrade_paths :: "string \<Rightarrow> string list list" where
  "upgrade_paths server_name =
     map (\<lambda>p. [''mcp_servers'', server_name] @ p)
       ([[''enabled_tools''], [''env_vars''], [''env'', ''LONGRUN_HEARTBEAT_INITIAL_SEC'']]
        @ map (\<lambda>(k, _). [''env'', k]) env_defaults @ map (\<lambda>(tool, _). [''tools'', tool]) tool_approvals)"

lemma value_at_upgraded_env:
  assumes "is_dict env" "k \<noteq> ''LONGRUN_HEARTBEAT_INITIAL_SEC''" "k \<notin> fst ` set env_defaults"
  shows "value_at (k # ks) (upgraded_env reset env) = value_at (k # ks) env"
proof -
  have "value_at (k # ks) (upgraded_env reset env) = value_at (k # ks)
      (if \<not> jhas ''LONGRUN_HEARTBEAT_INITIAL_SEC'' env \<or> reset then at_key ''LONGRUN_HEARTBEAT_INITIAL_SEC'' (\<lambda>_. JStr ''0'') env else env)"
    unfolding upgraded_env_def Let_def by (rule value_at_setdefaults [OF assms(3)])
  also have "\<dots> = value_at (k # ks) env" using assms(2) by (simp add: subscript_at_key)
  finally show ?thesis .
qed

lemma value_at_upgraded:
  assumes ok: "upgrade_checked server_name parsed = Inr env_vars"
    and apart: "\<forall>p \<in> set (upgrade_paths server_name). \<not> prefix p path \<and> \<not> prefix path p"
  shows "value_at path (upgraded server_name vs reset parsed) = value_at path parsed"
proof -
  obtain servers server env where sub: "subscript ''mcp_servers'' parsed = Some servers" "subscript server_name servers = Some server"
    "subscript ''env'' server = Some env" "is_dict server" "is_dict env"
    using ok by (auto simp: upgrade_checked_def bind_eq_Some_conv split: option.splits if_splits)
  note facts = subscript_jget [OF sub(1)] subscript_jget [OF sub(2)] subscript_jget [OF sub(3)]
  let ?pre = "[''mcp_servers'', server_name]"
  have in_paths: "\<not> prefix (?pre @ p) path \<and> \<not> prefix path (?pre @ p)"
    if "p \<in> {[''enabled_tools''], [''env_vars''], [''env'', ''LONGRUN_HEARTBEAT_INITIAL_SEC'']} \<union> (\<lambda>k. [''env'', k]) ` fst ` set env_defaults
      \<union> (\<lambda>k. [''tools'', k]) ` fst ` set tool_approvals" for p
    using apart that unfolding upgrade_paths_def by (force simp: image_iff)
  show ?thesis
  proof (cases "\<exists>q ks. path = ?pre @ q # ks")
    case False
    have "path \<noteq> []" "path \<noteq> [''mcp_servers'']" "path \<noteq> ?pre" using in_paths [of "[''env_vars'']"] by auto
    then obtain k ks where "path = k # ks" "k \<noteq> ''mcp_servers'' \<or> (\<exists>n ks'. ks = n # ks' \<and> n \<noteq> server_name)"
      using False by (metis append_Cons append_Nil list.exhaust)
    then show ?thesis using sub(1) facts by (auto simp: upgraded_def subscript_at_key)
  next
    case True
    then obtain q ks where path: "path = ?pre @ q # ks" by blast
    have step: "value_at path (upgraded server_name vs reset parsed) = value_at (q # ks) (upgraded_server vs reset server)"
      "value_at path parsed = value_at (q # ks) server"
      using sub facts path by (simp_all add: upgraded_def subscript_at_key)
    let ?srv = "at_key ''env'' (upgraded_env reset) (at_key ''env_vars'' (\<lambda>_. JArr (map JStr vs))
                 (at_key ''enabled_tools'' (\<lambda>_. JArr (map JStr default_tools)) server))"
    have unfold: "upgraded_server vs reset server = at_key ''tools''
        (fold (\<lambda>(tool, approval). setdefault tool (JObj [(''approval_mode'', JStr approval)])) tool_approvals) (setdefault ''tools'' (JObj []) ?srv)"
      by (simp add: upgraded_server_def Let_def)
    have q: "q \<noteq> ''enabled_tools''" "q \<noteq> ''env_vars''"
      using in_paths [of "[''enabled_tools'']"] in_paths [of "[''env_vars'']"] path by auto
    consider (env) "q = ''env''" | (tools) "q = ''tools''" | (other) "q \<noteq> ''env''" "q \<noteq> ''tools''" by blast
    then have "value_at (q # ks) (upgraded_server vs reset server) = value_at (q # ks) server"
    proof cases
      case env
      have e: "value_at (q # ks) (upgraded_server vs reset server) = value_at ks (upgraded_env reset env)"
        using env facts sub by (simp add: unfold subscript_at_key jget_at_key setdefault_def)
      have "ks \<noteq> []" using in_paths [of "[''env'', ''LONGRUN_HEARTBEAT_INITIAL_SEC'']"] path env by auto
      then obtain m ms where ks: "ks = m # ms" by (cases ks) auto
      have "m \<noteq> ''LONGRUN_HEARTBEAT_INITIAL_SEC''" "m \<notin> fst ` set env_defaults"
        using in_paths [of "[''env'', m]"] path env ks by auto
      then show ?thesis using e value_at_upgraded_env [OF sub(5)] ks env sub by simp
    next
      case tools
      have "ks \<noteq> []" using in_paths [of "[''tools'', ''start_job'']"] path tools by (auto simp: tool_approvals_def)
      then obtain m ms where ks: "ks = m # ms" by (cases ks) auto
      have m: "m \<notin> fst ` set tool_approvals" using in_paths [of "[''tools'', m]"] path tools ks by auto
      have t: "value_at (q # ks) (upgraded_server vs reset server) = value_at ks (jget ''tools'' (setdefault ''tools'' (JObj []) ?srv))"
        using tools facts value_at_setdefaults [OF m, of ms "\<lambda>a. JObj [(''approval_mode'', JStr a)]"] ks
        by (simp add: unfold subscript_at_key)
      show ?thesis
      proof (cases "subscript ''tools'' server")
        case None
        then have "\<not> jhas ''tools'' ?srv" using sub(4) by (cases server) (auto simp: subscript_def at_key_def)
        then have "jget ''tools'' (setdefault ''tools'' (JObj []) ?srv) = JObj []"
          using sub(4) by (cases server) (auto simp: setdefault_def at_key_def jfield_def)
        then show ?thesis using t None tools ks by (simp add: subscript_def)
      next
        case (Some w)
        then have "subscript ''tools'' ?srv = Some w" by (simp add: subscript_at_key)
        then have "jhas ''tools'' ?srv" "jget ''tools'' ?srv = w" using subscript_jget by blast+
        then show ?thesis using t Some tools by (simp add: setdefault_def)
      qed
    next
      case other
      then show ?thesis using q by (simp add: unfold subscript_at_key setdefault_def)
    qed
    then show ?thesis using step by simp
  qed
qed

end
