(* ===== verification/Config_Safe.thy ===== *)
theory Config_Safe
  imports Config_Claims
begin

text \<open>The properties of whole runs of \<open>upgrade-codex.py\<close>: what they change, and that one is enough.\<close>

section \<open>An upgrade\<close>

lemma upgrade_run_cases:
  assumes "upgrade_run loads found server_name reset dry_run b fails part s = (s', r)"
  shows "(s' = s \<and> (\<forall>x. r = Inr x \<longrightarrow> x = Unchanged \<or> x = Dry_run)) \<or>
    (\<exists>parsed env_vars updated P r'. \<not> dry_run
       \<and> loads (universal_newlines (config_text s)) = Inr parsed \<and> upgrade_checked server_name parsed = Inr env_vars
       \<and> upgrade_edit server_name env_vars reset (universal_newlines (config_text s)) = Inr updated
       \<and> loads updated = Inr P \<and> py_eq P (upgraded server_name env_vars reset parsed)
       \<and> updated \<noteq> universal_newlines (config_text s)
       \<and> write_config b fails part updated s = (s', r') \<and> r = map_sum id Updated r')"
proof -
  let ?t = "universal_newlines (config_text s)"
  let ?all = "bindr (read_config found loads s) (\<lambda>(original, parsed).
           bindr (upgrade_checked server_name parsed) (\<lambda>env_vars.
           bindr (upgrade_edit server_name env_vars reset original) (\<lambda>updated.
           bindr (loads updated) (\<lambda>updated_parsed.
           if \<not> tools_ok server_name parsed then Inl (AttributeError ''setdefault'')
           else if \<not> py_eq updated_parsed (upgraded server_name env_vars reset parsed)
           then Inl (SystemExit ''refusing update because fields outside the documented longrun upgrade would change'')
           else Inr (original, updated)))))"
  show ?thesis
  proof (cases ?all)
    case (Inl e)
    then show ?thesis using assms by (auto simp: upgrade_run_def)
  next
    case (Inr x)
    obtain original updated where x: "x = (original, updated)" by (cases x)
    obtain parsed env_vars P where all: "read_config found loads s = Inr (original, parsed)" "upgrade_checked server_name parsed = Inr env_vars"
      "upgrade_edit server_name env_vars reset original = Inr updated" "loads updated = Inr P"
      "py_eq P (upgraded server_name env_vars reset parsed)"
      using Inr x by (auto simp: bindr_Inr split: if_splits)
    have o: "original = ?t" "loads ?t = Inr parsed" using all(1) by (auto simp: read_config_def bindr_Inr Let_def split: if_splits)
    obtain w wr where w: "write_config b fails part updated s = (w, wr)" by force
    have run: "(if updated = original then (s, Inr Unchanged) else if dry_run then (s, Inr Dry_run)
        else and_then (w, wr) (\<lambda>b s. (s, Inr (Updated b)))) = (s', r)"
      using assms unfolding upgrade_run_def Inr x sum.case prod.case w .
    show ?thesis
    proof (cases "updated = original \<or> dry_run")
      case True
      then show ?thesis using run by (auto split: if_splits)
    next
      case False
      then have "s' = w \<and> r = map_sum id Updated wr" using run by (cases wr) auto
      then show ?thesis using False all o w by blast
    qed
  qed
qed

text \<open>
  C20. An upgrade is safe: whatever fails on the way, the configuration is left as it was, or
  as a text whose meaning differs from the old one only at the documented fields, as far as
  the parser can tell; then a private backup holds the old text. A dry run, or one with
  nothing to do, changes nothing at all, no other backup is touched, and no temporary file is
  left.
\<close>

theorem upgrade_safe:
  assumes "upgrade_run loads found server_name reset dry_run b fails part s = (s', r)"
  shows "(dry_run \<or> r = Inr Unchanged \<or> r = Inr Dry_run \<longrightarrow> s' = s)
    \<and> config_mode s' = config_mode s \<and> (\<forall>b'. b' \<noteq> b \<longrightarrow> backups s' b' = backups s b')
    \<and> (temp_file s = None \<longrightarrow> fails Unlink_temp = None \<longrightarrow> temp_file s' = None)
    \<and> (config_text s' \<noteq> config_text s \<longrightarrow> \<not> dry_run
        \<and> backups s' b = Some (config_text s, 0x180) \<and> backups_mode s' = Some 0x1C0
        \<and> (\<exists>parsed P E. loads (universal_newlines (config_text s)) = Inr parsed \<and> loads (config_text s') = Inr P \<and> py_eq P E
            \<and> (\<forall>path. (\<forall>p \<in> set (upgrade_paths server_name). \<not> prefix p path \<and> \<not> prefix path p) \<longrightarrow> value_at path E = value_at path parsed)))"
  using upgrade_run_cases [OF assms]
proof (elim disjE exE conjE)
  fix parsed env_vars updated P r'
  assume parsed: "loads (universal_newlines (config_text s)) = Inr parsed" "upgrade_checked server_name parsed = Inr env_vars"
    and P: "loads updated = Inr P" "py_eq P (upgraded server_name env_vars reset parsed)"
    and w: "write_config b fails part updated s = (s', r')" and dry: "\<not> dry_run" and r: "r = map_sum id Updated r'"
  have frame: "\<forall>path. (\<forall>p \<in> set (upgrade_paths server_name). \<not> prefix p path \<and> \<not> prefix path p) \<longrightarrow>
      value_at path (upgraded server_name env_vars reset parsed) = value_at path parsed"
    using value_at_upgraded [OF parsed(2)] by blast
  have "r \<noteq> Inr Unchanged" "r \<noteq> Inr Dry_run" using r by (cases r'; simp)+
  then show ?thesis using write_config_result [OF w] write_config_other [OF w] parsed(1) P frame dry by auto
qed auto

text \<open>Dictionaries have distinct keys.\<close>

function keyed :: "json \<Rightarrow> bool" where
  "keyed (JArr xs) = list_all keyed xs"
| "keyed (JObj kvs) = (distinct (map fst kvs) \<and> list_all (\<lambda>(k, v). keyed v) kvs)"
| "keyed JNull = True"
| "keyed (JBool b) = True"
| "keyed (JInt i) = True"
| "keyed (JFloat m k) = True"
| "keyed (JStr s) = True"
  by pat_completeness auto

termination keyed
  by (relation "measure size") (auto dest: size_elem size_obj_elem)

definition config_lines :: "string list \<Rightarrow> string list" where
  "config_lines extra =
     [''[mcp_servers.l]'' @ [LF], ''x = 1'' @ [LF], set_line ''enabled_tools'' (Texts default_tools),
      set_line ''env_vars'' (Texts [''LONGRUN_BRIDGE_SOCKET'']), ''[mcp_servers.l.env]'' @ [LF],
      set_line ''LONGRUN_HEARTBEAT_INITIAL_SEC'' (Text ''60''), set_line ''LONGRUN_MAX_ACTIVE_JOBS'' (Text ''4''),
      set_line ''LONGRUN_SECRET_TTL_SEC'' (Text ''300'')] @ extra
     @ concat (map (\<lambda>(tool, approval). tl (tool_lines ''l'' tool approval)) tool_approvals)"

definition old_config :: string where
  "old_config = concat (config_lines [])"

definition new_config :: string where
  "new_config = concat (config_lines [set_line ''LONGRUN_MAX_STDIN_SECRET_BYTES'' (Text ''65536'')])"

definition old_parsed :: json where
  "old_parsed = JObj [(''mcp_servers'', JObj [(''l'', JObj [(''x'', JInt 1), (''enabled_tools'', JArr (map JStr default_tools)),
     (''env_vars'', JArr [JStr ''LONGRUN_BRIDGE_SOCKET'']),
     (''env'', JObj [(''LONGRUN_HEARTBEAT_INITIAL_SEC'', JStr ''60''), (''LONGRUN_MAX_ACTIVE_JOBS'', JStr ''4''),
                   (''LONGRUN_SECRET_TTL_SEC'', JStr ''300'')]),
     (''tools'', JObj (map (\<lambda>(tool, approval). (tool, JObj [(''approval_mode'', JStr approval)])) tool_approvals))])])]"

definition config_loads :: "string \<Rightarrow> pyexc + json" where
  "config_loads t = Inr (if t = old_config then old_parsed
     else upgraded ''l'' [''LONGRUN_BRIDGE_SOCKET''] False old_parsed)"

definition config_files :: "string \<Rightarrow> config_fs" where
  "config_files t = \<lparr>config_text = t, config_mode = 0x1A4, backups_mode = None, backups = Map.empty, temp_file = None,
     umask_mode = 0x1A4\<rparr>"

definition upgrade_demo :: "config_fs \<Rightarrow> (config_fs, script_end) outcome" where
  "upgrade_demo s = upgrade_run config_loads (Inr True) ''l'' False False ''old'' (\<lambda>_. None) [] s"

lemma config_lines_full: "\<forall>l \<in> set (config_lines []). full_line l"
proof -
  have tools: "\<forall>l \<in> set (tl (tool_lines ''l'' tool approval)). full_line l" if "unbroken tool" for tool approval
    using tool_lines_full [of "''l''" tool approval] that by (auto simp: text_break_def tool_lines_def)
  have "list_all (\<lambda>(tool, approval). unbroken tool) tool_approvals" by (simp add: tool_approvals_def text_break_def)
  then have "\<forall>l \<in> set (concat (map (\<lambda>(tool, approval). tl (tool_lines ''l'' tool approval)) tool_approvals)). full_line l"
    using tools by (fastforce simp: list_all_iff)
  moreover have "full_line (''[mcp_servers.l]'' @ [LF])" "full_line (''x = 1'' @ [LF])" "full_line (''[mcp_servers.l.env]'' @ [LF])"
    unfolding full_line_unbroken by (simp_all add: text_break_def)
  moreover have "key_ok ''enabled_tools''" "key_ok ''env_vars''" "key_ok ''LONGRUN_HEARTBEAT_INITIAL_SEC''"
    "key_ok ''LONGRUN_MAX_ACTIVE_JOBS''" "key_ok ''LONGRUN_SECRET_TTL_SEC''" by (simp_all add: key_ok_def py_space_def)
  ultimately show ?thesis unfolding config_lines_def using set_line_full by simp
qed

lemma config_tables:
  "filter (chunk_is ''mcp_servers.l'') (tables (config_lines [])) = [take 4 (config_lines [])]"
  "filter (chunk_is ''mcp_servers.l.env'') (tables (config_lines [])) = [take 4 (drop 4 (config_lines []))]"
  by code_simp+

lemma config_assigned:
  "filter (is_assignment ''enabled_tools'') (tl (take 4 (config_lines []))) = [set_line ''enabled_tools'' (Texts default_tools)]"
  "filter (is_assignment ''env_vars'') (tl (take 4 (config_lines []))) = [set_line ''env_vars'' (Texts [''LONGRUN_BRIDGE_SOCKET''])]"
  "filter (is_assignment ''LONGRUN_HEARTBEAT_INITIAL_SEC'') (tl (take 4 (drop 4 (config_lines [])))) =
     [set_line ''LONGRUN_HEARTBEAT_INITIAL_SEC'' (Text ''60'')]"
  "filter (is_assignment ''LONGRUN_MAX_ACTIVE_JOBS'') (tl (take 4 (drop 4 (config_lines [])))) =
     [set_line ''LONGRUN_MAX_ACTIVE_JOBS'' (Text ''4'')]"
  "filter (is_assignment ''LONGRUN_SECRET_TTL_SEC'') (tl (take 4 (drop 4 (config_lines [])))) =
     [set_line ''LONGRUN_SECRET_TTL_SEC'' (Text ''300'')]"
  by code_simp+

lemma holds_settingI:
  "filter (chunk_is sec) (tables L) = [c] \<Longrightarrow> filter (is_assignment key) (tl c) = [line] \<Longrightarrow> holds_setting L sec key line"
  by (simp add: holds_setting_def)

lemma config_keys: "key_ok ''enabled_tools''" "key_ok ''env_vars''" "key_ok ''LONGRUN_HEARTBEAT_INITIAL_SEC''"
  "key_ok ''LONGRUN_MAX_ACTIVE_JOBS''" "key_ok ''LONGRUN_SECRET_TTL_SEC''" "key_ok ''LONGRUN_MAX_STDIN_SECRET_BYTES''"
  by (simp_all add: key_ok_def py_space_def)

lemma upgrade_demo_edits:
  "set_assignment old_config ''mcp_servers.l'' ''enabled_tools'' (Texts default_tools) False = Inr old_config"
  "set_assignment old_config ''mcp_servers.l'' ''env_vars'' (Texts [''LONGRUN_BRIDGE_SOCKET'']) False = Inr old_config"
  "set_assignment old_config ''mcp_servers.l.env'' ''LONGRUN_HEARTBEAT_INITIAL_SEC'' (Text ''0'') True = Inr old_config"
  "set_assignment old_config ''mcp_servers.l.env'' ''LONGRUN_MAX_ACTIVE_JOBS'' (Text ''4'') True = Inr old_config"
  "set_assignment old_config ''mcp_servers.l.env'' ''LONGRUN_SECRET_TTL_SEC'' (Text ''300'') True = Inr old_config"
proof -
  note held = set_assignment_done [OF holds_settingI [OF config_tables(1)] config_lines_full]
    set_assignment_done [OF holds_settingI [OF config_tables(2)] config_lines_full]
  show "set_assignment old_config ''mcp_servers.l'' ''enabled_tools'' (Texts default_tools) False = Inr old_config"
    unfolding old_config_def by (rule held(1) [OF config_assigned(1)]) (simp_all add: config_keys)
  show "set_assignment old_config ''mcp_servers.l'' ''env_vars'' (Texts [''LONGRUN_BRIDGE_SOCKET'']) False = Inr old_config"
    unfolding old_config_def by (rule held(1) [OF config_assigned(2)]) (simp_all add: config_keys)
  show "set_assignment old_config ''mcp_servers.l.env'' ''LONGRUN_HEARTBEAT_INITIAL_SEC'' (Text ''0'') True = Inr old_config"
    unfolding old_config_def by (rule held(2) [OF config_assigned(3)]) (simp_all add: config_keys)
  show "set_assignment old_config ''mcp_servers.l.env'' ''LONGRUN_MAX_ACTIVE_JOBS'' (Text ''4'') True = Inr old_config"
    unfolding old_config_def by (rule held(2) [OF config_assigned(4)]) (simp_all add: config_keys)
  show "set_assignment old_config ''mcp_servers.l.env'' ''LONGRUN_SECRET_TTL_SEC'' (Text ''300'') True = Inr old_config"
    unfolding old_config_def by (rule held(2) [OF config_assigned(5)]) (simp_all add: config_keys)
qed

text \<open>The one assignment that is missing comes at the end of its table.\<close>

lemma config_lines_split:
  "config_lines extra = take 4 (config_lines []) @ (''[mcp_servers.l.env]'' @ [LF])
     # (tl (take 4 (drop 4 (config_lines []))) @ extra) @ drop 8 (config_lines [])"
  by (simp add: config_lines_def)

lemma config_section:
  "at_section ''mcp_servers.l.env'' (take 4 (config_lines [])) (''[mcp_servers.l.env]'' @ [LF])
     (tl (take 4 (drop 4 (config_lines [])))) (drop 8 (config_lines []))"
  by code_simp

lemma config_lines_tidy: "tidy (config_lines [])"
proof -
  have "last (config_lines []) = (''approval_mode = '' @ [CHR 0x22] @ ''prompt'') @ [CHR 0x22, LF]" "config_lines [] \<noteq> []"
    by (simp_all add: config_lines_def tool_approvals_def tool_lines_def dumps_str_def dumps_char_def)
  moreover have "\<not> py_space (CHR 0x22)" by (simp add: py_space_def)
  ultimately show ?thesis unfolding tidy_def by blast
qed

lemma full_lines_plain: "\<forall>l \<in> set L. full_line l \<Longrightarrow> plain (concat L)"
  unfolding plain_def full_line_def by fastforce

lemma editable_well_ended: "editable L \<Longrightarrow> well_ended (concat L)"
proof -
  assume "editable L"
  then obtain b c where b: "last L = b @ [c, LF]" "\<not> py_space c" "L \<noteq> []" and "plain (concat L)"
    using full_lines_plain by (auto simp: editable_def tidy_def)
  moreover have "concat L = (concat (butlast L) @ b) @ [c, LF]"
    using b by (metis append_butlast_last_id append_assoc concat_append concat.simps append_Nil2)
  ultimately show "well_ended (concat L)" unfolding well_ended_def by blast
qed

lemma upgrade_demo_insert:
  "set_assignment old_config ''mcp_servers.l.env'' ''LONGRUN_MAX_STDIN_SECRET_BYTES'' (Text ''65536'') True = Inr new_config"
proof -
  have none: "filter (is_assignment ''LONGRUN_MAX_STDIN_SECRET_BYTES'') (tl (take 4 (drop 4 (config_lines [])))) = []" by code_simp
  have old: "config_lines [] = take 4 (config_lines []) @ (''[mcp_servers.l.env]'' @ [LF])
     # tl (take 4 (drop 4 (config_lines []))) @ drop 8 (config_lines [])"
    using config_lines_split [of "[]"] by simp
  have full: "\<forall>l \<in> set (take 4 (config_lines []) @ (''[mcp_servers.l.env]'' @ [LF])
     # tl (take 4 (drop 4 (config_lines []))) @ drop 8 (config_lines [])). full_line l"
    using config_lines_full unfolding old [symmetric] .
  have key: "\<forall>c \<in> set ''LONGRUN_MAX_STDIN_SECRET_BYTES''. \<not> text_break c" by (simp add: text_break_def)
  show ?thesis
    using set_assignment_at [OF config_section full key, of "Text ''65536''" True] none
    unfolding old [symmetric] old_config_def [symmetric]
    by (simp only: edit_body_def if_True filter.simps list.size le0 simp_thms new_config_def config_lines_split [of "[set_line _ _]"] append.simps append_assoc)
qed

lemma upgrade_demo_texts: "new_config \<noteq> old_config" "universal_newlines old_config = old_config" "universal_newlines new_config = new_config"
proof -
  have "length new_config \<noteq> length old_config" by (simp add: new_config_def old_config_def config_lines_def set_line_def)
  then show "new_config \<noteq> old_config" by metis
  have full: "\<forall>l \<in> set (config_lines [set_line ''LONGRUN_MAX_STDIN_SECRET_BYTES'' (Text ''65536'')]). full_line l"
    using config_lines_full set_line_full [OF config_keys(6)] by (auto simp: config_lines_def)
  show "universal_newlines old_config = old_config" "universal_newlines new_config = new_config"
    unfolding old_config_def new_config_def using full_lines_plain config_lines_full full by (blast intro: universal_newlines_plain)+
qed

lemma upgrade_demo_tools: "ensure_tools ''l'' tool_approvals new_config = new_config"
proof -
  have full: "\<forall>l \<in> set (config_lines [set_line ''LONGRUN_MAX_STDIN_SECRET_BYTES'' (Text ''65536'')]). full_line l"
    using config_lines_full set_line_full [OF config_keys(6)] by (auto simp: config_lines_def)
  have "unbroken (fst x)" if "x \<in> set tool_approvals" for x
    using that by (auto simp: tool_approvals_def text_break_def)
  then have "has_header (tool_section ''l'' (fst x)) (config_lines extra)" if x: "x \<in> set tool_approvals" for x extra
  proof -
    have "has_header (tool_section ''l'' (fst x)) ([] @ tool_lines ''l'' (fst x) (snd x))"
      by (rule has_tool_self) (use x \<open>\<And>x. x \<in> set tool_approvals \<Longrightarrow> unbroken (fst x)\<close> in \<open>simp_all add: text_break_def\<close>)
    then obtain l where l: "l \<in> set (tool_lines ''l'' (fst x) (snd x))" "is_header (tool_section ''l'' (fst x)) (butlast l)"
      unfolding has_header_def append_Nil by blast
    have "l \<noteq> [LF]" using l(2) by (auto simp: is_header_def lstrip_def)
    then have "l \<in> set (tl (tool_lines ''l'' (fst x) (snd x)))" using l(1) by (simp add: tool_lines_def)
    then have "l \<in> set (concat (map (\<lambda>(tool, approval). tl (tool_lines ''l'' tool approval)) tool_approvals))"
      using x by (force simp: case_prod_beta)
    then show ?thesis using l(2) unfolding config_lines_def has_header_def set_append by blast
  qed
  then show ?thesis unfolding new_config_def by (intro tools_done [OF full]) blast
qed

lemma upgrade_demo_parsed:
  "upgrade_checked ''l'' old_parsed = Inr [''LONGRUN_BRIDGE_SOCKET'']" "tools_ok ''l'' old_parsed"
  "py_eq (upgraded ''l'' [''LONGRUN_BRIDGE_SOCKET''] False old_parsed) (upgraded ''l'' [''LONGRUN_BRIDGE_SOCKET''] False old_parsed)"
  "keyed old_parsed \<and> keyed (upgraded ''l'' [''LONGRUN_BRIDGE_SOCKET''] False old_parsed)"
  by code_simp+

lemma upgrade_demo_edit: "upgrade_edit ''l'' [''LONGRUN_BRIDGE_SOCKET''] False old_config = Inr new_config"
  unfolding upgrade_edit_steps using upgrade_demo_edits upgrade_demo_insert upgrade_demo_tools
  by (simp add: upgrade_assignments_def Let_def)

lemma upgrade_demo_ends: "snd (upgrade_demo (config_files old_config)) = Inr (Updated ''old'')
    \<and> config_text (fst (upgrade_demo (config_files old_config))) = new_config"
  by (simp add: upgrade_demo_def upgrade_run_def read_config_def config_files_def config_loads_def upgrade_demo_texts
      upgrade_demo_parsed upgrade_demo_edit write_config_def replace_config_def syscall_def)

theorem upgrade_safe_witness:
  "\<exists>s'. upgrade_demo (config_files old_config) = (s', Inr (Updated ''old'')) \<and> config_text s' \<noteq> old_config
     \<and> backups s' ''old'' = Some (old_config, 0x180) \<and> temp_file s' = None
     \<and> (\<exists>P E. config_loads (config_text s') = Inr P \<and> py_eq P E \<and> value_at [''mcp_servers'', ''l'', ''x''] E = Some (JInt 1))"
proof -
  obtain s' where s': "upgrade_demo (config_files old_config) = (s', Inr (Updated ''old''))" "config_text s' \<noteq> old_config"
    using upgrade_demo_ends upgrade_demo_texts(1) by (cases "upgrade_demo (config_files old_config)") auto
  have apart: "\<forall>p \<in> set (upgrade_paths ''l''). \<not> prefix p [''mcp_servers'', ''l'', ''x''] \<and> \<not> prefix [''mcp_servers'', ''l'', ''x''] p"
    by (simp add: upgrade_paths_def env_defaults_def tool_approvals_def)
  have old: "value_at [''mcp_servers'', ''l'', ''x''] old_parsed = Some (JInt 1)" by code_simp
  note u = upgrade_demo_texts(2)
  have c: "config_text (config_files old_config) = old_config" "temp_file (config_files old_config) = None"
    by (simp_all add: config_files_def)
  note safe = upgrade_safe [OF s'(1) [unfolded upgrade_demo_def], unfolded c u]
  then obtain parsed P E where E: "config_loads old_config = Inr parsed" "config_loads (config_text s') = Inr P" "py_eq P E"
    "value_at [''mcp_servers'', ''l'', ''x''] E = value_at [''mcp_servers'', ''l'', ''x''] parsed"
    using s'(2) apart by blast
  have "parsed = old_parsed" using E(1) by (simp add: config_loads_def)
  then show ?thesis using safe s' E old by auto
qed

section \<open>A second upgrade\<close>

lemma py_eq_lookup:
  assumes "py_eq P E" "keyed P" "subscript k E = Some w"
  shows "\<exists>v. subscript k P = Some v \<and> py_eq v w \<and> keyed v"
proof -
  obtain ys where E: "E = JObj ys" "map_of ys k = Some w" using assms(3) by (cases E) (auto simp: subscript_def)
  then obtain xs where P: "P = JObj xs" using assms(1) by (cases P) auto
  have len: "length xs = length ys" and sub: "\<And>j v. (j, v) \<in> set xs \<Longrightarrow> \<exists>w. map_of ys j = Some w \<and> py_eq v w"
    using assms(1) by (auto simp: E(1) P list_all_iff split: option.splits)
  have dist: "distinct (map fst xs)" using assms(2) P by simp
  have "fst ` set xs \<subseteq> fst ` set ys" using sub map_of_SomeD by force
  moreover have "card (fst ` set ys) \<le> card (fst ` set xs)"
    using dist len distinct_card [OF dist] card_length [of "map fst ys"] by simp
  ultimately have "fst ` set xs = fst ` set ys" by (simp add: card_seteq)
  then have "k \<in> fst ` set xs" using E(2) by (metis domI dom_map_of_conv_image_fst)
  then obtain v where v: "(k, v) \<in> set xs" by auto
  then have "map_of xs k = Some v" using dist by simp
  moreover have "py_eq v w" using sub [OF v] E(2) by simp
  moreover have "keyed v" using assms(2) v P by (auto simp: list_all_iff)
  ultimately show ?thesis using P by (simp add: subscript_def)
qed

lemma py_eq_strings: "py_eq v (JArr (map JStr ss)) \<Longrightarrow> v = JArr (map JStr ss)"
proof -
  assume e: "py_eq v (JArr (map JStr ss))"
  then obtain xs where v: "v = JArr xs" by (cases v) auto
  have s: "py_eq x (JStr t) \<Longrightarrow> x = JStr t" for x t by (cases x) auto
  have "xs = map JStr ss"
    using e unfolding v
    by (auto simp: list_all_length intro!: nth_equalityI s)
  then show ?thesis using v by simp
qed

lemma str_items_map [simp]: "str_items (map JStr ss) = Some ss"
  by (induction ss) auto

lemma upgrade_checked_again:
  assumes first: "upgrade_checked server_name parsed = Inr env_vars" and eq: "py_eq P (upgraded server_name env_vars reset parsed)"
    and keyed: "keyed P" and again: "upgrade_checked server_name P = Inr env_vars'"
  shows "env_vars' = env_vars"
proof -
  obtain servers server env where sub: "subscript ''mcp_servers'' parsed = Some servers" "subscript server_name servers = Some server"
    "subscript ''env'' server = Some env" "is_dict server" "is_dict env"
    using first by (auto simp: upgrade_checked_def bind_eq_Some_conv split: option.splits if_splits)
  note facts = subscript_jget [OF sub(1)] subscript_jget [OF sub(2)] subscript_jget [OF sub(3)]
  have bridge: "''LONGRUN_BRIDGE_SOCKET'' \<in> set env_vars"
    using first by (auto simp: upgrade_checked_def split: option.splits if_splits json.splits)
  let ?E = "upgraded server_name env_vars reset parsed"
  let ?servers = "at_key server_name (upgraded_server env_vars reset) servers"
  have E: "subscript ''mcp_servers'' ?E = Some ?servers" "subscript server_name ?servers = Some (upgraded_server env_vars reset server)"
    "subscript ''env_vars'' (upgraded_server env_vars reset server) = Some (JArr (map JStr env_vars))"
    using facts sub by (simp_all add: upgraded_def subscript_at_key upgraded_server_def Let_def setdefault_def)
  obtain servers' where s1: "subscript ''mcp_servers'' P = Some servers'" "py_eq servers' ?servers" "keyed servers'"
    using py_eq_lookup [OF eq keyed E(1)] by blast
  obtain server' where s2: "subscript server_name servers' = Some server'" "py_eq server' (upgraded_server env_vars reset server)" "keyed server'"
    using py_eq_lookup [OF s1(2,3) E(2)] by blast
  obtain v where "subscript ''env_vars'' server' = Some v" "py_eq v (JArr (map JStr env_vars))"
    using py_eq_lookup [OF s2(2,3) E(3)] by blast
  then have "subscript ''env_vars'' server' = Some (JArr (map JStr env_vars))" using py_eq_strings by blast
  then have "jget_default ''env_vars'' (JArr []) server' = JArr (map JStr env_vars)"
    using subscript_jget by (simp add: jget_default_def)
  then show ?thesis using again s1(1) s2(1) bridge
    by (auto simp: upgrade_checked_def split: option.splits if_splits)
qed

text \<open>
  C32. An upgrade is not needed twice: after one that wrote the file, another with the same
  options leaves everything as it is, backups included. The configuration is an ordinary text
  that ends in one newline, and the parser gives dictionaries with distinct keys.
\<close>

theorem upgrade_once:
  assumes run: "upgrade_run loads found server_name reset dry_run b fails part s = (s1, Inr (Updated b'))"
    and ended: "well_ended (config_text s)" and name: "unbroken server_name"
    and parser: "\<And>t v. loads t = Inr v \<Longrightarrow> keyed v"
    and again: "upgrade_run loads found' server_name reset dry_run' b2 fails' part' s1 = (s2, r)"
  shows "s2 = s1 \<and> (\<forall>x. r = Inr x \<longrightarrow> x = Unchanged)"
proof -
  let ?t = "config_text s"
  have plain: "universal_newlines ?t = ?t" using ended universal_newlines_plain by (auto simp: well_ended_def)
  obtain parsed env_vars updated P r' where first: "upgrade_checked server_name parsed = Inr env_vars"
    "upgrade_edit server_name env_vars reset ?t = Inr updated" "loads updated = Inr P"
    "py_eq P (upgraded server_name env_vars reset parsed)" "write_config b fails part updated s = (s1, r')"
    "Inr (Updated b') = map_sum id Updated r'"
    using upgrade_run_cases [OF run, unfolded plain] by blast
  then obtain x where "r' = Inr x" by (cases r') auto
  then have written: "config_text s1 = updated" "universal_newlines updated = updated"
    using first(5) write_config_result [OF first(5)]
    by (auto simp: write_config_def and_then_def split: prod.splits sum.splits if_splits)
  obtain L where L: "?t = concat L" "editable L" using well_ended_editable [OF ended] by blast
  have edit: "upgrade_edit server_name env_vars reset updated = Inr updated"
    using upgrade_edit_again [OF L(2) name] first(2) L(1) by simp
  have "upgrade_checked server_name P = Inr env_vars' \<Longrightarrow> env_vars' = env_vars" for env_vars'
    by (rule upgrade_checked_again [OF first(1,4) parser [OF first(3)]])
  then show ?thesis using again written edit first(3)
    by (auto simp: upgrade_run_def read_config_def bindr_def Let_def split: sum.splits if_splits prod.splits)
qed

theorem upgrade_once_witness:
  "\<exists>s1 s2 r. upgrade_demo (config_files old_config) = (s1, Inr (Updated ''old'')) \<and> config_text s1 \<noteq> old_config
     \<and> upgrade_demo s1 = (s2, r) \<and> s2 = s1"
proof -
  obtain s1 where s1: "upgrade_demo (config_files old_config) = (s1, Inr (Updated ''old''))" "config_text s1 \<noteq> old_config"
    using upgrade_demo_ends upgrade_demo_texts(1) by (cases "upgrade_demo (config_files old_config)") auto
  obtain s2 r where s2: "upgrade_demo s1 = (s2, r)" by force
  have ended: "well_ended (config_text (config_files old_config))"
    using config_lines_full config_lines_tidy unfolding config_files_def old_config_def
    by (simp add: editable_well_ended editable_def)
  have keyed: "keyed v" if "config_loads t = Inr v" for t v
    using that upgrade_demo_parsed(4) by (auto simp: config_loads_def split: if_splits)
  show ?thesis using upgrade_once [OF s1(1) [unfolded upgrade_demo_def] ended _ keyed s2 [unfolded upgrade_demo_def]] s1 s2
    by (auto simp: text_break_def)
qed

section \<open>A file without a last newline\<close>

text \<open>
  An assignment can end up on the line of another: when the table is the last one, the key
  is new and the text does not end in a newline, the assignment is written right behind the
  last line, which no parser accepts.
\<close>

theorem assignment_glued:
  assumes bounds: "section_bounds (keep_lines t) sec = Inr (start, length (keep_lines t))"
    and new: "filter (\<lambda>i. is_assignment key (keep_lines t ! i)) [Suc start..<length (keep_lines t)] = []"
    and unended: "t \<noteq> []" "last t \<noteq> LF"
  shows "set_assignment t sec key v preserve = Inr (t @ key @ '' = '' @ render_value v @ [LF])
    \<and> (\<exists>line c. t @ key @ '' = '' @ render_value v @ [LF] = butlast t @ c # line \<and> c \<noteq> LF \<and> line = set_line key v)"
proof -
  have "set_assignment t sec key v preserve = Inr (t @ key @ '' = '' @ render_value v @ [LF])"
    unfolding set_assignment_def Let_def bounds bindr_simps prod.case new by simp
  moreover have "t @ key @ '' = '' @ render_value v @ [LF] = butlast t @ last t # set_line key v"
    using unended(1) by (metis append_Cons append_Nil append_assoc append_butlast_last_id set_line_def)
  ultimately show ?thesis using unended(2) by blast
qed

theorem assignment_glued_witness:
  "set_assignment (''[s]'' @ [LF] @ ''A = 1'') ''s'' ''B'' (Text ''4'') True =
     Inr (''[s]'' @ [LF] @ ''A = 1B = '' @ dumps_str ''4'' @ [LF])"
proof -
  let ?t = "''[s]'' @ [LF] @ ''A = 1''"
  have lines: "keep_lines ?t = [''[s]'' @ [LF], ''A = 1'']" by code_simp
  have "section_bounds (keep_lines ?t) ''s'' = Inr (0, length (keep_lines ?t))" by code_simp
  moreover have "filter (\<lambda>i. is_assignment ''B'' (keep_lines ?t ! i)) [Suc 0..<length (keep_lines ?t)] = []" by code_simp
  ultimately show ?thesis using assignment_glued [of ?t "''s''" 0 "''B''" "Text ''4''" True] by (simp add: render_value_def)
qed

end
