(* ===== verification/Config_Enroll.thy ===== *)
theory Config_Enroll
  imports Config_Safe
begin

text \<open>
  The properties of \<open>enroll-project.py\<close>: what it changes, that the server reads back what was
  enrolled, and a directory for which it does not.
\<close>

section \<open>Enrolling a project\<close>

lemma enroll_run_cases:
  assumes "enroll_run h home loads found server_name raws dry_run b fails part s = (s', r)"
  shows "s' = s \<and> (\<forall>x rs. r \<noteq> Inr (Updated x, rs)) \<or>
    (\<exists>parsed current requested updated P r'. \<not> dry_run
       \<and> loads (universal_newlines (config_text s)) = Inr parsed \<and> configured_roots h home server_name parsed = Inr current
       \<and> resolve_roots h home raws = Inr requested
       \<and> replace_setting (universal_newlines (config_text s)) server_name (join_roots (add_new current requested)) = Inr updated
       \<and> loads updated = Inr P \<and> py_eq P (enrolled server_name (join_roots (add_new current requested)) parsed)
       \<and> write_config b fails part updated s = (s', r') \<and> r = map_sum id (\<lambda>x. (Updated x, add_new current requested)) r')"
proof -
  let ?t = "universal_newlines (config_text s)"
  let ?all = "bindr (read_config found loads s) (\<lambda>(original, parsed).
           bindr (configured_roots h home server_name parsed) (\<lambda>current.
           bindr (resolve_roots h home raws) (\<lambda>requested.
           Inr (original, parsed, current, add_new current requested))))"
  show ?thesis
  proof (cases ?all)
    case (Inl e)
    then show ?thesis using assms by (auto simp: enroll_run_def)
  next
    case (Inr x)
    obtain original parsed current roots where x: "x = (original, parsed, current, roots)" by (cases x)
    obtain requested where all: "read_config found loads s = Inr (original, parsed)" "configured_roots h home server_name parsed = Inr current"
      "resolve_roots h home raws = Inr requested" "roots = add_new current requested"
      using Inr x by (auto simp: bindr_Inr)
    have o: "original = ?t" "loads ?t = Inr parsed" using all(1) by (auto simp: read_config_def bindr_Inr Let_def split: if_splits)
    define edit where "edit = bindr (replace_setting original server_name (join_roots roots)) (\<lambda>updated.
                  bindr (loads updated) (\<lambda>updated_parsed.
                  if \<not> py_eq updated_parsed (enrolled server_name (join_roots roots) parsed)
                  then Inl (SystemExit ''refusing update because fields other than LONGRUN_ALLOWED_ROOTS would change'')
                  else Inr updated))"
    have run: "(if roots = current then (s, Inr (Unchanged, current))
        else (case edit of Inl e \<Rightarrow> (s, Inl e)
              | Inr updated \<Rightarrow> if dry_run then (s, Inr (Dry_run, roots))
                  else and_then (write_config b fails part updated s) (\<lambda>b s. (s, Inr (Updated b, roots))))) = (s', r)"
      using assms unfolding enroll_run_def Inr x sum.case prod.case edit_def .
    show ?thesis
    proof (cases "roots = current \<or> (\<exists>e. edit = Inl e) \<or> dry_run")
      case True
      then have "s' = s \<and> (\<forall>x rs. r \<noteq> Inr (Updated x, rs))" using run by (cases edit) (auto split: if_splits)
      then show ?thesis by blast
    next
      case False
      then obtain updated where e: "edit = Inr updated" by (cases edit) auto
      obtain w wr where w: "write_config b fails part updated s = (w, wr)" by force
      have "s' = w \<and> r = map_sum id (\<lambda>x. (Updated x, roots)) wr"
        using run False unfolding e sum.case w by (cases wr) (auto split: if_splits)
      moreover have "\<exists>P. replace_setting original server_name (join_roots roots) = Inr updated \<and> loads updated = Inr P
          \<and> py_eq P (enrolled server_name (join_roots roots) parsed)"
        using e unfolding edit_def by (auto simp: bindr_Inr split: if_splits)
      ultimately show ?thesis using False all o w by blast
    qed
  qed
qed

lemma resolve_project_root_ok:
  assumes "resolve_project_root h home raw = Inr r"
  shows "is_directory h r \<and> r \<noteq> parse_path ''/'' \<and> r \<noteq> home"
proof -
  obtain c where "expanduser h (parse_path raw) = Inr c" using assms
    by (cases "expanduser h (parse_path raw)") (simp_all add: resolve_project_root_def)
  note def = assms [unfolded resolve_project_root_def this bindr_simps]
  then have "absolute c" by (auto split: if_splits)
  then show ?thesis
  proof (cases "resolve_strict h c")
    case (Inl e)
    then show ?thesis using def \<open>absolute c\<close> by (cases e) simp_all
  next
    case (Inr d)
    then show ?thesis using def \<open>absolute c\<close> by (simp split: if_splits)
  qed
qed

lemma resolve_roots_ok: "resolve_roots h home raws = Inr rs \<Longrightarrow> \<forall>r \<in> set rs. is_directory h r \<and> r \<noteq> parse_path ''/'' \<and> r \<noteq> home"
  using resolve_project_root_ok by (induction raws arbitrary: rs) (fastforce simp: bindr_Inr)+

lemma add_new_facts: "set (add_new xs ys) = set xs \<union> set ys \<and> (distinct xs \<longrightarrow> distinct (add_new xs ys))"
  unfolding add_new_def by (induction ys arbitrary: xs) auto

lemma configured_roots_ok:
  assumes "configured_roots h home server_name parsed = Inr rs"
  shows "rs \<noteq> [] \<and> distinct rs \<and> (\<forall>r \<in> set rs. is_directory h r \<and> r \<noteq> parse_path ''/'' \<and> r \<noteq> home)"
proof -
  obtain raws roots where "resolve_roots h home raws = Inr roots" "roots \<noteq> []" "rs = add_new [] roots"
    using assms by (auto simp: configured_roots_def bindr_Inr split: option.splits json.splits if_splits)
  then show ?thesis using resolve_roots_ok add_new_facts [of "[]" roots] by (metis Un_empty_left distinct.simps(1) set_empty list.set(1))
qed

text \<open>
  C21. Enrolling is safe: whatever fails on the way, the configuration is left as it was, or as
  a text that means the same but for the roots, which are now the old ones and the requested
  ones, each once, each an existing directory other than the file system's root and the
  user's home; then a private backup holds the old text. A dry run changes nothing, and no
  other backup is touched.
\<close>

theorem enroll_safe:
  assumes "enroll_run h home loads found server_name raws dry_run b fails part s = (s', r)"
  shows "(dry_run \<longrightarrow> s' = s)
    \<and> config_mode s' = config_mode s \<and> (\<forall>b'. b' \<noteq> b \<longrightarrow> backups s' b' = backups s b')
    \<and> (temp_file s = None \<longrightarrow> fails Unlink_temp = None \<longrightarrow> temp_file s' = None)
    \<and> (config_text s' \<noteq> config_text s \<longrightarrow> \<not> dry_run
        \<and> backups s' b = Some (config_text s, 0x180) \<and> backups_mode s' = Some 0x1C0
        \<and> (\<exists>parsed P current requested roots. loads (universal_newlines (config_text s)) = Inr parsed
            \<and> configured_roots h home server_name parsed = Inr current \<and> resolve_roots h home raws = Inr requested
            \<and> set roots = set current \<union> set requested \<and> distinct roots
            \<and> (\<forall>d \<in> set roots. is_directory h d \<and> d \<noteq> parse_path ''/'' \<and> d \<noteq> home)
            \<and> loads (config_text s') = Inr P \<and> py_eq P (enrolled server_name (join_roots roots) parsed)))"
  using enroll_run_cases [OF assms]
proof (elim disjE exE conjE)
  fix parsed current requested updated P r'
  assume parsed: "loads (universal_newlines (config_text s)) = Inr parsed" "configured_roots h home server_name parsed = Inr current"
    "resolve_roots h home raws = Inr requested"
    and P: "loads updated = Inr P" "py_eq P (enrolled server_name (join_roots (add_new current requested)) parsed)"
    and w: "write_config b fails part updated s = (s', r')" and dry: "\<not> dry_run"
  have roots: "set (add_new current requested) = set current \<union> set requested" "distinct (add_new current requested)"
    "\<forall>d \<in> set (add_new current requested). is_directory h d \<and> d \<noteq> parse_path ''/'' \<and> d \<noteq> home"
    using add_new_facts [of current requested] configured_roots_ok [OF parsed(2)] resolve_roots_ok [OF parsed(3)] by auto
  have res: "config_mode s' = config_mode s \<and> (temp_file s = None \<longrightarrow> fails Unlink_temp = None \<longrightarrow> temp_file s' = None)"
    "config_text s' = config_text s \<or>
     config_text s' = updated \<and> backups s' b = Some (config_text s, 0x180) \<and> backups_mode s' = Some 0x1C0"
    using write_config_result [OF w] by blast+
  have other: "\<forall>b'. b' \<noteq> b \<longrightarrow> backups s' b' = backups s b'" using write_config_other [OF w] by blast
  show ?thesis
  proof (cases "config_text s' = config_text s")
    case False
    then have "loads (config_text s') = Inr P" using res(2) P(1) by auto
    then show ?thesis using False res other dry parsed P(2) roots by blast
  qed (use res other dry in simp)
qed auto

section \<open>What the server reads\<close>

lemma split_on_sep: "d \<notin> set a \<Longrightarrow> split_on d (a @ d # s) = a # split_on d s"
  by (induction a) auto

lemma split_on_none: "d \<notin> set a \<Longrightarrow> split_on d a = [a]"
  by (induction a) auto

lemma split_join: "xs \<noteq> [] \<Longrightarrow> \<forall>x \<in> set xs. d \<notin> set x \<Longrightarrow> split_on d (join [d] xs) = xs"
proof (induction xs rule: induct_list012)
  case (3 x y zs)
  then show ?case using split_on_sep [of d x "join [d] (y # zs)"] by simp
qed (auto simp: split_on_none)

text \<open>A resolved path is absolute, resolves to itself and is read back from its text.\<close>

definition settled_path :: "host \<Rightarrow> path \<Rightarrow> bool" where
  "settled_path h d \<longleftrightarrow> absolute d \<and> expanduser h d = Inr d \<and> resolve_strict h d = Inr d \<and> parse_path (path_str d) = d"

definition plain_name :: "path \<Rightarrow> bool" where
  "plain_name d \<longleftrightarrow> CHR '':'' \<notin> set (path_str d) \<and> strip (path_str d) = path_str d"

definition served_roots :: "host \<Rightarrow> path list \<Rightarrow> pyexc + path list" where
  "served_roots h roots = load_allowed_roots (h\<lparr>env_var := (env_var h)(setting_name \<mapsto> join_roots roots)\<rparr>)"

lemma settled_text: "settled_path h d \<Longrightarrow> path_str d \<noteq> []"
  by (simp add: settled_path_def path_str_def)

lemma load_roots_settled:
  assumes "\<forall>d \<in> set ds. settled_path h d \<and> plain_name d"
  shows "load_roots (h\<lparr>env_var := f\<rparr>) (map path_str ds) = Inr ds"
  using assms
proof (induction ds)
  case (Cons d ds)
  then have "load_roots (h\<lparr>env_var := f\<rparr>) (map path_str ds) = Inr ds" by simp
  moreover have "settled_path h d" "plain_name d" using Cons.prems by simp_all
  ultimately show ?case using settled_text [of h d] by (simp add: settled_path_def plain_name_def)
qed simp

text \<open>
  C33. What was enrolled is what the server allows: after a run that wrote the file, a server
  started with the new value loads exactly the enrolled roots, provided the host's resolved
  paths are settled and no root's name has a colon in it or white space at its ends.
\<close>

theorem enroll_reads_back:
  assumes run: "enroll_run h home loads found server_name raws dry_run b fails part s = (s', Inr (Updated b', roots))"
    and settled: "\<forall>d \<in> set roots. settled_path h d" and names: "\<forall>d \<in> set roots. plain_name d"
  shows "served_roots h roots = Inr roots"
proof -
  obtain parsed current requested r' where c: "configured_roots h home server_name parsed = Inr current"
    "(Inr (Updated b', roots) :: pyexc + script_end \<times> path list) = map_sum id (\<lambda>x. (Updated x, add_new current requested)) r'"
    using enroll_run_cases [OF run] by auto
  have "roots = add_new current requested" using c(2) by (cases r') simp_all
  then have ne: "roots \<noteq> []" using configured_roots_ok [OF c(1)] add_new_facts [of current requested] by (metis Un_empty set_empty)
  have "split_on (CHR '':'') (join_roots roots) = map path_str roots"
    unfolding join_roots_def using ne names by (intro split_join) (auto simp: plain_name_def)
  moreover have "join_roots roots \<noteq> []"
    using ne settled settled_text unfolding join_roots_def by (cases roots rule: remdups_adj.cases) auto
  ultimately show ?thesis
    unfolding served_roots_def load_allowed_roots_def using load_roots_settled [of roots h] settled names ne
    by (simp add: setting_name_def)
qed

text \<open>A host and a parser to run on: every path exists, and the text has one string.\<close>

definition enroll_host :: host where
  "enroll_host = \<lparr>env_var = Map.empty, expanduser = Inr, resolve_strict = Inr, resolve_lax = id, is_directory = \<lambda>_. True,
     which = \<lambda>_. None\<rparr>"

definition enroll_loads :: "string \<Rightarrow> pyexc + json" where
  "enroll_loads t = Inr (JObj [(''mcp_servers'', JObj [(''l'', JObj [(''env'', JObj [(setting_name,
     JStr (takeWhile (\<lambda>c. c \<noteq> CHR 0x22) (drop 1 (dropWhile (\<lambda>c. c \<noteq> CHR 0x22) t))))])])])])"

definition enroll_text :: string where
  "enroll_text = ''[mcp_servers.l.env]'' @ [LF] @ setting_name @ '' = '' @ dumps_raw ''/srv/p'' @ [LF]"

definition enroll_demo :: "string \<Rightarrow> (config_fs, script_end \<times> path list) outcome" where
  "enroll_demo raw = enroll_run enroll_host (parse_path ''/home/u'') enroll_loads (Inr True) ''l'' [raw] False ''old'' (\<lambda>_. None) []
     (config_files enroll_text)"

lemma enroll_demo_ends:
  "snd (enroll_demo ''/srv/q'') = Inr (Updated ''old'', [parse_path ''/srv/p'', parse_path ''/srv/q''])"
  "config_text (fst (enroll_demo ''/srv/q'')) \<noteq> enroll_text"
  by code_simp+

theorem enroll_safe_witness:
  "\<exists>s'. enroll_demo ''/srv/q'' = (s', Inr (Updated ''old'', [parse_path ''/srv/p'', parse_path ''/srv/q'']))
     \<and> config_text s' \<noteq> enroll_text \<and> backups s' ''old'' = Some (enroll_text, 0x180) \<and> temp_file s' = None"
proof -
  obtain s' where s': "enroll_demo ''/srv/q'' = (s', Inr (Updated ''old'', [parse_path ''/srv/p'', parse_path ''/srv/q'']))"
    "config_text s' \<noteq> enroll_text"
    using enroll_demo_ends by (cases "enroll_demo ''/srv/q''") auto
  from enroll_safe [OF s'(1) [unfolded enroll_demo_def]] s' show ?thesis by (simp add: config_files_def)
qed

theorem enroll_reads_back_witness:
  "\<exists>s'. enroll_demo ''/srv/q'' = (s', Inr (Updated ''old'', [parse_path ''/srv/p'', parse_path ''/srv/q'']))
     \<and> served_roots enroll_host [parse_path ''/srv/p'', parse_path ''/srv/q''] = Inr [parse_path ''/srv/p'', parse_path ''/srv/q'']"
proof -
  obtain s' where s': "enroll_demo ''/srv/q'' = (s', Inr (Updated ''old'', [parse_path ''/srv/p'', parse_path ''/srv/q'']))"
    using enroll_demo_ends by (cases "enroll_demo ''/srv/q''") auto
  have "\<forall>d \<in> set [parse_path ''/srv/p'', parse_path ''/srv/q'']. settled_path enroll_host d"
    "\<forall>d \<in> set [parse_path ''/srv/p'', parse_path ''/srv/q'']. plain_name d"
    by (simp_all add: settled_path_def plain_name_def enroll_host_def parse_path_def path_str_def starts_with_def strip_def strip_of_def
        whitespace_def)
  then show ?thesis using enroll_reads_back [OF s' [unfolded enroll_demo_def]] s' by blast
qed

section \<open>A colon in a name\<close>

lemma split_on_append: "split_on d (a @ d # s) = split_on d a @ split_on d s"
proof -
  have "split_on d t \<noteq> []" for t by (cases t) (auto split: list.splits)
  then show ?thesis by (induction a) (auto split: list.splits)
qed

lemma split_on_join: "xs \<noteq> [] \<Longrightarrow> split_on d (join [d] xs) = concat (map (split_on d) xs)"
  by (induction xs rule: induct_list012) (simp_all add: split_on_append)

lemma split_on_pieces: "x \<in> set (split_on d s) \<Longrightarrow> d \<notin> set x \<and> set x \<subseteq> set s"
proof (induction s arbitrary: x)
  case (Cons c s)
  show ?case
  proof (cases "x \<in> set (split_on d s) \<or> x = [] \<or> c = d")
    case True
    then show ?thesis using Cons by (auto split: if_splits)
  next
    case False
    then obtain w where "x = c # w" "w \<in> set (split_on d s) \<or> w = []" using Cons.prems
      by (auto split: list.splits)
    then show ?thesis using Cons.IH [of w] False by auto
  qed
qed simp

lemma path_text_chars: "set (path_str (parse_path t)) \<subseteq> insert (CHR ''/'') (insert (CHR ''.'') (set t))"
proof -
  have j: "set (join_with s xs) \<subseteq> set s \<union> \<Union> (set ` set xs)" for s xs
    by (induction s xs rule: join_with.induct) auto
  have "set x \<subseteq> set t" if "x \<in> set (parts (parse_path t))" for x
    using that split_on_pieces by (fastforce simp: parse_path_def)
  then show ?thesis using j [of "''/''" "parts (parse_path t)"] by (auto simp: path_str_def)
qed

lemma strip_subset: "set (strip t) \<subseteq> set t"
  unfolding strip_def strip_of_def by (metis set_dropWhileD set_rev subsetI)

lemma load_roots_pieces:
  assumes "load_roots h ps = Inr ds"
  shows "\<And>q. q \<in> set ds \<Longrightarrow> \<exists>p \<in> set ps. \<exists>c. expanduser h (parse_path (strip p)) = Inr c \<and> resolve_strict h c = Inr q"
    and "\<And>p. p \<in> set ps \<Longrightarrow> strip p \<noteq> [] \<Longrightarrow>
      \<exists>c q. expanduser h (parse_path (strip p)) = Inr c \<and> resolve_strict h c = Inr q \<and> q \<in> set ds"
  using assms
proof (induction ps arbitrary: ds)
  case (Cons a ps)
  { case 1
    then show ?case using Cons.IH(1) by (fastforce simp: bindr_Inr Let_def split: if_splits)
  next
    case 2
    then show ?case using Cons.IH(2) by (fastforce simp: bindr_Inr Let_def split: if_splits)
  }
qed simp_all

text \<open>
  C37. A directory with a colon in its name enrolls others: whenever a run has written the
  file for roots one of which has a colon in its name, and no name without a colon leads to
  that directory, a server started with the value does not allow it, though the script accepted
  it and the file says so; for every non-empty piece of the name between colons it
  allows the directory that piece resolves to.
\<close>

theorem colon_enrolls_others:
  assumes run: "enroll_run h home loads found server_name raws dry_run b fails part s = (s', Inr (Updated b', roots))"
    and d: "d \<in> set roots" "CHR '':'' \<in> set (path_str d)"
    and direct: "\<forall>p c. CHR '':'' \<notin> set (path_str p) \<longrightarrow> expanduser h p = Inr c \<longrightarrow> resolve_strict h c \<noteq> Inr d"
    and served: "served_roots h roots = Inr ds"
  shows "is_directory h d
    \<and> (\<exists>parsed P. loads (config_text s') = Inr P \<and> py_eq P (enrolled server_name (join_roots roots) parsed))
    \<and> d \<notin> set ds
    \<and> (\<forall>piece \<in> set (split_on (CHR '':'') (path_str d)). strip piece \<noteq> [] \<longrightarrow>
        (\<exists>c q. expanduser h (parse_path (strip piece)) = Inr c \<and> resolve_strict h c = Inr q \<and> q \<in> set ds))"
proof -
  obtain parsed current requested updated P r' where c: "configured_roots h home server_name parsed = Inr current"
    "resolve_roots h home raws = Inr requested" "loads updated = Inr P"
    "py_eq P (enrolled server_name (join_roots (add_new current requested)) parsed)"
    "write_config b fails part updated s = (s', r')"
    "(Inr (Updated b', roots) :: pyexc + script_end \<times> path list) = map_sum id (\<lambda>x. (Updated x, add_new current requested)) r'"
    using enroll_run_cases [OF run] by auto
  then obtain x where x: "r' = Inr x" "roots = add_new current requested" by (cases r') simp_all
  have written: "config_text s' = updated" using write_config_result [OF c(5)] x(1) by blast
  have dir: "is_directory h d"
    using d(1) x(2) add_new_facts [of current requested] configured_roots_ok [OF c(1)] resolve_roots_ok [OF c(2)] by auto
  have ne: "map path_str roots \<noteq> []" using d(1) by auto
  have "load_roots (h\<lparr>env_var := (env_var h)(setting_name \<mapsto> join_roots roots)\<rparr>) (split_on (CHR '':'') (join_roots roots)) = Inr ds"
    using served by (auto simp: served_roots_def load_allowed_roots_def setting_name_def bindr_Inr Let_def split: if_splits)
  note pieces = load_roots_pieces [OF this, unfolded join_roots_def split_on_join [OF ne], simplified]
  have "d \<notin> set ds"
  proof
    assume "d \<in> set ds"
    from pieces(1) [OF this] obtain r p c where p: "p \<in> set (split_on (CHR '':'') (path_str r))"
      "expanduser h (parse_path (strip p)) = Inr c" "resolve_strict h c = Inr d" by blast
    have "CHR '':'' \<notin> set (strip p)" using split_on_pieces [OF p(1)] strip_subset by blast
    then have "CHR '':'' \<notin> set (path_str (parse_path (strip p)))" using path_text_chars [of "strip p"] by auto
    then show False using direct p(2,3) by blast
  qed
  moreover have "\<exists>c q. expanduser h (parse_path (strip p)) = Inr c \<and> resolve_strict h c = Inr q \<and> q \<in> set ds"
    if "p \<in> set (split_on (CHR '':'') (path_str d))" "strip p \<noteq> []" for p
    using pieces(2) [of p] d(1) that by blast
  ultimately show ?thesis using dir written c(3,4) x(2) by blast
qed

lemma colon_demo_ends:
  "snd (enroll_demo ''/srv/a:/etc'') = Inr (Updated ''old'', [parse_path ''/srv/p'', parse_path ''/srv/a:/etc''])"
  "served_roots enroll_host [parse_path ''/srv/p'', parse_path ''/srv/a:/etc''] =
     Inr [parse_path ''/srv/p'', parse_path ''/srv/a'', parse_path ''/etc'']"
  "split_on (CHR '':'') (path_str (parse_path ''/srv/a:/etc'')) = [''/srv/a'', ''/etc'']"
  "strip ''/etc'' = ''/etc''"
  by code_simp+

theorem colon_enrolls_others_witness:
  "\<exists>s' ds. enroll_demo ''/srv/a:/etc'' = (s', Inr (Updated ''old'', [parse_path ''/srv/p'', parse_path ''/srv/a:/etc'']))
     \<and> served_roots enroll_host [parse_path ''/srv/p'', parse_path ''/srv/a:/etc''] = Inr ds
     \<and> parse_path ''/srv/a:/etc'' \<notin> set ds \<and> parse_path ''/etc'' \<in> set ds"
proof -
  obtain s' where s': "enroll_demo ''/srv/a:/etc'' = (s', Inr (Updated ''old'', [parse_path ''/srv/p'', parse_path ''/srv/a:/etc'']))"
    using colon_demo_ends(1) by (cases "enroll_demo ''/srv/a:/etc''") auto
  have colon: "CHR '':'' \<in> set (path_str (parse_path ''/srv/a:/etc''))" by code_simp
  then have direct: "\<forall>p c. CHR '':'' \<notin> set (path_str p) \<longrightarrow> expanduser enroll_host p = Inr c \<longrightarrow>
      resolve_strict enroll_host c \<noteq> Inr (parse_path ''/srv/a:/etc'')" by (auto simp: enroll_host_def)
  note others = colon_enrolls_others [OF s' [unfolded enroll_demo_def] _ colon direct colon_demo_ends(2)]
  have "parse_path ''/etc'' \<in> set [parse_path ''/srv/p'', parse_path ''/srv/a'', parse_path ''/etc'']"
    using others unfolding colon_demo_ends(3) by (simp add: colon_demo_ends(4) enroll_host_def)
  then show ?thesis using others s' colon_demo_ends(2) by auto
qed

section \<open>Configuring anew\<close>

lemma replace_config_result:
  assumes "replace_config b fails part u s = (s', r)"
  shows "config_text s' = config_text s \<or>
      config_text s' = u \<and> backups s' b = Some (config_text s, 0x180) \<and> backups_mode s' = Some 0x1C0"
  using assms
  by (simp add: replace_config_def syscall_def and_then_def split: option.splits sum.splits prod.splits if_splits)
    auto

text \<open>
  Configuring only adds: whatever fails on the way, the configuration is left as it was, or
  as the old text, up to white space at its end, followed by the new tables for the checked paths; then the old text
  parsed and had no such server, the new one parses, and a private backup holds the old text.
\<close>

theorem configure_only_adds:
  assumes "configure_run h executable make_state loads found command cwd state_dir inside b fails part s = (s', r)"
    and "config_text s' \<noteq> config_text s"
  shows "\<exists>parsed P c dir st inner. configure_paths h executable make_state command cwd state_dir inside = Inr (c, dir, st, inner)
    \<and> config_text s' = rstrip_chars py_space (universal_newlines (config_text s)) @ render_block h c dir st inner
    \<and> loads (universal_newlines (config_text s)) = Inr parsed \<and> has_longrun parsed = Inr False \<and> loads (config_text s') = Inr P
    \<and> backups s' b = Some (config_text s, 0x180) \<and> backups_mode s' = Some 0x1C0"
proof -
  let ?t = "universal_newlines (config_text s)"
  define checked where "checked = bindr found (\<lambda>is_file.
           if \<not> is_file then Inl (SystemExit ''config is not a regular file'')
           else bindr (configure_paths h executable make_state command cwd state_dir inside) (\<lambda>(c, cwd, st, inside).
           let original = ?t in
           bindr (loads original) (\<lambda>parsed.
           bindr (has_longrun parsed) (\<lambda>present.
           if present then Inl (SystemExit ''mcp_servers.longrun already exists; refusing to overwrite it'')
           else let updated = rstrip_chars py_space original @ render_block h c cwd st inside in
                bindr (loads updated) (\<lambda>_. Inr updated)))))"
  have run: "(case checked of Inl e \<Rightarrow> (s, Inl e) | Inr updated \<Rightarrow> replace_config b fails part updated s) = (s', r)"
    using assms(1) unfolding configure_run_def checked_def .
  then obtain updated where u: "checked = Inr updated" using assms(2) by (cases checked) auto
  then have w: "replace_config b fails part updated s = (s', r)" using run by simp
  obtain parsed P c dir st inner where "configure_paths h executable make_state command cwd state_dir inside = Inr (c, dir, st, inner)"
    "updated = rstrip_chars py_space ?t @ render_block h c dir st inner" "loads ?t = Inr parsed" "has_longrun parsed = Inr False"
    "loads updated = Inr P"
    using u unfolding checked_def by (auto simp: bindr_Inr Let_def split: if_splits)
  then show ?thesis using replace_config_result [OF w] assms(2) by auto
qed

definition bare_text :: string where
  "bare_text = ''a = 1'' @ [LF]"

definition configure_demo :: "(config_fs, unit) outcome" where
  "configure_demo = configure_run enroll_host (\<lambda>_. True) Inr (\<lambda>_. Inr (JObj [(''a'', JInt 1)])) (Inr True)
     ''/usr/bin/x'' ''/srv'' ''/var/s'' ''/srv/p'' ''old'' (\<lambda>_. None) [] (config_files bare_text)"

theorem configure_only_adds_witness:
  "\<exists>s' r c dir st inner. configure_demo = (s', r) \<and> config_text s' \<noteq> bare_text
     \<and> config_text s' = ''a = 1'' @ render_block enroll_host c dir st inner \<and> backups s' ''old'' = Some (bare_text, 0x180)"
proof -
  obtain s' r where s': "configure_demo = (s', r)" by force
  have bare: "universal_newlines bare_text = bare_text" "rstrip_chars py_space bare_text = ''a = 1''" by code_simp+
  have root: "starts_with ''/srv'' ''/''" "starts_with ''/var/s'' ''/''" "starts_with ''/srv/p'' ''/''" by code_simp+
  have "config_text (fst configure_demo) = ''a = 1'' @ render_block enroll_host (parse_path ''/usr/bin/x'') (parse_path ''/srv'')
      (parse_path ''/var/s'') (parse_path ''/srv/p'')"
    using bare root
    by (simp add: configure_demo_def configure_run_def configure_paths_def absolute_existing_dir_def enroll_host_def config_files_def
        has_longrun_def jget_default_def replace_config_def syscall_def parse_path_def)
  then have "config_text s' = ''a = 1'' @ render_block enroll_host (parse_path ''/usr/bin/x'') (parse_path ''/srv'')
      (parse_path ''/var/s'') (parse_path ''/srv/p'')" unfolding s' fst_conv .
  moreover from this have "config_text s' \<noteq> bare_text" by (simp add: bare_text_def render_block_def Let_def)
  ultimately show ?thesis
    using configure_only_adds [OF s' [unfolded configure_demo_def]] s' bare by (auto simp: config_files_def) metis
qed

end
