(* ===== verification/Coordinator.thy ===== *)
theory Coordinator
  imports Tui_Proxy Launcher
begin

text \<open>
  The coordinator (\<open>coordinator.py\<close>): it starts the session bridge and the proxy, waits
  until one of them or a stop signal ends, and closes both. How starting, serving and closing
  end is an argument; the state is what was closed, in order. The options come from the
  launcher.
\<close>

section \<open>Options\<close>

definition proxy_max_helper_bytes :: int where
  "proxy_max_helper_bytes = 16777216"

text \<open>What the launcher's command line and \<open>run\<close> make of the launcher's options.\<close>

definition coordinator_options :: "launcher_options \<Rightarrow> proxy_options" where
  "coordinator_options k =
     \<lparr>legacy_history_mode = lo_mode k, history_threshold_bytes = lo_threshold_mib k * 1048576,
      history_tail_turns = lo_tail_turns k, helper_max_message_bytes = proxy_max_helper_bytes\<rparr>"

section \<open>Running\<close>

datatype coordinator_task = Bridge_serve | Proxy_serve | Stop_wait

datatype closing = Close_proxy | Close_bridge

record coordinator_outcomes =
  bridge_started :: "pyexc + unit"
  proxy_started :: "pyexc + unit"
  first_done :: "coordinator_task list"
  task_end :: "coordinator_task \<Rightarrow> pyexc + unit"
  close_end :: "closing \<Rightarrow> pyexc + unit"

text \<open>\<open>for task in done: task.result()\<close>.\<close>

fun results :: "(coordinator_task \<Rightarrow> pyexc + unit) \<Rightarrow> coordinator_task list \<Rightarrow> pyexc + unit" where
  "results ends [] = Inr ()"
| "results ends (t # ts) = bindr (ends t) (\<lambda>_. results ends ts)"

text \<open>Awaiting the cancelled tasks: only \<open>CancelledError\<close> is suppressed.\<close>

fun await_cancelled :: "(coordinator_task \<Rightarrow> pyexc + unit) \<Rightarrow> coordinator_task list \<Rightarrow> pyexc + unit" where
  "await_cancelled ends [] = Inr ()"
| "await_cancelled ends (t # ts) =
     (case ends t of
        Inl e \<Rightarrow> if e = CancelledError then await_cancelled ends ts else Inl e
      | Inr _ \<Rightarrow> await_cancelled ends ts)"

definition close_part :: "coordinator_outcomes \<Rightarrow> closing \<Rightarrow> closing list \<Rightarrow> (closing list, unit) outcome" where
  "close_part co c w = (w @ [c], close_end co c)"

text \<open>The \<open>finally\<close> block, for the tasks that were created.\<close>

definition coordinator_cleanup :: "coordinator_outcomes \<Rightarrow> coordinator_task list \<Rightarrow> closing list \<Rightarrow> (closing list, unit) outcome" where
  "coordinator_cleanup co ts w =
     and_then (w, await_cancelled (task_end co) ts) (\<lambda>_ w.
     and_then (close_part co Close_proxy w) (\<lambda>_ w.
     close_part co Close_bridge w))"

definition coordinator_body :: "coordinator_outcomes \<Rightarrow> coordinator_task list \<times> (pyexc + unit)" where
  "coordinator_body co =
     (case bindr (bridge_started co) (\<lambda>_. proxy_started co) of
        Inl e \<Rightarrow> ([], Inl e)
      | Inr _ \<Rightarrow> ([Bridge_serve, Proxy_serve, Stop_wait], results (task_end co) (first_done co)))"

definition coordinator_run :: "launcher_options \<Rightarrow> coordinator_outcomes \<Rightarrow> closing list \<Rightarrow> (closing list, unit) outcome" where
  "coordinator_run k co w =
     (case proxy_options_checked (coordinator_options k) of
        Inl e \<Rightarrow> (w, Inl e)
      | Inr _ \<Rightarrow>
          (case coordinator_body co of
             (ts, r) \<Rightarrow> and_then (coordinator_cleanup co ts w) (\<lambda>_ w. (w, r))))"

section \<open>Properties\<close>

text \<open>
  The launcher never starts a coordinator that refuses its options: what the launcher's own
  checks let through, the proxy accepts, unchanged.
\<close>

theorem launcher_options_fit:
  assumes "launcher_options_checked k = Inr k'" and "lo_mode k \<in> set valid_modes"
  shows "proxy_options_checked (coordinator_options k') = Inr (coordinator_options k)"
  using assms by (auto simp: launcher_options_checked_def proxy_options_checked_def coordinator_options_def split: if_splits)

definition default_options :: launcher_options where
  "default_options = \<lparr>lo_mode = ''auto'', lo_threshold_mib = 64, lo_tail_turns = 5, lo_timeout_sec = 120\<rparr>"

lemma default_options_checked: "launcher_options_checked default_options = Inr default_options"
  by (simp add: launcher_options_checked_def default_options_def)

theorem launcher_options_fit_witness:
  "proxy_options_checked (coordinator_options default_options) = Inr (coordinator_options default_options)"
  by (rule launcher_options_fit [OF default_options_checked]) (simp add: default_options_def valid_modes_def)

text \<open>
  A stop closes everything: when the tasks end by nothing worse than the cancellation, or
  were never started, the proxy is closed, and then the bridge if that went well.
\<close>

theorem stop_closes_both:
  assumes "proxy_options_checked (coordinator_options k) = Inr x"
    and "\<forall>t e. task_end co t = Inl e \<longrightarrow> e = CancelledError"
    and "close_end co Close_proxy = Inr ()"
  shows "fst (coordinator_run k co []) = [Close_proxy, Close_bridge]"
proof -
  have "await_cancelled (task_end co) ts = Inr ()" for ts
    using assms(2) by (induction ts) (auto split: sum.splits)
  then show ?thesis using assms(1,3)
    by (auto simp: coordinator_run_def coordinator_cleanup_def close_part_def and_then_def split: prod.splits sum.splits)
qed

definition stopped_run :: coordinator_outcomes where
  "stopped_run = \<lparr>bridge_started = Inr (), proxy_started = Inr (), first_done = [Stop_wait],
     task_end = (\<lambda>t. if t = Stop_wait then Inr () else Inl CancelledError), close_end = \<lambda>_. Inr ()\<rparr>"

theorem stop_closes_both_witness:
  "fst (coordinator_run default_options stopped_run []) = [Close_proxy, Close_bridge]"
proof (rule stop_closes_both)
  show "proxy_options_checked (coordinator_options default_options) = Inr (coordinator_options default_options)"
    by (simp add: proxy_options_checked_def coordinator_options_def default_options_def valid_modes_def)
qed (auto simp: stopped_run_def split: if_splits)

text \<open>
  A failing part leaves both open: when serving the bridge or the proxy ends with an
  exception, as it does when the App Server goes away, awaiting that task once more in the
  cleanup raises the exception again, and neither the proxy nor the bridge is closed.
\<close>

theorem failure_closes_nothing:
  assumes "proxy_options_checked (coordinator_options k) = Inr x"
    and "bridge_started co = Inr ()" and "proxy_started co = Inr ()"
    and "task_end co t = Inl e" "e \<noteq> CancelledError"
  shows "fst (coordinator_run k co []) = []"
proof -
  have "\<exists>e'. await_cancelled (task_end co) ts = Inl e'" if "t \<in> set ts" for ts
    using that assms(4,5) by (induction ts) (auto split: sum.splits)
  moreover have "t \<in> set [Bridge_serve, Proxy_serve, Stop_wait]" by (cases t) simp_all
  ultimately obtain e' where "await_cancelled (task_end co) [Bridge_serve, Proxy_serve, Stop_wait] = Inl e'" by blast
  then show ?thesis using assms(1-3)
    by (simp add: coordinator_run_def coordinator_body_def coordinator_cleanup_def)
qed

definition app_server_gone :: coordinator_outcomes where
  "app_server_gone = \<lparr>bridge_started = Inr (), proxy_started = Inr (), first_done = [Bridge_serve],
     task_end = (\<lambda>t. if t = Bridge_serve then Inl (AppServerError ''Codex App Server bridge connection closed'')
                 else Inl CancelledError), close_end = \<lambda>_. Inr ()\<rparr>"

theorem failure_closes_nothing_witness:
  "fst (coordinator_run default_options app_server_gone []) = []"
proof (rule failure_closes_nothing)
  show "proxy_options_checked (coordinator_options default_options) = Inr (coordinator_options default_options)"
    by (simp add: proxy_options_checked_def coordinator_options_def default_options_def valid_modes_def)
  show "task_end app_server_gone Bridge_serve = Inl (AppServerError ''Codex App Server bridge connection closed'')"
    by (simp add: app_server_gone_def)
qed (simp_all add: app_server_gone_def)

end
