(* ===== verification/Spec2Isabelle.thy ===== *)
theory Spec2Isabelle
  imports Goal_Bridge_Claims Session_Claims Secret_Claims Job_Run_Claims Tui_Proxy_Claims
    App_Client_Claims Supervisor_Claims Launcher_Claims Config_Enroll Coordinator
begin

text \<open>
  Verification of codex-mcp-longrun, an MCP server that runs long commands for a coding
  agent and wakes the agent's thread when a command has ended.

  \<^bold>\<open>The program.\<close> The server (\<open>server.py\<close>) validates a request, reserves a job, runs
  the command under a supervisor with time and output limits, and keeps one JSON file per
  job. Commands that need a password read it from a one-time handle that was staged before
  (\<open>secret_input.py\<close>). For a wakeup the server registers a lease with the bridge
  (\<open>bridge.py\<close>), a separate process that pauses the thread's Goal through the app server,
  keeps its leases in SQLite (\<open>bridge_state.py\<close>), and resumes the Goal once after the
  terminal event, unless the user or anyone else changed the Goal in between. The launcher
  (\<open>launcher.py\<close>) starts the app server, the bridge and the terminal client in a private
  directory; the client talks to the app server through a proxy (\<open>tui_proxy.py\<close>), which also
  carries the bridge's control calls and keeps large histories from the client.

  \<^bold>\<open>Theories and sources.\<close>
  \<^item> \<open>Longrun_Prelude\<close>, \<open>Py_Json\<close>, \<open>Py_Text\<close>, \<open>Py_Utf8\<close>: exceptions as values,
    results of stateful calls, JSON values with Python's equality, the text functions of the
    standard library that the sources call, and UTF-8 with the incremental replacing decoder.
  \<^item> \<open>Bridge_State\<close>: \<open>BridgeState\<close>. The tables are lists of rows, the unique index is a
    constraint checked by insert and update. An abstract lease map refuses a second live
    lease per thread; the locale \<open>lease_store\<close> states what the bridge relies on, and its
    interpretation discharges it for the tables.
  \<^item> \<open>Goal_Bridge\<close>: \<open>GoalBridge\<close>. Every coroutine is cut at its awaits: a segment is a
    function from the state to the state and the next await, and \<open>bstep\<close> runs one segment
    per event (a request, an RPC reply, a notification, a timer, a cancellation, a restart).
    \<open>Goal_Bridge_Inv\<close> states the invariant of reachable states, \<open>Goal_Bridge_Safe\<close>
    proves that every segment keeps it, \<open>Goal_Bridge_Props\<close> follows single deliveries,
    \<open>Goal_Bridge_Claims\<close> holds the properties.
  \<^item> \<open>Session_Bridge\<close>: \<open>SessionBridge\<close>, which wakes a session without a Goal: it binds a
    job to the tool call a terminal client (TUI) shows, interrupts that turn, leaves a receipt,
    and starts a turn when the job has ended. The record extends the one of \<open>GoalBridge\<close>;
    inherited coroutines run inside it with the overridden methods. A connection of a TUI
    (\<open>Peer\<close> and \<open>client_to_upstream\<close> of \<open>tui_proxy.py\<close>) is a lock and a log of what went
    over it; \<open>sstep\<close> runs one segment per event, \<open>session_reach\<close> are the reachable
    states. \<open>Session_Gentle\<close> to \<open>Session_Safe\<close> carry the invariant of the Goal bridge over
    and add that of the sessions, \<open>Session_Steps\<close> and \<open>Session_Reach\<close> prove that every
    step keeps it, \<open>Session_Calm\<close> that only three kinds of steps send a control,
    \<open>Session_Demo\<close> evaluates whole runs, \<open>Session_Claims\<close> holds the properties. \<open>Py_Dumps\<close>
    is \<open>json.dumps\<close> with sorted keys and \<open>repr\<close>.
  \<^item> \<open>Secret_Input\<close>, \<open>Secret_Claims\<close>: \<open>secret_input.py\<close> on a directory with inodes
    and a descriptor table. The consumption of a handle is split into the four parts between
    which other processes can run (open, the look at the descriptor, the look at the name,
    unlink), and a race is any sequence of such parts.
  \<^item> \<open>Job_Guards\<close>, \<open>Job_Guards_Claims\<close>: configuration, working directory, command line,
    redaction, environment, match texts and secret handles of \<open>server.py\<close>.
  \<^item> \<open>Job_Output\<close>, \<open>Job_Output_Claims\<close>: \<open>OutputTracker\<close>, \<open>_drain_output\<close>,
    \<open>_limit_tail\<close>, \<open>_wait_with_limits\<close>, \<open>_result_state\<close>.
  \<^item> \<open>Job_Store\<close>, \<open>Job_Store_Claims\<close>: the metadata files and the operations on known
    jobs, with the locale \<open>metadata_files\<close> for what they rely on.
  \<^item> \<open>Job_Run\<close>, \<open>Job_Run_Claims\<close>: \<open>_execute_job\<close>, the background task, the wake
    registration, \<open>start_job\<close> and \<open>run_and_wait\<close>. The waits for the end of a process that is
    given up may be interrupted, \<open>w_terminate\<close> says by what.
  \<^item> \<open>App_Client\<close>, \<open>App_Client_Claims\<close>: \<open>AppServerClient\<close>. Calls are cut at their awaits,
    \<open>app_step\<close> runs one segment per event; \<open>close\<close> is cut at its awaits, too. The replies of calls are what \<open>Goal_Bridge\<close> takes
    as the results of its RPCs.
  \<^item> \<open>Tui_Proxy\<close>, \<open>Tui_Proxy_Inv\<close>, \<open>Tui_Proxy_Claims\<close>: one connection of the proxy: the two
    relaying loops frame by frame, the control calls, and \<open>_handle_full_read\<close> cut at its
    awaits; \<open>tstep\<close> is its step, \<open>tui_reach\<close> its reachable states, and the second theory
    proves their invariant.
  \<^item> \<open>Supervisor\<close>, \<open>Supervisor_Claims\<close>: \<open>job_exec.py\<close> and \<open>parent_guard.py\<close>: arguments, the
    descriptors of the child, and the loops as functions of what the kernel answers turn by
    turn; wait statuses are 32-bit words.
  \<^item> \<open>Launcher\<close>, \<open>Launcher_Claims\<close>: \<open>launcher.py\<close>: options, directories, and the life of the
    three processes, whose fates are an argument. Any wait of the cleanup may be interrupted,
    and a directory may resist its removal.
  \<^item> \<open>Coordinator\<close>: \<open>coordinator.py\<close>, the process that holds the bridge and the proxy: it
    starts them, waits for the first end, and closes them. Its options are the launcher's.
  \<^item> \<open>Config_Edit\<close>: \<open>configure-codex.py\<close>, \<open>upgrade-codex.py\<close> and \<open>enroll-project.py\<close>,
    the scripts that edit the configuration of the agent; the TOML parser is an argument.
    \<open>Config_Lines\<close> holds the laws of lines and tables under an edit, \<open>Config_Claims\<close> that
    a second edit finds nothing to do and which fields keep their values, \<open>Config_Safe\<close> and
    \<open>Config_Enroll\<close> the properties of whole runs.

  \<^bold>\<open>What is shown.\<close> For the bridge: at most one activation per job and only on evidence,
  every live lease is served by a task, outcomes are final, a restart recovers, user
  controls revoke, deliveries complete, and the store refines its abstract map. For sessions:
  the controls of a job are interrupt, receipt and wake in that order, each at most once, on
  evidence and over the owner's connection; the user's own messages and the end of the
  connection or of the coordinator end the automation; a registration binds what it says; a
  connection's conversation is never interleaved and a stuck one is ended. For secret
  input: racing consumers have at most one winner who reads exactly what was staged, refusals
  leak no descriptor, bundles are sealed and decode to the secrets. For the server: accepted
  requests are characterised exactly, the configuration is bounded, output handling does not
  depend on how the stream is cut, the waiting loop ends, reservations respect the limit,
  recovery and cancellation only signal processes whose identity matches, a background job
  ends in a terminal record with all descriptors closed, unless it is cancelled while it
  creates its subprocess or while it waits for the end of one it has given up, and a job with secret input stores
  nothing that depends on its output. For the proxy: an intercepted read is answered once,
  with a reply that fits it and the frame limit, a large history does not reach the client,
  and the control calls stay hidden. For the app server client: a call returns its own reply,
  and when the connection breaks every call returns the reply it had or the error. For the processes: a supervisor reaps last and
  escalates a termination, the command sees the secret on its standard input only, and the
  launcher leaves nothing behind unless its cleanup is interrupted. For the configuration: an edit that fails at any step
  leaves the old text or one of the intended meaning, an upgrade is not needed twice, and the
  server reads back what was enrolled. Ten theorems document behaviour the code does not intend: a
  stale expected status in the bridge, a match text missed at a chunk boundary, a job left
  active by a cancellation during the creation of its subprocess, another left so by one during
  the termination of its process, a tail of a history cached
  although a turn has ended meanwhile, two answers of \<open>cancel_wakeup\<close> (one too late, one
  that reaches another job), an enrolled directory with a colon in its name, an assignment
  added to a file without a final newline, and a coordinator that closes nothing after a failure.

  \<^bold>\<open>Loops and bounds.\<close> All functions are total. The write, read, drain and bump loops
  have termination proofs; the waiting loop is a function of the observations it makes and is
  shown to return within \<open>21 * timeout_sec + 2\<close> of them when the clock respects its sleeps.

  \<^bold>\<open>Choices.\<close> Clock readings are rationals. Text in JSON values and command lines is a
  list of characters with ASCII case mapping; captured output is a list of code points. The
  bridge model allows more interleavings than asyncio: lock waiters may be served in any
  order, taking a lock is a step of its own, and any task may be cancelled at any await. The
  event row of an update omits its time stamp. The server's writes of its own job files
  succeed, and a background task runs at least to its first await. In the server, what the host answers
  (path resolution, process table, subprocess outcomes, bridge replies) is an argument, and
  so is what other handlers do to the files while a command runs.

  \<^bold>\<open>Not modelled.\<close> The MCP and websocket transports, socket set-up and the peer check,
  \<open>_terminate_process\<close> and \<open>_read_command_pgid\<close> (operating system effects whose outcomes are
  arguments), fork, exec and prctl themselves, argument parsing by \<open>argparse\<close>, the health
  report, the texts of progress reports, the framing of the bridge protocol and the script
  that audits session logs.
\<close>

end
